(* ===== verification/Prelude.thy ===== *)
theory Prelude
  imports Main "HOL-Library.AList" "HOL-Library.Word" "HOL-Library.Multiset"
begin

text \<open>
  The shared vocabulary of the development: Go's time and duration values, the association
  lists that stand for Go maps, the string routines of the \<^verbatim>\<open>strings\<close> package the
  sources use, and the collections of lemmas the component theories draw on.

  \<^item> A \<^verbatim>\<open>time.Time\<close> is the number of nanoseconds since the Unix epoch, an \<open>int\<close>;
    \<^verbatim>\<open>Before\<close> and \<^verbatim>\<open>After\<close> are \<open><\<close> and \<open>>\<close>. The zero time
    (January 1 of the year 1) is \<open>zero_time\<close>.
  \<^item> A \<^verbatim>\<open>time.Duration\<close> is a number of nanoseconds. \<^verbatim>\<open>Time.Sub\<close> saturates
    at the ends of the 64-bit range, as the standard library documents.
  \<^item> A Go map is an association list with distinct keys. Go leaves the order of a
    \<^verbatim>\<open>range\<close> over a map open: the order of the list is the order of the iteration,
    and a theorem about every list is a theorem about every order.
  \<^item> A Go string is a sequence of bytes, a \<open>char list\<close>; \<^verbatim>\<open>len\<close> counts bytes.
\<close>

section \<open>Collections of lemmas\<close>

named_theorems kv_simps \<open>lookup and update of association lists\<close>
named_theorems err_simps \<open>the error values of Go and of pkg/domain-errors\<close>
named_theorems exec_simps \<open>the Execute pattern of the stores\<close>

section \<open>Time\<close>

type_synonym time = int
type_synonym duration = int

abbreviation (input) nanosecond :: duration where "nanosecond \<equiv> 1"
abbreviation millisecond :: duration where "millisecond \<equiv> 1000000"
abbreviation second :: duration where "second \<equiv> 1000000000"
abbreviation minute :: duration where "minute \<equiv> 60000000000"
abbreviation hour :: duration where "hour \<equiv> 3600000000000"

definition zero_time :: time where
  "zero_time = - 62135596800000000000"

definition time_IsZero :: "time \<Rightarrow> bool" where
  "time_IsZero t = (t = zero_time)"

definition max_duration :: duration where
  "max_duration = 9223372036854775807"

definition min_duration :: duration where
  "min_duration = - 9223372036854775808"

definition time_Sub :: "time \<Rightarrow> time \<Rightarrow> duration" where
  "time_Sub t u = max min_duration (min max_duration (t - u))"

text \<open>\<^verbatim>\<open>int(d.Seconds())\<close>: conversion to whole seconds, towards zero.\<close>

definition whole_seconds :: "duration \<Rightarrow> int" where
  "whole_seconds d = sgn d * (\<bar>d\<bar> div second)"

lemma time_Sub_le_iff: "c \<le> max_duration \<Longrightarrow> min_duration < c \<Longrightarrow> c \<le> time_Sub t u \<longleftrightarrow> c \<le> t - u"
  by (auto simp: time_Sub_def)

lemma time_Sub_less_iff: "c \<le> max_duration \<Longrightarrow> min_duration < c \<Longrightarrow> time_Sub t u < c \<longleftrightarrow> t - u < c"
  using time_Sub_le_iff[of c t u] by linarith

lemma whole_seconds_nonneg: "0 \<le> d \<Longrightarrow> 0 \<le> whole_seconds d"
  by (cases "d = 0") (auto simp: whole_seconds_def sgn_if)

lemma whole_seconds_mono: "0 \<le> d \<Longrightarrow> d \<le> e \<Longrightarrow> whole_seconds d \<le> whole_seconds e"
  by (auto simp: whole_seconds_def sgn_if zdiv_mono1)

section \<open>Go maps\<close>

type_synonym ('k, 'v) kv = "('k \<times> 'v) list"

abbreviation kv_get :: "('k, 'v) kv \<Rightarrow> 'k \<Rightarrow> 'v option" where
  "kv_get m k \<equiv> map_of m k"

abbreviation kv_put :: "('k, 'v) kv \<Rightarrow> 'k \<Rightarrow> 'v \<Rightarrow> ('k, 'v) kv" where
  "kv_put m k v \<equiv> AList.update k v m"

abbreviation kv_del :: "('k, 'v) kv \<Rightarrow> 'k \<Rightarrow> ('k, 'v) kv" where
  "kv_del m k \<equiv> AList.delete k m"

abbreviation kv_ok :: "('k, 'v) kv \<Rightarrow> bool" where
  "kv_ok m \<equiv> distinct (map fst m)"

definition kv_values :: "('k, 'v) kv \<Rightarrow> 'v list" where
  "kv_values m = map snd m"

text \<open>The loop \<^verbatim>\<open>for k, v := range m { if p(v) { delete(m, k) } }\<close>.\<close>

definition kv_delete_where :: "('v \<Rightarrow> bool) \<Rightarrow> ('k, 'v) kv \<Rightarrow> ('k, 'v) kv" where
  "kv_delete_where p m = filter (\<lambda>(k, v). \<not> p v) m"

lemma kv_get_put [kv_simps]: "kv_get (kv_put m k v) k' = (if k' = k then Some v else kv_get m k')"
  by (simp add: update_conv')

lemma kv_get_del [kv_simps]: "kv_get (kv_del m k) k' = (if k' = k then None else kv_get m k')"
  by (simp add: delete_conv')

lemma kv_ok_put [simp]: "kv_ok m \<Longrightarrow> kv_ok (kv_put m k v)"
  by (rule distinct_update)

lemma kv_ok_del [simp]: "kv_ok m \<Longrightarrow> kv_ok (kv_del m k)"
  by (rule distinct_delete)

lemma kv_ok_delete_where [simp]: "kv_ok m \<Longrightarrow> kv_ok (kv_delete_where p m)"
  by (induction m) (auto simp: kv_delete_where_def)

lemma kv_get_delete_where [kv_simps]:
  "kv_ok m \<Longrightarrow> kv_get (kv_delete_where p m) k =
     (case kv_get m k of None \<Rightarrow> None | Some v \<Rightarrow> if p v then None else Some v)"
proof (induction m)
  case Nil
  then show ?case by (simp add: kv_delete_where_def)
next
  case (Cons kv m)
  obtain k' v where kv: "kv = (k', v)" by (cases kv)
  have none: "map_of (filter (\<lambda>(k, v). \<not> p v) m) k' = None"
    using Cons.prems kv by (auto simp: map_of_eq_None_iff)
  show ?case
    using Cons none kv by (auto simp: kv_delete_where_def split: option.splits)
qed

lemma kv_values_iff: "kv_ok m \<Longrightarrow> v \<in> set (kv_values m) \<longleftrightarrow> (\<exists>k. kv_get m k = Some v)"
  by (force simp: kv_values_def)

lemma kv_get_in_values: "kv_get m k = Some v \<Longrightarrow> v \<in> set (kv_values m)"
  by (force simp: kv_values_def dest: map_of_SomeD)

lemma kv_put_set_subset: "set (kv_put m k v) \<subseteq> insert (k, v) (set m)"
  by (induction m) auto

lemma kv_del_set_subset: "set (kv_del m k) \<subseteq> set m"
  by (induction m) auto

lemma kv_values_del_subset: "set (kv_values (kv_del m k)) \<subseteq> set (kv_values m)"
  unfolding kv_values_def by (induction m) auto

lemma kv_values_delete_where: "set (kv_values (kv_delete_where p m)) \<subseteq> {v \<in> set (kv_values m). \<not> p v}"
  by (auto simp: kv_delete_where_def kv_values_def)

text \<open>A property of every entry of a map, the form the well-formedness invariants have.\<close>

definition kv_all :: "('k \<Rightarrow> 'v \<Rightarrow> bool) \<Rightarrow> ('k, 'v) kv \<Rightarrow> bool" where
  "kv_all P m = (\<forall>(k, v) \<in> set m. P k v)"

lemma kv_all_code [code]: "kv_all P m = list_all (\<lambda>(k, v). P k v) m"
  by (simp add: kv_all_def list_all_iff)

lemma kv_all_Nil [simp]: "kv_all P []"
  by (simp add: kv_all_def)

lemma kv_allD: "kv_all P m \<Longrightarrow> kv_get m k = Some v \<Longrightarrow> P k v"
  by (auto simp: kv_all_def dest!: map_of_SomeD)

lemma kv_all_put [intro]: "kv_all P m \<Longrightarrow> P k v \<Longrightarrow> kv_all P (kv_put m k v)"
  using kv_put_set_subset[of k v m] unfolding kv_all_def by blast

lemma kv_all_del [intro]: "kv_all P m \<Longrightarrow> kv_all P (kv_del m k)"
  using kv_del_set_subset[of k m] unfolding kv_all_def by blast

lemma kv_all_delete_where [intro]: "kv_all P m \<Longrightarrow> kv_all P (kv_delete_where p m)"
  by (auto simp: kv_all_def kv_delete_where_def)

lemma kv_all_get: "kv_ok m \<Longrightarrow> kv_all P m \<longleftrightarrow> (\<forall>k v. kv_get m k = Some v \<longrightarrow> P k v)"
  by (auto simp: kv_all_def)

text \<open>A lookup stays a lookup: it is not to be turned into membership in the list.\<close>

declare map_of_eq_Some_iff [simp del] Some_eq_map_of_iff [simp del]

lemma kv_put_fresh: "kv_get m k = None \<Longrightarrow> kv_put m k v = m @ [(k, v)]"
  by (induction m) (auto split: if_splits)

lemma kv_values_put_fresh: "kv_get m k = None \<Longrightarrow> kv_values (kv_put m k v) = kv_values m @ [v]"
  by (simp add: kv_put_fresh kv_values_def)

lemma kv_keys_put [kv_simps]: "fst ` set (kv_put m k v) = insert k (fst ` set m)"
  by (induction m) auto

lemma kv_keys_del [kv_simps]: "fst ` set (kv_del m k) = fst ` set m - {k}"
  by (induction m) (auto simp: image_iff)

lemma kv_values_distinct_del:
  "distinct (map f (kv_values m)) \<Longrightarrow> distinct (map f (kv_values (kv_del m k)))"
proof (induction m)
  case (Cons x m)
  then have "f (snd x) \<notin> f ` set (kv_values m)" "distinct (map f (kv_values (kv_del m k)))"
    by (simp_all add: kv_values_def image_image)
  moreover from this(1) kv_values_del_subset[of k m] have "f (snd x) \<notin> f ` set (kv_values (kv_del m k))"
    by blast
  ultimately show ?case by (cases x) (simp add: kv_values_def image_image)
qed (simp add: kv_values_def)

lemma kv_get_key: "kv_get m k = Some v \<Longrightarrow> k \<in> fst ` set m"
  by (metis fst_conv image_eqI map_of_SomeD)

lemma length_kv_put: "length (kv_put m k v) = (if k \<in> fst ` set m then length m else Suc (length m))"
  by (induction m) auto

lemma find_SomeD: "find P xs = Some x \<Longrightarrow> x \<in> set xs \<and> P x"
  by (induction xs) (auto split: if_splits)

lemma kv_valuesD:
  assumes "v \<in> set (kv_values m)" and "kv_ok m" and "kv_all (\<lambda>k v. key v = k \<and> P k v) m"
  shows "kv_get m (key v) = Some v" and "P (key v) v"
  using assms by (auto simp: kv_values_iff dest: kv_allD)

text \<open>
  How a map changes over time, seen at the keys of a set: an entry may go and does not come back, or
  it is changed as a relation on the values allows.
\<close>

definition kv_evolves :: "'k set \<Rightarrow> ('v \<Rightarrow> 'v \<Rightarrow> bool) \<Rightarrow> ('k, 'v) kv \<Rightarrow> ('k, 'v) kv \<Rightarrow> bool" where
  "kv_evolves N R m m' =
     (\<forall>k \<in> N. \<forall>v'. kv_get m' k = Some v' \<longrightarrow> (\<exists>v. kv_get m k = Some v \<and> R v v'))"

lemma kv_evolves_refl [simp]: "reflp R \<Longrightarrow> kv_evolves N R m m"
  by (simp add: kv_evolves_def reflp_def)

lemma kv_evolves_trans:
  "transp R \<Longrightarrow> kv_evolves N R m1 m2 \<Longrightarrow> kv_evolves N R m2 m3 \<Longrightarrow> kv_evolves N R m1 m3"
  unfolding kv_evolves_def by (metis transpE)

lemma kv_evolves_put:
  "reflp R \<Longrightarrow> kv_get m k = Some v \<Longrightarrow> R v v' \<Longrightarrow> kv_evolves N R m (kv_put m k v')"
  by (auto simp: kv_evolves_def kv_simps reflp_def)

lemma kv_evolves_fresh: "reflp R \<Longrightarrow> k \<notin> N \<Longrightarrow> kv_evolves N R m (kv_put m k v)"
  by (auto simp: kv_evolves_def kv_simps reflp_def)

lemma kv_evolves_delete_where:
  "reflp R \<Longrightarrow> kv_ok m \<Longrightarrow> kv_evolves N R m (kv_delete_where p m)"
  by (auto simp: kv_evolves_def kv_simps reflp_def split: option.splits if_splits)

lemma kv_evolvesD:
  "kv_evolves N R m m' \<Longrightarrow> k \<in> N \<Longrightarrow> kv_get m' k = Some v' \<Longrightarrow> \<exists>v. kv_get m k = Some v \<and> R v v'"
  by (simp add: kv_evolves_def)

section \<open>Strings\<close>

text \<open>
  \<^verbatim>\<open>strings.TrimSpace\<close> removes leading and trailing white space as Unicode defines it.
  The list holds the UTF-8 encodings of the code points with the property White Space.
\<close>

definition white_space_runes :: "string list" where
  "white_space_runes =
     [[CHR 0x09], [CHR 0x0A], [CHR 0x0B], [CHR 0x0C], [CHR 0x0D], [CHR 0x20],
      [CHR 0xC2, CHR 0x85], [CHR 0xC2, CHR 0xA0], [CHR 0xE1, CHR 0x9A, CHR 0x80],
      [CHR 0xE2, CHR 0x80, CHR 0x80], [CHR 0xE2, CHR 0x80, CHR 0x81],
      [CHR 0xE2, CHR 0x80, CHR 0x82], [CHR 0xE2, CHR 0x80, CHR 0x83],
      [CHR 0xE2, CHR 0x80, CHR 0x84], [CHR 0xE2, CHR 0x80, CHR 0x85],
      [CHR 0xE2, CHR 0x80, CHR 0x86], [CHR 0xE2, CHR 0x80, CHR 0x87],
      [CHR 0xE2, CHR 0x80, CHR 0x88], [CHR 0xE2, CHR 0x80, CHR 0x89],
      [CHR 0xE2, CHR 0x80, CHR 0x8A], [CHR 0xE2, CHR 0x80, CHR 0xA8],
      [CHR 0xE2, CHR 0x80, CHR 0xA9], [CHR 0xE2, CHR 0x80, CHR 0xAF],
      [CHR 0xE2, CHR 0x81, CHR 0x9F], [CHR 0xE3, CHR 0x80, CHR 0x80]]"

definition starts_with :: "string \<Rightarrow> string \<Rightarrow> bool" where
  "starts_with p s = (take (length p) s = p)"

text \<open>
  \<open>trim_front ws s\<close> drops members of \<open>ws\<close> from the front of \<open>s\<close> for as long as one is
  there; an empty member of \<open>ws\<close> is never matched.
\<close>

function trim_front :: "string list \<Rightarrow> string \<Rightarrow> string" where
  "trim_front ws s =
     (case find (\<lambda>w. w \<noteq> [] \<and> starts_with w s) ws of
        None \<Rightarrow> s
      | Some w \<Rightarrow> trim_front ws (drop (length w) s))"
  by pat_completeness auto
termination
proof (relation "measure (\<lambda>(ws, s). length s)", goal_cases)
  case 1
  show ?case by simp
next
  case (2 ws s w)
  then have "w \<noteq> []" and "take (length w) s = w"
    by (auto simp: find_Some_iff starts_with_def)
  then have "s \<noteq> []" and "0 < length w" by auto
  then show ?case by simp
qed

declare trim_front.simps [simp del]

definition TrimSpace :: "string \<Rightarrow> string" where
  "TrimSpace s = rev (trim_front (map rev white_space_runes) (rev (trim_front white_space_runes s)))"

definition trimmed_front :: "string list \<Rightarrow> string \<Rightarrow> bool" where
  "trimmed_front ws s = (\<forall>w \<in> set ws. w \<noteq> [] \<longrightarrow> \<not> starts_with w s)"

lemma trim_front_trimmed: "trimmed_front ws (trim_front ws s)"
proof (induction ws s rule: trim_front.induct)
  case (1 ws s)
  show ?case
  proof (cases "find (\<lambda>w. w \<noteq> [] \<and> starts_with w s) ws")
    case None
    then have "trim_front ws s = s" by (simp add: trim_front.simps[of ws s])
    with None show ?thesis by (auto simp: trimmed_front_def find_None_iff)
  next
    case (Some w)
    with "1" show ?thesis by (subst trim_front.simps) simp
  qed
qed

lemma trim_front_id: "trimmed_front ws s \<Longrightarrow> trim_front ws s = s"
proof -
  assume "trimmed_front ws s"
  then have "find (\<lambda>w. w \<noteq> [] \<and> starts_with w s) ws = None"
    by (auto simp: trimmed_front_def find_None_iff)
  then show ?thesis by (subst trim_front.simps) simp
qed

lemma trim_front_suffix: "\<exists>p. s = p @ trim_front ws s"
proof (induction ws s rule: trim_front.induct)
  case (1 ws s)
  show ?case
  proof (cases "find (\<lambda>w. w \<noteq> [] \<and> starts_with w s) ws")
    case None
    then show ?thesis by (subst trim_front.simps) simp
  next
    case (Some w)
    from "1"[OF Some] obtain p where "drop (length w) s = p @ trim_front ws (drop (length w) s)"
      by blast
    then have "s = (take (length w) s @ p) @ trim_front ws (drop (length w) s)"
      by (metis append_assoc append_take_drop_id)
    with Some show ?thesis by (auto simp: trim_front.simps[of ws s] intro: exI[of _ "take (length w) s @ p"])
  qed
qed

lemma trimmed_front_prefix: "trimmed_front ws (s @ t) \<Longrightarrow> trimmed_front ws s"
  by (fastforce simp: trimmed_front_def starts_with_def)

lemma TrimSpace_idem [simp]: "TrimSpace (TrimSpace s) = TrimSpace s"
proof -
  let ?ws = white_space_runes
  let ?t = "trim_front ?ws s"
  let ?r = "trim_front (map rev ?ws) (rev ?t)"
  obtain p where "rev ?t = p @ ?r" using trim_front_suffix by blast
  then have "?t = rev ?r @ rev p" by (metis rev_append rev_rev_ident)
  then have "trimmed_front ?ws (rev ?r)"
    using trim_front_trimmed[of ?ws s] trimmed_front_prefix by metis
  then have "trim_front ?ws (rev ?r) = rev ?r" by (rule trim_front_id)
  moreover have "trim_front (map rev ?ws) ?r = ?r"
    by (rule trim_front_id) (rule trim_front_trimmed)
  ultimately show ?thesis by (simp add: TrimSpace_def)
qed

lemma TrimSpace_Nil [simp]: "TrimSpace [] = []"
  by (simp add: TrimSpace_def trim_front_id trimmed_front_def starts_with_def)

text \<open>
  \<^verbatim>\<open>strings.ToLower\<close>: a byte-wise map on an ASCII string. On any other string the
  result comes from the Unicode case tables, which are the parameter \<open>uni\<close>.
\<close>

definition ascii_lower :: "char \<Rightarrow> char" where
  "ascii_lower c = (if 65 \<le> (of_char c :: nat) \<and> (of_char c :: nat) \<le> 90
                    then char_of ((of_char c :: nat) + 32) else c)"

definition is_ascii :: "string \<Rightarrow> bool" where
  "is_ascii s = list_all (\<lambda>c. (of_char c :: nat) < 128) s"

definition ToLower :: "(string \<Rightarrow> string) \<Rightarrow> string \<Rightarrow> string" where
  "ToLower uni s = (if is_ascii s then map ascii_lower s else uni s)"

definition has_prefix :: "string \<Rightarrow> string \<Rightarrow> bool" where
  "has_prefix s p = starts_with p s"

definition TrimPrefix :: "string \<Rightarrow> string \<Rightarrow> string" where
  "TrimPrefix s p = (if starts_with p s then drop (length p) s else s)"

text \<open>\<^verbatim>\<open>strings.Contains\<close>.\<close>

fun str_contains :: "string \<Rightarrow> string \<Rightarrow> bool" where
  "str_contains [] p = (p = [])"
| "str_contains (c # s) p = (starts_with p (c # s) \<or> str_contains s p)"

fun str_join :: "string list \<Rightarrow> string \<Rightarrow> string" where
  "str_join [] sep = []"
| "str_join [s] sep = s"
| "str_join (s # t # ss) sep = s @ sep @ str_join (t # ss) sep"

lemma starts_with_Nil [simp]: "starts_with [] s"
  by (simp add: starts_with_def)

lemma starts_with_append [simp]: "starts_with p (p @ s)"
  by (simp add: starts_with_def)

lemma starts_with_Cons [simp]:
  "starts_with (c # p) [] = False"
  "starts_with (c # p) (d # s) = (c = d \<and> starts_with p s)"
  by (auto simp: starts_with_def)

section \<open>Lists\<close>

text \<open>\<^verbatim>\<open>for _, x := range xs { if err := f(x); err != nil { return err } }\<close>.\<close>

fun first_error :: "('a \<Rightarrow> 'e option) \<Rightarrow> 'a list \<Rightarrow> 'e option" where
  "first_error f [] = None"
| "first_error f (x # xs) = (case f x of None \<Rightarrow> first_error f xs | Some e \<Rightarrow> Some e)"

lemma first_error_None_iff: "first_error f xs = None \<longleftrightarrow> (\<forall>x \<in> set xs. f x = None)"
  by (induction xs) (auto split: option.splits)

lemma first_error_SomeD: "first_error f xs = Some e \<Longrightarrow> \<exists>x \<in> set xs. f x = Some e"
  by (induction xs) (auto split: option.splits)

section \<open>Decimal rendering\<close>

text \<open>The verb \<^verbatim>\<open>%d\<close> of \<^verbatim>\<open>fmt.Sprintf\<close>, and \<^verbatim>\<open>strconv.Itoa\<close>, on
  naturals.\<close>

definition digit :: "nat \<Rightarrow> char" where
  "digit n = char_of (48 + n mod 10)"

fun itoa :: "nat \<Rightarrow> string" where
  "itoa n = (if n < 10 then [digit n] else itoa (n div 10) @ [digit n])"

declare itoa.simps [simp del]

lemma digit_inj: "digit m = digit n \<longleftrightarrow> m mod 10 = n mod 10"
proof -
  have "(of_char (digit k) :: nat) = 48 + k mod 10" for k
    unfolding digit_def by (simp add: of_char_of mod_less_divisor less_le_trans[of _ 10])
  then show ?thesis by (metis add_left_cancel digit_def)
qed

lemma itoa_nonempty [simp]: "itoa n \<noteq> []" "[] \<noteq> itoa n"
  by (subst itoa.simps, simp)+

lemma itoa_inj: "itoa m = itoa n \<Longrightarrow> m = n"
proof (induction m arbitrary: n rule: itoa.induct)
  case (1 m)
  show ?case
  proof (cases "m < 10")
    case True
    with 1(2) show ?thesis
      by (cases "n < 10") (auto simp: itoa.simps[of m] itoa.simps[of n] digit_inj)
  next
    case False
    with 1(2) have "\<not> n < 10"
      by (auto simp: itoa.simps[of m] itoa.simps[of n])
    with False 1(2) have "itoa (m div 10) = itoa (n div 10)" "m mod 10 = n mod 10"
      by (auto simp: itoa.simps[of m] itoa.simps[of n] digit_inj)
    with 1(1)[OF False] show ?thesis by (metis div_mult_mod_eq)
  qed
qed

end
