(* ===== verification/Domain.thy ===== *)
theory Domain
  imports Prelude
begin

text \<open>
  The domain kernel: \<^verbatim>\<open>pkg/domain\<close> (identifiers, consent purposes, API versions, grant
  types), \<^verbatim>\<open>pkg/domain-errors\<close> and \<^verbatim>\<open>pkg/platform/sentinel\<close> (errors),
  \<^verbatim>\<open>pkg/platform/strings\<close>, \<^verbatim>\<open>pkg/platform/validation\<close>, and the part of
  \<^verbatim>\<open>pkg/requestcontext\<close> the services read.

  Errors are values of \<open>go_error\<close>: a sentinel, a plain \<^verbatim>\<open>fmt.Errorf\<close>, a wrapping
  \<^verbatim>\<open>fmt.Errorf("...: %w")\<close>, or a \<^verbatim>\<open>*domainerrors.Error\<close>.
  \<^verbatim>\<open>errors.As\<close> and \<^verbatim>\<open>errors.Is\<close> walk the chain as Go does. An operation that
  returns \<^verbatim>\<open>error\<close> returns \<open>go_error option\<close>; one that returns a value or an error
  returns \<open>go_error + 'a\<close>.

  The package \<^verbatim>\<open>github.com/google/uuid\<close> is not part of the repository: \<^verbatim>\<open>uuid.Parse\<close>
  is the parameter \<open>uuid_Parse\<close> of the functions that call it.
\<close>

section \<open>Errors\<close>

datatype Code =
    CodeNotFound | CodeBadRequest | CodeInvalidInput | CodeValidation | CodeInternal
  | CodeConflict | CodeUnauthorized | CodeForbidden | CodeInvalidConsent | CodeMissingConsent
  | CodePolicyViolation | CodeTimeout | CodeInvariantViolation
  | CodeInvalidGrant | CodeInvalidClient | CodeUnsupportedGrantType | CodeInvalidRequest
  | CodeAccessDenied

datatype sentinel =
    ErrNotFound | ErrConflict | ErrExpired | ErrAlreadyUsed | ErrInvalidState | ErrUnavailable

datatype go_error =
    Sentinel sentinel
  | Errorf string
  | ErrorfW string go_error
  | DError Code string "go_error option"

type_synonym 'a result = "go_error + 'a"

fun Code_String :: "Code \<Rightarrow> string" where
  "Code_String CodeNotFound = ''not_found''"
| "Code_String CodeBadRequest = ''bad_request''"
| "Code_String CodeInvalidInput = ''invalid_input''"
| "Code_String CodeValidation = ''validation_failed''"
| "Code_String CodeInternal = ''internal_error''"
| "Code_String CodeConflict = ''conflict''"
| "Code_String CodeUnauthorized = ''unauthorized''"
| "Code_String CodeForbidden = ''forbidden''"
| "Code_String CodeInvalidConsent = ''invalid_consent''"
| "Code_String CodeMissingConsent = ''missing_consent''"
| "Code_String CodePolicyViolation = ''policy_violation''"
| "Code_String CodeTimeout = ''timeout''"
| "Code_String CodeInvariantViolation = ''invariant_violation''"
| "Code_String CodeInvalidGrant = ''invalid_grant''"
| "Code_String CodeInvalidClient = ''invalid_client''"
| "Code_String CodeUnsupportedGrantType = ''unsupported_grant_type''"
| "Code_String CodeInvalidRequest = ''invalid_request''"
| "Code_String CodeAccessDenied = ''access_denied''"

fun Sentinel_String :: "sentinel \<Rightarrow> string" where
  "Sentinel_String ErrNotFound = ''not found''"
| "Sentinel_String ErrConflict = ''conflict''"
| "Sentinel_String ErrExpired = ''expired''"
| "Sentinel_String ErrAlreadyUsed = ''already used''"
| "Sentinel_String ErrInvalidState = ''invalid state''"
| "Sentinel_String ErrUnavailable = ''unavailable''"

text \<open>The method \<^verbatim>\<open>Error()\<close> of each kind of error.\<close>

fun error_Error :: "go_error \<Rightarrow> string" where
  "error_Error (Sentinel s) = Sentinel_String s"
| "error_Error (Errorf m) = m"
| "error_Error (ErrorfW m e) = m @ '': '' @ error_Error e"
| "error_Error (DError c m _) = (if m \<noteq> [] then m else Code_String c)"

text \<open>\<^verbatim>\<open>errors.As(err, &de)\<close> with \<^verbatim>\<open>de\<close> a \<^verbatim>\<open>*domainerrors.Error\<close>: the
  code and message of the first domain error of the chain.\<close>

fun errors_As :: "go_error \<Rightarrow> (Code \<times> string) option" where
  "errors_As (Sentinel s) = None"
| "errors_As (Errorf m) = None"
| "errors_As (ErrorfW m e) = errors_As e"
| "errors_As (DError c m _) = Some (c, m)"

text \<open>
  \<^verbatim>\<open>errors.Is\<close>: the target itself, or an error it wraps, or a domain error with the
  code of a target that is a domain error (the method \<^verbatim>\<open>(*Error).Is\<close>).
\<close>

definition error_matches :: "go_error \<Rightarrow> go_error \<Rightarrow> bool" where
  "error_matches e t = (e = t \<or> (case (e, t) of (DError c _ _, DError c' _ _) \<Rightarrow> c = c' | _ \<Rightarrow> False))"

fun errors_Is :: "go_error \<Rightarrow> go_error \<Rightarrow> bool" where
  "errors_Is (Sentinel s) t = error_matches (Sentinel s) t"
| "errors_Is (Errorf m) t = error_matches (Errorf m) t"
| "errors_Is (ErrorfW m e) t = (error_matches (ErrorfW m e) t \<or> errors_Is e t)"
| "errors_Is (DError c m None) t = error_matches (DError c m None) t"
| "errors_Is (DError c m (Some e)) t = (error_matches (DError c m (Some e)) t \<or> errors_Is e t)"

definition dErrors_New :: "Code \<Rightarrow> string \<Rightarrow> go_error" where
  "dErrors_New c m = DError c m None"

definition dErrors_Wrap :: "go_error \<Rightarrow> Code \<Rightarrow> string \<Rightarrow> go_error" where
  "dErrors_Wrap e c m =
     (case errors_As e of
        Some (c', _) \<Rightarrow> DError c' m (Some e)
      | None \<Rightarrow> DError c m (Some e))"

definition HasCode :: "go_error \<Rightarrow> Code \<Rightarrow> bool" where
  "HasCode e c = (case errors_As e of Some (c', _) \<Rightarrow> c' = c | None \<Rightarrow> False)"

text \<open>A result that is an error with a given code: the form the specifications of the
  operations use.\<close>

definition fails_with :: "'a result \<Rightarrow> Code \<Rightarrow> bool" where
  "fails_with r c = (case r of Inl e \<Rightarrow> HasCode e c | Inr _ \<Rightarrow> False)"

section \<open>Identifiers\<close>

type_synonym uuid = "128 word"

datatype UserID = UserID uuid
datatype SessionID = SessionID uuid
datatype ClientID = ClientID uuid
datatype TenantID = TenantID uuid
datatype ConsentID = ConsentID uuid
type_synonym APIKeyID = string

fun UserID_IsNil :: "UserID \<Rightarrow> bool" where "UserID_IsNil (UserID u) = (u = 0)"
fun SessionID_IsNil :: "SessionID \<Rightarrow> bool" where "SessionID_IsNil (SessionID u) = (u = 0)"
fun ClientID_IsNil :: "ClientID \<Rightarrow> bool" where "ClientID_IsNil (ClientID u) = (u = 0)"
fun TenantID_IsNil :: "TenantID \<Rightarrow> bool" where "TenantID_IsNil (TenantID u) = (u = 0)"
fun ConsentID_IsNil :: "ConsentID \<Rightarrow> bool" where "ConsentID_IsNil (ConsentID u) = (u = 0)"

definition APIKeyID_IsNil :: "APIKeyID \<Rightarrow> bool" where "APIKeyID_IsNil k = (k = [])"

definition parseUUID :: "(string \<Rightarrow> uuid option) \<Rightarrow> string \<Rightarrow> string \<Rightarrow> uuid result" where
  "parseUUID uuid_Parse s label =
     (if s = [] then Inl (dErrors_New CodeInvalidInput (label @ '' cannot be empty''))
      else case uuid_Parse s of
             None \<Rightarrow> Inl (dErrors_New CodeInvalidInput (''invalid '' @ label @ '' format''))
           | Some u \<Rightarrow> Inr u)"

text \<open>The documented behaviour of the uuid package: a printed identifier is not empty and parses to itself.\<close>

definition uuid_round_trip :: "(string \<Rightarrow> uuid option) \<Rightarrow> (uuid \<Rightarrow> string) \<Rightarrow> bool" where
  "uuid_round_trip uuid_Parse uuid_String \<longleftrightarrow> (\<forall>u. uuid_Parse (uuid_String u) = Some u \<and> uuid_String u \<noteq> [])"

definition ParseUserID :: "(string \<Rightarrow> uuid option) \<Rightarrow> string \<Rightarrow> UserID result" where
  "ParseUserID uuid_Parse s = map_sum id UserID (parseUUID uuid_Parse s ''user ID'')"

definition ParseSessionID :: "(string \<Rightarrow> uuid option) \<Rightarrow> string \<Rightarrow> SessionID result" where
  "ParseSessionID uuid_Parse s = map_sum id SessionID (parseUUID uuid_Parse s ''session ID'')"

definition ParseClientID :: "(string \<Rightarrow> uuid option) \<Rightarrow> string \<Rightarrow> ClientID result" where
  "ParseClientID uuid_Parse s = map_sum id ClientID (parseUUID uuid_Parse s ''client ID'')"

definition ParseTenantID :: "(string \<Rightarrow> uuid option) \<Rightarrow> string \<Rightarrow> TenantID result" where
  "ParseTenantID uuid_Parse s = map_sum id TenantID (parseUUID uuid_Parse s ''tenant ID'')"

definition ParseConsentID :: "(string \<Rightarrow> uuid option) \<Rightarrow> string \<Rightarrow> ConsentID result" where
  "ParseConsentID uuid_Parse s = map_sum id ConsentID (parseUUID uuid_Parse s ''consent ID'')"

definition ParseAPIKeyID :: "string \<Rightarrow> APIKeyID result" where
  "ParseAPIKeyID s = (if s = [] then Inl (dErrors_New CodeInvalidInput ''API key ID cannot be empty'')
                      else Inr s)"

datatype NationalID = NationalID string

fun NationalID_String :: "NationalID \<Rightarrow> string" where
  "NationalID_String (NationalID s) = s"

fun NationalID_IsNil :: "NationalID \<Rightarrow> bool" where
  "NationalID_IsNil (NationalID s) = (s = [])"

text \<open>The regular expression \<^verbatim>\<open>^[A-Z0-9]{6,20}$\<close>.\<close>

definition nationalIDPattern :: "string \<Rightarrow> bool" where
  "nationalIDPattern s =
     (6 \<le> length s \<and> length s \<le> 20 \<and>
      list_all (\<lambda>c. let n = (of_char c :: nat) in 65 \<le> n \<and> n \<le> 90 \<or> 48 \<le> n \<and> n \<le> 57) s)"

definition ParseNationalID :: "string \<Rightarrow> NationalID result" where
  "ParseNationalID s =
     (if s = [] then Inl (dErrors_New CodeInvalidInput ''national_id is required'')
      else if \<not> nationalIDPattern s then
        Inl (dErrors_New CodeInvalidInput
          ''national_id has invalid format: must be 6-20 alphanumeric characters'')
      else Inr (NationalID s))"

section \<open>Consent purposes, API versions, grant types\<close>

text \<open>
  These are string types in Go, so a value outside the named constants exists; the
  constructors \<open>ConsentPurposeOther\<close> and \<open>GrantTypeOther\<close> hold it. The conversion
  \<^verbatim>\<open>ConsentPurpose(s)\<close> is \<open>ConsentPurpose_of\<close>.
\<close>

datatype ConsentPurpose =
    ConsentPurposeLogin | ConsentPurposeRegistryCheck | ConsentPurposeVCIssuance
  | ConsentPurposeDecision | ConsentPurposeOther string

fun ConsentPurpose_String :: "ConsentPurpose \<Rightarrow> string" where
  "ConsentPurpose_String ConsentPurposeLogin = ''login''"
| "ConsentPurpose_String ConsentPurposeRegistryCheck = ''registry_check''"
| "ConsentPurpose_String ConsentPurposeVCIssuance = ''vc_issuance''"
| "ConsentPurpose_String ConsentPurposeDecision = ''decision_evaluation''"
| "ConsentPurpose_String (ConsentPurposeOther s) = s"

definition ConsentPurpose_of :: "string \<Rightarrow> ConsentPurpose" where
  "ConsentPurpose_of s =
     (if s = ''login'' then ConsentPurposeLogin
      else if s = ''registry_check'' then ConsentPurposeRegistryCheck
      else if s = ''vc_issuance'' then ConsentPurposeVCIssuance
      else if s = ''decision_evaluation'' then ConsentPurposeDecision
      else ConsentPurposeOther s)"

definition validConsentPurposes :: "ConsentPurpose list" where
  "validConsentPurposes =
     [ConsentPurposeLogin, ConsentPurposeRegistryCheck, ConsentPurposeVCIssuance,
      ConsentPurposeDecision]"

definition ConsentPurpose_IsValid :: "ConsentPurpose \<Rightarrow> bool" where
  "ConsentPurpose_IsValid p = (p \<in> set validConsentPurposes)"

definition ParseConsentPurpose :: "string \<Rightarrow> ConsentPurpose result" where
  "ParseConsentPurpose s =
     (if s = [] then Inl (dErrors_New CodeInvalidInput ''purpose cannot be empty'')
      else let p = ConsentPurpose_of s in
        if \<not> ConsentPurpose_IsValid p then Inl (dErrors_New CodeInvalidInput ''invalid purpose'')
        else Inr p)"

type_synonym APIVersion = string

abbreviation APIVersionV1 :: APIVersion where "APIVersionV1 \<equiv> ''v1''"

definition versionOrder :: "APIVersion \<Rightarrow> int option" where
  "versionOrder = map_of [(APIVersionV1, 1)]"

definition ParseAPIVersion :: "string \<Rightarrow> APIVersion result" where
  "ParseAPIVersion s =
     (case versionOrder s of None \<Rightarrow> Inl (Errorf (''unknown API version: '' @ s)) | Some _ \<Rightarrow> Inr s)"

definition APIVersion_IsNil :: "APIVersion \<Rightarrow> bool" where
  "APIVersion_IsNil v = (v = [])"

definition APIVersion_IsAtLeast :: "APIVersion \<Rightarrow> APIVersion \<Rightarrow> bool" where
  "APIVersion_IsAtLeast v other =
     (case versionOrder v of
        None \<Rightarrow> False
      | Some i \<Rightarrow> (case versionOrder other of None \<Rightarrow> True | Some j \<Rightarrow> j \<le> i))"

datatype GrantType =
    GrantTypeAuthorizationCode | GrantTypeRefreshToken | GrantTypeClientCredentials
  | GrantTypeOther string

fun GrantType_String :: "GrantType \<Rightarrow> string" where
  "GrantType_String GrantTypeAuthorizationCode = ''authorization_code''"
| "GrantType_String GrantTypeRefreshToken = ''refresh_token''"
| "GrantType_String GrantTypeClientCredentials = ''client_credentials''"
| "GrantType_String (GrantTypeOther s) = s"

fun GrantType_IsValid :: "GrantType \<Rightarrow> bool" where
  "GrantType_IsValid (GrantTypeOther s) = False"
| "GrantType_IsValid _ = True"

definition RequiresConfidentialClient :: "GrantType \<Rightarrow> bool" where
  "RequiresConfidentialClient g = (g = GrantTypeClientCredentials)"

section \<open>String and validation helpers\<close>

text \<open>
  The loop of \<^verbatim>\<open>DedupeAndTrim\<close>: \<open>seen\<close> is the set of values already kept, which the
  code holds in a map, and \<open>norm\<close> is the normalisation applied to each element.
\<close>

fun dedupe_loop :: "(string \<Rightarrow> string) \<Rightarrow> string list \<Rightarrow> string list \<Rightarrow> string list" where
  "dedupe_loop norm seen [] = []"
| "dedupe_loop norm seen (v # vs) =
     (let t = norm v in
      if t = [] then dedupe_loop norm seen vs
      else if t \<in> set seen then dedupe_loop norm seen vs
      else t # dedupe_loop norm (t # seen) vs)"

definition DedupeAndTrim :: "string list \<Rightarrow> string list" where
  "DedupeAndTrim values = (if values = [] then values else dedupe_loop TrimSpace [] values)"

definition DedupeAndTrimLower :: "(string \<Rightarrow> string) \<Rightarrow> string list \<Rightarrow> string list" where
  "DedupeAndTrimLower uni values =
     (if values = [] then values else dedupe_loop (\<lambda>v. ToLower uni (TrimSpace v)) [] values)"

definition TrimSpacePtr :: "string option \<Rightarrow> string option" where
  "TrimSpacePtr s = map_option TrimSpace s"

definition DedupeAndTrimPtr :: "string list option \<Rightarrow> string list option" where
  "DedupeAndTrimPtr values = map_option DedupeAndTrim values"

definition DedupeAndTrimLowerPtr :: "(string \<Rightarrow> string) \<Rightarrow> string list option \<Rightarrow> string list option" where
  "DedupeAndTrimLowerPtr uni values = map_option (DedupeAndTrimLower uni) values"

definition MaxBodySize :: nat where "MaxBodySize = 64 * 1024"
definition MaxScopes :: nat where "MaxScopes = 20"
definition MaxRedirectURIs :: nat where "MaxRedirectURIs = 10"
definition MaxPurposes :: nat where "MaxPurposes = 50"
definition MaxGrants :: nat where "MaxGrants = 10"
definition MaxScopeLength :: nat where "MaxScopeLength = 100"
definition MaxRedirectURILength :: nat where "MaxRedirectURILength = 2048"
definition MaxPurposeIDLength :: nat where "MaxPurposeIDLength = 100"
definition MaxEmailLength :: nat where "MaxEmailLength = 255"
definition MaxClientIDLength :: nat where "MaxClientIDLength = 100"
definition MaxTenantIDLength :: nat where "MaxTenantIDLength = 100"
definition MaxStateLength :: nat where "MaxStateLength = 500"
definition MaxCodeLength :: nat where "MaxCodeLength = 256"
definition MaxRefreshTokenLength :: nat where "MaxRefreshTokenLength = 256"

definition CheckSliceCount :: "string \<Rightarrow> nat \<Rightarrow> nat \<Rightarrow> go_error option" where
  "CheckSliceCount fieldName n limit =
     (if n > limit
      then Some (dErrors_New CodeValidation
             (''too many '' @ fieldName @ '': max '' @ itoa limit @ '' allowed''))
      else None)"

definition CheckStringLength :: "string \<Rightarrow> string \<Rightarrow> nat \<Rightarrow> go_error option" where
  "CheckStringLength fieldName v limit =
     (if length v > limit
      then Some (dErrors_New CodeValidation (fieldName @ '' exceeds max length of '' @ itoa limit))
      else None)"

definition CheckEachStringLength :: "string \<Rightarrow> string list \<Rightarrow> nat \<Rightarrow> go_error option" where
  "CheckEachStringLength fieldName values limit =
     first_error (\<lambda>v. if length v > limit
        then Some (dErrors_New CodeValidation (fieldName @ '' exceeds max length of '' @ itoa limit))
        else None) values"

section \<open>The request context\<close>

text \<open>
  What the services read of a \<^verbatim>\<open>context.Context\<close>: the request time and the signals the
  middleware stores, and the two observations of \<^verbatim>\<open>ctx.Err()\<close> a transaction makes, on
  entry and once it holds its lock.
\<close>

record ctx =
  ctx_Now :: time
  ctx_DeviceID :: string
  ctx_DeviceFingerprint :: string
  ctx_UserAgent :: string
  ctx_APIVersion :: APIVersion
  ctx_RequestID :: string
  ctx_AdminActorID :: string
  ctx_ErrEntry :: "go_error option"
  ctx_ErrLocked :: "go_error option"

text \<open>A context that carries nothing but a request time.\<close>

definition ctx_at :: "time \<Rightarrow> ctx" where
  "ctx_at t = \<lparr> ctx_Now = t, ctx_DeviceID = [], ctx_DeviceFingerprint = [], ctx_UserAgent = [], ctx_APIVersion = [],
     ctx_RequestID = [], ctx_AdminActorID = [], ctx_ErrEntry = None, ctx_ErrLocked = None \<rparr>"

lemma ctx_Now_at [simp]: "ctx_Now (ctx_at t) = t"
  by (simp add: ctx_at_def)

text \<open>
  The body the three in-memory transactions share (\<^verbatim>\<open>authTx.RunInTx\<close>,
  \<^verbatim>\<open>inMemoryConsentTx.RunInTx\<close>, \<^verbatim>\<open>inMemoryStoreTx.RunInTx\<close>): two checks of the
  context around the acquisition of the mutex, then the function. There is no rollback: the
  state the function leaves behind stays, whether it returns an error or not.
\<close>

definition run_in_tx :: "ctx \<Rightarrow> ('s \<Rightarrow> 's \<times> 'r result) \<Rightarrow> 's \<Rightarrow> 's \<times> 'r result" where
  "run_in_tx c fn st =
     (case ctx_ErrEntry c of
        Some e \<Rightarrow> (st, Inl (dErrors_Wrap e CodeTimeout ''transaction aborted: context cancelled''))
      | None \<Rightarrow>
          (case ctx_ErrLocked c of
             Some e \<Rightarrow> (st, Inl (dErrors_Wrap e CodeTimeout ''transaction aborted: context cancelled''))
           | None \<Rightarrow> fn st))"

section \<open>Attributes of audit entries\<close>

text \<open>
  The attribute list of an audit log entry (\<^verbatim>\<open>pkg/platform/attrs\<close>) mixes keys and values of any type; only values whose
  type is \<^verbatim>\<open>string\<close> itself can be extracted from it.
\<close>

datatype attr = AString string | AOther

fun ExtractString :: "(string \<times> attr) list \<Rightarrow> string \<Rightarrow> string" where
  "ExtractString [] key = []"
| "ExtractString ((k, v) # attrs) key =
     (if k = key then (case v of AString s \<Rightarrow> s | AOther \<Rightarrow> ExtractString attrs key) else ExtractString attrs key)"

definition first_nonempty :: "string list \<Rightarrow> string" where
  "first_nonempty vs = (case filter (\<lambda>v. v \<noteq> []) vs of [] \<Rightarrow> [] | v # _ \<Rightarrow> v)"

section \<open>Lemmas about errors\<close>

lemma errors_As_New [err_simps]: "errors_As (dErrors_New c m) = Some (c, m)"
  by (simp add: dErrors_New_def)

lemma errors_As_Wrap [err_simps]:
  "errors_As (dErrors_Wrap e c m) =
     Some (case errors_As e of Some (c', _) \<Rightarrow> c' | None \<Rightarrow> c, m)"
  by (auto simp: dErrors_Wrap_def split: option.splits)

lemma HasCode_New [err_simps]: "HasCode (dErrors_New c m) c' \<longleftrightarrow> c = c'"
  by (simp add: HasCode_def err_simps)

lemma HasCode_Wrap [err_simps]:
  "HasCode (dErrors_Wrap e c m) c' \<longleftrightarrow> (case errors_As e of Some (d, _) \<Rightarrow> d | None \<Rightarrow> c) = c'"
  by (auto simp: HasCode_def err_simps split: option.splits)

lemma HasCode_simps [err_simps]:
  "HasCode (Sentinel s) c \<longleftrightarrow> False"
  "HasCode (Errorf m) c \<longleftrightarrow> False"
  "HasCode (ErrorfW m e) c \<longleftrightarrow> HasCode e c"
  "HasCode (DError c' m o') c \<longleftrightarrow> c' = c"
  by (simp_all add: HasCode_def)

lemma error_matches_sentinel [err_simps]:
  "error_matches (Sentinel s) (Sentinel s') \<longleftrightarrow> s = s'"
  "error_matches (Errorf m) (Sentinel s') \<longleftrightarrow> False"
  "error_matches (ErrorfW m e) (Sentinel s') \<longleftrightarrow> False"
  "error_matches (DError c m o') (Sentinel s') \<longleftrightarrow> False"
  by (auto simp: error_matches_def)

lemma errors_Is_sentinel [err_simps]:
  "errors_Is (Sentinel s) (Sentinel s') \<longleftrightarrow> s = s'"
  "errors_Is (Errorf m) (Sentinel s') \<longleftrightarrow> False"
  "errors_Is (ErrorfW m e) (Sentinel s') \<longleftrightarrow> errors_Is e (Sentinel s')"
  "errors_Is (dErrors_New c m) (Sentinel s') \<longleftrightarrow> False"
  "errors_Is (dErrors_Wrap e c m) (Sentinel s') \<longleftrightarrow> errors_Is e (Sentinel s')"
  by (auto simp: err_simps dErrors_New_def dErrors_Wrap_def split: option.splits)

lemma fails_with_simps [err_simps]:
  "fails_with (Inl e) c = HasCode e c"
  "fails_with (Inr x) c = False"
  by (simp_all add: fails_with_def)

lemma fails_withD: "fails_with r c \<Longrightarrow> \<exists>e. r = Inl e \<and> HasCode e c"
  by (cases r) (auto simp: err_simps)

lemma run_in_tx_ok [simp]:
  "ctx_ErrEntry c = None \<Longrightarrow> ctx_ErrLocked c = None \<Longrightarrow> run_in_tx c fn st = fn st"
  by (simp add: run_in_tx_def)

text \<open>A transaction either does not start, and leaves the state as it was, or it is its body.\<close>

lemma run_in_tx_cases:
  obtains (aborted) e where "run_in_tx c fn st = (st, Inl e)"
  | (ran) "run_in_tx c fn st = fn st"
  by (cases "ctx_ErrEntry c"; cases "ctx_ErrLocked c") (auto simp: run_in_tx_def)

lemma run_in_tx_Inr: "run_in_tx c fn st = (st', Inr r) \<Longrightarrow> fn st = (st', Inr r)"
  by (auto simp: run_in_tx_def split: option.splits)

lemma run_in_tx_state:
  assumes "P st" and "P (fst (fn st))"
  shows "P (fst (run_in_tx c fn st))"
  using assms by (auto simp: run_in_tx_def split: option.splits)

section \<open>Lemmas about the values\<close>

lemma ConsentPurpose_String_of [simp]: "ConsentPurpose_String (ConsentPurpose_of s) = s"
  by (simp add: ConsentPurpose_of_def)

lemma ConsentPurpose_of_String:
  "ConsentPurpose_IsValid p \<Longrightarrow> ConsentPurpose_of (ConsentPurpose_String p) = p"
  by (auto simp: ConsentPurpose_IsValid_def validConsentPurposes_def ConsentPurpose_of_def)

lemma dedupe_loop_set:
  "set (dedupe_loop norm seen vs) = {t \<in> norm ` set vs. t \<noteq> []} - set seen"
  by (induction norm seen vs rule: dedupe_loop.induct) (auto simp: Let_def)

lemma dedupe_loop_distinct: "distinct (dedupe_loop norm seen vs)"
  by (induction norm seen vs rule: dedupe_loop.induct) (auto simp: Let_def dedupe_loop_set)

lemma dedupe_loop_id:
  "distinct vs \<Longrightarrow> set vs \<inter> set seen = {} \<Longrightarrow> [] \<notin> set vs \<Longrightarrow> (\<And>v. v \<in> set vs \<Longrightarrow> norm v = v) \<Longrightarrow>
   dedupe_loop norm seen vs = vs"
  by (induction norm seen vs rule: dedupe_loop.induct) (auto simp: Let_def)

end
