(* ===== verification/Stores.thy ===== *)
theory Stores
  imports Domain
begin

text \<open>
  The contract of the \<^verbatim>\<open>Execute\<close> operation, which the stores of sessions, authorization
  codes, refresh tokens, tenants, clients and consents share: under the store's lock, look the
  record up, run a validation callback on it, and, when that returns nil, run a mutation callback
  and keep its result. Services rely on this contract for atomic check-then-change; the
  component theories interpret it on the models of their stores.

  An \<^verbatim>\<open>Execute\<close> returns \<^verbatim>\<open>(*T, error)\<close>, modelled as a pair of options. Some
  stores return the record together with the validation error, so that the caller can see what
  was rejected; \<open>shown\<close> says what a store returns then.
\<close>

type_synonym 'v exec_result = "'v option \<times> go_error option"

section \<open>The contract\<close>

locale execute_store =
  fixes lookup :: "'st \<Rightarrow> 'k \<Rightarrow> 'v option"
    and execute :: "'st \<Rightarrow> 'k \<Rightarrow> ('v \<Rightarrow> go_error option) \<Rightarrow> ('v \<Rightarrow> 'v) \<Rightarrow> 'st \<times> 'v exec_result"
    and shown :: "'v \<Rightarrow> 'v option"
    and valid :: "'st \<Rightarrow> bool"
  assumes execute_missing:
      "valid st \<Longrightarrow> lookup st k = None \<Longrightarrow>
       execute st k validate mutate = (st, None, Some (Sentinel ErrNotFound))"
    and execute_rejected:
      "valid st \<Longrightarrow> lookup st k = Some v \<Longrightarrow> validate v = Some e \<Longrightarrow>
       execute st k validate mutate = (st, shown v, Some e)"
    and execute_accepted:
      "valid st \<Longrightarrow> lookup st k = Some v \<Longrightarrow> validate v = None \<Longrightarrow>
       snd (execute st k validate mutate) = (Some (mutate v), None)"
    and lookup_execute:
      "valid st \<Longrightarrow> lookup st k = Some v \<Longrightarrow> validate v = None \<Longrightarrow>
       lookup (fst (execute st k validate mutate)) k' = (if k' = k then Some (mutate v) else lookup st k')"
    and valid_execute: "valid st \<Longrightarrow> valid (fst (execute st k validate mutate))"
begin

lemma execute_cases:
  assumes "valid st"
  obtains (missing) "lookup st k = None"
      "execute st k validate mutate = (st, None, Some (Sentinel ErrNotFound))"
  | (rejected) v e where "lookup st k = Some v" "validate v = Some e"
      "execute st k validate mutate = (st, shown v, Some e)"
  | (accepted) v st' where "lookup st k = Some v" "validate v = None"
      "execute st k validate mutate = (st', Some (mutate v), None)"
proof (cases "lookup st k")
  case None
  with execute_missing[OF assms, of k validate mutate] missing show thesis by blast
next
  case (Some v)
  show thesis
  proof (cases "validate v")
    case None
    from execute_accepted[of st k v validate mutate] assms Some None
    have "execute st k validate mutate =
          (fst (execute st k validate mutate), Some (mutate v), None)"
      by (simp add: prod_eq_iff)
    with Some None accepted show thesis by blast
  next
    case (Some e)
    with execute_rejected[of st k v validate e mutate] assms \<open>lookup st k = Some v\<close> rejected
    show thesis by blast
  qed
qed

lemma execute_ok_iff:
  assumes "valid st"
  shows "snd (snd (execute st k validate mutate)) = None \<longleftrightarrow>
         (\<exists>v. lookup st k = Some v \<and> validate v = None)"
  by (rule execute_cases[OF assms, of k validate mutate]) auto

lemma execute_okD:
  assumes "valid st" and "execute st k validate mutate = (st', r, None)"
  shows "\<exists>v. lookup st k = Some v \<and> validate v = None \<and> r = Some (mutate v) \<and>
           (\<forall>k'. lookup st' k' = (if k' = k then Some (mutate v) else lookup st k'))"
proof -
  from assms execute_ok_iff[of st k validate mutate] obtain v where
    v: "lookup st k = Some v" "validate v = None" by auto
  have "r = Some (mutate v)"
    using execute_accepted[of st k v validate mutate] assms v by simp
  moreover have "lookup st' k' = (if k' = k then Some (mutate v) else lookup st k')" for k'
    using lookup_execute[of st k v validate mutate k'] assms v by simp
  ultimately show ?thesis using v by auto
qed

text \<open>A failed \<^verbatim>\<open>Execute\<close> changes nothing.\<close>

lemma execute_failed:
  assumes "valid st" and "execute st k validate mutate = (st', r, Some e)"
  shows "st' = st"
  using assms(2) by (auto intro: execute_cases[OF assms(1), of k validate mutate])

text \<open>Only the record under the key changes.\<close>

lemma execute_frame:
  assumes "valid st" and "k' \<noteq> k"
  shows "lookup (fst (execute st k validate mutate)) k' = lookup st k'"
proof -
  obtain st' r e where x: "execute st k validate mutate = (st', r, e)" by (metis prod.exhaust)
  show ?thesis
  proof (cases e)
    case None
    from execute_okD[OF assms(1) x[unfolded None]] assms(2) x show ?thesis by auto
  next
    case (Some err)
    from execute_failed[OF assms(1) x[unfolded Some]] x show ?thesis by simp
  qed
qed

text \<open>
  An invariant of the records that the mutation keeps on accepted records is kept by
  \<^verbatim>\<open>Execute\<close>.
\<close>

lemma execute_keeps:
  assumes "valid st"
    and "\<And>k' v. lookup st k' = Some v \<Longrightarrow> P k' v"
    and "\<And>v. lookup st k = Some v \<Longrightarrow> P k v \<Longrightarrow> validate v = None \<Longrightarrow> P k (mutate v)"
    and "lookup (fst (execute st k validate mutate)) k'' = Some w"
  shows "P k'' w"
proof -
  obtain st' r e where x: "execute st k validate mutate = (st', r, e)" by (metis prod.exhaust)
  show ?thesis
  proof (cases e)
    case None
    from execute_okD[OF assms(1) x[unfolded None]] obtain v where
      v: "lookup st k = Some v" "validate v = None"
        "\<And>k'. lookup st' k' = (if k' = k then Some (mutate v) else lookup st k')" by auto
    then show ?thesis using assms(2)[of k v] assms(2)[of k'' w] assms(3)[of v] assms(4) x
      by (cases "k'' = k") auto
  next
    case (Some err)
    from execute_failed[OF assms(1) x[unfolded Some]] x assms(2,4) show ?thesis by simp
  qed
qed

text \<open>
  The single-use law: when the mutation takes a record out of the set the validation
  accepts, the same \<^verbatim>\<open>Execute\<close> never succeeds twice on a key, whatever happens in
  between that leaves the record of that key alone.
\<close>

lemma execute_single_use:
  assumes "valid st" and "valid st2"
    and "execute st k validate mutate = (st1, r, None)"
    and "lookup st2 k = lookup st1 k"
    and "\<And>v. validate v = None \<Longrightarrow> validate' (mutate v) = Some (err v)"
  shows "\<exists>v. lookup st k = Some v \<and>
             execute st2 k validate' mutate' = (st2, shown (mutate v), Some (err v))"
proof -
  from execute_okD[OF assms(1,3)] obtain v where
    v: "lookup st k = Some v" "validate v = None" "lookup st1 k = Some (mutate v)" by auto
  with execute_rejected[OF assms(2), of k "mutate v" validate' "err v" mutate'] assms(4,5)
  show ?thesis by auto
qed

end

text \<open>
  The record-keeping stores also create: a record under the key it carries. That a created
  record is found, and that nothing else changes, is what the services use.
\<close>

locale creating_store = execute_store +
  fixes key :: "'v \<Rightarrow> 'k"
    and create :: "'st \<Rightarrow> 'v \<Rightarrow> 'st \<times> go_error option"
  assumes lookup_create:
      "valid st \<Longrightarrow> create st v = (st', None) \<Longrightarrow>
       lookup st' k' = (if k' = key v then Some v else lookup st k')"
    and create_failed: "valid st \<Longrightarrow> create st v = (st', Some e) \<Longrightarrow> st' = st"
    and valid_create: "valid st \<Longrightarrow> valid (fst (create st v))"
begin

lemma create_then_execute:
  assumes "valid st" and "create st v = (st', None)" and "validate v = None"
  shows "snd (execute st' (key v) validate mutate) = (Some (mutate v), None)"
  using assms valid_create[of st v] lookup_create[OF assms(1,2), of "key v"]
    execute_accepted[of st' "key v" v]
  by simp

lemma create_keeps:
  assumes "valid st"
    and "\<And>k' w. lookup st k' = Some w \<Longrightarrow> P k' w" and "P (key v) v"
    and "lookup (fst (create st v)) k'' = Some w"
  shows "P k'' w"
proof (cases "create st v")
  case (Pair st' e)
  show ?thesis
  proof (cases e)
    case None
    from lookup_create[OF assms(1) Pair[unfolded None], of k''] assms(2-4) Pair show ?thesis
      by (auto split: if_splits)
  next
    case (Some err)
    from create_failed[OF assms(1) Pair[unfolded Some]] assms(2,4) Pair show ?thesis by auto
  qed
qed

end

end
