(* ===== verification/Tenant_Models.thy ===== *)
theory Tenant_Models
  imports Stores
begin

text \<open>
  Tenants and their OAuth clients: the aggregates and value objects
  (\<^verbatim>\<open>internal/tenant/models\<close>), client secrets (\<^verbatim>\<open>internal/tenant/secrets\<close>) and the
  in-memory stores (\<^verbatim>\<open>internal/tenant/store\<close>) with their indexes.

  The stores hold pointers, and the two maps of the client store hold the same pointer for a client;
  every change goes through \<^verbatim>\<open>Create\<close>, \<^verbatim>\<open>Update\<close> and \<^verbatim>\<open>Execute\<close>, which write both maps, so
  maps of values behave the same. The package \<^verbatim>\<open>bcrypt\<close> is a parameter, with the two error values
  the code compares with; the URL parser and the lower-casing of non-ASCII text are parameters as
  elsewhere.
\<close>

section \<open>Statuses\<close>

datatype TenantStatus = TenantStatusActive | TenantStatusInactive | TenantStatusOther string

datatype ClientStatus = ClientStatusActive | ClientStatusInactive | ClientStatusOther string

fun TenantStatus_String :: "TenantStatus \<Rightarrow> string" where
  "TenantStatus_String TenantStatusActive = ''active''"
| "TenantStatus_String TenantStatusInactive = ''inactive''"
| "TenantStatus_String (TenantStatusOther s) = s"

fun ClientStatus_String :: "ClientStatus \<Rightarrow> string" where
  "ClientStatus_String ClientStatusActive = ''active''"
| "ClientStatus_String ClientStatusInactive = ''inactive''"
| "ClientStatus_String (ClientStatusOther s) = s"

definition TenantStatus_IsValid :: "TenantStatus \<Rightarrow> bool" where
  "TenantStatus_IsValid s = (s = TenantStatusActive \<or> s = TenantStatusInactive)"

definition ClientStatus_IsValid :: "ClientStatus \<Rightarrow> bool" where
  "ClientStatus_IsValid s = (s = ClientStatusActive \<or> s = ClientStatusInactive)"

fun TenantStatus_CanTransitionTo :: "TenantStatus \<Rightarrow> TenantStatus \<Rightarrow> bool" where
  "TenantStatus_CanTransitionTo TenantStatusActive target = (target = TenantStatusInactive)"
| "TenantStatus_CanTransitionTo TenantStatusInactive target = (target = TenantStatusActive)"
| "TenantStatus_CanTransitionTo (TenantStatusOther s) target = False"

fun ClientStatus_CanTransitionTo :: "ClientStatus \<Rightarrow> ClientStatus \<Rightarrow> bool" where
  "ClientStatus_CanTransitionTo ClientStatusActive target = (target = ClientStatusInactive)"
| "ClientStatus_CanTransitionTo ClientStatusInactive target = (target = ClientStatusActive)"
| "ClientStatus_CanTransitionTo (ClientStatusOther s) target = False"

section \<open>Tenants\<close>

record Tenant =
  Tenant_ID :: TenantID
  Tenant_Name :: string
  Tenant_Status :: TenantStatus
  Tenant_CreatedAt :: time
  Tenant_UpdatedAt :: time

definition NewTenant :: "TenantID \<Rightarrow> string \<Rightarrow> time \<Rightarrow> Tenant result" where
  "NewTenant tenantID name now =
     (if name = [] then Inl (dErrors_New CodeInvariantViolation ''tenant name cannot be empty'')
      else if length name > 128 then
        Inl (dErrors_New CodeInvariantViolation ''tenant name must be 128 characters or less'')
      else Inr \<lparr> Tenant_ID = tenantID, Tenant_Name = name, Tenant_Status = TenantStatusActive,
                 Tenant_CreatedAt = now, Tenant_UpdatedAt = now \<rparr>)"

definition Tenant_IsActive :: "Tenant \<Rightarrow> bool" where
  "Tenant_IsActive t = (Tenant_Status t = TenantStatusActive)"

definition Tenant_CanDeactivate :: "Tenant \<Rightarrow> go_error option" where
  "Tenant_CanDeactivate t =
     (if \<not> TenantStatus_CanTransitionTo (Tenant_Status t) TenantStatusInactive
      then Some (dErrors_New CodeInvariantViolation ''tenant is already inactive'') else None)"

definition Tenant_ApplyDeactivation :: "time \<Rightarrow> Tenant \<Rightarrow> Tenant" where
  "Tenant_ApplyDeactivation now t = t\<lparr> Tenant_Status := TenantStatusInactive, Tenant_UpdatedAt := now \<rparr>"

definition Tenant_CanReactivate :: "Tenant \<Rightarrow> go_error option" where
  "Tenant_CanReactivate t =
     (if \<not> TenantStatus_CanTransitionTo (Tenant_Status t) TenantStatusActive
      then Some (dErrors_New CodeInvariantViolation ''tenant is already active'') else None)"

definition Tenant_ApplyReactivation :: "time \<Rightarrow> Tenant \<Rightarrow> Tenant" where
  "Tenant_ApplyReactivation now t = t\<lparr> Tenant_Status := TenantStatusActive, Tenant_UpdatedAt := now \<rparr>"

section \<open>Clients\<close>

record Client =
  Client_ID :: ClientID
  Client_TenantID :: TenantID
  Client_Name :: string
  Client_OAuthClientID :: string
  Client_ClientSecretHash :: string
  Client_RedirectURIs :: "string list"
  Client_AllowedGrants :: "GrantType list"
  Client_AllowedScopes :: "string list"
  Client_Status :: ClientStatus
  Client_CreatedAt :: time
  Client_UpdatedAt :: time

definition NewClient ::
  "ClientID \<Rightarrow> TenantID \<Rightarrow> string \<Rightarrow> string \<Rightarrow> string \<Rightarrow> string list \<Rightarrow> GrantType list \<Rightarrow> string list \<Rightarrow> time \<Rightarrow> Client result" where
  "NewClient clientID tenantID name oauthClientID clientSecretHash redirectURIs allowedGrants allowedScopes now =
     (if name = [] then Inl (dErrors_New CodeInvariantViolation ''client name cannot be empty'')
      else if length name > 128 then
        Inl (dErrors_New CodeInvariantViolation ''client name must be 128 characters or less'')
      else if oauthClientID = [] then Inl (dErrors_New CodeInvariantViolation ''client_id cannot be empty'')
      else if redirectURIs = [] then Inl (dErrors_New CodeInvariantViolation ''redirect_uris cannot be empty'')
      else if allowedGrants = [] then Inl (dErrors_New CodeInvariantViolation ''allowed_grants cannot be empty'')
      else if \<not> list_all GrantType_IsValid allowedGrants then
        Inl (dErrors_New CodeInvariantViolation ''invalid allowed_grant'')
      else if allowedScopes = [] then Inl (dErrors_New CodeInvariantViolation ''allowed_scopes cannot be empty'')
      else Inr \<lparr> Client_ID = clientID, Client_TenantID = tenantID, Client_Name = name,
                 Client_OAuthClientID = oauthClientID, Client_ClientSecretHash = clientSecretHash,
                 Client_RedirectURIs = redirectURIs, Client_AllowedGrants = allowedGrants,
                 Client_AllowedScopes = allowedScopes, Client_Status = ClientStatusActive,
                 Client_CreatedAt = now, Client_UpdatedAt = now \<rparr>)"

definition Client_IsActive :: "Client \<Rightarrow> bool" where
  "Client_IsActive c = (Client_Status c = ClientStatusActive)"

definition Client_CanDeactivate :: "Client \<Rightarrow> go_error option" where
  "Client_CanDeactivate c =
     (if \<not> ClientStatus_CanTransitionTo (Client_Status c) ClientStatusInactive
      then Some (dErrors_New CodeInvariantViolation ''client is already inactive'') else None)"

definition Client_ApplyDeactivation :: "time \<Rightarrow> Client \<Rightarrow> Client" where
  "Client_ApplyDeactivation now c = c\<lparr> Client_Status := ClientStatusInactive, Client_UpdatedAt := now \<rparr>"

definition Client_CanReactivate :: "Client \<Rightarrow> go_error option" where
  "Client_CanReactivate c =
     (if \<not> ClientStatus_CanTransitionTo (Client_Status c) ClientStatusActive
      then Some (dErrors_New CodeInvariantViolation ''client is already active'') else None)"

definition Client_ApplyReactivation :: "time \<Rightarrow> Client \<Rightarrow> Client" where
  "Client_ApplyReactivation now c = c\<lparr> Client_Status := ClientStatusActive, Client_UpdatedAt := now \<rparr>"

definition IsConfidential :: "Client \<Rightarrow> bool" where
  "IsConfidential c = (Client_ClientSecretHash c \<noteq> [])"

definition CanUseGrant :: "Client \<Rightarrow> GrantType \<Rightarrow> bool" where
  "CanUseGrant c grant = (if RequiresConfidentialClient grant \<and> \<not> IsConfidential c then False else True)"

section \<open>Secrets\<close>

text \<open>\<^verbatim>\<open>base64.RawURLEncoding\<close>: three bytes are four characters of the URL alphabet, without padding.\<close>

definition b64_char :: "nat \<Rightarrow> char" where
  "b64_char n = ''ABCDEFGHIJKLMNOPQRSTUVWXYZabcdefghijklmnopqrstuvwxyz0123456789-_'' ! n"

fun b64_encode :: "nat list \<Rightarrow> string" where
  "b64_encode [] = []"
| "b64_encode [a] = [b64_char (a div 4), b64_char (a mod 4 * 16)]"
| "b64_encode [a, b] = [b64_char (a div 4), b64_char (a mod 4 * 16 + b div 16), b64_char (b mod 16 * 4)]"
| "b64_encode (a # b # c # rest) =
     [b64_char (a div 4), b64_char (a mod 4 * 16 + b div 16), b64_char (b mod 16 * 4 + c div 64), b64_char (c mod 64)]
     @ b64_encode rest"

definition RawURLEncoding_EncodeToString :: "8 word list \<Rightarrow> string" where
  "RawURLEncoding_EncodeToString buf = b64_encode (map unat buf)"

record bcrypt =
  bcrypt_GenerateFromPassword :: "string \<Rightarrow> string result"
  bcrypt_CompareHashAndPassword :: "string \<Rightarrow> string \<Rightarrow> go_error option"
  bcrypt_ErrPasswordTooLong :: go_error
  bcrypt_ErrMismatchedHashAndPassword :: go_error

text \<open>The argument is what \<^verbatim>\<open>rand.Read\<close> does: an error, or the 32 bytes it fills the buffer with.\<close>

definition Secrets_Generate :: "8 word list result \<Rightarrow> string result" where
  "Secrets_Generate rand_Read =
     (case rand_Read of
        Inl err \<Rightarrow> Inl (ErrorfW ''could not generate secret'' err)
      | Inr buf \<Rightarrow> Inr (RawURLEncoding_EncodeToString buf))"

definition Secrets_Hash :: "bcrypt \<Rightarrow> string \<Rightarrow> string result" where
  "Secrets_Hash bc secret =
     (if secret = [] then Inl (dErrors_New CodeInvalidInput ''secret cannot be empty'')
      else case bcrypt_GenerateFromPassword bc secret of
             Inl err \<Rightarrow>
               if errors_Is err (bcrypt_ErrPasswordTooLong bc) then Inl (dErrors_New CodeInvalidInput ''secret is too long'')
               else Inl (ErrorfW ''could not hash secret'' err)
           | Inr hashed \<Rightarrow> Inr hashed)"

definition Secrets_Verify :: "bcrypt \<Rightarrow> string \<Rightarrow> string \<Rightarrow> go_error option" where
  "Secrets_Verify bc secret hash =
     (case bcrypt_CompareHashAndPassword bc hash secret of
        Some err \<Rightarrow>
          if errors_Is err (bcrypt_ErrMismatchedHashAndPassword bc) then Some (dErrors_New CodeInvalidInput ''invalid secret'')
          else Some (ErrorfW ''could not verify secret'' err)
      | None \<Rightarrow> None)"

section \<open>The tenant store\<close>

record tenant_store =
  tenants_by_id :: "(TenantID, Tenant) kv"
  nameIdx :: "(string, TenantID) kv"

definition TenantStore_New :: tenant_store where
  "TenantStore_New = \<lparr> tenants_by_id = [], nameIdx = [] \<rparr>"

definition CreateIfNameAvailable :: "(string \<Rightarrow> string) \<Rightarrow> tenant_store \<Rightarrow> Tenant \<Rightarrow> tenant_store \<times> go_error option" where
  "CreateIfNameAvailable uni s t =
     (let lower = ToLower uni (Tenant_Name t)
      in if kv_get (nameIdx s) lower \<noteq> None
         then (s, Some (ErrorfW ''tenant name must be unique'' (Sentinel ErrAlreadyUsed)))
         else (s\<lparr> tenants_by_id := kv_put (tenants_by_id s) (Tenant_ID t) t,
                  nameIdx := kv_put (nameIdx s) lower (Tenant_ID t) \<rparr>, None))"

definition TenantStore_FindByID :: "tenant_store \<Rightarrow> TenantID \<Rightarrow> Tenant result" where
  "TenantStore_FindByID s tenantID =
     (case kv_get (tenants_by_id s) tenantID of Some t \<Rightarrow> Inr t | None \<Rightarrow> Inl (Sentinel ErrNotFound))"

text \<open>The pointer found through the name index is nil when the tenant is missing.\<close>

definition TenantStore_FindByName :: "(string \<Rightarrow> string) \<Rightarrow> tenant_store \<Rightarrow> string \<Rightarrow> Tenant option result" where
  "TenantStore_FindByName uni s name =
     (case kv_get (nameIdx s) (ToLower uni name) of
        Some tenantID \<Rightarrow> Inr (kv_get (tenants_by_id s) tenantID)
      | None \<Rightarrow> Inl (Sentinel ErrNotFound))"

definition TenantStore_Count :: "tenant_store \<Rightarrow> nat" where
  "TenantStore_Count s = length (tenants_by_id s)"

definition TenantStore_Update :: "tenant_store \<Rightarrow> Tenant \<Rightarrow> tenant_store \<times> go_error option" where
  "TenantStore_Update s t =
     (case kv_get (tenants_by_id s) (Tenant_ID t) of
        None \<Rightarrow> (s, Some (Sentinel ErrNotFound))
      | Some _ \<Rightarrow> (s\<lparr> tenants_by_id := kv_put (tenants_by_id s) (Tenant_ID t) t \<rparr>, None))"

definition TenantStore_Execute ::
  "tenant_store \<Rightarrow> TenantID \<Rightarrow> (Tenant \<Rightarrow> go_error option) \<Rightarrow> (Tenant \<Rightarrow> Tenant) \<Rightarrow> tenant_store \<times> Tenant exec_result" where
  "TenantStore_Execute s tenantID validate mutate =
     (case kv_get (tenants_by_id s) tenantID of
        None \<Rightarrow> (s, None, Some (Sentinel ErrNotFound))
      | Some tenant \<Rightarrow>
          (case validate tenant of
             Some err \<Rightarrow> (s, None, Some err)
           | None \<Rightarrow> (s\<lparr> tenants_by_id := kv_put (tenants_by_id s) tenantID (mutate tenant) \<rparr>, Some (mutate tenant), None)))"

section \<open>The client store\<close>

record client_store =
  clients_by_id :: "(ClientID, Client) kv"
  byCode :: "(string, Client) kv"
  tenantCount :: "(TenantID, int) kv"

definition ClientStore_New :: client_store where
  "ClientStore_New = \<lparr> clients_by_id = [], byCode = [], tenantCount = [] \<rparr>"

definition CountByTenant :: "client_store \<Rightarrow> TenantID \<Rightarrow> int" where
  "CountByTenant s tenantID = (case kv_get (tenantCount s) tenantID of Some n \<Rightarrow> n | None \<Rightarrow> 0)"

definition ClientStore_Create :: "client_store \<Rightarrow> Client \<Rightarrow> client_store \<times> go_error option" where
  "ClientStore_Create s c =
     (s\<lparr> clients_by_id := kv_put (clients_by_id s) (Client_ID c) c,
         byCode := kv_put (byCode s) (Client_OAuthClientID c) c,
         tenantCount := kv_put (tenantCount s) (Client_TenantID c) (CountByTenant s (Client_TenantID c) + 1) \<rparr>, None)"

definition ClientStore_Update :: "client_store \<Rightarrow> Client \<Rightarrow> client_store \<times> go_error option" where
  "ClientStore_Update s c =
     (s\<lparr> clients_by_id := kv_put (clients_by_id s) (Client_ID c) c,
         byCode := kv_put (byCode s) (Client_OAuthClientID c) c \<rparr>, None)"

definition ClientStore_FindByID :: "client_store \<Rightarrow> ClientID \<Rightarrow> Client result" where
  "ClientStore_FindByID s clientID =
     (case kv_get (clients_by_id s) clientID of Some c \<Rightarrow> Inr c | None \<Rightarrow> Inl (Sentinel ErrNotFound))"

definition FindByTenantAndID :: "client_store \<Rightarrow> TenantID \<Rightarrow> ClientID \<Rightarrow> Client result" where
  "FindByTenantAndID s tenantID clientID =
     (case kv_get (clients_by_id s) clientID of
        Some c \<Rightarrow> if Client_TenantID c = tenantID then Inr c else Inl (Sentinel ErrNotFound)
      | None \<Rightarrow> Inl (Sentinel ErrNotFound))"

definition FindByOAuthClientID :: "client_store \<Rightarrow> string \<Rightarrow> Client result" where
  "FindByOAuthClientID s oauthClientID =
     (case kv_get (byCode s) oauthClientID of Some c \<Rightarrow> Inr c | None \<Rightarrow> Inl (Sentinel ErrNotFound))"

definition ClientStore_Execute ::
  "client_store \<Rightarrow> ClientID \<Rightarrow> (Client \<Rightarrow> go_error option) \<Rightarrow> (Client \<Rightarrow> Client) \<Rightarrow> client_store \<times> Client exec_result" where
  "ClientStore_Execute s clientID validate mutate =
     (case kv_get (clients_by_id s) clientID of
        None \<Rightarrow> (s, None, Some (Sentinel ErrNotFound))
      | Some client \<Rightarrow>
          (case validate client of
             Some err \<Rightarrow> (s, None, Some err)
           | None \<Rightarrow>
               let client = mutate client
               in (s\<lparr> clients_by_id := kv_put (clients_by_id s) clientID client,
                      byCode := kv_put (byCode s) (Client_OAuthClientID client) client \<rparr>, Some client, None)))"

section \<open>The stores keep their contracts\<close>

interpretation tenants: creating_store
  "\<lambda>s. kv_get (tenants_by_id s)" TenantStore_Execute "\<lambda>_. None" "\<lambda>s. kv_ok (tenants_by_id s)" Tenant_ID
  "CreateIfNameAvailable uni" for uni
  by unfold_locales
    (auto simp: TenantStore_Execute_def CreateIfNameAvailable_def Let_def kv_simps split: option.splits if_splits)

interpretation clients: creating_store
  "\<lambda>s. kv_get (clients_by_id s)" ClientStore_Execute "\<lambda>_. None" "\<lambda>s. kv_ok (clients_by_id s)" Client_ID
  ClientStore_Create
  by unfold_locales
    (auto simp: ClientStore_Execute_def ClientStore_Create_def Let_def kv_simps split: option.splits)

section \<open>Invariants of the aggregates and of the indexes\<close>

definition tenant_ok :: "Tenant \<Rightarrow> bool" where
  "tenant_ok t \<longleftrightarrow> Tenant_Name t \<noteq> [] \<and> length (Tenant_Name t) \<le> 128 \<and> TenantStatus_IsValid (Tenant_Status t)"

text \<open>The documented invariants of a client, with the rule that only a confidential client may hold
  the client credentials grant.\<close>

definition client_ok :: "Client \<Rightarrow> bool" where
  "client_ok c \<longleftrightarrow> Client_Name c \<noteq> [] \<and> length (Client_Name c) \<le> 128 \<and> Client_OAuthClientID c \<noteq> [] \<and>
     Client_RedirectURIs c \<noteq> [] \<and> Client_AllowedGrants c \<noteq> [] \<and> Client_AllowedScopes c \<noteq> [] \<and>
     ClientStatus_IsValid (Client_Status c) \<and>
     (\<forall>g \<in> set (Client_AllowedGrants c). GrantType_IsValid g \<and> CanUseGrant c g)"

text \<open>The name index holds exactly the lower-cased names of the tenants.\<close>

definition tenants_ok :: "(string \<Rightarrow> string) \<Rightarrow> tenant_store \<Rightarrow> bool" where
  "tenants_ok uni s \<longleftrightarrow> kv_ok (tenants_by_id s) \<and> kv_ok (nameIdx s) \<and>
     (\<forall>k t. kv_get (tenants_by_id s) k = Some t \<longrightarrow>
        Tenant_ID t = k \<and> tenant_ok t \<and> kv_get (nameIdx s) (ToLower uni (Tenant_Name t)) = Some k) \<and>
     (\<forall>n k. kv_get (nameIdx s) n = Some k \<longrightarrow>
        (\<exists>t. kv_get (tenants_by_id s) k = Some t \<and> ToLower uni (Tenant_Name t) = n))"

text \<open>The two maps of the client store hold the same clients, and the counter counts them.\<close>

definition clients_of :: "client_store \<Rightarrow> TenantID \<Rightarrow> ClientID set" where
  "clients_of s tid = {k. \<exists>c. kv_get (clients_by_id s) k = Some c \<and> Client_TenantID c = tid}"

definition clients_ok :: "client_store \<Rightarrow> bool" where
  "clients_ok s \<longleftrightarrow> kv_ok (clients_by_id s) \<and> kv_ok (byCode s) \<and>
     (\<forall>k c. kv_get (clients_by_id s) k = Some c \<longrightarrow>
        Client_ID c = k \<and> client_ok c \<and> kv_get (byCode s) (Client_OAuthClientID c) = Some c) \<and>
     (\<forall>code c. kv_get (byCode s) code = Some c \<longrightarrow>
        Client_OAuthClientID c = code \<and> kv_get (clients_by_id s) (Client_ID c) = Some c) \<and>
     (\<forall>tid. CountByTenant s tid = int (card (clients_of s tid)))"

section \<open>The store operations keep the invariants\<close>

lemma tenants_okD:
  assumes "tenants_ok uni s"
  shows "kv_get (tenants_by_id s) k = Some t \<Longrightarrow>
           Tenant_ID t = k \<and> tenant_ok t \<and> kv_get (nameIdx s) (ToLower uni (Tenant_Name t)) = Some k"
    and "kv_get (nameIdx s) n = Some k \<Longrightarrow>
           \<exists>t. kv_get (tenants_by_id s) k = Some t \<and> ToLower uni (Tenant_Name t) = n"
  using assms by (simp_all add: tenants_ok_def)

lemma clients_okD:
  assumes "clients_ok s"
  shows "kv_get (clients_by_id s) k = Some c \<Longrightarrow>
           Client_ID c = k \<and> client_ok c \<and> kv_get (byCode s) (Client_OAuthClientID c) = Some c"
    and "kv_get (byCode s) code = Some c \<Longrightarrow>
           Client_OAuthClientID c = code \<and> kv_get (clients_by_id s) (Client_ID c) = Some c"
    and "CountByTenant s tid = int (card (clients_of s tid))"
  using assms by (simp_all add: clients_ok_def)

lemma tenants_okI:
  assumes "kv_ok (tenants_by_id s)" "kv_ok (nameIdx s)"
    and "\<And>k t. kv_get (tenants_by_id s) k = Some t \<Longrightarrow>
           Tenant_ID t = k \<and> tenant_ok t \<and> kv_get (nameIdx s) (ToLower uni (Tenant_Name t)) = Some k"
    and "\<And>n k. kv_get (nameIdx s) n = Some k \<Longrightarrow>
           \<exists>t. kv_get (tenants_by_id s) k = Some t \<and> ToLower uni (Tenant_Name t) = n"
  shows "tenants_ok uni s"
  unfolding tenants_ok_def using assms by blast

lemma clients_okI:
  assumes "kv_ok (clients_by_id s)" "kv_ok (byCode s)"
    and "\<And>k c. kv_get (clients_by_id s) k = Some c \<Longrightarrow>
           Client_ID c = k \<and> client_ok c \<and> kv_get (byCode s) (Client_OAuthClientID c) = Some c"
    and "\<And>code c. kv_get (byCode s) code = Some c \<Longrightarrow>
           Client_OAuthClientID c = code \<and> kv_get (clients_by_id s) (Client_ID c) = Some c"
    and "\<And>tid. CountByTenant s tid = int (card (clients_of s tid))"
  shows "clients_ok s"
  unfolding clients_ok_def using assms by blast

lemma tenants_ok_create:
  assumes "tenants_ok uni s" "tenant_ok t" "kv_get (tenants_by_id s) (Tenant_ID t) = None"
  shows "tenants_ok uni (fst (CreateIfNameAvailable uni s t))"
proof -
  have no: "kv_get (nameIdx s) n \<noteq> Some (Tenant_ID t)" for n
    using tenants_okD(2) [OF assms(1), of n "Tenant_ID t"] assms(3) by auto
  show ?thesis
  proof (cases "kv_get (nameIdx s) (ToLower uni (Tenant_Name t))")
    case (Some k)
    then show ?thesis using assms(1) by (simp add: CreateIfNameAvailable_def)
  next
    case None
    let ?s = "fst (CreateIfNameAvailable uni s t)"
    note old = tenants_okD [OF assms(1)]
    have m: "kv_get (tenants_by_id ?s) j = (if j = Tenant_ID t then Some t else kv_get (tenants_by_id s) j)"
      "kv_get (nameIdx ?s) n = (if n = ToLower uni (Tenant_Name t) then Some (Tenant_ID t) else kv_get (nameIdx s) n)" for j n
      using None by (simp_all add: CreateIfNameAvailable_def kv_simps)
    have "Tenant_ID u = j \<and> tenant_ok u \<and> kv_get (nameIdx ?s) (ToLower uni (Tenant_Name u)) = Some j"
      if "kv_get (tenants_by_id ?s) j = Some u" for j u
      using that m(1) [of j] m(2) [of "ToLower uni (Tenant_Name u)"] old(1) [of j u] assms(2) None by (auto split: if_splits)
    moreover have "\<exists>u. kv_get (tenants_by_id ?s) j = Some u \<and> ToLower uni (Tenant_Name u) = n"
      if "kv_get (nameIdx ?s) n = Some j" for n j
      using that m(1) [of j] m(2) [of n] old(2) [of n j] no by (auto split: if_splits)
    moreover have "kv_ok (tenants_by_id ?s)" "kv_ok (nameIdx ?s)"
      using assms(1) None by (simp_all add: CreateIfNameAvailable_def tenants_ok_def)
    ultimately show ?thesis by (intro tenants_okI)
  qed
qed

lemma tenants_ok_execute:
  assumes "tenants_ok uni s"
    and "\<And>t. validate t = None \<Longrightarrow> tenant_ok t \<Longrightarrow>
           tenant_ok (mutate t) \<and> Tenant_ID (mutate t) = Tenant_ID t \<and> Tenant_Name (mutate t) = Tenant_Name t"
  shows "tenants_ok uni (fst (TenantStore_Execute s k validate mutate))"
proof (cases "\<exists>t. kv_get (tenants_by_id s) k = Some t \<and> validate t = None")
  case False
  then have "fst (TenantStore_Execute s k validate mutate) = s"
    by (auto simp: TenantStore_Execute_def split: option.splits)
  then show ?thesis using assms(1) by simp
next
  case True
  then obtain t where t: "kv_get (tenants_by_id s) k = Some t" "validate t = None" by auto
  let ?s = "fst (TenantStore_Execute s k validate mutate)"
  have m: "kv_get (tenants_by_id ?s) j = (if j = k then Some (mutate t) else kv_get (tenants_by_id s) j)"
    "nameIdx ?s = nameIdx s" for j
    using t by (simp_all add: TenantStore_Execute_def kv_simps)
  note old = tenants_okD [OF assms(1)]
  have t': "Tenant_ID t = k" "tenant_ok t" "kv_get (nameIdx s) (ToLower uni (Tenant_Name t)) = Some k"
    using old(1) [OF t(1)] by auto
  have keep: "tenant_ok (mutate t)" "Tenant_ID (mutate t) = k" "Tenant_Name (mutate t) = Tenant_Name t"
    using assms(2) [OF t(2) t'(2)] t'(1) by auto
  have "Tenant_ID u = j \<and> tenant_ok u \<and> kv_get (nameIdx ?s) (ToLower uni (Tenant_Name u)) = Some j"
    if u: "kv_get (tenants_by_id ?s) j = Some u" for j u
  proof (cases "j = k")
    case True
    then show ?thesis using u keep t' by (simp add: m)
  next
    case False
    then have "kv_get (tenants_by_id s) j = Some u" using u by (simp add: m)
    then show ?thesis using old(1) [of j u] by (simp add: m)
  qed
  moreover have "\<exists>u. kv_get (tenants_by_id ?s) j = Some u \<and> ToLower uni (Tenant_Name u) = n"
    if n: "kv_get (nameIdx ?s) n = Some j" for n j
    using old(2) [of n j] n t(1) keep(3) by (cases "j = k") (simp_all add: m)
  moreover have "kv_ok (tenants_by_id ?s)" "kv_ok (nameIdx ?s)"
    using assms(1) t by (simp_all add: TenantStore_Execute_def tenants_ok_def)
  ultimately show ?thesis by (intro tenants_okI)
qed

lemma clients_of_create:
  "kv_get (clients_by_id s) (Client_ID c) = None \<Longrightarrow>
   clients_of (fst (ClientStore_Create s c)) tid =
     (if tid = Client_TenantID c then insert (Client_ID c) (clients_of s tid) else clients_of s tid)"
  by (auto simp: clients_of_def ClientStore_Create_def kv_simps)

lemma finite_clients_of [simp]: "finite (clients_of s tid)"
proof -
  have "clients_of s tid \<subseteq> fst ` set (clients_by_id s)"
    by (auto simp: clients_of_def dest!: map_of_SomeD intro: rev_image_eqI)
  then show ?thesis by (rule finite_subset) simp
qed

lemma CountByTenant_create:
  "CountByTenant (fst (ClientStore_Create s c)) tid = CountByTenant s tid + (if tid = Client_TenantID c then 1 else 0)"
  by (simp add: CountByTenant_def ClientStore_Create_def kv_simps)

lemma clients_ok_create:
  assumes "clients_ok s" "client_ok c" "kv_get (clients_by_id s) (Client_ID c) = None"
    and "kv_get (byCode s) (Client_OAuthClientID c) = None"
  shows "clients_ok (fst (ClientStore_Create s c))"
proof -
  have "Client_ID c \<notin> clients_of s (Client_TenantID c)" using assms by (simp add: clients_of_def)
  then have n: "CountByTenant (fst (ClientStore_Create s c)) tid = int (card (clients_of (fst (ClientStore_Create s c)) tid))" for tid
    using assms by (simp add: CountByTenant_create clients_of_create clients_ok_def)
  note old = clients_okD [OF assms(1)]
  have m: "Client_ID d = k \<and> client_ok d \<and> kv_get (byCode (fst (ClientStore_Create s c))) (Client_OAuthClientID d) = Some d"
    if "kv_get (clients_by_id (fst (ClientStore_Create s c))) k = Some d" for k d
    using that assms old(1) [of k d] by (auto simp: ClientStore_Create_def kv_simps split: if_splits)
  have b: "Client_OAuthClientID d = code \<and> kv_get (clients_by_id (fst (ClientStore_Create s c))) (Client_ID d) = Some d"
    if "kv_get (byCode (fst (ClientStore_Create s c))) code = Some d" for code d
    using that assms old(2) [of code d] by (auto simp: ClientStore_Create_def kv_simps split: if_splits)
  have "kv_ok (clients_by_id (fst (ClientStore_Create s c)))" "kv_ok (byCode (fst (ClientStore_Create s c)))"
    using assms(1) by (simp_all add: clients_ok_def ClientStore_Create_def)
  then show ?thesis using m b n by (intro clients_okI)
qed

text \<open>The effect of a successful \<^verbatim>\<open>Execute\<close> on the two maps.\<close>

lemma ClientStore_Execute_maps:
  assumes "clients_ok s" "kv_get (clients_by_id s) k = Some c" "validate c = None"
    and "Client_OAuthClientID (mutate c) = Client_OAuthClientID c"
  shows "kv_get (clients_by_id (fst (ClientStore_Execute s k validate mutate))) j =
           (if j = k then Some (mutate c) else kv_get (clients_by_id s) j)"
    and "kv_get (byCode (fst (ClientStore_Execute s k validate mutate))) code =
           (if code = Client_OAuthClientID c then Some (mutate c) else kv_get (byCode s) code)"
    and "tenantCount (fst (ClientStore_Execute s k validate mutate)) = tenantCount s"
  using assms by (simp_all add: ClientStore_Execute_def Let_def kv_simps)

lemma clients_ok_execute:
  assumes ok: "clients_ok s"
    and keeps: "\<And>c. validate c = None \<Longrightarrow> client_ok c \<Longrightarrow>
           client_ok (mutate c) \<and> Client_ID (mutate c) = Client_ID c \<and> Client_TenantID (mutate c) = Client_TenantID c \<and>
           Client_OAuthClientID (mutate c) = Client_OAuthClientID c"
  shows "clients_ok (fst (ClientStore_Execute s k validate mutate))"
proof (cases "\<exists>c. kv_get (clients_by_id s) k = Some c \<and> validate c = None")
  case False
  then have "fst (ClientStore_Execute s k validate mutate) = s"
    by (auto simp: ClientStore_Execute_def split: option.splits)
  then show ?thesis using ok by simp
next
  case True
  then obtain c where c: "kv_get (clients_by_id s) k = Some c" "validate c = None" by auto
  let ?s = "fst (ClientStore_Execute s k validate mutate)"
  note old = clients_okD [OF ok]
  have k: "Client_ID c = k" "client_ok c" "kv_get (byCode s) (Client_OAuthClientID c) = Some c"
    using old(1) [OF c(1)] by auto
  have m: "Client_ID (mutate c) = k" "client_ok (mutate c)" "Client_TenantID (mutate c) = Client_TenantID c"
    "Client_OAuthClientID (mutate c) = Client_OAuthClientID c"
    using keeps [OF c(2) k(2)] k(1) by auto
  note maps = ClientStore_Execute_maps [of s k c validate mutate, OF ok c m(4)]
  have "clients_of ?s tid = clients_of s tid" for tid
    using c m(3) maps(1) by (auto simp: clients_of_def)
  then have "CountByTenant ?s tid = int (card (clients_of ?s tid))" for tid
    using old(3) [of tid] by (simp add: CountByTenant_def maps(3))
  moreover have "kv_ok (clients_by_id ?s)" "kv_ok (byCode ?s)"
    using ok c by (simp_all add: clients_ok_def ClientStore_Execute_def Let_def)
  moreover have "Client_ID d = j \<and> client_ok d \<and> kv_get (byCode ?s) (Client_OAuthClientID d) = Some d"
    if d: "kv_get (clients_by_id ?s) j = Some d" for j d
  proof (cases "j = k")
    case True
    then show ?thesis using d m by (simp add: maps)
  next
    case False
    then have "kv_get (clients_by_id s) j = Some d" using d by (simp add: maps)
    then show ?thesis using old(1) [of j d] k False by (auto simp: maps)
  qed
  moreover have "Client_OAuthClientID d = code \<and> kv_get (clients_by_id ?s) (Client_ID d) = Some d"
    if d: "kv_get (byCode ?s) code = Some d" for code d
  proof (cases "code = Client_OAuthClientID c")
    case True
    then show ?thesis using d m by (simp add: maps)
  next
    case False
    then have "kv_get (byCode s) code = Some d" using d by (simp add: maps)
    then show ?thesis using old(2) [of code d] c(1) False by (auto simp: maps)
  qed
  ultimately show ?thesis by (intro clients_okI)
qed

lemma stores_empty_ok: "tenants_ok uni TenantStore_New" "clients_ok ClientStore_New"
  by (simp_all add: tenants_ok_def TenantStore_New_def clients_ok_def ClientStore_New_def CountByTenant_def clients_of_def)

section \<open>The encoding of secrets\<close>

lemma b64_encode_length: "length (b64_encode bs) = (length bs * 4 + 2) div 3"
  by (induction bs rule: b64_encode.induct) auto

text \<open>A generated secret has 43 characters, so it is not empty and within the 72 bytes bcrypt takes.\<close>

lemma secret_length: "length buf = 32 \<Longrightarrow> length (RawURLEncoding_EncodeToString buf) = 43"
  by (simp add: RawURLEncoding_EncodeToString_def b64_encode_length)

end
