(* ===== verification/Tenant_Service.thy ===== *)
theory Tenant_Service
  imports Tenant_Models
begin

text \<open>
  The tenant service (\<^verbatim>\<open>internal/tenant/service\<close>): the commands with their OAuth rules, the
  translation of store errors, audit events, the lifecycle of tenants, and the registration, update,
  secret rotation, verification and resolution of clients.

  The environment holds what a call draws or takes from outside the repository: random bytes, new
  identifiers, bcrypt, the URL parser (scheme and host of a parsed URL), the counter of users, and
  whether an audit publisher is configured. The transaction is the in-memory one: the stores keep
  what was written before an error. Metrics and log lines are not modelled.
\<close>

record tenant_env =
  te_uni :: "string \<Rightarrow> string"
  te_url_Parse :: "string \<Rightarrow> (string \<times> string) option"
  te_rand_Read :: "8 word list result"
  te_bcrypt :: bcrypt
  te_uuid_New :: uuid
  te_uuid_NewString :: string
  te_publisher :: bool
  te_userCounter :: "(TenantID \<Rightarrow> int result) option"

record tenant_event =
  tev_Subject :: string
  tev_Action :: string
  tev_RequestID :: string

record tenant_state =
  tn_tenants :: tenant_store
  tn_clients :: client_store
  tn_audit :: "tenant_event list"

section \<open>Commands\<close>

definition maxNameLength :: nat where "maxNameLength = 128"

definition isLocalhost :: "string \<Rightarrow> bool" where
  "isLocalhost host = (host = ''localhost'' \<or> starts_with ''localhost:'' host)"

definition isAllowedScheme :: "string \<Rightarrow> string \<Rightarrow> bool" where
  "isAllowedScheme scheme host = (if scheme = ''https'' then True else scheme = ''http'' \<and> isLocalhost host)"

definition validateRedirectURI :: "(string \<Rightarrow> (string \<times> string) option) \<Rightarrow> string \<Rightarrow> go_error option" where
  "validateRedirectURI url_Parse uri =
     (case url_Parse uri of
        None \<Rightarrow> Some (dErrors_New CodeValidation ''invalid redirect_uri'')
      | Some (scheme, host) \<Rightarrow>
          if scheme = [] then Some (dErrors_New CodeValidation ''invalid redirect_uri'')
          else if host = [] then Some (dErrors_New CodeValidation ''redirect_uri must include host'')
          else if \<not> isAllowedScheme scheme host
          then Some (dErrors_New CodeValidation ''redirect_uri must be https or localhost for development'')
          else None)"

definition allowedScopes :: "string list" where
  "allowedScopes = [''openid'', ''profile'', ''email'', ''offline'']"

definition validateScope :: "string \<Rightarrow> go_error option" where
  "validateScope scope =
     (if scope \<notin> set allowedScopes then Some (dErrors_New CodeValidation ''unsupported scope'') else None)"

definition validateOptionalName :: "string option \<Rightarrow> go_error option" where
  "validateOptionalName name =
     (case name of
        None \<Rightarrow> None
      | Some n \<Rightarrow>
          let trimmed = TrimSpace n
          in if trimmed = [] then Some (dErrors_New CodeValidation ''name cannot be empty'')
             else if length trimmed > maxNameLength
             then Some (dErrors_New CodeValidation ''name must be 128 characters or less'')
             else None)"

definition validateEachURI :: "(string \<Rightarrow> (string \<times> string) option) \<Rightarrow> string list \<Rightarrow> go_error option" where
  "validateEachURI url_Parse uris = first_error (validateRedirectURI url_Parse) uris"

definition validateEachGrant :: "GrantType list \<Rightarrow> go_error option" where
  "validateEachGrant grants =
     first_error (\<lambda>grant. if \<not> GrantType_IsValid grant
        then Some (dErrors_New CodeValidation ''unsupported grant type'') else None) grants"

definition validateEachScope :: "string list \<Rightarrow> go_error option" where
  "validateEachScope scopes = first_error validateScope scopes"

record CreateClientCommand =
  cc_TenantID :: TenantID
  cc_Name :: string
  cc_RedirectURIs :: "string list"
  cc_AllowedGrants :: "GrantType list"
  cc_AllowedScopes :: "string list"
  cc_Public :: bool

definition CreateClientCommand_Validate :: "tenant_env \<Rightarrow> CreateClientCommand \<Rightarrow> go_error option" where
  "CreateClientCommand_Validate env c =
     (if cc_Name c = [] then Some (dErrors_New CodeValidation ''name is required'')
      else if length (cc_Name c) > maxNameLength
      then Some (dErrors_New CodeValidation ''name must be 128 characters or less'')
      else if cc_RedirectURIs c = [] then Some (dErrors_New CodeValidation ''redirect_uris are required'')
      else case validateEachURI (te_url_Parse env) (cc_RedirectURIs c) of Some e \<Rightarrow> Some e | None \<Rightarrow>
      if cc_AllowedGrants c = [] then Some (dErrors_New CodeValidation ''allowed_grants are required'')
      else case validateEachGrant (cc_AllowedGrants c) of Some e \<Rightarrow> Some e | None \<Rightarrow>
      if cc_Public c \<and> GrantTypeClientCredentials \<in> set (cc_AllowedGrants c)
      then Some (dErrors_New CodeValidation ''client_credentials grant requires a confidential client'')
      else if cc_AllowedScopes c = [] then Some (dErrors_New CodeValidation ''allowed_scopes are required'')
      else validateEachScope (cc_AllowedScopes c))"

record UpdateClientCommand =
  uc_Name :: "string option"
  uc_RedirectURIs :: "string list"
  uc_AllowedGrants :: "GrantType list"
  uc_AllowedScopes :: "string list"
  uc_RotateSecret :: bool
  uc_hasRedirectURIs :: bool
  uc_hasAllowedGrants :: bool
  uc_hasAllowedScopes :: bool

definition SetRedirectURIs :: "string list \<Rightarrow> UpdateClientCommand \<Rightarrow> UpdateClientCommand" where
  "SetRedirectURIs uris c = c\<lparr> uc_RedirectURIs := uris, uc_hasRedirectURIs := True \<rparr>"

definition SetAllowedGrants :: "GrantType list \<Rightarrow> UpdateClientCommand \<Rightarrow> UpdateClientCommand" where
  "SetAllowedGrants grants c = c\<lparr> uc_AllowedGrants := grants, uc_hasAllowedGrants := True \<rparr>"

definition SetAllowedScopes :: "string list \<Rightarrow> UpdateClientCommand \<Rightarrow> UpdateClientCommand" where
  "SetAllowedScopes scopes c = c\<lparr> uc_AllowedScopes := scopes, uc_hasAllowedScopes := True \<rparr>"

text \<open>One optional list of an update: empty is an error, then each element is checked.\<close>

definition validate_given :: "bool \<Rightarrow> 'a list \<Rightarrow> string \<Rightarrow> go_error option \<Rightarrow> go_error option" where
  "validate_given given xs msg each =
     (if given then (if xs = [] then Some (dErrors_New CodeValidation msg) else each) else None)"

definition UpdateClientCommand_Validate :: "tenant_env \<Rightarrow> UpdateClientCommand \<Rightarrow> go_error option" where
  "UpdateClientCommand_Validate env c =
     first_error (\<lambda>e. e)
       [validateOptionalName (uc_Name c),
        validate_given (uc_hasRedirectURIs c) (uc_RedirectURIs c) ''redirect_uris cannot be empty''
          (validateEachURI (te_url_Parse env) (uc_RedirectURIs c)),
        validate_given (uc_hasAllowedGrants c) (uc_AllowedGrants c) ''allowed_grants cannot be empty''
          (validateEachGrant (uc_AllowedGrants c)),
        validate_given (uc_hasAllowedScopes c) (uc_AllowedScopes c) ''allowed_scopes cannot be empty''
          (validateEachScope (uc_AllowedScopes c))]"

definition UpdateClientCommand_IsEmpty :: "UpdateClientCommand \<Rightarrow> bool" where
  "UpdateClientCommand_IsEmpty c =
     (uc_Name c = None \<and> \<not> uc_hasRedirectURIs c \<and> \<not> uc_hasAllowedGrants c \<and> \<not> uc_hasAllowedScopes c \<and> \<not> uc_RotateSecret c)"

section \<open>Identifiers, errors, audit\<close>

definition requireClientID :: "ClientID \<Rightarrow> go_error option" where
  "requireClientID clientID =
     (if ClientID_IsNil clientID then Some (dErrors_New CodeBadRequest ''client ID required'') else None)"

definition requireTenantID :: "TenantID \<Rightarrow> go_error option" where
  "requireTenantID tenantID =
     (if TenantID_IsNil tenantID then Some (dErrors_New CodeBadRequest ''tenant ID required'') else None)"

text \<open>The table of sentinel, code, message for clients, message for tenants.\<close>

definition storeErrorMappings :: "(sentinel \<times> Code \<times> string \<times> string) list" where
  "storeErrorMappings =
     [(ErrNotFound, CodeNotFound, ''client not found'', ''tenant not found''),
      (ErrAlreadyUsed, CodeConflict, ''client already exists'', ''tenant name already exists''),
      (ErrInvalidState, CodeConflict, ''invalid client state'', ''invalid tenant state'')]"

definition wrapStoreErr :: "go_error \<Rightarrow> string \<Rightarrow> (string \<times> string \<Rightarrow> string) \<Rightarrow> go_error" where
  "wrapStoreErr err action msgSelector =
     (if errors_As err \<noteq> None then err
      else case find (\<lambda>(s, _). errors_Is err (Sentinel s)) storeErrorMappings of
             Some (_, code, msgs) \<Rightarrow> dErrors_Wrap err code (msgSelector msgs)
           | None \<Rightarrow> dErrors_Wrap err CodeInternal action)"

definition wrapClientErr :: "go_error \<Rightarrow> string \<Rightarrow> go_error" where
  "wrapClientErr err action = wrapStoreErr err action fst"

definition wrapTenantErr :: "go_error \<Rightarrow> go_error" where
  "wrapTenantErr err = wrapStoreErr err ''failed to load tenant'' snd"

definition resolveAuditSubject :: "(string \<times> attr) list \<Rightarrow> string \<Rightarrow> string" where
  "resolveAuditSubject attributes fallbackUserID =
     (let s = ExtractString attributes ''tenant_id''
      in if s \<noteq> [] then s
         else let s = ExtractString attributes ''client_id'' in if s \<noteq> [] then s else fallbackUserID)"

definition enrichAttributes :: "ctx \<Rightarrow> (string \<times> attr) list \<Rightarrow> (string \<times> attr) list" where
  "enrichAttributes ctx attributes =
     (if ctx_RequestID ctx \<noteq> [] then attributes @ [(''request_id'', AString (ctx_RequestID ctx))] else attributes)"

definition tenant_emit :: "tenant_env \<Rightarrow> ctx \<Rightarrow> string \<Rightarrow> (string \<times> attr) list \<Rightarrow> tenant_state \<Rightarrow> tenant_state \<times> go_error option" where
  "tenant_emit env ctx event attributes st =
     (let attributes = enrichAttributes ctx attributes
      in if \<not> te_publisher env then (st, Some (dErrors_New CodeInternal ''audit publisher is required''))
         else (st\<lparr> tn_audit := tn_audit st @
                    [\<lparr> tev_Subject = resolveAuditSubject attributes (ExtractString attributes ''user_id''),
                       tev_Action = event, tev_RequestID = ctx_RequestID ctx \<rparr>] \<rparr>, None))"

text \<open>Identifiers are types of their own, so their values in an attribute list are not of type
  \<^verbatim>\<open>string\<close>; the name of a client is.\<close>

definition tenant_attrs :: "(string \<times> attr) list" where "tenant_attrs = [(''tenant_id'', AOther)]"

definition client_attrs :: "(string \<times> attr) list" where
  "client_attrs = [(''tenant_id'', AOther), (''client_id'', AOther)]"

section \<open>Tenants\<close>

definition CreateTenant :: "tenant_env \<Rightarrow> ctx \<Rightarrow> string \<Rightarrow> tenant_state \<Rightarrow> tenant_state \<times> Tenant result" where
  "CreateTenant env ctx name st =
     (let name = TrimSpace name
      in run_in_tx ctx (\<lambda>st.
           case NewTenant (TenantID (te_uuid_New env)) name (ctx_Now ctx) of
             Inl err \<Rightarrow> (st, Inl err)
           | Inr t \<Rightarrow>
               (case CreateIfNameAvailable (te_uni env) (tn_tenants st) t of
                  (s, Some err) \<Rightarrow>
                    (st\<lparr> tn_tenants := s \<rparr>,
                     if errors_Is err (Sentinel ErrAlreadyUsed) \<or> HasCode err CodeConflict
                     then Inl (dErrors_New CodeConflict ''tenant name must be unique'')
                     else Inl (dErrors_Wrap err CodeInternal ''failed to create tenant''))
                | (s, None) \<Rightarrow>
                    (case tenant_emit env ctx ''tenant_created'' tenant_attrs (st\<lparr> tn_tenants := s \<rparr>) of
                       (st, Some err) \<Rightarrow> (st, Inl err)
                     | (st, None) \<Rightarrow> (st, Inr t)))) st)"

definition GetTenant :: "TenantID \<Rightarrow> tenant_state \<Rightarrow> Tenant result" where
  "GetTenant tenantID st =
     (case requireTenantID tenantID of Some e \<Rightarrow> Inl e | None \<Rightarrow>
        (case TenantStore_FindByID (tn_tenants st) tenantID of
           Inl err \<Rightarrow> Inl (wrapTenantErr err) | Inr t \<Rightarrow> Inr t))"

definition GetTenantByName :: "tenant_env \<Rightarrow> string \<Rightarrow> tenant_state \<Rightarrow> Tenant option result" where
  "GetTenantByName env name st =
     (let name = TrimSpace name
      in if name = [] then Inl (dErrors_New CodeBadRequest ''tenant name is required'')
         else case TenantStore_FindByName (te_uni env) (tn_tenants st) name of
                Inl err \<Rightarrow> Inl (wrapTenantErr err) | Inr t \<Rightarrow> Inr t)"

text \<open>The validation callbacks turn the invariant violation of the aggregate into a conflict.\<close>

definition as_conflict :: "string \<Rightarrow> go_error option \<Rightarrow> go_error option" where
  "as_conflict msg r =
     (case r of
        None \<Rightarrow> None
      | Some err \<Rightarrow> if HasCode err CodeInvariantViolation then Some (dErrors_New CodeConflict msg) else Some err)"

definition DeactivateTenant :: "tenant_env \<Rightarrow> ctx \<Rightarrow> TenantID \<Rightarrow> tenant_state \<Rightarrow> tenant_state \<times> Tenant result" where
  "DeactivateTenant env ctx tenantID st =
     (case requireTenantID tenantID of Some e \<Rightarrow> (st, Inl e) | None \<Rightarrow>
        (case TenantStore_Execute (tn_tenants st) tenantID
                (\<lambda>t. as_conflict ''tenant is already inactive'' (Tenant_CanDeactivate t))
                (Tenant_ApplyDeactivation (ctx_Now ctx)) of
           (s, _, Some err) \<Rightarrow> (st\<lparr> tn_tenants := s \<rparr>, Inl (wrapTenantErr err))
         | (s, tenant, None) \<Rightarrow>
             (case tenant_emit env ctx ''tenant_deactivated'' tenant_attrs (st\<lparr> tn_tenants := s \<rparr>) of
                (st, Some err) \<Rightarrow> (st, Inl err)
              | (st, None) \<Rightarrow> (st, Inr (the tenant)))))"

definition ReactivateTenant :: "tenant_env \<Rightarrow> ctx \<Rightarrow> TenantID \<Rightarrow> tenant_state \<Rightarrow> tenant_state \<times> Tenant result" where
  "ReactivateTenant env ctx tenantID st =
     (case requireTenantID tenantID of Some e \<Rightarrow> (st, Inl e) | None \<Rightarrow>
        (case TenantStore_Execute (tn_tenants st) tenantID
                (\<lambda>t. as_conflict ''tenant is already active'' (Tenant_CanReactivate t))
                (Tenant_ApplyReactivation (ctx_Now ctx)) of
           (s, _, Some err) \<Rightarrow> (st\<lparr> tn_tenants := s \<rparr>, Inl (wrapTenantErr err))
         | (s, tenant, None) \<Rightarrow>
             (case tenant_emit env ctx ''tenant_reactivated'' tenant_attrs (st\<lparr> tn_tenants := s \<rparr>) of
                (st, Some err) \<Rightarrow> (st, Inl err)
              | (st, None) \<Rightarrow> (st, Inr (the tenant)))))"

record TenantDetails =
  td_ID :: TenantID
  td_Name :: string
  td_Status :: TenantStatus
  td_CreatedAt :: time
  td_UpdatedAt :: time
  td_UserCount :: int
  td_ClientCount :: int

definition GetTenantDetails :: "tenant_env \<Rightarrow> TenantID \<Rightarrow> tenant_state \<Rightarrow> TenantDetails result" where
  "GetTenantDetails env tenantID st =
     (case GetTenant tenantID st of Inl e \<Rightarrow> Inl e | Inr t \<Rightarrow>
        let details = (\<lambda>userCount. \<lparr> td_ID = Tenant_ID t, td_Name = Tenant_Name t, td_Status = Tenant_Status t,
              td_CreatedAt = Tenant_CreatedAt t, td_UpdatedAt = Tenant_UpdatedAt t, td_UserCount = userCount,
              td_ClientCount = CountByTenant (tn_clients st) tenantID \<rparr>)
        in (case te_userCounter env of
              None \<Rightarrow> Inr (details 0)
            | Some counter \<Rightarrow>
                (case counter tenantID of
                   Inl err \<Rightarrow> Inl (dErrors_Wrap err CodeInternal ''failed to count users'')
                 | Inr n \<Rightarrow> Inr (details n))))"

section \<open>Clients\<close>

definition generateSecret :: "tenant_env \<Rightarrow> bool \<Rightarrow> (string \<times> string) result" where
  "generateSecret env isPublic =
     (if isPublic then Inr ([], [])
      else case Secrets_Generate (te_rand_Read env) of
             Inl err \<Rightarrow> Inl (dErrors_Wrap err CodeInternal ''failed to generate secret'')
           | Inr secret \<Rightarrow>
               (case Secrets_Hash (te_bcrypt env) secret of
                  Inl err \<Rightarrow> Inl (dErrors_Wrap err CodeInternal ''failed to hash secret'')
                | Inr hash \<Rightarrow> Inr (secret, hash)))"

definition invalidClientCredentials :: go_error where
  "invalidClientCredentials = dErrors_New CodeInvalidClient ''invalid client credentials''"

definition CreateClient :: "tenant_env \<Rightarrow> ctx \<Rightarrow> CreateClientCommand \<Rightarrow> tenant_state \<Rightarrow> tenant_state \<times> (Client \<times> string) result" where
  "CreateClient env ctx cmd st =
     (case CreateClientCommand_Validate env cmd of
        Some err \<Rightarrow> (st, Inl (dErrors_Wrap err CodeValidation ''invalid client request''))
      | None \<Rightarrow> run_in_tx ctx (\<lambda>st.
          case TenantStore_FindByID (tn_tenants st) (cc_TenantID cmd) of
            Inl err \<Rightarrow> (st, Inl (wrapTenantErr err))
          | Inr tenant \<Rightarrow>
              if \<not> Tenant_IsActive tenant
              then (st, Inl (dErrors_New CodeValidation ''cannot create client under inactive tenant''))
              else case generateSecret env (cc_Public cmd) of
                     Inl err \<Rightarrow> (st, Inl err)
                   | Inr (secretValue, secretHash) \<Rightarrow>
                       (case NewClient (ClientID (te_uuid_New env)) (cc_TenantID cmd) (cc_Name cmd) (te_uuid_NewString env)
                               secretHash (cc_RedirectURIs cmd) (cc_AllowedGrants cmd) (cc_AllowedScopes cmd) (ctx_Now ctx) of
                          Inl err \<Rightarrow> (st, Inl err)
                        | Inr newClient \<Rightarrow>
                            (case ClientStore_Create (tn_clients st) newClient of
                               (s, Some err) \<Rightarrow> (st\<lparr> tn_clients := s \<rparr>, Inl (dErrors_Wrap err CodeInternal ''failed to create client''))
                             | (s, None) \<Rightarrow>
                                 (case tenant_emit env ctx ''client_created''
                                         (client_attrs @ [(''client_name'', AString (Client_Name newClient))])
                                         (st\<lparr> tn_clients := s \<rparr>) of
                                    (st, Some err) \<Rightarrow> (st, Inl err)
                                  | (st, None) \<Rightarrow> (st, Inr (newClient, secretValue)))))) st)"

definition GetClient :: "ClientID \<Rightarrow> tenant_state \<Rightarrow> Client result" where
  "GetClient clientID st =
     (case requireClientID clientID of Some e \<Rightarrow> Inl e | None \<Rightarrow>
        (case ClientStore_FindByID (tn_clients st) clientID of
           Inl err \<Rightarrow> Inl (wrapClientErr err ''failed to get client'') | Inr c \<Rightarrow> Inr c))"

definition GetClientForTenant :: "TenantID \<Rightarrow> ClientID \<Rightarrow> tenant_state \<Rightarrow> Client result" where
  "GetClientForTenant tenantID clientID st =
     (case requireTenantID tenantID of Some e \<Rightarrow> Inl e | None \<Rightarrow>
        (case requireClientID clientID of Some e \<Rightarrow> Inl e | None \<Rightarrow>
           (case FindByTenantAndID (tn_clients st) tenantID clientID of
              Inl err \<Rightarrow> Inl (wrapClientErr err ''failed to get client'') | Inr c \<Rightarrow> Inr c)))"

definition validateGrantChanges :: "Client \<Rightarrow> UpdateClientCommand \<Rightarrow> go_error option" where
  "validateGrantChanges client cmd =
     (if \<not> uc_hasAllowedGrants cmd then None
      else first_error (\<lambda>grant. if \<not> CanUseGrant client grant
             then Some (dErrors_New CodeValidation ''client_credentials grant requires a confidential client'') else None)
             (uc_AllowedGrants cmd))"

definition applyFieldUpdates :: "UpdateClientCommand \<Rightarrow> Client \<Rightarrow> Client" where
  "applyFieldUpdates cmd client =
     client\<lparr> Client_Name := (case uc_Name cmd of Some n \<Rightarrow> TrimSpace n | None \<Rightarrow> Client_Name client),
             Client_RedirectURIs := (if uc_hasRedirectURIs cmd then uc_RedirectURIs cmd else Client_RedirectURIs client),
             Client_AllowedGrants := (if uc_hasAllowedGrants cmd then uc_AllowedGrants cmd else Client_AllowedGrants client),
             Client_AllowedScopes := (if uc_hasAllowedScopes cmd then uc_AllowedScopes cmd else Client_AllowedScopes client) \<rparr>"

text \<open>
  What the operations share that change a client: \<^verbatim>\<open>Execute\<close> on the store, the translation of
  its error, and an audit event unless \<open>event\<close> is \<open>None\<close>.
\<close>

definition change_client ::
  "tenant_env \<Rightarrow> ctx \<Rightarrow> ClientID \<Rightarrow> (Client \<Rightarrow> go_error option) \<Rightarrow> (Client \<Rightarrow> Client) \<Rightarrow> string \<Rightarrow> string option
     \<Rightarrow> tenant_state \<Rightarrow> tenant_state \<times> Client result" where
  "change_client env ctx clientID validate mutate action event st =
     (case ClientStore_Execute (tn_clients st) clientID validate mutate of
        (s, _, Some err) \<Rightarrow> (st\<lparr> tn_clients := s \<rparr>, Inl (wrapClientErr err action))
      | (s, client, None) \<Rightarrow>
          (case event of
             None \<Rightarrow> (st\<lparr> tn_clients := s \<rparr>, Inr (the client))
           | Some ev \<Rightarrow>
               (case tenant_emit env ctx ev client_attrs (st\<lparr> tn_clients := s \<rparr>) of
                  (st, Some err) \<Rightarrow> (st, Inl err)
                | (st, None) \<Rightarrow> (st, Inr (the client)))))"

text \<open>The validation and mutation callbacks of the two updates.\<close>

definition update_validate :: "UpdateClientCommand \<Rightarrow> Client \<Rightarrow> go_error option" where
  "update_validate cmd c =
     (if uc_RotateSecret cmd \<and> \<not> IsConfidential c
      then Some (dErrors_New CodeValidation ''cannot rotate secret for public client'')
      else validateGrantChanges c cmd)"

definition update_mutate :: "UpdateClientCommand \<Rightarrow> string \<Rightarrow> time \<Rightarrow> Client \<Rightarrow> Client" where
  "update_mutate cmd hash now c =
     (applyFieldUpdates cmd (if uc_RotateSecret cmd then c\<lparr> Client_ClientSecretHash := hash \<rparr> else c))\<lparr> Client_UpdatedAt := now \<rparr>"

definition with_secret :: "string \<Rightarrow> tenant_state \<times> Client result \<Rightarrow> tenant_state \<times> (Client \<times> string) result" where
  "with_secret secret r = (case r of (st, Inl e) \<Rightarrow> (st, Inl e) | (st, Inr c) \<Rightarrow> (st, Inr (c, secret)))"

definition UpdateClient ::
  "tenant_env \<Rightarrow> ctx \<Rightarrow> ClientID \<Rightarrow> UpdateClientCommand \<Rightarrow> tenant_state \<Rightarrow> tenant_state \<times> (Client \<times> string) result" where
  "UpdateClient env ctx clientID cmd st =
     (case requireClientID clientID of Some e \<Rightarrow> (st, Inl e) | None \<Rightarrow>
        (case UpdateClientCommand_Validate env cmd of
           Some err \<Rightarrow> (st, Inl (dErrors_Wrap err CodeValidation ''invalid update request''))
         | None \<Rightarrow>
             (case (if uc_RotateSecret cmd then generateSecret env False else Inr ([], [])) of
                Inl err \<Rightarrow> (st, Inl err)
              | Inr (secret, hash) \<Rightarrow>
                  with_secret secret
                    (change_client env ctx clientID (update_validate cmd) (update_mutate cmd hash (ctx_Now ctx))
                       ''failed to update client'' (if uc_RotateSecret cmd then Some ''client_secret_rotated'' else None) st))))"

definition in_tenant :: "TenantID \<Rightarrow> (Client \<Rightarrow> go_error option) \<Rightarrow> Client \<Rightarrow> go_error option" where
  "in_tenant tenantID validate c = (if Client_TenantID c \<noteq> tenantID then Some (Sentinel ErrNotFound) else validate c)"

definition UpdateClientForTenant ::
  "tenant_env \<Rightarrow> ctx \<Rightarrow> TenantID \<Rightarrow> ClientID \<Rightarrow> UpdateClientCommand \<Rightarrow> tenant_state \<Rightarrow> tenant_state \<times> (Client \<times> string) result" where
  "UpdateClientForTenant env ctx tenantID clientID cmd st =
     (case requireTenantID tenantID of Some e \<Rightarrow> (st, Inl e) | None \<Rightarrow>
        (case requireClientID clientID of Some e \<Rightarrow> (st, Inl e) | None \<Rightarrow>
           (case UpdateClientCommand_Validate env cmd of
              Some err \<Rightarrow> (st, Inl (dErrors_Wrap err CodeValidation ''invalid update request''))
            | None \<Rightarrow>
                (case (if uc_RotateSecret cmd then generateSecret env False else Inr ([], [])) of
                   Inl err \<Rightarrow> (st, Inl err)
                 | Inr (secret, hash) \<Rightarrow>
                     with_secret secret
                       (change_client env ctx clientID (in_tenant tenantID (update_validate cmd))
                          (update_mutate cmd hash (ctx_Now ctx)) ''failed to update client''
                          (if uc_RotateSecret cmd then Some ''client_secret_rotated'' else None) st)))))"

definition DeactivateClient :: "tenant_env \<Rightarrow> ctx \<Rightarrow> ClientID \<Rightarrow> tenant_state \<Rightarrow> tenant_state \<times> Client result" where
  "DeactivateClient env ctx clientID st =
     (case requireClientID clientID of Some e \<Rightarrow> (st, Inl e) | None \<Rightarrow>
        change_client env ctx clientID (\<lambda>c. as_conflict ''client is already inactive'' (Client_CanDeactivate c))
          (Client_ApplyDeactivation (ctx_Now ctx)) ''failed to deactivate client'' (Some ''client_deactivated'') st)"

definition ReactivateClient :: "tenant_env \<Rightarrow> ctx \<Rightarrow> ClientID \<Rightarrow> tenant_state \<Rightarrow> tenant_state \<times> Client result" where
  "ReactivateClient env ctx clientID st =
     (case requireClientID clientID of Some e \<Rightarrow> (st, Inl e) | None \<Rightarrow>
        change_client env ctx clientID (\<lambda>c. as_conflict ''client is already active'' (Client_CanReactivate c))
          (Client_ApplyReactivation (ctx_Now ctx)) ''failed to reactivate client'' (Some ''client_reactivated'') st)"

definition rotate_validate :: "Client \<Rightarrow> go_error option" where
  "rotate_validate c =
     (if \<not> IsConfidential c then Some (dErrors_New CodeValidation ''cannot rotate secret for public client'') else None)"

definition rotate_mutate :: "string \<Rightarrow> time \<Rightarrow> Client \<Rightarrow> Client" where
  "rotate_mutate hash now c = c\<lparr> Client_ClientSecretHash := hash, Client_UpdatedAt := now \<rparr>"

definition RotateClientSecret ::
  "tenant_env \<Rightarrow> ctx \<Rightarrow> ClientID \<Rightarrow> tenant_state \<Rightarrow> tenant_state \<times> (Client \<times> string) result" where
  "RotateClientSecret env ctx clientID st =
     (case requireClientID clientID of Some e \<Rightarrow> (st, Inl e) | None \<Rightarrow>
        (case generateSecret env False of
           Inl err \<Rightarrow> (st, Inl err)
         | Inr (secret, hash) \<Rightarrow>
             with_secret secret
               (change_client env ctx clientID rotate_validate (rotate_mutate hash (ctx_Now ctx))
                  ''failed to rotate client secret'' (Some ''client_secret_rotated'') st)))"

definition RotateClientSecretForTenant ::
  "tenant_env \<Rightarrow> ctx \<Rightarrow> TenantID \<Rightarrow> ClientID \<Rightarrow> tenant_state \<Rightarrow> tenant_state \<times> (Client \<times> string) result" where
  "RotateClientSecretForTenant env ctx tenantID clientID st =
     (case requireTenantID tenantID of Some e \<Rightarrow> (st, Inl e) | None \<Rightarrow>
        (case requireClientID clientID of Some e \<Rightarrow> (st, Inl e) | None \<Rightarrow>
           (case generateSecret env False of
              Inl err \<Rightarrow> (st, Inl err)
            | Inr (secret, hash) \<Rightarrow>
                with_secret secret
                  (change_client env ctx clientID (in_tenant tenantID rotate_validate) (rotate_mutate hash (ctx_Now ctx))
                     ''failed to rotate client secret'' (Some ''client_secret_rotated'') st))))"

definition VerifyClientSecret :: "tenant_env \<Rightarrow> ClientID \<Rightarrow> string \<Rightarrow> tenant_state \<Rightarrow> go_error option" where
  "VerifyClientSecret env clientID providedSecret st =
     (case requireClientID clientID of Some e \<Rightarrow> Some e | None \<Rightarrow>
        (case ClientStore_FindByID (tn_clients st) clientID of
           Inl _ \<Rightarrow> Some invalidClientCredentials
         | Inr client \<Rightarrow>
             if \<not> IsConfidential client then Some invalidClientCredentials
             else if Secrets_Verify (te_bcrypt env) providedSecret (Client_ClientSecretHash client) \<noteq> None
             then Some invalidClientCredentials else None))"

definition VerifyClientSecretByOAuthID :: "tenant_env \<Rightarrow> string \<Rightarrow> string \<Rightarrow> tenant_state \<Rightarrow> go_error option" where
  "VerifyClientSecretByOAuthID env oauthClientID providedSecret st =
     (let oauthClientID = TrimSpace oauthClientID
      in if oauthClientID = [] then Some (dErrors_New CodeInvalidClient ''client_id is required'')
         else case FindByOAuthClientID (tn_clients st) oauthClientID of
                Inl _ \<Rightarrow> Some invalidClientCredentials
              | Inr client \<Rightarrow>
                  if \<not> IsConfidential client then Some invalidClientCredentials
                  else if Secrets_Verify (te_bcrypt env) providedSecret (Client_ClientSecretHash client) \<noteq> None
                  then Some invalidClientCredentials else None)"

definition ResolveClient :: "string \<Rightarrow> tenant_state \<Rightarrow> (Client \<times> Tenant) result" where
  "ResolveClient clientID st =
     (let clientID = TrimSpace clientID
      in if clientID = [] then Inl (dErrors_New CodeValidation ''client_id is required'')
         else case FindByOAuthClientID (tn_clients st) clientID of
                Inl err \<Rightarrow>
                  if errors_Is err (Sentinel ErrNotFound) then Inl invalidClientCredentials
                  else Inl (dErrors_Wrap err CodeInternal ''failed to resolve client'')
              | Inr client \<Rightarrow>
                  if \<not> Client_IsActive client then Inl invalidClientCredentials
                  else case TenantStore_FindByID (tn_tenants st) (Client_TenantID client) of
                         Inl err \<Rightarrow>
                           if errors_Is err (Sentinel ErrNotFound) then Inl invalidClientCredentials
                           else Inl (dErrors_Wrap err CodeInternal ''failed to load tenant for client'')
                       | Inr tenant \<Rightarrow>
                           if \<not> Tenant_IsActive tenant then Inl invalidClientCredentials
                           else Inr (client, tenant))"

end
