(* ===== verification/Tenant_Registry.thy ===== *)
theory Tenant_Registry
  imports Tenant_Service
begin

text \<open>
  What the tenant service guarantees over any sequence of calls: the registry of tenants and clients
  stays well formed, resolution is the single place where suspension takes effect, and a client
  authenticates with its latest secret and no other.
\<close>

section \<open>Sequences of calls\<close>

text \<open>Every call has an environment of its own, with the values it draws.\<close>

datatype tn_op =
    OpCreateTenant tenant_env ctx string
  | OpDeactivateTenant tenant_env ctx TenantID
  | OpReactivateTenant tenant_env ctx TenantID
  | OpCreateClient tenant_env ctx CreateClientCommand
  | OpUpdateClient tenant_env ctx ClientID UpdateClientCommand
  | OpUpdateClientForTenant tenant_env ctx TenantID ClientID UpdateClientCommand
  | OpDeactivateClient tenant_env ctx ClientID
  | OpReactivateClient tenant_env ctx ClientID
  | OpRotateClientSecret tenant_env ctx ClientID
  | OpRotateClientSecretForTenant tenant_env ctx TenantID ClientID

fun tn_do :: "tn_op \<Rightarrow> tenant_state \<Rightarrow> tenant_state" where
  "tn_do (OpCreateTenant env ctx name) st = fst (CreateTenant env ctx name st)"
| "tn_do (OpDeactivateTenant env ctx tid) st = fst (DeactivateTenant env ctx tid st)"
| "tn_do (OpReactivateTenant env ctx tid) st = fst (ReactivateTenant env ctx tid st)"
| "tn_do (OpCreateClient env ctx cmd) st = fst (CreateClient env ctx cmd st)"
| "tn_do (OpUpdateClient env ctx cid cmd) st = fst (UpdateClient env ctx cid cmd st)"
| "tn_do (OpUpdateClientForTenant env ctx tid cid cmd) st = fst (UpdateClientForTenant env ctx tid cid cmd st)"
| "tn_do (OpDeactivateClient env ctx cid) st = fst (DeactivateClient env ctx cid st)"
| "tn_do (OpReactivateClient env ctx cid) st = fst (ReactivateClient env ctx cid st)"
| "tn_do (OpRotateClientSecret env ctx cid) st = fst (RotateClientSecret env ctx cid st)"
| "tn_do (OpRotateClientSecretForTenant env ctx tid cid) st = fst (RotateClientSecretForTenant env ctx tid cid st)"

text \<open>
  What the calls rely on: new identifiers are new, and a bcrypt hash is not empty. \<open>uni\<close> is the
  lower-casing of text beyond ASCII, the same in every call.
\<close>

definition hashes_ok :: "tenant_env \<Rightarrow> bool" where
  "hashes_ok env \<longleftrightarrow> (\<forall>s h. bcrypt_GenerateFromPassword (te_bcrypt env) s = Inr h \<longrightarrow> h \<noteq> [])"

fun tn_draws :: "(string \<Rightarrow> string) \<Rightarrow> tenant_state \<Rightarrow> tn_op \<Rightarrow> bool" where
  "tn_draws uni st (OpCreateTenant env _ _) \<longleftrightarrow>
     te_uni env = uni \<and> kv_get (tenants_by_id (tn_tenants st)) (TenantID (te_uuid_New env)) = None"
| "tn_draws uni st (OpCreateClient env _ _) \<longleftrightarrow>
     hashes_ok env \<and> kv_get (clients_by_id (tn_clients st)) (ClientID (te_uuid_New env)) = None \<and>
     kv_get (byCode (tn_clients st)) (te_uuid_NewString env) = None"
| "tn_draws uni st (OpUpdateClient env _ _ _) \<longleftrightarrow> hashes_ok env"
| "tn_draws uni st (OpUpdateClientForTenant env _ _ _ _) \<longleftrightarrow> hashes_ok env"
| "tn_draws uni st (OpRotateClientSecret env _ _) \<longleftrightarrow> hashes_ok env"
| "tn_draws uni st (OpRotateClientSecretForTenant env _ _ _) \<longleftrightarrow> hashes_ok env"
| "tn_draws uni st _ \<longleftrightarrow> True"

inductive tn_run :: "(string \<Rightarrow> string) \<Rightarrow> (tn_op \<Rightarrow> bool) \<Rightarrow> tenant_state \<Rightarrow> tenant_state \<Rightarrow> bool"
  for uni :: "string \<Rightarrow> string" and allowed :: "tn_op \<Rightarrow> bool" and st :: tenant_state where
  tn_refl: "tn_run uni allowed st st"
| tn_step: "tn_run uni allowed st st' \<Longrightarrow> allowed op \<Longrightarrow> tn_draws uni st' op \<Longrightarrow> tn_run uni allowed st (tn_do op st')"

definition tenant_init :: tenant_state where
  "tenant_init = \<lparr> tn_tenants = TenantStore_New, tn_clients = ClientStore_New, tn_audit = [] \<rparr>"

text \<open>The registry is well formed: both stores are, and every client belongs to a tenant.\<close>

definition registry_ok :: "(string \<Rightarrow> string) \<Rightarrow> tenant_state \<Rightarrow> bool" where
  "registry_ok uni st \<longleftrightarrow> tenants_ok uni (tn_tenants st) \<and> clients_ok (tn_clients st) \<and>
     (\<forall>k c. kv_get (clients_by_id (tn_clients st)) k = Some c \<longrightarrow>
        kv_get (tenants_by_id (tn_tenants st)) (Client_TenantID c) \<noteq> None)"

section \<open>What each call does to the stores\<close>

lemma tenant_emit_stores [simp]:
  "tn_tenants (fst (tenant_emit env ctx ev as st)) = tn_tenants st"
  "tn_clients (fst (tenant_emit env ctx ev as st)) = tn_clients st"
  by (simp_all add: tenant_emit_def Let_def)

lemma tenant_emit_cases:
  "tenant_emit env ctx ev as st = (st', r) \<Longrightarrow>
   tn_tenants st' = tn_tenants st \<and> tn_clients st' = tn_clients st"
  using tenant_emit_stores [of env ctx ev as st] by simp

lemma change_client_stores:
  "tn_tenants (fst (change_client env ctx cid v m action ev st)) = tn_tenants st"
  "tn_clients (fst (change_client env ctx cid v m action ev st)) = fst (ClientStore_Execute (tn_clients st) cid v m)"
  by (auto simp: change_client_def split: prod.splits option.splits dest: tenant_emit_cases)

lemma with_secret_stores [simp]:
  "fst (with_secret secret r) = fst r"
  by (auto simp: with_secret_def split: prod.splits sum.splits)

lemma tenant_execute_stores:
  "tn_clients (fst (DeactivateTenant env ctx tid st)) = tn_clients st"
  "tn_clients (fst (ReactivateTenant env ctx tid st)) = tn_clients st"
  by (auto simp: DeactivateTenant_def ReactivateTenant_def split: prod.splits option.splits dest: tenant_emit_cases)

lemma DeactivateTenant_tenants:
  "tn_tenants (fst (DeactivateTenant env ctx tid st)) =
     (if TenantID_IsNil tid then tn_tenants st
      else fst (TenantStore_Execute (tn_tenants st) tid
                 (\<lambda>t. as_conflict ''tenant is already inactive'' (Tenant_CanDeactivate t))
                 (Tenant_ApplyDeactivation (ctx_Now ctx))))"
  by (auto simp: DeactivateTenant_def requireTenantID_def split: prod.splits option.splits dest: tenant_emit_cases)

lemma ReactivateTenant_tenants:
  "tn_tenants (fst (ReactivateTenant env ctx tid st)) =
     (if TenantID_IsNil tid then tn_tenants st
      else fst (TenantStore_Execute (tn_tenants st) tid
                 (\<lambda>t. as_conflict ''tenant is already active'' (Tenant_CanReactivate t))
                 (Tenant_ApplyReactivation (ctx_Now ctx))))"
  by (auto simp: ReactivateTenant_def requireTenantID_def split: prod.splits option.splits dest: tenant_emit_cases)

text \<open>A change of a client through \<^verbatim>\<open>Execute\<close> that keeps its identity and its invariant.\<close>

definition client_change_ok :: "(Client \<Rightarrow> go_error option) \<Rightarrow> (Client \<Rightarrow> Client) \<Rightarrow> bool" where
  "client_change_ok v m \<longleftrightarrow> (\<forall>c. v c = None \<longrightarrow> client_ok c \<longrightarrow>
     client_ok (m c) \<and> Client_ID (m c) = Client_ID c \<and> Client_TenantID (m c) = Client_TenantID c \<and>
     Client_OAuthClientID (m c) = Client_OAuthClientID c)"

lemma registry_ok_change_client:
  assumes "registry_ok uni st" "client_change_ok v m"
  shows "registry_ok uni (fst (change_client env ctx cid v m action ev st))"
proof -
  let ?s = "fst (ClientStore_Execute (tn_clients st) cid v m)"
  have ok: "clients_ok (tn_clients st)" using assms(1) by (simp add: registry_ok_def)
  have "clients_ok ?s"
    using assms(2) by (intro clients_ok_execute [OF ok]) (auto simp: client_change_ok_def)
  moreover have "kv_get (tenants_by_id (tn_tenants st)) (Client_TenantID c) \<noteq> None"
    if "kv_get (clients_by_id ?s) k = Some c" for k c
    using that assms clients_okD(1) [OF ok, of cid]
    by (auto simp: ClientStore_Execute_def Let_def kv_simps registry_ok_def client_change_ok_def
        split: option.splits if_splits)
  ultimately show ?thesis
    using assms(1) by (simp add: registry_ok_def change_client_stores)
qed

lemma in_tenant_change_ok: "client_change_ok v m \<Longrightarrow> client_change_ok (in_tenant tid v) m"
  by (auto simp: client_change_ok_def in_tenant_def)

lemma CanUseGrant_iff: "CanUseGrant c g \<longleftrightarrow> (RequiresConfidentialClient g \<longrightarrow> IsConfidential c)"
  by (simp add: CanUseGrant_def)

lemma status_change_ok:
  "client_change_ok (\<lambda>c. as_conflict msg (Client_CanDeactivate c)) (Client_ApplyDeactivation now)"
  "client_change_ok (\<lambda>c. as_conflict msg (Client_CanReactivate c)) (Client_ApplyReactivation now)"
  by (auto simp: client_change_ok_def client_ok_def Client_ApplyDeactivation_def Client_ApplyReactivation_def
      ClientStatus_IsValid_def CanUseGrant_iff IsConfidential_def)

lemma rotate_change_ok: "hash \<noteq> [] \<Longrightarrow> client_change_ok rotate_validate (rotate_mutate hash now)"
  by (auto simp: client_change_ok_def client_ok_def rotate_validate_def rotate_mutate_def CanUseGrant_iff IsConfidential_def
      split: if_splits)

lemma update_change_ok:
  assumes "UpdateClientCommand_Validate env cmd = None" "uc_RotateSecret cmd \<Longrightarrow> hash \<noteq> []"
  shows "client_change_ok (update_validate cmd) (update_mutate cmd hash now)"
proof -
  have v: "validateOptionalName (uc_Name cmd) = None"
    "uc_hasRedirectURIs cmd \<Longrightarrow> uc_RedirectURIs cmd \<noteq> []"
    "uc_hasAllowedGrants cmd \<Longrightarrow> uc_AllowedGrants cmd \<noteq> [] \<and> validateEachGrant (uc_AllowedGrants cmd) = None"
    "uc_hasAllowedScopes cmd \<Longrightarrow> uc_AllowedScopes cmd \<noteq> []"
    using assms(1) by (auto simp: UpdateClientCommand_Validate_def validate_given_def split: option.splits if_splits)
  have n: "uc_Name cmd = Some n \<Longrightarrow> TrimSpace n \<noteq> [] \<and> length (TrimSpace n) \<le> 128" for n
    using v(1) by (auto simp: validateOptionalName_def Let_def maxNameLength_def split: if_splits)
  have g: "uc_hasAllowedGrants cmd \<Longrightarrow> x \<in> set (uc_AllowedGrants cmd) \<Longrightarrow> GrantType_IsValid x" for x
    using v(3) by (auto simp: validateEachGrant_def first_error_None_iff split: if_splits)
  have conf: "update_validate cmd c = None \<Longrightarrow> IsConfidential (update_mutate cmd hash now c) = IsConfidential c" for c
    using assms(2)
    by (auto simp: update_validate_def update_mutate_def applyFieldUpdates_def IsConfidential_def split: if_splits)
  have use: "update_validate cmd c = None \<Longrightarrow> uc_hasAllowedGrants cmd \<Longrightarrow> x \<in> set (uc_AllowedGrants cmd) \<Longrightarrow> CanUseGrant c x" for c x
    by (auto simp: update_validate_def validateGrantChanges_def first_error_None_iff split: if_splits)
  have gr: "Client_AllowedGrants (update_mutate cmd hash now c) =
      (if uc_hasAllowedGrants cmd then uc_AllowedGrants cmd else Client_AllowedGrants c)" for c
    by (simp add: update_mutate_def applyFieldUpdates_def)
  have grants: "\<forall>x \<in> set (Client_AllowedGrants (update_mutate cmd hash now c)).
       GrantType_IsValid x \<and> CanUseGrant (update_mutate cmd hash now c) x"
    if "update_validate cmd c = None" "client_ok c" for c
    using that g use [OF that(1)] conf [OF that(1)] by (auto simp: gr CanUseGrant_iff client_ok_def split: if_splits)
  have rest: "client_ok (update_mutate cmd hash now c)" if "update_validate cmd c = None" "client_ok c" for c
    using that(2) grants [OF that] v n unfolding client_ok_def
    by (auto simp: update_mutate_def applyFieldUpdates_def split: option.splits)
  show ?thesis
    using rest by (auto simp: client_change_ok_def update_mutate_def applyFieldUpdates_def)
qed

section \<open>Every call keeps the registry well formed\<close>

lemma generateSecret_hash:
  "hashes_ok env \<Longrightarrow> generateSecret env isPublic = Inr (secret, hash) \<Longrightarrow> \<not> isPublic \<Longrightarrow> hash \<noteq> []"
  by (auto simp: generateSecret_def Secrets_Hash_def hashes_ok_def split: if_splits sum.splits)

lemma generateSecret_public [simp]: "generateSecret env True = Inr ([], [])"
  by (simp add: generateSecret_def)

lemma NewTenant_ok: "NewTenant tid name now = Inr t \<Longrightarrow> tenant_ok t \<and> Tenant_ID t = tid \<and> Tenant_Name t = name"
  by (auto simp: NewTenant_def tenant_ok_def TenantStatus_IsValid_def split: if_splits)

lemma tenants_kept_create:
  "kv_get (tenants_by_id s) k \<noteq> None \<Longrightarrow> kv_get (tenants_by_id (fst (CreateIfNameAvailable uni s t))) k \<noteq> None"
  by (auto simp: CreateIfNameAvailable_def Let_def kv_simps)

lemma tenants_kept_execute:
  "kv_get (tenants_by_id s) k \<noteq> None \<Longrightarrow> kv_get (tenants_by_id (fst (TenantStore_Execute s j v m))) k \<noteq> None"
  by (auto simp: TenantStore_Execute_def kv_simps split: option.splits)

lemma registry_ok_tenants:
  assumes "registry_ok uni st" "tn_clients st' = tn_clients st" "tenants_ok uni (tn_tenants st')"
    and "\<And>k. kv_get (tenants_by_id (tn_tenants st)) k \<noteq> None \<Longrightarrow> kv_get (tenants_by_id (tn_tenants st')) k \<noteq> None"
  shows "registry_ok uni st'"
  using assms unfolding registry_ok_def by metis

text \<open>The stores after \<^verbatim>\<open>CreateTenant\<close>: a failed attempt leaves them alone unless only the audit
  event failed.\<close>

lemma CreateTenant_stores:
  "tn_clients (fst (CreateTenant env ctx name st)) = tn_clients st \<and>
   (tn_tenants (fst (CreateTenant env ctx name st)) = tn_tenants st \<or>
    (\<exists>t. NewTenant (TenantID (te_uuid_New env)) (TrimSpace name) (ctx_Now ctx) = Inr t \<and>
       tn_tenants (fst (CreateTenant env ctx name st)) = fst (CreateIfNameAvailable (te_uni env) (tn_tenants st) t)))"
  by (auto simp: CreateTenant_def Let_def run_in_tx_def split: option.splits sum.splits prod.splits dest: tenant_emit_cases)

lemma registry_ok_CreateTenant:
  assumes "registry_ok uni st" "te_uni env = uni"
    and "kv_get (tenants_by_id (tn_tenants st)) (TenantID (te_uuid_New env)) = None"
  shows "registry_ok uni (fst (CreateTenant env ctx name st))"
proof -
  note s = CreateTenant_stores [of env ctx name st]
  have ok: "tenants_ok uni (tn_tenants st)" using assms(1) by (simp add: registry_ok_def)
  consider "tn_tenants (fst (CreateTenant env ctx name st)) = tn_tenants st"
    | t where "NewTenant (TenantID (te_uuid_New env)) (TrimSpace name) (ctx_Now ctx) = Inr t"
      "tn_tenants (fst (CreateTenant env ctx name st)) = fst (CreateIfNameAvailable uni (tn_tenants st) t)"
    using s assms(2) by auto
  then show ?thesis
  proof cases
    case 1
    then show ?thesis using s ok assms(1) by (intro registry_ok_tenants [OF assms(1)]) auto
  next
    case 2
    then have t: "tenant_ok t" "Tenant_ID t = TenantID (te_uuid_New env)" using NewTenant_ok by blast+
    show ?thesis
      using s 2(2) tenants_ok_create [OF ok t(1)] t(2) assms(3) tenants_kept_create [of "tn_tenants st" _ uni t]
      by (intro registry_ok_tenants [OF assms(1)]) auto
  qed
qed

lemma registry_ok_tenant_execute:
  assumes "registry_ok uni st" "tn_clients st' = tn_clients st"
    and "tn_tenants st' = fst (TenantStore_Execute (tn_tenants st) tid v m)"
    and "\<And>t. tenant_ok t \<Longrightarrow> tenant_ok (m t) \<and> Tenant_ID (m t) = Tenant_ID t \<and> Tenant_Name (m t) = Tenant_Name t"
  shows "registry_ok uni st'"
proof -
  have ok: "tenants_ok uni (tn_tenants st)" using assms(1) by (simp add: registry_ok_def)
  show ?thesis
    using assms tenants_ok_execute [OF ok, of v m tid] tenants_kept_execute [of "tn_tenants st" _ tid v m]
    by (intro registry_ok_tenants [OF assms(1)]) auto
qed

lemma tenant_status_keeps:
  "tenant_ok t \<Longrightarrow> tenant_ok (Tenant_ApplyDeactivation now t) \<and> Tenant_ID (Tenant_ApplyDeactivation now t) = Tenant_ID t \<and>
     Tenant_Name (Tenant_ApplyDeactivation now t) = Tenant_Name t"
  "tenant_ok t \<Longrightarrow> tenant_ok (Tenant_ApplyReactivation now t) \<and> Tenant_ID (Tenant_ApplyReactivation now t) = Tenant_ID t \<and>
     Tenant_Name (Tenant_ApplyReactivation now t) = Tenant_Name t"
  by (simp_all add: tenant_ok_def Tenant_ApplyDeactivation_def Tenant_ApplyReactivation_def TenantStatus_IsValid_def)

lemma registry_ok_status:
  assumes "registry_ok uni st"
  shows "registry_ok uni (fst (DeactivateTenant env ctx tid st))" "registry_ok uni (fst (ReactivateTenant env ctx tid st))"
proof -
  show "registry_ok uni (fst (DeactivateTenant env ctx tid st))"
  proof (cases "TenantID_IsNil tid")
    case True
    then show ?thesis
      using assms by (simp add: registry_ok_def tenant_execute_stores DeactivateTenant_tenants)
  next
    case False
    then show ?thesis
      by (intro registry_ok_tenant_execute [OF assms tenant_execute_stores(1) _ tenant_status_keeps(1)])
        (simp add: DeactivateTenant_tenants)
  qed
  show "registry_ok uni (fst (ReactivateTenant env ctx tid st))"
  proof (cases "TenantID_IsNil tid")
    case True
    then show ?thesis
      using assms by (simp add: registry_ok_def tenant_execute_stores ReactivateTenant_tenants)
  next
    case False
    then show ?thesis
      by (intro registry_ok_tenant_execute [OF assms tenant_execute_stores(2) _ tenant_status_keeps(2)])
        (simp add: ReactivateTenant_tenants)
  qed
qed

text \<open>What a client looks like that \<^verbatim>\<open>CreateClient\<close> stores.\<close>

lemma CreateClient_stores:
  "tn_tenants (fst (CreateClient env ctx cmd st)) = tn_tenants st \<and>
   (tn_clients (fst (CreateClient env ctx cmd st)) = tn_clients st \<or>
    (\<exists>c t secret hash. CreateClientCommand_Validate env cmd = None \<and>
       kv_get (tenants_by_id (tn_tenants st)) (cc_TenantID cmd) = Some t \<and> Tenant_IsActive t \<and>
       generateSecret env (cc_Public cmd) = Inr (secret, hash) \<and>
       NewClient (ClientID (te_uuid_New env)) (cc_TenantID cmd) (cc_Name cmd) (te_uuid_NewString env)
         hash (cc_RedirectURIs cmd) (cc_AllowedGrants cmd) (cc_AllowedScopes cmd) (ctx_Now ctx) = Inr c \<and>
       tn_clients (fst (CreateClient env ctx cmd st)) = fst (ClientStore_Create (tn_clients st) c)))"
  by (auto simp: CreateClient_def TenantStore_FindByID_def run_in_tx_def
      split: option.splits sum.splits prod.splits dest: tenant_emit_cases)

lemma NewClient_fields:
  "NewClient cid tid name code hash uris grants scopes now = Inr c \<Longrightarrow>
   Client_ID c = cid \<and> Client_TenantID c = tid \<and> Client_OAuthClientID c = code \<and> Client_ClientSecretHash c = hash \<and>
   Client_Status c = ClientStatusActive"
  by (auto simp: NewClient_def split: if_splits)

lemma NewClient_ok:
  assumes "NewClient cid tid (cc_Name cmd) code hash (cc_RedirectURIs cmd) (cc_AllowedGrants cmd) (cc_AllowedScopes cmd) now = Inr c"
    and "CreateClientCommand_Validate env cmd = None" "\<not> cc_Public cmd \<Longrightarrow> hash \<noteq> []"
  shows "client_ok c"
proof -
  have pub: "\<not> (cc_Public cmd \<and> GrantTypeClientCredentials \<in> set (cc_AllowedGrants cmd))"
    using assms(2) by (auto simp: CreateClientCommand_Validate_def split: if_splits option.splits)
  have c: "client_ok c \<longleftrightarrow> (\<forall>g \<in> set (cc_AllowedGrants cmd). GrantType_IsValid g \<longrightarrow> CanUseGrant c g)"
    "Client_ClientSecretHash c = hash"
    using assms(1) by (auto simp: NewClient_def client_ok_def ClientStatus_IsValid_def list_all_iff split: if_splits)
  show ?thesis
    using pub assms(3) by (auto simp: c CanUseGrant_iff RequiresConfidentialClient_def IsConfidential_def)
qed

lemma registry_ok_CreateClient:
  assumes "registry_ok uni st" "hashes_ok env"
    and "kv_get (clients_by_id (tn_clients st)) (ClientID (te_uuid_New env)) = None"
    and "kv_get (byCode (tn_clients st)) (te_uuid_NewString env) = None"
  shows "registry_ok uni (fst (CreateClient env ctx cmd st))"
proof -
  let ?st = "fst (CreateClient env ctx cmd st)"
  note s = CreateClient_stores [of env ctx cmd st]
  show ?thesis
  proof (cases "tn_clients ?st = tn_clients st")
    case True
    then show ?thesis using s assms(1) by (simp add: registry_ok_def)
  next
    case False
    with s obtain c t secret hash where c: "CreateClientCommand_Validate env cmd = None"
      "kv_get (tenants_by_id (tn_tenants st)) (cc_TenantID cmd) = Some t"
      "generateSecret env (cc_Public cmd) = Inr (secret, hash)"
      "NewClient (ClientID (te_uuid_New env)) (cc_TenantID cmd) (cc_Name cmd) (te_uuid_NewString env)
         hash (cc_RedirectURIs cmd) (cc_AllowedGrants cmd) (cc_AllowedScopes cmd) (ctx_Now ctx) = Inr c"
      "tn_clients ?st = fst (ClientStore_Create (tn_clients st) c)" by auto
    have ok: "clients_ok (tn_clients st)" using assms(1) by (simp add: registry_ok_def)
    have "client_ok c" using NewClient_ok [OF c(4,1)] generateSecret_hash [OF assms(2) c(3)] by auto
    then have "clients_ok (tn_clients ?st)"
      using c(5) NewClient_fields [OF c(4)] assms(3,4) clients_ok_create [OF ok, of c] by simp
    moreover have "kv_get (tenants_by_id (tn_tenants st)) (Client_TenantID d) \<noteq> None"
      if "kv_get (clients_by_id (tn_clients ?st)) k = Some d" for k d
      using that c(2,5) NewClient_fields [OF c(4)] assms(1)
      by (auto simp: ClientStore_Create_def kv_simps registry_ok_def split: if_splits)
    ultimately show ?thesis using s assms(1) by (auto simp: registry_ok_def)
  qed
qed

lemma registry_ok_updates:
  assumes "registry_ok uni st" "hashes_ok env"
  shows "registry_ok uni (fst (UpdateClient env ctx cid cmd st))"
    and "registry_ok uni (fst (UpdateClientForTenant env ctx tid cid cmd st))"
    and "registry_ok uni (fst (RotateClientSecret env ctx cid st))"
    and "registry_ok uni (fst (RotateClientSecretForTenant env ctx tid cid st))"
proof -
  have h: "generateSecret env False = Inr (secret, hash) \<Longrightarrow> hash \<noteq> []" for secret hash
    using generateSecret_hash [OF assms(2)] by blast
  have u: "UpdateClientCommand_Validate env cmd = None \<Longrightarrow>
      (if uc_RotateSecret cmd then generateSecret env False else Inr ([], [])) = Inr (secret, hash) \<Longrightarrow>
      client_change_ok (update_validate cmd) (update_mutate cmd hash now)" for secret hash now
    using h by (intro update_change_ok) auto
  show "registry_ok uni (fst (UpdateClient env ctx cid cmd st))"
    using assms(1) u by (auto simp: UpdateClient_def intro!: registry_ok_change_client split: option.splits sum.splits prod.splits)
  show "registry_ok uni (fst (UpdateClientForTenant env ctx tid cid cmd st))"
    using assms(1) u by (auto simp: UpdateClientForTenant_def intro!: registry_ok_change_client in_tenant_change_ok
        split: option.splits sum.splits prod.splits)
  show "registry_ok uni (fst (RotateClientSecret env ctx cid st))"
    using assms(1) h by (auto simp: RotateClientSecret_def intro!: registry_ok_change_client rotate_change_ok
        split: option.splits sum.splits prod.splits)
  show "registry_ok uni (fst (RotateClientSecretForTenant env ctx tid cid st))"
    using assms(1) h by (auto simp: RotateClientSecretForTenant_def intro!: registry_ok_change_client rotate_change_ok in_tenant_change_ok
        split: option.splits sum.splits prod.splits)
qed

lemma registry_ok_client_status:
  assumes "registry_ok uni st"
  shows "registry_ok uni (fst (DeactivateClient env ctx cid st))" "registry_ok uni (fst (ReactivateClient env ctx cid st))"
  using assms by (auto simp: DeactivateClient_def ReactivateClient_def intro!: registry_ok_change_client status_change_ok
      split: option.splits)

lemma registry_ok_do: "registry_ok uni st \<Longrightarrow> tn_draws uni st op \<Longrightarrow> registry_ok uni (tn_do op st)"
  by (cases op)
    (simp_all add: registry_ok_CreateTenant registry_ok_status registry_ok_CreateClient registry_ok_updates registry_ok_client_status)

lemma registry_ok_run: "tn_run uni allowed st st' \<Longrightarrow> registry_ok uni st \<Longrightarrow> registry_ok uni st'"
  by (induction rule: tn_run.induct) (auto intro: registry_ok_do)

lemma registry_ok_init: "registry_ok uni tenant_init"
  by (simp add: registry_ok_def tenant_init_def stores_empty_ok) (simp add: ClientStore_New_def)

section \<open>Resolution\<close>

lemma ResolveClient_Inr_iff:
  "ResolveClient oid st = Inr (c, t) \<longleftrightarrow>
     TrimSpace oid \<noteq> [] \<and> kv_get (byCode (tn_clients st)) (TrimSpace oid) = Some c \<and> Client_IsActive c \<and>
     kv_get (tenants_by_id (tn_tenants st)) (Client_TenantID c) = Some t \<and> Tenant_IsActive t"
  by (auto simp: ResolveClient_def Let_def FindByOAuthClientID_def TenantStore_FindByID_def split: option.splits)

lemma ResolveClient_error:
  "ResolveClient oid st = Inl e \<Longrightarrow>
     (if TrimSpace oid = [] then HasCode e CodeValidation else e = invalidClientCredentials)"
  by (auto simp: ResolveClient_def Let_def FindByOAuthClientID_def TenantStore_FindByID_def err_simps
      split: option.splits if_splits)

text \<open>A tenant is suspended: it exists and is not active.\<close>

definition suspended :: "TenantID \<Rightarrow> tenant_state \<Rightarrow> bool" where
  "suspended tid st \<longleftrightarrow> (\<exists>t. kv_get (tenants_by_id (tn_tenants st)) tid = Some t \<and> \<not> Tenant_IsActive t)"

fun reactivates :: "TenantID \<Rightarrow> tn_op \<Rightarrow> bool" where
  "reactivates tid (OpReactivateTenant _ _ tid') \<longleftrightarrow> tid' = tid"
| "reactivates tid _ \<longleftrightarrow> False"

lemma suspended_cong: "tn_tenants st' = tn_tenants st \<Longrightarrow> suspended tid st' = suspended tid st"
  by (simp add: suspended_def)

lemma client_calls_tenants:
  "tn_tenants (fst (UpdateClient env ctx cid cmd st)) = tn_tenants st"
  "tn_tenants (fst (UpdateClientForTenant env ctx tid cid cmd st)) = tn_tenants st"
  "tn_tenants (fst (RotateClientSecret env ctx cid st)) = tn_tenants st"
  "tn_tenants (fst (RotateClientSecretForTenant env ctx tid cid st)) = tn_tenants st"
  "tn_tenants (fst (DeactivateClient env ctx cid st)) = tn_tenants st"
  "tn_tenants (fst (ReactivateClient env ctx cid st)) = tn_tenants st"
  "tn_tenants (fst (CreateClient env ctx ccmd st)) = tn_tenants st"
  using CreateClient_stores [of env ctx ccmd st]
  by (auto simp: UpdateClient_def UpdateClientForTenant_def RotateClientSecret_def RotateClientSecretForTenant_def
      DeactivateClient_def ReactivateClient_def change_client_stores split: option.splits sum.splits prod.splits)

lemma suspended_do:
  assumes "suspended tid st" "\<not> reactivates tid op" "tn_draws uni st op"
  shows "suspended tid (tn_do op st)"
proof (cases op)
  case (OpCreateTenant env ctx name)
  note s = CreateTenant_stores [of env ctx name st]
  have "kv_get (tenants_by_id (fst (CreateIfNameAvailable uni (tn_tenants st) t))) tid = kv_get (tenants_by_id (tn_tenants st)) tid"
    if "NewTenant (TenantID (te_uuid_New env)) (TrimSpace name) (ctx_Now ctx) = Inr t" for t
    using NewTenant_ok [OF that] assms OpCreateTenant
    by (auto simp: CreateIfNameAvailable_def Let_def kv_simps suspended_def)
  then show ?thesis
    using s assms OpCreateTenant by (auto simp: suspended_def)
next
  case (OpDeactivateTenant env ctx tid')
  then show ?thesis
    using assms(1)
    by (auto simp: suspended_def DeactivateTenant_tenants TenantStore_Execute_def kv_simps Tenant_IsActive_def
        Tenant_ApplyDeactivation_def split: option.splits)
next
  case (OpReactivateTenant env ctx tid')
  then show ?thesis
    using assms(1,2)
    by (auto simp: suspended_def ReactivateTenant_tenants TenantStore_Execute_def kv_simps split: option.splits)
qed (use assms(1) in \<open>simp_all add: suspended_def client_calls_tenants\<close>)

lemma suspended_run: "tn_run uni (\<lambda>op. \<not> reactivates tid op) st st' \<Longrightarrow> suspended tid st \<Longrightarrow> suspended tid st'"
  by (induction rule: tn_run.induct) (auto intro: suspended_do)

lemma DeactivateTenant_suspends:
  "DeactivateTenant env ctx tid st = (st', Inr t) \<Longrightarrow> suspended tid st'"
  by (auto simp: DeactivateTenant_def TenantStore_Execute_def suspended_def kv_simps Tenant_IsActive_def
      Tenant_ApplyDeactivation_def split: option.splits prod.splits dest!: tenant_emit_cases)

lemma suspended_no_resolve: "suspended tid st \<Longrightarrow> ResolveClient oid st = Inr (c, t) \<Longrightarrow> Client_TenantID c \<noteq> tid"
  by (auto simp: suspended_def ResolveClient_Inr_iff)

section \<open>Secrets\<close>

text \<open>
  The documented behaviour of bcrypt the service relies on: a hash is not empty, and it matches the
  password it was made from and no other. The key schedule reads at most 72 bytes and repeats the
  password with a zero byte between, so the law is stated for passwords without zero bytes and within
  that length.
\<close>

definition plain_password :: "string \<Rightarrow> bool" where
  "plain_password s \<longleftrightarrow> length s \<le> 72 \<and> CHR 0x00 \<notin> set s"

definition bcrypt_ideal :: "bcrypt \<Rightarrow> bool" where
  "bcrypt_ideal bc \<longleftrightarrow> (\<forall>s h. bcrypt_GenerateFromPassword bc s = Inr h \<longrightarrow>
     h \<noteq> [] \<and> (\<forall>s'. plain_password s' \<longrightarrow> (bcrypt_CompareHashAndPassword bc h s' = None \<longleftrightarrow> s' = s)))"

text \<open>The calls that can return a new secret, with their results.\<close>

fun issued :: "tn_op \<Rightarrow> tenant_state \<Rightarrow> (Client \<times> string) option" where
  "issued (OpCreateClient env ctx cmd) st = (case snd (CreateClient env ctx cmd st) of Inr r \<Rightarrow> Some r | Inl _ \<Rightarrow> None)"
| "issued (OpUpdateClient env ctx cid cmd) st = (case snd (UpdateClient env ctx cid cmd st) of Inr r \<Rightarrow> Some r | Inl _ \<Rightarrow> None)"
| "issued (OpUpdateClientForTenant env ctx tid cid cmd) st =
     (case snd (UpdateClientForTenant env ctx tid cid cmd st) of Inr r \<Rightarrow> Some r | Inl _ \<Rightarrow> None)"
| "issued (OpRotateClientSecret env ctx cid) st = (case snd (RotateClientSecret env ctx cid st) of Inr r \<Rightarrow> Some r | Inl _ \<Rightarrow> None)"
| "issued (OpRotateClientSecretForTenant env ctx tid cid) st =
     (case snd (RotateClientSecretForTenant env ctx tid cid st) of Inr r \<Rightarrow> Some r | Inl _ \<Rightarrow> None)"
| "issued _ st = None"

fun op_env :: "tn_op \<Rightarrow> tenant_env" where
  "op_env (OpCreateTenant env _ _) = env"
| "op_env (OpDeactivateTenant env _ _) = env"
| "op_env (OpReactivateTenant env _ _) = env"
| "op_env (OpCreateClient env _ _) = env"
| "op_env (OpUpdateClient env _ _ _) = env"
| "op_env (OpUpdateClientForTenant env _ _ _ _) = env"
| "op_env (OpDeactivateClient env _ _) = env"
| "op_env (OpReactivateClient env _ _) = env"
| "op_env (OpRotateClientSecret env _ _) = env"
| "op_env (OpRotateClientSecretForTenant env _ _ _) = env"

text \<open>The calls that can replace the secret of a client.\<close>

fun rotates :: "ClientID \<Rightarrow> tn_op \<Rightarrow> bool" where
  "rotates cid (OpUpdateClient _ _ cid' cmd) \<longleftrightarrow> cid' = cid \<and> uc_RotateSecret cmd"
| "rotates cid (OpUpdateClientForTenant _ _ _ cid' cmd) \<longleftrightarrow> cid' = cid \<and> uc_RotateSecret cmd"
| "rotates cid (OpRotateClientSecret _ _ cid') \<longleftrightarrow> cid' = cid"
| "rotates cid (OpRotateClientSecretForTenant _ _ _ cid') \<longleftrightarrow> cid' = cid"
| "rotates cid _ \<longleftrightarrow> False"

text \<open>The client with an identifier has a public identifier and a hash.\<close>

definition has_hash :: "tenant_state \<Rightarrow> ClientID \<Rightarrow> string \<Rightarrow> string \<Rightarrow> bool" where
  "has_hash st cid code h \<longleftrightarrow>
     (\<exists>c. kv_get (clients_by_id (tn_clients st)) cid = Some c \<and> Client_OAuthClientID c = code \<and> Client_ClientSecretHash c = h)"

lemma generateSecret_Inr:
  "generateSecret env p = Inr (secret, hash) \<Longrightarrow> secret \<noteq> [] \<Longrightarrow>
   bcrypt_GenerateFromPassword (te_bcrypt env) secret = Inr hash"
  by (auto simp: generateSecret_def Secrets_Hash_def split: if_splits sum.splits)

lemma with_secret_Inr: "with_secret s r = (st', Inr (c, s')) \<longleftrightarrow> r = (st', Inr c) \<and> s' = s"
  by (auto simp: with_secret_def split: prod.splits sum.splits)

lemma change_client_Inr:
  assumes "change_client env ctx cid v m action ev st = (st', Inr c')" "clients_ok (tn_clients st)"
  shows "\<exists>c. kv_get (clients_by_id (tn_clients st)) cid = Some c \<and> v c = None \<and> c' = m c \<and> Client_ID c = cid \<and>
     kv_get (clients_by_id (tn_clients st')) cid = Some (m c)"
proof -
  have "fst (change_client env ctx cid v m action ev st) = st'" using assms(1) by simp
  then have s: "tn_clients st' = fst (ClientStore_Execute (tn_clients st) cid v m)"
    using change_client_stores(2) [of env ctx cid v m action ev st] by simp
  obtain c where c: "kv_get (clients_by_id (tn_clients st)) cid = Some c" "v c = None"
    using assms(1) by (auto simp: change_client_def ClientStore_Execute_def split: option.splits)
  have "c' = m c"
    using assms(1) c by (auto simp: change_client_def ClientStore_Execute_def Let_def split: option.splits prod.splits)
  then show ?thesis
    using c s clients_okD(1) [OF assms(2) c(1)] by (auto simp: ClientStore_Execute_def Let_def kv_simps)
qed

lemma rotate_issued:
  assumes "change_client env ctx cid v (rotate_mutate hash now) action ev st = (st', Inr c)" "clients_ok (tn_clients st)"
  shows "has_hash st' (Client_ID c) (Client_OAuthClientID c) hash \<and> Client_ID c = cid"
  using change_client_Inr [OF assms] by (auto simp: has_hash_def rotate_mutate_def)

lemma update_issued:
  assumes "change_client env ctx cid v (update_mutate cmd hash now) action ev st = (st', Inr c)" "clients_ok (tn_clients st)"
    and "uc_RotateSecret cmd"
  shows "has_hash st' (Client_ID c) (Client_OAuthClientID c) hash \<and> Client_ID c = cid"
  using change_client_Inr [OF assms(1,2)] assms(3) by (auto simp: has_hash_def update_mutate_def applyFieldUpdates_def)

lemma CreateClient_Inr:
  assumes "CreateClient env ctx cmd st = (st', Inr (c, secret))"
  shows "\<exists>hash. generateSecret env (cc_Public cmd) = Inr (secret, hash) \<and>
     has_hash st' (Client_ID c) (Client_OAuthClientID c) hash"
  using assms
  by (auto simp: CreateClient_def run_in_tx_def ClientStore_Create_def has_hash_def kv_simps
      split: option.splits sum.splits prod.splits if_splits dest!: tenant_emit_cases NewClient_fields)

lemma issued_stores:
  assumes "issued op st = Some (c, secret)" "secret \<noteq> []" "clients_ok (tn_clients st)"
  shows "\<exists>hash. bcrypt_GenerateFromPassword (te_bcrypt (op_env op)) secret = Inr hash \<and>
     has_hash (tn_do op st) (Client_ID c) (Client_OAuthClientID c) hash"
proof (cases op)
  case (OpCreateClient env ctx cmd)
  with assms(1) obtain st' where "CreateClient env ctx cmd st = (st', Inr (c, secret))"
    by (cases "CreateClient env ctx cmd st") (auto split: sum.splits)
  then show ?thesis
    using CreateClient_Inr OpCreateClient generateSecret_Inr assms(2) by fastforce
next
  case (OpUpdateClient env ctx cid cmd)
  with assms(1) obtain st' where "UpdateClient env ctx cid cmd st = (st', Inr (c, secret))"
    by (cases "UpdateClient env ctx cid cmd st") (auto split: sum.splits)
  then show ?thesis
    using OpUpdateClient assms(2,3) update_issued generateSecret_Inr
    by (fastforce simp: UpdateClient_def with_secret_Inr split: option.splits sum.splits prod.splits if_splits)
next
  case (OpUpdateClientForTenant env ctx tid cid cmd)
  with assms(1) obtain st' where "UpdateClientForTenant env ctx tid cid cmd st = (st', Inr (c, secret))"
    by (cases "UpdateClientForTenant env ctx tid cid cmd st") (auto split: sum.splits)
  then show ?thesis
    using OpUpdateClientForTenant assms(2,3) update_issued generateSecret_Inr
    by (fastforce simp: UpdateClientForTenant_def with_secret_Inr split: option.splits sum.splits prod.splits if_splits)
next
  case (OpRotateClientSecret env ctx cid)
  with assms(1) obtain st' where "RotateClientSecret env ctx cid st = (st', Inr (c, secret))"
    by (cases "RotateClientSecret env ctx cid st") (auto split: sum.splits)
  then show ?thesis
    using OpRotateClientSecret assms(2,3) rotate_issued generateSecret_Inr
    by (fastforce simp: RotateClientSecret_def with_secret_Inr split: option.splits sum.splits prod.splits)
next
  case (OpRotateClientSecretForTenant env ctx tid cid)
  with assms(1) obtain st' where "RotateClientSecretForTenant env ctx tid cid st = (st', Inr (c, secret))"
    by (cases "RotateClientSecretForTenant env ctx tid cid st") (auto split: sum.splits)
  then show ?thesis
    using OpRotateClientSecretForTenant assms(2,3) rotate_issued generateSecret_Inr
    by (fastforce simp: RotateClientSecretForTenant_def with_secret_Inr split: option.splits sum.splits prod.splits)
qed (use assms(1) in simp_all)

lemma has_hash_execute:
  assumes "has_hash st cid code h" "tn_clients st' = fst (ClientStore_Execute (tn_clients st) cid' v m)"
    and "\<And>c. v c = None \<Longrightarrow> Client_OAuthClientID (m c) = Client_OAuthClientID c"
    and "cid' = cid \<Longrightarrow> \<forall>c. Client_ClientSecretHash (m c) = Client_ClientSecretHash c"
  shows "has_hash st' cid code h"
  using assms by (auto simp: has_hash_def ClientStore_Execute_def Let_def kv_simps split: option.splits)

lemma has_hash_change_client:
  assumes "has_hash st cid code h"
    and "\<And>c. v c = None \<Longrightarrow> Client_OAuthClientID (m c) = Client_OAuthClientID c"
    and "cid' = cid \<Longrightarrow> \<forall>c. Client_ClientSecretHash (m c) = Client_ClientSecretHash c"
  shows "has_hash (fst (change_client env ctx cid' v m action ev st)) cid code h"
  using assms(2,3) by (intro has_hash_execute [OF assms(1) change_client_stores(2)]) auto

lemma has_hash_CreateClient:
  assumes "has_hash st cid code h" "kv_get (clients_by_id (tn_clients st)) (ClientID (te_uuid_New env)) = None"
  shows "has_hash (fst (CreateClient env ctx cmd st)) cid code h"
  using CreateClient_stores [of env ctx cmd st] assms
  by (auto simp: has_hash_def ClientStore_Create_def kv_simps dest!: NewClient_fields)

lemma mutations_keep_code [simp]:
  "Client_OAuthClientID (update_mutate cmd hash now c) = Client_OAuthClientID c"
  "Client_OAuthClientID (rotate_mutate hash now c) = Client_OAuthClientID c"
  "Client_OAuthClientID (Client_ApplyDeactivation now c) = Client_OAuthClientID c"
  "Client_OAuthClientID (Client_ApplyReactivation now c) = Client_OAuthClientID c"
  by (simp_all add: update_mutate_def applyFieldUpdates_def rotate_mutate_def Client_ApplyDeactivation_def Client_ApplyReactivation_def)

lemma mutations_keep_hash [simp]:
  "\<not> uc_RotateSecret cmd \<Longrightarrow> Client_ClientSecretHash (update_mutate cmd hash now c) = Client_ClientSecretHash c"
  "Client_ClientSecretHash (Client_ApplyDeactivation now c) = Client_ClientSecretHash c"
  "Client_ClientSecretHash (Client_ApplyReactivation now c) = Client_ClientSecretHash c"
  by (simp_all add: update_mutate_def applyFieldUpdates_def Client_ApplyDeactivation_def Client_ApplyReactivation_def)

lemma has_hash_cong: "tn_clients st' = tn_clients st \<Longrightarrow> has_hash st' cid code h = has_hash st cid code h"
  by (simp add: has_hash_def)

lemma has_hash_do:
  assumes "has_hash st cid code h" "\<not> rotates cid op" "tn_draws uni st op"
  shows "has_hash (tn_do op st) cid code h"
proof (cases op)
  case (OpCreateTenant env ctx name)
  then show ?thesis using CreateTenant_stores [of env ctx name st] assms(1) by (simp add: has_hash_def)
next
  case (OpCreateClient env ctx cmd)
  then show ?thesis using has_hash_CreateClient assms by simp
qed (use assms in \<open>auto simp: UpdateClient_def UpdateClientForTenant_def DeactivateClient_def ReactivateClient_def
        RotateClientSecret_def RotateClientSecretForTenant_def has_hash_cong [OF tenant_execute_stores(1)]
        has_hash_cong [OF tenant_execute_stores(2)] intro!: has_hash_change_client
        split: option.splits sum.splits prod.splits\<close>)

lemma has_hash_run: "tn_run uni (\<lambda>op. \<not> rotates cid op) st st' \<Longrightarrow> has_hash st cid code h \<Longrightarrow> has_hash st' cid code h"
  by (induction rule: tn_run.induct) (auto intro: has_hash_do)

lemma verify_hash:
  assumes "has_hash st cid code h" "h \<noteq> []"
  shows "\<not> ClientID_IsNil cid \<Longrightarrow> VerifyClientSecret env cid s st = None \<longleftrightarrow> bcrypt_CompareHashAndPassword (te_bcrypt env) h s = None"
    and "clients_ok (tn_clients st) \<Longrightarrow> TrimSpace code = code \<Longrightarrow> code \<noteq> [] \<Longrightarrow>
      VerifyClientSecretByOAuthID env code s st = None \<longleftrightarrow> bcrypt_CompareHashAndPassword (te_bcrypt env) h s = None"
  using assms
  by (auto simp: has_hash_def VerifyClientSecret_def VerifyClientSecretByOAuthID_def Let_def requireClientID_def
      ClientStore_FindByID_def FindByOAuthClientID_def IsConfidential_def Secrets_Verify_def
      dest: clients_okD(1) split: option.splits)

section \<open>An example registry\<close>

definition ex_bcrypt :: bcrypt where
  "ex_bcrypt = \<lparr> bcrypt_GenerateFromPassword = (\<lambda>s. if length s > 72 then Inl (Errorf ''too long'') else Inr (''h'' @ s)),
     bcrypt_CompareHashAndPassword = (\<lambda>h s. if h = ''h'' @ s then None else Some (Errorf ''mismatch'')),
     bcrypt_ErrPasswordTooLong = Errorf ''too long'', bcrypt_ErrMismatchedHashAndPassword = Errorf ''mismatch'' \<rparr>"

definition ex_tenv :: "uuid \<Rightarrow> string \<Rightarrow> tenant_env" where
  "ex_tenv u code = \<lparr> te_uni = (\<lambda>s. s), te_url_Parse = (\<lambda>s. Some (''https'', s)), te_rand_Read = Inr (replicate 32 (ucast u)),
     te_bcrypt = ex_bcrypt, te_uuid_New = u, te_uuid_NewString = code, te_publisher = True, te_userCounter = None \<rparr>"

definition ex_cmd :: CreateClientCommand where
  "ex_cmd = \<lparr> cc_TenantID = TenantID 1, cc_Name = ''app'', cc_RedirectURIs = [''host''],
     cc_AllowedGrants = [GrantTypeAuthorizationCode, GrantTypeClientCredentials], cc_AllowedScopes = [''openid''], cc_Public = False \<rparr>"

definition ex_tenant_op :: tn_op where "ex_tenant_op = OpCreateTenant (ex_tenv 1 []) (ctx_at 5) ''Acme''"
definition ex_client_op :: tn_op where "ex_client_op = OpCreateClient (ex_tenv 2 ''app-1'') (ctx_at 6) ex_cmd"
definition ex_reg1 :: tenant_state where "ex_reg1 = tn_do ex_tenant_op tenant_init"
definition ex_reg2 :: tenant_state where "ex_reg2 = tn_do ex_client_op ex_reg1"

lemma ex_bcrypt_ideal: "bcrypt_ideal ex_bcrypt"
  by (auto simp: bcrypt_ideal_def ex_bcrypt_def split: if_splits)

lemma ex_hashes_ok: "hashes_ok (ex_tenv u code)"
  by (simp add: hashes_ok_def ex_tenv_def ex_bcrypt_def)

lemma ex_reg1_tenants: "kv_get (tenants_by_id (tn_tenants ex_reg1)) (TenantID 1) \<noteq> None \<and> tn_clients ex_reg1 = ClientStore_New"
  by code_simp

lemma ex_draws: "tn_draws (\<lambda>s. s) tenant_init ex_tenant_op" "tn_draws (\<lambda>s. s) ex_reg1 ex_client_op"
  using ex_reg1_tenants ex_hashes_ok [of 2 "''app-1''"]
  by (simp_all add: ex_tenant_op_def ex_client_op_def ex_tenv_def tenant_init_def TenantStore_New_def ClientStore_New_def)

lemma ex_run: "tn_run (\<lambda>s. s) (\<lambda>_. True) tenant_init ex_reg1" "tn_run (\<lambda>s. s) (\<lambda>_. True) tenant_init ex_reg2"
proof -
  show 1: "tn_run (\<lambda>s. s) (\<lambda>_. True) tenant_init ex_reg1"
    unfolding ex_reg1_def by (rule tn_step [OF tn_refl]) (simp_all add: ex_draws)
  show "tn_run (\<lambda>s. s) (\<lambda>_. True) tenant_init ex_reg2"
    unfolding ex_reg2_def by (rule tn_step [OF 1]) (simp_all add: ex_draws)
qed

section \<open>Properties\<close>

text \<open>\<^bold>\<open>C36\<close> The registry of tenants and clients. After any sequence of calls from the empty
  stores, in which new identifiers are new and bcrypt hashes are not empty: every tenant and client
  is under its own identifier and satisfies the invariants its type documents (a public client never
  holds the client credentials grant); the name index holds exactly the lower-cased names, so names
  are unique whatever their case; the index by public identifier and the map by identifier hold the
  same clients; the counter of each tenant is the number of its clients; and every client belongs to
  a tenant that exists.\<close>

theorem tenant_registry_invariant:
  assumes "tn_run uni (\<lambda>_. True) tenant_init st"
  shows "registry_ok uni st"
  using assms registry_ok_init by (rule registry_ok_run)

theorem tenant_registry_invariant_witness:
  "registry_ok (\<lambda>s. s) ex_reg2 \<and> CountByTenant (tn_clients ex_reg2) (TenantID 1) = 1"
proof
  show "registry_ok (\<lambda>s. s) ex_reg2" by (rule tenant_registry_invariant [OF ex_run(2)])
  show "CountByTenant (tn_clients ex_reg2) (TenantID 1) = 1" by code_simp
qed

text \<open>\<^bold>\<open>C37\<close> A client authenticates with its latest secret. When a call returns a secret for a
  client (registration, rotation, an update that rotates, each with or without tenant scope), then in
  every later state, until the secret of that client is replaced again, verification by identifier and by
  public identifier accept exactly this secret: no other password without zero bytes and within 72
  bytes, in particular no earlier secret. bcrypt appears through its documented behaviour.\<close>

theorem latest_secret_verifies:
  assumes "tn_run uni (\<lambda>_. True) tenant_init st" "tn_draws uni st op"
    and "issued op st = Some (c, secret)" "secret \<noteq> []"
    and "bcrypt_ideal (te_bcrypt (op_env op))" "te_bcrypt env = te_bcrypt (op_env op)"
    and "tn_run uni (\<lambda>op. \<not> rotates (Client_ID c) op) (tn_do op st) st'"
    and "plain_password s" "\<not> ClientID_IsNil (Client_ID c)"
    and "TrimSpace (Client_OAuthClientID c) = Client_OAuthClientID c"
  shows "(VerifyClientSecret env (Client_ID c) s st' = None \<longleftrightarrow> s = secret) \<and>
         (VerifyClientSecretByOAuthID env (Client_OAuthClientID c) s st' = None \<longleftrightarrow> s = secret)"
proof -
  have ok: "registry_ok uni st" using assms(1) registry_ok_init by (rule registry_ok_run)
  have ok': "registry_ok uni st'" by (rule registry_ok_run [OF assms(7) registry_ok_do [OF ok assms(2)]])
  then have cl: "clients_ok (tn_clients st')" by (simp add: registry_ok_def)
  obtain h where h: "bcrypt_GenerateFromPassword (te_bcrypt (op_env op)) secret = Inr h"
      "has_hash (tn_do op st) (Client_ID c) (Client_OAuthClientID c) h"
    using issued_stores [OF assms(3,4)] ok by (auto simp: registry_ok_def)
  have h': "has_hash st' (Client_ID c) (Client_OAuthClientID c) h" by (rule has_hash_run [OF assms(7) h(2)])
  have i: "h \<noteq> []" "bcrypt_CompareHashAndPassword (te_bcrypt env) h s = None \<longleftrightarrow> s = secret"
    using assms(5,6,8) h(1) by (auto simp: bcrypt_ideal_def)
  have code: "Client_OAuthClientID c \<noteq> []"
    using h' clients_okD(1) [OF cl] by (auto simp: has_hash_def client_ok_def)
  show ?thesis
    using verify_hash(1) [OF h' i(1) assms(9), of env s] verify_hash(2) [OF h' i(1) cl assms(10) code, of env s] i(2) by simp
qed

theorem latest_secret_verifies_witness:
  "VerifyClientSecret (ex_tenv 0 []) (ClientID 2) ''wrong'' ex_reg2 \<noteq> None \<and>
   VerifyClientSecretByOAuthID (ex_tenv 0 []) ''app-1'' (RawURLEncoding_EncodeToString (replicate 32 2)) ex_reg2 = None"
proof -
  obtain c where i: "issued ex_client_op ex_reg1 = Some (c, RawURLEncoding_EncodeToString (replicate 32 2))"
    and c: "Client_ID c = ClientID 2" "Client_OAuthClientID c = ''app-1''"
  proof -
    have "map_option (\<lambda>(c, s). (Client_ID c, Client_OAuthClientID c, s)) (issued ex_client_op ex_reg1) =
        Some (ClientID 2, ''app-1'', RawURLEncoding_EncodeToString (replicate 32 2))" by code_simp
    then show thesis using that by auto
  qed
  have s: "RawURLEncoding_EncodeToString (replicate 32 (2 :: 8 word)) \<noteq> []"
    "plain_password (RawURLEncoding_EncodeToString (replicate 32 2))" "TrimSpace ''app-1'' = ''app-1''" by code_simp+
  have e: "te_bcrypt (ex_tenv 0 []) = te_bcrypt (op_env ex_client_op)" "te_bcrypt (op_env ex_client_op) = ex_bcrypt"
    by (simp_all add: ex_client_op_def ex_tenv_def)
  have r: "tn_run (\<lambda>s. s) (\<lambda>op. \<not> rotates (Client_ID c) op) (tn_do ex_client_op ex_reg1) ex_reg2"
    unfolding ex_reg2_def by (rule tn_refl)
  note l = latest_secret_verifies [OF ex_run(1) ex_draws(2) i s(1) _ e(1) r]
  have "plain_password ''wrong''" "''wrong'' \<noteq> RawURLEncoding_EncodeToString (replicate 32 (2 :: 8 word))" by code_simp+
  then show ?thesis
    using l [of "''wrong''"] l [OF _ s(2)] c s(3) e(2) ex_bcrypt_ideal by simp
qed

end
