(* ===== verification/Circuit.thy ===== *)
theory Circuit
  imports Domain
begin

text \<open>
  The two circuit breakers: \<^verbatim>\<open>pkg/platform/circuit\<close> and the copy in the rate-limit
  middleware (\<^verbatim>\<open>internal/ratelimit/middleware/circuitbreaker.go\<close>). Both are shown to be
  open exactly when a history of outcomes says so, through one interface.
\<close>

section \<open>The platform breaker\<close>

datatype State = StateClosed | StateOpen

record StateChange =
  Opened :: bool
  Closed :: bool

abbreviation no_change :: StateChange where "no_change \<equiv> \<lparr> Opened = False, Closed = False \<rparr>"

record Breaker =
  br_state :: State
  br_name :: string
  br_failureCount :: int
  br_successCount :: int
  br_failureThreshold :: int
  br_successThreshold :: int

datatype BreakerOption = WithFailureThreshold int | WithSuccessThreshold int

fun apply_breaker_option :: "BreakerOption option \<Rightarrow> Breaker \<Rightarrow> Breaker" where
  "apply_breaker_option None b = b"
| "apply_breaker_option (Some (WithFailureThreshold n)) b = (if n > 0 then b\<lparr> br_failureThreshold := n \<rparr> else b)"
| "apply_breaker_option (Some (WithSuccessThreshold n)) b = (if n > 0 then b\<lparr> br_successThreshold := n \<rparr> else b)"

definition Breaker_New :: "string \<Rightarrow> BreakerOption option list \<Rightarrow> Breaker" where
  "Breaker_New name opts =
     fold apply_breaker_option opts
       \<lparr> br_state = StateClosed, br_name = name, br_failureCount = 0, br_successCount = 0,
         br_failureThreshold = 5, br_successThreshold = 3 \<rparr>"

definition Breaker_IsOpen :: "Breaker \<Rightarrow> bool" where
  "Breaker_IsOpen b = (br_state b = StateOpen)"

definition Breaker_RecordFailure :: "Breaker \<Rightarrow> Breaker \<times> bool \<times> StateChange" where
  "Breaker_RecordFailure b =
     (let b = b\<lparr> br_failureCount := br_failureCount b + 1, br_successCount := 0 \<rparr>
      in if br_state b = StateOpen then (b, True, no_change)
         else if br_failureCount b \<ge> br_failureThreshold b
         then (b\<lparr> br_state := StateOpen \<rparr>, True, no_change\<lparr> Opened := True \<rparr>)
         else (b, False, no_change))"

definition Breaker_RecordSuccess :: "Breaker \<Rightarrow> Breaker \<times> bool \<times> StateChange" where
  "Breaker_RecordSuccess b =
     (if br_state b = StateOpen
      then let b = b\<lparr> br_successCount := br_successCount b + 1 \<rparr>
           in if br_successCount b \<ge> br_successThreshold b
              then (b\<lparr> br_state := StateClosed, br_failureCount := 0, br_successCount := 0 \<rparr>, True,
                    no_change\<lparr> Closed := True \<rparr>)
              else (b, False, no_change)
      else (b\<lparr> br_failureCount := 0 \<rparr>, True, no_change))"

definition Breaker_Reset :: "Breaker \<Rightarrow> Breaker" where
  "Breaker_Reset b = b\<lparr> br_state := StateClosed, br_failureCount := 0, br_successCount := 0 \<rparr>"

section \<open>The breaker of the middleware\<close>

datatype circuitState = circuitClosed | circuitOpen

record CircuitBreaker =
  cb_name :: string
  cb_state :: circuitState
  cb_failureCount :: int
  cb_successCount :: int
  cb_failureThreshold :: int
  cb_successThreshold :: int

definition newCircuitBreaker :: "string \<Rightarrow> CircuitBreaker" where
  "newCircuitBreaker name =
     \<lparr> cb_name = name, cb_state = circuitClosed, cb_failureCount = 0, cb_successCount = 0,
       cb_failureThreshold = 5, cb_successThreshold = 3 \<rparr>"

definition CircuitBreaker_IsOpen :: "CircuitBreaker \<Rightarrow> bool" where
  "CircuitBreaker_IsOpen c = (cb_state c = circuitOpen)"

definition CircuitBreaker_RecordFailure :: "CircuitBreaker \<Rightarrow> CircuitBreaker \<times> bool \<times> StateChange" where
  "CircuitBreaker_RecordFailure c =
     (let c = c\<lparr> cb_failureCount := cb_failureCount c + 1, cb_successCount := 0 \<rparr>
      in if cb_state c = circuitOpen then (c, True, no_change)
         else if cb_failureCount c \<ge> cb_failureThreshold c
         then (c\<lparr> cb_state := circuitOpen \<rparr>, True, no_change\<lparr> Opened := True \<rparr>)
         else (c, False, no_change))"

definition CircuitBreaker_RecordSuccess :: "CircuitBreaker \<Rightarrow> CircuitBreaker \<times> bool \<times> StateChange" where
  "CircuitBreaker_RecordSuccess c =
     (if cb_state c = circuitOpen
      then let c = c\<lparr> cb_successCount := cb_successCount c + 1 \<rparr>
           in if cb_successCount c \<ge> cb_successThreshold c
              then (c\<lparr> cb_state := circuitClosed, cb_failureCount := 0, cb_successCount := 0 \<rparr>, True,
                    no_change\<lparr> Closed := True \<rparr>)
              else (c, False, no_change)
      else (c\<lparr> cb_failureCount := 0 \<rparr>, True, no_change))"

definition ShouldUsePrimary :: "CircuitBreaker \<Rightarrow> bool" where
  "ShouldUsePrimary c = (cb_state c = circuitClosed)"

section \<open>What a breaker promises\<close>

text \<open>
  The state is a function of the outcomes so far, newest first (\<open>True\<close> a success): a closed circuit
  opens when the last \<open>F\<close> outcomes were failures, an open one closes when the last \<open>S\<close> were
  successes.
\<close>

abbreviation success_run :: "bool list \<Rightarrow> int" where
  "success_run h \<equiv> int (length (takeWhile (\<lambda>ok. ok) h))"

abbreviation failure_run :: "bool list \<Rightarrow> int" where
  "failure_run h \<equiv> int (length (takeWhile Not h))"

fun open_spec :: "int \<Rightarrow> int \<Rightarrow> bool list \<Rightarrow> bool" where
  "open_spec F S [] = False"
| "open_spec F S (ok # h) =
     (if open_spec F S h then success_run (ok # h) < S else failure_run (ok # h) \<ge> F)"

locale two_state_breaker =
  fixes is_open :: "'b \<Rightarrow> bool"
    and record_failure :: "'b \<Rightarrow> 'b \<times> bool \<times> StateChange"
    and record_success :: "'b \<Rightarrow> 'b \<times> bool \<times> StateChange"
    and failures :: "'b \<Rightarrow> int"
    and successes :: "'b \<Rightarrow> int"
    and thresholds :: "'b \<Rightarrow> int \<times> int"
  assumes failure_law: "record_failure b = (b', fallback, change) \<Longrightarrow>
      failures b' = failures b + 1 \<and> successes b' = 0 \<and> thresholds b' = thresholds b \<and>
      (is_open b' \<longleftrightarrow> is_open b \<or> failures b + 1 \<ge> fst (thresholds b)) \<and> fallback = is_open b' \<and>
      Opened change = (is_open b' \<and> \<not> is_open b) \<and> \<not> Closed change"
    and success_law: "record_success b = (b', primary, change) \<Longrightarrow>
      thresholds b' = thresholds b \<and> primary = (\<not> is_open b') \<and> \<not> Opened change \<and>
      Closed change = (is_open b \<and> \<not> is_open b') \<and>
      (is_open b' \<longleftrightarrow> is_open b \<and> successes b + 1 < snd (thresholds b)) \<and>
      (if is_open b' then failures b' = failures b \<and> successes b' = successes b + 1
       else failures b' = 0 \<and> (is_open b \<longrightarrow> successes b' = 0) \<and> (\<not> is_open b \<longrightarrow> successes b' = successes b))"
begin

definition outcome :: "bool \<Rightarrow> 'b \<Rightarrow> 'b" where
  "outcome ok b = fst (if ok then record_success b else record_failure b)"

definition follows :: "'b \<Rightarrow> bool list \<Rightarrow> bool" where
  "follows b h \<longleftrightarrow> (is_open b \<longleftrightarrow> open_spec (fst (thresholds b)) (snd (thresholds b)) h) \<and>
     (if is_open b then successes b = success_run h else failures b = failure_run h \<and> successes b = 0)"

lemma outcome_follows:
  assumes "follows b h" "0 < fst (thresholds b)" "0 < snd (thresholds b)"
  shows "follows (outcome ok b) (ok # h)" "thresholds (outcome ok b) = thresholds b"
proof -
  have "follows (outcome ok b) (ok # h) \<and> thresholds (outcome ok b) = thresholds b"
  proof (cases ok)
    case True
    obtain b' p c where s: "record_success b = (b', p, c)" by (metis surj_pair)
    show ?thesis using success_law [OF s] assms True
      by (cases "is_open b"; cases "is_open b'") (auto simp: follows_def outcome_def s)
  next
    case False
    obtain b' p c where f: "record_failure b = (b', p, c)" by (metis surj_pair)
    show ?thesis using failure_law [OF f] assms False
      by (cases "is_open b"; cases "is_open b'") (auto simp: follows_def outcome_def f)
  qed
  then show "follows (outcome ok b) (ok # h)" "thresholds (outcome ok b) = thresholds b" by blast+
qed

lemma history:
  assumes "\<not> is_open b" "failures b = 0" "successes b = 0" "0 < fst (thresholds b)" "0 < snd (thresholds b)"
  shows "is_open (fold outcome os b) \<longleftrightarrow> open_spec (fst (thresholds b)) (snd (thresholds b)) (rev os)"
proof -
  have "follows (fold outcome os b) (rev os) \<and> thresholds (fold outcome os b) = thresholds b"
  proof (induction os rule: rev_induct)
    case Nil
    show ?case using assms by (simp add: follows_def)
  next
    case (snoc ok os)
    then show ?case using outcome_follows [of "fold outcome os b" "rev os" ok] assms(4,5) by simp
  qed
  then show ?thesis by (simp add: follows_def)
qed

end

interpretation platform: two_state_breaker Breaker_IsOpen Breaker_RecordFailure Breaker_RecordSuccess
    br_failureCount br_successCount "\<lambda>b. (br_failureThreshold b, br_successThreshold b)"
  by unfold_locales
    (auto simp: Breaker_IsOpen_def Breaker_RecordFailure_def Breaker_RecordSuccess_def Let_def split: if_splits)

interpretation middleware: two_state_breaker CircuitBreaker_IsOpen CircuitBreaker_RecordFailure CircuitBreaker_RecordSuccess
    cb_failureCount cb_successCount "\<lambda>c. (cb_failureThreshold c, cb_successThreshold c)"
  by unfold_locales
    (auto simp: CircuitBreaker_IsOpen_def CircuitBreaker_RecordFailure_def CircuitBreaker_RecordSuccess_def Let_def
      split: if_splits)

section \<open>The two breakers\<close>

definition breaker_after :: "bool list \<Rightarrow> Breaker \<Rightarrow> Breaker" where
  "breaker_after outcomes b =
     fold (\<lambda>ok b. fst (if ok then Breaker_RecordSuccess b else Breaker_RecordFailure b)) outcomes b"

definition circuit_after :: "bool list \<Rightarrow> CircuitBreaker \<Rightarrow> CircuitBreaker" where
  "circuit_after outcomes c =
     fold (\<lambda>ok c. fst (if ok then CircuitBreaker_RecordSuccess c else CircuitBreaker_RecordFailure c)) outcomes c"

lemma after_eq:
  "breaker_after outcomes b = fold platform.outcome outcomes b"
  "circuit_after outcomes c = fold middleware.outcome outcomes c"
proof -
  have "platform.outcome = (\<lambda>ok b. fst (if ok then Breaker_RecordSuccess b else Breaker_RecordFailure b))"
    and "middleware.outcome = (\<lambda>ok c. fst (if ok then CircuitBreaker_RecordSuccess c else CircuitBreaker_RecordFailure c))"
    by (simp_all add: fun_eq_iff platform.outcome_def middleware.outcome_def)
  then show "breaker_after outcomes b = fold platform.outcome outcomes b"
    and "circuit_after outcomes c = fold middleware.outcome outcomes c"
    by (simp_all add: breaker_after_def circuit_after_def)
qed

lemma Breaker_New_closed:
  "br_state (Breaker_New name opts) = StateClosed" "br_failureCount (Breaker_New name opts) = 0"
  "br_successCount (Breaker_New name opts) = 0"
  "0 < br_failureThreshold (Breaker_New name opts)" "0 < br_successThreshold (Breaker_New name opts)"
proof -
  have "br_state (fold apply_breaker_option opts b) = br_state b \<and>
      br_failureCount (fold apply_breaker_option opts b) = br_failureCount b \<and>
      br_successCount (fold apply_breaker_option opts b) = br_successCount b \<and>
      0 < br_failureThreshold (fold apply_breaker_option opts b) \<and> 0 < br_successThreshold (fold apply_breaker_option opts b)"
    if "0 < br_failureThreshold b" "0 < br_successThreshold b" for b
    using that
  proof (induction opts arbitrary: b)
    case (Cons opt opts)
    then show ?case by (cases "(opt, b)" rule: apply_breaker_option.cases) auto
  qed simp
  then show "br_state (Breaker_New name opts) = StateClosed" "br_failureCount (Breaker_New name opts) = 0"
    "br_successCount (Breaker_New name opts) = 0"
    "0 < br_failureThreshold (Breaker_New name opts)" "0 < br_successThreshold (Breaker_New name opts)"
    by (simp_all add: Breaker_New_def)
qed

text \<open>
  \<^bold>\<open>C29\<close>: Both circuit breakers are open exactly when their history says so. Whatever the
  outcomes recorded so far, the platform breaker is open if and only if the reference state machine
  over the history is: a closed circuit opens at the configured number of consecutive failures and
  not before, an open one closes at the configured number of consecutive successes and not before.
  The breaker of the rate-limit middleware is the same machine with thresholds five and three, so it
  agrees with a platform breaker of default options on every history.
\<close>

theorem breaker_history:
  "(Breaker_IsOpen (breaker_after outcomes (Breaker_New name opts)) \<longleftrightarrow>
      open_spec (br_failureThreshold (Breaker_New name opts)) (br_successThreshold (Breaker_New name opts)) (rev outcomes)) \<and>
   (CircuitBreaker_IsOpen (circuit_after outcomes (newCircuitBreaker name')) \<longleftrightarrow> open_spec 5 3 (rev outcomes)) \<and>
   (CircuitBreaker_IsOpen (circuit_after outcomes (newCircuitBreaker name')) \<longleftrightarrow>
      Breaker_IsOpen (breaker_after outcomes (Breaker_New name [])))"
proof -
  have p: "Breaker_IsOpen (breaker_after outcomes (Breaker_New name opts)) \<longleftrightarrow>
      open_spec (br_failureThreshold (Breaker_New name opts)) (br_successThreshold (Breaker_New name opts)) (rev outcomes)" for opts
    using platform.history [of "Breaker_New name opts" outcomes]
    by (simp add: after_eq Breaker_New_closed Breaker_IsOpen_def)
  moreover have "CircuitBreaker_IsOpen (circuit_after outcomes (newCircuitBreaker name')) \<longleftrightarrow> open_spec 5 3 (rev outcomes)"
    using middleware.history [of "newCircuitBreaker name'" outcomes]
    by (simp add: after_eq newCircuitBreaker_def CircuitBreaker_IsOpen_def)
  moreover have "br_failureThreshold (Breaker_New name []) = 5" "br_successThreshold (Breaker_New name []) = 3"
    by (simp_all add: Breaker_New_def)
  ultimately show ?thesis by simp
qed

end
