(* ===== verification/Auth_Models.thy ===== *)
theory Auth_Models
  imports Stores
begin

text \<open>
  The authentication domain model, \<^verbatim>\<open>internal/auth/models/models.go\<close> and
  \<^verbatim>\<open>value_objects.go\<close>: users, sessions, authorization codes and refresh tokens with
  their constructors, guards and transitions, the well-formedness invariant of each entity, and the
  life cycle of a session as a step relation.

  A Go method with a pointer receiver becomes a function from the old record to the new one; a
  \<^verbatim>\<open>*time.Time\<close> is an option. The rendering of a time that two constructor messages end
  with is left out of the message.
\<close>

section \<open>Value objects\<close>

datatype SessionStatus =
    SessionStatusPendingConsent | SessionStatusActive | SessionStatusRevoked
  | SessionStatusOther string

fun SessionStatus_String :: "SessionStatus \<Rightarrow> string" where
  "SessionStatus_String SessionStatusPendingConsent = ''pending_consent''"
| "SessionStatus_String SessionStatusActive = ''active''"
| "SessionStatus_String SessionStatusRevoked = ''revoked''"
| "SessionStatus_String (SessionStatusOther s) = s"

definition SessionStatus_IsValid :: "SessionStatus \<Rightarrow> bool" where
  "SessionStatus_IsValid s =
     (s = SessionStatusPendingConsent \<or> s = SessionStatusActive \<or> s = SessionStatusRevoked)"

fun CanTransitionTo :: "SessionStatus \<Rightarrow> SessionStatus \<Rightarrow> bool" where
  "CanTransitionTo SessionStatusPendingConsent target =
     (target = SessionStatusActive \<or> target = SessionStatusRevoked)"
| "CanTransitionTo SessionStatusActive target = (target = SessionStatusRevoked)"
| "CanTransitionTo SessionStatusRevoked target = False"
| "CanTransitionTo (SessionStatusOther s) target = False"

definition ScopeOpenID :: string where "ScopeOpenID = ''openid''"
definition ScopeProfile :: string where "ScopeProfile = ''profile''"
definition ScopeEmail :: string where "ScopeEmail = ''email''"

definition TokenTypeAccess :: string where "TokenTypeAccess = ''access_token''"
definition TokenTypeRefresh :: string where "TokenTypeRefresh = ''refresh_token''"

datatype UserStatus = UserStatusActive | UserStatusInactive | UserStatusOther string

record DeviceBinding =
  DeviceBinding_DeviceID :: string
  DeviceBinding_FingerprintHash :: string
  DeviceBinding_DisplayName :: string
  DeviceBinding_ApproximateLocation :: string

definition DeviceBinding_IsEmpty :: "DeviceBinding \<Rightarrow> bool" where
  "DeviceBinding_IsEmpty d =
     (DeviceBinding_DeviceID d = [] \<and> DeviceBinding_FingerprintHash d = [] \<and>
      DeviceBinding_DisplayName d = [] \<and> DeviceBinding_ApproximateLocation d = [])"

definition HasDeviceID :: "DeviceBinding \<Rightarrow> bool" where
  "HasDeviceID d = (DeviceBinding_DeviceID d \<noteq> [])"

definition HasFingerprint :: "DeviceBinding \<Rightarrow> bool" where
  "HasFingerprint d = (DeviceBinding_FingerprintHash d \<noteq> [])"

definition DisplayNameOrDefault :: "DeviceBinding \<Rightarrow> string" where
  "DisplayNameOrDefault d =
     (if DeviceBinding_DisplayName d = [] then ''Unknown device'' else DeviceBinding_DisplayName d)"

definition NewDeviceBinding :: "string \<Rightarrow> string \<Rightarrow> string \<Rightarrow> string \<Rightarrow> DeviceBinding" where
  "NewDeviceBinding deviceID fingerprintHash displayName location =
     \<lparr> DeviceBinding_DeviceID = TrimSpace deviceID,
       DeviceBinding_FingerprintHash = TrimSpace fingerprintHash,
       DeviceBinding_DisplayName = TrimSpace displayName,
       DeviceBinding_ApproximateLocation = TrimSpace location \<rparr>"

datatype RevocationReason =
    RevocationReasonUserInitiated | RevocationReasonExpired | RevocationReasonUserDeleted
  | RevocationReasonAdminRevoked | RevocationReasonSecurityEvent | RevocationReasonReplayDetected
  | RevocationReasonTokenRotation | RevocationReasonOther string

fun RevocationReason_String :: "RevocationReason \<Rightarrow> string" where
  "RevocationReason_String RevocationReasonUserInitiated = ''user_initiated''"
| "RevocationReason_String RevocationReasonExpired = ''expired''"
| "RevocationReason_String RevocationReasonUserDeleted = ''user_deleted''"
| "RevocationReason_String RevocationReasonAdminRevoked = ''admin_revoked''"
| "RevocationReason_String RevocationReasonSecurityEvent = ''security_event''"
| "RevocationReason_String RevocationReasonReplayDetected = ''replay_detected''"
| "RevocationReason_String RevocationReasonTokenRotation = ''token_rotation''"
| "RevocationReason_String (RevocationReasonOther s) = s"

definition validRevocationReasons :: "RevocationReason list" where
  "validRevocationReasons =
     [RevocationReasonUserInitiated, RevocationReasonExpired, RevocationReasonUserDeleted,
      RevocationReasonAdminRevoked, RevocationReasonSecurityEvent, RevocationReasonReplayDetected,
      RevocationReasonTokenRotation]"

definition RevocationReason_of :: "string \<Rightarrow> RevocationReason" where
  "RevocationReason_of s =
     (case filter (\<lambda>r. RevocationReason_String r = s) validRevocationReasons of
        r # _ \<Rightarrow> r | [] \<Rightarrow> RevocationReasonOther s)"

definition RevocationReason_IsValid :: "RevocationReason \<Rightarrow> bool" where
  "RevocationReason_IsValid r = (r \<in> set validRevocationReasons)"

definition ParseRevocationReason :: "string \<Rightarrow> RevocationReason result" where
  "ParseRevocationReason s =
     (let r = RevocationReason_of s in
      if \<not> RevocationReason_IsValid r then Inl (Errorf (''invalid revocation reason: '' @ s))
      else Inr r)"

section \<open>Users\<close>

record User =
  User_ID :: UserID
  User_TenantID :: TenantID
  User_Email :: string
  User_FirstName :: string
  User_LastName :: string
  User_Verified :: bool
  User_Status :: UserStatus

definition User_IsActive :: "User \<Rightarrow> bool" where
  "User_IsActive u = (User_Status u = UserStatusActive)"

definition NewUser :: "UserID \<Rightarrow> TenantID \<Rightarrow> string \<Rightarrow> string \<Rightarrow> string \<Rightarrow> bool \<Rightarrow> User result" where
  "NewUser uid tenantID email firstName lastName verified =
     (if email = [] then Inl (dErrors_New CodeInvariantViolation ''user email cannot be empty'')
      else Inr \<lparr> User_ID = uid, User_TenantID = tenantID, User_Email = email,
                 User_FirstName = firstName, User_LastName = lastName,
                 User_Verified = verified, User_Status = UserStatusActive \<rparr>)"

section \<open>Sessions\<close>

record Session =
  Session_ID :: SessionID
  Session_UserID :: UserID
  Session_ClientID :: ClientID
  Session_TenantID :: TenantID
  Session_RequestedScope :: "string list"
  Session_Status :: SessionStatus
  Session_LastRefreshedAt :: "time option"
  Session_LastAccessTokenJTI :: string
  Session_DeviceID :: string
  Session_DeviceFingerprintHash :: string
  Session_DeviceDisplayName :: string
  Session_ApproximateLocation :: string
  Session_CreatedAt :: time
  Session_ExpiresAt :: time
  Session_LastSeenAt :: time
  Session_RevokedAt :: "time option"

definition Session_IsActive :: "Session \<Rightarrow> bool" where
  "Session_IsActive s = (Session_Status s = SessionStatusActive)"

definition Session_IsPendingConsent :: "Session \<Rightarrow> bool" where
  "Session_IsPendingConsent s = (Session_Status s = SessionStatusPendingConsent)"

definition Session_IsRevoked :: "Session \<Rightarrow> bool" where
  "Session_IsRevoked s = (Session_Status s = SessionStatusRevoked)"

definition Session_CanActivate :: "Session \<Rightarrow> go_error option" where
  "Session_CanActivate s =
     (if \<not> Session_IsPendingConsent s
      then Some (dErrors_New CodeInvariantViolation ''session is not pending consent'') else None)"

definition Session_ApplyActivation :: "Session \<Rightarrow> Session" where
  "Session_ApplyActivation s = s\<lparr> Session_Status := SessionStatusActive \<rparr>"

definition Session_Activate :: "Session \<Rightarrow> Session \<times> go_error option" where
  "Session_Activate s =
     (case Session_CanActivate s of
        Some e \<Rightarrow> (s, Some e)
      | None \<Rightarrow> (Session_ApplyActivation s, None))"

definition Session_CanAdvance :: "Session \<Rightarrow> bool \<Rightarrow> bool" where
  "Session_CanAdvance s allowPending =
     (if Session_IsActive s then True else allowPending \<and> Session_IsPendingConsent s)"

definition Session_CanRevoke :: "Session \<Rightarrow> go_error option" where
  "Session_CanRevoke s =
     (if Session_IsRevoked s
      then Some (dErrors_New CodeInvariantViolation ''session is already revoked'') else None)"

definition Session_ApplyRevocation :: "time \<Rightarrow> Session \<Rightarrow> Session" where
  "Session_ApplyRevocation t s =
     (let s' = s\<lparr> Session_Status := SessionStatusRevoked \<rparr> in
      if (case Session_RevokedAt s of None \<Rightarrow> True | Some r \<Rightarrow> t > r)
      then s'\<lparr> Session_RevokedAt := Some t \<rparr> else s')"

definition Session_Revoke :: "time \<Rightarrow> Session \<Rightarrow> Session \<times> go_error option" where
  "Session_Revoke t s =
     (case Session_CanRevoke s of
        Some e \<Rightarrow> (s, Some e)
      | None \<Rightarrow> (Session_ApplyRevocation t s, None))"

definition Session_RecordActivity :: "time \<Rightarrow> Session \<Rightarrow> Session" where
  "Session_RecordActivity t s =
     (if t > Session_LastSeenAt s then s\<lparr> Session_LastSeenAt := t \<rparr> else s)"

definition Session_RecordRefresh :: "time \<Rightarrow> Session \<Rightarrow> Session" where
  "Session_RecordRefresh t s =
     Session_RecordActivity t
       (if (case Session_LastRefreshedAt s of None \<Rightarrow> True | Some r \<Rightarrow> t > r)
        then s\<lparr> Session_LastRefreshedAt := Some t \<rparr> else s)"

definition Session_ApplyTokenJTI :: "string \<Rightarrow> Session \<Rightarrow> Session" where
  "Session_ApplyTokenJTI jti s =
     (if jti \<noteq> [] then s\<lparr> Session_LastAccessTokenJTI := jti \<rparr> else s)"

definition Session_ApplyDeviceInfo :: "string \<Rightarrow> string \<Rightarrow> Session \<Rightarrow> Session" where
  "Session_ApplyDeviceInfo deviceID fingerprintHash s =
     (let s = (if deviceID \<noteq> [] then s\<lparr> Session_DeviceID := deviceID \<rparr> else s) in
      if fingerprintHash \<noteq> [] then s\<lparr> Session_DeviceFingerprintHash := fingerprintHash \<rparr> else s)"

definition Session_ValidateForAdvance :: "Session \<Rightarrow> ClientID \<Rightarrow> time \<Rightarrow> bool \<Rightarrow> go_error option" where
  "Session_ValidateForAdvance s clientID t allowPending =
     (if Session_ClientID s \<noteq> clientID
      then Some (dErrors_New CodeUnauthorized ''client_id mismatch'')
      else if Session_IsRevoked s
      then Some (dErrors_New CodeUnauthorized ''session has been revoked'')
      else if \<not> Session_CanAdvance s allowPending
      then Some (dErrors_New CodeUnauthorized ''session in invalid state'')
      else if t > Session_ExpiresAt s
      then Some (dErrors_New CodeUnauthorized ''session expired'')
      else None)"

definition Session_GetDeviceBinding :: "Session \<Rightarrow> DeviceBinding" where
  "Session_GetDeviceBinding s =
     \<lparr> DeviceBinding_DeviceID = Session_DeviceID s,
       DeviceBinding_FingerprintHash = Session_DeviceFingerprintHash s,
       DeviceBinding_DisplayName = Session_DeviceDisplayName s,
       DeviceBinding_ApproximateLocation = Session_ApproximateLocation s \<rparr>"

definition Session_SetDeviceBinding :: "DeviceBinding \<Rightarrow> Session \<Rightarrow> Session" where
  "Session_SetDeviceBinding b s =
     s\<lparr> Session_DeviceID := DeviceBinding_DeviceID b,
        Session_DeviceFingerprintHash := DeviceBinding_FingerprintHash b,
        Session_DeviceDisplayName := DeviceBinding_DisplayName b,
        Session_ApproximateLocation := DeviceBinding_ApproximateLocation b \<rparr>"

definition NewSession ::
  "SessionID \<Rightarrow> UserID \<Rightarrow> ClientID \<Rightarrow> TenantID \<Rightarrow> string list \<Rightarrow> SessionStatus \<Rightarrow> time \<Rightarrow> time \<Rightarrow> time
   \<Rightarrow> Session result" where
  "NewSession sid userID clientID tenantID scopes status createdAt expiresAt lastSeenAt =
     (if length scopes = 0 then Inl (dErrors_New CodeInvariantViolation ''scopes cannot be empty'')
      else if \<not> SessionStatus_IsValid status
      then Inl (dErrors_New CodeInvariantViolation
             (''invalid session status: '' @ SessionStatus_String status))
      else if expiresAt < createdAt
      then Inl (dErrors_New CodeInvariantViolation ''session expiry must be after creation'')
      else Inr \<lparr> Session_ID = sid, Session_UserID = userID, Session_ClientID = clientID,
                 Session_TenantID = tenantID, Session_RequestedScope = scopes,
                 Session_Status = status, Session_LastRefreshedAt = None,
                 Session_LastAccessTokenJTI = [], Session_DeviceID = [],
                 Session_DeviceFingerprintHash = [], Session_DeviceDisplayName = [],
                 Session_ApproximateLocation = [], Session_CreatedAt = createdAt,
                 Session_ExpiresAt = expiresAt, Session_LastSeenAt = lastSeenAt,
                 Session_RevokedAt = None \<rparr>)"

section \<open>Authorization codes\<close>

record AuthorizationCodeRecord =
  Code_ID :: uuid
  Code_Code :: string
  Code_SessionID :: SessionID
  Code_RedirectURI :: string
  Code_ExpiresAt :: time
  Code_Used :: bool
  Code_CreatedAt :: time

definition Code_IsValid :: "AuthorizationCodeRecord \<Rightarrow> time \<Rightarrow> bool" where
  "Code_IsValid a now = (\<not> Code_Used a \<and> Code_ExpiresAt a > now)"

definition Code_IsExpired :: "AuthorizationCodeRecord \<Rightarrow> time \<Rightarrow> bool" where
  "Code_IsExpired a now = (now > Code_ExpiresAt a)"

definition Code_MarkUsed :: "AuthorizationCodeRecord \<Rightarrow> AuthorizationCodeRecord \<times> bool" where
  "Code_MarkUsed a = (if Code_Used a then (a, False) else (a\<lparr> Code_Used := True \<rparr>, True))"

definition Code_ValidateForConsume :: "AuthorizationCodeRecord \<Rightarrow> string \<Rightarrow> time \<Rightarrow> go_error option" where
  "Code_ValidateForConsume a redirectURI now =
     (if Code_RedirectURI a \<noteq> redirectURI
      then Some (dErrors_New CodeBadRequest ''redirect_uri mismatch'')
      else if Code_IsExpired a now
      then Some (dErrors_New CodeUnauthorized ''authorization code expired'')
      else if Code_Used a
      then Some (dErrors_New CodeUnauthorized ''authorization code already used'')
      else None)"

definition authorizationCodePrefix :: string where
  "authorizationCodePrefix = ''authz_''"

definition NewAuthorizationCode ::
  "uuid \<Rightarrow> string \<Rightarrow> SessionID \<Rightarrow> string \<Rightarrow> time \<Rightarrow> time \<Rightarrow> time \<Rightarrow> AuthorizationCodeRecord result" where
  "NewAuthorizationCode rid code sessionID redirectURI createdAt expiresAt now =
     (if code = []
      then Inl (dErrors_New CodeInvariantViolation ''authorization code cannot be empty'')
      else let code = TrimPrefix code authorizationCodePrefix in
      if code = []
      then Inl (dErrors_New CodeInvariantViolation ''authorization code cannot be empty'')
      else if redirectURI = []
      then Inl (dErrors_New CodeInvariantViolation ''redirect URI cannot be empty'')
      else if expiresAt < createdAt
      then Inl (dErrors_New CodeInvariantViolation ''authorization code expiry must be after creation'')
      else if expiresAt < now
      then Inl (dErrors_New CodeInvariantViolation ''authorization code already expired at'')
      else Inr \<lparr> Code_ID = rid, Code_Code = authorizationCodePrefix @ code,
                 Code_SessionID = sessionID, Code_RedirectURI = redirectURI,
                 Code_ExpiresAt = expiresAt, Code_Used = False, Code_CreatedAt = createdAt \<rparr>)"

section \<open>Refresh tokens\<close>

record RefreshTokenRecord =
  Refresh_ID :: uuid
  Refresh_Token :: string
  Refresh_SessionID :: SessionID
  Refresh_ExpiresAt :: time
  Refresh_Used :: bool
  Refresh_LastRefreshedAt :: "time option"
  Refresh_CreatedAt :: time

definition Refresh_IsValid :: "RefreshTokenRecord \<Rightarrow> time \<Rightarrow> bool" where
  "Refresh_IsValid r now = (\<not> Refresh_Used r \<and> Refresh_ExpiresAt r > now)"

definition Refresh_IsExpired :: "RefreshTokenRecord \<Rightarrow> time \<Rightarrow> bool" where
  "Refresh_IsExpired r now = (now > Refresh_ExpiresAt r)"

definition Refresh_MarkUsed :: "time \<Rightarrow> RefreshTokenRecord \<Rightarrow> RefreshTokenRecord \<times> bool" where
  "Refresh_MarkUsed t r =
     (if Refresh_Used r then (r, False)
      else let r' = r\<lparr> Refresh_Used := True \<rparr> in
        (if (case Refresh_LastRefreshedAt r of None \<Rightarrow> True | Some l \<Rightarrow> t > l)
         then r'\<lparr> Refresh_LastRefreshedAt := Some t \<rparr> else r', True))"

definition Refresh_ValidateForConsume :: "RefreshTokenRecord \<Rightarrow> time \<Rightarrow> go_error option" where
  "Refresh_ValidateForConsume r now =
     (if Refresh_IsExpired r now
      then Some (dErrors_New CodeUnauthorized ''refresh token expired'')
      else if Refresh_Used r
      then Some (dErrors_New CodeUnauthorized ''refresh token already used'')
      else None)"

definition NewRefreshToken ::
  "uuid \<Rightarrow> string \<Rightarrow> SessionID \<Rightarrow> time \<Rightarrow> time \<Rightarrow> time \<Rightarrow> RefreshTokenRecord result" where
  "NewRefreshToken rid token sessionID createdAt expiresAt now =
     (if token = []
      then Inl (dErrors_New CodeInvariantViolation ''refresh token cannot be empty'')
      else if expiresAt < createdAt
      then Inl (dErrors_New CodeInvariantViolation ''refresh token expiry must be after creation'')
      else if expiresAt < now
      then Inl (dErrors_New CodeInvariantViolation ''refresh token already expired at'')
      else Inr \<lparr> Refresh_ID = rid, Refresh_Token = token, Refresh_SessionID = sessionID,
                 Refresh_ExpiresAt = expiresAt, Refresh_Used = False,
                 Refresh_LastRefreshedAt = None, Refresh_CreatedAt = createdAt \<rparr>)"

section \<open>Invariants of the entities\<close>

text \<open>
  The invariants the header of \<^verbatim>\<open>models.go\<close> lists. A session that is revoked carries the
  time of its revocation, and only such a session does.
\<close>

definition User_ok :: "User \<Rightarrow> bool" where
  "User_ok u = (User_Email u \<noteq> [])"

definition Session_ok :: "Session \<Rightarrow> bool" where
  "Session_ok s =
     (Session_RequestedScope s \<noteq> [] \<and> SessionStatus_IsValid (Session_Status s) \<and>
      Session_CreatedAt s \<le> Session_ExpiresAt s \<and>
      (Session_IsRevoked s \<longleftrightarrow> Session_RevokedAt s \<noteq> None))"

definition Code_ok :: "AuthorizationCodeRecord \<Rightarrow> bool" where
  "Code_ok a =
     (has_prefix (Code_Code a) authorizationCodePrefix \<and>
      length authorizationCodePrefix < length (Code_Code a) \<and>
      Code_RedirectURI a \<noteq> [] \<and> Code_CreatedAt a \<le> Code_ExpiresAt a)"

definition Refresh_ok :: "RefreshTokenRecord \<Rightarrow> bool" where
  "Refresh_ok r = (Refresh_Token r \<noteq> [] \<and> Refresh_CreatedAt r \<le> Refresh_ExpiresAt r)"

lemmas session_ops =
  Session_ApplyActivation_def Session_ApplyRevocation_def Session_RecordActivity_def
  Session_RecordRefresh_def Session_ApplyTokenJTI_def Session_ApplyDeviceInfo_def
  Session_SetDeviceBinding_def

lemmas session_status_defs =
  Session_IsActive_def Session_IsPendingConsent_def Session_IsRevoked_def

lemma NewSession_Inr:
  assumes "NewSession sid u c t scopes st cr ex ls = Inr s"
  shows "Session_ID s = sid" "Session_UserID s = u" "Session_ClientID s = c"
    "Session_TenantID s = t" "Session_RequestedScope s = scopes" "Session_Status s = st"
    "Session_CreatedAt s = cr" "Session_ExpiresAt s = ex" "Session_LastSeenAt s = ls"
    "Session_RevokedAt s = None" "Session_DeviceID s = []"
    "st \<noteq> SessionStatusRevoked \<Longrightarrow> Session_ok s"
  using assms by (auto simp: NewSession_def Session_ok_def session_status_defs split: if_splits)

lemma NewUser_ok: "NewUser uid t em f l v = Inr u \<Longrightarrow> User_ok u \<and> User_IsActive u"
  by (auto simp: NewUser_def User_ok_def User_IsActive_def split: if_splits)

lemma NewAuthorizationCode_ok:
  "NewAuthorizationCode rid code sid uri cr ex now = Inr a \<Longrightarrow>
   Code_ok a \<and> \<not> Code_Used a \<and> now \<le> Code_ExpiresAt a"
  by (auto simp: NewAuthorizationCode_def Code_ok_def Let_def has_prefix_def split: if_splits)

lemma NewAuthorizationCode_Inr:
  assumes "NewAuthorizationCode rid code sid uri cr ex now = Inr a"
  shows "Code_Code a = authorizationCodePrefix @ TrimPrefix code authorizationCodePrefix"
    "Code_SessionID a = sid" "Code_RedirectURI a = uri" "Code_ExpiresAt a = ex"
  using assms by (auto simp: NewAuthorizationCode_def Let_def split: if_splits)

lemma NewRefreshToken_ok:
  "NewRefreshToken rid tok sid cr ex now = Inr r \<Longrightarrow>
   Refresh_ok r \<and> \<not> Refresh_Used r \<and> now \<le> Refresh_ExpiresAt r"
  by (auto simp: NewRefreshToken_def Refresh_ok_def split: if_splits)

text \<open>Each operation on a session keeps its invariant.\<close>

lemma Session_ok_ops [simp]:
  "Session_ok (Session_RecordActivity t s) = Session_ok s"
  "Session_ok (Session_RecordRefresh t s) = Session_ok s"
  "Session_ok (Session_ApplyTokenJTI jti s) = Session_ok s"
  "Session_ok (Session_ApplyDeviceInfo d f s) = Session_ok s"
  "Session_ok (Session_SetDeviceBinding b s) = Session_ok s"
  by (simp_all add: session_ops session_status_defs Session_ok_def Let_def)

lemma Session_ok_ApplyRevocation [simp]:
  "Session_ok s \<Longrightarrow> Session_ok (Session_ApplyRevocation t s)"
  by (cases "Session_RevokedAt s")
    (simp_all add: session_ops session_status_defs Session_ok_def SessionStatus_IsValid_def Let_def)

lemma Session_ok_CanActivate:
  "Session_CanActivate s = None \<Longrightarrow> Session_ok s \<Longrightarrow> Session_ok (Session_ApplyActivation s)"
  by (cases "Session_IsPendingConsent s")
    (simp_all add: session_ops session_status_defs Session_ok_def SessionStatus_IsValid_def
      Session_CanActivate_def)

text \<open>The constructors of valid values and their texts: a round trip.\<close>

lemma RevocationReason_String_of [simp]: "RevocationReason_String (RevocationReason_of s) = s"
proof (cases "filter (\<lambda>r. RevocationReason_String r = s) validRevocationReasons")
  case (Cons r rs)
  then have "RevocationReason_String r = s" by (auto simp: filter_eq_Cons_iff)
  with Cons show ?thesis by (simp add: RevocationReason_of_def)
qed (simp add: RevocationReason_of_def)

lemma RevocationReason_of_String:
  "RevocationReason_IsValid r \<Longrightarrow> RevocationReason_of (RevocationReason_String r) = r"
  by (cases r) (simp_all add: RevocationReason_IsValid_def RevocationReason_of_def
    validRevocationReasons_def)

section \<open>The life cycle of a session\<close>

text \<open>
  Every change the code makes to a session, each under the guard its callers check first.
\<close>

inductive session_step :: "Session \<Rightarrow> Session \<Rightarrow> bool" where
  activate: "Session_CanActivate s = None \<Longrightarrow> session_step s (Session_ApplyActivation s)"
| revoke: "Session_CanRevoke s = None \<Longrightarrow> session_step s (Session_ApplyRevocation t s)"
| activity: "session_step s (Session_RecordActivity t s)"
| refresh: "session_step s (Session_RecordRefresh t s)"
| token_jti: "session_step s (Session_ApplyTokenJTI jti s)"
| device_info: "session_step s (Session_ApplyDeviceInfo d f s)"
| set_device: "session_step s (Session_SetDeviceBinding b s)"

inductive_cases session_stepE: "session_step s s'"

abbreviation session_reach :: "Session \<Rightarrow> Session \<Rightarrow> bool" where
  "session_reach \<equiv> session_step\<^sup>*\<^sup>*"

lemma session_step_ok: "session_step s s' \<Longrightarrow> Session_ok s \<Longrightarrow> Session_ok s'"
  by (induction rule: session_step.induct)
    (simp_all add: Session_ok_CanActivate)

lemma session_step_status:
  assumes "session_step s s'" and "Session_ok s"
  shows "Session_Status s' = Session_Status s \<or> CanTransitionTo (Session_Status s) (Session_Status s')"
  using assms
  by (induction rule: session_step.induct)
    (auto simp: session_ops session_status_defs Session_ok_def SessionStatus_IsValid_def
      Session_CanActivate_def Session_CanRevoke_def Let_def split: if_splits)

text \<open>What no step changes, and what only grows.\<close>

definition session_identity :: "Session \<Rightarrow> SessionID \<times> UserID \<times> ClientID \<times> TenantID \<times> string list \<times> time \<times> time" where
  "session_identity s =
     (Session_ID s, Session_UserID s, Session_ClientID s, Session_TenantID s,
      Session_RequestedScope s, Session_CreatedAt s, Session_ExpiresAt s)"

lemma session_step_identity: "session_step s s' \<Longrightarrow> session_identity s' = session_identity s"
  by (induction rule: session_step.induct)
    (simp_all add: session_identity_def session_ops Let_def)

lemma session_step_LastSeenAt: "session_step s s' \<Longrightarrow> Session_LastSeenAt s \<le> Session_LastSeenAt s'"
  by (induction rule: session_step.induct) (simp_all add: session_ops Let_def)

lemma session_step_revoked:
  "session_step s s' \<Longrightarrow> Session_IsRevoked s \<Longrightarrow>
   Session_IsRevoked s' \<and> Session_RevokedAt s' = Session_RevokedAt s"
  by (induction rule: session_step.induct)
    (simp_all add: session_ops session_status_defs Session_CanActivate_def Session_CanRevoke_def Let_def)

end
