(* ===== verification/Auth_Stores.thy ===== *)
theory Auth_Stores
  imports Auth_Models
begin

text \<open>
  The in-memory stores of the authentication component, \<^verbatim>\<open>internal/auth/store/*\<close>: sessions,
  authorization codes, refresh tokens, users, and the token revocation list. Each operation runs
  under the store's mutex, so it is one function on the store's state. The three stores with an
  \<^verbatim>\<open>Execute\<close> operation interpret the contract of \<open>Stores\<close>.
\<close>

section \<open>Sessions\<close>

type_synonym session_store = "(SessionID, Session) kv"

definition ErrSessionRevoked :: go_error where
  "ErrSessionRevoked = ErrorfW ''session has been revoked'' (Sentinel ErrInvalidState)"

definition SessionStore_Create :: "session_store \<Rightarrow> Session \<Rightarrow> session_store \<times> go_error option" where
  "SessionStore_Create st session = (kv_put st (Session_ID session) session, None)"

definition SessionStore_FindByID :: "session_store \<Rightarrow> SessionID \<Rightarrow> Session result" where
  "SessionStore_FindByID st sessionID =
     (case kv_get st sessionID of
        Some session \<Rightarrow> Inr session
      | None \<Rightarrow> Inl (ErrorfW ''session not found'' (Sentinel ErrNotFound)))"

definition SessionStore_ListByUser :: "session_store \<Rightarrow> UserID \<Rightarrow> Session list" where
  "SessionStore_ListByUser st userID = filter (\<lambda>s. Session_UserID s = userID) (kv_values st)"

definition SessionStore_UpdateSession :: "session_store \<Rightarrow> Session \<Rightarrow> session_store \<times> go_error option" where
  "SessionStore_UpdateSession st session =
     (case kv_get st (Session_ID session) of
        None \<Rightarrow> (st, Some (ErrorfW ''session not found'' (Sentinel ErrNotFound)))
      | Some _ \<Rightarrow> (kv_put st (Session_ID session) session, None))"

definition SessionStore_DeleteSessionsByUser :: "session_store \<Rightarrow> UserID \<Rightarrow> session_store \<times> go_error option" where
  "SessionStore_DeleteSessionsByUser st userID =
     (let found = list_ex (\<lambda>s. Session_UserID s = userID) (kv_values st) in
      (kv_delete_where (\<lambda>s. Session_UserID s = userID) st,
       if \<not> found then Some (ErrorfW ''session not found'' (Sentinel ErrNotFound)) else None))"

definition SessionStore_RevokeSessionIfActive ::
  "session_store \<Rightarrow> SessionID \<Rightarrow> time \<Rightarrow> session_store \<times> go_error option" where
  "SessionStore_RevokeSessionIfActive st sessionID now =
     (case kv_get st sessionID of
        None \<Rightarrow> (st, Some (Sentinel ErrNotFound))
      | Some session \<Rightarrow>
          (case Session_CanRevoke session of
             Some _ \<Rightarrow> (st, Some ErrSessionRevoked)
           | None \<Rightarrow> (kv_put st sessionID (Session_ApplyRevocation now session), None)))"

definition SessionStore_DeleteExpiredSessions :: "session_store \<Rightarrow> time \<Rightarrow> session_store \<times> nat" where
  "SessionStore_DeleteExpiredSessions st now =
     (kv_delete_where (\<lambda>s. Session_ExpiresAt s < now) st,
      length (filter (\<lambda>s. Session_ExpiresAt s < now) (kv_values st)))"

definition SessionStore_Execute ::
  "session_store \<Rightarrow> SessionID \<Rightarrow> (Session \<Rightarrow> go_error option) \<Rightarrow> (Session \<Rightarrow> Session)
   \<Rightarrow> session_store \<times> Session exec_result" where
  "SessionStore_Execute st sessionID validate mutate =
     (case kv_get st sessionID of
        None \<Rightarrow> (st, None, Some (Sentinel ErrNotFound))
      | Some session \<Rightarrow>
          (case validate session of
             Some e \<Rightarrow> (st, None, Some e)
           | None \<Rightarrow> (kv_put st sessionID (mutate session), Some (mutate session), None)))"

section \<open>Authorization codes\<close>

type_synonym code_store = "(string, AuthorizationCodeRecord) kv"

definition CodeStore_Create :: "code_store \<Rightarrow> AuthorizationCodeRecord \<Rightarrow> code_store \<times> go_error option" where
  "CodeStore_Create st authCode = (kv_put st (Code_Code authCode) authCode, None)"

definition CodeStore_FindByCode :: "code_store \<Rightarrow> string \<Rightarrow> AuthorizationCodeRecord result" where
  "CodeStore_FindByCode st code =
     (case kv_get st code of
        Some authCode \<Rightarrow> Inr authCode
      | None \<Rightarrow> Inl (ErrorfW ''authorization code not found'' (Sentinel ErrNotFound)))"

definition CodeStore_MarkUsed :: "code_store \<Rightarrow> string \<Rightarrow> code_store \<times> go_error option" where
  "CodeStore_MarkUsed st code =
     (case kv_get st code of
        None \<Rightarrow> (st, Some (ErrorfW ''authorization code not found'' (Sentinel ErrNotFound)))
      | Some record \<Rightarrow> (kv_put st code (fst (Code_MarkUsed record)), None))"

definition CodeStore_DeleteExpiredCodes :: "code_store \<Rightarrow> time \<Rightarrow> code_store \<times> nat" where
  "CodeStore_DeleteExpiredCodes st now =
     (kv_delete_where (\<lambda>r. Code_ExpiresAt r < now) st,
      length (filter (\<lambda>r. Code_ExpiresAt r < now) (kv_values st)))"

definition CodeStore_Execute ::
  "code_store \<Rightarrow> string \<Rightarrow> (AuthorizationCodeRecord \<Rightarrow> go_error option)
   \<Rightarrow> (AuthorizationCodeRecord \<Rightarrow> AuthorizationCodeRecord)
   \<Rightarrow> code_store \<times> AuthorizationCodeRecord exec_result" where
  "CodeStore_Execute st code validate mutate =
     (case kv_get st code of
        None \<Rightarrow> (st, None, Some (Sentinel ErrNotFound))
      | Some record \<Rightarrow>
          (case validate record of
             Some e \<Rightarrow> (st, Some record, Some e)
           | None \<Rightarrow> (kv_put st code (mutate record), Some (mutate record), None)))"

section \<open>Refresh tokens\<close>

type_synonym refresh_store = "(string, RefreshTokenRecord) kv"

definition RefreshStore_Create :: "refresh_store \<Rightarrow> RefreshTokenRecord \<Rightarrow> refresh_store \<times> go_error option" where
  "RefreshStore_Create st token = (kv_put st (Refresh_Token token) token, None)"

definition RefreshStore_Find :: "refresh_store \<Rightarrow> string \<Rightarrow> RefreshTokenRecord result" where
  "RefreshStore_Find st token =
     (case kv_get st token of
        Some record \<Rightarrow> Inr record
      | None \<Rightarrow> Inl (ErrorfW ''refresh token not found'' (Sentinel ErrNotFound)))"

text \<open>The loop of \<^verbatim>\<open>FindBySessionID\<close>, which keeps the newest usable token so far.\<close>

fun find_best :: "SessionID \<Rightarrow> time \<Rightarrow> RefreshTokenRecord option \<Rightarrow> RefreshTokenRecord list
                  \<Rightarrow> RefreshTokenRecord option" where
  "find_best sessionID now best [] = best"
| "find_best sessionID now best (token # tokens) =
     (if Refresh_SessionID token \<noteq> sessionID then find_best sessionID now best tokens
      else if Refresh_Used token then find_best sessionID now best tokens
      else if \<not> time_IsZero (Refresh_ExpiresAt token) \<and> Refresh_ExpiresAt token < now
      then find_best sessionID now best tokens
      else if (case best of None \<Rightarrow> True | Some b \<Rightarrow> Refresh_CreatedAt token > Refresh_CreatedAt b)
      then find_best sessionID now (Some token) tokens
      else find_best sessionID now best tokens)"

definition RefreshStore_FindBySessionID :: "refresh_store \<Rightarrow> SessionID \<Rightarrow> time \<Rightarrow> RefreshTokenRecord result" where
  "RefreshStore_FindBySessionID st sessionID now =
     (case find_best sessionID now None (kv_values st) of
        None \<Rightarrow> Inl (ErrorfW ''refresh token not found'' (Sentinel ErrNotFound))
      | Some best \<Rightarrow> Inr best)"

definition RefreshStore_DeleteBySessionID :: "refresh_store \<Rightarrow> SessionID \<Rightarrow> refresh_store \<times> go_error option" where
  "RefreshStore_DeleteBySessionID st sessionID =
     (let found = list_ex (\<lambda>t. Refresh_SessionID t = sessionID) (kv_values st) in
      (kv_delete_where (\<lambda>t. Refresh_SessionID t = sessionID) st,
       if \<not> found then Some (Sentinel ErrNotFound) else None))"

definition RefreshStore_DeleteExpiredTokens :: "refresh_store \<Rightarrow> time \<Rightarrow> refresh_store \<times> nat" where
  "RefreshStore_DeleteExpiredTokens st now =
     (kv_delete_where (\<lambda>t. Refresh_ExpiresAt t < now) st,
      length (filter (\<lambda>t. Refresh_ExpiresAt t < now) (kv_values st)))"

definition RefreshStore_DeleteUsedTokens :: "refresh_store \<Rightarrow> refresh_store \<times> nat" where
  "RefreshStore_DeleteUsedTokens st =
     (kv_delete_where Refresh_Used st, length (filter Refresh_Used (kv_values st)))"

definition RefreshStore_Execute ::
  "refresh_store \<Rightarrow> string \<Rightarrow> (RefreshTokenRecord \<Rightarrow> go_error option)
   \<Rightarrow> (RefreshTokenRecord \<Rightarrow> RefreshTokenRecord)
   \<Rightarrow> refresh_store \<times> RefreshTokenRecord exec_result" where
  "RefreshStore_Execute st token validate mutate =
     (case kv_get st token of
        None \<Rightarrow> (st, None, Some (Sentinel ErrNotFound))
      | Some record \<Rightarrow>
          (case validate record of
             Some e \<Rightarrow> (st, Some record, Some e)
           | None \<Rightarrow> (kv_put st token (mutate record), Some (mutate record), None)))"

section \<open>Users\<close>

type_synonym user_store = "(UserID, User) kv"

definition UserStore_Save :: "user_store \<Rightarrow> User \<Rightarrow> user_store \<times> go_error option" where
  "UserStore_Save st user = (kv_put st (User_ID user) user, None)"

definition UserStore_FindByID :: "user_store \<Rightarrow> UserID \<Rightarrow> User result" where
  "UserStore_FindByID st userID =
     (case kv_get st userID of
        Some user \<Rightarrow> Inr user
      | None \<Rightarrow> Inl (ErrorfW ''user not found'' (Sentinel ErrNotFound)))"

definition UserStore_FindByEmail :: "user_store \<Rightarrow> string \<Rightarrow> User result" where
  "UserStore_FindByEmail st email =
     (case find (\<lambda>u. User_Email u = email) (kv_values st) of
        Some user \<Rightarrow> Inr user
      | None \<Rightarrow> Inl (ErrorfW ''user not found'' (Sentinel ErrNotFound)))"

definition UserStore_FindOrCreateByTenantAndEmail ::
  "user_store \<Rightarrow> TenantID \<Rightarrow> string \<Rightarrow> User \<Rightarrow> user_store \<times> User" where
  "UserStore_FindOrCreateByTenantAndEmail st tenantID email user =
     (case find (\<lambda>u. User_Email u = email \<and> User_TenantID u = tenantID) (kv_values st) of
        Some existingUser \<Rightarrow> (st, existingUser)
      | None \<Rightarrow> (kv_put st (User_ID user) user, user))"

definition UserStore_Delete :: "user_store \<Rightarrow> UserID \<Rightarrow> user_store \<times> go_error option" where
  "UserStore_Delete st userID =
     (case kv_get st userID of
        Some _ \<Rightarrow> (kv_del st userID, None)
      | None \<Rightarrow> (st, Some (ErrorfW ''user not found'' (Sentinel ErrNotFound))))"

section \<open>The token revocation list\<close>

record InMemoryTRL =
  trl_revoked :: "(string, time) kv"
  trl_order :: "string list"
  trl_maxSize :: nat

definition DefaultMaxSize :: nat where "DefaultMaxSize = 10000"

definition NewInMemoryTRL :: "nat option \<Rightarrow> InMemoryTRL" where
  "NewInMemoryTRL withMaxSize =
     \<lparr> trl_revoked = [], trl_order = [],
       trl_maxSize = (case withMaxSize of None \<Rightarrow> DefaultMaxSize | Some n \<Rightarrow> n) \<rparr>"

definition validateTTL :: "duration \<Rightarrow> go_error option" where
  "validateTTL ttl =
     (if ttl \<le> 0 then Some (ErrorfW ''ttl must be positive'' (Sentinel ErrInvalidState)) else None)"

text \<open>The loop of \<^verbatim>\<open>evictIfNeeded\<close>: the head of \<open>order\<close> goes while there is no room.\<close>

fun evict_loop :: "nat \<Rightarrow> nat \<Rightarrow> (string, time) kv \<Rightarrow> string list \<Rightarrow> (string, time) kv \<times> string list" where
  "evict_loop maxSize n revoked [] = (revoked, [])"
| "evict_loop maxSize n revoked (oldest # order) =
     (if length revoked + n > maxSize then evict_loop maxSize n (kv_del revoked oldest) order
      else (revoked, oldest # order))"

definition TRL_evictIfNeeded :: "InMemoryTRL \<Rightarrow> nat \<Rightarrow> InMemoryTRL" where
  "TRL_evictIfNeeded t n =
     (if trl_maxSize t = 0 then t
      else let (revoked, order) = evict_loop (trl_maxSize t) n (trl_revoked t) (trl_order t) in
           t\<lparr> trl_revoked := revoked, trl_order := order \<rparr>)"

definition TRL_RevokeToken ::
  "time \<Rightarrow> InMemoryTRL \<Rightarrow> string \<Rightarrow> duration \<Rightarrow> InMemoryTRL \<times> go_error option" where
  "TRL_RevokeToken now t jti ttl =
     (case validateTTL ttl of
        Some e \<Rightarrow> (t, Some e)
      | None \<Rightarrow>
          (case kv_get (trl_revoked t) jti of
             Some _ \<Rightarrow> (t\<lparr> trl_revoked := kv_put (trl_revoked t) jti (now + ttl) \<rparr>, None)
           | None \<Rightarrow>
               let t = TRL_evictIfNeeded t 1 in
               (t\<lparr> trl_revoked := kv_put (trl_revoked t) jti (now + ttl),
                   trl_order := trl_order t @ [jti] \<rparr>, None)))"

definition TRL_IsRevoked :: "time \<Rightarrow> InMemoryTRL \<Rightarrow> string \<Rightarrow> bool" where
  "TRL_IsRevoked now t jti =
     (case kv_get (trl_revoked t) jti of
        None \<Rightarrow> False
      | Some expiry \<Rightarrow> if now > expiry then False else True)"

text \<open>The first loop of \<^verbatim>\<open>RevokeSessionTokens\<close>: new identifiers are collected, and the
  expiry of those already listed is updated.\<close>

fun split_jtis :: "time \<Rightarrow> (string, time) kv \<Rightarrow> string list \<Rightarrow> (string, time) kv \<times> string list" where
  "split_jtis expiry revoked [] = (revoked, [])"
| "split_jtis expiry revoked (jti # jtis) =
     (case kv_get revoked jti of
        None \<Rightarrow> (let (revoked', new) = split_jtis expiry revoked jtis in (revoked', jti # new))
      | Some _ \<Rightarrow> split_jtis expiry (kv_put revoked jti expiry) jtis)"

definition TRL_RevokeSessionTokens ::
  "time \<Rightarrow> InMemoryTRL \<Rightarrow> string list \<Rightarrow> duration \<Rightarrow> InMemoryTRL \<times> go_error option" where
  "TRL_RevokeSessionTokens now t jtis ttl =
     (case validateTTL ttl of
        Some e \<Rightarrow> (t, Some e)
      | None \<Rightarrow>
          let expiry = now + ttl;
              (revoked, newJTIs) = split_jtis expiry (trl_revoked t) jtis;
              t = TRL_evictIfNeeded (t\<lparr> trl_revoked := revoked \<rparr>) (length newJTIs);
              revoked = foldl (\<lambda>m jti. kv_put m jti expiry) (trl_revoked t) newJTIs
          in (t\<lparr> trl_revoked := revoked, trl_order := trl_order t @ newJTIs \<rparr>, None))"

definition TRL_compactOrder :: "InMemoryTRL \<Rightarrow> InMemoryTRL" where
  "TRL_compactOrder t =
     (if length (trl_order t) = 0 then t
      else t\<lparr> trl_order := filter (\<lambda>jti. kv_get (trl_revoked t) jti \<noteq> None) (trl_order t) \<rparr>)"

text \<open>One tick of the goroutine \<^verbatim>\<open>cleanup\<close>.\<close>

definition TRL_cleanup_tick :: "time \<Rightarrow> InMemoryTRL \<Rightarrow> InMemoryTRL" where
  "TRL_cleanup_tick now t =
     TRL_compactOrder (t\<lparr> trl_revoked := kv_delete_where (\<lambda>expiry. now > expiry) (trl_revoked t) \<rparr>)"

section \<open>The stores satisfy the contract of \<^verbatim>\<open>Execute\<close>\<close>

interpretation sessions: creating_store
  kv_get SessionStore_Execute "\<lambda>_. None" kv_ok Session_ID SessionStore_Create
  by unfold_locales
    (auto simp: SessionStore_Execute_def SessionStore_Create_def kv_simps split: option.splits)

interpretation codes: creating_store
  kv_get CodeStore_Execute Some kv_ok Code_Code CodeStore_Create
  by unfold_locales
    (auto simp: CodeStore_Execute_def CodeStore_Create_def kv_simps split: option.splits)

interpretation refresh_tokens: creating_store
  kv_get RefreshStore_Execute Some kv_ok Refresh_Token RefreshStore_Create
  by unfold_locales
    (auto simp: RefreshStore_Execute_def RefreshStore_Create_def kv_simps split: option.splits)

section \<open>Well-formed stores\<close>

text \<open>A map holds its records under their own keys, and each record satisfies its invariant.\<close>

definition sessions_ok :: "session_store \<Rightarrow> bool" where
  "sessions_ok st = (kv_ok st \<and> kv_all (\<lambda>k s. Session_ID s = k \<and> Session_ok s) st)"

definition codes_ok :: "code_store \<Rightarrow> bool" where
  "codes_ok st = (kv_ok st \<and> kv_all (\<lambda>k a. Code_Code a = k \<and> Code_ok a) st)"

definition refresh_ok :: "refresh_store \<Rightarrow> bool" where
  "refresh_ok st = (kv_ok st \<and> kv_all (\<lambda>k r. Refresh_Token r = k \<and> Refresh_ok r) st)"

text \<open>At most one user per tenant and email: what the atomic find-or-create is for.\<close>

definition users_ok :: "user_store \<Rightarrow> bool" where
  "users_ok st =
     (kv_ok st \<and> kv_all (\<lambda>k u. User_ID u = k \<and> User_ok u) st \<and>
      distinct (map (\<lambda>u. (User_TenantID u, User_Email u)) (kv_values st)))"

text \<open>The eviction order covers the map; without duplicates it lists it exactly.\<close>

definition trl_ok :: "InMemoryTRL \<Rightarrow> bool" where
  "trl_ok t = (kv_ok (trl_revoked t) \<and> distinct (trl_order t) \<and>
               set (trl_order t) = fst ` set (trl_revoked t))"

section \<open>Lemmas about the stores\<close>

lemmas session_store_defs =
  SessionStore_Create_def SessionStore_UpdateSession_def SessionStore_DeleteSessionsByUser_def
  SessionStore_RevokeSessionIfActive_def SessionStore_DeleteExpiredSessions_def

lemma sessions_okD:
  "sessions_ok st \<Longrightarrow> kv_get st k = Some s \<Longrightarrow> Session_ID s = k \<and> Session_ok s"
  by (auto simp: sessions_ok_def dest: kv_allD)

lemma sessions_ok_kv [simp]: "sessions_ok st \<Longrightarrow> kv_ok st"
  by (simp add: sessions_ok_def)

lemma sessions_ok_Nil [simp]: "sessions_ok []"
  by (simp add: sessions_ok_def)

lemma sessions_ok_put: "sessions_ok st \<Longrightarrow> Session_ID s = k \<Longrightarrow> Session_ok s \<Longrightarrow> sessions_ok (kv_put st k s)"
  by (auto simp: sessions_ok_def)

lemma session_ID_ops [simp]:
  "Session_ID (Session_ApplyActivation s) = Session_ID s"
  "Session_ID (Session_ApplyRevocation t s) = Session_ID s"
  "Session_ID (Session_RecordActivity t s) = Session_ID s"
  "Session_ID (Session_RecordRefresh t s) = Session_ID s"
  "Session_ID (Session_ApplyTokenJTI jti s) = Session_ID s"
  "Session_ID (Session_ApplyDeviceInfo d f s) = Session_ID s"
  "Session_ID (Session_SetDeviceBinding b s) = Session_ID s"
  by (simp_all add: session_ops Let_def)

lemma sessions_ok_Execute:
  assumes "sessions_ok st"
    and "\<And>s. Session_ok s \<Longrightarrow> validate s = None \<Longrightarrow> Session_ok (mutate s) \<and> Session_ID (mutate s) = Session_ID s"
  shows "sessions_ok (fst (SessionStore_Execute st k validate mutate))"
  using assms
  by (auto simp: SessionStore_Execute_def dest: sessions_okD intro!: sessions_ok_put split: option.splits)

lemma sessions_ok_ops:
  assumes "sessions_ok st"
  shows "Session_ok s \<Longrightarrow> sessions_ok (fst (SessionStore_Create st s))"
    "Session_ok s \<Longrightarrow> sessions_ok (fst (SessionStore_UpdateSession st s))"
    "sessions_ok (fst (SessionStore_DeleteSessionsByUser st u))"
    "sessions_ok (fst (SessionStore_RevokeSessionIfActive st k now))"
    "sessions_ok (fst (SessionStore_DeleteExpiredSessions st now))"
  using assms
  by (auto simp: session_store_defs Let_def dest: sessions_okD intro!: sessions_ok_put split: option.splits)
    (auto simp: sessions_ok_def)

lemma codes_ok_kv [simp]: "codes_ok st \<Longrightarrow> kv_ok st"
  by (simp add: codes_ok_def)

lemma codes_okD: "codes_ok st \<Longrightarrow> kv_get st k = Some a \<Longrightarrow> Code_Code a = k \<and> Code_ok a"
  by (auto simp: codes_ok_def dest: kv_allD)

lemma codes_ok_put: "codes_ok st \<Longrightarrow> Code_Code a = k \<Longrightarrow> Code_ok a \<Longrightarrow> codes_ok (kv_put st k a)"
  by (auto simp: codes_ok_def)

lemma Code_MarkUsed_simps [simp]:
  "Code_Code (fst (Code_MarkUsed a)) = Code_Code a" "Code_Used (fst (Code_MarkUsed a))"
  "Code_SessionID (fst (Code_MarkUsed a)) = Code_SessionID a"
  "Code_RedirectURI (fst (Code_MarkUsed a)) = Code_RedirectURI a"
  "Code_ExpiresAt (fst (Code_MarkUsed a)) = Code_ExpiresAt a"
  "Code_ok (fst (Code_MarkUsed a)) = Code_ok a"
  by (simp_all add: Code_MarkUsed_def Code_ok_def)

lemma codes_ok_ops:
  assumes "codes_ok st"
  shows "Code_ok a \<Longrightarrow> codes_ok (fst (CodeStore_Create st a))"
    "codes_ok (fst (CodeStore_MarkUsed st k))"
    "codes_ok (fst (CodeStore_DeleteExpiredCodes st now))"
    "codes_ok (fst (CodeStore_Execute st k validate (fst \<circ> Code_MarkUsed)))"
  using assms
  by (auto simp: CodeStore_Create_def CodeStore_MarkUsed_def CodeStore_DeleteExpiredCodes_def
      CodeStore_Execute_def dest: codes_okD intro!: codes_ok_put split: option.splits)
    (auto simp: codes_ok_def)

lemma refresh_ok_kv [simp]: "refresh_ok st \<Longrightarrow> kv_ok st"
  by (simp add: refresh_ok_def)

lemma refresh_okD: "refresh_ok st \<Longrightarrow> kv_get st k = Some r \<Longrightarrow> Refresh_Token r = k \<and> Refresh_ok r"
  by (auto simp: refresh_ok_def dest: kv_allD)

lemma refresh_ok_put: "refresh_ok st \<Longrightarrow> Refresh_Token r = k \<Longrightarrow> Refresh_ok r \<Longrightarrow> refresh_ok (kv_put st k r)"
  by (auto simp: refresh_ok_def)

lemma Refresh_MarkUsed_simps [simp]:
  "Refresh_Token (fst (Refresh_MarkUsed t r)) = Refresh_Token r"
  "Refresh_Used (fst (Refresh_MarkUsed t r))"
  "Refresh_SessionID (fst (Refresh_MarkUsed t r)) = Refresh_SessionID r"
  "Refresh_ExpiresAt (fst (Refresh_MarkUsed t r)) = Refresh_ExpiresAt r"
  "Refresh_ok (fst (Refresh_MarkUsed t r)) = Refresh_ok r"
  by (simp_all add: Refresh_MarkUsed_def Refresh_ok_def Let_def)

lemma refresh_ok_ops:
  assumes "refresh_ok st"
  shows "Refresh_ok r \<Longrightarrow> refresh_ok (fst (RefreshStore_Create st r))"
    "refresh_ok (fst (RefreshStore_DeleteBySessionID st sid))"
    "refresh_ok (fst (RefreshStore_DeleteExpiredTokens st now))"
    "refresh_ok (fst (RefreshStore_DeleteUsedTokens st))"
    "refresh_ok (fst (RefreshStore_Execute st k validate (\<lambda>r. fst (Refresh_MarkUsed now r))))"
  using assms
  by (auto simp: RefreshStore_Create_def RefreshStore_DeleteBySessionID_def Let_def
      RefreshStore_DeleteExpiredTokens_def RefreshStore_DeleteUsedTokens_def
      RefreshStore_Execute_def dest: refresh_okD intro!: refresh_ok_put split: option.splits)
    (auto simp: refresh_ok_def)

text \<open>\<^verbatim>\<open>FindBySessionID\<close> returns the newest token of the session that can still be
  used, if there is one.\<close>

definition refresh_usable :: "SessionID \<Rightarrow> time \<Rightarrow> RefreshTokenRecord \<Rightarrow> bool" where
  "refresh_usable sid now t =
     (Refresh_SessionID t = sid \<and> \<not> Refresh_Used t \<and>
      (time_IsZero (Refresh_ExpiresAt t) \<or> now \<le> Refresh_ExpiresAt t))"

lemma find_best_step:
  "find_best sid now best (t # ts) =
     (if refresh_usable sid now t \<and>
         (case best of None \<Rightarrow> True | Some b \<Rightarrow> Refresh_CreatedAt b < Refresh_CreatedAt t)
      then find_best sid now (Some t) ts else find_best sid now best ts)"
  by (auto simp: refresh_usable_def)

declare find_best.simps(2) [simp del]

lemma find_best_None:
  "find_best sid now best ts = None \<longleftrightarrow> best = None \<and> (\<forall>t \<in> set ts. \<not> refresh_usable sid now t)"
  by (induction ts arbitrary: best) (auto simp: find_best_step split: option.splits)

lemma find_best_Some:
  "find_best sid now best ts = Some r \<Longrightarrow>
     (best = Some r \<or> r \<in> set ts \<and> refresh_usable sid now r) \<and>
     (\<forall>b. best = Some b \<longrightarrow> Refresh_CreatedAt b \<le> Refresh_CreatedAt r) \<and>
     (\<forall>t \<in> set ts. refresh_usable sid now t \<longrightarrow> Refresh_CreatedAt t \<le> Refresh_CreatedAt r)"
proof (induction ts arbitrary: best)
  case (Cons t ts)
  let ?better = "refresh_usable sid now t \<and>
        (case best of None \<Rightarrow> True | Some b \<Rightarrow> Refresh_CreatedAt b < Refresh_CreatedAt t)"
  show ?case
  proof (cases ?better)
    case True
    with Cons.prems have "find_best sid now (Some t) ts = Some r" by (simp add: find_best_step)
    from Cons.IH[OF this] True show ?thesis by (cases best) auto
  next
    case False
    with Cons.prems have "find_best sid now best ts = Some r" by (simp add: find_best_step)
    from Cons.IH[OF this] False show ?thesis by (cases best) auto
  qed
qed simp

text \<open>The find-or-create keeps users unique per tenant and email.\<close>

lemma users_ok_FindOrCreate:
  assumes ok: "users_ok st" and u: "User_ok u" "User_Email u = email" "User_TenantID u = tid"
    and fresh: "kv_get st (User_ID u) = None"
  shows "users_ok (fst (UserStore_FindOrCreateByTenantAndEmail st tid email u))"
proof (cases "find (\<lambda>u. User_Email u = email \<and> User_TenantID u = tid) (kv_values st)")
  case None
  then have "(tid, email) \<notin> (\<lambda>u. (User_TenantID u, User_Email u)) ` set (kv_values st)"
    by (auto simp: find_None_iff)
  with None ok u show ?thesis
    by (simp add: UserStore_FindOrCreateByTenantAndEmail_def users_ok_def kv_all_put
        kv_values_put_fresh[OF fresh])
qed (use ok in \<open>simp add: UserStore_FindOrCreateByTenantAndEmail_def\<close>)

lemma FindOrCreate_result:
  assumes ok: "users_ok st" and u: "User_Email u = email" "User_TenantID u = tid"
    and run: "UserStore_FindOrCreateByTenantAndEmail st tid email u = (st', w)"
  shows "kv_get st' (User_ID w) = Some w \<and> User_Email w = email \<and> User_TenantID w = tid \<and>
         (st' = st \<or> w = u \<and> st' = kv_put st (User_ID u) u)"
proof (cases "find (\<lambda>u. User_Email u = email \<and> User_TenantID u = tid) (kv_values st)")
  case None
  with run have "st' = kv_put st (User_ID u) u" "w = u"
    by (auto simp: UserStore_FindOrCreateByTenantAndEmail_def)
  with u show ?thesis by (simp add: kv_simps)
next
  case (Some x)
  with run have "st' = st" "w = x" "x \<in> set (kv_values st)" "User_Email x = email \<and> User_TenantID x = tid"
    using find_SomeD[OF Some] by (simp_all add: UserStore_FindOrCreateByTenantAndEmail_def)
  moreover from ok have "kv_ok st" "kv_all (\<lambda>k u. User_ID u = k \<and> User_ok u) st"
    by (simp_all add: users_ok_def)
  ultimately show ?thesis
    using kv_valuesD(1)[of x st User_ID "\<lambda>_. User_ok"] by simp
qed

section \<open>Lemmas about the token revocation list\<close>

lemma trl_ok_length: "trl_ok t \<Longrightarrow> length (trl_order t) = length (trl_revoked t)"
  by (metis (no_types, lifting) distinct_card length_map set_map trl_ok_def)

text \<open>The eviction loop keeps the order and the map in step, and makes room.\<close>

lemma evict_loop_ok:
  assumes "kv_ok r" "distinct ord" "set ord = fst ` set r" "evict_loop m n r ord = (r', ord')"
  shows "kv_ok r' \<and> distinct ord' \<and> set ord' = fst ` set r' \<and> (n \<le> m \<longrightarrow> length r' + n \<le> m)"
  using assms
proof (induction m n r ord rule: evict_loop.induct)
  case (1 m n r)
  then show ?case by auto
next
  case (2 m n r x ord)
  show ?case
  proof (cases "length r + n > m")
    case True
    moreover from 2(3,4) have "fst ` set r = insert x (set ord)" "x \<notin> set ord" by simp_all
    then have "set ord = fst ` set (kv_del r x)" by (simp add: kv_simps)
    ultimately show ?thesis using 2 by simp
  next
    case False
    with 2(5) have "r' = r" "ord' = x # ord" by auto
    with False 2(2-4) show ?thesis by simp
  qed
qed

lemma TRL_evict_ok:
  assumes "trl_ok t"
  shows "trl_ok (TRL_evictIfNeeded t n)" "trl_maxSize (TRL_evictIfNeeded t n) = trl_maxSize t"
    "0 < trl_maxSize t \<Longrightarrow> n \<le> trl_maxSize t \<Longrightarrow>
     length (trl_revoked (TRL_evictIfNeeded t n)) + n \<le> trl_maxSize t"
proof -
  obtain r' ord' where x: "evict_loop (trl_maxSize t) n (trl_revoked t) (trl_order t) = (r', ord')"
    by fastforce
  have "kv_ok r' \<and> distinct ord' \<and> set ord' = fst ` set r' \<and>
      (n \<le> trl_maxSize t \<longrightarrow> length r' + n \<le> trl_maxSize t)"
    by (rule evict_loop_ok[OF _ _ _ x]) (use assms in \<open>simp_all add: trl_ok_def\<close>)
  then show "trl_ok (TRL_evictIfNeeded t n)"
    "trl_maxSize (TRL_evictIfNeeded t n) = trl_maxSize t"
    "0 < trl_maxSize t \<Longrightarrow> n \<le> trl_maxSize t \<Longrightarrow>
     length (trl_revoked (TRL_evictIfNeeded t n)) + n \<le> trl_maxSize t"
    using assms by (simp_all add: TRL_evictIfNeeded_def trl_ok_def x)
qed

lemma evict_loop_get:
  "evict_loop m n r ord = (r', ord') \<Longrightarrow> kv_get r' k = Some e \<Longrightarrow> kv_get r k = Some e"
  by (induction m n r ord rule: evict_loop.induct) (auto simp: kv_simps split: if_splits)

lemma TRL_evict_get:
  "kv_get (trl_revoked (TRL_evictIfNeeded t n)) k = Some e \<Longrightarrow> kv_get (trl_revoked t) k = Some e"
  using evict_loop_get[of "trl_maxSize t" n "trl_revoked t" "trl_order t"]
  by (auto simp: TRL_evictIfNeeded_def split: prod.splits if_splits)

lemma TRL_RevokeToken_cases:
  assumes "TRL_RevokeToken now t jti ttl = (t', e)"
  obtains (bad_ttl) "ttl \<le> 0" "e \<noteq> None" "t' = t"
  | (listed) x where "0 < ttl" "e = None" "kv_get (trl_revoked t) jti = Some x"
      "t' = t\<lparr> trl_revoked := kv_put (trl_revoked t) jti (now + ttl) \<rparr>"
  | (new) "0 < ttl" "e = None" "kv_get (trl_revoked t) jti = None"
      "t' = (TRL_evictIfNeeded t 1)
        \<lparr> trl_revoked := kv_put (trl_revoked (TRL_evictIfNeeded t 1)) jti (now + ttl),
          trl_order := trl_order (TRL_evictIfNeeded t 1) @ [jti] \<rparr>"
  using assms
  by (cases "ttl \<le> 0"; cases "kv_get (trl_revoked t) jti")
    (auto simp: TRL_RevokeToken_def validateTTL_def Let_def)

lemma TRL_evict_new:
  "kv_get (trl_revoked t) jti = None \<Longrightarrow> jti \<notin> fst ` set (trl_revoked (TRL_evictIfNeeded t n))"
  using TRL_evict_get[of t n jti] by (metis map_of_eq_None_iff not_None_eq)

lemma trl_ok_RevokeToken:
  assumes "trl_ok t" and "TRL_RevokeToken now t jti ttl = (t', e)"
  shows "trl_ok t'" "trl_maxSize t' = trl_maxSize t"
    "0 < trl_maxSize t \<Longrightarrow> length (trl_revoked t) \<le> trl_maxSize t \<Longrightarrow>
     length (trl_revoked t') \<le> trl_maxSize t'"
proof -
  note u = TRL_evict_ok[OF assms(1), of "Suc 0"]
  from assms(2) show "trl_ok t'"
  proof (cases rule: TRL_RevokeToken_cases)
    case (listed x)
    with assms(1) kv_get_key[OF listed(3)] show ?thesis
      by (simp add: trl_ok_def kv_simps insert_absorb)
  next
    case new
    with u(1) TRL_evict_new[OF new(3), of "Suc 0"] show ?thesis
      by (simp add: trl_ok_def kv_simps)
  qed (use assms(1) in simp)
  from assms(2) show "trl_maxSize t' = trl_maxSize t"
    by (cases rule: TRL_RevokeToken_cases) (simp_all add: u(2))
  show "length (trl_revoked t') \<le> trl_maxSize t'"
    if "0 < trl_maxSize t" "length (trl_revoked t) \<le> trl_maxSize t"
    using assms(2)
  proof (cases rule: TRL_RevokeToken_cases)
    case (listed x)
    with that kv_get_key[OF listed(3)] show ?thesis by (simp add: length_kv_put)
  next
    case new
    with that u(2,3) show ?thesis by (simp add: length_kv_put)
  qed (use that in simp)
qed

lemma trl_ok_cleanup_tick:
  assumes "trl_ok t"
  shows "trl_ok (TRL_cleanup_tick now t)"
    "length (trl_revoked (TRL_cleanup_tick now t)) \<le> length (trl_revoked t)"
    "trl_maxSize (TRL_cleanup_tick now t) = trl_maxSize t"
proof -
  let ?r = "kv_delete_where (\<lambda>expiry. now > expiry) (trl_revoked t)"
  have keys: "fst ` set ?r \<subseteq> set (trl_order t)"
    using assms by (auto simp: trl_ok_def kv_delete_where_def)
  have "set (filter (\<lambda>jti. kv_get ?r jti \<noteq> None) (trl_order t)) = fst ` set ?r"
    using keys by (force simp: map_of_eq_None_iff)
  moreover have "?r = []" if "trl_order t = []"
    using keys that by simp
  moreover have "kv_ok ?r" "distinct (trl_order t)" using assms by (simp_all add: trl_ok_def)
  ultimately show "trl_ok (TRL_cleanup_tick now t)"
    by (simp add: TRL_cleanup_tick_def TRL_compactOrder_def trl_ok_def)
  show "length (trl_revoked (TRL_cleanup_tick now t)) \<le> length (trl_revoked t)"
    by (simp add: TRL_cleanup_tick_def TRL_compactOrder_def kv_delete_where_def)
  show "trl_maxSize (TRL_cleanup_tick now t) = trl_maxSize t"
    by (simp add: TRL_cleanup_tick_def TRL_compactOrder_def)
qed

text \<open>What a batch does to the tokens it names: those on the list get the new expiry, the others are
  new and follow at the end of the eviction order.\<close>

lemma split_jtis_eq:
  assumes "split_jtis expiry r jtis = (r', new)"
  shows "new = filter (\<lambda>j. kv_get r j = None) jtis"
    and "kv_get r' k = (if k \<in> set jtis \<and> kv_get r k \<noteq> None then Some expiry else kv_get r k)"
    and "fst ` set r' = fst ` set r" and "kv_ok r \<Longrightarrow> kv_ok r'"
proof -
  have "new = filter (\<lambda>j. kv_get r j = None) jtis \<and>
    (\<forall>k. kv_get r' k = (if k \<in> set jtis \<and> kv_get r k \<noteq> None then Some expiry else kv_get r k)) \<and>
    fst ` set r' = fst ` set r \<and> (kv_ok r \<longrightarrow> kv_ok r')"
    using assms
  proof (induction expiry r jtis arbitrary: r' new rule: split_jtis.induct)
    case (2 expiry r jti jtis)
    show ?case
    proof (cases "kv_get r jti")
      case None
      with 2(1)[OF None] 2(3) show ?thesis by (auto split: prod.splits)
    next
      case (Some x)
      have keys: "kv_get (kv_put r jti expiry) j = None \<longleftrightarrow> kv_get r j = None" for j using Some by (simp add: kv_simps)
      have "fst ` set (kv_put r jti expiry) = fst ` set r" using kv_get_key[OF Some] by (simp add: kv_simps insert_absorb)
      with 2(2)[OF Some, of r' new] 2(3) Some show ?thesis by (auto simp: keys) (auto simp: kv_simps)
    qed
  qed simp
  then show "new = filter (\<lambda>j. kv_get r j = None) jtis"
    and "kv_get r' k = (if k \<in> set jtis \<and> kv_get r k \<noteq> None then Some expiry else kv_get r k)"
    and "fst ` set r' = fst ` set r" and "kv_ok r \<Longrightarrow> kv_ok r'" by blast+
qed

lemma foldl_put:
  "kv_get (foldl (\<lambda>m j. kv_put m j expiry) r js) k = (if k \<in> set js then Some expiry else kv_get r k)"
  "fst ` set (foldl (\<lambda>m j. kv_put m j expiry) r js) = fst ` set r \<union> set js"
  "kv_ok r \<Longrightarrow> kv_ok (foldl (\<lambda>m j. kv_put m j expiry) r js)"
  by (induction js arbitrary: r) (auto simp: kv_simps)

lemma TRL_RevokeSessionTokens_cases:
  assumes "TRL_RevokeSessionTokens now t jtis ttl = (t', e)" "trl_ok t"
  obtains (bad_ttl) "ttl \<le> 0" "t' = t"
  | (batch) t1 t2 new where "0 < ttl" "trl_ok t1" "trl_maxSize t1 = trl_maxSize t" "trl_order t1 = trl_order t"
      "\<And>k. kv_get (trl_revoked t1) k = (if k \<in> set jtis \<and> kv_get (trl_revoked t) k \<noteq> None then Some (now + ttl) else kv_get (trl_revoked t) k)"
      "new = filter (\<lambda>j. kv_get (trl_revoked t) j = None) jtis" "t2 = TRL_evictIfNeeded t1 (length new)"
      "t' = t2\<lparr> trl_revoked := foldl (\<lambda>m j. kv_put m j (now + ttl)) (trl_revoked t2) new, trl_order := trl_order t2 @ new \<rparr>"
proof (cases "ttl \<le> 0")
  case True
  then show ?thesis using assms(1) bad_ttl by (simp add: TRL_RevokeSessionTokens_def validateTTL_def)
next
  case False
  obtain r new where sp: "split_jtis (now + ttl) (trl_revoked t) jtis = (r, new)" by fastforce
  note q = split_jtis_eq[OF sp]
  have "t' = (TRL_evictIfNeeded (t\<lparr> trl_revoked := r \<rparr>) (length new))
      \<lparr> trl_revoked := foldl (\<lambda>m j. kv_put m j (now + ttl)) (trl_revoked (TRL_evictIfNeeded (t\<lparr> trl_revoked := r \<rparr>) (length new))) new,
        trl_order := trl_order (TRL_evictIfNeeded (t\<lparr> trl_revoked := r \<rparr>) (length new)) @ new \<rparr>"
    using assms(1) False sp by (auto simp: TRL_RevokeSessionTokens_def validateTTL_def Let_def)
  then show ?thesis
    by (intro batch[of "t\<lparr> trl_revoked := r \<rparr>" new]) (use assms(2) False q in \<open>simp_all add: trl_ok_def\<close>)
qed

lemma trl_ok_RevokeSessionTokens:
  assumes "trl_ok t" "distinct jtis" "TRL_RevokeSessionTokens now t jtis ttl = (t', e)"
  shows "trl_ok t'" "trl_maxSize t' = trl_maxSize t"
proof -
  have "trl_ok t' \<and> trl_maxSize t' = trl_maxSize t"
    using assms(3,1)
  proof (cases rule: TRL_RevokeSessionTokens_cases)
    case (batch t1 t2 new)
    note u = TRL_evict_ok[OF batch(2), of "length new"]
    have "j \<notin> fst ` set (trl_revoked t2)" if "j \<in> set new" for j
      using that batch(5,6) unfolding batch(7) by (intro TRL_evict_new) auto
    moreover have "distinct new" using assms(2) batch(6) by simp
    moreover have "trl_ok t2" using u(1) batch(7) by simp
    ultimately show ?thesis using u(2) batch(3,7,8) by (auto simp: trl_ok_def foldl_put)
  qed (use assms(1) in simp)
  then show "trl_ok t'" "trl_maxSize t' = trl_maxSize t" by blast+
qed

text \<open>
  A run of the list: revocations of single tokens, revocations of batches, and ticks of the cleanup
  goroutine, in any order.
\<close>

datatype trl_op = TrlRevoke time string duration | TrlRevokeMany time "string list" duration | TrlTick time

fun trl_step :: "InMemoryTRL \<Rightarrow> trl_op \<Rightarrow> InMemoryTRL" where
  "trl_step t (TrlRevoke now jti ttl) = fst (TRL_RevokeToken now t jti ttl)"
| "trl_step t (TrlRevokeMany now jtis ttl) = fst (TRL_RevokeSessionTokens now t jtis ttl)"
| "trl_step t (TrlTick now) = TRL_cleanup_tick now t"

definition trl_run :: "InMemoryTRL \<Rightarrow> trl_op list \<Rightarrow> InMemoryTRL" where
  "trl_run = foldl trl_step"

text \<open>How many other tokens an operation may put on the list.\<close>

fun trl_op_adds :: "string \<Rightarrow> trl_op \<Rightarrow> nat" where
  "trl_op_adds jti (TrlRevoke _ j _) = (if j = jti then 0 else 1)"
| "trl_op_adds jti (TrlRevokeMany _ jtis _) = length (filter (\<lambda>j. j \<noteq> jti) jtis)"
| "trl_op_adds jti (TrlTick _) = 0"

text \<open>The end of the revocation of a token: each time the token is revoked again its time to live starts anew.\<close>

fun expiry_after :: "string \<Rightarrow> time \<Rightarrow> trl_op \<Rightarrow> time" where
  "expiry_after jti expiry (TrlRevoke now j ttl) = (if j = jti \<and> 0 < ttl then now + ttl else expiry)"
| "expiry_after jti expiry (TrlRevokeMany now jtis ttl) = (if jti \<in> set jtis \<and> 0 < ttl then now + ttl else expiry)"
| "expiry_after jti expiry (TrlTick now) = expiry"

text \<open>Runs in which the revocation does not end: no tick comes after its end; a batch names no token twice.\<close>

fun trl_op_within :: "time \<Rightarrow> trl_op \<Rightarrow> bool" where
  "trl_op_within expiry (TrlRevoke _ _ _) = True"
| "trl_op_within expiry (TrlRevokeMany _ jtis _) = distinct jtis"
| "trl_op_within expiry (TrlTick now) = (now \<le> expiry)"

fun trl_run_within :: "string \<Rightarrow> time \<Rightarrow> trl_op list \<Rightarrow> bool" where
  "trl_run_within jti expiry [] = True"
| "trl_run_within jti expiry (p # ps) = (trl_op_within expiry p \<and> trl_run_within jti (expiry_after jti expiry p) ps)"

lemma trl_step_ok:
  assumes "trl_ok t" "trl_op_within expiry p"
  shows "trl_ok (trl_step t p)" "trl_maxSize (trl_step t p) = trl_maxSize t"
proof -
  have "trl_ok (trl_step t p) \<and> trl_maxSize (trl_step t p) = trl_maxSize t"
  proof (cases p)
    case (TrlRevoke now jti ttl)
    with trl_ok_RevokeToken[OF assms(1), of now jti ttl] show ?thesis
      by (metis prod.collapse trl_step.simps(1))
  next
    case (TrlRevokeMany now jtis ttl)
    with trl_ok_RevokeSessionTokens[OF assms(1) _ prod.collapse[symmetric], of jtis now ttl] assms(2) show ?thesis by simp
  next
    case (TrlTick now)
    with trl_ok_cleanup_tick[OF assms(1), of now] show ?thesis by auto
  qed
  then show "trl_ok (trl_step t p)" "trl_maxSize (trl_step t p) = trl_maxSize t" by auto
qed

text \<open>
  A token with at most \<open>k\<close> younger ones behind it in the eviction order.
\<close>

definition trl_holds :: "string \<Rightarrow> time \<Rightarrow> nat \<Rightarrow> InMemoryTRL \<Rightarrow> bool" where
  "trl_holds jti expiry k t =
     (trl_ok t \<and> kv_get (trl_revoked t) jti = Some expiry \<and>
      (\<exists>older younger. trl_order t = older @ jti # younger \<and> length younger \<le> k))"

lemma evict_loop_keeps:
  "kv_ok r \<Longrightarrow> distinct (older @ jti # younger) \<Longrightarrow> set (older @ jti # younger) = fst ` set r \<Longrightarrow>
   length younger + 1 + n \<le> m \<Longrightarrow>
   \<exists>r' older'. evict_loop m n r (older @ jti # younger) = (r', older' @ jti # younger) \<and>
               kv_get r' jti = kv_get r jti"
proof (induction older arbitrary: r)
  case Nil
  then have "length r = 1 + length younger"
    by (metis Suc_eq_plus1_left distinct_card length_Cons length_map list.set_map self_append_conv2)
  with Nil show ?case by (intro exI[of _ r] exI[of _ "[]"]) simp
next
  case (Cons x older)
  show ?case
  proof (cases "length r + n > m")
    case True
    from Cons.prems have "fst ` set r = insert x (set (older @ jti # younger))"
      "x \<notin> set (older @ jti # younger)" by simp_all
    then have "set (older @ jti # younger) = fst ` set (kv_del r x)" unfolding kv_simps by auto
    from Cons.IH[OF _ _ this] Cons.prems True show ?thesis by (auto simp: kv_simps)
  next
    case False
    then show ?thesis by (intro exI[of _ r] exI[of _ "x # older"]) simp
  qed
qed

lemma TRL_evict_keeps:
  assumes "trl_holds jti expiry k t" and "trl_maxSize t = 0 \<or> k + 1 + n \<le> trl_maxSize t"
  shows "trl_holds jti expiry k (TRL_evictIfNeeded t n)"
proof (cases "trl_maxSize t = 0")
  case True
  with assms(1) show ?thesis by (simp add: TRL_evictIfNeeded_def)
next
  case False
  from assms(1) obtain older younger where o: "trl_order t = older @ jti # younger"
    "length younger \<le> k" "trl_ok t" "kv_get (trl_revoked t) jti = Some expiry"
    by (auto simp: trl_holds_def)
  with False assms(2) evict_loop_keeps[of "trl_revoked t" older jti younger n "trl_maxSize t"]
  obtain r' older' where e: "evict_loop (trl_maxSize t) n (trl_revoked t) (trl_order t)
      = (r', older' @ jti # younger)" "kv_get r' jti = Some expiry"
    by (auto simp: trl_ok_def)
  with False o(2) TRL_evict_ok(1)[OF o(3), of n] show ?thesis
    by (auto simp: trl_holds_def TRL_evictIfNeeded_def)
qed

lemma trl_batch_keeps:
  assumes h: "trl_holds jti expiry k t" and d: "distinct jtis"
    and room: "trl_maxSize t = 0 \<or> k + 1 + trl_op_adds jti (TrlRevokeMany now jtis ttl) \<le> trl_maxSize t"
  shows "trl_holds jti (expiry_after jti expiry (TrlRevokeMany now jtis ttl)) (k + trl_op_adds jti (TrlRevokeMany now jtis ttl))
    (trl_step t (TrlRevokeMany now jtis ttl))"
proof -
  have ok: "trl_ok t" using h by (simp add: trl_holds_def)
  obtain t' e where t': "TRL_RevokeSessionTokens now t jtis ttl = (t', e)" by fastforce
  note ok' = trl_ok_RevokeSessionTokens(1)[OF ok d t']
  from t' ok show ?thesis
  proof (cases rule: TRL_RevokeSessionTokens_cases)
    case bad_ttl
    then show ?thesis using h t' by (fastforce simp: trl_holds_def)
  next
    case (batch t1 t2 new)
    let ?x = "if jti \<in> set jtis then now + ttl else expiry"
    have listed: "jti \<notin> set new" using h batch(6) by (auto simp: trl_holds_def)
    then have "set new \<subseteq> set (filter (\<lambda>j. j \<noteq> jti) jtis)" using batch(6) by auto
    then have n: "length new \<le> length (filter (\<lambda>j. j \<noteq> jti) jtis)"
      using d batch(6) by (metis card_mono distinct_card distinct_filter finite_set)
    have "trl_holds jti ?x k t1" using h batch(2,4,5) by (auto simp: trl_holds_def)
    then have "trl_holds jti ?x k t2" unfolding batch(7) by (rule TRL_evict_keeps) (use room n batch(3) in auto)
    then show ?thesis using ok' listed n batch(1) t' unfolding batch(8) by (fastforce simp: trl_holds_def foldl_put)
  qed
qed

lemma trl_step_keeps:
  assumes h: "trl_holds jti expiry k t" and p: "trl_op_within expiry p"
    and room: "trl_maxSize t = 0 \<or> k + 1 + trl_op_adds jti p \<le> trl_maxSize t"
  shows "trl_holds jti (expiry_after jti expiry p) (k + trl_op_adds jti p) (trl_step t p)"
proof -
  have ok: "trl_ok t" using h by (simp add: trl_holds_def)
  note okp = trl_step_ok(1)[OF ok p]
  show ?thesis
  proof (cases p)
    case (TrlRevoke now j ttl)
    obtain t' e where t': "TRL_RevokeToken now t j ttl = (t', e)" by fastforce
    then show ?thesis
    proof (cases rule: TRL_RevokeToken_cases)
      case new
      have "j \<noteq> jti" using new(3) h by (auto simp: trl_holds_def)
      with TRL_evict_keeps[OF h, of 1] room TrlRevoke t' new okp show ?thesis
        by (fastforce simp: trl_holds_def kv_simps)
    qed (use h TrlRevoke t' okp in \<open>fastforce simp: trl_holds_def kv_simps\<close>)+
  next
    case (TrlRevokeMany now jtis ttl)
    then show ?thesis using trl_batch_keeps[OF h] p room by simp
  next
    case (TrlTick now)
    with h p okp show ?thesis
      by (fastforce simp: trl_holds_def TRL_cleanup_tick_def TRL_compactOrder_def kv_simps trl_ok_def
          intro: le_trans[OF length_filter_le])
  qed
qed

lemma trl_run_keeps:
  assumes "trl_holds jti expiry k t" and "trl_run_within jti expiry ops"
    and "trl_maxSize t = 0 \<or> k + sum_list (map (trl_op_adds jti) ops) < trl_maxSize t"
  shows "\<exists>k'. trl_holds jti (foldl (expiry_after jti) expiry ops) k' (trl_run t ops)"
  using assms
proof (induction ops arbitrary: t k expiry)
  case (Cons p ops)
  have ok: "trl_ok t" using Cons.prems(1) by (simp add: trl_holds_def)
  have "trl_holds jti (expiry_after jti expiry p) (k + trl_op_adds jti p) (trl_step t p)"
    using Cons.prems by (intro trl_step_keeps) auto
  from Cons.IH[OF this] Cons.prems(2,3) trl_step_ok(2)[OF ok, of expiry p]
  show ?case by (auto simp: trl_run_def)
qed (auto simp: trl_run_def)

lemma trl_holds_revoked:
  "trl_holds jti expiry k t \<Longrightarrow> now \<le> expiry \<Longrightarrow> TRL_IsRevoked now t jti"
  by (simp add: trl_holds_def TRL_IsRevoked_def)

section \<open>Properties\<close>

text \<open>\<^bold>\<open>C21\<close> A token newly put on the revocation list with a positive time to live is reported
  revoked at every time up to the end of its revocation, through any sequence of revocations of single
  tokens, of the same token again (each of which lets its time to live start anew), of batches that name no
  token twice, and of cleanup ticks before that end, as long as these operations revoke fewer than
  \<^verbatim>\<open>maxSize\<close> other tokens (first-in first-out eviction) or the list is unlimited.\<close>

theorem revoked_token_stays_revoked:
  assumes "trl_ok t" and "0 < ttl" and "kv_get (trl_revoked t) jti = None"
    and "trl_maxSize t = 0 \<or> sum_list (map (trl_op_adds jti) ops) < trl_maxSize t"
    and "trl_run_within jti (now + ttl) ops"
    and "later \<le> foldl (expiry_after jti) (now + ttl) ops"
  shows "TRL_IsRevoked later (trl_run (fst (TRL_RevokeToken now t jti ttl)) ops) jti"
proof -
  obtain t' e where t': "TRL_RevokeToken now t jti ttl = (t', e)" by fastforce
  note ok = trl_ok_RevokeToken(1,2)[OF assms(1) t']
  from t' have "trl_holds jti (now + ttl) 0 t'"
    by (cases rule: TRL_RevokeToken_cases) (use assms ok in \<open>auto simp: trl_holds_def kv_simps\<close>)
  from trl_run_keeps[OF this assms(5)] assms(4,6) ok(2) t' show ?thesis
    by (auto intro: trl_holds_revoked)
qed

theorem revoked_token_stays_revoked_witness:
  "TRL_IsRevoked 30
     (trl_run (fst (TRL_RevokeToken 10 (NewInMemoryTRL (Some 3)) ''jti-a'' 15))
        [TrlRevoke 11 ''jti-b'' 100, TrlTick 19, TrlRevokeMany 20 [''jti-a'', ''jti-c''] 12, TrlTick 31]) ''jti-a''"
  by (rule revoked_token_stays_revoked) (simp_all add: NewInMemoryTRL_def trl_ok_def)

text \<open>Every state of a bounded revocation list that is reached by revocations of single tokens and ticks
  holds at most \<^verbatim>\<open>maxSize\<close> entries, and its eviction order lists exactly the entries of its map, each
  once.\<close>

lemma trl_bounded:
  assumes "0 < n" "\<forall>p \<in> set ops. \<not> (\<exists>now jtis ttl. p = TrlRevokeMany now jtis ttl)"
  shows "length (trl_revoked (trl_run (NewInMemoryTRL (Some n)) ops)) \<le> n \<and>
         trl_ok (trl_run (NewInMemoryTRL (Some n)) ops)"
proof -
  have step: "trl_ok (trl_step t p) \<and> trl_maxSize (trl_step t p) = n \<and> length (trl_revoked (trl_step t p)) \<le> n"
    if "trl_ok t" "trl_maxSize t = n" "length (trl_revoked t) \<le> n" "p \<in> set ops" for t p
  proof (cases p)
    case (TrlRevoke now jti ttl)
    with trl_ok_RevokeToken[OF that(1) prod.collapse[symmetric], of now jti ttl] that assms(1) show ?thesis by simp
  next
    case (TrlTick now)
    with trl_ok_cleanup_tick[OF that(1), of now] that show ?thesis by auto
  qed (use assms(2) that(4) in auto)
  have "set ps \<subseteq> set ops \<Longrightarrow> trl_ok t \<and> trl_maxSize t = n \<and> length (trl_revoked t) \<le> n \<Longrightarrow>
        trl_ok (foldl trl_step t ps) \<and> length (trl_revoked (foldl trl_step t ps)) \<le> n" for t ps
    by (induction ps arbitrary: t) (simp_all add: step)
  from this[of ops "NewInMemoryTRL (Some n)"] show ?thesis
    by (simp add: trl_run_def NewInMemoryTRL_def trl_ok_def)
qed

text \<open>The batch operation is not bounded: it makes room by evicting, but it adds all of its new
  tokens even when they are more than the list may hold.\<close>

lemma RevokeSessionTokens_exceeds_maxSize:
  "length (trl_revoked (fst (TRL_RevokeSessionTokens 0 (NewInMemoryTRL (Some 1)) [''a'', ''b''] 5))) = 2"
  by (simp add: TRL_RevokeSessionTokens_def NewInMemoryTRL_def validateTTL_def TRL_evictIfNeeded_def)

end
