(* ===== verification/Auth_Requests.thy ===== *)
theory Auth_Requests
  imports Auth_Models
begin

text \<open>
  The request models of the authentication endpoints (\<^verbatim>\<open>internal/auth/models/requests.go\<close>,
  \<^verbatim>\<open>responses.go\<close>), the email helpers (\<^verbatim>\<open>internal/auth/email\<close>) and the device
  helpers (\<^verbatim>\<open>internal/auth/device\<close>).

  Three things are parameters: \<open>uni\<close>, the Unicode case tables used on text that is not ASCII;
  \<open>url_Parse\<close>, the URL parser; and the user-agent parser and SHA-256, which the repository takes
  from libraries.
\<close>

section \<open>Email\<close>

text \<open>\<^verbatim>\<open>strings.Split(s, sep)\<close> for a separator of one byte.\<close>

fun Split :: "char \<Rightarrow> string \<Rightarrow> string list" where
  "Split c [] = [[]]"
| "Split c (x # xs) =
     (if x = c then [] # Split c xs
      else case Split c xs of [] \<Rightarrow> [[x]] | p # ps \<Rightarrow> (x # p) # ps)"

definition IsValidEmail :: "string \<Rightarrow> bool" where
  "IsValidEmail email =
     (if email = [] then False
      else let parts = Split (CHR ''@'') email in
        if length parts \<noteq> 2 then False
        else if parts ! 0 = [] \<or> parts ! 1 = [] then False
        else if \<not> str_contains (parts ! 1) ''.'' then False
        else True)"

text \<open>\<^verbatim>\<open>strings.FieldsFunc\<close> for a predicate on ASCII separators.\<close>

definition FieldsFunc :: "(char \<Rightarrow> bool) \<Rightarrow> string \<Rightarrow> string list" where
  "FieldsFunc sep s = filter (\<lambda>p. p \<noteq> [])
     (Split (CHR ''.'') (map (\<lambda>c. if sep c then CHR ''.'' else c) s))"

definition ascii_upper :: "char \<Rightarrow> char" where
  "ascii_upper c = (let n = (of_char c :: nat) in if 97 \<le> n \<and> n \<le> 122 then char_of (n - 32) else c)"

definition capitalize :: "(string \<Rightarrow> string) \<Rightarrow> string \<Rightarrow> string" where
  "capitalize uni s =
     (case s of [] \<Rightarrow> s
      | c # cs \<Rightarrow> if is_ascii s then ascii_upper c # cs else uni s)"

definition DeriveNameFromEmail :: "(string \<Rightarrow> string) \<Rightarrow> string \<Rightarrow> string \<times> string" where
  "DeriveNameFromEmail uni email =
     (let before = takeWhile (\<lambda>c. c \<noteq> CHR ''@'') email;
          localPart = (if CHR ''@'' \<in> set email \<and> before \<noteq> [] then before else email);
          parts = FieldsFunc (\<lambda>c. c = CHR ''.'' \<or> c = CHR ''_'' \<or> c = CHR ''-'' \<or> c = CHR ''+'') localPart
      in if length parts = 0 then (''User'', ''User'')
         else (capitalize uni (parts ! 0),
               if length parts > 1 then capitalize uni (parts ! (length parts - 1)) else ''User''))"

section \<open>URLs\<close>

text \<open>
  What the code reads of a parsed \<^verbatim>\<open>url.URL\<close>: its scheme, its host, its text, and its
  text once query parameters are set.
\<close>

record URL =
  url_Scheme :: string
  url_Host :: string
  url_String :: string
  url_WithQuery :: "(string \<times> string) list \<Rightarrow> string"

section \<open>Authorization requests\<close>

record AuthorizationRequest =
  areq_Email :: string
  areq_ClientID :: string
  areq_Scopes :: "string list"
  areq_RedirectURI :: string
  areq_State :: string

definition AuthorizationRequest_Normalize ::
  "(string \<Rightarrow> string) \<Rightarrow> AuthorizationRequest \<Rightarrow> AuthorizationRequest" where
  "AuthorizationRequest_Normalize uni r =
     r\<lparr> areq_Email := TrimSpace (ToLower uni (areq_Email r)),
        areq_ClientID := TrimSpace (areq_ClientID r),
        areq_RedirectURI := TrimSpace (areq_RedirectURI r),
        areq_State := TrimSpace (areq_State r),
        areq_Scopes :=
          DedupeAndTrim (if length (areq_Scopes r) = 0 then [ScopeOpenID] else areq_Scopes r) \<rparr>"

definition too_long :: "string \<Rightarrow> nat \<Rightarrow> go_error" where
  "too_long field n =
     dErrors_New CodeValidation (field @ '' must be '' @ itoa n @ '' characters or less'')"

definition AuthorizationRequest_Validate ::
  "(string \<Rightarrow> URL option) \<Rightarrow> AuthorizationRequest \<Rightarrow> go_error option" where
  "AuthorizationRequest_Validate url_Parse r =
     (if length (areq_Email r) > MaxEmailLength then Some (too_long ''email'' MaxEmailLength)
      else if length (areq_ClientID r) > MaxClientIDLength
      then Some (too_long ''client_id'' MaxClientIDLength)
      else if length (areq_RedirectURI r) > MaxRedirectURILength
      then Some (too_long ''redirect_uri'' MaxRedirectURILength)
      else if length (areq_State r) > MaxStateLength then Some (too_long ''state'' MaxStateLength)
      else if length (areq_Scopes r) > MaxScopes
      then Some (dErrors_New CodeValidation (''too many scopes: max '' @ itoa MaxScopes @ '' allowed''))
      else if list_ex (\<lambda>s. length s > MaxScopeLength) (areq_Scopes r)
      then Some (dErrors_New CodeValidation (''scope exceeds max length of '' @ itoa MaxScopeLength))
      else if areq_Email r = [] then Some (dErrors_New CodeValidation ''email is required'')
      else if areq_ClientID r = [] then Some (dErrors_New CodeValidation ''client_id is required'')
      else if length (areq_ClientID r) < 3
      then Some (dErrors_New CodeValidation ''client_id must be at least 3 characters'')
      else if areq_RedirectURI r = []
      then Some (dErrors_New CodeValidation ''redirect_uri is required'')
      else if \<not> IsValidEmail (areq_Email r)
      then Some (dErrors_New CodeValidation ''email must be valid'')
      else if (case url_Parse (areq_RedirectURI r) of
                 None \<Rightarrow> True | Some u \<Rightarrow> url_Scheme u = [] \<or> url_Host u = [])
      then Some (dErrors_New CodeValidation ''redirect_uri must be a valid URL'')
      else if length (areq_Scopes r) > 0 \<and> [] \<in> set (areq_Scopes r)
      then Some (dErrors_New CodeValidation ''scopes cannot contain empty strings'')
      else None)"

section \<open>Token requests\<close>

record TokenRequest =
  treq_GrantType :: string
  treq_ClientID :: string
  treq_Code :: string
  treq_RedirectURI :: string
  treq_RefreshToken :: string

definition TokenRequest_Normalize :: "TokenRequest \<Rightarrow> TokenRequest" where
  "TokenRequest_Normalize r =
     r\<lparr> treq_GrantType := TrimSpace (treq_GrantType r),
        treq_ClientID := TrimSpace (treq_ClientID r),
        treq_Code := TrimSpace (treq_Code r),
        treq_RedirectURI := TrimSpace (treq_RedirectURI r),
        treq_RefreshToken := TrimSpace (treq_RefreshToken r) \<rparr>"

abbreviation GrantAuthorizationCode :: string where
  "GrantAuthorizationCode \<equiv> GrantType_String GrantTypeAuthorizationCode"

abbreviation GrantRefreshToken :: string where
  "GrantRefreshToken \<equiv> GrantType_String GrantTypeRefreshToken"

definition TokenRequest_Validate :: "TokenRequest \<Rightarrow> go_error option" where
  "TokenRequest_Validate r =
     (if length (treq_ClientID r) > MaxClientIDLength
      then Some (too_long ''client_id'' MaxClientIDLength)
      else if length (treq_Code r) > MaxCodeLength then Some (too_long ''code'' MaxCodeLength)
      else if length (treq_RedirectURI r) > MaxRedirectURILength
      then Some (too_long ''redirect_uri'' MaxRedirectURILength)
      else if length (treq_RefreshToken r) > MaxRefreshTokenLength
      then Some (too_long ''refresh_token'' MaxRefreshTokenLength)
      else if treq_GrantType r = [] then Some (dErrors_New CodeValidation ''grant_type is required'')
      else if treq_ClientID r = [] then Some (dErrors_New CodeValidation ''client_id is required'')
      else if treq_GrantType r \<noteq> GrantAuthorizationCode \<and> treq_GrantType r \<noteq> GrantRefreshToken
      then Some (dErrors_New CodeBadRequest ''unsupported grant_type'')
      else if treq_GrantType r = GrantAuthorizationCode then
        (if treq_Code r = []
         then Some (dErrors_New CodeValidation ''code is required for authorization_code grant'')
         else if treq_RedirectURI r = []
         then Some (dErrors_New CodeValidation ''redirect_uri is required'')
         else None)
      else if treq_GrantType r = GrantRefreshToken then
        (if treq_RefreshToken r = []
         then Some (dErrors_New CodeValidation ''refresh_token is required for refresh_token grant'')
         else None)
      else None)"

record RevokeTokenRequest =
  rreq_Token :: string
  rreq_ClientID :: string
  rreq_TokenTypeHint :: string

definition RevokeTokenRequest_Validate :: "RevokeTokenRequest \<Rightarrow> go_error option" where
  "RevokeTokenRequest_Validate r =
     (if rreq_Token r = [] then Some (dErrors_New CodeValidation ''token is required'')
      else if rreq_TokenTypeHint r \<noteq> [] \<and>
              rreq_TokenTypeHint r \<notin> {TokenTypeAccess, TokenTypeRefresh}
      then Some (dErrors_New CodeValidation
             ''token_type_hint must be access_token or refresh_token if provided'')
      else None)"

definition RevokeTokenRequest_Normalize :: "RevokeTokenRequest \<Rightarrow> RevokeTokenRequest" where
  "RevokeTokenRequest_Normalize r =
     r\<lparr> rreq_Token := TrimSpace (rreq_Token r),
        rreq_ClientID := TrimSpace (rreq_ClientID r),
        rreq_TokenTypeHint := TrimSpace (rreq_TokenTypeHint r) \<rparr>"

section \<open>Responses\<close>

record AuthorizationResult =
  ares_Code :: string
  ares_RedirectURI :: string
  ares_DeviceID :: string

record TokenResult =
  tres_AccessToken :: string
  tres_IDToken :: string
  tres_RefreshToken :: string
  tres_ExpiresIn :: int
  tres_TokenType :: string
  tres_Scope :: string

record UserInfoResult =
  ui_Sub :: string
  ui_Email :: string
  ui_EmailVerified :: bool
  ui_GivenName :: string
  ui_FamilyName :: string
  ui_Name :: string

record SessionSummary =
  summary_SessionID :: string
  summary_Device :: string
  summary_Location :: string
  summary_CreatedAt :: time
  summary_LastActivity :: time
  summary_IsCurrent :: bool
  summary_Status :: string

record LogoutAllResult =
  logout_RevokedCount :: nat
  logout_FailedCount :: nat

section \<open>Devices\<close>

text \<open>What \<^verbatim>\<open>useragent.New\<close> reports of a User-Agent header.\<close>

record UserAgent =
  ua_Browser :: string
  ua_Version :: string
  ua_OS :: string
  ua_Platform :: string
  ua_Mobile :: bool

definition ComputeFingerprint ::
  "bool \<Rightarrow> (string \<Rightarrow> UserAgent) \<Rightarrow> (string \<Rightarrow> string) \<Rightarrow> (string \<Rightarrow> string) \<Rightarrow> string \<Rightarrow> string" where
  "ComputeFingerprint enabled useragent_New hexSha256 uni userAgentString =
     (if \<not> enabled \<or> userAgentString = [] then []
      else
        let ua = useragent_New userAgentString;
            version = ua_Version ua;
            majorVersion =
              (if version \<noteq> [] \<and> hd (Split (CHR ''.'') version) \<noteq> []
               then hd (Split (CHR ''.'') version) else ''unknown'');
            platform = (if ua_Mobile ua then ''mobile'' else ''desktop'');
            browser = ToLower uni (TrimSpace (ua_Browser ua));
            browser = (if browser = [] then ''unknown'' else browser);
            os = ToLower uni (TrimSpace (ua_OS ua));
            os = (if os = [] then ''unknown'' else os)
        in hexSha256 (browser @ ''|'' @ majorVersion @ ''|'' @ os @ ''|'' @ platform))"

definition CompareFingerprints :: "bool \<Rightarrow> string \<Rightarrow> string \<Rightarrow> bool \<times> bool" where
  "CompareFingerprints enabled stored current =
     (if \<not> enabled then (True, False) else (stored = current, stored \<noteq> current))"

definition ParseUserAgent :: "(string \<Rightarrow> UserAgent) \<Rightarrow> string \<Rightarrow> string" where
  "ParseUserAgent useragent_New userAgentString =
     (if userAgentString = [] then ''Unknown Device''
      else
        let ua = useragent_New userAgentString in
        if ua_Mobile ua \<and> ua_Platform ua \<noteq> []
        then TrimSpace (ua_Browser ua @ '' on '' @ ua_Platform ua)
        else
          let browser = (if ua_Browser ua = [] then ''Unknown Browser'' else ua_Browser ua);
              os = (if ua_OS ua = [] then ''Unknown OS'' else ua_OS ua)
          in TrimSpace (browser @ '' on '' @ os))"

section \<open>Lemmas\<close>

lemma TokenRequest_Normalize_idem:
  "TokenRequest_Normalize (TokenRequest_Normalize r) = TokenRequest_Normalize r"
  by (simp add: TokenRequest_Normalize_def TrimSpace_idem)

lemma Split_nonempty [simp]: "Split c s \<noteq> []"
  by (induction s) (auto split: list.splits)

lemma str_join_Cons: "xs \<noteq> [] \<Longrightarrow> str_join (x # xs) sep = x @ sep @ str_join xs sep"
  by (cases xs) auto

lemma Split_join: "str_join (Split c s) [c] = s"
proof (induction s)
  case (Cons x xs)
  show ?case
  proof (cases "x = c")
    case True
    with Cons show ?thesis by (simp add: str_join_Cons)
  next
    case False
    obtain p ps where p: "Split c xs = p # ps" by (cases "Split c xs") auto
    with Cons False show ?thesis by (cases ps) auto
  qed
qed simp

lemma Split_pieces: "p \<in> set (Split c s) \<Longrightarrow> c \<notin> set p"
proof (induction s arbitrary: p)
  case (Cons x xs)
  obtain q qs where q: "Split c xs = q # qs" by (cases "Split c xs") auto
  with Cons show ?case by (cases "x = c") auto
qed simp

lemma Split_two: "c \<notin> set a \<Longrightarrow> c \<notin> set b \<Longrightarrow> Split c (a @ c # b) = [a, b]"
proof (induction a)
  case Nil
  have "c \<notin> set b \<Longrightarrow> Split c b = [b]" for b by (induction b) auto
  with Nil show ?case by simp
qed auto

lemma str_contains_char: "str_contains s [c] \<longleftrightarrow> c \<in> set s"
  by (induction s) (auto simp: has_prefix_def starts_with_def)

text \<open>The email check accepts exactly the texts with one at sign, text on both sides of it, and a dot
  to its right.\<close>

lemma IsValidEmail_iff:
  "IsValidEmail e \<longleftrightarrow>
     (\<exists>a b. e = a @ CHR ''@'' # b \<and> a \<noteq> [] \<and> b \<noteq> [] \<and>
            CHR ''@'' \<notin> set a \<and> CHR ''@'' \<notin> set b \<and> CHR ''.'' \<in> set b)"
proof
  assume v: "IsValidEmail e"
  then have "length (Split (CHR ''@'') e) = 2" by (auto simp: IsValidEmail_def Let_def split: if_splits)
  then obtain a b where ab: "Split (CHR ''@'') e = [a, b]"
    by (auto simp: numeral_2_eq_2 length_Suc_conv)
  then have "e = a @ CHR ''@'' # b" using Split_join[of "CHR ''@''" e] by simp
  moreover from ab v have "a \<noteq> []" "b \<noteq> []" "CHR ''.'' \<in> set b"
    by (auto simp: IsValidEmail_def Let_def str_contains_char split: if_splits)
  moreover from ab have "CHR ''@'' \<notin> set a" "CHR ''@'' \<notin> set b"
    using Split_pieces[of _ "CHR ''@''" e] by auto
  ultimately show "\<exists>a b. e = a @ CHR ''@'' # b \<and> a \<noteq> [] \<and> b \<noteq> [] \<and>
      CHR ''@'' \<notin> set a \<and> CHR ''@'' \<notin> set b \<and> CHR ''.'' \<in> set b" by blast
next
  assume "\<exists>a b. e = a @ CHR ''@'' # b \<and> a \<noteq> [] \<and> b \<noteq> [] \<and>
      CHR ''@'' \<notin> set a \<and> CHR ''@'' \<notin> set b \<and> CHR ''.'' \<in> set b"
  then show "IsValidEmail e"
    by (auto simp: IsValidEmail_def Let_def Split_two str_contains_char)
qed

lemma AuthorizationRequest_Validate_ok:
  assumes "AuthorizationRequest_Validate url_Parse r = None"
  shows "IsValidEmail (areq_Email r)" "areq_RedirectURI r \<noteq> []" "areq_Email r \<noteq> []"
    "length (areq_Scopes r) \<le> MaxScopes" "[] \<notin> set (areq_Scopes r)"
    "\<exists>u. url_Parse (areq_RedirectURI r) = Some u \<and> url_Scheme u \<noteq> [] \<and> url_Host u \<noteq> []"
  using assms by (auto simp: AuthorizationRequest_Validate_def split: if_splits option.splits)

text \<open>
  The default scope is set before the blank scopes are removed, so a request whose scopes are all
  blank reaches the service without any scope.
\<close>

lemma blank_scopes_normalize_to_none:
  "areq_Scopes (AuthorizationRequest_Normalize uni (r\<lparr> areq_Scopes := ['' ''] \<rparr>)) = []"
  by (simp add: AuthorizationRequest_Normalize_def DedupeAndTrim_def Let_def) (code_simp)

end
