(* ===== verification/Auth_Service.thy ===== *)
theory Auth_Service
  imports Auth_Stores Auth_Requests
begin

text \<open>
  The authentication service, \<^verbatim>\<open>internal/auth/service\<close>: authorization, token exchange and
  refresh, revocation, logout, user info, session listing and user deletion, as functions on a state
  that holds the stores, the revocation list, the security events emitted and the counters.

  What the service gets from elsewhere is in the record \<open>auth_env\<close>: the token generator, the client
  resolver, the URL and user-agent parsers, and the random values a request draws. Log lines and
  latency observations are not part of the state.
\<close>

section \<open>State, configuration, environment\<close>

record SecurityEvent =
  sec_Subject :: string
  sec_Action :: string
  sec_Reason :: string
  sec_RequestID :: string
  sec_Severity :: string

record auth_state =
  auth_users :: user_store
  auth_sessions :: session_store
  auth_codes :: code_store
  auth_refreshTokens :: refresh_store
  auth_trl :: InMemoryTRL
  auth_audit :: "SecurityEvent list"
  auth_authFailures :: nat
  auth_usersCreated :: nat
  auth_activeSessions :: nat
  auth_tokenRequests :: nat
  auth_trlWriteFailures :: nat
  auth_refreshReuseDetections :: nat

record ResolvedClient =
  rc_ID :: ClientID
  rc_TenantID :: TenantID
  rc_OAuthClientID :: string
  rc_RedirectURIs :: "string list"
  rc_AllowedScopes :: "string list"
  rc_Active :: bool

record ResolvedTenant =
  rt_ID :: TenantID
  rt_Active :: bool

definition ResolvedClient_IsActive :: "ResolvedClient \<Rightarrow> bool" where
  "ResolvedClient_IsActive c = rc_Active c"

definition ResolvedTenant_IsActive :: "ResolvedTenant \<Rightarrow> bool" where
  "ResolvedTenant_IsActive t = rt_Active t"

record auth_config =
  cfg_SessionTTL :: duration
  cfg_TokenTTL :: duration
  cfg_RefreshTokenTTL :: duration
  cfg_AllowedRedirectSchemes :: "string list"
  cfg_DeviceBindingEnabled :: bool
  cfg_TRLFailureMode :: string

definition TRLFailureModeWarn :: string where "TRLFailureModeWarn = ''warn''"
definition TRLFailureModeFail :: string where "TRLFailureModeFail = ''fail''"

definition applyDefaults :: "auth_config \<Rightarrow> auth_config" where
  "applyDefaults c =
     \<lparr> cfg_SessionTTL = (if cfg_SessionTTL c \<le> 0 then 24 * hour else cfg_SessionTTL c),
       cfg_TokenTTL = (if cfg_TokenTTL c \<le> 0 then 15 * minute else cfg_TokenTTL c),
       cfg_RefreshTokenTTL = (if cfg_RefreshTokenTTL c \<le> 0 then 30 * 24 * hour else cfg_RefreshTokenTTL c),
       cfg_AllowedRedirectSchemes =
         (if length (cfg_AllowedRedirectSchemes c) = 0 then [''https''] else cfg_AllowedRedirectSchemes c),
       cfg_DeviceBindingEnabled = cfg_DeviceBindingEnabled c,
       cfg_TRLFailureMode = (if cfg_TRLFailureMode c = [] then TRLFailureModeWarn else cfg_TRLFailureMode c) \<rparr>"

text \<open>The claims of an access token that revocation reads: the session and the token's own
  identifier.\<close>

record AccessTokenClaims =
  claims_SessionID :: string
  claims_ID :: string

record auth_env =
  env_ResolveClient :: "string \<Rightarrow> (ResolvedClient \<times> ResolvedTenant) result"
  env_GenerateAccessTokenWithJTI ::
    "UserID \<Rightarrow> SessionID \<Rightarrow> ClientID \<Rightarrow> TenantID \<Rightarrow> string list \<Rightarrow> APIVersion \<Rightarrow> (string \<times> string) result"
  env_GenerateIDToken :: "UserID \<Rightarrow> SessionID \<Rightarrow> ClientID \<Rightarrow> TenantID \<Rightarrow> APIVersion \<Rightarrow> string result"
  env_CreateRefreshToken :: "string result"
  env_TokenType :: string
  env_ParseTokenSkipClaimsValidation :: "string \<Rightarrow> AccessTokenClaims result"
  env_uuid_Parse :: "string \<Rightarrow> uuid option"
  env_uuid_String :: "uuid \<Rightarrow> string"
  env_url_Parse :: "string \<Rightarrow> URL option"
  env_useragent_New :: "string \<Rightarrow> UserAgent"
  env_uni :: "string \<Rightarrow> string"
  env_uni_fold :: "string \<Rightarrow> string \<Rightarrow> bool"
  env_trlClock :: "string \<Rightarrow> time"
  env_newUserID :: uuid
  env_newSessionID :: uuid
  env_newCodeRecordID :: uuid
  env_newCode :: uuid
  env_newRefreshRecordID :: uuid
  env_newDeviceID :: uuid

fun UserID_String :: "auth_env \<Rightarrow> UserID \<Rightarrow> string" where
  "UserID_String env (UserID u) = env_uuid_String env u"

fun SessionID_String :: "auth_env \<Rightarrow> SessionID \<Rightarrow> string" where
  "SessionID_String env (SessionID u) = env_uuid_String env u"

section \<open>Observability\<close>

definition logAudit :: "ctx \<Rightarrow> string \<Rightarrow> string \<Rightarrow> auth_state \<Rightarrow> auth_state" where
  "logAudit c event userIDStr st =
     st\<lparr> auth_audit := auth_audit st @
          [\<lparr> sec_Subject = userIDStr, sec_Action = event, sec_Reason = [],
             sec_RequestID = ctx_RequestID c, sec_Severity = ''info'' \<rparr>] \<rparr>"

definition authFailure :: "ctx \<Rightarrow> string \<Rightarrow> string \<Rightarrow> auth_state \<Rightarrow> auth_state" where
  "authFailure c reason userIDStr st =
     st\<lparr> auth_audit := auth_audit st @
          [\<lparr> sec_Subject = userIDStr, sec_Action = ''auth_failed'', sec_Reason = reason,
             sec_RequestID = ctx_RequestID c, sec_Severity = ''warning'' \<rparr>],
         auth_authFailures := auth_authFailures st + 1 \<rparr>"

section \<open>Transactions\<close>

definition auth_RunInTx :: "ctx \<Rightarrow> (auth_state \<Rightarrow> auth_state \<times> 'r result) \<Rightarrow> auth_state \<Rightarrow> auth_state \<times> 'r result" where
  "auth_RunInTx c fn st = run_in_tx c fn st"

section \<open>Translation of errors\<close>

datatype TokenFlow = TokenFlowCode | TokenFlowRefresh

record tokenErrorMapping =
  tem_sentinel :: go_error
  tem_code :: Code
  tem_codeMsg :: string
  tem_refreshMsg :: string
  tem_logReason :: string

definition tokenErrorMappings :: "tokenErrorMapping list" where
  "tokenErrorMappings =
     [\<lparr> tem_sentinel = Sentinel ErrNotFound, tem_code = CodeInvalidGrant,
        tem_codeMsg = ''invalid authorization code'', tem_refreshMsg = ''invalid refresh token'',
        tem_logReason = ''not_found'' \<rparr>,
      \<lparr> tem_sentinel = Sentinel ErrExpired, tem_code = CodeInvalidGrant,
        tem_codeMsg = ''authorization code expired'', tem_refreshMsg = ''refresh token expired'',
        tem_logReason = ''expired'' \<rparr>,
      \<lparr> tem_sentinel = Sentinel ErrAlreadyUsed, tem_code = CodeInvalidGrant,
        tem_codeMsg = ''authorization code already used'', tem_refreshMsg = ''invalid refresh token'',
        tem_logReason = ''already_used'' \<rparr>,
      \<lparr> tem_sentinel = ErrSessionRevoked, tem_code = CodeInvalidGrant,
        tem_codeMsg = ''session has been revoked'', tem_refreshMsg = ''session has been revoked'',
        tem_logReason = ''session_revoked'' \<rparr>,
      \<lparr> tem_sentinel = Sentinel ErrInvalidState, tem_code = CodeInvalidGrant,
        tem_codeMsg = ''session not active'', tem_refreshMsg = ''session not active'',
        tem_logReason = ''invalid_state'' \<rparr>]"

definition handleTokenError :: "ctx \<Rightarrow> go_error \<Rightarrow> TokenFlow \<Rightarrow> auth_state \<Rightarrow> auth_state \<times> go_error" where
  "handleTokenError c err flow st =
     (case errors_As err of
        Some (code, msg) \<Rightarrow>
          if code = CodeUnauthorized
          then (authFailure c ''session_validation_failed'' [] st, dErrors_New CodeInvalidGrant msg)
          else (authFailure c (Code_String code) [] st, err)
      | None \<Rightarrow>
          (case find (\<lambda>m. errors_Is err (tem_sentinel m)) tokenErrorMappings of
             Some m \<Rightarrow>
               let msg = (if flow = TokenFlowRefresh then tem_refreshMsg m else tem_codeMsg m);
                   msg = (if msg = [] then error_Error err else msg)
               in (authFailure c (tem_logReason m) [] st, dErrors_Wrap err (tem_code m) msg)
           | None \<Rightarrow>
               (authFailure c ''internal_error'' [] st,
                dErrors_Wrap err CodeInternal ''token handling failed'')))"

definition handleLookupError :: "ctx \<Rightarrow> go_error \<Rightarrow> string \<Rightarrow> string \<Rightarrow> auth_state \<Rightarrow> auth_state \<times> go_error" where
  "handleLookupError c err entity userIDStr st =
     (if errors_Is err (Sentinel ErrNotFound)
      then (authFailure c (entity @ ''_not_found'') userIDStr st,
            dErrors_New CodeUnauthorized (entity @ '' not found''))
      else (authFailure c (entity @ ''_lookup_failed'') userIDStr st,
            dErrors_Wrap err CodeInternal (''failed to find '' @ entity)))"

section \<open>Device binding\<close>

datatype deviceBindingState =
  deviceStateOK | deviceStateAttached | deviceStateMissing | deviceStateMismatch

definition classifyDeviceState :: "string \<Rightarrow> string \<Rightarrow> deviceBindingState" where
  "classifyDeviceState sessionDeviceID cookieDeviceID =
     (if sessionDeviceID = [] \<and> cookieDeviceID \<noteq> [] then deviceStateAttached
      else if sessionDeviceID \<noteq> [] \<and> cookieDeviceID = [] then deviceStateMissing
      else if sessionDeviceID \<noteq> [] \<and> cookieDeviceID \<noteq> [] \<and> sessionDeviceID \<noteq> cookieDeviceID
      then deviceStateMismatch
      else deviceStateOK)"

definition applyDeviceID :: "ctx \<Rightarrow> Session \<Rightarrow> Session" where
  "applyDeviceID c session =
     (case classifyDeviceState (Session_DeviceID session) (ctx_DeviceID c) of
        deviceStateAttached \<Rightarrow> session\<lparr> Session_DeviceID := ctx_DeviceID c \<rparr>
      | _ \<Rightarrow> session)"

definition applyFingerprint :: "auth_config \<Rightarrow> ctx \<Rightarrow> Session \<Rightarrow> Session" where
  "applyFingerprint cfg c session =
     (let currentFingerprint = ctx_DeviceFingerprint c in
      if currentFingerprint = [] then session
      else if Session_DeviceFingerprintHash session = []
      then session\<lparr> Session_DeviceFingerprintHash := currentFingerprint \<rparr>
      else if snd (CompareFingerprints (cfg_DeviceBindingEnabled cfg)
                     (Session_DeviceFingerprintHash session) currentFingerprint)
      then session\<lparr> Session_DeviceFingerprintHash := currentFingerprint \<rparr>
      else session)"

definition applyDeviceBinding :: "auth_config \<Rightarrow> ctx \<Rightarrow> Session \<Rightarrow> Session" where
  "applyDeviceBinding cfg c session =
     (if \<not> cfg_DeviceBindingEnabled cfg then session
      else applyFingerprint cfg c (applyDeviceID c session))"

section \<open>Token generation and context\<close>

record tokenArtifacts =
  art_accessToken :: string
  art_accessTokenJTI :: string
  art_idToken :: string
  art_refreshToken :: string
  art_refreshRecord :: RefreshTokenRecord
  art_tokenType :: string

definition generateTokenArtifacts ::
  "auth_env \<Rightarrow> auth_config \<Rightarrow> ctx \<Rightarrow> Session \<Rightarrow> tokenArtifacts result" where
  "generateTokenArtifacts env cfg c session =
     (let apiVersion = (if APIVersion_IsNil (ctx_APIVersion c) then APIVersionV1 else ctx_APIVersion c);
          now = ctx_Now c in
      case env_GenerateAccessTokenWithJTI env (Session_UserID session) (Session_ID session)
             (Session_ClientID session) (Session_TenantID session)
             (Session_RequestedScope session) apiVersion of
        Inl e \<Rightarrow> Inl (dErrors_Wrap e CodeInternal ''failed to generate access token'')
      | Inr (accessToken, accessTokenJTI) \<Rightarrow>
          (case env_GenerateIDToken env (Session_UserID session) (Session_ID session)
                  (Session_ClientID session) (Session_TenantID session) apiVersion of
             Inl e \<Rightarrow> Inl (dErrors_Wrap e CodeInternal ''failed to generate ID token'')
           | Inr idToken \<Rightarrow>
               (case env_CreateRefreshToken env of
                  Inl e \<Rightarrow> Inl (dErrors_Wrap e CodeInternal ''failed to create refresh token'')
                | Inr refreshToken \<Rightarrow>
                    (case NewRefreshToken (env_newRefreshRecordID env) refreshToken (Session_ID session)
                            now (now + cfg_RefreshTokenTTL cfg) now of
                       Inl e \<Rightarrow> Inl (dErrors_Wrap e CodeInternal ''failed to create refresh token record'')
                     | Inr tokenRecord \<Rightarrow>
                         Inr \<lparr> art_accessToken = accessToken, art_accessTokenJTI = accessTokenJTI,
                               art_idToken = idToken, art_refreshToken = refreshToken,
                               art_refreshRecord = tokenRecord, art_tokenType = env_TokenType env \<rparr>))))"

definition buildTokenResult :: "auth_config \<Rightarrow> tokenArtifacts \<Rightarrow> string list \<Rightarrow> TokenResult" where
  "buildTokenResult cfg artifacts scope =
     \<lparr> tres_AccessToken = art_accessToken artifacts, tres_IDToken = art_idToken artifacts,
       tres_RefreshToken = art_refreshToken artifacts,
       tres_ExpiresIn = whole_seconds (cfg_TokenTTL cfg),
       tres_TokenType = art_tokenType artifacts,
       tres_Scope = str_join scope '' '' \<rparr>"

record tokenContext =
  tc_Session :: Session
  tc_Client :: ResolvedClient
  tc_Tenant :: ResolvedTenant
  tc_User :: User

definition resolveTokenContext :: "auth_env \<Rightarrow> auth_state \<Rightarrow> Session \<Rightarrow> string \<Rightarrow> tokenContext result" where
  "resolveTokenContext env st session clientID =
     (case env_ResolveClient env clientID of
        Inl e \<Rightarrow> Inl e
      | Inr (client, tenant) \<Rightarrow>
          if rc_ID client \<noteq> Session_ClientID session
          then Inl (dErrors_New CodeInvalidGrant ''client mismatch'')
          else if rt_ID tenant \<noteq> Session_TenantID session
          then Inl (dErrors_New CodeInvalidGrant ''tenant mismatch'')
          else (case UserStore_FindByID (auth_users st) (Session_UserID session) of
                  Inl e \<Rightarrow> Inl e
                | Inr user \<Rightarrow>
                    if \<not> User_IsActive user then Inl (dErrors_New CodeForbidden ''user inactive'')
                    else Inr \<lparr> tc_Session = session, tc_Client = client, tc_Tenant = tenant, tc_User = user \<rparr>))"

definition prepareTokenFlow ::
  "auth_env \<Rightarrow> auth_config \<Rightarrow> ctx \<Rightarrow> Session \<Rightarrow> string \<Rightarrow> TokenFlow \<Rightarrow> auth_state
   \<Rightarrow> auth_state \<times> (tokenContext \<times> tokenArtifacts) result" where
  "prepareTokenFlow env cfg c session clientID flow st =
     (case resolveTokenContext env st session clientID of
        Inl e \<Rightarrow> (let (st', e') = handleTokenError c e flow st in (st', Inl e'))
      | Inr tc \<Rightarrow>
          if \<not> ResolvedClient_IsActive (tc_Client tc)
          then (st, Inl (dErrors_New CodeForbidden ''client is not active''))
          else (case generateTokenArtifacts env cfg c session of
                  Inl e \<Rightarrow>
                    (let (st', e') = handleTokenError c
                           (dErrors_Wrap e CodeInternal ''failed to generate tokens'') flow st
                     in (st', Inl e'))
                | Inr artifacts \<Rightarrow> (st, Inr (tc, artifacts))))"

section \<open>The token transaction\<close>

text \<open>The mutation callback of \<^verbatim>\<open>executeTokenFlowTx\<close>.\<close>

definition advanceSession :: "ctx \<Rightarrow> bool \<Rightarrow> tokenArtifacts \<Rightarrow> Session \<Rightarrow> Session \<Rightarrow> Session" where
  "advanceSession c activateOnFirstUse artifacts deviceState sess =
     (let now = ctx_Now c;
          sess = (if activateOnFirstUse
                  then (let sess = Session_RecordActivity now sess in
                        if Session_IsPendingConsent sess then Session_ApplyActivation sess else sess)
                  else Session_RecordRefresh now sess);
          sess = Session_ApplyTokenJTI (art_accessTokenJTI artifacts) sess
      in Session_ApplyDeviceInfo (Session_DeviceID deviceState)
           (Session_DeviceFingerprintHash deviceState) sess)"

definition executeTokenFlowTx ::
  "auth_config \<Rightarrow> ctx \<Rightarrow> Session \<Rightarrow> tokenContext \<Rightarrow> bool \<Rightarrow> tokenArtifacts \<Rightarrow> auth_state
   \<Rightarrow> auth_state \<times> Session result" where
  "executeTokenFlowTx cfg c params_Session tc activateOnFirstUse artifacts st =
     (let deviceState = applyDeviceBinding cfg c params_Session;
          clientID = rc_ID (tc_Client tc);
          validate = (\<lambda>sess. Session_ValidateForAdvance sess clientID (ctx_Now c) activateOnFirstUse);
          mutate = advanceSession c activateOnFirstUse artifacts deviceState
      in case SessionStore_Execute (auth_sessions st) (Session_ID params_Session) validate mutate of
           (sessions, session, Some e) \<Rightarrow> (st\<lparr> auth_sessions := sessions \<rparr>, Inl e)
         | (sessions, session, None) \<Rightarrow>
             (case RefreshStore_Create (auth_refreshTokens st) (art_refreshRecord artifacts) of
                (tokens, Some e) \<Rightarrow>
                  (st\<lparr> auth_sessions := sessions, auth_refreshTokens := tokens \<rparr>,
                   Inl (dErrors_Wrap e CodeInternal ''failed to create refresh token''))
              | (tokens, None) \<Rightarrow>
                  (st\<lparr> auth_sessions := sessions, auth_refreshTokens := tokens \<rparr>, Inr (the session))))"

definition isAlreadyUsedError :: "go_error \<Rightarrow> bool" where
  "isAlreadyUsedError err =
     (if errors_Is err (Sentinel ErrAlreadyUsed) then True
      else case errors_As err of
             Some (_, msg) \<Rightarrow> str_contains msg ''already used''
           | None \<Rightarrow> False)"

definition revokeSessionOnReplay ::
  "auth_state \<Rightarrow> go_error \<Rightarrow> SessionID \<Rightarrow> time \<Rightarrow> auth_state \<times> go_error option" where
  "revokeSessionOnReplay st err sessionID now =
     (if \<not> isAlreadyUsedError err then (st, None)
      else case SessionStore_RevokeSessionIfActive (auth_sessions st) sessionID now of
             (sessions, Some e) \<Rightarrow>
               (st\<lparr> auth_sessions := sessions \<rparr>,
                Some (dErrors_Wrap e CodeInternal ''failed to revoke session''))
           | (sessions, None) \<Rightarrow> (st\<lparr> auth_sessions := sessions \<rparr>, None))"

section \<open>Exchange of an authorization code\<close>

definition consumeCodeWithReplayProtection ::
  "string \<Rightarrow> string \<Rightarrow> time \<Rightarrow> auth_state \<Rightarrow> auth_state \<times> AuthorizationCodeRecord result" where
  "consumeCodeWithReplayProtection code redirectURI now st =
     (case CodeStore_Execute (auth_codes st) code
             (\<lambda>rec. Code_ValidateForConsume rec redirectURI now) (fst \<circ> Code_MarkUsed) of
        (codes, codeRecord, Some e) \<Rightarrow>
          (let st = st\<lparr> auth_codes := codes \<rparr> in
           case codeRecord of
             Some rec \<Rightarrow>
               (case revokeSessionOnReplay st e (Code_SessionID rec) now of
                  (st, Some revokeErr) \<Rightarrow> (st, Inl revokeErr)
                | (st, None) \<Rightarrow> (st, Inl (ErrorfW ''consume authorization code'' e)))
           | None \<Rightarrow> (st, Inl (ErrorfW ''consume authorization code'' e)))
      | (codes, codeRecord, None) \<Rightarrow> (st\<lparr> auth_codes := codes \<rparr>, Inr (the codeRecord)))"

text \<open>
  The body of the transaction of an exchange. It takes what the reads before the transaction
  returned (\<open>session\<close>, \<open>tc\<close>, \<open>artifacts\<close>) as arguments, so that statements about it hold
  whatever other requests did between the reads and the transaction. The code also sets
  \<^verbatim>\<open>session.TenantID\<close> to the tenant's identifier there, which \<open>resolveTokenContext\<close> has
  checked to be equal.
\<close>

definition exchange_tx ::
  "auth_config \<Rightarrow> ctx \<Rightarrow> string \<Rightarrow> string \<Rightarrow> Session \<Rightarrow> tokenContext \<Rightarrow> tokenArtifacts \<Rightarrow> auth_state
   \<Rightarrow> auth_state \<times> Session result" where
  "exchange_tx cfg c code redirectURI session tc artifacts st =
     (case consumeCodeWithReplayProtection code redirectURI (ctx_Now c) st of
        (st, Inl e) \<Rightarrow> (st, Inl e)
      | (st, Inr codeRecord) \<Rightarrow>
          executeTokenFlowTx cfg c (session\<lparr> Session_TenantID := rt_ID (tc_Tenant tc) \<rparr>) tc True
            artifacts st)"

definition exchangeAuthorizationCode ::
  "auth_env \<Rightarrow> auth_config \<Rightarrow> ctx \<Rightarrow> TokenRequest \<Rightarrow> auth_state \<Rightarrow> auth_state \<times> TokenResult result" where
  "exchangeAuthorizationCode env cfg c req st =
     (case CodeStore_FindByCode (auth_codes st) (treq_Code req) of
        Inl e \<Rightarrow> (let (st, e) = handleTokenError c e TokenFlowCode st in (st, Inl e))
      | Inr code \<Rightarrow>
          (case SessionStore_FindByID (auth_sessions st) (Code_SessionID code) of
             Inl e \<Rightarrow> (let (st, e) = handleTokenError c e TokenFlowCode st in (st, Inl e))
           | Inr session \<Rightarrow>
               (case prepareTokenFlow env cfg c session (treq_ClientID req) TokenFlowCode st of
                  (st, Inl e) \<Rightarrow> (st, Inl e)
                | (st, Inr (tc, artifacts)) \<Rightarrow>
                    (case auth_RunInTx c
                            (exchange_tx cfg c (treq_Code req) (treq_RedirectURI req) session tc artifacts) st of
                       (st, Inl e) \<Rightarrow> (let (st, e) = handleTokenError c e TokenFlowCode st in (st, Inl e))
                     | (st, Inr session) \<Rightarrow>
                         (let st = logAudit c ''token_issued'' (UserID_String env (Session_UserID session)) st;
                              st = st\<lparr> auth_tokenRequests := auth_tokenRequests st + 1 \<rparr>
                          in (st, Inr (buildTokenResult cfg artifacts (Session_RequestedScope session))))))))"

section \<open>Refresh\<close>

definition consumeRefreshTokenWithReplayProtection ::
  "string \<Rightarrow> time \<Rightarrow> auth_state \<Rightarrow> auth_state \<times> RefreshTokenRecord result" where
  "consumeRefreshTokenWithReplayProtection token now st =
     (case RefreshStore_Execute (auth_refreshTokens st) token
             (\<lambda>rec. Refresh_ValidateForConsume rec now) (\<lambda>rec. fst (Refresh_MarkUsed now rec)) of
        (tokens, refreshRecord, Some e) \<Rightarrow>
          (let st = st\<lparr> auth_refreshTokens := tokens \<rparr> in
           case refreshRecord of
             Some rec \<Rightarrow>
               (case revokeSessionOnReplay st e (Refresh_SessionID rec) now of
                  (st, Some revokeErr) \<Rightarrow> (st, Inl revokeErr)
                | (st, None) \<Rightarrow>
                    (st\<lparr> auth_refreshReuseDetections := auth_refreshReuseDetections st + 1 \<rparr>,
                     Inl (ErrorfW ''consume refresh token'' e)))
           | None \<Rightarrow> (st, Inl (ErrorfW ''consume refresh token'' e)))
      | (tokens, refreshRecord, None) \<Rightarrow>
          (st\<lparr> auth_refreshTokens := tokens \<rparr>, Inr (the refreshRecord)))"

definition refresh_tx ::
  "auth_config \<Rightarrow> ctx \<Rightarrow> string \<Rightarrow> Session \<Rightarrow> tokenContext \<Rightarrow> tokenArtifacts \<Rightarrow> auth_state
   \<Rightarrow> auth_state \<times> Session result" where
  "refresh_tx cfg c token session tc artifacts st =
     (case consumeRefreshTokenWithReplayProtection token (ctx_Now c) st of
        (st, Inl e) \<Rightarrow> (st, Inl e)
      | (st, Inr refreshRecord) \<Rightarrow> executeTokenFlowTx cfg c session tc False artifacts st)"

definition refreshWithRefreshToken ::
  "auth_env \<Rightarrow> auth_config \<Rightarrow> ctx \<Rightarrow> TokenRequest \<Rightarrow> auth_state \<Rightarrow> auth_state \<times> TokenResult result" where
  "refreshWithRefreshToken env cfg c req st =
     (case RefreshStore_Find (auth_refreshTokens st) (treq_RefreshToken req) of
        Inl e \<Rightarrow> (let (st, e) = handleTokenError c e TokenFlowRefresh st in (st, Inl e))
      | Inr refreshRecord \<Rightarrow>
          (case SessionStore_FindByID (auth_sessions st) (Refresh_SessionID refreshRecord) of
             Inl e \<Rightarrow> (let (st, e) = handleTokenError c e TokenFlowRefresh st in (st, Inl e))
           | Inr session \<Rightarrow>
               (case prepareTokenFlow env cfg c session (treq_ClientID req) TokenFlowRefresh st of
                  (st, Inl e) \<Rightarrow> (st, Inl e)
                | (st, Inr (tc, artifacts)) \<Rightarrow>
                    (case auth_RunInTx c
                            (refresh_tx cfg c (treq_RefreshToken req) session tc artifacts) st of
                       (st, Inl e) \<Rightarrow> (let (st, e) = handleTokenError c e TokenFlowRefresh st in (st, Inl e))
                     | (st, Inr session) \<Rightarrow>
                         (let st = logAudit c ''token_refreshed'' (UserID_String env (Session_UserID session)) st;
                              st = st\<lparr> auth_tokenRequests := auth_tokenRequests st + 1 \<rparr>
                          in (st, Inr (buildTokenResult cfg artifacts (Session_RequestedScope session))))))))"

section \<open>The token endpoint\<close>

definition Token ::
  "auth_env \<Rightarrow> auth_config \<Rightarrow> ctx \<Rightarrow> TokenRequest option \<Rightarrow> auth_state \<Rightarrow> auth_state \<times> TokenResult result" where
  "Token env cfg c req st =
     (case req of
        None \<Rightarrow> (st, Inl (dErrors_New CodeBadRequest ''request is required''))
      | Some req \<Rightarrow>
          let req = TokenRequest_Normalize req in
          (case TokenRequest_Validate req of
             Some e \<Rightarrow> (st, Inl e)
           | None \<Rightarrow>
               if treq_GrantType req = GrantAuthorizationCode then exchangeAuthorizationCode env cfg c req st
               else if treq_GrantType req = GrantRefreshToken then refreshWithRefreshToken env cfg c req st
               else (st, Inl (dErrors_New CodeBadRequest ''unsupported grant_type''))))"

section \<open>The invariant of the state\<close>

definition auth_ok :: "auth_state \<Rightarrow> bool" where
  "auth_ok st =
     (sessions_ok (auth_sessions st) \<and> codes_ok (auth_codes st) \<and>
      refresh_ok (auth_refreshTokens st) \<and> users_ok (auth_users st) \<and> trl_ok (auth_trl st))"

text \<open>The part of the state the invariant and most properties are about.\<close>

definition auth_stores :: "auth_state \<Rightarrow> user_store \<times> session_store \<times> code_store \<times> refresh_store \<times> InMemoryTRL" where
  "auth_stores st = (auth_users st, auth_sessions st, auth_codes st, auth_refreshTokens st, auth_trl st)"

lemma auth_stores_eqD:
  assumes "auth_stores st' = auth_stores st"
  shows "auth_users st' = auth_users st" "auth_sessions st' = auth_sessions st"
    "auth_codes st' = auth_codes st" "auth_refreshTokens st' = auth_refreshTokens st"
    "auth_trl st' = auth_trl st"
  using assms by (simp_all add: auth_stores_def)

lemma auth_ok_stores: "auth_stores st' = auth_stores st \<Longrightarrow> auth_ok st' = auth_ok st"
  by (simp add: auth_ok_def auth_stores_def)

lemma auth_stores_observe [simp]:
  "auth_stores (logAudit c ev u st) = auth_stores st"
  "auth_stores (authFailure c r u st) = auth_stores st"
  "auth_stores (st\<lparr> auth_tokenRequests := n \<rparr>) = auth_stores st"
  "auth_stores (st\<lparr> auth_refreshReuseDetections := n \<rparr>) = auth_stores st"
  "auth_stores (st\<lparr> auth_usersCreated := n \<rparr>) = auth_stores st"
  "auth_stores (st\<lparr> auth_activeSessions := n \<rparr>) = auth_stores st"
  by (simp_all add: auth_stores_def logAudit_def authFailure_def)

lemma auth_stores_handleTokenError [simp]: "auth_stores (fst (handleTokenError c e f st)) = auth_stores st"
  by (auto simp: handleTokenError_def Let_def split: option.splits)

lemma auth_stores_handleLookupError [simp]: "auth_stores (fst (handleLookupError c e n u st)) = auth_stores st"
  by (auto simp: handleLookupError_def)

lemma handleTokenError_stores: "handleTokenError c e f st = (st', e') \<Longrightarrow> auth_stores st' = auth_stores st"
  by (metis auth_stores_handleTokenError fst_conv)

lemma prepareTokenFlow_stores:
  "prepareTokenFlow env cfg c s cid fl st = (st', r) \<Longrightarrow> auth_stores st' = auth_stores st"
  by (auto simp: prepareTokenFlow_def Let_def split: sum.splits if_splits prod.splits dest!: handleTokenError_stores)

section \<open>Lemmas about the token transaction\<close>

lemma advanceSession_simps [simp]:
  "Session_ID (advanceSession c a art d s) = Session_ID s"
  "Session_UserID (advanceSession c a art d s) = Session_UserID s"
  "Session_ClientID (advanceSession c a art d s) = Session_ClientID s"
  "Session_TenantID (advanceSession c a art d s) = Session_TenantID s"
  "Session_RequestedScope (advanceSession c a art d s) = Session_RequestedScope s"
  "Session_ExpiresAt (advanceSession c a art d s) = Session_ExpiresAt s"
  by (simp_all add: advanceSession_def session_ops Let_def)

lemma Session_ValidateForAdvance_None:
  "Session_ValidateForAdvance s cid t a = None \<longleftrightarrow>
   Session_ClientID s = cid \<and> t \<le> Session_ExpiresAt s \<and>
   (Session_IsActive s \<or> a \<and> Session_IsPendingConsent s)"
  by (auto simp: Session_ValidateForAdvance_def Session_CanAdvance_def session_status_defs)

text \<open>A successful advance is a sequence of steps of the session's life cycle.\<close>

lemma advanceSession_reach: "session_reach s (advanceSession c a art d s)"
proof -
  let ?r = "if a then (if Session_IsPendingConsent (Session_RecordActivity (ctx_Now c) s)
              then Session_ApplyActivation (Session_RecordActivity (ctx_Now c) s)
              else Session_RecordActivity (ctx_Now c) s)
            else Session_RecordRefresh (ctx_Now c) s"
  have "session_reach s ?r"
    using session_step.activity[of s "ctx_Now c"] session_step.refresh[of s "ctx_Now c"]
      session_step.activate[of "Session_RecordActivity (ctx_Now c) s"]
    by (auto simp: Session_CanActivate_def)
  also have "session_reach ?r (Session_ApplyTokenJTI (art_accessTokenJTI art) ?r)"
    by (blast intro: session_step.token_jti)
  also have "session_reach (Session_ApplyTokenJTI (art_accessTokenJTI art) ?r) (advanceSession c a art d s)"
    by (auto simp: advanceSession_def Let_def intro: session_step.device_info)
  finally show ?thesis .
qed

lemma session_reach_ok: "session_reach s s' \<Longrightarrow> Session_ok s \<Longrightarrow> Session_ok s'"
  by (induction rule: rtranclp_induct) (auto intro: session_step_ok)

lemma advanceSession_ok: "Session_ok s \<Longrightarrow> Session_ok (advanceSession c a art d s)"
  using advanceSession_reach session_reach_ok by blast

lemma advanceSession_active:
  "Session_ValidateForAdvance s cid t a = None \<Longrightarrow> Session_IsActive (advanceSession c a art d s)"
  by (auto simp: Session_ValidateForAdvance_None advanceSession_def session_ops session_status_defs Let_def)

lemma executeTokenFlowTx_Inr:
  assumes "executeTokenFlowTx cfg c ps tc a art st = (st', Inr s')"
  obtains s where "kv_get (auth_sessions st) (Session_ID ps) = Some s"
    "Session_ValidateForAdvance s (rc_ID (tc_Client tc)) (ctx_Now c) a = None"
    "s' = advanceSession c a art (applyDeviceBinding cfg c ps) s"
    "st' = st\<lparr> auth_sessions := kv_put (auth_sessions st) (Session_ID ps) s',
              auth_refreshTokens := kv_put (auth_refreshTokens st)
                (Refresh_Token (art_refreshRecord art)) (art_refreshRecord art) \<rparr>"
  using assms
  by (auto simp: executeTokenFlowTx_def SessionStore_Execute_def RefreshStore_Create_def Let_def
      split: option.splits)

lemma executeTokenFlowTx_Inl:
  assumes "executeTokenFlowTx cfg c ps tc a art st = (st', Inl e)"
  shows "st' = st \<and>
    (kv_get (auth_sessions st) (Session_ID ps) = None \<and> e = Sentinel ErrNotFound \<or>
     (\<exists>s. kv_get (auth_sessions st) (Session_ID ps) = Some s \<and>
          Session_ValidateForAdvance s (rc_ID (tc_Client tc)) (ctx_Now c) a = Some e))"
  using assms
  by (auto simp: executeTokenFlowTx_def SessionStore_Execute_def RefreshStore_Create_def Let_def
      split: option.splits)

lemma executeTokenFlowTx_ok:
  assumes "auth_ok st" "Refresh_ok (art_refreshRecord art)"
    "executeTokenFlowTx cfg c ps tc a art st = (st', r)"
  shows "auth_ok st'"
proof (cases r)
  case (Inl e)
  with assms executeTokenFlowTx_Inl show ?thesis by blast
next
  case (Inr s')
  with assms(3) obtain s where s: "kv_get (auth_sessions st) (Session_ID ps) = Some s"
    "s' = advanceSession c a art (applyDeviceBinding cfg c ps) s"
    "st' = st\<lparr> auth_sessions := kv_put (auth_sessions st) (Session_ID ps) s',
              auth_refreshTokens := kv_put (auth_refreshTokens st)
                (Refresh_Token (art_refreshRecord art)) (art_refreshRecord art) \<rparr>"
    by (metis executeTokenFlowTx_Inr)
  with assms(1) have "Session_ID s = Session_ID ps" "Session_ok s"
    by (auto simp: auth_ok_def dest: sessions_okD)
  with s assms(1,2) show ?thesis
    by (simp add: auth_ok_def sessions_ok_put refresh_ok_put advanceSession_ok)
qed

lemma generateTokenArtifacts_ok:
  "generateTokenArtifacts env cfg c s = Inr art \<Longrightarrow>
   Refresh_ok (art_refreshRecord art) \<and> \<not> Refresh_Used (art_refreshRecord art) \<and>
   Refresh_SessionID (art_refreshRecord art) = Session_ID s \<and>
   Refresh_Token (art_refreshRecord art) = art_refreshToken art \<and>
   ctx_Now c \<le> Refresh_ExpiresAt (art_refreshRecord art) \<and>
   Refresh_ExpiresAt (art_refreshRecord art) = ctx_Now c + cfg_RefreshTokenTTL cfg"
  by (auto simp: generateTokenArtifacts_def NewRefreshToken_def Refresh_ok_def Let_def
      split: sum.splits prod.splits if_splits)

lemma prepareTokenFlow_Inr:
  assumes "prepareTokenFlow env cfg c s cid fl st = (st', Inr (tc, art))"
  shows "st' = st" "generateTokenArtifacts env cfg c s = Inr art"
    "resolveTokenContext env st s cid = Inr tc" "rc_Active (tc_Client tc)"
  using assms
  by (auto simp: prepareTokenFlow_def ResolvedClient_IsActive_def Let_def split: sum.splits if_splits prod.splits)

lemma resolveTokenContext_Inr:
  assumes "resolveTokenContext env st s cid = Inr tc"
  shows "env_ResolveClient env cid = Inr (tc_Client tc, tc_Tenant tc)"
    "rc_ID (tc_Client tc) = Session_ClientID s" "rt_ID (tc_Tenant tc) = Session_TenantID s"
    "kv_get (auth_users st) (Session_UserID s) = Some (tc_User tc)" "User_IsActive (tc_User tc)"
  using assms
  by (auto simp: resolveTokenContext_def UserStore_FindByID_def split: sum.splits if_splits prod.splits option.splits)

section \<open>Lemmas about consumption and replay\<close>

lemma isAlreadyUsedError_New:
  "isAlreadyUsedError (dErrors_New c m) = str_contains m ''already used''"
  by (simp add: isAlreadyUsedError_def err_simps)

lemma already_used_messages [simp]:
  "str_contains ''authorization code already used'' ''already used''"
  "str_contains ''refresh token already used'' ''already used''"
  "\<not> str_contains ''redirect_uri mismatch'' ''already used''"
  "\<not> str_contains ''authorization code expired'' ''already used''"
  "\<not> str_contains ''refresh token expired'' ''already used''"
  by code_simp+

lemma Code_ValidateForConsume_None:
  "Code_ValidateForConsume r uri now = None \<longleftrightarrow>
   Code_RedirectURI r = uri \<and> now \<le> Code_ExpiresAt r \<and> \<not> Code_Used r"
  by (auto simp: Code_ValidateForConsume_def Code_IsExpired_def)

lemma Refresh_ValidateForConsume_None:
  "Refresh_ValidateForConsume r now = None \<longleftrightarrow> now \<le> Refresh_ExpiresAt r \<and> \<not> Refresh_Used r"
  by (auto simp: Refresh_ValidateForConsume_def Refresh_IsExpired_def)

lemma revokeSessionOnReplay_cases:
  assumes "revokeSessionOnReplay st e sid now = (st', oe)"
  obtains (skip) "\<not> isAlreadyUsedError e" "st' = st" "oe = None"
  | (missing) "isAlreadyUsedError e" "kv_get (auth_sessions st) sid = None" "st' = st"
      "oe = Some (dErrors_Wrap (Sentinel ErrNotFound) CodeInternal ''failed to revoke session'')"
  | (already) s where "isAlreadyUsedError e" "kv_get (auth_sessions st) sid = Some s" "Session_IsRevoked s"
      "st' = st" "oe = Some (dErrors_Wrap ErrSessionRevoked CodeInternal ''failed to revoke session'')"
  | (revoked) s where "isAlreadyUsedError e" "kv_get (auth_sessions st) sid = Some s" "\<not> Session_IsRevoked s"
      "st' = st\<lparr> auth_sessions := kv_put (auth_sessions st) sid (Session_ApplyRevocation now s) \<rparr>" "oe = None"
  using assms
  by (auto simp: revokeSessionOnReplay_def SessionStore_RevokeSessionIfActive_def Session_CanRevoke_def
      split: if_splits option.splits)

lemma consumeCode_cases:
  assumes "consumeCodeWithReplayProtection code uri now st = (st', r)"
  obtains (missing) e where "kv_get (auth_codes st) code = None" "st' = st" "r = Inl e"
      "e = ErrorfW ''consume authorization code'' (Sentinel ErrNotFound)"
  | (rejected) rec e oe where "kv_get (auth_codes st) code = Some rec"
      "Code_ValidateForConsume rec uri now = Some e"
      "revokeSessionOnReplay st e (Code_SessionID rec) now = (st', oe)"
      "r = Inl (case oe of Some re \<Rightarrow> re | None \<Rightarrow> ErrorfW ''consume authorization code'' e)"
  | (consumed) rec where "kv_get (auth_codes st) code = Some rec"
      "Code_ValidateForConsume rec uri now = None" "r = Inr (fst (Code_MarkUsed rec))"
      "st' = st\<lparr> auth_codes := kv_put (auth_codes st) code (fst (Code_MarkUsed rec)) \<rparr>"
  using assms
  by (fastforce simp: consumeCodeWithReplayProtection_def CodeStore_Execute_def Let_def
      split: option.splits prod.splits)

lemma consumeRefresh_cases:
  assumes "consumeRefreshTokenWithReplayProtection token now st = (st', r)"
  obtains (missing) e where "kv_get (auth_refreshTokens st) token = None" "st' = st" "r = Inl e"
      "e = ErrorfW ''consume refresh token'' (Sentinel ErrNotFound)"
  | (rejected) rec e oe st'' where "kv_get (auth_refreshTokens st) token = Some rec"
      "Refresh_ValidateForConsume rec now = Some e"
      "revokeSessionOnReplay st e (Refresh_SessionID rec) now = (st'', oe)"
      "auth_stores st' = auth_stores st''"
      "r = Inl (case oe of Some re \<Rightarrow> re | None \<Rightarrow> ErrorfW ''consume refresh token'' e)"
  | (consumed) rec where "kv_get (auth_refreshTokens st) token = Some rec"
      "Refresh_ValidateForConsume rec now = None" "r = Inr (fst (Refresh_MarkUsed now rec))"
      "st' = st\<lparr> auth_refreshTokens := kv_put (auth_refreshTokens st) token (fst (Refresh_MarkUsed now rec)) \<rparr>"
  using assms
  by (fastforce simp: consumeRefreshTokenWithReplayProtection_def RefreshStore_Execute_def Let_def
      split: option.splits prod.splits)

text \<open>
  The changes the transactions make, as a relation: sessions follow their life cycle, a used code or
  token stays used and keeps what it is bound to, and nothing reappears under a key of \<open>K\<close>, the
  identifiers that are not drawn again.
\<close>

definition code_evolution :: "AuthorizationCodeRecord \<Rightarrow> AuthorizationCodeRecord \<Rightarrow> bool" where
  "code_evolution a b =
     ((Code_Used a \<longrightarrow> Code_Used b) \<and> Code_SessionID b = Code_SessionID a \<and>
      Code_RedirectURI b = Code_RedirectURI a \<and> Code_ExpiresAt b = Code_ExpiresAt a)"

definition refresh_evolution :: "RefreshTokenRecord \<Rightarrow> RefreshTokenRecord \<Rightarrow> bool" where
  "refresh_evolution a b =
     ((Refresh_Used a \<longrightarrow> Refresh_Used b) \<and> Refresh_SessionID b = Refresh_SessionID a \<and>
      Refresh_ExpiresAt b = Refresh_ExpiresAt a)"

record issued =
  iss_sessions :: "SessionID set"
  iss_codes :: "string set"
  iss_tokens :: "string set"

definition auth_evolves :: "issued \<Rightarrow> auth_state \<Rightarrow> auth_state \<Rightarrow> bool" where
  "auth_evolves K st st' =
     (kv_evolves (iss_sessions K) session_reach (auth_sessions st) (auth_sessions st') \<and>
      kv_evolves (iss_codes K) code_evolution (auth_codes st) (auth_codes st') \<and>
      kv_evolves (iss_tokens K) refresh_evolution (auth_refreshTokens st) (auth_refreshTokens st'))"

lemma evolution_refl [simp]: "reflp session_reach" "reflp code_evolution" "reflp refresh_evolution"
  by (simp_all add: reflp_def code_evolution_def refresh_evolution_def)

lemma evolution_trans: "transp session_reach" "transp code_evolution" "transp refresh_evolution"
  by (auto simp: transp_def code_evolution_def refresh_evolution_def)

lemma auth_evolves_stores: "auth_stores st = auth_stores st1 \<Longrightarrow> auth_stores st' = auth_stores st2 \<Longrightarrow>
  auth_evolves K st st' = auth_evolves K st1 st2"
  by (simp add: auth_evolves_def auth_stores_def)

lemma auth_evolves_refl: "auth_stores st' = auth_stores st \<Longrightarrow> auth_evolves K st st'"
  by (auto simp: auth_evolves_def auth_stores_def)

lemma auth_evolves_trans: "auth_evolves K a b \<Longrightarrow> auth_evolves K b d \<Longrightarrow> auth_evolves K a d"
  using kv_evolves_trans[OF evolution_trans(1), of _ "auth_sessions a" "auth_sessions b" "auth_sessions d"]
    kv_evolves_trans[OF evolution_trans(2), of _ "auth_codes a" "auth_codes b" "auth_codes d"]
    kv_evolves_trans[OF evolution_trans(3), of _ "auth_refreshTokens a" "auth_refreshTokens b" "auth_refreshTokens d"]
  by (simp add: auth_evolves_def)

text \<open>What every operation of the service does: it keeps the invariant, and it only evolves the
  stores.\<close>

definition auth_good :: "issued \<Rightarrow> auth_state \<Rightarrow> auth_state \<Rightarrow> bool" where
  "auth_good K st st' = (auth_ok st \<longrightarrow> auth_ok st' \<and> auth_evolves K st st')"

lemma auth_good_refl: "auth_stores st' = auth_stores st \<Longrightarrow> auth_good K st st'"
  using auth_ok_stores[of st' st] auth_evolves_refl[of st' st K] by (simp add: auth_good_def)

lemma auth_good_trans: "auth_good K a b \<Longrightarrow> auth_good K b d \<Longrightarrow> auth_good K a d"
  using auth_evolves_trans[of K a b d] by (simp add: auth_good_def)

lemma auth_good_stores: "auth_good K st st1 \<Longrightarrow> auth_stores st2 = auth_stores st1 \<Longrightarrow> auth_good K st st2"
  using auth_good_refl[of st2 st1 K] auth_good_trans[of K st st1 st2] by simp

lemma revoke_reach: "\<not> Session_IsRevoked s \<Longrightarrow> session_reach s (Session_ApplyRevocation t s)"
  using session_step.revoke[of s t] by (simp add: Session_CanRevoke_def r_into_rtranclp)

lemma revokeSessionOnReplay_good:
  "revokeSessionOnReplay st e sid now = (st', oe) \<Longrightarrow> auth_good K st st'"
proof (erule revokeSessionOnReplay_cases)
  fix s assume s: "kv_get (auth_sessions st) sid = Some s" "\<not> Session_IsRevoked s"
    "st' = st\<lparr> auth_sessions := kv_put (auth_sessions st) sid (Session_ApplyRevocation now s) \<rparr>"
  then show "auth_good K st st'"
    by (auto simp: auth_good_def auth_ok_def auth_evolves_def kv_evolves_put revoke_reach
        dest: sessions_okD intro!: sessions_ok_put)
qed (simp_all add: auth_good_refl)

lemma consumeCode_good:
  assumes "consumeCodeWithReplayProtection code uri now st = (st', r)"
  shows "auth_good K st st'"
  using assms
proof (cases rule: consumeCode_cases)
  case (consumed rec)
  then show ?thesis
    by (auto simp: auth_good_def auth_ok_def auth_evolves_def code_evolution_def
        dest: codes_okD intro!: codes_ok_put kv_evolves_put)
qed (auto simp: auth_good_refl dest: revokeSessionOnReplay_good)

lemma consumeRefresh_good:
  assumes "consumeRefreshTokenWithReplayProtection token now st = (st', r)"
  shows "auth_good K st st'"
  using assms
proof (cases rule: consumeRefresh_cases)
  case (consumed rec)
  then show ?thesis
    by (auto simp: auth_good_def auth_ok_def auth_evolves_def refresh_evolution_def
        dest: refresh_okD intro!: refresh_ok_put kv_evolves_put)
qed (auto simp: auth_good_refl dest: revokeSessionOnReplay_good intro: auth_good_stores)

lemma executeTokenFlowTx_good:
  assumes "executeTokenFlowTx cfg c ps tc a art st = (st', r)" "Refresh_ok (art_refreshRecord art)"
    "Refresh_Token (art_refreshRecord art) \<notin> iss_tokens K"
  shows "auth_good K st st'"
proof (cases r)
  case (Inl e)
  with assms(1) executeTokenFlowTx_Inl show ?thesis by (metis auth_good_refl)
next
  case (Inr s')
  with assms(1) obtain s where "kv_get (auth_sessions st) (Session_ID ps) = Some s"
    "s' = advanceSession c a art (applyDeviceBinding cfg c ps) s"
    "st' = st\<lparr> auth_sessions := kv_put (auth_sessions st) (Session_ID ps) s',
              auth_refreshTokens := kv_put (auth_refreshTokens st)
                (Refresh_Token (art_refreshRecord art)) (art_refreshRecord art) \<rparr>"
    by (metis executeTokenFlowTx_Inr)
  with assms(3) have "auth_evolves K st st'"
    by (simp add: auth_evolves_def advanceSession_reach kv_evolves_fresh kv_evolves_put[of _ _ _ s])
  with executeTokenFlowTx_ok[OF _ assms(2,1)] show ?thesis by (simp add: auth_good_def)
qed

lemma exchange_tx_good:
  assumes "Refresh_ok (art_refreshRecord art)" "Refresh_Token (art_refreshRecord art) \<notin> iss_tokens K"
  shows "auth_good K st (fst (exchange_tx cfg c code uri s tc art st))"
proof -
  obtain st1 r where x: "consumeCodeWithReplayProtection code uri (ctx_Now c) st = (st1, r)" by fastforce
  note g = consumeCode_good[OF x, of K]
  show ?thesis
  proof (cases r)
    case (Inr rec)
    with x show ?thesis
      using auth_good_trans[OF g executeTokenFlowTx_good[OF _ assms]]
      by (simp add: exchange_tx_def) (metis prod.collapse)
  qed (use g x in \<open>simp add: exchange_tx_def\<close>)
qed

lemma refresh_tx_good:
  assumes "Refresh_ok (art_refreshRecord art)" "Refresh_Token (art_refreshRecord art) \<notin> iss_tokens K"
  shows "auth_good K st (fst (refresh_tx cfg c token s tc art st))"
proof -
  obtain st1 r where x: "consumeRefreshTokenWithReplayProtection token (ctx_Now c) st = (st1, r)" by fastforce
  note g = consumeRefresh_good[OF x, of K]
  show ?thesis
  proof (cases r)
    case (Inr rec)
    with x show ?thesis
      using auth_good_trans[OF g executeTokenFlowTx_good[OF _ assms]]
      by (simp add: refresh_tx_def) (metis prod.collapse)
  qed (use g x in \<open>simp add: refresh_tx_def\<close>)
qed

section \<open>Lemmas about the flows\<close>

lemma auth_RunInTx_good:
  "auth_good K st (fst (fn st)) \<Longrightarrow> auth_good K st (fst (auth_RunInTx c fn st))"
  unfolding auth_RunInTx_def by (rule run_in_tx_state[of "auth_good K st"]) (simp_all add: auth_good_refl)

lemma generateTokenArtifacts_token:
  "generateTokenArtifacts env cfg c s = Inr art \<Longrightarrow> env_CreateRefreshToken env = Inr (art_refreshToken art)"
  by (auto simp: generateTokenArtifacts_def Let_def split: sum.splits prod.splits)

lemma prepared_artifacts:
  assumes "prepareTokenFlow env cfg c s cid fl st = (st', Inr (tc, art))"
    and "env_CreateRefreshToken env \<notin> Inr ` iss_tokens K"
  shows "Refresh_ok (art_refreshRecord art)" "Refresh_Token (art_refreshRecord art) \<notin> iss_tokens K"
  using generateTokenArtifacts_ok[OF prepareTokenFlow_Inr(2)[OF assms(1)]] assms(2)
    generateTokenArtifacts_token[OF prepareTokenFlow_Inr(2)[OF assms(1)]]
  by auto

lemma fst_case_pair [simp]: "fst (case p of (a, b) \<Rightarrow> (a, f b)) = fst p"
  by (cases p) simp

lemma finish_good:
  assumes "auth_good K st (fst p)"
    and "\<And>st1 e. p = (st1, Inl e) \<Longrightarrow> auth_stores (fst (bad st1 e)) = auth_stores st1"
    and "\<And>st1 x. p = (st1, Inr x) \<Longrightarrow> auth_stores (fst (good st1 x)) = auth_stores st1"
  shows "auth_good K st (fst (case p of (st1, Inl e) \<Rightarrow> bad st1 e | (st1, Inr x) \<Rightarrow> good st1 x))"
  using assms by (cases p; cases "snd p") (auto intro: auth_good_stores)

lemma exchange_good:
  assumes "env_CreateRefreshToken env \<notin> Inr ` iss_tokens K"
  shows "auth_good K st (fst (exchangeAuthorizationCode env cfg c req st))"
proof (cases "CodeStore_FindByCode (auth_codes st) (treq_Code req)")
  case (Inr code)
  note 1 = Inr
  show ?thesis
  proof (cases "SessionStore_FindByID (auth_sessions st) (Code_SessionID code)")
    case (Inr session)
    note 2 = Inr
    obtain st1 r where p: "prepareTokenFlow env cfg c session (treq_ClientID req) TokenFlowCode st = (st1, r)"
      by fastforce
    show ?thesis
    proof (cases r)
      case (Inl e)
      with 1 2 p prepareTokenFlow_stores[OF p] show ?thesis
        by (simp add: exchangeAuthorizationCode_def auth_good_refl)
    next
      case (Inr x)
      obtain tc art where x: "x = (tc, art)" by fastforce
      with p Inr have p': "prepareTokenFlow env cfg c session (treq_ClientID req) TokenFlowCode st
          = (st1, Inr (tc, art))" by simp
      from prepareTokenFlow_Inr(1)[OF p'] have "st1 = st" .
      moreover have "auth_good K st (fst (auth_RunInTx c
          (exchange_tx cfg c (treq_Code req) (treq_RedirectURI req) session tc art) st))"
        by (intro auth_RunInTx_good exchange_tx_good prepared_artifacts[OF p' assms])
      ultimately show ?thesis
        using 1 2 p' unfolding exchangeAuthorizationCode_def
        by (simp add: Let_def) (rule finish_good, simp_all)
    qed
  qed (use 1 in \<open>simp add: exchangeAuthorizationCode_def auth_good_refl\<close>)
qed (simp add: exchangeAuthorizationCode_def auth_good_refl)

lemma refresh_good:
  assumes "env_CreateRefreshToken env \<notin> Inr ` iss_tokens K"
  shows "auth_good K st (fst (refreshWithRefreshToken env cfg c req st))"
proof (cases "RefreshStore_Find (auth_refreshTokens st) (treq_RefreshToken req)")
  case (Inr rec)
  note 1 = Inr
  show ?thesis
  proof (cases "SessionStore_FindByID (auth_sessions st) (Refresh_SessionID rec)")
    case (Inr session)
    note 2 = Inr
    obtain st1 r where p: "prepareTokenFlow env cfg c session (treq_ClientID req) TokenFlowRefresh st = (st1, r)"
      by fastforce
    show ?thesis
    proof (cases r)
      case (Inl e)
      with 1 2 p prepareTokenFlow_stores[OF p] show ?thesis
        by (simp add: refreshWithRefreshToken_def auth_good_refl)
    next
      case (Inr x)
      obtain tc art where x: "x = (tc, art)" by fastforce
      with p Inr have p': "prepareTokenFlow env cfg c session (treq_ClientID req) TokenFlowRefresh st
          = (st1, Inr (tc, art))" by simp
      from prepareTokenFlow_Inr(1)[OF p'] have "st1 = st" .
      moreover have "auth_good K st (fst (auth_RunInTx c
          (refresh_tx cfg c (treq_RefreshToken req) session tc art) st))"
        by (intro auth_RunInTx_good refresh_tx_good prepared_artifacts[OF p' assms])
      ultimately show ?thesis
        using 1 2 p' unfolding refreshWithRefreshToken_def
        by (simp add: Let_def) (rule finish_good, simp_all)
    qed
  qed (use 1 in \<open>simp add: refreshWithRefreshToken_def auth_good_refl\<close>)
qed (simp add: refreshWithRefreshToken_def auth_good_refl)

lemma Token_good:
  assumes "env_CreateRefreshToken env \<notin> Inr ` iss_tokens K"
  shows "auth_good K st (fst (Token env cfg c req st))"
  using exchange_good[OF assms] refresh_good[OF assms]
  by (auto simp: Token_def Let_def auth_good_refl split: option.splits)

end
