(* ===== verification/Auth_Sessions.thy ===== *)
theory Auth_Sessions
  imports Auth_Service
begin

text \<open>
  The rest of the authentication service: the start of an authorization
  (\<^verbatim>\<open>authorize.go\<close>), revocation of tokens and sessions (\<^verbatim>\<open>token_revocation.go\<close>,
  \<^verbatim>\<open>session_revoke.go\<close>), user info, session listing and user deletion.
\<close>

section \<open>Authorization\<close>

text \<open>\<^verbatim>\<open>strings.EqualFold\<close>: case is ignored; on text that is not ASCII the Unicode folding
  is the parameter.\<close>

definition EqualFold :: "(string \<Rightarrow> string \<Rightarrow> bool) \<Rightarrow> string \<Rightarrow> string \<Rightarrow> bool" where
  "EqualFold uni_fold s t =
     (if is_ascii s \<and> is_ascii t then map ascii_lower s = map ascii_lower t else uni_fold s t)"

definition isRedirectSchemeAllowed :: "auth_env \<Rightarrow> auth_config \<Rightarrow> URL \<Rightarrow> bool" where
  "isRedirectSchemeAllowed env cfg uri =
     list_ex (\<lambda>scheme. EqualFold (env_uni_fold env) (url_Scheme uri) scheme) (cfg_AllowedRedirectSchemes cfg)"

definition allowedRedirectURI :: "string \<Rightarrow> string list \<Rightarrow> bool" where
  "allowedRedirectURI redirectURI clientRedirectURIs =
     (if redirectURI = [] \<or> length clientRedirectURIs = 0 then False
      else redirectURI \<in> set clientRedirectURIs)"

definition validateRequestedScopes :: "string list \<Rightarrow> string list \<Rightarrow> go_error option" where
  "validateRequestedScopes requested allowed =
     (if length allowed = 0 then None
      else first_error (\<lambda>scope. if scope \<notin> set allowed
             then Some (dErrors_New CodeBadRequest
                    (''requested scope '' @ [CHR 0x27] @ scope @ [CHR 0x27] @ '' not allowed for client''))
             else None) requested)"

definition resolveDeviceID :: "auth_env \<Rightarrow> ctx \<Rightarrow> string \<times> string" where
  "resolveDeviceID env c =
     (if ctx_DeviceID c \<noteq> [] then (ctx_DeviceID c, [])
      else let newDeviceID = env_uuid_String env (env_newDeviceID env) in (newDeviceID, newDeviceID))"

record authorizeParams =
  ap_Email :: string
  ap_Scopes :: "string list"
  ap_RedirectURI :: string
  ap_Now :: time
  ap_DeviceID :: string
  ap_DeviceFingerprint :: string
  ap_DeviceDisplayName :: string
  ap_Client :: ResolvedClient
  ap_Tenant :: ResolvedTenant

record authorizeResult =
  ar_User :: User
  ar_Session :: Session
  ar_AuthCode :: AuthorizationCodeRecord
  ar_UserWasCreated :: bool

definition findOrCreateUser ::
  "auth_env \<Rightarrow> TenantID \<Rightarrow> string \<Rightarrow> user_store \<Rightarrow> user_store \<times> (User \<times> bool) result" where
  "findOrCreateUser env tenantID userEmail users =
     (let (firstName, lastName) = DeriveNameFromEmail (env_uni env) userEmail in
      case NewUser (UserID (env_newUserID env)) tenantID userEmail firstName lastName False of
        Inl e \<Rightarrow> (users, Inl (dErrors_Wrap e CodeInternal ''failed to create user''))
      | Inr newUser \<Rightarrow>
          (case UserStore_FindOrCreateByTenantAndEmail users tenantID userEmail newUser of
             (users, user) \<Rightarrow>
               if \<not> User_IsActive user
               then (users, Inl (dErrors_New CodeForbidden ''user is inactive''))
               else (users, Inr (user, User_ID user = User_ID newUser))))"

text \<open>The body of the transaction of \<^verbatim>\<open>authorizeInTx\<close>.\<close>

definition authorize_tx ::
  "auth_env \<Rightarrow> auth_config \<Rightarrow> authorizeParams \<Rightarrow> auth_state \<Rightarrow> auth_state \<times> authorizeResult result" where
  "authorize_tx env cfg params st =
     (case findOrCreateUser env (rt_ID (ap_Tenant params)) (ap_Email params) (auth_users st) of
        (users, Inl e) \<Rightarrow> (st\<lparr> auth_users := users \<rparr>, Inl e)
      | (users, Inr (user, wasCreated)) \<Rightarrow>
          let st = st\<lparr> auth_users := users \<rparr>;
              sessionID = SessionID (env_newSessionID env) in
          (case NewSession sessionID (User_ID user) (rc_ID (ap_Client params)) (rt_ID (ap_Tenant params))
                  (ap_Scopes params) SessionStatusPendingConsent (ap_Now params)
                  (ap_Now params + cfg_SessionTTL cfg) (ap_Now params) of
             Inl e \<Rightarrow> (st, Inl (dErrors_Wrap e CodeInternal ''failed to create session''))
           | Inr session \<Rightarrow>
               let session = Session_SetDeviceBinding
                     \<lparr> DeviceBinding_DeviceID = ap_DeviceID params,
                       DeviceBinding_FingerprintHash = ap_DeviceFingerprint params,
                       DeviceBinding_DisplayName = ap_DeviceDisplayName params,
                       DeviceBinding_ApproximateLocation = [] \<rparr> session in
               (case SessionStore_Create (auth_sessions st) session of
                  (sessions, Some e) \<Rightarrow>
                    (st\<lparr> auth_sessions := sessions \<rparr>, Inl (dErrors_Wrap e CodeInternal ''failed to save session''))
                | (sessions, None) \<Rightarrow>
                    let st = st\<lparr> auth_sessions := sessions \<rparr> in
                    (case NewAuthorizationCode (env_newCodeRecordID env)
                            (env_uuid_String env (env_newCode env)) sessionID (ap_RedirectURI params)
                            (ap_Now params) (ap_Now params + 10 * minute) (ap_Now params) of
                       Inl e \<Rightarrow> (st, Inl (dErrors_Wrap e CodeInternal ''failed to create authorization code''))
                     | Inr authCode \<Rightarrow>
                         (case CodeStore_Create (auth_codes st) authCode of
                            (codes, Some e) \<Rightarrow>
                              (st\<lparr> auth_codes := codes \<rparr>,
                               Inl (dErrors_Wrap e CodeInternal ''failed to save authorization code''))
                          | (codes, None) \<Rightarrow>
                              (st\<lparr> auth_codes := codes \<rparr>,
                               Inr \<lparr> ar_User = user, ar_Session = session, ar_AuthCode = authCode,
                                     ar_UserWasCreated = wasCreated \<rparr>))))))"

definition authorizeInTx ::
  "auth_env \<Rightarrow> auth_config \<Rightarrow> ctx \<Rightarrow> authorizeParams \<Rightarrow> auth_state \<Rightarrow> auth_state \<times> authorizeResult result" where
  "authorizeInTx env cfg c params st = auth_RunInTx c (authorize_tx env cfg params) st"

definition emitAuthorizeAuditEvents :: "auth_env \<Rightarrow> ctx \<Rightarrow> authorizeResult \<Rightarrow> auth_state \<Rightarrow> auth_state" where
  "emitAuthorizeAuditEvents env c result st =
     (let subject = UserID_String env (User_ID (ar_User result));
          st = (if ar_UserWasCreated result
                then (let st = logAudit c ''user_created'' subject st in
                      st\<lparr> auth_usersCreated := auth_usersCreated st + 1 \<rparr>)
                else st);
          st = logAudit c ''session_created'' subject st
      in st\<lparr> auth_activeSessions := auth_activeSessions st + 1 \<rparr>)"

definition buildAuthorizeResponse ::
  "URL \<Rightarrow> AuthorizationCodeRecord \<Rightarrow> string \<Rightarrow> string \<Rightarrow> AuthorizationResult" where
  "buildAuthorizeResponse parsedURI authCode state deviceIDToSet =
     \<lparr> ares_Code = Code_Code authCode,
       ares_RedirectURI = url_WithQuery parsedURI
         ((''code'', Code_Code authCode) # (if state \<noteq> [] then [(''state'', state)] else [])),
       ares_DeviceID = deviceIDToSet \<rparr>"

definition Authorize ::
  "auth_env \<Rightarrow> auth_config \<Rightarrow> ctx \<Rightarrow> AuthorizationRequest option \<Rightarrow> auth_state
   \<Rightarrow> auth_state \<times> AuthorizationResult result" where
  "Authorize env cfg c req st =
     (case req of
        None \<Rightarrow> (st, Inl (dErrors_New CodeBadRequest ''request is required''))
      | Some req \<Rightarrow>
          let req = AuthorizationRequest_Normalize (env_uni env) req in
          (case AuthorizationRequest_Validate (env_url_Parse env) req of
             Some e \<Rightarrow> (st, Inl e)
           | None \<Rightarrow>
          (case env_url_Parse env (areq_RedirectURI req) of
             None \<Rightarrow> (st, Inl (dErrors_New CodeBadRequest ''invalid redirect_uri''))
           | Some parsedURI \<Rightarrow>
               if \<not> isRedirectSchemeAllowed env cfg parsedURI
               then (st, Inl (dErrors_New CodeBadRequest
                       (''redirect_uri scheme '' @ [CHR 0x27] @ url_Scheme parsedURI @ [CHR 0x27] @ '' not allowed'')))
               else
          (case env_ResolveClient env (areq_ClientID req) of
             Inl e \<Rightarrow>
               (st, Inl (if HasCode e CodeNotFound then dErrors_New CodeBadRequest ''invalid client_id''
                         else dErrors_Wrap e CodeBadRequest ''failed to resolve client''))
           | Inr (client, tnt) \<Rightarrow>
               if \<not> allowedRedirectURI (url_String parsedURI) (rc_RedirectURIs client)
               then (st, Inl (dErrors_New CodeBadRequest ''redirect_uri not allowed for client''))
               else
                 let (deviceID, deviceIDToSet) = resolveDeviceID env c;
                     params = \<lparr> ap_Email = areq_Email req, ap_Scopes = areq_Scopes req,
                                ap_RedirectURI = areq_RedirectURI req, ap_Now = ctx_Now c,
                                ap_DeviceID = deviceID, ap_DeviceFingerprint = ctx_DeviceFingerprint c,
                                ap_DeviceDisplayName = ParseUserAgent (env_useragent_New env) (ctx_UserAgent c),
                                ap_Client = client, ap_Tenant = tnt \<rparr> in
                 (case validateRequestedScopes (ap_Scopes params) (rc_AllowedScopes client) of
                    Some e \<Rightarrow> (st, Inl e)
                  | None \<Rightarrow>
                      (case authorizeInTx env cfg c params st of
                         (st, Inl e) \<Rightarrow> (st, Inl e)
                       | (st, Inr result) \<Rightarrow>
                           (emitAuthorizeAuditEvents env c result st,
                            Inr (buildAuthorizeResponse parsedURI (ar_AuthCode result) (areq_State req)
                                   deviceIDToSet))))))))"

section \<open>Revocation of a token\<close>

definition TokenHintRefreshToken :: string where "TokenHintRefreshToken = ''refresh_token''"
definition TokenHintAccessToken :: string where "TokenHintAccessToken = ''access_token''"

definition validateRevokeInput :: "string \<Rightarrow> string \<Rightarrow> go_error option" where
  "validateRevokeInput token tokenTypeHint =
     (if token = [] then Some (dErrors_New CodeValidation ''token is required'')
      else if tokenTypeHint \<noteq> [] \<and> tokenTypeHint \<noteq> TokenHintAccessToken \<and> tokenTypeHint \<noteq> TokenHintRefreshToken
      then Some (dErrors_New CodeValidation
             (''token_type_hint must be '' @ [CHR 0x27] @ ''access_token'' @ [CHR 0x27] @ '' or '' @
              [CHR 0x27] @ ''refresh_token'' @ [CHR 0x27]))
      else None)"

definition extractSessionFromAccessToken :: "auth_env \<Rightarrow> auth_state \<Rightarrow> string \<Rightarrow> (string \<times> Session) result" where
  "extractSessionFromAccessToken env st token =
     (case env_ParseTokenSkipClaimsValidation env token of
        Inl e \<Rightarrow> Inl e
      | Inr claims \<Rightarrow>
          (case env_uuid_Parse env (claims_SessionID claims) of
             None \<Rightarrow> Inl (Errorf ''invalid session_id in token'')
           | Some u \<Rightarrow>
               (case SessionStore_FindByID (auth_sessions st) (SessionID u) of
                  Inl e \<Rightarrow> Inl (ErrorfW ''session not found'' e)
                | Inr session \<Rightarrow> Inr (claims_ID claims, session))))"

definition findSessionByRefreshToken :: "auth_state \<Rightarrow> string \<Rightarrow> Session result" where
  "findSessionByRefreshToken st token =
     (case RefreshStore_Find (auth_refreshTokens st) token of
        Inl e \<Rightarrow> Inl (ErrorfW ''refresh token not found'' e)
      | Inr refreshToken \<Rightarrow>
          (case SessionStore_FindByID (auth_sessions st) (Refresh_SessionID refreshToken) of
             Inl e \<Rightarrow> Inl (ErrorfW ''session not found'' e)
           | Inr session \<Rightarrow> Inr session))"

text \<open>A token resolution: the session, and the token's identifier for an access token.\<close>

definition resolveTokenToSession :: "auth_env \<Rightarrow> auth_state \<Rightarrow> string \<Rightarrow> string \<Rightarrow> (Session \<times> string) result" where
  "resolveTokenToSession env st token tokenTypeHint =
     (let access = (if tokenTypeHint = TokenHintAccessToken \<or> tokenTypeHint = []
                    then extractSessionFromAccessToken env st token else Inl (Errorf ''skipped''))
      in case access of
           Inr (jti, session) \<Rightarrow> Inr (session, jti)
         | Inl _ \<Rightarrow>
             (let refresh = (if tokenTypeHint = TokenHintRefreshToken \<or> tokenTypeHint = []
                             then findSessionByRefreshToken st token else Inl (Errorf ''skipped''))
              in case refresh of
                   Inr session \<Rightarrow> Inr (session, [])
                 | Inl _ \<Rightarrow> Inl (Errorf ''token not found'')))"

datatype revokeSessionOutcome = revokeSessionOutcomeRevoked | revokeSessionOutcomeAlreadyRevoked

definition revokeSessionInternal ::
  "auth_env \<Rightarrow> auth_config \<Rightarrow> ctx \<Rightarrow> Session \<Rightarrow> string \<Rightarrow> auth_state
   \<Rightarrow> auth_state \<times> (revokeSessionOutcome \<times> go_error option)" where
  "revokeSessionInternal env cfg c session jti st =
     (case SessionStore_RevokeSessionIfActive (auth_sessions st) (Session_ID session) (ctx_Now c) of
        (sessions, Some e) \<Rightarrow>
          (let st = st\<lparr> auth_sessions := sessions \<rparr> in
           if errors_Is e ErrSessionRevoked then (st, revokeSessionOutcomeAlreadyRevoked, None)
           else (st, revokeSessionOutcomeRevoked, Some (ErrorfW ''failed to revoke session'' e)))
      | (sessions, None) \<Rightarrow>
          (let st = st\<lparr> auth_sessions := sessions \<rparr>;
               jtiToRevoke = (if jti = [] then Session_LastAccessTokenJTI session else jti);
               (st, failed) =
                 (if jtiToRevoke \<noteq> []
                  then (case TRL_RevokeToken (env_trlClock env jtiToRevoke) (auth_trl st) jtiToRevoke (cfg_TokenTTL cfg) of
                          (trl, Some e) \<Rightarrow>
                            (st\<lparr> auth_trl := trl, auth_trlWriteFailures := auth_trlWriteFailures st + 1 \<rparr>,
                             if cfg_TRLFailureMode cfg = TRLFailureModeFail
                             then Some (ErrorfW ''failed to add token to revocation list'' e) else None)
                        | (trl, None) \<Rightarrow> (st\<lparr> auth_trl := trl \<rparr>, None))
                  else (st, None))
           in case failed of
                Some e \<Rightarrow> (st, revokeSessionOutcomeRevoked, Some e)
              | None \<Rightarrow>
                  (st\<lparr> auth_refreshTokens :=
                        fst (RefreshStore_DeleteBySessionID (auth_refreshTokens st) (Session_ID session)) \<rparr>,
                   revokeSessionOutcomeRevoked, None)))"

definition revokeAndAudit ::
  "auth_env \<Rightarrow> auth_config \<Rightarrow> ctx \<Rightarrow> Session \<times> string \<Rightarrow> auth_state \<Rightarrow> auth_state \<times> go_error option" where
  "revokeAndAudit env cfg c resolution st =
     (let (session, jti) = resolution in
      case revokeSessionInternal env cfg c session jti st of
        (st, _, Some e) \<Rightarrow> (st, Some (dErrors_Wrap e CodeInternal ''failed to revoke session''))
      | (st, outcome, None) \<Rightarrow>
          if outcome = revokeSessionOutcomeAlreadyRevoked
          then (logAudit c ''token_revocation_noop'' [] st, None)
          else (logAudit c ''token_revoked'' (UserID_String env (Session_UserID session)) st, None))"

definition RevokeToken ::
  "auth_env \<Rightarrow> auth_config \<Rightarrow> ctx \<Rightarrow> string \<Rightarrow> string \<Rightarrow> auth_state \<Rightarrow> auth_state \<times> go_error option" where
  "RevokeToken env cfg c token tokenTypeHint st =
     (let token = TrimSpace token; tokenTypeHint = TrimSpace tokenTypeHint in
      case validateRevokeInput token tokenTypeHint of
        Some e \<Rightarrow> (st, Some e)
      | None \<Rightarrow>
          (case resolveTokenToSession env st token tokenTypeHint of
             Inl _ \<Rightarrow> (logAudit c ''token_revocation_noop'' [] st, None)
           | Inr resolution \<Rightarrow> revokeAndAudit env cfg c resolution st))"

definition IsTokenRevoked :: "auth_env \<Rightarrow> auth_state \<Rightarrow> string \<Rightarrow> bool" where
  "IsTokenRevoked env st jti = TRL_IsRevoked (env_trlClock env jti) (auth_trl st) jti"

section \<open>Revocation of sessions\<close>

text \<open>The part of \<^verbatim>\<open>RevokeSession\<close> after the session is revoked.\<close>

definition revokeSession_tokens ::
  "auth_env \<Rightarrow> auth_config \<Rightarrow> ctx \<Rightarrow> Session \<Rightarrow> auth_state \<Rightarrow> auth_state \<times> go_error option" where
  "revokeSession_tokens env cfg c session st =
     (let jti = Session_LastAccessTokenJTI session;
          (st, failed) =
            (if jti \<noteq> []
             then (case TRL_RevokeToken (env_trlClock env jti) (auth_trl st) jti (cfg_TokenTTL cfg) of
                     (trl, Some e) \<Rightarrow>
                       (st\<lparr> auth_trl := trl \<rparr>,
                        if cfg_TRLFailureMode cfg = TRLFailureModeFail
                        then Some (dErrors_Wrap e CodeInternal ''failed to add token to revocation list'')
                        else None)
                   | (trl, None) \<Rightarrow> (st\<lparr> auth_trl := trl \<rparr>, None))
             else (st, None))
      in case failed of
           Some e \<Rightarrow> (st, Some e)
         | None \<Rightarrow>
             (logAudit c ''session_revoked'' (UserID_String env (Session_UserID session))
                (st\<lparr> auth_refreshTokens :=
                      fst (RefreshStore_DeleteBySessionID (auth_refreshTokens st) (Session_ID session)) \<rparr>),
              None))"

definition RevokeSession ::
  "auth_env \<Rightarrow> auth_config \<Rightarrow> ctx \<Rightarrow> UserID \<Rightarrow> SessionID \<Rightarrow> auth_state \<Rightarrow> auth_state \<times> go_error option" where
  "RevokeSession env cfg c userID sessionID st =
     (if UserID_IsNil userID then (st, Some (dErrors_New CodeUnauthorized ''user ID required''))
      else if SessionID_IsNil sessionID then (st, Some (dErrors_New CodeBadRequest ''session ID required''))
      else
        let validate = (\<lambda>sess. if Session_UserID sess \<noteq> userID
                               then Some (dErrors_New CodeForbidden ''forbidden'') else None);
            mutate = (\<lambda>sess. if Session_CanRevoke sess \<noteq> None then sess
                             else Session_ApplyRevocation (ctx_Now c) sess);
            alreadyRevoked = (case kv_get (auth_sessions st) sessionID of
                                Some sess \<Rightarrow> Session_CanRevoke sess \<noteq> None | None \<Rightarrow> False);
            mismatch = (case kv_get (auth_sessions st) sessionID of
                          Some sess \<Rightarrow> Session_UserID sess \<noteq> userID | None \<Rightarrow> False);
            (sessions, session, err) = SessionStore_Execute (auth_sessions st) sessionID validate mutate;
            st = st\<lparr> auth_sessions := sessions \<rparr>;
            st = (if mismatch then authFailure c ''session_owner_mismatch'' (UserID_String env userID) st else st)
        in case err of
             Some e \<Rightarrow>
               (st, Some (if HasCode e CodeForbidden then e
                          else if errors_Is e (Sentinel ErrNotFound)
                          then dErrors_New CodeNotFound ''session not found''
                          else dErrors_Wrap e CodeInternal ''failed to revoke session''))
           | None \<Rightarrow>
               if alreadyRevoked then (st, None)
               else revokeSession_tokens env cfg c (the session) st)"

text \<open>The loop of \<^verbatim>\<open>LogoutAll\<close> over the sessions listed.\<close>

fun logout_loop ::
  "auth_env \<Rightarrow> auth_config \<Rightarrow> ctx \<Rightarrow> SessionID \<Rightarrow> bool \<Rightarrow> Session list \<Rightarrow> auth_state \<times> LogoutAllResult
   \<Rightarrow> auth_state \<times> LogoutAllResult" where
  "logout_loop env cfg c currentSessionID exceptCurrent [] (st, res) = (st, res)"
| "logout_loop env cfg c currentSessionID exceptCurrent (session # sessions) (st, res) =
     (if exceptCurrent \<and> Session_ID session = currentSessionID
      then logout_loop env cfg c currentSessionID exceptCurrent sessions (st, res)
      else logout_loop env cfg c currentSessionID exceptCurrent sessions
        (case revokeSessionInternal env cfg c session [] st of
           (st, _, Some e) \<Rightarrow> (st, res\<lparr> logout_FailedCount := logout_FailedCount res + 1 \<rparr>)
         | (st, outcome, None) \<Rightarrow>
             if outcome = revokeSessionOutcomeRevoked
             then (logAudit c ''session_revoked'' (UserID_String env (Session_UserID session)) st,
                   res\<lparr> logout_RevokedCount := logout_RevokedCount res + 1 \<rparr>)
             else (st, res)))"

definition LogoutAll ::
  "auth_env \<Rightarrow> auth_config \<Rightarrow> ctx \<Rightarrow> UserID \<Rightarrow> SessionID \<Rightarrow> bool \<Rightarrow> auth_state
   \<Rightarrow> auth_state \<times> LogoutAllResult result" where
  "LogoutAll env cfg c userID currentSessionID exceptCurrent st =
     (if UserID_IsNil userID then (st, Inl (dErrors_New CodeUnauthorized ''user ID required''))
      else
        let sessions = SessionStore_ListByUser (auth_sessions st) userID;
            (st, res) = logout_loop env cfg c currentSessionID exceptCurrent sessions
              (st, \<lparr> logout_RevokedCount = 0, logout_FailedCount = 0 \<rparr>)
        in (st, Inr res))"

section \<open>User info and session listing\<close>

definition UserInfo ::
  "auth_env \<Rightarrow> ctx \<Rightarrow> string \<Rightarrow> auth_state \<Rightarrow> auth_state \<times> UserInfoResult result" where
  "UserInfo env c sessionID st =
     (if sessionID = []
      then (authFailure c ''missing_session_id'' [] st,
            Inl (dErrors_New CodeUnauthorized ''missing or invalid session''))
      else case env_uuid_Parse env sessionID of
             None \<Rightarrow> (authFailure c ''invalid_session_id_format'' [] st,
                       Inl (dErrors_New CodeUnauthorized ''invalid session ID''))
           | Some u \<Rightarrow>
               (case SessionStore_FindByID (auth_sessions st) (SessionID u) of
                  Inl e \<Rightarrow> (let (st, e) = handleLookupError c e ''session'' [] st in (st, Inl e))
                | Inr session \<Rightarrow>
                    if \<not> Session_IsActive session
                    then (authFailure c ''session_not_active'' [] st,
                          Inl (dErrors_New CodeUnauthorized ''session not active''))
                    else
                      (case UserStore_FindByID (auth_users st) (Session_UserID session) of
                         Inl e \<Rightarrow>
                           (let (st, e) = handleLookupError c e ''user''
                                  (UserID_String env (Session_UserID session)) st in (st, Inl e))
                       | Inr user \<Rightarrow>
                           (logAudit c ''userinfo_accessed'' (UserID_String env (User_ID user)) st,
                            Inr \<lparr> ui_Sub = UserID_String env (User_ID user), ui_Email = User_Email user,
                                  ui_EmailVerified = User_Verified user,
                                  ui_GivenName = User_FirstName user, ui_FamilyName = User_LastName user,
                                  ui_Name = User_FirstName user @ '' '' @ User_LastName user \<rparr>))))"

text \<open>
  \<^verbatim>\<open>sort.Slice\<close> does not say in which order it leaves elements that compare equal. The
  sort is therefore an argument, and \<open>sorts_by lt\<close> is what the library promises of it.
\<close>

definition sorts_by :: "('a \<Rightarrow> 'a \<Rightarrow> bool) \<Rightarrow> ('a list \<Rightarrow> 'a list) \<Rightarrow> bool" where
  "sorts_by lt sort_Slice =
     (\<forall>xs. mset (sort_Slice xs) = mset xs \<and> sorted_wrt (\<lambda>x y. \<not> lt y x) (sort_Slice xs))"

definition summarize :: "auth_env \<Rightarrow> SessionID \<Rightarrow> Session \<Rightarrow> SessionSummary" where
  "summarize env currentSessionID session =
     (let binding = Session_GetDeviceBinding session in
      \<lparr> summary_SessionID = SessionID_String env (Session_ID session),
        summary_Device = DisplayNameOrDefault binding,
        summary_Location = DeviceBinding_ApproximateLocation binding,
        summary_CreatedAt = Session_CreatedAt session,
        summary_LastActivity = Session_LastSeenAt session,
        summary_IsCurrent = (Session_ID session = currentSessionID),
        summary_Status = SessionStatus_String (Session_Status session) \<rparr>)"

definition ListSessions ::
  "(Session list \<Rightarrow> Session list) \<Rightarrow> auth_env \<Rightarrow> ctx \<Rightarrow> UserID \<Rightarrow> SessionID \<Rightarrow> auth_state \<Rightarrow> SessionSummary list result" where
  "ListSessions sort_Slice env c userID currentSessionID st =
     (if UserID_IsNil userID then Inl (dErrors_New CodeUnauthorized ''user ID required'')
      else
        let sessions = SessionStore_ListByUser (auth_sessions st) userID;
            now = ctx_Now c;
            active = filter (\<lambda>s. Session_IsActive s \<and> \<not> Session_ExpiresAt s < now) sessions
        in Inr (map (summarize env currentSessionID) (sort_Slice active)))"

section \<open>Deletion of a user\<close>

text \<open>The body of its transaction.\<close>

definition deleteUser_tx :: "UserID \<Rightarrow> auth_state \<Rightarrow> auth_state \<times> unit result" where
  "deleteUser_tx userID st =
     (case SessionStore_DeleteSessionsByUser (auth_sessions st) userID of
        (sessions, err) \<Rightarrow>
          let st = st\<lparr> auth_sessions := sessions \<rparr> in
          (case (case err of None \<Rightarrow> None
                 | Some e \<Rightarrow> if \<not> errors_Is e (Sentinel ErrNotFound) then Some e else None) of
             Some e \<Rightarrow> (st, Inl (dErrors_Wrap e CodeInternal ''failed to delete user sessions''))
           | None \<Rightarrow>
               (case UserStore_Delete (auth_users st) userID of
                  (users, Some e) \<Rightarrow>
                    (st\<lparr> auth_users := users \<rparr>,
                     Inl (if errors_Is e (Sentinel ErrNotFound)
                          then dErrors_New CodeNotFound ''user not found''
                          else dErrors_Wrap e CodeInternal ''failed to delete user''))
                | (users, None) \<Rightarrow> (st\<lparr> auth_users := users \<rparr>, Inr ()))))"

definition DeleteUser :: "auth_env \<Rightarrow> ctx \<Rightarrow> UserID \<Rightarrow> auth_state \<Rightarrow> auth_state \<times> go_error option" where
  "DeleteUser env c userID st =
     (if UserID_IsNil userID then (st, Some (dErrors_New CodeBadRequest ''user ID required''))
      else case UserStore_FindByID (auth_users st) userID of
             Inl e \<Rightarrow>
               (st, Some (if errors_Is e (Sentinel ErrNotFound) then dErrors_New CodeNotFound ''user not found''
                          else dErrors_Wrap e CodeInternal ''failed to lookup user''))
           | Inr user \<Rightarrow>
               (case auth_RunInTx c (deleteUser_tx userID) st of
                  (st, Inl e) \<Rightarrow> (st, Some e)
                | (st, Inr _) \<Rightarrow>
                    (logAudit c ''user_deleted'' (UserID_String env userID)
                       (logAudit c ''sessions_revoked'' (UserID_String env userID) st), None)))"

section \<open>Lemmas about the operations\<close>

text \<open>The random values a request draws are new: they are not among the identifiers issued before,
  and no user has the user identifier.\<close>

definition new_code_text :: "auth_env \<Rightarrow> string" where
  "new_code_text env =
     authorizationCodePrefix @ TrimPrefix (env_uuid_String env (env_newCode env)) authorizationCodePrefix"

definition draws_fresh :: "issued \<Rightarrow> auth_env \<Rightarrow> auth_state \<Rightarrow> bool" where
  "draws_fresh K env st =
     (SessionID (env_newSessionID env) \<notin> iss_sessions K \<and> new_code_text env \<notin> iss_codes K \<and>
      env_CreateRefreshToken env \<notin> Inr ` iss_tokens K \<and>
      kv_get (auth_users st) (UserID (env_newUserID env)) = None)"

lemma auth_good_trl:
  assumes "TRL_RevokeToken now (auth_trl st) jti ttl = (trl, e)"
  shows "auth_good K st (st\<lparr> auth_trl := trl \<rparr>)"
    "auth_good K st (st\<lparr> auth_trl := trl, auth_trlWriteFailures := n \<rparr>)"
  using assms by (auto simp: auth_good_def auth_ok_def auth_evolves_def dest: trl_ok_RevokeToken(1))

lemma auth_good_delete_tokens:
  "auth_good K st (st\<lparr> auth_refreshTokens :=
     fst (RefreshStore_DeleteBySessionID (auth_refreshTokens st) sid) \<rparr>)"
  by (auto simp: auth_good_def auth_ok_def auth_evolves_def refresh_ok_ops(2))
    (simp add: RefreshStore_DeleteBySessionID_def Let_def kv_evolves_delete_where)

lemma RevokeSessionIfActive_cases:
  assumes "SessionStore_RevokeSessionIfActive m sid now = (m', oe)"
  obtains (missing) "kv_get m sid = None" "m' = m" "oe = Some (Sentinel ErrNotFound)"
  | (already) s where "kv_get m sid = Some s" "Session_IsRevoked s" "m' = m" "oe = Some ErrSessionRevoked"
  | (revoked) s where "kv_get m sid = Some s" "\<not> Session_IsRevoked s"
      "m' = kv_put m sid (Session_ApplyRevocation now s)" "oe = None"
  using assms
  by (auto simp: SessionStore_RevokeSessionIfActive_def Session_CanRevoke_def split: option.splits if_splits)

lemma RevokeSessionIfActive_good:
  assumes "SessionStore_RevokeSessionIfActive (auth_sessions st) sid now = (m', oe)"
  shows "auth_good K st (st\<lparr> auth_sessions := m' \<rparr>)"
  using assms
proof (cases rule: RevokeSessionIfActive_cases)
  case (revoked s)
  then show ?thesis
    by (auto simp: auth_good_def auth_ok_def auth_evolves_def kv_evolves_put revoke_reach
        dest: sessions_okD intro!: sessions_ok_put)
qed (simp_all add: auth_good_refl)

text \<open>
  What the internal revocation does: with a positive token lifetime the write to the revocation
  list never fails, so a session that exists and is not revoked ends up revoked, its last or given
  access token listed, and its refresh tokens gone.
\<close>

lemma revokeSessionInternal_cases:
  assumes "revokeSessionInternal env cfg c session jti st = (st', outcome, oe)" and "0 < cfg_TokenTTL cfg"
  obtains (missing) "kv_get (auth_sessions st) (Session_ID session) = None" "st' = st" "oe \<noteq> None"
  | (already) s where "kv_get (auth_sessions st) (Session_ID session) = Some s" "Session_IsRevoked s"
      "st' = st" "outcome = revokeSessionOutcomeAlreadyRevoked" "oe = None"
  | (revoked) s where "kv_get (auth_sessions st) (Session_ID session) = Some s" "\<not> Session_IsRevoked s"
      "outcome = revokeSessionOutcomeRevoked" "oe = None"
      "st' = st\<lparr> auth_sessions := kv_put (auth_sessions st) (Session_ID session)
                  (Session_ApplyRevocation (ctx_Now c) s),
               auth_trl := (let j = (if jti = [] then Session_LastAccessTokenJTI session else jti) in
                  if j = [] then auth_trl st
                  else fst (TRL_RevokeToken (env_trlClock env j) (auth_trl st) j (cfg_TokenTTL cfg))),
               auth_refreshTokens :=
                  fst (RefreshStore_DeleteBySessionID (auth_refreshTokens st) (Session_ID session)) \<rparr>"
proof -
  obtain m' e where m: "SessionStore_RevokeSessionIfActive (auth_sessions st) (Session_ID session) (ctx_Now c)
      = (m', e)" by fastforce
  have trl: "snd (TRL_RevokeToken t l j (cfg_TokenTTL cfg)) = None" for t l j
    using assms(2) by (auto simp: TRL_RevokeToken_def validateTTL_def Let_def split: option.splits)
  from m show thesis
  proof (cases rule: RevokeSessionIfActive_cases)
    case missing
    with m assms(1) show thesis
      by (intro that(1)) (auto simp: revokeSessionInternal_def ErrSessionRevoked_def error_matches_def)
  next
    case (already s)
    with m assms(1) show thesis
      by (intro that(2)) (auto simp: revokeSessionInternal_def ErrSessionRevoked_def error_matches_def)
  next
    case (revoked s)
    let ?j = "if jti = [] then Session_LastAccessTokenJTI session else jti"
    obtain l where l: "TRL_RevokeToken (env_trlClock env ?j) (auth_trl st) ?j (cfg_TokenTTL cfg) = (l, None)"
      using trl by (metis prod.collapse)
    from revoked m l assms(1) show thesis
      by (intro that(3)[of s]) (auto simp: revokeSessionInternal_def Let_def split: if_splits)
  qed
qed

lemma revokeSessionInternal_good:
  assumes "revokeSessionInternal env cfg c session jti st = (st', outcome, oe)"
  shows "auth_good K st st'"
proof -
  obtain m' e where m: "SessionStore_RevokeSessionIfActive (auth_sessions st) (Session_ID session) (ctx_Now c)
      = (m', e)" by fastforce
  let ?st = "st\<lparr> auth_sessions := m' \<rparr>"
  let ?j = "if jti = [] then Session_LastAccessTokenJTI session else jti"
  obtain l f where l: "TRL_RevokeToken (env_trlClock env ?j) (auth_trl ?st) ?j (cfg_TokenTTL cfg) = (l, f)" by fastforce
  note g1 = RevokeSessionIfActive_good[OF m, of K]
  note g2 = auth_good_trans[OF g1 auth_good_trl(1)[OF l]] auth_good_trans[OF g1 auth_good_trl(2)[OF l]]
  note g3 = auth_good_trans[OF g1 auth_good_delete_tokens]
    auth_good_trans[OF g2(1) auth_good_delete_tokens] auth_good_trans[OF g2(2) auth_good_delete_tokens]
  from assms m l g1 g2 g3 show ?thesis
    by (cases e; cases f; cases "?j = []")
      (auto simp: revokeSessionInternal_def Let_def split: if_splits)
qed

lemma revokeAndAudit_good: "auth_good K st (fst (revokeAndAudit env cfg c res st))"
proof -
  obtain s jti where res: "res = (s, jti)" by fastforce
  obtain st1 o1 e1 where r: "revokeSessionInternal env cfg c s jti st = (st1, o1, e1)" by (metis prod.exhaust)
  from revokeSessionInternal_good[OF r, of K] r res show ?thesis
    by (cases e1) (auto simp: revokeAndAudit_def intro: auth_good_stores)
qed

lemma RevokeToken_good: "auth_good K st (fst (RevokeToken env cfg c tok hint st))"
  using revokeAndAudit_good
  by (auto simp: RevokeToken_def Let_def auth_good_refl split: option.splits sum.splits)

lemma logout_loop_good:
  "auth_good K st (fst (logout_loop env cfg c cur ex sessions (st, res)))"
proof (induction sessions arbitrary: st res)
  case (Cons s sessions)
  obtain st1 o1 e1 where r: "revokeSessionInternal env cfg c s [] st = (st1, o1, e1)" by (metis prod.exhaust)
  note g = revokeSessionInternal_good[OF r, of K]
  then have "auth_good K st (logAudit c ev u st1)" for ev u by (rule auth_good_stores) simp
  from auth_good_trans[OF this Cons.IH] auth_good_trans[OF g Cons.IH] Cons.IH r show ?case
    by (cases e1) auto
qed (simp add: auth_good_refl)

lemma LogoutAll_good: "auth_good K st (fst (LogoutAll env cfg c u cur ex st))"
  using logout_loop_good[of K st env cfg c cur ex]
  by (auto simp: LogoutAll_def Let_def auth_good_refl split: prod.splits)

lemma SessionStore_Execute_good:
  assumes "SessionStore_Execute (auth_sessions st) sid validate mutate = (m', r, oe)"
    and "\<And>s. validate s = None \<Longrightarrow> session_reach s (mutate s)"
  shows "auth_good K st (st\<lparr> auth_sessions := m' \<rparr>)"
proof (cases "oe")
  case None
  with assms obtain s where s: "kv_get (auth_sessions st) sid = Some s" "session_reach s (mutate s)"
    "m' = kv_put (auth_sessions st) sid (mutate s)"
    by (auto simp: SessionStore_Execute_def split: option.splits)
  have "Session_ID (mutate s) = Session_ID s"
    using s(2)
    by (induction rule: rtranclp_induct)
      (auto dest!: session_step_identity simp: session_identity_def)
  with s show ?thesis
    by (auto simp: auth_good_def auth_ok_def auth_evolves_def kv_evolves_put session_reach_ok
        dest: sessions_okD intro!: sessions_ok_put)
next
  case (Some e)
  with assms(1) have "m' = auth_sessions st"
    by (auto simp: SessionStore_Execute_def split: option.splits)
  then show ?thesis by (simp add: auth_good_refl)
qed

lemma revokeSession_tokens_good: "auth_good K st (fst (revokeSession_tokens env cfg c s st))"
proof -
  let ?j = "Session_LastAccessTokenJTI s"
  obtain l f where l: "TRL_RevokeToken (env_trlClock env ?j) (auth_trl st) ?j (cfg_TokenTTL cfg) = (l, f)" by fastforce
  note g = auth_good_trl(1)[OF l, of K]
  have "auth_good K st (logAudit c ev u (st\<lparr> auth_refreshTokens :=
          fst (RefreshStore_DeleteBySessionID (auth_refreshTokens st) sid) \<rparr>))"
    "auth_good K st (logAudit c ev u (st\<lparr> auth_trl := l, auth_refreshTokens :=
          fst (RefreshStore_DeleteBySessionID (auth_refreshTokens st) sid) \<rparr>))" for ev u sid
    using auth_good_stores[OF auth_good_delete_tokens[of K st sid], of "logAudit c ev u _"]
      auth_good_stores[OF auth_good_trans[OF g auth_good_delete_tokens[of K _ sid]], of "logAudit c ev u _"]
    by auto
  with l g show ?thesis
    by (cases f; cases "?j = []") (simp_all add: revokeSession_tokens_def)
qed

lemma RevokeSession_eqs:
  assumes "\<not> UserID_IsNil u" "\<not> SessionID_IsNil sid"
  shows "kv_get (auth_sessions st) sid = None \<Longrightarrow>
      RevokeSession env cfg c u sid st = (st, Some (dErrors_New CodeNotFound ''session not found''))"
    "kv_get (auth_sessions st) sid = Some s \<Longrightarrow> Session_UserID s \<noteq> u \<Longrightarrow>
      RevokeSession env cfg c u sid st =
        (authFailure c ''session_owner_mismatch'' (UserID_String env u) st,
         Some (dErrors_New CodeForbidden ''forbidden''))"
    "kv_get (auth_sessions st) sid = Some s \<Longrightarrow> Session_UserID s = u \<Longrightarrow> Session_IsRevoked s \<Longrightarrow>
      RevokeSession env cfg c u sid st = (st, None)"
    "kv_get (auth_sessions st) sid = Some s \<Longrightarrow> Session_UserID s = u \<Longrightarrow> \<not> Session_IsRevoked s \<Longrightarrow>
      RevokeSession env cfg c u sid st =
        revokeSession_tokens env cfg c (Session_ApplyRevocation (ctx_Now c) s)
          (st\<lparr> auth_sessions := kv_put (auth_sessions st) sid (Session_ApplyRevocation (ctx_Now c) s) \<rparr>)"
  using assms
  by (simp_all add: RevokeSession_def SessionStore_Execute_def Session_CanRevoke_def err_simps update_triv)

lemma RevokeSession_good: "auth_good K st (fst (RevokeSession env cfg c u sid st))"
proof (cases "UserID_IsNil u \<or> SessionID_IsNil sid")
  case False
  then have f: "\<not> UserID_IsNil u" "\<not> SessionID_IsNil sid" by auto
  show ?thesis
  proof (cases "kv_get (auth_sessions st) sid")
    case (Some s)
    let ?s = "Session_ApplyRevocation (ctx_Now c) s"
    have x: "SessionStore_RevokeSessionIfActive (auth_sessions st) sid (ctx_Now c)
        = (kv_put (auth_sessions st) sid ?s, None)" if "\<not> Session_IsRevoked s"
      using Some that by (simp add: SessionStore_RevokeSessionIfActive_def Session_CanRevoke_def)
    show ?thesis
      using RevokeSession_eqs(2-4)[OF f Some, of env cfg c]
        auth_good_trans[OF RevokeSessionIfActive_good[OF x] revokeSession_tokens_good]
      by (cases "Session_UserID s = u"; cases "Session_IsRevoked s") (simp_all add: auth_good_refl)
  qed (simp add: RevokeSession_eqs(1)[OF f] auth_good_refl)
qed (auto simp: RevokeSession_def auth_good_refl)

lemma UserInfo_good: "auth_good K st (fst (UserInfo env c sid st))"
  by (auto simp: UserInfo_def Let_def auth_good_refl split: option.splits sum.splits)

lemma users_ok_del: "users_ok us \<Longrightarrow> users_ok (kv_del us k)"
  by (simp add: users_ok_def kv_all_del kv_values_distinct_del)

lemma deleteUser_tx_good: "auth_good K st (fst (deleteUser_tx u st))"
proof -
  have us: "users_ok us \<Longrightarrow> users_ok (fst (UserStore_Delete us u))" for us
    by (auto simp: UserStore_Delete_def users_ok_del split: option.splits)
  have g1: "auth_good K st (st\<lparr> auth_sessions := fst (SessionStore_DeleteSessionsByUser (auth_sessions st) u) \<rparr>)"
    by (auto simp: auth_good_def auth_ok_def auth_evolves_def sessions_ok_ops)
      (simp add: SessionStore_DeleteSessionsByUser_def Let_def kv_evolves_delete_where)
  have g2: "auth_good K st' (st'\<lparr> auth_users := fst (UserStore_Delete (auth_users st') u) \<rparr>)" for st'
    by (auto simp: auth_good_def auth_ok_def auth_evolves_def us)
  from g1 auth_good_trans[OF g1 g2] show ?thesis
    by (auto simp: deleteUser_tx_def Let_def split: prod.splits option.splits)
qed

lemma DeleteUser_good: "auth_good K st (fst (DeleteUser env c u st))"
  using auth_RunInTx_good[of K st "deleteUser_tx u" c, OF deleteUser_tx_good]
  by (auto simp: DeleteUser_def auth_good_refl split: prod.splits sum.splits
      intro: auth_good_stores)

lemma findOrCreateUser_ok:
  assumes "users_ok us" "kv_get us (UserID (env_newUserID env)) = None"
    and "findOrCreateUser env tid em us = (us', r)"
  shows "users_ok us'"
proof (cases "em = []")
  case True
  with assms show ?thesis by (auto simp: findOrCreateUser_def NewUser_def)
next
  case False
  obtain f l where n: "DeriveNameFromEmail (env_uni env) em = (f, l)" by fastforce
  obtain u where u: "NewUser (UserID (env_newUserID env)) tid em f l False = Inr u"
    "User_Email u = em" "User_TenantID u = tid" "User_ID u = UserID (env_newUserID env)"
    using False by (auto simp: NewUser_def)
  from assms users_ok_FindOrCreate[OF assms(1), of u em tid] NewUser_ok[OF u(1)] u n show ?thesis
    by (auto simp: findOrCreateUser_def split: prod.splits if_splits)
qed

lemma findOrCreateUser_Inr:
  assumes "users_ok us" and "findOrCreateUser env tid em us = (us', Inr (u, w))"
  shows "kv_get us' (User_ID u) = Some u" "User_IsActive u" "User_TenantID u = tid" "User_Email u = em"
proof -
  have em: "em \<noteq> []" using assms(2) by (auto simp: findOrCreateUser_def NewUser_def split: prod.splits)
  obtain f l where n: "DeriveNameFromEmail (env_uni env) em = (f, l)" by fastforce
  obtain x where x: "NewUser (UserID (env_newUserID env)) tid em f l False = Inr x"
    "User_Email x = em" "User_TenantID x = tid"
    using em by (auto simp: NewUser_def)
  have r: "UserStore_FindOrCreateByTenantAndEmail us tid em x = (us', u)"
    using assms(2) n x(1) by (auto simp: findOrCreateUser_def split: prod.splits if_splits)
  from FindOrCreate_result[OF assms(1) x(2,3) r]
  show "kv_get us' (User_ID u) = Some u" "User_TenantID u = tid" "User_Email u = em" by auto
  show "User_IsActive u"
    using assms(2) n x(1) by (auto simp: findOrCreateUser_def split: prod.splits if_splits)
qed

text \<open>What a successful authorization transaction leaves behind.\<close>

lemma authorize_tx_Inr:
  assumes "authorize_tx env cfg p st = (st', Inr res)"
  shows "Session_ID (ar_Session res) = SessionID (env_newSessionID env)"
    "Session_UserID (ar_Session res) = User_ID (ar_User res)"
    "Session_ClientID (ar_Session res) = rc_ID (ap_Client p)"
    "Session_TenantID (ar_Session res) = rt_ID (ap_Tenant p)"
    "Session_RequestedScope (ar_Session res) = ap_Scopes p"
    "Session_IsPendingConsent (ar_Session res)" "Session_ok (ar_Session res)"
    "Session_ExpiresAt (ar_Session res) = ap_Now p + cfg_SessionTTL cfg"
    "Code_Code (ar_AuthCode res) = new_code_text env"
    "Code_SessionID (ar_AuthCode res) = SessionID (env_newSessionID env)"
    "Code_RedirectURI (ar_AuthCode res) = ap_RedirectURI p" "\<not> Code_Used (ar_AuthCode res)"
    "Code_ExpiresAt (ar_AuthCode res) = ap_Now p + 10 * minute" "Code_ok (ar_AuthCode res)"
    "\<exists>us w. findOrCreateUser env (rt_ID (ap_Tenant p)) (ap_Email p) (auth_users st) = (us, Inr (ar_User res, w)) \<and>
       st' = st\<lparr> auth_users := us,
              auth_sessions := kv_put (auth_sessions st) (Session_ID (ar_Session res)) (ar_Session res),
              auth_codes := kv_put (auth_codes st) (Code_Code (ar_AuthCode res)) (ar_AuthCode res) \<rparr>"
proof -
  obtain us w s0 b where f: "findOrCreateUser env (rt_ID (ap_Tenant p)) (ap_Email p) (auth_users st)
      = (us, Inr (ar_User res, w))"
    and s0: "NewSession (SessionID (env_newSessionID env)) (User_ID (ar_User res)) (rc_ID (ap_Client p))
      (rt_ID (ap_Tenant p)) (ap_Scopes p) SessionStatusPendingConsent (ap_Now p)
      (ap_Now p + cfg_SessionTTL cfg) (ap_Now p) = Inr s0" "ar_Session res = Session_SetDeviceBinding b s0"
    and a: "NewAuthorizationCode (env_newCodeRecordID env) (env_uuid_String env (env_newCode env))
      (SessionID (env_newSessionID env)) (ap_RedirectURI p) (ap_Now p) (ap_Now p + 10 * minute) (ap_Now p)
      = Inr (ar_AuthCode res)"
    and st': "st' = st\<lparr> auth_users := us,
      auth_sessions := kv_put (auth_sessions st) (Session_ID (ar_Session res)) (ar_Session res),
      auth_codes := kv_put (auth_codes st) (Code_Code (ar_AuthCode res)) (ar_AuthCode res) \<rparr>"
    using assms
    by (auto simp: authorize_tx_def SessionStore_Create_def CodeStore_Create_def Let_def
        split: prod.splits sum.splits)
  note n = NewSession_Inr[OF s0(1)]
  show "Session_ID (ar_Session res) = SessionID (env_newSessionID env)"
    "Session_UserID (ar_Session res) = User_ID (ar_User res)"
    "Session_ClientID (ar_Session res) = rc_ID (ap_Client p)"
    "Session_TenantID (ar_Session res) = rt_ID (ap_Tenant p)"
    "Session_RequestedScope (ar_Session res) = ap_Scopes p"
    "Session_IsPendingConsent (ar_Session res)"
    "Session_ExpiresAt (ar_Session res) = ap_Now p + cfg_SessionTTL cfg"
    using n s0(2) by (simp_all add: Session_SetDeviceBinding_def Session_IsPendingConsent_def)
  show "Session_ok (ar_Session res)" using n(12) s0(2) by simp
  show "Code_Code (ar_AuthCode res) = new_code_text env"
    "Code_SessionID (ar_AuthCode res) = SessionID (env_newSessionID env)"
    "Code_RedirectURI (ar_AuthCode res) = ap_RedirectURI p" "\<not> Code_Used (ar_AuthCode res)"
    "Code_ExpiresAt (ar_AuthCode res) = ap_Now p + 10 * minute" "Code_ok (ar_AuthCode res)"
    using NewAuthorizationCode_Inr[OF a] NewAuthorizationCode_ok[OF a] by (simp_all add: new_code_text_def)
  show "\<exists>us w. findOrCreateUser env (rt_ID (ap_Tenant p)) (ap_Email p) (auth_users st) = (us, Inr (ar_User res, w)) \<and>
       st' = st\<lparr> auth_users := us,
              auth_sessions := kv_put (auth_sessions st) (Session_ID (ar_Session res)) (ar_Session res),
              auth_codes := kv_put (auth_codes st) (Code_Code (ar_AuthCode res)) (ar_AuthCode res) \<rparr>"
    using f st' by blast
qed

text \<open>A failed one may leave the user and the session it created, but only as the invariant
  allows.\<close>

lemma authorize_tx_good:
  assumes "draws_fresh K env st"
  shows "auth_good K st (fst (authorize_tx env cfg p st))"
proof -
  obtain us r where f: "findOrCreateUser env (rt_ID (ap_Tenant p)) (ap_Email p) (auth_users st) = (us, r)"
    by fastforce
  have g1: "auth_good K st (st\<lparr> auth_users := us \<rparr>)"
    using findOrCreateUser_ok[OF _ _ f] assms
    by (auto simp: auth_good_def auth_ok_def auth_evolves_def draws_fresh_def)
  have g2: "auth_good K st' (st'\<lparr> auth_sessions := kv_put (auth_sessions st') (Session_ID s) s \<rparr>)"
    if "Session_ID s = SessionID (env_newSessionID env)" "Session_ok s" for st' s
    using that assms
    by (auto simp: auth_good_def auth_ok_def auth_evolves_def draws_fresh_def kv_evolves_fresh sessions_ok_put)
  have g3: "auth_good K st' (st'\<lparr> auth_codes := kv_put (auth_codes st') (Code_Code a) a \<rparr>)"
    if "Code_Code a = new_code_text env" "Code_ok a" for st' a
    using that assms
    by (auto simp: auth_good_def auth_ok_def auth_evolves_def draws_fresh_def kv_evolves_fresh codes_ok_put)
  show ?thesis
  proof (cases "\<exists>u w s. r = Inr (u, w) \<and> NewSession (SessionID (env_newSessionID env)) (User_ID u)
      (rc_ID (ap_Client p)) (rt_ID (ap_Tenant p)) (ap_Scopes p) SessionStatusPendingConsent (ap_Now p)
      (ap_Now p + cfg_SessionTTL cfg) (ap_Now p) = Inr s")
    case False
    with f g1 show ?thesis
      by (auto simp: authorize_tx_def Let_def split: sum.splits prod.splits)
  next
    case True
    then obtain u w s where r: "r = Inr (u, w)" and s: "NewSession (SessionID (env_newSessionID env)) (User_ID u)
      (rc_ID (ap_Client p)) (rt_ID (ap_Tenant p)) (ap_Scopes p) SessionStatusPendingConsent (ap_Now p)
      (ap_Now p + cfg_SessionTTL cfg) (ap_Now p) = Inr s" by blast
    let ?s = "\<lambda>b. Session_SetDeviceBinding b s"
    have s': "Session_ID (?s b) = SessionID (env_newSessionID env)" "Session_ok (?s b)" for b
      using NewSession_Inr[OF s] by simp_all
    note g12 = auth_good_trans[OF g1 g2[OF s']]
    show ?thesis
    proof (cases "NewAuthorizationCode (env_newCodeRecordID env) (env_uuid_String env (env_newCode env))
      (SessionID (env_newSessionID env)) (ap_RedirectURI p) (ap_Now p) (ap_Now p + 10 * minute) (ap_Now p)")
      case (Inl e)
      with f r s g12 show ?thesis by (simp add: authorize_tx_def SessionStore_Create_def)
    next
      case (Inr a)
      then have "Code_Code a = new_code_text env" "Code_ok a"
        using NewAuthorizationCode_Inr(1)[OF Inr] NewAuthorizationCode_ok[OF Inr]
        by (simp_all add: new_code_text_def)
      from auth_good_trans[OF g12 g3[OF this]] f r s Inr show ?thesis
        by (simp add: authorize_tx_def SessionStore_Create_def CodeStore_Create_def Let_def)
    qed
  qed
qed

lemma emitAuthorizeAuditEvents_stores [simp]:
  "auth_stores (emitAuthorizeAuditEvents env c res st) = auth_stores st"
  by (simp add: emitAuthorizeAuditEvents_def Let_def)

lemma Authorize_good:
  assumes "draws_fresh K env st"
  shows "auth_good K st (fst (Authorize env cfg c req st))"
proof -
  have "auth_good K st (fst (authorizeInTx env cfg c p st))" for p
    unfolding authorizeInTx_def by (intro auth_RunInTx_good authorize_tx_good assms)
  then have g: "auth_good K st st1" if "authorizeInTx env cfg c p st = (st1, r)" for p st1 r
    using that by (metis fst_conv)
  then have "auth_good K st (emitAuthorizeAuditEvents env c res st1)"
    if "authorizeInTx env cfg c p st = (st1, r)" for p st1 r res
    using that auth_good_stores[OF g[OF that], of "emitAuthorizeAuditEvents env c res st1"] by simp
  with g show ?thesis
    by (auto simp: Authorize_def Let_def auth_good_refl split: option.splits sum.splits prod.splits)
qed

end
