(* ===== verification/Auth_System.thy ===== *)
theory Auth_System
  imports Auth_Sessions
begin

text \<open>
  The authentication service as a transition system: every operation, every cleanup step, and the
  transaction of an exchange or a refresh on its own, so that other requests may come between the
  reads a request makes and its transaction. The writes of a revocation are steps of their own as well,
  each locked by its store alone: whatever comes between the sessions a logout visits, or between the
  revocation of a session, of its access token and of its refresh tokens, is a run. The properties of the component are proved over the runs
  of this system.
\<close>

section \<open>Steps and runs\<close>

inductive auth_step :: "issued \<Rightarrow> auth_config \<Rightarrow> auth_state \<Rightarrow> auth_state \<Rightarrow> bool" for K cfg where
  authorize: "draws_fresh K env st \<Longrightarrow> auth_step K cfg st (fst (Authorize env cfg c req st))"
| token: "draws_fresh K env st \<Longrightarrow> auth_step K cfg st (fst (Token env cfg c treq st))"
| exchange_commit:
    "Refresh_ok (art_refreshRecord art) \<Longrightarrow> Refresh_Token (art_refreshRecord art) \<notin> iss_tokens K \<Longrightarrow>
     auth_step K cfg st (fst (auth_RunInTx c (exchange_tx cfg c code uri s tc art) st))"
| refresh_commit:
    "Refresh_ok (art_refreshRecord art) \<Longrightarrow> Refresh_Token (art_refreshRecord art) \<notin> iss_tokens K \<Longrightarrow>
     auth_step K cfg st (fst (auth_RunInTx c (refresh_tx cfg c tok s tc art) st))"
| revoke_token: "auth_step K cfg st (fst (RevokeToken env cfg c tok hint st))"
| revoke_session: "auth_step K cfg st (fst (RevokeSession env cfg c u sid st))"
| logout_all: "auth_step K cfg st (fst (LogoutAll env cfg c u sid keep st))"
| revoke_if_active:
    "auth_step K cfg st (st\<lparr> auth_sessions := fst (SessionStore_RevokeSessionIfActive (auth_sessions st) sid now) \<rparr>)"
| trl_revoke: "auth_step K cfg st (st\<lparr> auth_trl := fst (TRL_RevokeToken now (auth_trl st) jti ttl) \<rparr>)"
| drop_session_tokens:
    "auth_step K cfg st (st\<lparr> auth_refreshTokens := fst (RefreshStore_DeleteBySessionID (auth_refreshTokens st) sid) \<rparr>)"
| user_info: "auth_step K cfg st (fst (UserInfo env c sidtext st))"
| delete_user: "auth_step K cfg st (fst (DeleteUser env c u st))"
| expire_sessions:
    "auth_step K cfg st (st\<lparr> auth_sessions := fst (SessionStore_DeleteExpiredSessions (auth_sessions st) now) \<rparr>)"
| expire_codes:
    "auth_step K cfg st (st\<lparr> auth_codes := fst (CodeStore_DeleteExpiredCodes (auth_codes st) now) \<rparr>)"
| expire_tokens:
    "auth_step K cfg st (st\<lparr> auth_refreshTokens := fst (RefreshStore_DeleteExpiredTokens (auth_refreshTokens st) now) \<rparr>)"
| drop_used_tokens:
    "auth_step K cfg st (st\<lparr> auth_refreshTokens := fst (RefreshStore_DeleteUsedTokens (auth_refreshTokens st)) \<rparr>)"
| trl_tick: "auth_step K cfg st (st\<lparr> auth_trl := TRL_cleanup_tick now (auth_trl st) \<rparr>)"

inductive_cases auth_stepE: "auth_step K cfg st st'"

abbreviation auth_run :: "issued \<Rightarrow> auth_config \<Rightarrow> auth_state \<Rightarrow> auth_state \<Rightarrow> bool" where
  "auth_run K cfg \<equiv> (auth_step K cfg)\<^sup>*\<^sup>*"

definition auth_init :: "nat option \<Rightarrow> auth_state" where
  "auth_init maxSize =
     \<lparr> auth_users = [], auth_sessions = [], auth_codes = [], auth_refreshTokens = [],
       auth_trl = NewInMemoryTRL maxSize, auth_audit = [], auth_authFailures = 0,
       auth_usersCreated = 0, auth_activeSessions = 0, auth_tokenRequests = 0,
       auth_trlWriteFailures = 0, auth_refreshReuseDetections = 0 \<rparr>"

lemma auth_ok_init: "auth_ok (auth_init n)"
  by (simp add: auth_ok_def auth_init_def NewInMemoryTRL_def trl_ok_def sessions_ok_def codes_ok_def
      refresh_ok_def users_ok_def kv_values_def)

lemma auth_step_good: "auth_step K cfg st st' \<Longrightarrow> auth_good K st st'"
proof (induction rule: auth_step.induct)
  case (authorize env st c req)
  then show ?case by (rule Authorize_good)
next
  case (token env st c treq)
  then show ?case by (intro Token_good) (simp add: draws_fresh_def)
next
  case (expire_sessions st now)
  show ?case
    by (auto simp: auth_good_def auth_ok_def auth_evolves_def sessions_ok_ops)
      (simp add: SessionStore_DeleteExpiredSessions_def kv_evolves_delete_where)
next
  case (expire_codes st now)
  show ?case
    by (auto simp: auth_good_def auth_ok_def auth_evolves_def codes_ok_ops)
      (simp add: CodeStore_DeleteExpiredCodes_def kv_evolves_delete_where)
next
  case (expire_tokens st now)
  show ?case
    by (auto simp: auth_good_def auth_ok_def auth_evolves_def refresh_ok_ops)
      (simp add: RefreshStore_DeleteExpiredTokens_def kv_evolves_delete_where)
next
  case (drop_used_tokens st)
  show ?case
    by (auto simp: auth_good_def auth_ok_def auth_evolves_def refresh_ok_ops)
      (simp add: RefreshStore_DeleteUsedTokens_def kv_evolves_delete_where)
next
  case (revoke_if_active st sid now)
  show ?case using RevokeSessionIfActive_good[OF prod.collapse[symmetric]] .
next
  case (trl_revoke st now jti ttl)
  show ?case using auth_good_trl(1)[OF prod.collapse[symmetric]] .
next
  case (drop_session_tokens st sid)
  show ?case by (rule auth_good_delete_tokens)
next
  case (trl_tick st now)
  show ?case
    by (auto simp: auth_good_def auth_ok_def auth_evolves_def trl_ok_cleanup_tick)
qed (auto intro: auth_RunInTx_good exchange_tx_good refresh_tx_good RevokeToken_good RevokeSession_good
       LogoutAll_good UserInfo_good DeleteUser_good)

lemma auth_run_good: "auth_run K cfg st st' \<Longrightarrow> auth_good K st st'"
  by (induction rule: rtranclp_induct) (auto intro: auth_good_refl auth_good_trans auth_step_good)

lemma auth_run_used_code:
  assumes "auth_run K cfg st st'" "auth_ok st" "code \<in> iss_codes K"
    and "kv_get (auth_codes st) code = Some a" "Code_Used a"
  shows "auth_ok st'" "\<And>b. kv_get (auth_codes st') code = Some b \<Longrightarrow> Code_Used b"
proof -
  from auth_run_good[OF assms(1)] assms(2)
  have g: "auth_ok st'" "auth_evolves K st st'" by (auto simp: auth_good_def)
  then show "auth_ok st'" by simp
  fix b assume "kv_get (auth_codes st') code = Some b"
  with g(2) assms(3,4) have "code_evolution a b"
    by (auto simp: auth_evolves_def dest: kv_evolvesD)
  with assms(5) show "Code_Used b" by (simp add: code_evolution_def)
qed

lemma auth_run_used_token:
  assumes "auth_run K cfg st st'" "auth_ok st" "tok \<in> iss_tokens K"
    and "kv_get (auth_refreshTokens st) tok = Some a" "Refresh_Used a"
  shows "auth_ok st'" "\<And>b. kv_get (auth_refreshTokens st') tok = Some b \<Longrightarrow> Refresh_Used b"
proof -
  from auth_run_good[OF assms(1)] assms(2)
  have g: "auth_ok st'" "auth_evolves K st st'" by (auto simp: auth_good_def)
  then show "auth_ok st'" by simp
  fix b assume "kv_get (auth_refreshTokens st') tok = Some b"
  with g(2) assms(3,4) have "refresh_evolution a b"
    by (auto simp: auth_evolves_def dest: kv_evolvesD)
  with assms(5) show "Refresh_Used b" by (simp add: refresh_evolution_def)
qed

lemma session_reach_revoked: "session_reach s s' \<Longrightarrow> Session_IsRevoked s \<Longrightarrow> Session_IsRevoked s'"
  by (induction rule: rtranclp_induct) (auto dest: session_step_revoked)

lemma auth_run_revoked:
  assumes "auth_run K cfg st st'" "auth_ok st" "sid \<in> iss_sessions K"
    and "kv_get (auth_sessions st) sid = Some s" "Session_IsRevoked s"
    and "kv_get (auth_sessions st') sid = Some s'"
  shows "Session_IsRevoked s'"
proof -
  from auth_run_good[OF assms(1)] assms(2) have "auth_evolves K st st'" by (auto simp: auth_good_def)
  with assms(3,4,6) have "session_reach s s'"
    by (auto simp: auth_evolves_def dest: kv_evolvesD)
  with assms(5) show ?thesis using session_reach_revoked by blast
qed

lemma advance_revoked_fails:
  assumes "\<And>s'. kv_get (auth_sessions st) (Session_ID ps) = Some s' \<Longrightarrow> Session_IsRevoked s'"
  shows "\<exists>e. executeTokenFlowTx cfg c ps tc a art st = (st, Inl e)"
proof -
  obtain st' r where x: "executeTokenFlowTx cfg c ps tc a art st = (st', r)" by fastforce
  show ?thesis
  proof (cases r)
    case (Inl e)
    with x executeTokenFlowTx_Inl[of cfg c ps tc a art st st' e] show ?thesis by auto
  next
    case (Inr s')
    with x obtain s where "kv_get (auth_sessions st) (Session_ID ps) = Some s"
      "Session_ValidateForAdvance s (rc_ID (tc_Client tc)) (ctx_Now c) a = None"
      by (metis executeTokenFlowTx_Inr)
    with assms show ?thesis
      by (auto simp: Session_ValidateForAdvance_None session_status_defs)
  qed
qed

text \<open>A code or token that is absent or used is never consumed.\<close>

lemma exchange_tx_not_consumed:
  assumes "\<And>b. kv_get (auth_codes st) code = Some b \<Longrightarrow> Code_Used b"
  shows "\<exists>st' e. exchange_tx cfg c code uri s tc art st = (st', Inl e) \<and>
                 auth_refreshTokens st' = auth_refreshTokens st"
proof -
  obtain st1 r where x: "consumeCodeWithReplayProtection code uri (ctx_Now c) st = (st1, r)" by fastforce
  then show ?thesis
  proof (cases rule: consumeCode_cases)
    case (rejected rec e oe)
    from rejected(3) have "auth_refreshTokens st1 = auth_refreshTokens st"
      by (cases rule: revokeSessionOnReplay_cases) auto
    with rejected x show ?thesis by (simp add: exchange_tx_def)
  next
    case (consumed rec)
    with assms show ?thesis by (auto simp: Code_ValidateForConsume_None)
  qed (use x in \<open>simp add: exchange_tx_def\<close>)
qed

lemma refresh_tx_not_consumed:
  assumes "\<And>b. kv_get (auth_refreshTokens st) tok = Some b \<Longrightarrow> Refresh_Used b"
  shows "\<exists>st' e. refresh_tx cfg c tok s tc art st = (st', Inl e) \<and>
                 auth_refreshTokens st' = auth_refreshTokens st"
proof -
  obtain st1 r where x: "consumeRefreshTokenWithReplayProtection tok (ctx_Now c) st = (st1, r)" by fastforce
  then show ?thesis
  proof (cases rule: consumeRefresh_cases)
    case (rejected rec e oe st'')
    from rejected(3) have "auth_refreshTokens st'' = auth_refreshTokens st"
      by (cases rule: revokeSessionOnReplay_cases) auto
    with rejected x auth_stores_eqD(4)[OF rejected(4)] show ?thesis by (simp add: refresh_tx_def)
  next
    case (consumed rec)
    with assms show ?thesis by (auto simp: Refresh_ValidateForConsume_None)
  qed (use x in \<open>simp add: refresh_tx_def\<close>)
qed

lemma exchange_tx_consumed:
  assumes "exchange_tx cfg c code uri s tc art st = (st', Inr s')"
  obtains rec sess where "kv_get (auth_codes st) code = Some rec"
    "Code_ValidateForConsume rec uri (ctx_Now c) = None"
    "auth_codes st' = kv_put (auth_codes st) code (fst (Code_MarkUsed rec))"
    "kv_get (auth_sessions st) (Session_ID s) = Some sess"
    "Session_ValidateForAdvance sess (rc_ID (tc_Client tc)) (ctx_Now c) True = None"
    "auth_sessions st' = kv_put (auth_sessions st) (Session_ID s) s'"
    "s' = advanceSession c True art (applyDeviceBinding cfg c (s\<lparr> Session_TenantID := rt_ID (tc_Tenant tc) \<rparr>)) sess"
    "auth_refreshTokens st' = kv_put (auth_refreshTokens st)
       (Refresh_Token (art_refreshRecord art)) (art_refreshRecord art)"
    "auth_users st' = auth_users st"
proof -
  obtain st1 r where x: "consumeCodeWithReplayProtection code uri (ctx_Now c) st = (st1, r)" by fastforce
  then show thesis
  proof (cases rule: consumeCode_cases)
    case (consumed rec)
    with x assms have "executeTokenFlowTx cfg c (s\<lparr> Session_TenantID := rt_ID (tc_Tenant tc) \<rparr>) tc True art st1
        = (st', Inr s')" by (simp add: exchange_tx_def)
    then obtain sess where "kv_get (auth_sessions st1) (Session_ID s) = Some sess"
      "Session_ValidateForAdvance sess (rc_ID (tc_Client tc)) (ctx_Now c) True = None"
      "s' = advanceSession c True art (applyDeviceBinding cfg c (s\<lparr> Session_TenantID := rt_ID (tc_Tenant tc) \<rparr>)) sess"
      "st' = st1\<lparr> auth_sessions := kv_put (auth_sessions st1) (Session_ID s) s',
        auth_refreshTokens := kv_put (auth_refreshTokens st1)
          (Refresh_Token (art_refreshRecord art)) (art_refreshRecord art) \<rparr>"
      by (auto elim!: executeTokenFlowTx_Inr)
    with consumed show thesis by (intro that[of rec sess]) simp_all
  qed (use x assms in \<open>auto simp: exchange_tx_def\<close>)
qed

lemma refresh_tx_consumed:
  assumes "refresh_tx cfg c tok s tc art st = (st', Inr s')"
  obtains rec sess where "kv_get (auth_refreshTokens st) tok = Some rec"
    "Refresh_ValidateForConsume rec (ctx_Now c) = None"
    "auth_refreshTokens st' = kv_put (kv_put (auth_refreshTokens st) tok (fst (Refresh_MarkUsed (ctx_Now c) rec)))
       (Refresh_Token (art_refreshRecord art)) (art_refreshRecord art)"
    "kv_get (auth_sessions st) (Session_ID s) = Some sess"
    "Session_ValidateForAdvance sess (rc_ID (tc_Client tc)) (ctx_Now c) False = None"
    "auth_sessions st' = kv_put (auth_sessions st) (Session_ID s) s'"
    "s' = advanceSession c False art (applyDeviceBinding cfg c s) sess"
    "auth_users st' = auth_users st"
proof -
  obtain st1 r where x: "consumeRefreshTokenWithReplayProtection tok (ctx_Now c) st = (st1, r)" by fastforce
  then show thesis
  proof (cases rule: consumeRefresh_cases)
    case (consumed rec)
    with x assms have "executeTokenFlowTx cfg c s tc False art st1 = (st', Inr s')"
      by (simp add: refresh_tx_def)
    then obtain sess where "kv_get (auth_sessions st1) (Session_ID s) = Some sess"
      "Session_ValidateForAdvance sess (rc_ID (tc_Client tc)) (ctx_Now c) False = None"
      "s' = advanceSession c False art (applyDeviceBinding cfg c s) sess"
      "st' = st1\<lparr> auth_sessions := kv_put (auth_sessions st1) (Session_ID s) s',
        auth_refreshTokens := kv_put (auth_refreshTokens st1)
          (Refresh_Token (art_refreshRecord art)) (art_refreshRecord art) \<rparr>"
      by (auto elim!: executeTokenFlowTx_Inr)
    with consumed show thesis by (intro that[of rec sess]) simp_all
  qed (use x assms in \<open>auto simp: refresh_tx_def\<close>)
qed

section \<open>Example data\<close>

text \<open>A user, a pending session, its code, an active session and its refresh token, on which the
  properties are applied.\<close>

definition ex_cfg :: auth_config where
  "ex_cfg = applyDefaults \<lparr> cfg_SessionTTL = 0, cfg_TokenTTL = 0, cfg_RefreshTokenTTL = 0,
     cfg_AllowedRedirectSchemes = [], cfg_DeviceBindingEnabled = True, cfg_TRLFailureMode = [] \<rparr>"

definition ex_ctx :: "time \<Rightarrow> ctx" where
  "ex_ctx t = \<lparr> ctx_Now = t, ctx_DeviceID = ''dev'', ctx_DeviceFingerprint = ''fp'', ctx_UserAgent = [],
     ctx_APIVersion = [], ctx_RequestID = ''req'', ctx_AdminActorID = [], ctx_ErrEntry = None, ctx_ErrLocked = None \<rparr>"

definition ex_user :: User where
  "ex_user = \<lparr> User_ID = UserID 1, User_TenantID = TenantID 7, User_Email = ''a@b.c'', User_FirstName = ''A'',
     User_LastName = ''User'', User_Verified = False, User_Status = UserStatusActive \<rparr>"

definition ex_session :: "uuid \<Rightarrow> SessionStatus \<Rightarrow> Session" where
  "ex_session i status = \<lparr> Session_ID = SessionID i, Session_UserID = UserID 1, Session_ClientID = ClientID 5,
     Session_TenantID = TenantID 7, Session_RequestedScope = [''openid''], Session_Status = status,
     Session_LastRefreshedAt = None, Session_LastAccessTokenJTI = ''jti'' , Session_DeviceID = [],
     Session_DeviceFingerprintHash = [], Session_DeviceDisplayName = [], Session_ApproximateLocation = [],
     Session_CreatedAt = 0, Session_ExpiresAt = 1000, Session_LastSeenAt = 0, Session_RevokedAt = None \<rparr>"

definition ex_code :: "bool \<Rightarrow> AuthorizationCodeRecord" where
  "ex_code used = \<lparr> Code_ID = 21, Code_Code = ''authz_k'', Code_SessionID = SessionID 2,
     Code_RedirectURI = ''https://app'', Code_ExpiresAt = 600, Code_Used = used, Code_CreatedAt = 0 \<rparr>"

definition ex_refresh :: "string \<Rightarrow> uuid \<Rightarrow> bool \<Rightarrow> RefreshTokenRecord" where
  "ex_refresh tok sid used = \<lparr> Refresh_ID = 31, Refresh_Token = tok, Refresh_SessionID = SessionID sid,
     Refresh_ExpiresAt = 900, Refresh_Used = used, Refresh_LastRefreshedAt = None, Refresh_CreatedAt = 0 \<rparr>"

definition ex_state :: "bool \<Rightarrow> auth_state" where
  "ex_state used =
     (auth_init None)\<lparr> auth_users := [(UserID 1, ex_user)],
        auth_sessions := [(SessionID 2, ex_session 2 SessionStatusPendingConsent),
                          (SessionID 3, ex_session 3 SessionStatusActive)],
        auth_codes := [(''authz_k'', ex_code used)],
        auth_refreshTokens := [(''tok'', ex_refresh ''tok'' 3 used)] \<rparr>"

definition ex_client :: ResolvedClient where
  "ex_client = \<lparr> rc_ID = ClientID 5, rc_TenantID = TenantID 7, rc_OAuthClientID = ''cid'',
     rc_RedirectURIs = [''https://app''], rc_AllowedScopes = [], rc_Active = True \<rparr>"

definition ex_tenant :: ResolvedTenant where
  "ex_tenant = \<lparr> rt_ID = TenantID 7, rt_Active = True \<rparr>"

definition ex_tc :: "Session \<Rightarrow> tokenContext" where
  "ex_tc s = \<lparr> tc_Session = s, tc_Client = ex_client, tc_Tenant = ex_tenant, tc_User = ex_user \<rparr>"

definition ex_art :: "string \<Rightarrow> uuid \<Rightarrow> tokenArtifacts" where
  "ex_art tok sid = \<lparr> art_accessToken = ''at'', art_accessTokenJTI = ''jti2'', art_idToken = ''idt'',
     art_refreshToken = tok, art_refreshRecord = ex_refresh tok sid False, art_tokenType = ''Bearer'' \<rparr>"

definition ex_issued :: issued where
  "ex_issued = \<lparr> iss_sessions = {SessionID 2, SessionID 3}, iss_codes = {''authz_k''}, iss_tokens = {''tok''} \<rparr>"

definition ex_env :: auth_env where
  "ex_env =
     \<lparr> env_ResolveClient = (\<lambda>_. Inr (ex_client, ex_tenant)),
       env_GenerateAccessTokenWithJTI = (\<lambda>_ _ _ _ _ _. Inr (''at'', ''jti2'')),
       env_GenerateIDToken = (\<lambda>_ _ _ _ _. Inr ''idt''),
       env_CreateRefreshToken = Inr ''tok2'', env_TokenType = ''Bearer'',
       env_ParseTokenSkipClaimsValidation =
         (\<lambda>_. Inr \<lparr> claims_SessionID = ''3'', claims_ID = ''jti'' \<rparr>),
       env_uuid_Parse = (\<lambda>s. if s = ''3'' then Some 3 else None),
       env_uuid_String = (\<lambda>_. ''u''),
       env_url_Parse = (\<lambda>s. Some \<lparr> url_Scheme = ''https'', url_Host = ''app'', url_String = s,
                              url_WithQuery = (\<lambda>_. s) \<rparr>),
       env_useragent_New = (\<lambda>_. \<lparr> ua_Browser = [], ua_Version = [], ua_OS = [], ua_Platform = [], ua_Mobile = False \<rparr>),
       env_uni = id, env_uni_fold = (\<lambda>_ _. False),
       env_trlClock = (\<lambda>_. 10), env_newUserID = 91, env_newSessionID = 92, env_newCodeRecordID = 93, env_newCode = 94,
       env_newRefreshRecordID = 95, env_newDeviceID = 96 \<rparr>"

lemmas ex_defs = ex_cfg_def ex_ctx_def ex_user_def ex_session_def ex_code_def ex_refresh_def ex_state_def
  ex_client_def ex_tenant_def ex_tc_def ex_art_def ex_issued_def

lemma ex_state_ok: "auth_ok (ex_state used)"
  by (simp add: auth_ok_def ex_defs auth_init_def NewInMemoryTRL_def trl_ok_def sessions_ok_def codes_ok_def
      refresh_ok_def users_ok_def kv_values_def kv_all_def Session_ok_def SessionStatus_IsValid_def
      session_status_defs Code_ok_def has_prefix_def starts_with_def authorizationCodePrefix_def
      Refresh_ok_def User_ok_def)

lemma ex_state_lookups [simp]:
  "kv_get (auth_codes (ex_state u)) ''authz_k'' = Some (ex_code u)"
  "kv_get (auth_refreshTokens (ex_state u)) ''tok'' = Some (ex_refresh ''tok'' 3 u)"
  "kv_get (auth_sessions (ex_state u)) (SessionID 2) = Some (ex_session 2 SessionStatusPendingConsent)"
  "kv_get (auth_sessions (ex_state u)) (SessionID 3) = Some (ex_session 3 SessionStatusActive)"
  by (simp_all add: ex_state_def)

lemma ex_exchange:
  "\<exists>st s. exchange_tx ex_cfg (ex_ctx 10) ''authz_k'' ''https://app'' (ex_session 2 SessionStatusPendingConsent)
     (ex_tc (ex_session 2 SessionStatusPendingConsent)) art (ex_state False) = (st, Inr s)"
  by (simp add: exchange_tx_def consumeCodeWithReplayProtection_def CodeStore_Execute_def
      executeTokenFlowTx_def SessionStore_Execute_def RefreshStore_Create_def Code_ValidateForConsume_def
      Code_IsExpired_def Session_ValidateForAdvance_def Session_CanAdvance_def session_status_defs
      ex_state_def ex_code_def ex_ctx_def ex_session_def ex_tc_def ex_client_def Let_def)

lemma ex_refresh_run:
  "\<exists>st s. refresh_tx ex_cfg (ex_ctx 10) ''tok'' (ex_session 3 SessionStatusActive)
     (ex_tc (ex_session 3 SessionStatusActive)) art (ex_state False) = (st, Inr s)"
  by (simp add: refresh_tx_def consumeRefreshTokenWithReplayProtection_def RefreshStore_Execute_def
      executeTokenFlowTx_def SessionStore_Execute_def RefreshStore_Create_def Refresh_ValidateForConsume_def
      Refresh_IsExpired_def Session_ValidateForAdvance_def Session_CanAdvance_def session_status_defs
      ex_state_def ex_refresh_def ex_ctx_def ex_session_def ex_tc_def ex_client_def Let_def)

definition ex_treq :: TokenRequest where
  "ex_treq = \<lparr> treq_GrantType = ''authorization_code'', treq_ClientID = ''cid'', treq_Code = ''authz_k'',
     treq_RedirectURI = ''https://app'', treq_RefreshToken = ''tok'' \<rparr>"

lemma ex_prepare:
  "\<exists>art. prepareTokenFlow ex_env ex_cfg (ex_ctx 10) (ex_session i status) ''cid'' fl (ex_state False)
     = (ex_state False, Inr (ex_tc (ex_session i status), art))"
  by (simp add: prepareTokenFlow_def resolveTokenContext_def ex_env_def ex_client_def ex_tenant_def ex_session_def
      UserStore_FindByID_def ex_state_def User_IsActive_def ex_user_def ResolvedClient_IsActive_def
      generateTokenArtifacts_def NewRefreshToken_def ex_cfg_def applyDefaults_def ex_tc_def Let_def)

lemma ex_exchange_flow:
  "\<exists>st res. exchangeAuthorizationCode ex_env ex_cfg (ex_ctx 10) ex_treq (ex_state False) = (st, Inr res)"
proof -
  let ?s = "ex_session 2 SessionStatusPendingConsent"
  obtain art where p: "prepareTokenFlow ex_env ex_cfg (ex_ctx 10) ?s ''cid'' TokenFlowCode (ex_state False)
      = (ex_state False, Inr (ex_tc ?s, art))" using ex_prepare by blast
  obtain st s where x: "exchange_tx ex_cfg (ex_ctx 10) ''authz_k'' ''https://app'' ?s (ex_tc ?s) art (ex_state False)
      = (st, Inr s)" using ex_exchange by blast
  have "Code_SessionID (ex_code False) = SessionID 2" "ctx_ErrEntry (ex_ctx 10) = None" "ctx_ErrLocked (ex_ctx 10) = None"
    by (simp_all add: ex_code_def ex_ctx_def)
  with p x show ?thesis
    by (simp add: exchangeAuthorizationCode_def CodeStore_FindByCode_def SessionStore_FindByID_def ex_treq_def
        auth_RunInTx_def Let_def)
qed

lemma ex_refresh_flow:
  "\<exists>st res. refreshWithRefreshToken ex_env ex_cfg (ex_ctx 10) ex_treq (ex_state False) = (st, Inr res)"
proof -
  let ?s = "ex_session 3 SessionStatusActive"
  obtain art where p: "prepareTokenFlow ex_env ex_cfg (ex_ctx 10) ?s ''cid'' TokenFlowRefresh (ex_state False)
      = (ex_state False, Inr (ex_tc ?s, art))" using ex_prepare by blast
  obtain st s where x: "refresh_tx ex_cfg (ex_ctx 10) ''tok'' ?s (ex_tc ?s) art (ex_state False)
      = (st, Inr s)" using ex_refresh_run by blast
  have "Refresh_SessionID (ex_refresh ''tok'' 3 False) = SessionID 3" "ctx_ErrEntry (ex_ctx 10) = None"
    "ctx_ErrLocked (ex_ctx 10) = None"
    by (simp_all add: ex_refresh_def ex_ctx_def)
  with p x show ?thesis
    by (simp add: refreshWithRefreshToken_def RefreshStore_Find_def SessionStore_FindByID_def ex_treq_def
        auth_RunInTx_def Let_def)
qed

definition ex_areq :: AuthorizationRequest where
  "ex_areq = \<lparr> areq_Email = ''a@b.c'', areq_ClientID = ''cid'', areq_Scopes = [], areq_RedirectURI = ''https://app'',
     areq_State = [] \<rparr>"

text \<open>A run from the empty stores: an authorization of a new user, the exchange of the code it returned, and a
  logout from all sessions.\<close>

definition ex_authorized :: auth_state where
  "ex_authorized = fst (Authorize ex_env ex_cfg (ex_ctx 10) (Some ex_areq) (auth_init None))"

definition ex_exchanged :: auth_state where
  "ex_exchanged = fst (Token (ex_env\<lparr> env_newUserID := 97 \<rparr>) ex_cfg (ex_ctx 20) (Some (ex_treq\<lparr> treq_Code := ''authz_u'' \<rparr>)) ex_authorized)"

definition ex_logged_out :: auth_state where
  "ex_logged_out = fst (LogoutAll ex_env ex_cfg (ex_ctx 30) (UserID 91) (SessionID 92) False ex_exchanged)"

definition store_sizes :: "auth_state \<Rightarrow> nat list" where
  "store_sizes st = [length (auth_users st), length (auth_sessions st), length (auth_codes st),
     length (auth_refreshTokens st), length (trl_revoked (auth_trl st))]"

lemma ex_run_sizes: "store_sizes ex_exchanged = [1, 1, 1, 1, 0]" "store_sizes ex_logged_out = [1, 1, 1, 0, 1]"
  by code_simp+

lemma ex_auth_run: "auth_run ex_issued ex_cfg (auth_init None) ex_exchanged" "auth_step ex_issued ex_cfg ex_exchanged ex_logged_out"
proof -
  have "new_code_text ex_env = ''authz_u''" "new_code_text (ex_env\<lparr> env_newUserID := 97 \<rparr>) = ''authz_u''"
    "kv_get (auth_users ex_authorized) (UserID 97) = None" by code_simp+
  then have d: "draws_fresh ex_issued ex_env (auth_init None)" "draws_fresh ex_issued (ex_env\<lparr> env_newUserID := 97 \<rparr>) ex_authorized"
    by (simp_all add: draws_fresh_def ex_issued_def auth_init_def image_iff) (simp_all add: ex_env_def)
  have "auth_step ex_issued ex_cfg (auth_init None) ex_authorized"
    unfolding ex_authorized_def by (rule auth_step.authorize[OF d(1)])
  moreover have "auth_step ex_issued ex_cfg ex_authorized ex_exchanged"
    unfolding ex_exchanged_def by (rule auth_step.token[OF d(2)])
  ultimately show "auth_run ex_issued ex_cfg (auth_init None) ex_exchanged" by (meson rtranclp.simps)
  show "auth_step ex_issued ex_cfg ex_exchanged ex_logged_out"
    unfolding ex_logged_out_def by (rule auth_step.logout_all)
qed

section \<open>Properties\<close>

text \<open>\<^bold>\<open>C1\<close> Starting from the empty stores, every run of the authentication service (requests,
  interleaved transactions, cleanup) keeps the state well formed: each map holds its records under their
  own keys, every session, code, refresh token and user satisfies its invariant, users are unique per
  tenant and email, and the revocation list is consistent.\<close>

theorem auth_invariant:
  assumes "auth_run K cfg (auth_init n) st"
  shows "auth_ok st"
  using auth_run_good[OF assms] auth_ok_init by (simp add: auth_good_def)

theorem auth_invariant_witness:
  "auth_ok ex_exchanged \<and> store_sizes ex_exchanged = [1, 1, 1, 1, 0] \<and>
   auth_ok ex_logged_out \<and> store_sizes ex_logged_out = [1, 1, 1, 0, 1]"
  using auth_invariant[OF ex_auth_run(1)] auth_invariant[OF rtranclp.rtrancl_into_rtrancl[OF ex_auth_run]] ex_run_sizes by simp

text \<open>\<^bold>\<open>C2\<close> An authorization code is exchanged at most once: after a transaction that consumed
  it, and after any further run of the service in which the code's text is not drawn again, every
  transaction that presents the code fails and stores no refresh token, whatever the client, redirect
  URI, session or time.\<close>

theorem code_single_use:
  assumes "auth_ok st" and "Refresh_ok (art_refreshRecord art)"
    and "exchange_tx cfg c code uri s tc art st = (st1, Inr s1)"
    and "auth_run K cfg st1 st2" and "code \<in> iss_codes K"
  shows "\<exists>st3 e. exchange_tx cfg c' code uri' s' tc' art' st2 = (st3, Inl e) \<and>
                 auth_refreshTokens st3 = auth_refreshTokens st2"
proof -
  obtain rec where rec: "auth_codes st1 = kv_put (auth_codes st) code (fst (Code_MarkUsed rec))"
    using assms(3) by (rule exchange_tx_consumed)
  let ?K = "\<lparr> iss_sessions = {}, iss_codes = {}, iss_tokens = {} \<rparr>"
  have "auth_ok st1"
    using exchange_tx_good[of art ?K st cfg c code uri s tc] assms(1-3) by (simp add: auth_good_def)
  with auth_run_used_code(2)[OF assms(4) _ assms(5)] rec show ?thesis
    by (intro exchange_tx_not_consumed) (auto simp: kv_simps)
qed

theorem code_single_use_witness:
  "\<exists>st1 s1. exchange_tx ex_cfg (ex_ctx 10) ''authz_k'' ''https://app'' (ex_session 2 SessionStatusPendingConsent)
       (ex_tc (ex_session 2 SessionStatusPendingConsent)) (ex_art ''tok2'' 2) (ex_state False) = (st1, Inr s1) \<and>
     (\<exists>st3 e. exchange_tx ex_cfg (ex_ctx 11) ''authz_k'' ''https://app'' (ex_session 2 SessionStatusPendingConsent)
       (ex_tc (ex_session 2 SessionStatusPendingConsent)) (ex_art ''tok3'' 2) st1 = (st3, Inl e) \<and>
       auth_refreshTokens st3 = auth_refreshTokens st1)"
proof -
  obtain st1 s1 where x: "exchange_tx ex_cfg (ex_ctx 10) ''authz_k'' ''https://app''
      (ex_session 2 SessionStatusPendingConsent) (ex_tc (ex_session 2 SessionStatusPendingConsent))
      (ex_art ''tok2'' 2) (ex_state False) = (st1, Inr s1)" using ex_exchange by blast
  have "Refresh_ok (art_refreshRecord (ex_art ''tok2'' 2))"
    by (simp add: ex_art_def ex_refresh_def Refresh_ok_def)
  from code_single_use[OF ex_state_ok this x, of ex_issued st1] x show ?thesis
    by (auto simp: ex_issued_def)
qed

text \<open>\<^bold>\<open>C3\<close> Rotation of refresh tokens: a transaction that consumes a refresh token leaves it
  used, and through any further run in which its text is not drawn again no transaction that presents it
  issues tokens or stores a refresh token.\<close>

theorem refresh_single_use:
  assumes "auth_ok st" and "Refresh_ok (art_refreshRecord art)"
    and "refresh_tx cfg c tok s tc art st = (st1, Inr s1)" and "art_refreshToken art \<noteq> tok"
    and "Refresh_Token (art_refreshRecord art) = art_refreshToken art"
    and "auth_run K cfg st1 st2" and "tok \<in> iss_tokens K"
  shows "\<exists>st3 e. refresh_tx cfg c' tok s' tc' art' st2 = (st3, Inl e) \<and>
                 auth_refreshTokens st3 = auth_refreshTokens st2"
proof -
  obtain rec where rec: "auth_refreshTokens st1 =
      kv_put (kv_put (auth_refreshTokens st) tok (fst (Refresh_MarkUsed (ctx_Now c) rec)))
        (Refresh_Token (art_refreshRecord art)) (art_refreshRecord art)"
    using assms(3) by (rule refresh_tx_consumed)
  let ?K = "\<lparr> iss_sessions = {}, iss_codes = {}, iss_tokens = {} \<rparr>"
  have "auth_ok st1"
    using refresh_tx_good[of art ?K st cfg c tok s tc] assms(1-3) by (simp add: auth_good_def)
  with auth_run_used_token(2)[OF assms(6) _ assms(7)] rec assms(4,5) show ?thesis
    by (intro refresh_tx_not_consumed) (auto simp: kv_simps)
qed

theorem refresh_single_use_witness:
  "\<exists>st1 s1. refresh_tx ex_cfg (ex_ctx 10) ''tok'' (ex_session 3 SessionStatusActive)
       (ex_tc (ex_session 3 SessionStatusActive)) (ex_art ''tok2'' 3) (ex_state False) = (st1, Inr s1) \<and>
     (\<exists>st3 e. refresh_tx ex_cfg (ex_ctx 11) ''tok'' (ex_session 3 SessionStatusActive)
       (ex_tc (ex_session 3 SessionStatusActive)) (ex_art ''tok3'' 3) st1 = (st3, Inl e) \<and>
       auth_refreshTokens st3 = auth_refreshTokens st1)"
proof -
  obtain st1 s1 where x: "refresh_tx ex_cfg (ex_ctx 10) ''tok'' (ex_session 3 SessionStatusActive)
       (ex_tc (ex_session 3 SessionStatusActive)) (ex_art ''tok2'' 3) (ex_state False) = (st1, Inr s1)"
    using ex_refresh_run by blast
  have "Refresh_ok (art_refreshRecord (ex_art ''tok2'' 3))"
    by (simp add: ex_art_def ex_refresh_def Refresh_ok_def)
  from refresh_single_use[OF ex_state_ok this x, of ex_issued st1] x show ?thesis
    by (auto simp: ex_issued_def ex_art_def ex_refresh_def)
qed

lemma replay_revokes:
  assumes "auth_ok st" and "kv_get (auth_codes st) code = Some rec" and "Code_Used rec"
    and "Code_RedirectURI rec = uri" and "ctx_Now c \<le> Code_ExpiresAt rec"
    and "kv_get (auth_sessions st) (Code_SessionID rec) = Some sess" and "\<not> Session_IsRevoked sess"
  shows "\<exists>e. exchange_tx cfg c code uri s tc art st =
     (st\<lparr> auth_sessions := kv_put (auth_sessions st) (Code_SessionID rec)
           (Session_ApplyRevocation (ctx_Now c) sess) \<rparr>, Inl e)"
  using assms
  by (simp add: exchange_tx_def consumeCodeWithReplayProtection_def CodeStore_Execute_def
      Code_ValidateForConsume_def Code_IsExpired_def revokeSessionOnReplay_def isAlreadyUsedError_New
      SessionStore_RevokeSessionIfActive_def Session_CanRevoke_def)

text \<open>\<^bold>\<open>C4\<close> Replay of an authorization code: presenting a used, unexpired code with its redirect
  URI fails and revokes the session the code was issued for; from then on, through any run in which
  the session's identifier is not drawn again, no transaction on that session issues tokens, neither an
  exchange nor a refresh, and none stores a refresh token.\<close>

theorem code_replay_kills_session:
  assumes "auth_ok st" and "kv_get (auth_codes st) code = Some rec" and "Code_Used rec"
    and "Code_RedirectURI rec = uri" and "ctx_Now c \<le> Code_ExpiresAt rec"
    and "kv_get (auth_sessions st) (Code_SessionID rec) = Some sess" and "\<not> Session_IsRevoked sess"
    and "exchange_tx cfg c code uri s tc art st = (st1, r)"
    and "auth_run K cfg st1 st2" and "Code_SessionID rec \<in> iss_sessions K"
    and "Session_ID s' = Code_SessionID rec"
  shows "(\<exists>e. r = Inl e) \<and>
         (\<exists>e. executeTokenFlowTx cfg c' s' tc' first_use art' st2 = (st2, Inl e))"
proof -
  from replay_revokes[OF assms(1-7), of cfg s tc art] assms(8)
  have r: "\<exists>e. r = Inl e" and st1: "st1 = st\<lparr> auth_sessions := kv_put (auth_sessions st) (Code_SessionID rec)
      (Session_ApplyRevocation (ctx_Now c) sess) \<rparr>" by auto
  from st1 have get: "kv_get (auth_sessions st1) (Code_SessionID rec) =
      Some (Session_ApplyRevocation (ctx_Now c) sess)" by (simp add: kv_simps)
  have rev: "Session_IsRevoked (Session_ApplyRevocation (ctx_Now c) sess)"
    by (simp add: Session_ApplyRevocation_def Session_IsRevoked_def Let_def)
  have ok: "auth_ok st1"
    using st1 assms(1) sessions_okD[OF _ assms(6)] by (auto simp: auth_ok_def intro!: sessions_ok_put)
  have "\<exists>e. executeTokenFlowTx cfg c' s' tc' first_use art' st2 = (st2, Inl e)"
    using auth_run_revoked[OF assms(9) ok assms(10) get rev] assms(11)
    by (intro advance_revoked_fails) simp
  with r show ?thesis by blast
qed

theorem code_replay_kills_session_witness:
  "\<exists>st1 r. exchange_tx ex_cfg (ex_ctx 10) ''authz_k'' ''https://app'' (ex_session 2 SessionStatusPendingConsent)
       (ex_tc (ex_session 2 SessionStatusPendingConsent)) (ex_art ''tok2'' 2) (ex_state True) = (st1, r) \<and>
     (\<exists>e. r = Inl e) \<and>
     (\<exists>e. executeTokenFlowTx ex_cfg (ex_ctx 11) (ex_session 2 SessionStatusPendingConsent)
            (ex_tc (ex_session 2 SessionStatusPendingConsent)) True (ex_art ''tok3'' 2) st1 = (st1, Inl e))"
proof -
  obtain st1 r where x: "exchange_tx ex_cfg (ex_ctx 10) ''authz_k'' ''https://app''
      (ex_session 2 SessionStatusPendingConsent) (ex_tc (ex_session 2 SessionStatusPendingConsent))
      (ex_art ''tok2'' 2) (ex_state True) = (st1, r)" by fastforce
  have f: "Code_Used (ex_code True)" "Code_RedirectURI (ex_code True) = ''https://app''"
    "ctx_Now (ex_ctx 10) \<le> Code_ExpiresAt (ex_code True)"
    "kv_get (auth_sessions (ex_state True)) (Code_SessionID (ex_code True)) =
       Some (ex_session 2 SessionStatusPendingConsent)"
    "\<not> Session_IsRevoked (ex_session 2 SessionStatusPendingConsent)"
    "Code_SessionID (ex_code True) \<in> iss_sessions ex_issued"
    "Session_ID (ex_session 2 SessionStatusPendingConsent) = Code_SessionID (ex_code True)"
    by (simp_all add: ex_code_def ex_ctx_def ex_issued_def ex_session_def ex_state_def Session_IsRevoked_def)
  from code_replay_kills_session[OF ex_state_ok ex_state_lookups(1) f(1-5) x rtranclp.rtrancl_refl f(6,7)] x
  show ?thesis by (intro exI[of _ st1] exI[of _ r]) simp
qed

lemma exchange_Inr:
  assumes "exchangeAuthorizationCode env cfg c req st = (st', Inr res)"
  obtains rec s tc art s' st1 where "kv_get (auth_codes st) (treq_Code req) = Some rec"
    "kv_get (auth_sessions st) (Code_SessionID rec) = Some s"
    "resolveTokenContext env st s (treq_ClientID req) = Inr tc" "rc_Active (tc_Client tc)"
    "generateTokenArtifacts env cfg c s = Inr art"
    "exchange_tx cfg c (treq_Code req) (treq_RedirectURI req) s tc art st = (st1, Inr s')"
    "auth_stores st' = auth_stores st1"
    "res = buildTokenResult cfg art (Session_RequestedScope s')"
proof -
  obtain rec where rec: "kv_get (auth_codes st) (treq_Code req) = Some rec"
    using assms by (auto simp: exchangeAuthorizationCode_def CodeStore_FindByCode_def Let_def
        split: option.splits prod.splits)
  obtain s where s: "kv_get (auth_sessions st) (Code_SessionID rec) = Some s"
    using assms rec by (auto simp: exchangeAuthorizationCode_def CodeStore_FindByCode_def
        SessionStore_FindByID_def Let_def split: option.splits prod.splits)
  obtain sp r where p: "prepareTokenFlow env cfg c s (treq_ClientID req) TokenFlowCode st = (sp, r)" by fastforce
  from assms rec s p obtain tc art where r: "r = Inr (tc, art)"
    by (cases r) (auto simp: exchangeAuthorizationCode_def CodeStore_FindByCode_def SessionStore_FindByID_def)
  note pf = prepareTokenFlow_Inr[OF p[unfolded r]]
  obtain st1 r1 where t: "auth_RunInTx c
      (exchange_tx cfg c (treq_Code req) (treq_RedirectURI req) s tc art) st = (st1, r1)" by fastforce
  from assms rec s p r pf(1) t obtain s' where r1: "r1 = Inr s'"
    by (cases r1) (auto simp: exchangeAuthorizationCode_def CodeStore_FindByCode_def
        SessionStore_FindByID_def split: prod.splits)
  have "exchange_tx cfg c (treq_Code req) (treq_RedirectURI req) s tc art st = (st1, Inr s')"
    using t r1 run_in_tx_Inr unfolding auth_RunInTx_def by metis
  with assms rec s p r pf t r1 that show thesis
    by (auto simp: exchangeAuthorizationCode_def CodeStore_FindByCode_def SessionStore_FindByID_def Let_def)
qed

lemma refresh_Inr:
  assumes "refreshWithRefreshToken env cfg c req st = (st', Inr res)"
  obtains rec s tc art s' st1 where "kv_get (auth_refreshTokens st) (treq_RefreshToken req) = Some rec"
    "kv_get (auth_sessions st) (Refresh_SessionID rec) = Some s"
    "resolveTokenContext env st s (treq_ClientID req) = Inr tc" "rc_Active (tc_Client tc)"
    "generateTokenArtifacts env cfg c s = Inr art"
    "refresh_tx cfg c (treq_RefreshToken req) s tc art st = (st1, Inr s')"
    "auth_stores st' = auth_stores st1"
    "res = buildTokenResult cfg art (Session_RequestedScope s')"
proof -
  obtain rec where rec: "kv_get (auth_refreshTokens st) (treq_RefreshToken req) = Some rec"
    using assms by (auto simp: refreshWithRefreshToken_def RefreshStore_Find_def Let_def
        split: option.splits prod.splits)
  obtain s where s: "kv_get (auth_sessions st) (Refresh_SessionID rec) = Some s"
    using assms rec by (auto simp: refreshWithRefreshToken_def RefreshStore_Find_def
        SessionStore_FindByID_def Let_def split: option.splits prod.splits)
  obtain sp r where p: "prepareTokenFlow env cfg c s (treq_ClientID req) TokenFlowRefresh st = (sp, r)" by fastforce
  from assms rec s p obtain tc art where r: "r = Inr (tc, art)"
    by (cases r) (auto simp: refreshWithRefreshToken_def RefreshStore_Find_def SessionStore_FindByID_def)
  note pf = prepareTokenFlow_Inr[OF p[unfolded r]]
  obtain st1 r1 where t: "auth_RunInTx c
      (refresh_tx cfg c (treq_RefreshToken req) s tc art) st = (st1, r1)" by fastforce
  from assms rec s p r pf(1) t obtain s' where r1: "r1 = Inr s'"
    by (cases r1) (auto simp: refreshWithRefreshToken_def RefreshStore_Find_def
        SessionStore_FindByID_def split: prod.splits)
  have "refresh_tx cfg c (treq_RefreshToken req) s tc art st = (st1, Inr s')"
    using t r1 run_in_tx_Inr unfolding auth_RunInTx_def by metis
  with assms rec s p r pf t r1 that show thesis
    by (auto simp: refreshWithRefreshToken_def RefreshStore_Find_def SessionStore_FindByID_def Let_def)
qed

text \<open>\<^bold>\<open>C5\<close> Tokens are issued for a code only when everything agrees: if an exchange succeeds then
  the code was stored, unused, unexpired and bound to the redirect URI presented; its session was
  pending or active, unexpired, and belongs to the client and tenant that the client identifier
  resolves to, which is active; and the session's user exists and is active. Afterwards the code is
  used, the session active, and the refresh token of the answer is stored, unused and bound to the
  session.\<close>

theorem exchange_sound:
  assumes "auth_ok st" and "exchangeAuthorizationCode env cfg c req st = (st', Inr res)"
  shows "\<exists>rec s u client tenant s' r.
     kv_get (auth_codes st) (treq_Code req) = Some rec \<and> \<not> Code_Used rec \<and>
     ctx_Now c \<le> Code_ExpiresAt rec \<and> Code_RedirectURI rec = treq_RedirectURI req \<and>
     kv_get (auth_sessions st) (Code_SessionID rec) = Some s \<and>
     (Session_IsActive s \<or> Session_IsPendingConsent s) \<and> ctx_Now c \<le> Session_ExpiresAt s \<and>
     env_ResolveClient env (treq_ClientID req) = Inr (client, tenant) \<and> rc_Active client \<and>
     rc_ID client = Session_ClientID s \<and> rt_ID tenant = Session_TenantID s \<and>
     kv_get (auth_users st) (Session_UserID s) = Some u \<and> User_IsActive u \<and>
     kv_get (auth_codes st') (treq_Code req) = Some (fst (Code_MarkUsed rec)) \<and>
     kv_get (auth_sessions st') (Code_SessionID rec) = Some s' \<and> Session_IsActive s' \<and>
     kv_get (auth_refreshTokens st') (tres_RefreshToken res) = Some r \<and> \<not> Refresh_Used r \<and>
     Refresh_SessionID r = Code_SessionID rec"
proof -
  from assms(2) obtain rec s tc art s' st1 where
    a: "kv_get (auth_codes st) (treq_Code req) = Some rec"
      "kv_get (auth_sessions st) (Code_SessionID rec) = Some s"
      "resolveTokenContext env st s (treq_ClientID req) = Inr tc" "rc_Active (tc_Client tc)"
      "generateTokenArtifacts env cfg c s = Inr art"
      "exchange_tx cfg c (treq_Code req) (treq_RedirectURI req) s tc art st = (st1, Inr s')"
      "auth_stores st' = auth_stores st1"
      "res = buildTokenResult cfg art (Session_RequestedScope s')" by (rule exchange_Inr)
  note rt = resolveTokenContext_Inr[OF a(3)]
  note ga = generateTokenArtifacts_ok[OF a(5)]
  have sid: "Session_ID s = Code_SessionID rec"
    using assms(1) a(2) by (auto simp: auth_ok_def dest: sessions_okD)
  from a(6) obtain rec' d where t: "kv_get (auth_codes st) (treq_Code req) = Some rec'"
    "Code_ValidateForConsume rec' (treq_RedirectURI req) (ctx_Now c) = None"
    "auth_codes st1 = kv_put (auth_codes st) (treq_Code req) (fst (Code_MarkUsed rec'))"
    "Session_ValidateForAdvance s (rc_ID (tc_Client tc)) (ctx_Now c) True = None"
    "auth_sessions st1 = kv_put (auth_sessions st) (Session_ID s) s'" "s' = advanceSession c True art d s"
    "auth_refreshTokens st1 = kv_put (auth_refreshTokens st)
       (Refresh_Token (art_refreshRecord art)) (art_refreshRecord art)"
    using sid a(2) by (auto elim!: exchange_tx_consumed)
  note st' = auth_stores_eqD[OF a(7)]
  from t(1,2) a(1) have c: "rec' = rec" "\<not> Code_Used rec" "ctx_Now c \<le> Code_ExpiresAt rec"
    "Code_RedirectURI rec = treq_RedirectURI req" by (auto simp: Code_ValidateForConsume_None)
  from t(4) have v: "Session_IsActive s \<or> Session_IsPendingConsent s" "ctx_Now c \<le> Session_ExpiresAt s"
    by (auto simp: Session_ValidateForAdvance_None)
  have out: "kv_get (auth_codes st') (treq_Code req) = Some (fst (Code_MarkUsed rec))"
    "kv_get (auth_sessions st') (Code_SessionID rec) = Some s'"
    "kv_get (auth_refreshTokens st') (tres_RefreshToken res) = Some (art_refreshRecord art)"
    "\<not> Refresh_Used (art_refreshRecord art)" "Refresh_SessionID (art_refreshRecord art) = Code_SessionID rec"
    using st' t(3,5,7) c(1) sid ga a(8) by (simp_all add: kv_simps buildTokenResult_def)
  show ?thesis
    by (intro exI[of _ rec] exI[of _ s] exI[of _ "tc_User tc"] exI[of _ "tc_Client tc"]
        exI[of _ "tc_Tenant tc"] exI[of _ s'] exI[of _ "art_refreshRecord art"] conjI)
      (use a rt c v t(6) advanceSession_active[OF t(4)] out in simp_all)
qed

theorem exchange_sound_witness:
  "\<exists>st' res s' r. exchangeAuthorizationCode ex_env ex_cfg (ex_ctx 10) ex_treq (ex_state False) = (st', Inr res) \<and>
     kv_get (auth_codes st') ''authz_k'' = Some (fst (Code_MarkUsed (ex_code False))) \<and>
     kv_get (auth_sessions st') (SessionID 2) = Some s' \<and> Session_IsActive s' \<and>
     kv_get (auth_refreshTokens st') (tres_RefreshToken res) = Some r \<and> \<not> Refresh_Used r"
proof -
  obtain st' res where x: "exchangeAuthorizationCode ex_env ex_cfg (ex_ctx 10) ex_treq (ex_state False)
      = (st', Inr res)" using ex_exchange_flow by blast
  have "treq_Code ex_treq = ''authz_k''" "Code_SessionID (ex_code False) = SessionID 2"
    by (simp_all add: ex_treq_def ex_code_def)
  with exchange_sound[OF ex_state_ok x] x show ?thesis by auto
qed

text \<open>\<^bold>\<open>C6\<close> Tokens are refreshed only for a live session: if a refresh succeeds then the refresh
  token was stored, unused and unexpired, its session was active and unexpired and belongs to the
  active client and tenant the client identifier resolves to, and its user is active. Afterwards
  the session is still active, the answer's refresh token is stored, unused and bound to it, and the
  presented token is marked as used at the time of the request, unless the generator drew the text of the
  presented token once more.\<close>

theorem refresh_sound:
  assumes "auth_ok st" and "refreshWithRefreshToken env cfg c req st = (st', Inr res)"
  shows "\<exists>rec s u client tenant s' r.
     kv_get (auth_refreshTokens st) (treq_RefreshToken req) = Some rec \<and> \<not> Refresh_Used rec \<and>
     ctx_Now c \<le> Refresh_ExpiresAt rec \<and>
     kv_get (auth_sessions st) (Refresh_SessionID rec) = Some s \<and>
     Session_IsActive s \<and> ctx_Now c \<le> Session_ExpiresAt s \<and>
     env_ResolveClient env (treq_ClientID req) = Inr (client, tenant) \<and> rc_Active client \<and>
     rc_ID client = Session_ClientID s \<and> rt_ID tenant = Session_TenantID s \<and>
     kv_get (auth_users st) (Session_UserID s) = Some u \<and> User_IsActive u \<and>
     kv_get (auth_sessions st') (Refresh_SessionID rec) = Some s' \<and> Session_IsActive s' \<and>
     kv_get (auth_refreshTokens st') (tres_RefreshToken res) = Some r \<and> \<not> Refresh_Used r \<and>
     Refresh_SessionID r = Refresh_SessionID rec \<and>
     (tres_RefreshToken res = treq_RefreshToken req \<or>
      kv_get (auth_refreshTokens st') (treq_RefreshToken req) = Some (fst (Refresh_MarkUsed (ctx_Now c) rec)) \<and>
      Refresh_Used (fst (Refresh_MarkUsed (ctx_Now c) rec)))"
proof -
  from assms(2) obtain rec s tc art s' st1 where
    a: "kv_get (auth_refreshTokens st) (treq_RefreshToken req) = Some rec"
      "kv_get (auth_sessions st) (Refresh_SessionID rec) = Some s"
      "resolveTokenContext env st s (treq_ClientID req) = Inr tc" "rc_Active (tc_Client tc)"
      "generateTokenArtifacts env cfg c s = Inr art"
      "refresh_tx cfg c (treq_RefreshToken req) s tc art st = (st1, Inr s')"
      "auth_stores st' = auth_stores st1"
      "res = buildTokenResult cfg art (Session_RequestedScope s')" by (rule refresh_Inr)
  note rt = resolveTokenContext_Inr[OF a(3)]
  note ga = generateTokenArtifacts_ok[OF a(5)]
  have sid: "Session_ID s = Refresh_SessionID rec"
    using assms(1) a(2) by (auto simp: auth_ok_def dest: sessions_okD)
  from a(6) obtain rec' d where t: "kv_get (auth_refreshTokens st) (treq_RefreshToken req) = Some rec'"
    "Refresh_ValidateForConsume rec' (ctx_Now c) = None"
    "Session_ValidateForAdvance s (rc_ID (tc_Client tc)) (ctx_Now c) False = None"
    "auth_sessions st1 = kv_put (auth_sessions st) (Session_ID s) s'" "s' = advanceSession c False art d s"
    "auth_refreshTokens st1 = kv_put (kv_put (auth_refreshTokens st) (treq_RefreshToken req) (fst (Refresh_MarkUsed (ctx_Now c) rec')))
       (Refresh_Token (art_refreshRecord art)) (art_refreshRecord art)"
    using sid a(2) by (auto elim!: refresh_tx_consumed)
  note st' = auth_stores_eqD[OF a(7)]
  from t(1,2) a(1) have c: "\<not> Refresh_Used rec" "ctx_Now c \<le> Refresh_ExpiresAt rec" "rec' = rec"
    by (auto simp: Refresh_ValidateForConsume_None)
  from t(3) have v: "Session_IsActive s" "ctx_Now c \<le> Session_ExpiresAt s"
    by (auto simp: Session_ValidateForAdvance_None)
  have out: "kv_get (auth_sessions st') (Refresh_SessionID rec) = Some s'"
    "kv_get (auth_refreshTokens st') (tres_RefreshToken res) = Some (art_refreshRecord art)"
    "\<not> Refresh_Used (art_refreshRecord art)" "Refresh_SessionID (art_refreshRecord art) = Refresh_SessionID rec"
    using st' t(4,6) sid ga a(8) by (simp_all add: kv_simps buildTokenResult_def)
  have used: "tres_RefreshToken res = treq_RefreshToken req \<or>
      kv_get (auth_refreshTokens st') (treq_RefreshToken req) = Some (fst (Refresh_MarkUsed (ctx_Now c) rec)) \<and>
      Refresh_Used (fst (Refresh_MarkUsed (ctx_Now c) rec))"
    using st' t(6) c(3) ga a(8) by (auto simp: kv_simps buildTokenResult_def Refresh_MarkUsed_def Let_def)
  show ?thesis
    by (intro exI[of _ rec] exI[of _ s] exI[of _ "tc_User tc"] exI[of _ "tc_Client tc"]
        exI[of _ "tc_Tenant tc"] exI[of _ s'] exI[of _ "art_refreshRecord art"] conjI)
      (use a rt c v t(5) advanceSession_active[OF t(3)] out used in simp_all)
qed

theorem refresh_sound_witness:
  "\<exists>st' res s' r old. refreshWithRefreshToken ex_env ex_cfg (ex_ctx 10) ex_treq (ex_state False) = (st', Inr res) \<and>
     kv_get (auth_sessions st') (SessionID 3) = Some s' \<and> Session_IsActive s' \<and>
     kv_get (auth_refreshTokens st') (tres_RefreshToken res) = Some r \<and> \<not> Refresh_Used r \<and>
     kv_get (auth_refreshTokens st') ''tok'' = Some old \<and> Refresh_Used old"
proof -
  obtain st' res where x: "refreshWithRefreshToken ex_env ex_cfg (ex_ctx 10) ex_treq (ex_state False)
      = (st', Inr res)" using ex_refresh_flow by blast
  have "map_sum (\<lambda>_. ()) tres_RefreshToken (snd (refreshWithRefreshToken ex_env ex_cfg (ex_ctx 10) ex_treq (ex_state False))) = Inr ''tok2''"
    by code_simp
  then have "tres_RefreshToken res = ''tok2''" by (simp add: x)
  moreover have "treq_RefreshToken ex_treq = ''tok''" "Refresh_SessionID (ex_refresh ''tok'' 3 False) = SessionID 3"
    by (simp_all add: ex_treq_def ex_refresh_def)
  ultimately show ?thesis using refresh_sound[OF ex_state_ok x] x by auto
qed

end
