(* ===== verification/Auth_Properties.thy ===== *)
theory Auth_Properties
  imports Auth_System
begin

text \<open>
  Properties of single operations of the authentication service: the life cycle of a session, the
  authorization round trip, revocation and logout, listing, and the translation of errors.
\<close>

section \<open>The life cycle of a session\<close>

lemma session_reach_status:
  "session_reach s s' \<Longrightarrow> Session_ok s \<Longrightarrow>
   Session_Status s' = Session_Status s \<or> CanTransitionTo (Session_Status s) (Session_Status s')"
proof (induction rule: rtranclp_induct)
  case (step y z)
  from step.prems step.hyps(1) have "Session_ok y" by (rule session_reach_ok[rotated])
  with session_step_status[OF step.hyps(2)] step.IH[OF step.prems] show ?case
    by (cases "Session_Status s"; cases "Session_Status y") auto
qed simp

lemma session_reach_frame:
  "session_reach s s' \<Longrightarrow>
   session_identity s' = session_identity s \<and> Session_LastSeenAt s \<le> Session_LastSeenAt s'"
  by (induction rule: rtranclp_induct) (auto dest: session_step_identity session_step_LastSeenAt)

text \<open>\<^bold>\<open>C20\<close> The life cycle of a session: through any sequence of the changes the code makes, a
  well-formed session stays well formed, its status either stays or moves as
  \<^verbatim>\<open>CanTransitionTo\<close> allows (revoked is final), its identity, owner, client, tenant, scopes and
  expiry never change, and its last activity never goes back.\<close>

theorem session_lifecycle:
  assumes "session_reach s s'" and "Session_ok s"
  shows "Session_ok s' \<and>
         (Session_Status s' = Session_Status s \<or> CanTransitionTo (Session_Status s) (Session_Status s')) \<and>
         session_identity s' = session_identity s \<and> Session_LastSeenAt s \<le> Session_LastSeenAt s'"
  using assms session_reach_ok session_reach_status session_reach_frame by blast

theorem session_lifecycle_witness:
  "Session_ok (Session_ApplyRevocation 4 (ex_session 2 SessionStatusPendingConsent)) \<and>
   CanTransitionTo SessionStatusPendingConsent SessionStatusRevoked"
proof -
  have ok: "Session_ok (ex_session 2 SessionStatusPendingConsent)"
    by (simp add: ex_session_def Session_ok_def SessionStatus_IsValid_def Session_IsRevoked_def)
  have "session_reach (ex_session 2 SessionStatusPendingConsent)
      (Session_ApplyRevocation 4 (ex_session 2 SessionStatusPendingConsent))"
    by (rule revoke_reach) (simp add: ex_session_def Session_IsRevoked_def)
  from session_lifecycle[OF this ok] show ?thesis by simp
qed

section \<open>The authorization round trip\<close>

lemma Authorize_Inr:
  assumes "Authorize env cfg c (Some req) st = (st', Inr res)"
  obtains nreq client tnt p st1 ar uri where
    "nreq = AuthorizationRequest_Normalize (env_uni env) req"
    "AuthorizationRequest_Validate (env_url_Parse env) nreq = None"
    "env_url_Parse env (areq_RedirectURI nreq) = Some uri" "isRedirectSchemeAllowed env cfg uri"
    "env_ResolveClient env (areq_ClientID nreq) = Inr (client, tnt)"
    "allowedRedirectURI (url_String uri) (rc_RedirectURIs client)"
    "validateRequestedScopes (areq_Scopes nreq) (rc_AllowedScopes client) = None"
    "ap_Client p = client" "ap_Tenant p = tnt" "ap_RedirectURI p = areq_RedirectURI nreq"
    "ap_Now p = ctx_Now c" "ap_Scopes p = areq_Scopes nreq" "ap_Email p = areq_Email nreq"
    "authorize_tx env cfg p st = (st1, Inr ar)" "auth_stores st' = auth_stores st1"
    "ares_Code res = Code_Code (ar_AuthCode ar)"
proof -
  let ?n = "AuthorizationRequest_Normalize (env_uni env) req"
  have v: "AuthorizationRequest_Validate (env_url_Parse env) ?n = None"
    using assms by (cases "AuthorizationRequest_Validate (env_url_Parse env) ?n") (auto simp: Authorize_def Let_def)
  obtain uri where u: "env_url_Parse env (areq_RedirectURI ?n) = Some uri" "isRedirectSchemeAllowed env cfg uri"
    using assms v by (auto simp: Authorize_def Let_def split: option.splits if_splits)
  obtain client tnt where r: "env_ResolveClient env (areq_ClientID ?n) = Inr (client, tnt)"
    using assms v u by (auto simp: Authorize_def Let_def split: sum.splits)
  have a: "allowedRedirectURI (url_String uri) (rc_RedirectURIs client)"
    using assms v u r by (auto simp: Authorize_def Let_def split: if_splits)
  obtain d1 d2 where d: "resolveDeviceID env c = (d1, d2)" by fastforce
  have sc: "validateRequestedScopes (areq_Scopes ?n) (rc_AllowedScopes client) = None"
    using assms v u r a d by (auto simp: Authorize_def Let_def split: option.splits)
  define p where "p = \<lparr> ap_Email = areq_Email ?n, ap_Scopes = areq_Scopes ?n,
      ap_RedirectURI = areq_RedirectURI ?n, ap_Now = ctx_Now c, ap_DeviceID = d1,
      ap_DeviceFingerprint = ctx_DeviceFingerprint c,
      ap_DeviceDisplayName = ParseUserAgent (env_useragent_New env) (ctx_UserAgent c),
      ap_Client = client, ap_Tenant = tnt \<rparr>"
  obtain st1 q where t: "authorizeInTx env cfg c p st = (st1, q)" by fastforce
  from assms v u r a d sc t obtain ar where q: "q = Inr ar"
    by (cases q) (auto simp: Authorize_def Let_def p_def)
  have tx: "authorize_tx env cfg p st = (st1, Inr ar)"
    using t q run_in_tx_Inr unfolding authorizeInTx_def auth_RunInTx_def by metis
  have out: "auth_stores st' = auth_stores st1" "ares_Code res = Code_Code (ar_AuthCode ar)"
    using assms v u r a d sc t q by (auto simp: Authorize_def Let_def p_def buildAuthorizeResponse_def)
  show thesis
    by (rule that[OF refl v u r a sc _ _ _ _ _ _ tx out]) (simp_all add: p_def)
qed

text \<open>Only registered redirect URIs and allowed scopes: when an authorization succeeds, the
  redirect URI is one the client registered with an allowed scheme, the scopes are among those the
  client allows, and the state gains a session that is pending consent, bound to the resolved client
  and tenant and to an active user of that tenant with the request's email, and an unused code
  bound to that session and redirect URI.\<close>

lemma authorize_sound:
  assumes "auth_ok st" and "Authorize env cfg c (Some req) st = (st', Inr res)"
    and "nreq = AuthorizationRequest_Normalize (env_uni env) req"
  shows "\<exists>client tnt uri s u a.
     env_ResolveClient env (areq_ClientID nreq) = Inr (client, tnt) \<and>
     env_url_Parse env (areq_RedirectURI nreq) = Some uri \<and> isRedirectSchemeAllowed env cfg uri \<and>
     url_String uri \<in> set (rc_RedirectURIs client) \<and>
     (rc_AllowedScopes client = [] \<or> set (areq_Scopes nreq) \<subseteq> set (rc_AllowedScopes client)) \<and>
     kv_get (auth_sessions st') (Session_ID s) = Some s \<and> Session_IsPendingConsent s \<and>
     Session_ClientID s = rc_ID client \<and> Session_TenantID s = rt_ID tnt \<and>
     Session_RequestedScope s = areq_Scopes nreq \<and>
     kv_get (auth_users st') (Session_UserID s) = Some u \<and> User_IsActive u \<and>
     User_TenantID u = rt_ID tnt \<and> User_Email u = areq_Email nreq \<and>
     kv_get (auth_codes st') (ares_Code res) = Some a \<and> \<not> Code_Used a \<and>
     Code_SessionID a = Session_ID s \<and> Code_RedirectURI a = areq_RedirectURI nreq"
proof -
  from assms(2,3) obtain client tnt p st1 ar uri where
    n: "env_url_Parse env (areq_RedirectURI nreq) = Some uri" "isRedirectSchemeAllowed env cfg uri"
      "env_ResolveClient env (areq_ClientID nreq) = Inr (client, tnt)"
      "allowedRedirectURI (url_String uri) (rc_RedirectURIs client)"
      "validateRequestedScopes (areq_Scopes nreq) (rc_AllowedScopes client) = None"
    and p: "ap_Client p = client" "ap_Tenant p = tnt" "ap_RedirectURI p = areq_RedirectURI nreq"
      "ap_Scopes p = areq_Scopes nreq" "ap_Email p = areq_Email nreq"
    and tx: "authorize_tx env cfg p st = (st1, Inr ar)" and out: "auth_stores st' = auth_stores st1"
      "ares_Code res = Code_Code (ar_AuthCode ar)"
    by (auto elim!: Authorize_Inr)
  note ti = authorize_tx_Inr[OF tx]
  from ti(15) obtain us w where f: "findOrCreateUser env (rt_ID tnt) (areq_Email nreq) (auth_users st)
      = (us, Inr (ar_User ar, w))" and st1: "st1 = st\<lparr> auth_users := us,
      auth_sessions := kv_put (auth_sessions st) (Session_ID (ar_Session ar)) (ar_Session ar),
      auth_codes := kv_put (auth_codes st) (Code_Code (ar_AuthCode ar)) (ar_AuthCode ar) \<rparr>"
    using p by auto
  have "users_ok (auth_users st)" using assms(1) by (simp add: auth_ok_def)
  note fu = findOrCreateUser_Inr[OF this f]
  have sc: "rc_AllowedScopes client = [] \<or> set (areq_Scopes nreq) \<subseteq> set (rc_AllowedScopes client)"
    using n(5) by (auto simp: validateRequestedScopes_def first_error_None_iff split: if_splits)
  show ?thesis
    by (intro exI[of _ client] exI[of _ tnt] exI[of _ uri] exI[of _ "ar_Session ar"] exI[of _ "ar_User ar"]
        exI[of _ "ar_AuthCode ar"] conjI)
      (use n p ti fu sc st1 auth_stores_eqD[OF out(1)] out(2) in
        \<open>simp_all add: allowedRedirectURI_def kv_simps split: if_splits\<close>)
qed

lemma ex_areq_Normalize:
  "AuthorizationRequest_Normalize (env_uni ex_env) ex_areq = ex_areq\<lparr> areq_Scopes := [''openid''] \<rparr>"
  by code_simp

lemma ex_authorize:
  "\<exists>st res. Authorize ex_env ex_cfg (ex_ctx 10) (Some ex_areq) (ex_state False) = (st, Inr res)"
proof -
  have "\<not> isl (snd (Authorize ex_env ex_cfg (ex_ctx 10) (Some ex_areq) (ex_state False)))"
    by code_simp
  then show ?thesis
    by (cases "Authorize ex_env ex_cfg (ex_ctx 10) (Some ex_areq) (ex_state False)";
        cases "snd (Authorize ex_env ex_cfg (ex_ctx 10) (Some ex_areq) (ex_state False))") auto
qed

lemma authorize_sound_witness:
  "\<exists>st res client. Authorize ex_env ex_cfg (ex_ctx 10) (Some ex_areq) (ex_state False) = (st, Inr res) \<and>
     env_ResolveClient ex_env ''cid'' = Inr (client, ex_tenant) \<and>
     (\<exists>a. kv_get (auth_codes st) (ares_Code res) = Some a \<and> \<not> Code_Used a)"
proof -
  obtain st res where a: "Authorize ex_env ex_cfg (ex_ctx 10) (Some ex_areq) (ex_state False) = (st, Inr res)"
    using ex_authorize by blast
  note authorize_sound[OF ex_state_ok a refl]
  with a show ?thesis by (auto simp: ex_env_def)
qed

text \<open>A token generator that works, and a client that resolves as it did for the authorization.\<close>

definition generator_works :: "auth_env \<Rightarrow> bool" where
  "generator_works env =
     ((\<forall>u s cl t sc v. \<exists>r. env_GenerateAccessTokenWithJTI env u s cl t sc v = Inr r) \<and>
      (\<forall>u s cl t v. \<exists>r. env_GenerateIDToken env u s cl t v = Inr r) \<and>
      (\<exists>r. env_CreateRefreshToken env = Inr r \<and> r \<noteq> []))"

lemma generateTokenArtifacts_works:
  assumes "generator_works env" "0 \<le> cfg_RefreshTokenTTL cfg"
  shows "\<exists>art. generateTokenArtifacts env cfg c s = Inr art"
proof -
  obtain r where r: "env_CreateRefreshToken env = Inr r" "r \<noteq> []"
    using assms(1) by (auto simp: generator_works_def)
  obtain at where at: "env_GenerateAccessTokenWithJTI env (Session_UserID s) (Session_ID s) (Session_ClientID s)
      (Session_TenantID s) (Session_RequestedScope s)
      (if APIVersion_IsNil (ctx_APIVersion c) then APIVersionV1 else ctx_APIVersion c) = Inr at"
    using assms(1) unfolding generator_works_def by blast
  obtain it where it: "env_GenerateIDToken env (Session_UserID s) (Session_ID s) (Session_ClientID s)
      (Session_TenantID s) (if APIVersion_IsNil (ctx_APIVersion c) then APIVersionV1 else ctx_APIVersion c) = Inr it"
    using assms(1) unfolding generator_works_def by blast
  show ?thesis
    using assms(2) by (cases at) (simp add: generateTokenArtifacts_def Let_def at it r NewRefreshToken_def)
qed

lemma exchange_succeeds:
  assumes code: "kv_get (auth_codes st) (treq_Code t) = Some a" "\<not> Code_Used a"
      "Code_RedirectURI a = treq_RedirectURI t" "ctx_Now c \<le> Code_ExpiresAt a"
    and sess: "kv_get (auth_sessions st) (Code_SessionID a) = Some s" "Session_ID s = Code_SessionID a"
      "Session_IsPendingConsent s" "ctx_Now c \<le> Session_ExpiresAt s"
    and user: "kv_get (auth_users st) (Session_UserID s) = Some u" "User_IsActive u"
    and cl: "env_ResolveClient env (treq_ClientID t) = Inr (client, tnt)" "rc_ID client = Session_ClientID s"
      "rt_ID tnt = Session_TenantID s" "ResolvedClient_IsActive client"
    and gen: "generator_works env" "0 \<le> cfg_RefreshTokenTTL cfg"
    and ctx: "ctx_ErrEntry c = None" "ctx_ErrLocked c = None"
  shows "\<exists>st' res s'. exchangeAuthorizationCode env cfg c t st = (st', Inr res) \<and>
     kv_get (auth_sessions st') (Session_ID s) = Some s' \<and> Session_IsActive s'"
proof -
  obtain art where art: "generateTokenArtifacts env cfg c s = Inr art"
    using generateTokenArtifacts_works[OF gen] by blast
  have p: "prepareTokenFlow env cfg c s (treq_ClientID t) TokenFlowCode st =
      (st, Inr (\<lparr> tc_Session = s, tc_Client = client, tc_Tenant = tnt, tc_User = u \<rparr>, art))"
    using cl user art
    by (simp add: prepareTokenFlow_def resolveTokenContext_def UserStore_FindByID_def)
  have v: "Session_ValidateForAdvance s (Session_ClientID s) (ctx_Now c) True = None"
    using sess(3,4) by (simp add: Session_ValidateForAdvance_def Session_CanAdvance_def session_status_defs)
  have act: "Session_IsActive (advanceSession c True art d s)" for d
    using sess(3) by (intro advanceSession_active[OF v])
  show ?thesis
    using code sess(1,2) cl p v ctx act
    by (simp add: exchangeAuthorizationCode_def CodeStore_FindByCode_def SessionStore_FindByID_def
        auth_RunInTx_def exchange_tx_def consumeCodeWithReplayProtection_def CodeStore_Execute_def
        Code_ValidateForConsume_def Code_IsExpired_def executeTokenFlowTx_def SessionStore_Execute_def
        RefreshStore_Create_def Let_def kv_simps logAudit_def)
qed

text \<open>\<^bold>\<open>C7\<close> The authorization code flow completes: a successful authorization stores the returned
  code for the session it creates, which waits for consent; exchanging that code within ten minutes and
  the session's life, with the same redirect URI, while the client still resolves to the same active
  client and the token generator works, succeeds and leaves this very session active.\<close>

theorem authorize_then_exchange:
  assumes "auth_ok st" and "Authorize env cfg c (Some req) st = (st', Inr res)"
    and "nreq = AuthorizationRequest_Normalize (env_uni env) req"
    and "treq_Code t = ares_Code res" and "treq_RedirectURI t = areq_RedirectURI nreq"
    and "env_ResolveClient env2 (treq_ClientID t) = env_ResolveClient env (areq_ClientID nreq)"
    and "env_ResolveClient env (areq_ClientID nreq) = Inr (client, tnt)" and "ResolvedClient_IsActive client"
    and "generator_works env2" and "0 \<le> cfg_RefreshTokenTTL cfg"
    and "ctx_ErrEntry c2 = None" and "ctx_ErrLocked c2 = None"
    and "ctx_Now c2 \<le> ctx_Now c + 10 * minute" and "ctx_Now c2 \<le> ctx_Now c + cfg_SessionTTL cfg"
  shows "\<exists>code pending st2 res2 s.
     kv_get (auth_codes st') (ares_Code res) = Some code \<and> Code_SessionID code = SessionID (env_newSessionID env) \<and>
     kv_get (auth_sessions st') (Code_SessionID code) = Some pending \<and> Session_IsPendingConsent pending \<and>
     exchangeAuthorizationCode env2 cfg c2 t st' = (st2, Inr res2) \<and>
     kv_get (auth_sessions st2) (Code_SessionID code) = Some s \<and> Session_IsActive s"
proof -
  from assms(2,3) obtain cl2 tnt2 p st1 ar where
    n: "env_ResolveClient env (areq_ClientID nreq) = Inr (cl2, tnt2)"
    and p: "ap_Client p = cl2" "ap_Tenant p = tnt2" "ap_RedirectURI p = areq_RedirectURI nreq"
      "ap_Now p = ctx_Now c"
    and tx: "authorize_tx env cfg p st = (st1, Inr ar)" and out: "auth_stores st' = auth_stores st1"
      "ares_Code res = Code_Code (ar_AuthCode ar)"
    by (auto elim!: Authorize_Inr)
  note ti = authorize_tx_Inr[OF tx]
  from ti(15) obtain us w where f: "findOrCreateUser env (rt_ID tnt2) (ap_Email p) (auth_users st)
      = (us, Inr (ar_User ar, w))" and st1: "st1 = st\<lparr> auth_users := us,
      auth_sessions := kv_put (auth_sessions st) (Session_ID (ar_Session ar)) (ar_Session ar),
      auth_codes := kv_put (auth_codes st) (Code_Code (ar_AuthCode ar)) (ar_AuthCode ar) \<rparr>"
    using p by auto
  have "users_ok (auth_users st)" using assms(1) by (simp add: auth_ok_def)
  note fu = findOrCreateUser_Inr[OF this f]
  note so = auth_stores_eqD[OF out(1)]
  have "\<exists>st2 res2 s'. exchangeAuthorizationCode env2 cfg c2 t st' = (st2, Inr res2) \<and>
     kv_get (auth_sessions st2) (Session_ID (ar_Session ar)) = Some s' \<and> Session_IsActive s'"
    by (rule exchange_succeeds[where a = "ar_AuthCode ar" and u = "ar_User ar" and client = client and tnt = tnt])
      (use assms(4-) n p ti fu so st1 out(2) in \<open>simp_all add: kv_simps\<close>)
  moreover have "kv_get (auth_codes st') (ares_Code res) = Some (ar_AuthCode ar)"
    "kv_get (auth_sessions st') (Code_SessionID (ar_AuthCode ar)) = Some (ar_Session ar)"
    using so st1 out(2) ti(1,10) by (simp_all add: kv_simps)
  ultimately show ?thesis using ti(1,6,10) by auto
qed

theorem authorize_then_exchange_witness:
  "\<exists>st' res st2 res2 s. Authorize ex_env ex_cfg (ex_ctx 10) (Some ex_areq) (ex_state False) = (st', Inr res) \<and>
     exchangeAuthorizationCode ex_env ex_cfg (ex_ctx 20) (ex_treq\<lparr> treq_Code := ares_Code res \<rparr>) st' = (st2, Inr res2) \<and>
     kv_get (auth_sessions st2) (SessionID 92) = Some s \<and> Session_IsActive s"
proof -
  obtain st res where a: "Authorize ex_env ex_cfg (ex_ctx 10) (Some ex_areq) (ex_state False) = (st, Inr res)"
    using ex_authorize by blast
  have "\<exists>code pending st2 res2 s.
      kv_get (auth_codes st) (ares_Code res) = Some code \<and> Code_SessionID code = SessionID (env_newSessionID ex_env) \<and>
      kv_get (auth_sessions st) (Code_SessionID code) = Some pending \<and> Session_IsPendingConsent pending \<and>
      exchangeAuthorizationCode ex_env ex_cfg (ex_ctx 20) (ex_treq\<lparr> treq_Code := ares_Code res \<rparr>) st = (st2, Inr res2) \<and>
      kv_get (auth_sessions st2) (Code_SessionID code) = Some s \<and> Session_IsActive s"
    by (rule authorize_then_exchange[OF ex_state_ok a ex_areq_Normalize[symmetric], where client = ex_client and tnt = ex_tenant])
      (simp_all add: ex_treq_def ex_areq_def ex_env_def ex_client_def ResolvedClient_IsActive_def
        generator_works_def ex_cfg_def applyDefaults_def ex_ctx_def)
  moreover have "env_newSessionID ex_env = 92" by (simp add: ex_env_def)
  ultimately show ?thesis using a by auto
qed

section \<open>Revocation and logout\<close>

lemma sessions_ok_distinct:
  assumes "sessions_ok m"
  shows "distinct (map Session_ID (kv_values m))"
proof -
  have "map Session_ID (kv_values m) = map fst m"
    using assms by (auto simp: sessions_ok_def kv_values_def kv_all_def)
  with assms show ?thesis by (simp add: sessions_ok_def)
qed

text \<open>The sessions the loop of a logout revokes, among those it visits.\<close>

definition logout_target :: "bool \<Rightarrow> SessionID \<Rightarrow> Session \<Rightarrow> bool" where
  "logout_target ex cur s = (\<not> (ex \<and> Session_ID s = cur) \<and> \<not> Session_IsRevoked s)"

lemma logout_loop_effect:
  assumes "logout_loop env cfg c cur ex sessions (st, res) = (st', res')" and "0 < cfg_TokenTTL cfg"
    and "distinct (map Session_ID sessions)" and "kv_ok (auth_refreshTokens st)"
    and "\<And>s. s \<in> set sessions \<Longrightarrow> kv_get (auth_sessions st) (Session_ID s) = Some s"
  shows "kv_get (auth_sessions st') sid =
           (if sid \<in> Session_ID ` set (filter (logout_target ex cur) sessions)
            then map_option (Session_ApplyRevocation (ctx_Now c)) (kv_get (auth_sessions st) sid)
            else kv_get (auth_sessions st) sid) \<and>
         logout_RevokedCount res' = logout_RevokedCount res + length (filter (logout_target ex cur) sessions) \<and>
         logout_FailedCount res' = logout_FailedCount res \<and>
         kv_get (auth_refreshTokens st') tok =
           (case kv_get (auth_refreshTokens st) tok of None \<Rightarrow> None
            | Some r \<Rightarrow> if Refresh_SessionID r \<in> Session_ID ` set (filter (logout_target ex cur) sessions) then None else Some r)"
  using assms
proof (induction sessions arbitrary: st res)
  case (Cons s sessions)
  from Cons.prems(5)[of s] have s: "kv_get (auth_sessions st) (Session_ID s) = Some s" by simp
  have d: "Session_ID s \<notin> Session_ID ` set sessions" "distinct (map Session_ID sessions)"
    using Cons.prems(3) by auto
  then have tail: "t \<in> set sessions \<Longrightarrow> Session_ID t \<noteq> Session_ID s" for t
    by (metis image_eqI)
  have skip: "filter (logout_target ex cur) (s # sessions) = filter (logout_target ex cur) sessions"
    if "(ex \<and> Session_ID s = cur) \<or> Session_IsRevoked s"
    using that by (auto simp: logout_target_def)
  show ?case
  proof (cases "ex \<and> Session_ID s = cur")
    case True
    with Cons.prems(1) have "logout_loop env cfg c cur ex sessions (st, res) = (st', res')" by simp
    from Cons.IH[OF this Cons.prems(2) d(2) Cons.prems(4)] Cons.prems(5) show ?thesis
      unfolding skip[OF disjI1[OF True]] by simp
  next
    case False
    obtain st1 o1 e1 where r: "revokeSessionInternal env cfg c s [] st = (st1, o1, e1)" by (metis prod.exhaust)
    from r Cons.prems(2) show ?thesis
    proof (cases rule: revokeSessionInternal_cases)
      case (already s0)
      with Cons.prems(1) r False have l: "logout_loop env cfg c cur ex sessions (st, res) = (st', res')" by simp
      note ih = Cons.IH[OF l Cons.prems(2) d(2) Cons.prems(4)]
      have rev: "Session_IsRevoked s" using already(1,2) s by simp
      from ih Cons.prems(5) show ?thesis unfolding skip[OF disjI2[OF rev]] by simp
    next
      case (revoked s0)
      with s have s0: "s0 = s" by simp
      let ?st1 = "logAudit c ''session_revoked'' (UserID_String env (Session_UserID s)) st1"
      let ?res1 = "res\<lparr> logout_RevokedCount := logout_RevokedCount res + 1 \<rparr>"
      have st1: "auth_sessions ?st1 = kv_put (auth_sessions st) (Session_ID s) (Session_ApplyRevocation (ctx_Now c) s)"
        "auth_refreshTokens ?st1 = kv_delete_where (\<lambda>t. Refresh_SessionID t = Session_ID s) (auth_refreshTokens st)"
        using revoked(5) s0 by (simp_all add: logAudit_def RefreshStore_DeleteBySessionID_def Let_def)
      have l: "logout_loop env cfg c cur ex sessions (?st1, ?res1) = (st', res')"
        using Cons.prems(1) r False revoked(3,4) by simp
      have k: "kv_ok (auth_refreshTokens ?st1)" using Cons.prems(4) st1 by simp
      have g: "t \<in> set sessions \<Longrightarrow> kv_get (auth_sessions ?st1) (Session_ID t) = Some t" for t
        using Cons.prems(5)[of t] tail st1 by (simp add: kv_simps)
      have T: "logout_target ex cur s" using False revoked(2) s0 by (simp add: logout_target_def)
      note ih = Cons.IH[OF l Cons.prems(2) d(2) k g]
      have n: "Session_ID s \<notin> Session_ID ` set (filter (logout_target ex cur) sessions)" using d(1) by auto
      let ?I = "Session_ID ` set (filter (logout_target ex cur) sessions)"
      have I: "Session_ID ` set (filter (logout_target ex cur) (s # sessions)) = insert (Session_ID s) ?I"
        using T by (simp del: set_filter)
      have len: "length (filter (logout_target ex cur) (s # sessions)) =
          Suc (length (filter (logout_target ex cur) sessions))" using T by simp
      show ?thesis unfolding I len
        using ih n s unfolding st1 kv_get_put kv_get_delete_where[OF Cons.prems(4)]
        by (simp del: set_filter split: option.split)
    qed (use s in simp)
  qed
qed (simp split: option.split)

text \<open>Logging out everywhere: with a positive token lifetime, the operation never counts a
  failure; it revokes exactly the user's sessions that were not revoked (but the current one when asked
  to keep it), counts them, removes all their refresh tokens, and leaves every other session, of this
  or any other user, and every other refresh token as it was.\<close>

lemma logout_all_effect:
  assumes "auth_ok st" and "0 < cfg_TokenTTL cfg"
    and "LogoutAll env cfg c u cur ex st = (st', Inr res)"
    and "target = (\<lambda>s. Session_UserID s = u \<and> logout_target ex cur s)"
  shows "kv_get (auth_sessions st') sid =
           map_option (\<lambda>s. if target s then Session_ApplyRevocation (ctx_Now c) s else s)
             (kv_get (auth_sessions st) sid) \<and>
         logout_FailedCount res = 0 \<and>
         logout_RevokedCount res = length (filter target (kv_values (auth_sessions st))) \<and>
         kv_get (auth_refreshTokens st') tok =
           (case kv_get (auth_refreshTokens st) tok of None \<Rightarrow> None
            | Some r \<Rightarrow>
                (case kv_get (auth_sessions st) (Refresh_SessionID r) of
                   Some s \<Rightarrow> if target s then None else Some r
                 | None \<Rightarrow> Some r))"
proof -
  let ?l = "SessionStore_ListByUser (auth_sessions st) u"
  from assms(1) have so: "sessions_ok (auth_sessions st)" and ko: "kv_ok (auth_refreshTokens st)"
    and ks: "kv_ok (auth_sessions st)"
    by (simp_all add: auth_ok_def sessions_ok_def refresh_ok_def)
  have key: "Session_ID s = k" if "kv_get (auth_sessions st) k = Some s" for k s
    using sessions_okD[OF so that] by simp
  have mem: "s \<in> set ?l \<longleftrightarrow> kv_get (auth_sessions st) (Session_ID s) = Some s \<and> Session_UserID s = u" for s
    unfolding SessionStore_ListByUser_def set_filter kv_values_iff[OF ks] using key by blast
  have dist: "distinct (map Session_ID ?l)"
    using sessions_ok_distinct[OF so] by (simp add: SessionStore_ListByUser_def distinct_map_filter)
  from assms(3) have l: "logout_loop env cfg c cur ex ?l
      (st, \<lparr> logout_RevokedCount = 0, logout_FailedCount = 0 \<rparr>) = (st', res)"
    by (simp add: LogoutAll_def Let_def split: if_splits prod.splits)
  have ids: "k \<in> Session_ID ` set (filter (logout_target ex cur) ?l) \<longleftrightarrow>
      (case kv_get (auth_sessions st) k of Some s \<Rightarrow> target s | None \<Rightarrow> False)" for k
  proof
    assume "k \<in> Session_ID ` set (filter (logout_target ex cur) ?l)"
    then obtain s where "k = Session_ID s" "s \<in> set ?l" "logout_target ex cur s" by auto
    with mem[of s] assms(4) show "case kv_get (auth_sessions st) k of Some s \<Rightarrow> target s | None \<Rightarrow> False" by simp
  next
    assume "case kv_get (auth_sessions st) k of Some s \<Rightarrow> target s | None \<Rightarrow> False"
    then obtain s where s: "kv_get (auth_sessions st) k = Some s" "target s"
      by (cases "kv_get (auth_sessions st) k") simp_all
    with mem[of s] key[OF s(1)] assms(4) show "k \<in> Session_ID ` set (filter (logout_target ex cur) ?l)"
      by (intro image_eqI[of _ _ s]) simp_all
  qed
  have n: "filter (logout_target ex cur) ?l = filter target (kv_values (auth_sessions st))"
    unfolding SessionStore_ListByUser_def assms(4) by (simp add: conj_commute)
  have el: "kv_get (auth_sessions st) (Session_ID s) = Some s" if "s \<in> set ?l" for s
    using that mem by blast
  show ?thesis
    using logout_loop_effect[OF l assms(2) dist ko el, of sid tok] unfolding ids unfolding n
    by (auto split: option.splits)
qed

lemma logout_all_effect_witness:
  "\<exists>st res. LogoutAll ex_env ex_cfg (ex_ctx 10) (UserID 1) (SessionID 3) True (ex_state False) = (st, Inr res) \<and>
     logout_RevokedCount res = 1 \<and> kv_get (auth_sessions st) (SessionID 3) = Some (ex_session 3 SessionStatusActive)"
proof -
  obtain st res where l: "LogoutAll ex_env ex_cfg (ex_ctx 10) (UserID 1) (SessionID 3) True (ex_state False) = (st, Inr res)"
    by (cases "logout_loop ex_env ex_cfg (ex_ctx 10) (SessionID 3) True
        (SessionStore_ListByUser (auth_sessions (ex_state False)) (UserID 1))
        (ex_state False, \<lparr> logout_RevokedCount = 0, logout_FailedCount = 0 \<rparr>)") (simp add: LogoutAll_def)
  have "0 < cfg_TokenTTL ex_cfg" by (simp add: ex_cfg_def applyDefaults_def)
  note e = logout_all_effect[OF ex_state_ok this l refl, of "SessionID 3" "''tok''"]
  with l show ?thesis
    by (simp add: logout_target_def ex_session_def ex_state_def kv_values_def Session_IsRevoked_def)
qed

text \<open>Only its owner revokes a session: for a session that exists, a request of another
  user is answered with \<^verbatim>\<open>forbidden\<close> and leaves all stores as they were; a request of the owner
  succeeds (with a positive token lifetime), leaves the session revoked, and, if it was not revoked
  before, removes its refresh tokens and puts its last access token on the revocation list.\<close>

lemma revoke_session_owner:
  assumes "auth_ok st" and "kv_get (auth_sessions st) sid = Some s" and "0 < cfg_TokenTTL cfg"
    and "\<not> UserID_IsNil u" and "\<not> SessionID_IsNil sid"
    and "RevokeSession env cfg c u sid st = (st', oe)"
  shows "if Session_UserID s \<noteq> u
         then oe = Some (dErrors_New CodeForbidden ''forbidden'') \<and> auth_stores st' = auth_stores st
         else oe = None \<and>
              (\<exists>s'. kv_get (auth_sessions st') sid = Some s' \<and> Session_IsRevoked s') \<and>
              (\<not> Session_IsRevoked s \<longrightarrow>
                 (\<forall>tok r. kv_get (auth_refreshTokens st') tok = Some r \<longrightarrow> Refresh_SessionID r \<noteq> sid) \<and>
                 (Session_LastAccessTokenJTI s \<noteq> [] \<longrightarrow>
                    auth_trl st' = fst (TRL_RevokeToken (env_trlClock env (Session_LastAccessTokenJTI s)) (auth_trl st)
                      (Session_LastAccessTokenJTI s) (cfg_TokenTTL cfg))))"
proof -
  note eqs = RevokeSession_eqs[OF assms(4,5)]
  have id: "Session_ID s = sid" using sessions_okD[OF _ assms(2)] assms(1) by (simp add: auth_ok_def)
  have ko: "kv_ok (auth_refreshTokens st)" using assms(1) by (simp add: auth_ok_def refresh_ok_def)
  have del: "Refresh_SessionID r \<noteq> sid"
    if "kv_get (kv_delete_where (\<lambda>t. Refresh_SessionID t = sid) (auth_refreshTokens st)) tok = Some r" for tok r
    using that unfolding kv_get_delete_where[OF ko] by (simp split: option.splits if_splits)
  have trl: "snd (TRL_RevokeToken t l j (cfg_TokenTTL cfg)) = None" for t l j
    using assms(3) by (auto simp: TRL_RevokeToken_def validateTTL_def Let_def split: option.splits)
  consider "Session_UserID s \<noteq> u" | "Session_UserID s = u" "Session_IsRevoked s"
    | "Session_UserID s = u" "\<not> Session_IsRevoked s" by blast
  then show ?thesis
  proof cases
    case 1
    with eqs(2)[OF assms(2)] assms(6) show ?thesis by auto
  next
    case 2
    with eqs(3)[OF assms(2)] assms(2,6) show ?thesis by simp
  next
    case 3
    let ?s = "Session_ApplyRevocation (ctx_Now c) s"
    let ?st = "st\<lparr> auth_sessions := kv_put (auth_sessions st) sid ?s \<rparr>"
    have rev: "Session_IsRevoked ?s" 
      by (simp add: Session_ApplyRevocation_def session_status_defs Let_def)
    have same: "Session_LastAccessTokenJTI ?s = Session_LastAccessTokenJTI s" "Session_ID ?s = sid"
      using id by (simp_all add: Session_ApplyRevocation_def Let_def)
    obtain l where l: "TRL_RevokeToken (env_trlClock env (Session_LastAccessTokenJTI s)) (auth_trl st) (Session_LastAccessTokenJTI s) (cfg_TokenTTL cfg)
        = (l, None)" using trl by (metis prod.collapse)
    have t: "revokeSession_tokens env cfg c ?s ?st = (st', oe)"
      using eqs(4)[OF assms(2) 3] assms(6) by simp
    have st': "oe = None" "auth_sessions st' = kv_put (auth_sessions st) sid ?s"
      "auth_refreshTokens st' = kv_delete_where (\<lambda>t. Refresh_SessionID t = sid) (auth_refreshTokens st)"
      "Session_LastAccessTokenJTI s \<noteq> [] \<Longrightarrow> auth_trl st' = l"
      using t[symmetric] unfolding revokeSession_tokens_def Let_def same
      by (cases "Session_LastAccessTokenJTI s = []";
          simp add: l logAudit_def RefreshStore_DeleteBySessionID_def Let_def; fail)+
    have del': "Refresh_SessionID r \<noteq> sid" if "kv_get (auth_refreshTokens st') tok = Some r" for tok r
      using del that unfolding st'(3) .
    have "kv_get (auth_sessions st') sid = Some ?s" unfolding st'(2) kv_get_put by simp
    with 3(1) rev st'(1,4) l del' show ?thesis by simp
  qed
qed

lemma revoke_session_owner_witness:
  "snd (RevokeSession ex_env ex_cfg (ex_ctx 10) (UserID 9) (SessionID 3) (ex_state False)) =
     Some (dErrors_New CodeForbidden ''forbidden'')"
proof -
  have "0 < cfg_TokenTTL ex_cfg" by (simp add: ex_cfg_def applyDefaults_def)
  from revoke_session_owner[OF ex_state_ok ex_state_lookups(4) this, of "UserID 9" ex_env "ex_ctx 10", OF _ _ surjective_pairing]
  show ?thesis by (simp add: ex_session_def)
qed

text \<open>Listing sessions: a user sees exactly their own active sessions that have not expired,
  each once, most recently used first, and only the given session is marked as the current one. (The
  sort is a parameter: it permutes its input and sorts it by the comparison the code gives it.)\<close>

lemma list_sessions_exact:
  assumes "sorts_by (\<lambda>s t. Session_LastSeenAt s > Session_LastSeenAt t) sort_Slice"
    and "sessions_ok (auth_sessions st)"
    and "ListSessions sort_Slice env c u cur st = Inr out"
  shows "\<exists>ss. out = map (summarize env cur) ss \<and> distinct ss \<and>
           sorted_wrt (\<lambda>s t. Session_LastSeenAt t \<le> Session_LastSeenAt s) ss \<and>
           (\<forall>s. s \<in> set ss \<longleftrightarrow> kv_get (auth_sessions st) (Session_ID s) = Some s \<and> Session_UserID s = u \<and>
                  Session_IsActive s \<and> ctx_Now c \<le> Session_ExpiresAt s) \<and>
           map summary_IsCurrent out = map (\<lambda>s. Session_ID s = cur) ss"
proof -
  let ?a = "filter (\<lambda>s. Session_IsActive s \<and> \<not> Session_ExpiresAt s < ctx_Now c)
      (SessionStore_ListByUser (auth_sessions st) u)"
  have ks: "kv_ok (auth_sessions st)" using assms(2) by (simp add: sessions_ok_def)
  have key: "Session_ID s = k" if "kv_get (auth_sessions st) k = Some s" for k s
    using sessions_okD[OF assms(2) that] by simp
  have o: "out = map (summarize env cur) (sort_Slice ?a)"
    using assms(3) by (simp add: ListSessions_def Let_def split: if_splits)
  have ms: "mset (sort_Slice ?a) = mset ?a"
    and so: "sorted_wrt (\<lambda>x y. \<not> Session_LastSeenAt x < Session_LastSeenAt y) (sort_Slice ?a)"
    using assms(1) unfolding sorts_by_def by blast+
  have "distinct ?a"
    using sessions_ok_distinct[OF assms(2)] by (simp add: SessionStore_ListByUser_def distinct_map)
  with ms have di: "distinct (sort_Slice ?a)" by (metis mset_eq_imp_distinct_iff)
  have mem: "s \<in> set (sort_Slice ?a) \<longleftrightarrow> kv_get (auth_sessions st) (Session_ID s) = Some s \<and> Session_UserID s = u \<and>
      Session_IsActive s \<and> ctx_Now c \<le> Session_ExpiresAt s" for s
  proof -
    have "s \<in> set (sort_Slice ?a) \<longleftrightarrow> s \<in> set ?a" unfolding mset_eq_setD[OF ms] ..
    also have "\<dots> \<longleftrightarrow> s \<in> set (kv_values (auth_sessions st)) \<and> Session_UserID s = u \<and>
        Session_IsActive s \<and> ctx_Now c \<le> Session_ExpiresAt s"
      unfolding SessionStore_ListByUser_def set_filter not_less by blast
    also have "s \<in> set (kv_values (auth_sessions st)) \<longleftrightarrow> kv_get (auth_sessions st) (Session_ID s) = Some s"
      unfolding kv_values_iff[OF ks] using key by blast
    finally show ?thesis .
  qed
  show ?thesis
    by (rule exI[of _ "sort_Slice ?a"]) (use o di so mem in \<open>simp add: summarize_def Let_def not_less\<close>)
qed

lemma ex_sorts: "sorts_by (\<lambda>s t. Session_LastSeenAt s > Session_LastSeenAt t) (sort_key (\<lambda>s. - Session_LastSeenAt s))"
proof -
  have "sorted_wrt (\<lambda>x y. \<not> Session_LastSeenAt x < Session_LastSeenAt y) (sort_key (\<lambda>s. - Session_LastSeenAt s) xs)"
    for xs using sorted_sort_key[of "\<lambda>s. - Session_LastSeenAt s" xs] by (simp add: sorted_map not_less)
  then show ?thesis unfolding sorts_by_def by (intro allI conjI) simp_all
qed

lemma list_sessions_exact_witness:
  "\<exists>out. ListSessions (sort_key (\<lambda>s. - Session_LastSeenAt s)) ex_env (ex_ctx 10) (UserID 1) (SessionID 3) (ex_state False)
      = Inr out \<and> True \<in> set (map summary_IsCurrent out)"
proof -
  obtain out where o: "ListSessions (sort_key (\<lambda>s. - Session_LastSeenAt s)) ex_env (ex_ctx 10) (UserID 1) (SessionID 3)
      (ex_state False) = Inr out" by (simp add: ListSessions_def Let_def)
  have "sessions_ok (auth_sessions (ex_state False))" using ex_state_ok by (simp add: auth_ok_def)
  from list_sessions_exact[OF ex_sorts this o] obtain ss where
    ss: "\<And>s. s \<in> set ss \<longleftrightarrow> kv_get (auth_sessions (ex_state False)) (Session_ID s) = Some s \<and> Session_UserID s = UserID 1 \<and>
      Session_IsActive s \<and> ctx_Now (ex_ctx 10) \<le> Session_ExpiresAt s"
    and m: "map summary_IsCurrent out = map (\<lambda>s. Session_ID s = SessionID 3) ss" by blast
  have "ex_session 3 SessionStatusActive \<in> set ss"
    unfolding ss by (simp add: ex_session_def ex_state_def Session_IsActive_def ex_ctx_def)
  then have "True \<in> set (map summary_IsCurrent out)"
    unfolding m by (force simp: ex_session_def)
  with o show ?thesis by blast
qed

section \<open>Rejected requests\<close>

text \<open>A code that is unknown, expired, or presented with another redirect URI than the
  one it was issued for buys nothing: the exchange fails and no store changes; an unknown code is
  reported as \<^verbatim>\<open>invalid_grant\<close>.\<close>

lemma exchange_rejects:
  assumes "\<And>a. kv_get (auth_codes st) (treq_Code t) = Some a \<Longrightarrow>
      Code_RedirectURI a \<noteq> treq_RedirectURI t \<or> Code_ExpiresAt a < ctx_Now c"
  shows "\<exists>st' e. exchangeAuthorizationCode env cfg c t st = (st', Inl e) \<and> auth_stores st' = auth_stores st \<and>
     (kv_get (auth_codes st) (treq_Code t) = None \<longrightarrow> HasCode e CodeInvalidGrant)"
proof (cases "kv_get (auth_codes st) (treq_Code t)")
  case None
  show ?thesis
    by (simp add: exchangeAuthorizationCode_def CodeStore_FindByCode_def None handleTokenError_def
        tokenErrorMappings_def err_simps error_matches_def ErrSessionRevoked_def)
next
  case (Some a)
  have fails: "\<exists>st' e'. (let (st, e) = handleTokenError c e fl st1 in (st, Inl e)) = (st', Inl e' :: TokenResult result) \<and>
      auth_stores st' = auth_stores st" if "auth_stores st1 = auth_stores st" for e fl st1
    using that handleTokenError_stores[of c e fl st1] by (cases "handleTokenError c e fl st1") simp
  have v: "\<exists>e. Code_ValidateForConsume a (treq_RedirectURI t) (ctx_Now c) = Some e \<and> \<not> isAlreadyUsedError e"
    using assms[OF Some] by (auto simp: Code_ValidateForConsume_def Code_IsExpired_def isAlreadyUsedError_New)
  have tx: "\<exists>e. exchange_tx cfg c (treq_Code t) (treq_RedirectURI t) s tc art st1 = (st2, Inl e) \<and>
       auth_stores st2 = auth_stores st"
    if "exchange_tx cfg c (treq_Code t) (treq_RedirectURI t) s tc art st1 = (st2, r)"
      "auth_stores st1 = auth_stores st" for s tc art st1 st2 r
    using that v Some auth_stores_eqD[OF that(2)]
    by (auto simp: exchange_tx_def consumeCodeWithReplayProtection_def CodeStore_Execute_def
        revokeSessionOnReplay_def auth_stores_def Let_def)
  show ?thesis
  proof (cases "SessionStore_FindByID (auth_sessions st) (Code_SessionID a)")
    case (Inl e)
    with fails[of st e TokenFlowCode] Some show ?thesis
      by (simp add: exchangeAuthorizationCode_def CodeStore_FindByCode_def)
  next
    case (Inr s)
    obtain st1 r where p: "prepareTokenFlow env cfg c s (treq_ClientID t) TokenFlowCode st = (st1, r)" by fastforce
    note ps = prepareTokenFlow_stores[OF p]
    show ?thesis
    proof (cases r)
      case (Inl e)
      with p ps Inr Some show ?thesis by (simp add: exchangeAuthorizationCode_def CodeStore_FindByCode_def)
    next
      case r: (Inr q)
      obtain tc art where q: "q = (tc, art)" by fastforce
      obtain st2 x where x: "auth_RunInTx c (exchange_tx cfg c (treq_Code t) (treq_RedirectURI t) s tc art) st1 = (st2, x)"
        by fastforce
      have "\<exists>e. x = Inl e \<and> auth_stores st2 = auth_stores st"
      proof (cases "ctx_ErrEntry c = None \<and> ctx_ErrLocked c = None")
        case True
        with x have "exchange_tx cfg c (treq_Code t) (treq_RedirectURI t) s tc art st1 = (st2, x)"
          by (simp add: auth_RunInTx_def run_in_tx_def)
        from tx[OF this ps] this show ?thesis by simp
      qed (use x ps in \<open>auto simp: auth_RunInTx_def run_in_tx_def split: option.splits\<close>)
      then obtain e where e: "x = Inl e" "auth_stores st2 = auth_stores st" by blast
      from fails[OF e(2), of e TokenFlowCode] p r q x e(1) Inr Some show ?thesis
        by (simp add: exchangeAuthorizationCode_def CodeStore_FindByCode_def)
    qed
  qed
qed

lemma exchange_rejects_witness:
  "\<exists>st e. exchangeAuthorizationCode ex_env ex_cfg (ex_ctx 10) (ex_treq\<lparr> treq_Code := ''authz_x'' \<rparr>) (ex_state False)
     = (st, Inl e) \<and> HasCode e CodeInvalidGrant"
proof -
  have n: "kv_get (auth_codes (ex_state False)) ''authz_x'' = None" by (simp add: ex_state_def)
  then show ?thesis
    using exchange_rejects[of "ex_state False" "ex_treq\<lparr> treq_Code := ''authz_x'' \<rparr>" "ex_ctx 10" ex_env ex_cfg] by force
qed

text \<open>Revoking a token ends its session: revoking a token that resolves to a session (an access
  token by its claims, or a refresh token) always succeeds with a positive token lifetime, leaves the
  session revoked and, when the session was not revoked before, none of its refresh tokens in the
  store; a token that resolves to nothing is answered as a success without changing any store.\<close>

lemma revoke_token_effect:
  assumes "auth_ok st" and "0 < cfg_TokenTTL cfg"
    and "validateRevokeInput (TrimSpace tok) (TrimSpace hint) = None"
    and "RevokeToken env cfg c tok hint st = (st', oe)"
  shows "oe = None \<and>
    (case resolveTokenToSession env st (TrimSpace tok) (TrimSpace hint) of
       Inl _ \<Rightarrow> auth_stores st' = auth_stores st
     | Inr (s, jti) \<Rightarrow>
         (\<exists>s'. kv_get (auth_sessions st') (Session_ID s) = Some s' \<and> Session_IsRevoked s') \<and>
         (\<not> Session_IsRevoked s \<longrightarrow>
            (\<forall>k r. kv_get (auth_refreshTokens st') k = Some r \<longrightarrow> Refresh_SessionID r \<noteq> Session_ID s)))"
proof (cases "resolveTokenToSession env st (TrimSpace tok) (TrimSpace hint)")
  case (Inl e)
  with assms(3,4) show ?thesis by (auto simp: RevokeToken_def Let_def)
next
  case (Inr q)
  obtain s jti where q: "q = (s, jti)" by fastforce
  have so: "sessions_ok (auth_sessions st)" and ko: "kv_ok (auth_refreshTokens st)"
    using assms(1) by (simp_all add: auth_ok_def refresh_ok_def)
  have "\<exists>k. kv_get (auth_sessions st) k = Some s"
    using Inr q
    by (auto simp: resolveTokenToSession_def extractSessionFromAccessToken_def findSessionByRefreshToken_def
        SessionStore_FindByID_def RefreshStore_Find_def Let_def split: sum.splits option.splits if_splits)
  then have s: "kv_get (auth_sessions st) (Session_ID s) = Some s"
    using sessions_okD[OF so] by metis
  obtain st1 o1 e1 where r: "revokeSessionInternal env cfg c s jti st = (st1, o1, e1)" by (metis prod.exhaust)
  have o: "e1 = None \<Longrightarrow> oe = None \<and> auth_stores st' = auth_stores st1"
    using assms(3,4) Inr q r
    by (auto simp: RevokeToken_def revokeAndAudit_def Let_def split: if_splits)
  from r assms(2) show ?thesis
  proof (cases rule: revokeSessionInternal_cases)
    case (already s0)
    with o s auth_stores_eqD[of st' st1] Inr q show ?thesis by simp
  next
    case (revoked s0)
    have st': "auth_sessions st' = kv_put (auth_sessions st) (Session_ID s) (Session_ApplyRevocation (ctx_Now c) s)"
      "auth_refreshTokens st' = kv_delete_where (\<lambda>t. Refresh_SessionID t = Session_ID s) (auth_refreshTokens st)"
      using revoked(1,4,5) s o auth_stores_eqD[of st' st1]
      by (simp_all add: RefreshStore_DeleteBySessionID_def Let_def)
    have "Refresh_SessionID rt \<noteq> Session_ID s" if "kv_get (auth_refreshTokens st') k = Some rt" for k rt
      using that unfolding st'(2) kv_get_delete_where[OF ko] by (simp split: option.splits if_splits)
    moreover have "kv_get (auth_sessions st') (Session_ID s) = Some (Session_ApplyRevocation (ctx_Now c) s)"
      unfolding st'(1) kv_get_put by simp
    moreover have "Session_IsRevoked (Session_ApplyRevocation (ctx_Now c) s)"
      by (simp add: Session_ApplyRevocation_def session_status_defs Let_def)
    ultimately show ?thesis using Inr q o revoked(4) by simp
  qed (use s in simp)
qed

lemma revoke_token_effect_witness:
  "\<exists>s'. kv_get (auth_sessions (fst (RevokeToken ex_env ex_cfg (ex_ctx 10) ''tok'' ''refresh_token'' (ex_state False))))
      (SessionID 3) = Some s' \<and> Session_IsRevoked s'"
proof -
  have v: "TrimSpace ''tok'' = ''tok''" "TrimSpace ''refresh_token'' = ''refresh_token''" by code_simp+
  have r: "resolveTokenToSession ex_env (ex_state False) ''tok'' ''refresh_token'' =
      Inr (ex_session 3 SessionStatusActive, [])"
    by (simp add: resolveTokenToSession_def TokenHintAccessToken_def TokenHintRefreshToken_def
        findSessionByRefreshToken_def RefreshStore_Find_def SessionStore_FindByID_def ex_refresh_def)
  have p: "0 < cfg_TokenTTL ex_cfg" by (simp add: ex_cfg_def applyDefaults_def)
  have "validateRevokeInput (TrimSpace ''tok'') (TrimSpace ''refresh_token'') = None"
    by (simp add: v validateRevokeInput_def TokenHintAccessToken_def TokenHintRefreshToken_def)
  from revoke_token_effect[OF ex_state_ok[of False] p this surjective_pairing, of ex_env "ex_ctx 10"] show ?thesis
    unfolding v r by (simp add: ex_session_def)
qed

end
