(* ===== verification/Client_Resolver.thy ===== *)
theory Client_Resolver
  imports Tenant_Registry Circuit Auth_Properties
begin

text \<open>
  How the authentication service finds a client (\<^verbatim>\<open>internal/auth/adapters\<close>): the contract of
  the tenant service (\<^verbatim>\<open>contracts/tenant\<close>, \<^verbatim>\<open>ResolveClientContract\<close>), the adapter to the types of
  the authentication service, the cache of clients, and the resolver that puts a circuit breaker and
  the cache in front of the adapter. \<^verbatim>\<open>cmd/server/main.go\<close> gives the authentication service this
  resolver; here it is composed with the models of both services.

  The clock is read up to four times in a call: \<open>clk 0\<close> for the cache before the delegate, \<open>clk 1\<close> for
  the cache after a failure, \<open>clk 2\<close> when a result is stored and \<open>clk 3\<close> for the cleanup that follows.
  The order in which \<^verbatim>\<open>range\<close> visits the entries of the cache is the parameter \<open>order\<close>.
\<close>

section \<open>The contract and the adapter\<close>

record contract_client =
  ctc_ID :: string
  ctc_TenantID :: string
  ctc_OAuthClientID :: string
  ctc_RedirectURIs :: "string list"
  ctc_AllowedScopes :: "string list"
  ctc_Active :: bool

record contract_tenant =
  ctt_ID :: string
  ctt_Active :: bool

fun ClientID_String :: "(uuid \<Rightarrow> string) \<Rightarrow> ClientID \<Rightarrow> string" where
  "ClientID_String uuid_String (ClientID u) = uuid_String u"

fun TenantID_String :: "(uuid \<Rightarrow> string) \<Rightarrow> TenantID \<Rightarrow> string" where
  "TenantID_String uuid_String (TenantID u) = uuid_String u"

definition ResolveClientContract :: "(uuid \<Rightarrow> string) \<Rightarrow> string \<Rightarrow> tenant_state \<Rightarrow> (contract_client \<times> contract_tenant) result" where
  "ResolveClientContract uuid_String clientID st =
     (case ResolveClient clientID st of
        Inl e \<Rightarrow> Inl e
      | Inr (client, tenant) \<Rightarrow>
          Inr (\<lparr> ctc_ID = ClientID_String uuid_String (Client_ID client),
                 ctc_TenantID = TenantID_String uuid_String (Client_TenantID client),
                 ctc_OAuthClientID = Client_OAuthClientID client, ctc_RedirectURIs = Client_RedirectURIs client,
                 ctc_AllowedScopes = Client_AllowedScopes client, ctc_Active = Client_IsActive client \<rparr>,
               \<lparr> ctt_ID = TenantID_String uuid_String (Tenant_ID tenant), ctt_Active = Tenant_IsActive tenant \<rparr>))"

text \<open>A failed parse is ignored and leaves the nil identifier.\<close>

definition parsed_or_nil :: "uuid result \<Rightarrow> uuid" where
  "parsed_or_nil r = (case r of Inl _ \<Rightarrow> 0 | Inr u \<Rightarrow> u)"

definition mapClient :: "(string \<Rightarrow> uuid option) \<Rightarrow> contract_client \<Rightarrow> ResolvedClient" where
  "mapClient uuid_Parse c =
     \<lparr> rc_ID = ClientID (parsed_or_nil (parseUUID uuid_Parse (ctc_ID c) ''client ID'')),
       rc_TenantID = TenantID (parsed_or_nil (parseUUID uuid_Parse (ctc_TenantID c) ''tenant ID'')),
       rc_OAuthClientID = ctc_OAuthClientID c, rc_RedirectURIs = ctc_RedirectURIs c,
       rc_AllowedScopes = ctc_AllowedScopes c, rc_Active = ctc_Active c \<rparr>"

definition mapTenant :: "(string \<Rightarrow> uuid option) \<Rightarrow> contract_tenant \<Rightarrow> ResolvedTenant" where
  "mapTenant uuid_Parse t =
     \<lparr> rt_ID = TenantID (parsed_or_nil (parseUUID uuid_Parse (ctt_ID t) ''tenant ID'')), rt_Active = ctt_Active t \<rparr>"

definition TenantClientResolver_ResolveClient ::
  "(string \<Rightarrow> uuid option) \<Rightarrow> (uuid \<Rightarrow> string) \<Rightarrow> tenant_state \<Rightarrow> string \<Rightarrow> (ResolvedClient \<times> ResolvedTenant) result" where
  "TenantClientResolver_ResolveClient uuid_Parse uuid_String st clientID =
     (case ResolveClientContract uuid_String clientID st of
        Inl e \<Rightarrow> Inl e
      | Inr (client, tenant) \<Rightarrow> Inr (mapClient uuid_Parse client, mapTenant uuid_Parse tenant))"

section \<open>The cache\<close>

record clientCacheEntry =
  ce_value :: "ResolvedClient \<times> ResolvedTenant"
  ce_expiresAt :: time

type_synonym clientCache = "(string, clientCacheEntry) kv"

definition Cache_Get :: "time \<Rightarrow> string \<Rightarrow> clientCache \<Rightarrow> (ResolvedClient \<times> ResolvedTenant) option" where
  "Cache_Get now clientID entries =
     (case kv_get entries clientID of
        None \<Rightarrow> None
      | Some entry \<Rightarrow> if now > ce_expiresAt entry then None else Some (ce_value entry))"

text \<open>The loop visits the entries in the order of \<^verbatim>\<open>range\<close>, removes up to \<open>n\<close> expired ones and stops.\<close>

fun cleanup_loop :: "nat \<Rightarrow> time \<Rightarrow> string list \<Rightarrow> clientCache \<Rightarrow> clientCache" where
  "cleanup_loop n now [] entries = entries"
| "cleanup_loop n now (key # keys) entries =
     (case kv_get entries key of
        None \<Rightarrow> cleanup_loop n now keys entries
      | Some entry \<Rightarrow>
          if now > ce_expiresAt entry
          then (if n \<le> 1 then kv_del entries key else cleanup_loop (n - 1) now keys (kv_del entries key))
          else cleanup_loop n now keys entries)"

definition cleanupExpiredLocked :: "(string list \<Rightarrow> string list) \<Rightarrow> nat \<Rightarrow> time \<Rightarrow> clientCache \<Rightarrow> clientCache" where
  "cleanupExpiredLocked order n now entries = cleanup_loop n now (order (map fst entries)) entries"

definition Cache_Set :: "(string list \<Rightarrow> string list) \<Rightarrow> duration \<Rightarrow> time \<Rightarrow> time \<Rightarrow> string \<Rightarrow> ResolvedClient \<times> ResolvedTenant \<Rightarrow> clientCache \<Rightarrow> clientCache" where
  "Cache_Set order ttl now now' clientID v entries =
     cleanupExpiredLocked order 10 now' (kv_put entries clientID \<lparr> ce_value = v, ce_expiresAt = now + ttl \<rparr>)"

section \<open>The resilient resolver\<close>

record resolverConfig =
  rcf_failureThreshold :: int
  rcf_successThreshold :: int
  rcf_cacheTTL :: duration

datatype ResolverOption = ResolverFailureThreshold int | ResolverSuccessThreshold int | ResolverCacheTTL duration

fun apply_resolver_option :: "ResolverOption \<Rightarrow> resolverConfig \<Rightarrow> resolverConfig" where
  "apply_resolver_option (ResolverFailureThreshold n) c = c\<lparr> rcf_failureThreshold := n \<rparr>"
| "apply_resolver_option (ResolverSuccessThreshold n) c = c\<lparr> rcf_successThreshold := n \<rparr>"
| "apply_resolver_option (ResolverCacheTTL ttl) c = c\<lparr> rcf_cacheTTL := ttl \<rparr>"

record resolver =
  rs_cb :: Breaker
  rs_cache :: clientCache
  rs_ttl :: duration

definition NewResilientClientResolver :: "ResolverOption list \<Rightarrow> resolver" where
  "NewResilientClientResolver opts =
     (let cfg = fold apply_resolver_option opts
            \<lparr> rcf_failureThreshold = 5, rcf_successThreshold = 3, rcf_cacheTTL = 5 * minute \<rparr>;
          cbOpts = (if rcf_failureThreshold cfg > 0 then [Some (WithFailureThreshold (rcf_failureThreshold cfg))] else []) @
                   (if rcf_successThreshold cfg > 0 then [Some (WithSuccessThreshold (rcf_successThreshold cfg))] else [])
      in \<lparr> rs_cb = Breaker_New ''client_resolver'' cbOpts, rs_cache = [], rs_ttl = rcf_cacheTTL cfg \<rparr>)"

definition Resilient_ResolveClient ::
  "(nat \<Rightarrow> time) \<Rightarrow> (string list \<Rightarrow> string list) \<Rightarrow> (string \<Rightarrow> (ResolvedClient \<times> ResolvedTenant) result) \<Rightarrow> string \<Rightarrow> resolver
     \<Rightarrow> resolver \<times> (ResolvedClient \<times> ResolvedTenant) result" where
  "Resilient_ResolveClient clk order delegate clientID r =
     (case (if Breaker_IsOpen (rs_cb r) then Cache_Get (clk 0) clientID (rs_cache r) else None) of
        Some v \<Rightarrow> (r, Inr v)
      | None \<Rightarrow>
          (case delegate clientID of
             Inl err \<Rightarrow>
               (case Breaker_RecordFailure (rs_cb r) of (cb, useFallback, _) \<Rightarrow>
                  let r = r\<lparr> rs_cb := cb \<rparr>
                  in (case (if useFallback then Cache_Get (clk 1) clientID (rs_cache r) else None) of
                        Some v \<Rightarrow> (r, Inr v)
                      | None \<Rightarrow> (r, Inl err)))
           | Inr v \<Rightarrow>
               (case Breaker_RecordSuccess (rs_cb r) of (cb, _, _) \<Rightarrow>
                  (r\<lparr> rs_cb := cb, rs_cache := Cache_Set order (rs_ttl r) (clk 2) (clk 3) clientID v (rs_cache r) \<rparr>, Inr v))))"

section \<open>Histories of calls\<close>

record rcall =
  rq_clk :: "nat \<Rightarrow> time"
  rq_order :: "string list \<Rightarrow> string list"
  rq_delegate :: "string \<Rightarrow> (ResolvedClient \<times> ResolvedTenant) result"
  rq_id :: string

definition rs_call :: "rcall \<Rightarrow> resolver \<Rightarrow> resolver \<times> (ResolvedClient \<times> ResolvedTenant) result" where
  "rs_call q r = Resilient_ResolveClient (rq_clk q) (rq_order q) (rq_delegate q) (rq_id q) r"

definition rs_after :: "rcall list \<Rightarrow> resolver \<Rightarrow> resolver" where
  "rs_after calls r = fold (\<lambda>q r. fst (rs_call q r)) calls r"

text \<open>Every entry of the cache is the answer of the delegate to an earlier call, stored at the time
  that call read.\<close>

definition entries_from :: "rcall set \<Rightarrow> resolver \<Rightarrow> bool" where
  "entries_from Q r \<longleftrightarrow> (\<forall>k e. (k, e) \<in> set (rs_cache r) \<longrightarrow>
     (\<exists>q \<in> Q. rq_id q = k \<and> rq_delegate q k = Inr (ce_value e) \<and> ce_expiresAt e = rq_clk q 2 + rs_ttl r))"

lemma cleanup_loop_subset: "set (cleanup_loop n now keys m) \<subseteq> set m"
proof (induction n now keys m rule: cleanup_loop.induct)
  case (2 n now key keys m)
  show ?case
  proof (cases "kv_get m key")
    case None
    then show ?thesis using 2(1) by simp
  next
    case (Some e)
    note ih = 2(2)[OF Some] 2(3)[OF Some]
    show ?thesis using Some ih order_trans[OF ih(1) kv_del_set_subset] kv_del_set_subset[of key m] by simp
  qed
qed simp

lemma cleanup_subset: "set (cleanupExpiredLocked order n now m) \<subseteq> set m"
  by (simp add: cleanupExpiredLocked_def cleanup_loop_subset)

text \<open>The cleanup never drops an entry that has not expired.\<close>

lemma cleanup_keeps:
  "kv_get m k = Some e \<Longrightarrow> now \<le> ce_expiresAt e \<Longrightarrow> kv_ok m \<Longrightarrow> kv_get (cleanupExpiredLocked order n now m) k = Some e"
proof -
  assume "kv_get m k = Some e" "now \<le> ce_expiresAt e" "kv_ok m"
  then have "kv_get (cleanup_loop n now keys m) k = Some e" for keys
    by (induction n now keys m rule: cleanup_loop.induct) (auto simp: kv_simps split: option.splits)
  then show ?thesis by (simp add: cleanupExpiredLocked_def)
qed

lemma entries_from_mono: "entries_from Q r \<Longrightarrow> Q \<subseteq> Q' \<Longrightarrow> entries_from Q' r"
  unfolding entries_from_def by (meson subsetD)

lemma entries_from_call:
  assumes "entries_from Q r"
  shows "entries_from (insert q Q) (fst (rs_call q r))"
proof -
  have "entries_from (insert q Q) r" by (rule entries_from_mono [OF assms]) auto
  moreover have "(k, e) \<in> set (Cache_Set (rq_order q) (rs_ttl r) (rq_clk q 2) (rq_clk q 3) (rq_id q) v (rs_cache r)) \<Longrightarrow>
      (k, e) \<in> set (rs_cache r) \<or> k = rq_id q \<and> e = \<lparr> ce_value = v, ce_expiresAt = rq_clk q 2 + rs_ttl r \<rparr>" for k e v
    using cleanup_subset kv_put_set_subset unfolding Cache_Set_def by fastforce
  ultimately show ?thesis
    unfolding rs_call_def Resilient_ResolveClient_def
    by (fastforce simp: entries_from_def Let_def split: option.splits sum.splits prod.splits)
qed

lemma rs_ttl_call [simp]: "rs_ttl (fst (rs_call q r)) = rs_ttl r"
  by (auto simp: rs_call_def Resilient_ResolveClient_def Let_def split: option.splits sum.splits prod.splits)

lemma entries_from_after:
  "entries_from Q r \<Longrightarrow> entries_from (Q \<union> set calls) (rs_after calls r) \<and> rs_ttl (rs_after calls r) = rs_ttl r"
proof (induction calls arbitrary: Q r)
  case Nil
  then show ?case by (simp add: rs_after_def)
next
  case (Cons q calls)
  from Cons.IH [OF entries_from_call [OF Cons.prems]] show ?case by (simp add: rs_after_def Un_commute)
qed

lemma entries_from_New: "entries_from {} (NewResilientClientResolver opts)"
  by (simp add: entries_from_def NewResilientClientResolver_def Let_def)

lemma Cache_Get_entry:
  assumes "entries_from Q r" "Cache_Get now k (rs_cache r) = Some v"
  shows "\<exists>q \<in> Q. rq_id q = k \<and> rq_delegate q k = Inr v \<and> now \<le> rq_clk q 2 + rs_ttl r"
  using assms unfolding Cache_Get_def entries_from_def
  by (fastforce dest: map_of_SomeD split: option.splits if_splits)

lemma rs_call_Inr:
  assumes "entries_from Q r" "rs_call q r = (r', Inr v)"
  shows "rq_delegate q (rq_id q) = Inr v \<or>
     Breaker_IsOpen (rs_cb r') \<and>
     (\<exists>p \<in> Q. rq_id p = rq_id q \<and> rq_delegate p (rq_id p) = Inr v \<and>
        (rq_clk q 0 \<le> rq_clk p 2 + rs_ttl r \<or> rq_clk q 1 \<le> rq_clk p 2 + rs_ttl r))"
proof -
  obtain cb f ch where f: "Breaker_RecordFailure (rs_cb r) = (cb, f, ch)" by (metis prod_cases3)
  have o: "f = Breaker_IsOpen cb" using platform.failure_law [OF f] by blast
  have "rq_delegate q (rq_id q) = Inr v \<or>
      (Breaker_IsOpen (rs_cb r) \<and> r' = r \<and> Cache_Get (rq_clk q 0) (rq_id q) (rs_cache r) = Some v) \<or>
      (f \<and> rs_cb r' = cb \<and> Cache_Get (rq_clk q 1) (rq_id q) (rs_cache r) = Some v)"
    using assms(2) f
    by (auto simp: rs_call_def Resilient_ResolveClient_def Let_def split: option.splits sum.splits prod.splits if_splits)
  then show ?thesis
    using Cache_Get_entry [OF assms(1), of "rq_clk q 0" "rq_id q" v]
      Cache_Get_entry [OF assms(1), of "rq_clk q 1" "rq_id q" v] o by (elim disjE) auto
qed

section \<open>The adapter\<close>

lemma parsed_id:
  assumes "uuid_round_trip uuid_Parse uuid_String"
  shows "ClientID (parsed_or_nil (parseUUID uuid_Parse (ClientID_String uuid_String cid) label)) = cid"
    and "TenantID (parsed_or_nil (parseUUID uuid_Parse (TenantID_String uuid_String tid) label)) = tid"
  using assms by (cases cid; cases tid; simp add: parsed_or_nil_def parseUUID_def uuid_round_trip_def)+

text \<open>What the adapter returns, in terms of the client and tenant the tenant service resolved.\<close>

lemma adapter_Inr:
  assumes "uuid_round_trip uuid_Parse uuid_String"
    and "TenantClientResolver_ResolveClient uuid_Parse uuid_String st oid = Inr (client, tnt)"
  obtains c t where "ResolveClient oid st = Inr (c, t)" "rc_ID client = Client_ID c" "rc_TenantID client = Client_TenantID c"
    "rc_RedirectURIs client = Client_RedirectURIs c" "rc_AllowedScopes client = Client_AllowedScopes c"
    "rc_Active client" "rt_ID tnt = Tenant_ID t" "rt_Active tnt"
proof -
  obtain c t where r: "ResolveClient oid st = Inr (c, t)"
    using assms(2) by (auto simp: TenantClientResolver_ResolveClient_def ResolveClientContract_def split: sum.splits)
  then have "Client_IsActive c" "Tenant_IsActive t" by (simp_all add: ResolveClient_Inr_iff)
  with r assms that show thesis
    by (auto simp: TenantClientResolver_ResolveClient_def ResolveClientContract_def mapClient_def mapTenant_def parsed_id)
qed

lemma adapter_suspended:
  assumes "uuid_round_trip uuid_Parse uuid_String" "registry_ok uni st" "suspended tid st"
    and "TenantClientResolver_ResolveClient uuid_Parse uuid_String st oid = Inr (client, tnt)"
  shows "rt_ID tnt \<noteq> tid"
proof -
  obtain c t where r: "ResolveClient oid st = Inr (c, t)" and t: "rt_ID tnt = Tenant_ID t"
    using adapter_Inr [OF assms(1,4)] by metis
  have "Tenant_ID t = Client_TenantID c"
    using r tenants_okD(1) [of uni "tn_tenants st"] assms(2) by (auto simp: ResolveClient_Inr_iff registry_ok_def)
  then show ?thesis using suspended_no_resolve [OF assms(3) r] t by simp
qed

section \<open>The tenant behind a successful request\<close>

lemma authorize_session:
  assumes "Authorize env cfg c (Some req) ast = (ast', Inr res)"
  obtains oid client tnt a s where "env_ResolveClient env oid = Inr (client, tnt)"
    "kv_get (auth_codes ast') (ares_Code res) = Some a" "kv_get (auth_sessions ast') (Code_SessionID a) = Some s"
    "Session_TenantID s = rt_ID tnt"
proof -
  from assms obtain client tnt p st1 ar oid where
    n: "env_ResolveClient env oid = Inr (client, tnt)" and p: "ap_Client p = client" "ap_Tenant p = tnt"
    and tx: "authorize_tx env cfg p ast = (st1, Inr ar)" and out: "auth_stores ast' = auth_stores st1"
      "ares_Code res = Code_Code (ar_AuthCode ar)"
    by (auto elim!: Authorize_Inr)
  note ti = authorize_tx_Inr [OF tx]
  show thesis
    by (rule that [OF n, of "ar_AuthCode ar" "ar_Session ar"])
      (use p ti auth_stores_eqD [OF out(1)] out(2) in \<open>auto simp: kv_simps\<close>)
qed

lemma exchange_session:
  assumes "exchangeAuthorizationCode env cfg c req ast = (ast', Inr res)"
  obtains client tnt a s where "env_ResolveClient env (treq_ClientID req) = Inr (client, tnt)"
    "kv_get (auth_codes ast) (treq_Code req) = Some a" "kv_get (auth_sessions ast) (Code_SessionID a) = Some s"
    "Session_TenantID s = rt_ID tnt"
  using assms by (elim exchange_Inr) (metis resolveTokenContext_Inr)

lemma refresh_session:
  assumes "refreshWithRefreshToken env cfg c req ast = (ast', Inr res)"
  obtains client tnt a s where "env_ResolveClient env (treq_ClientID req) = Inr (client, tnt)"
    "kv_get (auth_refreshTokens ast) (treq_RefreshToken req) = Some a" "kv_get (auth_sessions ast) (Refresh_SessionID a) = Some s"
    "Session_TenantID s = rt_ID tnt"
  using assms by (elim refresh_Inr) (metis resolveTokenContext_Inr)

section \<open>An example\<close>

text \<open>Identifiers printed in unary; the registry of the example with its tenant deactivated.\<close>

definition ex_uuid_String :: "uuid \<Rightarrow> string" where "ex_uuid_String u = CHR ''u'' # replicate (unat u) (CHR ''i'')"
definition ex_uuid_Parse :: "string \<Rightarrow> uuid option" where "ex_uuid_Parse s = Some (of_nat (length s - 1))"

lemma ex_uuid_round_trip: "uuid_round_trip ex_uuid_Parse ex_uuid_String"
  by (simp add: uuid_round_trip_def ex_uuid_Parse_def ex_uuid_String_def)

definition ex_reg3 :: tenant_state where
  "ex_reg3 = fst (DeactivateTenant (ex_tenv 0 []) (ctx_at 7) (TenantID 1) ex_reg2)"

abbreviation ex_delegate :: "tenant_state \<Rightarrow> string \<Rightarrow> (ResolvedClient \<times> ResolvedTenant) result" where
  "ex_delegate \<equiv> TenantClientResolver_ResolveClient ex_uuid_Parse ex_uuid_String"

lemma ex_deactivated: "\<exists>t. DeactivateTenant (ex_tenv 0 []) (ctx_at 7) (TenantID 1) ex_reg2 = (ex_reg3, Inr t)"
proof -
  have "\<not> isl (snd (DeactivateTenant (ex_tenv 0 []) (ctx_at 7) (TenantID 1) ex_reg2))" by code_simp
  then show ?thesis
    by (cases "DeactivateTenant (ex_tenv 0 []) (ctx_at 7) (TenantID 1) ex_reg2"; cases "snd (DeactivateTenant (ex_tenv 0 []) (ctx_at 7) (TenantID 1) ex_reg2)")
      (auto simp: ex_reg3_def)
qed

text \<open>
  Requests with unknown client identifiers count as failures of the delegate. After a client was
  resolved, its tenant was deactivated, and five requests named an unknown client, the client still
  resolves from the cache although the tenant service refuses it.
\<close>

definition ex_history :: "rcall list" where
  "ex_history = \<lparr> rq_clk = (\<lambda>_. 0), rq_order = (\<lambda>ks. ks), rq_delegate = ex_delegate ex_reg2, rq_id = ''app-1'' \<rparr> #
     replicate 5 \<lparr> rq_clk = (\<lambda>_. 1), rq_order = (\<lambda>ks. ks), rq_delegate = ex_delegate ex_reg3, rq_id = ''unknown'' \<rparr>"

lemma suspended_client_still_resolves:
  "isl (ex_delegate ex_reg3 ''app-1'') \<and>
   \<not> isl (snd (rs_call \<lparr> rq_clk = (\<lambda>_. 5 * minute), rq_order = (\<lambda>ks. ks), rq_delegate = ex_delegate ex_reg3, rq_id = ''app-1'' \<rparr>
     (rs_after ex_history (NewResilientClientResolver [ResolverFailureThreshold 5, ResolverCacheTTL (5 * minute)]))))"
  by code_simp

section \<open>Properties\<close>

text \<open>The resolver's answers are never older than the cache lifetime. After any history of
  calls to a new resolver, an answer is either what the tenant service says now, or the circuit is open
  and the answer is what the tenant service said for the same identifier in an earlier call, whose result
  was stored no longer than the lifetime before the clock reading of this call; an error is always the
  error of the tenant service.\<close>

lemma resolver_staleness:
  assumes "r = rs_after calls (NewResilientClientResolver opts)" and "rs_call q r = (r', res)"
  shows "case res of
      Inl e \<Rightarrow> rq_delegate q (rq_id q) = Inl e
    | Inr v \<Rightarrow> rq_delegate q (rq_id q) = Inr v \<or>
        Breaker_IsOpen (rs_cb r') \<and>
        (\<exists>p \<in> set calls. rq_id p = rq_id q \<and> rq_delegate p (rq_id p) = Inr v \<and>
           min (rq_clk q 0) (rq_clk q 1) \<le> rq_clk p 2 + rs_ttl (NewResilientClientResolver opts))"
proof (cases res)
  case (Inl e)
  then show ?thesis
    using assms(2) by (auto simp: rs_call_def Resilient_ResolveClient_def Let_def split: option.splits sum.splits prod.splits)
next
  case (Inr v)
  have "entries_from (set calls) r" "rs_ttl r = rs_ttl (NewResilientClientResolver opts)"
    using entries_from_after [OF entries_from_New, of calls opts] assms(1) by auto
  then show ?thesis
    using rs_call_Inr [of "set calls" r q r' v] assms(2) Inr by (auto simp: min_le_iff_disj)
qed

lemma resolver_staleness_witness:
  "(let q = \<lparr> rq_clk = (\<lambda>_. 5 * minute), rq_order = (\<lambda>ks. ks), rq_delegate = ex_delegate ex_reg3, rq_id = ''app-1'' \<rparr>;
        r = rs_after ex_history (NewResilientClientResolver [])
    in \<exists>v. snd (rs_call q r) = Inr v \<and> Breaker_IsOpen (rs_cb (fst (rs_call q r))) \<and> ex_delegate ex_reg2 ''app-1'' = Inr v)"
proof -
  define q where "q = \<lparr> rq_clk = (\<lambda>_ :: nat. 5 * minute), rq_order = (\<lambda>ks. ks), rq_delegate = ex_delegate ex_reg3, rq_id = ''app-1'' \<rparr>"
  define r where "r = rs_after ex_history (NewResilientClientResolver [])"
  have "\<not> isl (snd (rs_call q r))" "isl (ex_delegate ex_reg3 ''app-1'')" unfolding q_def r_def by code_simp+
  then obtain v e where sv: "snd (rs_call q r) = Inr v" and e: "ex_delegate ex_reg3 ''app-1'' = Inl e"
    by (cases "snd (rs_call q r)"; cases "ex_delegate ex_reg3 ''app-1''") auto
  then have v: "rs_call q r = (fst (rs_call q r), Inr v)" by (simp add: prod_eq_iff)
  from resolver_staleness [OF r_def v] e
  have "Breaker_IsOpen (rs_cb (fst (rs_call q r))) \<and> (\<exists>p \<in> set ex_history. rq_id p = ''app-1'' \<and> rq_delegate p ''app-1'' = Inr v)"
    by (auto simp: q_def)
  then have "Breaker_IsOpen (rs_cb (fst (rs_call q r)))" "ex_delegate ex_reg2 ''app-1'' = Inr v"
    by (auto simp: ex_history_def)
  with sv show ?thesis unfolding Let_def q_def [symmetric] r_def [symmetric] by (intro exI [of _ v]) simp
qed

text \<open>\<^bold>\<open>C35\<close> Suspending a tenant ends its OAuth flows. A tenant was deactivated and not
  reactivated since; every call of the resolver from a time \<open>T\<close> on saw a registry after the
  deactivation. Then, once the cache lifetime has passed since \<open>T\<close>, no authorization, code exchange or
  refresh that goes through the resolver succeeds for a session of that tenant, whatever its clients'
  own status and whatever the state of the circuit.\<close>

theorem suspension_ends_oauth:
  assumes "tn_run uni (\<lambda>_. True) tenant_init st" "DeactivateTenant tenv tctx tid st = (st1, Inr t)"
    and "tn_run uni (\<lambda>op. \<not> reactivates tid op) st1 st2" "uuid_round_trip uuid_Parse uuid_String"
    and "r = rs_after calls (NewResilientClientResolver opts)"
    and "\<forall>p \<in> set calls. T \<le> rq_clk p 2 \<longrightarrow>
           (\<exists>st'. tn_run uni (\<lambda>op. \<not> reactivates tid op) st1 st' \<and>
                  rq_delegate p = TenantClientResolver_ResolveClient uuid_Parse uuid_String st')"
    and "T + rs_ttl (NewResilientClientResolver opts) \<le> clk 0" "T + rs_ttl (NewResilientClientResolver opts) \<le> clk 1"
    and "env_ResolveClient env = (\<lambda>oid. snd (Resilient_ResolveClient clk order
           (TenantClientResolver_ResolveClient uuid_Parse uuid_String st2) oid r))"
  shows "(Authorize env cfg c (Some areq) ast = (ast', Inr ares) \<longrightarrow>
           (\<exists>a s. kv_get (auth_codes ast') (ares_Code ares) = Some a \<and>
              kv_get (auth_sessions ast') (Code_SessionID a) = Some s \<and> Session_TenantID s \<noteq> tid)) \<and>
         (exchangeAuthorizationCode env cfg c treq ast = (ast', Inr tres) \<longrightarrow>
           (\<exists>a s. kv_get (auth_codes ast) (treq_Code treq) = Some a \<and>
              kv_get (auth_sessions ast) (Code_SessionID a) = Some s \<and> Session_TenantID s \<noteq> tid)) \<and>
         (refreshWithRefreshToken env cfg c treq ast = (ast', Inr tres) \<longrightarrow>
           (\<exists>a s. kv_get (auth_refreshTokens ast) (treq_RefreshToken treq) = Some a \<and>
              kv_get (auth_sessions ast) (Refresh_SessionID a) = Some s \<and> Session_TenantID s \<noteq> tid))"
proof -
  have ok1: "registry_ok uni st1"
    using registry_ok_status(1) [OF registry_ok_run [OF assms(1) registry_ok_init], of tenv tctx tid] assms(2) by simp
  have sus: "rt_ID tnt \<noteq> tid"
    if "tn_run uni (\<lambda>op. \<not> reactivates tid op) st1 st'"
      "TenantClientResolver_ResolveClient uuid_Parse uuid_String st' oid = Inr (client, tnt)" for st' oid client tnt
    using adapter_suspended [OF assms(4) registry_ok_run [OF that(1) ok1] suspended_run [OF that(1)] that(2)]
      DeactivateTenant_suspends [OF assms(2)] by blast
  have ef: "entries_from (set calls) r" "rs_ttl r = rs_ttl (NewResilientClientResolver opts)"
    using entries_from_after [OF entries_from_New, of calls opts] assms(5) by auto
  have key: "rt_ID tnt \<noteq> tid" if res: "env_ResolveClient env oid = Inr (client, tnt)" for oid client tnt
  proof -
    define q where "q = \<lparr> rq_clk = clk, rq_order = order, rq_delegate = TenantClientResolver_ResolveClient uuid_Parse uuid_String st2, rq_id = oid \<rparr>"
    have "rs_call q r = (fst (rs_call q r), Inr (client, tnt))"
      using res assms(9) by (simp add: rs_call_def q_def prod_eq_iff)
    from rs_call_Inr [OF ef(1) this] consider
        "TenantClientResolver_ResolveClient uuid_Parse uuid_String st2 oid = Inr (client, tnt)"
      | p where "p \<in> set calls" "rq_delegate p (rq_id p) = Inr (client, tnt)" "T \<le> rq_clk p 2"
      using assms(7,8) ef(2) by (auto simp: q_def)
    then show ?thesis using sus assms(3,6) by cases metis+
  qed
  show ?thesis
    by (intro conjI impI; elim authorize_session exchange_session refresh_session) (metis key)+
qed

definition ex_env_suspended :: auth_env where
  "ex_env_suspended = ex_env\<lparr> env_ResolveClient := (\<lambda>oid. snd (Resilient_ResolveClient (\<lambda>_. 7 * minute) rev (ex_delegate ex_reg3) oid
     (rs_after ex_history (NewResilientClientResolver [])))) \<rparr>"

theorem suspension_ends_oauth_witness:
  "\<exists>ast' e. exchangeAuthorizationCode ex_env_suspended ex_cfg (ex_ctx 10) ex_treq
     ((ex_state False)\<lparr> auth_sessions := [(SessionID 2, (ex_session 2 SessionStatusPendingConsent)\<lparr> Session_TenantID := TenantID 1 \<rparr>)] \<rparr>)
     = (ast', Inl e)"
proof -
  obtain t where t: "DeactivateTenant (ex_tenv 0 []) (ctx_at 7) (TenantID 1) ex_reg2 = (ex_reg3, Inr t)"
    using ex_deactivated by blast
  have ttl: "rs_ttl (NewResilientClientResolver []) = 5 * minute" by code_simp
  have hist: "\<forall>p \<in> set ex_history. 1 \<le> rq_clk p 2 \<longrightarrow>
      (\<exists>st'. tn_run (\<lambda>s. s) (\<lambda>op. \<not> reactivates (TenantID 1) op) ex_reg3 st' \<and> rq_delegate p = ex_delegate st')"
    by (auto simp: ex_history_def intro: tn_refl)
  define ast where "ast = (ex_state False)\<lparr> auth_sessions :=
      [(SessionID 2, (ex_session 2 SessionStatusPendingConsent)\<lparr> Session_TenantID := TenantID 1 \<rparr>)] \<rparr>"
  note s = suspension_ends_oauth [OF ex_run(2) t tn_refl ex_uuid_round_trip refl hist, where opts = "[]" and
      clk = "\<lambda>_. 7 * minute" and order = rev and env = ex_env_suspended and cfg = ex_cfg and c = "ex_ctx 10" and treq = ex_treq and ast = ast]
  have "exchangeAuthorizationCode ex_env_suspended ex_cfg (ex_ctx 10) ex_treq ast \<noteq> (ast', Inr res)" for ast' res
    using s[where ast' = ast' and tres = res] by (auto simp: ttl ex_env_suspended_def ast_def ex_state_def ex_treq_def ex_code_def)
  then show ?thesis unfolding ast_def[symmetric]
    by (cases "exchangeAuthorizationCode ex_env_suspended ex_cfg (ex_ctx 10) ex_treq ast";
        cases "snd (exchangeAuthorizationCode ex_env_suspended ex_cfg (ex_ctx 10) ex_treq ast)") auto
qed

end
