(* ===== verification/Http.thy ===== *)
theory Http
  imports Stores
begin

text \<open>
  The helpers the HTTP handlers share (\<^verbatim>\<open>pkg/platform/httputil\<close>): the translation of
  domain errors to responses, the user of the request, and the preparation of a decoded request. A
  response is its status and its body, where a JSON body is the value that is encoded; the decoding
  of JSON by the standard library appears as the option the handlers get: \<open>None\<close> when it fails.
\<close>

section \<open>Responses\<close>

datatype 'a body = ErrorBody (error_code: string) (error_description: "string option") | JSONBody 'a | NoBody

record 'a response =
  resp_Status :: nat
  resp_Body :: "'a body"

definition StatusOK :: nat where "StatusOK = 200"
definition StatusCreated :: nat where "StatusCreated = 201"
definition StatusNoContent :: nat where "StatusNoContent = 204"
definition StatusBadRequest :: nat where "StatusBadRequest = 400"
definition StatusUnauthorized :: nat where "StatusUnauthorized = 401"
definition StatusForbidden :: nat where "StatusForbidden = 403"
definition StatusNotFound :: nat where "StatusNotFound = 404"
definition StatusConflict :: nat where "StatusConflict = 409"
definition StatusPreconditionFailed :: nat where "StatusPreconditionFailed = 412"
definition StatusTooManyRequests :: nat where "StatusTooManyRequests = 429"
definition StatusInternalServerError :: nat where "StatusInternalServerError = 500"
definition StatusServiceUnavailable :: nat where "StatusServiceUnavailable = 503"
definition StatusGatewayTimeout :: nat where "StatusGatewayTimeout = 504"

lemmas status_defs =
  StatusOK_def StatusCreated_def StatusNoContent_def StatusBadRequest_def StatusUnauthorized_def
  StatusForbidden_def StatusNotFound_def StatusConflict_def StatusPreconditionFailed_def
  StatusTooManyRequests_def StatusInternalServerError_def StatusServiceUnavailable_def StatusGatewayTimeout_def

definition WriteJSON :: "nat \<Rightarrow> 'a \<Rightarrow> 'a response" where
  "WriteJSON status response = \<lparr> resp_Status = status, resp_Body = JSONBody response \<rparr>"

fun DomainCodeToHTTPStatus :: "Code \<Rightarrow> nat" where
  "DomainCodeToHTTPStatus CodeNotFound = StatusNotFound"
| "DomainCodeToHTTPStatus CodeBadRequest = StatusBadRequest"
| "DomainCodeToHTTPStatus CodeValidation = StatusBadRequest"
| "DomainCodeToHTTPStatus CodeInvalidInput = StatusBadRequest"
| "DomainCodeToHTTPStatus CodeInvariantViolation = StatusBadRequest"
| "DomainCodeToHTTPStatus CodeConflict = StatusConflict"
| "DomainCodeToHTTPStatus CodeUnauthorized = StatusUnauthorized"
| "DomainCodeToHTTPStatus CodeForbidden = StatusForbidden"
| "DomainCodeToHTTPStatus CodeInvalidConsent = StatusForbidden"
| "DomainCodeToHTTPStatus CodeMissingConsent = StatusForbidden"
| "DomainCodeToHTTPStatus CodePolicyViolation = StatusPreconditionFailed"
| "DomainCodeToHTTPStatus CodeTimeout = StatusGatewayTimeout"
| "DomainCodeToHTTPStatus CodeInternal = StatusInternalServerError"
| "DomainCodeToHTTPStatus CodeInvalidGrant = StatusBadRequest"
| "DomainCodeToHTTPStatus CodeInvalidClient = StatusBadRequest"
| "DomainCodeToHTTPStatus CodeUnsupportedGrantType = StatusBadRequest"
| "DomainCodeToHTTPStatus CodeInvalidRequest = StatusBadRequest"
| "DomainCodeToHTTPStatus CodeAccessDenied = StatusBadRequest"

fun DomainCodeToHTTPCode :: "Code \<Rightarrow> string" where
  "DomainCodeToHTTPCode CodeNotFound = ''not_found''"
| "DomainCodeToHTTPCode CodeBadRequest = ''bad_request''"
| "DomainCodeToHTTPCode CodeInvalidInput = ''bad_request''"
| "DomainCodeToHTTPCode CodeValidation = ''validation_error''"
| "DomainCodeToHTTPCode CodeInvariantViolation = ''validation_error''"
| "DomainCodeToHTTPCode CodeConflict = ''conflict''"
| "DomainCodeToHTTPCode CodeUnauthorized = ''unauthorized''"
| "DomainCodeToHTTPCode CodeForbidden = ''forbidden''"
| "DomainCodeToHTTPCode CodeInvalidConsent = ''invalid_consent''"
| "DomainCodeToHTTPCode CodeMissingConsent = ''missing_consent''"
| "DomainCodeToHTTPCode CodePolicyViolation = ''policy_violation''"
| "DomainCodeToHTTPCode CodeTimeout = ''registry_timeout''"
| "DomainCodeToHTTPCode CodeInternal = ''internal_error''"
| "DomainCodeToHTTPCode CodeInvalidGrant = ''invalid_grant''"
| "DomainCodeToHTTPCode CodeInvalidClient = ''invalid_client''"
| "DomainCodeToHTTPCode CodeUnsupportedGrantType = ''unsupported_grant_type''"
| "DomainCodeToHTTPCode CodeInvalidRequest = ''invalid_request''"
| "DomainCodeToHTTPCode CodeAccessDenied = ''access_denied''"

definition WriteError :: "go_error \<Rightarrow> 'a response" where
  "WriteError err =
     (case errors_As err of
        Some (code, msg) \<Rightarrow>
          \<lparr> resp_Status = DomainCodeToHTTPStatus code,
            resp_Body = ErrorBody (DomainCodeToHTTPCode code)
              (if msg \<noteq> [] \<and> code \<noteq> CodeInternal then Some msg else None) \<rparr>
      | None \<Rightarrow>
          \<lparr> resp_Status = StatusInternalServerError,
            resp_Body = ErrorBody (DomainCodeToHTTPCode CodeInternal) None \<rparr>)"

definition RequireUserID :: "UserID \<Rightarrow> UserID result" where
  "RequireUserID userID =
     (if UserID_IsNil userID then Inl (dErrors_New CodeInternal ''authentication context error'')
      else Inr userID)"

text \<open>
  \<^verbatim>\<open>DecodeAndPrepare\<close> on a type with both methods: \<open>meth_Normalize\<close> and \<open>meth_Validate\<close> are the
  methods. \<^verbatim>\<open>Sanitize\<close> is implemented by no request type.
\<close>

definition PrepareRequest :: "('r \<Rightarrow> 'r) \<Rightarrow> ('r \<Rightarrow> go_error option) \<Rightarrow> 'r \<Rightarrow> 'r result" where
  "PrepareRequest meth_Normalize meth_Validate req =
     (let req = meth_Normalize req in case meth_Validate req of Some e \<Rightarrow> Inl e | None \<Rightarrow> Inr req)"

definition DecodeAndPrepare ::
  "('r \<Rightarrow> 'r) \<Rightarrow> ('r \<Rightarrow> go_error option) \<Rightarrow> 'r option \<Rightarrow> 'a response + 'r" where
  "DecodeAndPrepare meth_Normalize meth_Validate decoded =
     (case decoded of
        None \<Rightarrow> Inl (WriteError (dErrors_New CodeBadRequest ''invalid request body''))
      | Some req \<Rightarrow>
          (case PrepareRequest meth_Normalize meth_Validate req of
             Inl err \<Rightarrow>
               Inl (if errors_As err \<noteq> None then WriteError err
                    else WriteError (dErrors_New CodeValidation (error_Error err)))
           | Inr req \<Rightarrow> Inr req))"

section \<open>Lemmas\<close>

lemma WriteError_New [simp]:
  "WriteError (dErrors_New code msg) =
     \<lparr> resp_Status = DomainCodeToHTTPStatus code, resp_Body = ErrorBody (DomainCodeToHTTPCode code)
       (if msg \<noteq> [] \<and> code \<noteq> CodeInternal then Some msg else None) \<rparr>"
  by (simp add: WriteError_def err_simps)

lemma DomainCodeToHTTPStatus_500: "DomainCodeToHTTPStatus code = StatusInternalServerError \<longleftrightarrow> code = CodeInternal"
  by (cases code) (simp_all add: status_defs)

lemma DomainCodeToHTTPStatus_range: "400 \<le> DomainCodeToHTTPStatus code \<and> DomainCodeToHTTPStatus code < 600"
  by (cases code) (simp_all add: status_defs)

text \<open>Internal errors do not leak: an error response always has an error status, and
  whenever its status is 500, which is the case exactly for internal errors and errors from outside the
  domain, it says only \<^verbatim>\<open>internal_error\<close> and carries no description.\<close>

lemma write_error_no_leak:
  "let r = (WriteError err :: 'a response) in
     400 \<le> resp_Status r \<and> resp_Status r < 600 \<and>
     (resp_Status r = StatusInternalServerError \<longleftrightarrow>
        (\<forall>code msg. errors_As err = Some (code, msg) \<longrightarrow> code = CodeInternal)) \<and>
     (resp_Status r = StatusInternalServerError \<longrightarrow> resp_Body r = ErrorBody ''internal_error'' None)"
proof (cases "errors_As err")
  case None
  then show ?thesis by (simp add: WriteError_def status_defs)
next
  case (Some q)
  obtain code msg where q: "q = (code, msg)" by fastforce
  show ?thesis
    using Some q DomainCodeToHTTPStatus_range[of code] by (auto simp: WriteError_def DomainCodeToHTTPStatus_500)
qed

lemma write_error_no_leak_witness:
  "resp_Body (WriteError (dErrors_New CodeInternal ''secret'') :: unit response) = ErrorBody ''internal_error'' None"
  using write_error_no_leak[of "dErrors_New CodeInternal ''secret''", where 'a = unit]
  by (simp add: status_defs Let_def)

end
