(* ===== verification/Tenant_Handler.thy ===== *)
theory Tenant_Handler
  imports Tenant_Registry Http
begin

text \<open>
  The administration endpoints for tenants and clients (\<^verbatim>\<open>internal/tenant/handler\<close>): requests with
  their normalisation and validation, the conversion to commands, responses, and the handlers. A
  handler takes the decoded body (\<open>None\<close> when decoding fails) or the path parameter. Routing and the
  check of the administration token are outside the handlers.
\<close>

section \<open>Requests\<close>

record handler_env =
  he_env :: tenant_env
  he_uuid_Parse :: "string \<Rightarrow> uuid option"
  he_uuid_String :: "uuid \<Rightarrow> string"

record CreateTenantRequest =
  ctr_Name :: string

definition CreateTenantRequest_Normalize :: "CreateTenantRequest \<Rightarrow> CreateTenantRequest" where
  "CreateTenantRequest_Normalize r = r\<lparr> ctr_Name := TrimSpace (ctr_Name r) \<rparr>"

definition CreateTenantRequest_Validate :: "CreateTenantRequest \<Rightarrow> go_error option" where
  "CreateTenantRequest_Validate r =
     (case CheckStringLength ''name'' (ctr_Name r) maxNameLength of
        Some e \<Rightarrow> Some e
      | None \<Rightarrow> if ctr_Name r = [] then Some (dErrors_New CodeValidation ''name is required'') else None)"

text \<open>The unexported field \<^verbatim>\<open>tenantID\<close> is set by the validation.\<close>

record CreateClientRequest =
  ccr_TenantID :: string
  ccr_Name :: string
  ccr_RedirectURIs :: "string list"
  ccr_AllowedGrants :: "string list"
  ccr_AllowedScopes :: "string list"
  ccr_Public :: bool

definition CreateClientRequest_Normalize :: "(string \<Rightarrow> string) \<Rightarrow> CreateClientRequest \<Rightarrow> CreateClientRequest" where
  "CreateClientRequest_Normalize uni r =
     r\<lparr> ccr_TenantID := TrimSpace (ccr_TenantID r), ccr_Name := TrimSpace (ccr_Name r),
        ccr_RedirectURIs := DedupeAndTrim (ccr_RedirectURIs r),
        ccr_AllowedGrants := DedupeAndTrimLower uni (ccr_AllowedGrants r),
        ccr_AllowedScopes := DedupeAndTrim (ccr_AllowedScopes r) \<rparr>"

definition CreateClientRequest_validateSizeLimits :: "CreateClientRequest \<Rightarrow> go_error option" where
  "CreateClientRequest_validateSizeLimits r =
     first_error (\<lambda>e. e)
       [CheckStringLength ''tenant_id'' (ccr_TenantID r) MaxTenantIDLength,
        CheckStringLength ''name'' (ccr_Name r) maxNameLength,
        CheckSliceCount ''redirect URIs'' (length (ccr_RedirectURIs r)) MaxRedirectURIs,
        CheckSliceCount ''grant types'' (length (ccr_AllowedGrants r)) MaxGrants,
        CheckSliceCount ''scopes'' (length (ccr_AllowedScopes r)) MaxScopes,
        CheckEachStringLength ''redirect URI'' (ccr_RedirectURIs r) MaxRedirectURILength,
        CheckEachStringLength ''scope'' (ccr_AllowedScopes r) MaxScopeLength]"

definition validateRequired :: "CreateClientRequest \<Rightarrow> go_error option" where
  "validateRequired r =
     (if ccr_TenantID r = [] then Some (dErrors_New CodeValidation ''tenant_id is required'')
      else if ccr_Name r = [] then Some (dErrors_New CodeValidation ''name is required'')
      else if ccr_RedirectURIs r = [] then Some (dErrors_New CodeValidation ''at least one redirect_uri is required'')
      else None)"

definition uris_parse :: "(string \<Rightarrow> (string \<times> string) option) \<Rightarrow> string list \<Rightarrow> go_error option" where
  "uris_parse url_Parse uris =
     first_error (\<lambda>uri. if url_Parse uri = None then Some (dErrors_New CodeValidation ''invalid redirect_uri format'') else None) uris"

definition CreateClientRequest_validateSyntax :: "handler_env \<Rightarrow> CreateClientRequest \<Rightarrow> go_error option" where
  "CreateClientRequest_validateSyntax env r =
     (case ParseTenantID (he_uuid_Parse env) (ccr_TenantID r) of
        Inl _ \<Rightarrow> Some (dErrors_New CodeValidation ''invalid tenant_id'')
      | Inr _ \<Rightarrow> uris_parse (te_url_Parse (he_env env)) (ccr_RedirectURIs r))"

definition CreateClientRequest_Validate :: "handler_env \<Rightarrow> CreateClientRequest \<Rightarrow> go_error option" where
  "CreateClientRequest_Validate env r =
     first_error (\<lambda>e. e)
       [CreateClientRequest_validateSizeLimits r, validateRequired r, CreateClientRequest_validateSyntax env r]"

definition GrantType_of :: "string \<Rightarrow> GrantType" where
  "GrantType_of s =
     (if s = ''authorization_code'' then GrantTypeAuthorizationCode
      else if s = ''refresh_token'' then GrantTypeRefreshToken
      else if s = ''client_credentials'' then GrantTypeClientCredentials
      else GrantTypeOther s)"

text \<open>The identifier the validation stored is the one \<^verbatim>\<open>ToCommand\<close> would parse, so parsing again
  gives the same command.\<close>

definition CreateClientRequest_ToCommand :: "handler_env \<Rightarrow> CreateClientRequest \<Rightarrow> CreateClientCommand result" where
  "CreateClientRequest_ToCommand env r =
     (case ParseTenantID (he_uuid_Parse env) (ccr_TenantID r) of
        Inl e \<Rightarrow> Inl e
      | Inr tenantID \<Rightarrow>
          Inr \<lparr> cc_TenantID = tenantID, cc_Name = ccr_Name r, cc_RedirectURIs = ccr_RedirectURIs r,
                cc_AllowedGrants = map GrantType_of (ccr_AllowedGrants r), cc_AllowedScopes = ccr_AllowedScopes r,
                cc_Public = ccr_Public r \<rparr>)"

record UpdateClientRequest =
  ucr_Name :: "string option"
  ucr_RedirectURIs :: "string list option"
  ucr_AllowedGrants :: "string list option"
  ucr_AllowedScopes :: "string list option"
  ucr_RotateSecret :: bool

definition UpdateClientRequest_Normalize :: "(string \<Rightarrow> string) \<Rightarrow> UpdateClientRequest \<Rightarrow> UpdateClientRequest" where
  "UpdateClientRequest_Normalize uni r =
     r\<lparr> ucr_Name := TrimSpacePtr (ucr_Name r), ucr_RedirectURIs := DedupeAndTrimPtr (ucr_RedirectURIs r),
        ucr_AllowedGrants := DedupeAndTrimLowerPtr uni (ucr_AllowedGrants r),
        ucr_AllowedScopes := DedupeAndTrimPtr (ucr_AllowedScopes r) \<rparr>"

definition if_given :: "('a \<Rightarrow> go_error option) \<Rightarrow> 'a option \<Rightarrow> go_error option" where
  "if_given check v = (case v of None \<Rightarrow> None | Some x \<Rightarrow> check x)"

definition UpdateClientRequest_validateSizeLimits :: "UpdateClientRequest \<Rightarrow> go_error option" where
  "UpdateClientRequest_validateSizeLimits r =
     first_error (\<lambda>e. e)
       [if_given (\<lambda>n. CheckStringLength ''name'' n maxNameLength) (ucr_Name r),
        if_given (\<lambda>u. CheckSliceCount ''redirect URIs'' (length u) MaxRedirectURIs) (ucr_RedirectURIs r),
        if_given (\<lambda>u. CheckEachStringLength ''redirect URI'' u MaxRedirectURILength) (ucr_RedirectURIs r),
        if_given (\<lambda>g. CheckSliceCount ''grant types'' (length g) MaxGrants) (ucr_AllowedGrants r),
        if_given (\<lambda>s. CheckSliceCount ''scopes'' (length s) MaxScopes) (ucr_AllowedScopes r),
        if_given (\<lambda>s. CheckEachStringLength ''scope'' s MaxScopeLength) (ucr_AllowedScopes r)]"

definition UpdateClientRequest_Validate :: "handler_env \<Rightarrow> UpdateClientRequest \<Rightarrow> go_error option" where
  "UpdateClientRequest_Validate env r =
     first_error (\<lambda>e. e)
       [UpdateClientRequest_validateSizeLimits r, if_given (uris_parse (te_url_Parse (he_env env))) (ucr_RedirectURIs r)]"

definition UpdateClientRequest_ToCommand :: "UpdateClientRequest \<Rightarrow> UpdateClientCommand" where
  "UpdateClientRequest_ToCommand r =
     (let cmd = \<lparr> uc_Name = ucr_Name r, uc_RedirectURIs = [], uc_AllowedGrants = [], uc_AllowedScopes = [],
                  uc_RotateSecret = ucr_RotateSecret r, uc_hasRedirectURIs = False, uc_hasAllowedGrants = False,
                  uc_hasAllowedScopes = False \<rparr>;
          cmd = (case ucr_RedirectURIs r of None \<Rightarrow> cmd | Some u \<Rightarrow> SetRedirectURIs u cmd);
          cmd = (case ucr_AllowedGrants r of None \<Rightarrow> cmd | Some g \<Rightarrow> SetAllowedGrants (map GrantType_of g) cmd)
      in (case ucr_AllowedScopes r of None \<Rightarrow> cmd | Some s \<Rightarrow> SetAllowedScopes s cmd))"

section \<open>Responses\<close>

record TenantResponse =
  tr_ID :: string
  tr_Name :: string
  tr_Status :: TenantStatus
  tr_CreatedAt :: time
  tr_UpdatedAt :: time

record TenantDetailsResponse = TenantResponse +
  tr_UserCount :: int
  tr_ClientCount :: int

record ClientResponse =
  clr_ID :: string
  clr_TenantID :: string
  clr_Name :: string
  clr_OAuthClientID :: string
  clr_ClientSecret :: "string option"
  clr_RedirectURIs :: "string list"
  clr_AllowedGrants :: "string list"
  clr_AllowedScopes :: "string list"
  clr_Status :: string
  clr_PublicClient :: bool

fun tenant_id_text :: "handler_env \<Rightarrow> TenantID \<Rightarrow> string" where "tenant_id_text env (TenantID u) = he_uuid_String env u"
fun client_id_text :: "handler_env \<Rightarrow> ClientID \<Rightarrow> string" where "client_id_text env (ClientID u) = he_uuid_String env u"

definition toTenantResponse :: "handler_env \<Rightarrow> Tenant \<Rightarrow> TenantResponse" where
  "toTenantResponse env t =
     \<lparr> tr_ID = tenant_id_text env (Tenant_ID t), tr_Name = Tenant_Name t, tr_Status = Tenant_Status t,
       tr_CreatedAt = Tenant_CreatedAt t, tr_UpdatedAt = Tenant_UpdatedAt t \<rparr>"

definition toTenantDetailsResponse :: "handler_env \<Rightarrow> TenantDetails \<Rightarrow> TenantDetailsResponse" where
  "toTenantDetailsResponse env td =
     \<lparr> tr_ID = tenant_id_text env (td_ID td), tr_Name = td_Name td, tr_Status = td_Status td,
       tr_CreatedAt = td_CreatedAt td, tr_UpdatedAt = td_UpdatedAt td, tr_UserCount = td_UserCount td,
       tr_ClientCount = td_ClientCount td \<rparr>"

text \<open>The secret is left out of the JSON when it is empty (\<^verbatim>\<open>omitempty\<close>).\<close>

definition toClientResponse :: "handler_env \<Rightarrow> Client \<Rightarrow> string \<Rightarrow> ClientResponse" where
  "toClientResponse env client secret =
     \<lparr> clr_ID = client_id_text env (Client_ID client), clr_TenantID = tenant_id_text env (Client_TenantID client),
       clr_Name = Client_Name client, clr_OAuthClientID = Client_OAuthClientID client,
       clr_ClientSecret = (if secret = [] then None else Some secret), clr_RedirectURIs = Client_RedirectURIs client,
       clr_AllowedGrants = map GrantType_String (Client_AllowedGrants client), clr_AllowedScopes = Client_AllowedScopes client,
       clr_Status = ClientStatus_String (Client_Status client), clr_PublicClient = (\<not> IsConfidential client) \<rparr>"

section \<open>Handlers\<close>

definition HandleCreateTenant ::
  "handler_env \<Rightarrow> ctx \<Rightarrow> CreateTenantRequest option \<Rightarrow> tenant_state \<Rightarrow> tenant_state \<times> (string \<times> TenantResponse) response" where
  "HandleCreateTenant env ctx decoded st =
     (case DecodeAndPrepare CreateTenantRequest_Normalize CreateTenantRequest_Validate decoded of
        Inl resp \<Rightarrow> (st, resp)
      | Inr req \<Rightarrow>
          (case CreateTenant (he_env env) ctx (ctr_Name req) st of
             (st, Inl e) \<Rightarrow> (st, WriteError e)
           | (st, Inr tenant) \<Rightarrow>
               (st, WriteJSON StatusCreated (tenant_id_text env (Tenant_ID tenant), toTenantResponse env tenant))))"

definition HandleGetTenant :: "handler_env \<Rightarrow> string \<Rightarrow> tenant_state \<Rightarrow> TenantDetailsResponse response" where
  "HandleGetTenant env idStr st =
     (case ParseTenantID (he_uuid_Parse env) idStr of
        Inl _ \<Rightarrow> WriteError (dErrors_New CodeBadRequest ''invalid tenant id'')
      | Inr tenantID \<Rightarrow>
          (case GetTenantDetails (he_env env) tenantID st of
             Inl e \<Rightarrow> WriteError e
           | Inr res \<Rightarrow> WriteJSON StatusOK (toTenantDetailsResponse env res)))"

text \<open>\<open>None\<close> when the handler would follow the nil pointer of a tenant that is only in the name
  index.\<close>

definition HandleGetTenantByName :: "handler_env \<Rightarrow> string \<Rightarrow> tenant_state \<Rightarrow> TenantResponse response option" where
  "HandleGetTenantByName env name st =
     (case GetTenantByName (he_env env) name st of
        Inl e \<Rightarrow> Some (WriteError e)
      | Inr None \<Rightarrow> None
      | Inr (Some tenant) \<Rightarrow> Some (WriteJSON StatusOK (toTenantResponse env tenant)))"

definition HandleDeactivateTenant :: "handler_env \<Rightarrow> ctx \<Rightarrow> string \<Rightarrow> tenant_state \<Rightarrow> tenant_state \<times> TenantResponse response" where
  "HandleDeactivateTenant env ctx idStr st =
     (case ParseTenantID (he_uuid_Parse env) idStr of
        Inl _ \<Rightarrow> (st, WriteError (dErrors_New CodeBadRequest ''invalid tenant id''))
      | Inr tenantID \<Rightarrow>
          (case DeactivateTenant (he_env env) ctx tenantID st of
             (st, Inl e) \<Rightarrow> (st, WriteError e)
           | (st, Inr tenant) \<Rightarrow> (st, WriteJSON StatusOK (toTenantResponse env tenant))))"

definition HandleReactivateTenant :: "handler_env \<Rightarrow> ctx \<Rightarrow> string \<Rightarrow> tenant_state \<Rightarrow> tenant_state \<times> TenantResponse response" where
  "HandleReactivateTenant env ctx idStr st =
     (case ParseTenantID (he_uuid_Parse env) idStr of
        Inl _ \<Rightarrow> (st, WriteError (dErrors_New CodeBadRequest ''invalid tenant id''))
      | Inr tenantID \<Rightarrow>
          (case ReactivateTenant (he_env env) ctx tenantID st of
             (st, Inl e) \<Rightarrow> (st, WriteError e)
           | (st, Inr tenant) \<Rightarrow> (st, WriteJSON StatusOK (toTenantResponse env tenant))))"

definition HandleCreateClient ::
  "handler_env \<Rightarrow> ctx \<Rightarrow> CreateClientRequest option \<Rightarrow> tenant_state \<Rightarrow> tenant_state \<times> ClientResponse response" where
  "HandleCreateClient env ctx decoded st =
     (case DecodeAndPrepare (CreateClientRequest_Normalize (te_uni (he_env env))) (CreateClientRequest_Validate env) decoded of
        Inl resp \<Rightarrow> (st, resp)
      | Inr req \<Rightarrow>
          (case CreateClientRequest_ToCommand env req of
             Inl e \<Rightarrow> (st, WriteError e)
           | Inr cmd \<Rightarrow>
               (case CreateClient (he_env env) ctx cmd st of
                  (st, Inl e) \<Rightarrow> (st, WriteError e)
                | (st, Inr (client, secret)) \<Rightarrow> (st, WriteJSON StatusCreated (toClientResponse env client secret)))))"

definition HandleGetClient :: "handler_env \<Rightarrow> string \<Rightarrow> tenant_state \<Rightarrow> ClientResponse response" where
  "HandleGetClient env idStr st =
     (case ParseClientID (he_uuid_Parse env) idStr of
        Inl _ \<Rightarrow> WriteError (dErrors_New CodeBadRequest ''invalid client id'')
      | Inr clientID \<Rightarrow>
          (case GetClient clientID st of
             Inl e \<Rightarrow> WriteError e
           | Inr client \<Rightarrow> WriteJSON StatusOK (toClientResponse env client [])))"

definition HandleUpdateClient ::
  "handler_env \<Rightarrow> ctx \<Rightarrow> string \<Rightarrow> UpdateClientRequest option \<Rightarrow> tenant_state \<Rightarrow> tenant_state \<times> ClientResponse response" where
  "HandleUpdateClient env ctx idStr decoded st =
     (case ParseClientID (he_uuid_Parse env) idStr of
        Inl _ \<Rightarrow> (st, WriteError (dErrors_New CodeBadRequest ''invalid client id''))
      | Inr clientID \<Rightarrow>
          (case DecodeAndPrepare (UpdateClientRequest_Normalize (te_uni (he_env env))) (UpdateClientRequest_Validate env) decoded of
             Inl resp \<Rightarrow> (st, resp)
           | Inr req \<Rightarrow>
               (case UpdateClient (he_env env) ctx clientID (UpdateClientRequest_ToCommand req) st of
                  (st, Inl e) \<Rightarrow> (st, WriteError e)
                | (st, Inr (client, secret)) \<Rightarrow> (st, WriteJSON StatusOK (toClientResponse env client secret)))))"

definition HandleDeactivateClient :: "handler_env \<Rightarrow> ctx \<Rightarrow> string \<Rightarrow> tenant_state \<Rightarrow> tenant_state \<times> ClientResponse response" where
  "HandleDeactivateClient env ctx idStr st =
     (case ParseClientID (he_uuid_Parse env) idStr of
        Inl _ \<Rightarrow> (st, WriteError (dErrors_New CodeBadRequest ''invalid client id''))
      | Inr clientID \<Rightarrow>
          (case DeactivateClient (he_env env) ctx clientID st of
             (st, Inl e) \<Rightarrow> (st, WriteError e)
           | (st, Inr client) \<Rightarrow> (st, WriteJSON StatusOK (toClientResponse env client []))))"

definition HandleReactivateClient :: "handler_env \<Rightarrow> ctx \<Rightarrow> string \<Rightarrow> tenant_state \<Rightarrow> tenant_state \<times> ClientResponse response" where
  "HandleReactivateClient env ctx idStr st =
     (case ParseClientID (he_uuid_Parse env) idStr of
        Inl _ \<Rightarrow> (st, WriteError (dErrors_New CodeBadRequest ''invalid client id''))
      | Inr clientID \<Rightarrow>
          (case ReactivateClient (he_env env) ctx clientID st of
             (st, Inl e) \<Rightarrow> (st, WriteError e)
           | (st, Inr client) \<Rightarrow> (st, WriteJSON StatusOK (toClientResponse env client []))))"

definition HandleRotateClientSecret :: "handler_env \<Rightarrow> ctx \<Rightarrow> string \<Rightarrow> tenant_state \<Rightarrow> tenant_state \<times> ClientResponse response" where
  "HandleRotateClientSecret env ctx idStr st =
     (case ParseClientID (he_uuid_Parse env) idStr of
        Inl _ \<Rightarrow> (st, WriteError (dErrors_New CodeBadRequest ''invalid client id''))
      | Inr clientID \<Rightarrow>
          (case RotateClientSecret (he_env env) ctx clientID st of
             (st, Inl e) \<Rightarrow> (st, WriteError e)
           | (st, Inr (client, secret)) \<Rightarrow> (st, WriteJSON StatusOK (toClientResponse env client secret))))"

section \<open>Lemmas\<close>

lemma GrantType_round_trip: "GrantType_String (GrantType_of s) = s"
  by (simp add: GrantType_of_def)

text \<open>The lookup by name never meets a nil tenant.\<close>

lemma HandleGetTenantByName_total:
  assumes "registry_ok (te_uni (he_env env)) st"
  shows "HandleGetTenantByName env name st \<noteq> None"
  using assms tenants_okD(2) [of "te_uni (he_env env)" "tn_tenants st"]
  by (fastforce simp: HandleGetTenantByName_def GetTenantByName_def TenantStore_FindByName_def registry_ok_def Let_def
      split: option.splits sum.splits)

text \<open>A created tenant is found under its name in any case.\<close>

lemma create_then_find:
  assumes "CreateTenant env ctx name st = (st', Inr t)" "ToLower (te_uni env) (TrimSpace name') = ToLower (te_uni env) (TrimSpace name)"
    and "TrimSpace name' \<noteq> []"
  shows "GetTenantByName env name' st' = Inr (Some t)"
proof -
  obtain s where s: "CreateIfNameAvailable (te_uni env) (tn_tenants st) t = (s, None)" "tn_tenants st' = s"
    "Tenant_Name t = TrimSpace name"
    using assms(1)
    by (auto simp: CreateTenant_def Let_def run_in_tx_def split: option.splits sum.splits prod.splits if_splits
        dest!: tenant_emit_cases NewTenant_ok)
  have "kv_get (nameIdx s) (ToLower (te_uni env) (TrimSpace name)) = Some (Tenant_ID t)"
    "kv_get (tenants_by_id s) (Tenant_ID t) = Some t"
    using s(1,3) by (auto simp: CreateIfNameAvailable_def Let_def kv_simps split: if_splits)
  then show ?thesis
    using assms(2,3) s(2) by (simp add: GetTenantByName_def TenantStore_FindByName_def Let_def)
qed

text \<open>Reading a client never shows a secret, and neither do changes of its status.\<close>

lemma no_secret_without_rotation:
  "resp_Body (HandleGetClient env idStr st) = JSONBody r \<Longrightarrow> clr_ClientSecret r = None"
  "resp_Body (snd (HandleDeactivateClient env ctx idStr st)) = JSONBody r \<Longrightarrow> clr_ClientSecret r = None"
  "resp_Body (snd (HandleReactivateClient env ctx idStr st)) = JSONBody r \<Longrightarrow> clr_ClientSecret r = None"
  by (auto simp: HandleGetClient_def HandleDeactivateClient_def HandleReactivateClient_def WriteJSON_def WriteError_def
      toClientResponse_def split: sum.splits prod.splits option.splits)

end
