(* ===== verification/Consent_Store.thy ===== *)
theory Consent_Store
  imports Stores
begin

text \<open>
  Consent: the value objects, the record with its life cycle, and the in-memory store
  (\<^verbatim>\<open>internal/consent/models\<close>, \<^verbatim>\<open>internal/consent/store/store_memory.go\<close>). The store
  maps a user to a map from purposes to records; it satisfies the contract of \<^verbatim>\<open>Execute\<close>.
\<close>

section \<open>Value objects\<close>

datatype Status = StatusActive | StatusExpired | StatusRevoked | StatusOther string

fun Status_String :: "Status \<Rightarrow> string" where
  "Status_String StatusActive = ''active''"
| "Status_String StatusExpired = ''expired''"
| "Status_String StatusRevoked = ''revoked''"
| "Status_String (StatusOther s) = s"

definition Status_of :: "string \<Rightarrow> Status" where
  "Status_of s = (if s = ''active'' then StatusActive else if s = ''expired'' then StatusExpired
                  else if s = ''revoked'' then StatusRevoked else StatusOther s)"

definition Status_IsValid :: "Status \<Rightarrow> bool" where
  "Status_IsValid s = (s = StatusActive \<or> s = StatusExpired \<or> s = StatusRevoked)"

definition ParseStatus :: "string \<Rightarrow> Status result" where
  "ParseStatus s =
     (if s = [] then Inl (dErrors_New CodeInvalidInput ''status cannot be empty'')
      else let status = Status_of s in
        if \<not> Status_IsValid status then Inl (dErrors_New CodeInvalidInput ''invalid status'')
        else Inr status)"

record ConsentScope =
  Scope_UserID :: UserID
  Scope_Purpose :: ConsentPurpose

definition NewConsentScope :: "UserID \<Rightarrow> ConsentPurpose \<Rightarrow> ConsentScope result" where
  "NewConsentScope userID purpose =
     (if UserID_IsNil userID then Inl (dErrors_New CodeInvariantViolation ''user ID required'')
      else if \<not> ConsentPurpose_IsValid purpose
      then Inl (dErrors_New CodeInvariantViolation ''invalid consent purpose'')
      else Inr \<lparr> Scope_UserID = userID, Scope_Purpose = purpose \<rparr>)"

record RecordFilter =
  Filter_Purpose :: "ConsentPurpose option"
  Filter_Status :: "Status option"

section \<open>The consent record\<close>

record Record =
  Record_ID :: ConsentID
  Record_UserID :: UserID
  Record_Purpose :: ConsentPurpose
  Record_GrantedAt :: time
  Record_ExpiresAt :: "time option"
  Record_RevokedAt :: "time option"

definition NewRecord ::
  "ConsentID \<Rightarrow> UserID \<Rightarrow> ConsentPurpose \<Rightarrow> time \<Rightarrow> time option \<Rightarrow> Record result" where
  "NewRecord consentID userID purpose grantedAt expiresAt =
     (if ConsentID_IsNil consentID then Inl (dErrors_New CodeInvariantViolation ''consent ID required'')
      else if UserID_IsNil userID then Inl (dErrors_New CodeInvariantViolation ''user ID required'')
      else if \<not> ConsentPurpose_IsValid purpose
      then Inl (dErrors_New CodeInvariantViolation ''invalid consent purpose'')
      else if time_IsZero grantedAt then Inl (dErrors_New CodeInvariantViolation ''grant time required'')
      else if (case expiresAt of Some e \<Rightarrow> e < grantedAt | None \<Rightarrow> False)
      then Inl (dErrors_New CodeInvariantViolation ''expiry must be after grant time'')
      else Inr \<lparr> Record_ID = consentID, Record_UserID = userID, Record_Purpose = purpose,
                 Record_GrantedAt = grantedAt, Record_ExpiresAt = expiresAt, Record_RevokedAt = None \<rparr>)"

definition Record_IsActive :: "Record \<Rightarrow> time \<Rightarrow> bool" where
  "Record_IsActive c now =
     (if Record_RevokedAt c \<noteq> None then False
      else if (case Record_ExpiresAt c of Some e \<Rightarrow> e < now | None \<Rightarrow> False) then False
      else True)"

definition Record_CanRevoke :: "Record \<Rightarrow> time \<Rightarrow> bool" where
  "Record_CanRevoke c now =
     (if Record_RevokedAt c \<noteq> None then False
      else if (case Record_ExpiresAt c of Some e \<Rightarrow> e < now | None \<Rightarrow> False) then False
      else True)"

definition DefaultReGrantCooldown :: duration where
  "DefaultReGrantCooldown = 5 * minute"

definition Record_CanReGrant :: "Record \<Rightarrow> time \<Rightarrow> duration \<Rightarrow> bool" where
  "Record_CanReGrant c now cooldown =
     (case Record_RevokedAt c of None \<Rightarrow> True | Some r \<Rightarrow> time_Sub now r \<ge> cooldown)"

definition Record_RenewAt :: "Record \<Rightarrow> time \<Rightarrow> duration \<Rightarrow> Record result" where
  "Record_RenewAt c now ttl =
     (if time_IsZero now then Inl (dErrors_New CodeInvariantViolation ''grant time required'')
      else if ttl \<le> 0 then Inl (dErrors_New CodeInvariantViolation ''consent TTL must be positive'')
      else Inr (c\<lparr> Record_GrantedAt := now, Record_ExpiresAt := Some (now + ttl), Record_RevokedAt := None \<rparr>))"

text \<open>The field \<^verbatim>\<open>Updated\<close> is the zero record when nothing changed; here \<open>None\<close>.\<close>

record GrantEvaluation =
  Eval_Updated :: "Record option"
  Eval_Changed :: bool
  Eval_WasActive :: bool

definition Record_EvaluateGrant ::
  "Record \<Rightarrow> time \<Rightarrow> duration \<Rightarrow> duration \<Rightarrow> duration \<Rightarrow> GrantEvaluation result" where
  "Record_EvaluateGrant c now idempotencyWindow reGrantCooldown ttl =
     (let wasActive = Record_IsActive c now in
      if wasActive \<and> time_Sub now (Record_GrantedAt c) < idempotencyWindow
      then Inr \<lparr> Eval_Updated = None, Eval_Changed = False, Eval_WasActive = wasActive \<rparr>
      else if \<not> Record_CanReGrant c now reGrantCooldown
      then Inl (dErrors_New CodeBadRequest
             ''consent was recently revoked; please wait before re-granting'')
      else case Record_RenewAt c now ttl of
             Inl e \<Rightarrow> Inl e
           | Inr updated \<Rightarrow>
               Inr \<lparr> Eval_Updated = Some updated, Eval_Changed = True, Eval_WasActive = wasActive \<rparr>)"

definition Record_RevokeAt :: "Record \<Rightarrow> time \<Rightarrow> Record result" where
  "Record_RevokeAt c now =
     (if time_IsZero now then Inl (dErrors_New CodeInvariantViolation ''revocation time required'')
      else Inr (c\<lparr> Record_RevokedAt := Some now \<rparr>))"

definition Record_ComputeStatus :: "Record \<Rightarrow> time \<Rightarrow> Status" where
  "Record_ComputeStatus c now =
     (if Record_RevokedAt c \<noteq> None then StatusRevoked
      else if (case Record_ExpiresAt c of Some e \<Rightarrow> e < now | None \<Rightarrow> False) then StatusExpired
      else StatusActive)"

definition Ensure :: "Record list \<Rightarrow> ConsentPurpose \<Rightarrow> time \<Rightarrow> go_error option" where
  "Ensure consents purpose now =
     (if list_ex (\<lambda>c. Record_Purpose c = purpose \<and> Record_IsActive c now) consents then None
      else Some (dErrors_New CodeMissingConsent ''consent not granted for required purpose''))"

section \<open>The store\<close>

type_synonym consent_store = "(UserID, (ConsentPurpose, Record) kv) kv"

definition consent_get :: "consent_store \<Rightarrow> ConsentScope \<Rightarrow> Record option" where
  "consent_get st scope =
     (case kv_get st (Scope_UserID scope) of
        None \<Rightarrow> None
      | Some records \<Rightarrow> kv_get records (Scope_Purpose scope))"

definition ConsentStore_Save :: "consent_store \<Rightarrow> Record \<Rightarrow> consent_store \<times> go_error option" where
  "ConsentStore_Save st consent =
     (let (st, records) =
            (case kv_get st (Record_UserID consent) of
               Some records \<Rightarrow> (st, records)
             | None \<Rightarrow> (kv_put st (Record_UserID consent) [], []))
      in case kv_get records (Record_Purpose consent) of
           Some _ \<Rightarrow> (st, Some (Sentinel ErrConflict))
         | None \<Rightarrow>
             (kv_put st (Record_UserID consent) (kv_put records (Record_Purpose consent) consent), None))"

definition ConsentStore_FindByScope :: "consent_store \<Rightarrow> ConsentScope \<Rightarrow> Record result" where
  "ConsentStore_FindByScope st scope =
     (case consent_get st scope of None \<Rightarrow> Inl (Sentinel ErrNotFound) | Some record \<Rightarrow> Inr record)"

definition ConsentStore_ListByUser :: "consent_store \<Rightarrow> UserID \<Rightarrow> RecordFilter option \<Rightarrow> Record list" where
  "ConsentStore_ListByUser st userID flt =
     (let records = (case kv_get st userID of None \<Rightarrow> [] | Some records \<Rightarrow> records) in
      filter (\<lambda>record. case flt of None \<Rightarrow> True
                       | Some f \<Rightarrow> (case Filter_Purpose f of None \<Rightarrow> True | Some p \<Rightarrow> Record_Purpose record = p))
        (kv_values records))"

definition ConsentStore_Update :: "consent_store \<Rightarrow> Record \<Rightarrow> consent_store \<times> go_error option" where
  "ConsentStore_Update st consent =
     (let records = (case kv_get st (Record_UserID consent) of None \<Rightarrow> [] | Some records \<Rightarrow> records) in
      case kv_get records (Record_Purpose consent) of
        None \<Rightarrow> (st, Some (Sentinel ErrNotFound))
      | Some record \<Rightarrow>
          if Record_ID record \<noteq> Record_ID consent then (st, Some (Sentinel ErrNotFound))
          else (kv_put st (Record_UserID consent) (kv_put records (Record_Purpose consent) consent), None))"

definition ConsentStore_RevokeAllByUser :: "consent_store \<Rightarrow> UserID \<Rightarrow> time \<Rightarrow> consent_store \<times> nat" where
  "ConsentStore_RevokeAllByUser st userID now =
     (case kv_get st userID of
        None \<Rightarrow> (st, 0)
      | Some records \<Rightarrow>
          (kv_put st userID
             (map (\<lambda>(purpose, record).
                     (purpose, if \<not> Record_CanRevoke record now then record
                               else record\<lparr> Record_RevokedAt := Some now \<rparr>)) records),
           length (filter (\<lambda>record. Record_CanRevoke record now) (kv_values records))))"

definition ConsentStore_DeleteByUser :: "consent_store \<Rightarrow> UserID \<Rightarrow> consent_store" where
  "ConsentStore_DeleteByUser st userID = kv_del st userID"

text \<open>
  \<^verbatim>\<open>Execute\<close>. The callbacks of the service share variables they capture: the validation
  assigns them and the mutation reads them. Here the validation returns what it assigned, and
  \<^verbatim>\<open>Execute\<close> hands it to the mutation and back to the caller. The mutation also says whether it
  changed the record; only then is the record written.
\<close>

definition ConsentStore_Execute ::
  "consent_store \<Rightarrow> ConsentScope \<Rightarrow> (Record \<Rightarrow> 'c result) \<Rightarrow> ('c \<Rightarrow> Record \<Rightarrow> Record \<times> bool)
   \<Rightarrow> consent_store \<times> ('c \<times> Record) result" where
  "ConsentStore_Execute st scope validate mutate =
     (let records = (case kv_get st (Scope_UserID scope) of None \<Rightarrow> [] | Some records \<Rightarrow> records) in
      case kv_get records (Scope_Purpose scope) of
        None \<Rightarrow> (st, Inl (Sentinel ErrNotFound))
      | Some record \<Rightarrow>
          (case validate record of
             Inl e \<Rightarrow> (st, Inl e)
           | Inr captured \<Rightarrow>
               (let (copyRecord, changed) = mutate captured record in
                (if changed
                 then kv_put st (Scope_UserID scope) (kv_put records (Scope_Purpose scope) copyRecord)
                 else st,
                 Inr (captured, copyRecord)))))"

section \<open>Well-formed stores\<close>

definition Record_ok :: "Record \<Rightarrow> bool" where
  "Record_ok r =
     (\<not> ConsentID_IsNil (Record_ID r) \<and> \<not> UserID_IsNil (Record_UserID r) \<and>
      ConsentPurpose_IsValid (Record_Purpose r) \<and> \<not> time_IsZero (Record_GrantedAt r) \<and>
      (case Record_ExpiresAt r of Some e \<Rightarrow> Record_GrantedAt r \<le> e | None \<Rightarrow> True))"

text \<open>Each record lies under its own user and purpose: one record per scope.\<close>

definition consents_ok :: "consent_store \<Rightarrow> bool" where
  "consents_ok st =
     (kv_ok st \<and>
      kv_all (\<lambda>u records. kv_ok records \<and>
         kv_all (\<lambda>p r. Record_UserID r = u \<and> Record_Purpose r = p \<and> Record_ok r) records) st)"

section \<open>Lemmas\<close>

lemma CanRevoke_IsActive: "Record_CanRevoke = Record_IsActive"
  by (simp add: fun_eq_iff Record_CanRevoke_def Record_IsActive_def)

lemma ComputeStatus_active_iff [simp]: "Record_ComputeStatus r now = StatusActive \<longleftrightarrow> Record_IsActive r now"
  by (simp add: Record_ComputeStatus_def Record_IsActive_def)

lemma Status_of_String [simp]: "Status_IsValid s \<Longrightarrow> Status_of (Status_String s) = s"
  by (cases s) (auto simp: Status_of_def Status_IsValid_def)

lemma NewRecord_ok: "NewRecord i u p g e = Inr r \<Longrightarrow> Record_ok r \<and> Record_UserID r = u \<and> Record_Purpose r = p"
  by (auto simp: NewRecord_def Record_ok_def split: if_splits option.splits)

lemma RenewAt_ok:
  "Record_RenewAt r now ttl = Inr r' \<Longrightarrow> Record_ok r \<Longrightarrow>
   Record_ok r' \<and> Record_UserID r' = Record_UserID r \<and> Record_Purpose r' = Record_Purpose r"
  by (auto simp: Record_RenewAt_def Record_ok_def split: if_splits)

lemma Record_ok_RevokedAt [simp]: "Record_ok (r\<lparr> Record_RevokedAt := x \<rparr>) = Record_ok r"
  by (simp add: Record_ok_def split: option.split)

definition scope_of :: "Record \<Rightarrow> ConsentScope" where
  "scope_of r = \<lparr> Scope_UserID = Record_UserID r, Scope_Purpose = Record_Purpose r \<rparr>"

definition consent_put :: "consent_store \<Rightarrow> ConsentScope \<Rightarrow> Record \<Rightarrow> consent_store" where
  "consent_put st scope r =
     kv_put st (Scope_UserID scope)
       (kv_put (case kv_get st (Scope_UserID scope) of None \<Rightarrow> [] | Some m \<Rightarrow> m) (Scope_Purpose scope) r)"

lemma scope_eq_iff:
  "(s :: ConsentScope) = t \<longleftrightarrow> Scope_UserID s = Scope_UserID t \<and> Scope_Purpose s = Scope_Purpose t"
  by (cases s; cases t) simp

lemma consent_get_put [kv_simps]:
  "consent_get (consent_put st s r) s' = (if s' = s then Some r else consent_get st s')"
  by (auto simp: consent_get_def consent_put_def kv_simps scope_eq_iff split: option.splits)

lemma consents_okD:
  assumes "consents_ok st" "consent_get st s = Some r"
  shows "scope_of r = s" "Record_ok r"
proof -
  from assms(2) obtain m where m: "kv_get st (Scope_UserID s) = Some m" "kv_get m (Scope_Purpose s) = Some r"
    by (auto simp: consent_get_def split: option.splits)
  from assms(1) m(1) have "kv_all (\<lambda>p r. Record_UserID r = Scope_UserID s \<and> Record_Purpose r = p \<and> Record_ok r) m"
    by (auto simp: consents_ok_def dest: kv_allD)
  from kv_allD[OF this m(2)] show "scope_of r = s" "Record_ok r"
    by (simp_all add: scope_of_def scope_eq_iff)
qed

lemma consents_ok_put:
  assumes "consents_ok st" "Record_ok r" "scope_of r = s"
  shows "consents_ok (consent_put st s r)"
proof -
  let ?m = "case kv_get st (Scope_UserID s) of None \<Rightarrow> [] | Some m \<Rightarrow> m"
  have "kv_ok ?m \<and> kv_all (\<lambda>p r. Record_UserID r = Scope_UserID s \<and> Record_Purpose r = p \<and> Record_ok r) ?m"
    using assms(1) by (auto simp: consents_ok_def kv_all_def dest!: map_of_SomeD split: option.split)
  with assms show ?thesis
    by (auto simp: consents_ok_def consent_put_def scope_of_def kv_simps intro!: kv_all_put)
qed

lemma ConsentStore_Save_eq:
  "ConsentStore_Save st r =
     (case consent_get st (scope_of r) of
        Some _ \<Rightarrow> (st, Some (Sentinel ErrConflict))
      | None \<Rightarrow> (consent_put st (scope_of r) r, None))"
  by (auto simp: ConsentStore_Save_def consent_get_def consent_put_def scope_of_def Let_def kv_simps
      split: option.splits)

lemma ConsentStore_Execute_eq:
  "ConsentStore_Execute st s validate mutate =
     (case consent_get st s of
        None \<Rightarrow> (st, Inl (Sentinel ErrNotFound))
      | Some r \<Rightarrow>
          (case validate r of
             Inl e \<Rightarrow> (st, Inl e)
           | Inr x \<Rightarrow> (if snd (mutate x r) then consent_put st s (fst (mutate x r)) else st,
                       Inr (x, fst (mutate x r)))))"
  by (auto simp: ConsentStore_Execute_def consent_get_def consent_put_def Let_def
      split: option.splits sum.splits prod.splits)

text \<open>The store in the shape of the contract: a mutation that always writes.\<close>

definition consent_execute ::
  "consent_store \<Rightarrow> ConsentScope \<Rightarrow> (Record \<Rightarrow> go_error option) \<Rightarrow> (Record \<Rightarrow> Record)
   \<Rightarrow> consent_store \<times> Record exec_result" where
  "consent_execute st scope validate mutate =
     (case ConsentStore_Execute st scope
             (\<lambda>r. case validate r of Some e \<Rightarrow> Inl e | None \<Rightarrow> Inr ()) (\<lambda>_ r. (mutate r, True)) of
        (st, Inl e) \<Rightarrow> (st, None, Some e)
      | (st, Inr (_, r)) \<Rightarrow> (st, Some r, None))"

interpretation consents: execute_store consent_get consent_execute "\<lambda>_. None" "\<lambda>_. True"
  by unfold_locales
    (auto simp: consent_execute_def ConsentStore_Execute_eq kv_simps split: option.splits sum.splits)

end
