(* ===== verification/Audit_Events.thy ===== *)
theory Audit_Events
  imports Stores
begin

text \<open>
  Audit events and their publishers (\<^verbatim>\<open>pkg/platform/audit\<close>): the event types and their conversion
  (\<^verbatim>\<open>models.go\<close>), the in-memory event store (\<^verbatim>\<open>store/memory\<close>), and the compliance publisher
  (\<^verbatim>\<open>publishers/compliance\<close>), which writes synchronously and fails when the store does.

  The audit store behind a publisher is an interface. What its \<^verbatim>\<open>Append\<close> returns at the n-th call is a
  parameter, so a store may fail and recover; \<open>audit_sink\<close> counts the calls and keeps what was
  stored.
\<close>

section \<open>Events\<close>

text \<open>A category is a string in Go, so a value outside the constants exists.\<close>

type_synonym EventCategory = string

definition CategoryCompliance :: EventCategory where
  "CategoryCompliance = ''compliance''"

definition CategorySecurity :: EventCategory where
  "CategorySecurity = ''security''"

definition CategoryOperations :: EventCategory where
  "CategoryOperations = ''operations''"

record Event =
  Event_Category :: EventCategory
  Event_Timestamp :: time
  Event_UserID :: UserID
  Event_Subject :: string
  Event_Action :: string
  Event_Purpose :: string
  Event_RequestingParty :: string
  Event_Decision :: string
  Event_Reason :: string
  Event_Email :: string
  Event_RequestID :: string
  Event_ActorID :: string
  Event_SubjectIDHash :: string

record ComplianceEvent =
  CE_Timestamp :: time
  CE_UserID :: UserID
  CE_Subject :: string
  CE_Action :: string
  CE_Purpose :: string
  CE_Decision :: string
  CE_SubjectIDHash :: string
  CE_RequestID :: string
  CE_ActorID :: string

definition ComplianceEvent_ToLegacyEvent :: "ComplianceEvent \<Rightarrow> Event" where
  "ComplianceEvent_ToLegacyEvent e =
     \<lparr> Event_Category = CategoryCompliance, Event_Timestamp = CE_Timestamp e, Event_UserID = CE_UserID e,
       Event_Subject = CE_Subject e, Event_Action = CE_Action e, Event_Purpose = CE_Purpose e, Event_RequestingParty = [],
       Event_Decision = CE_Decision e, Event_Reason = [], Event_Email = [], Event_RequestID = CE_RequestID e,
       Event_ActorID = CE_ActorID e, Event_SubjectIDHash = CE_SubjectIDHash e \<rparr>"

datatype Severity = SeverityNone | SeverityInfo | SeverityWarning | SeverityCritical

record SecurityEvent =
  SE_Timestamp :: time
  SE_Subject :: string
  SE_Action :: string
  SE_Reason :: string
  SE_IP :: string
  SE_RequestID :: string
  SE_ActorID :: string
  SE_Severity :: Severity

definition SecurityEvent_ToLegacyEvent :: "SecurityEvent \<Rightarrow> Event" where
  "SecurityEvent_ToLegacyEvent e =
     \<lparr> Event_Category = CategorySecurity, Event_Timestamp = SE_Timestamp e, Event_UserID = UserID 0,
       Event_Subject = SE_Subject e, Event_Action = SE_Action e, Event_Purpose = [], Event_RequestingParty = [], Event_Decision = [],
       Event_Reason = SE_Reason e, Event_Email = [], Event_RequestID = SE_RequestID e, Event_ActorID = SE_ActorID e,
       Event_SubjectIDHash = [] \<rparr>"

record OpsEvent =
  OE_Timestamp :: time
  OE_Subject :: string
  OE_Action :: string
  OE_RequestID :: string

definition OpsEvent_ToLegacyEvent :: "OpsEvent \<Rightarrow> Event" where
  "OpsEvent_ToLegacyEvent e =
     \<lparr> Event_Category = CategoryOperations, Event_Timestamp = OE_Timestamp e, Event_UserID = UserID 0,
       Event_Subject = OE_Subject e, Event_Action = OE_Action e, Event_Purpose = [], Event_RequestingParty = [], Event_Decision = [],
       Event_Reason = [], Event_Email = [], Event_RequestID = OE_RequestID e, Event_ActorID = [], Event_SubjectIDHash = [] \<rparr>"

section \<open>The in-memory store\<close>

type_synonym audit_memory = "(UserID, Event list) kv"

definition events_of :: "audit_memory \<Rightarrow> UserID \<Rightarrow> Event list" where
  "events_of m u = (case kv_get m u of None \<Rightarrow> [] | Some es \<Rightarrow> es)"

definition AuditMemory_Append :: "Event \<Rightarrow> audit_memory \<Rightarrow> audit_memory" where
  "AuditMemory_Append event m = kv_put m (Event_UserID event) (events_of m (Event_UserID event) @ [event])"

definition AuditMemory_ListByUser :: "audit_memory \<Rightarrow> UserID \<Rightarrow> Event list" where
  "AuditMemory_ListByUser m u = events_of m u"

definition AuditMemory_ListAll :: "audit_memory \<Rightarrow> Event list" where
  "AuditMemory_ListAll m = concat (kv_values m)"

definition AuditMemory_ListRecent :: "audit_memory \<Rightarrow> int \<Rightarrow> Event list" where
  "AuditMemory_ListRecent m limit =
     (let all_events = AuditMemory_ListAll m; start = int (length all_events) - limit
      in drop (nat (if start < 0 then 0 else start)) all_events)"

lemma AuditMemory_ListByUser_Append:
  "AuditMemory_ListByUser (AuditMemory_Append event m) u =
     AuditMemory_ListByUser m u @ (if Event_UserID event = u then [event] else [])"
  by (simp add: AuditMemory_ListByUser_def AuditMemory_Append_def events_of_def kv_simps)

text \<open>After any sequence of appends, the events of a user are those appended for the user, in order.\<close>

lemma AuditMemory_ListByUser_run:
  "AuditMemory_ListByUser (fold AuditMemory_Append es m) u =
     AuditMemory_ListByUser m u @ filter (\<lambda>e. Event_UserID e = u) es"
  by (induction es arbitrary: m) (simp_all add: AuditMemory_ListByUser_Append)

section \<open>The compliance publisher\<close>

record audit_sink =
  sink_events :: "Event list"
  sink_calls :: nat

type_synonym append_result = "nat \<Rightarrow> go_error option"

definition sink_Append :: "append_result \<Rightarrow> Event \<Rightarrow> audit_sink \<Rightarrow> audit_sink \<times> go_error option" where
  "sink_Append outcome event s =
     (case outcome (sink_calls s) of
        None \<Rightarrow> (s\<lparr> sink_calls := sink_calls s + 1, sink_events := sink_events s @ [event] \<rparr>, None)
      | Some e \<Rightarrow> (s\<lparr> sink_calls := sink_calls s + 1 \<rparr>, Some e))"

text \<open>\<^verbatim>\<open>Emit\<close> reads the clock of the process when the event has no time of its own.\<close>

definition Compliance_Emit ::
  "append_result \<Rightarrow> time \<Rightarrow> ComplianceEvent \<Rightarrow> audit_sink \<Rightarrow> audit_sink \<times> go_error option" where
  "Compliance_Emit outcome wall event s =
     (if UserID_IsNil (CE_UserID event) then (s, Some (Errorf ''compliance event requires UserID''))
      else if CE_Action event = [] then (s, Some (Errorf ''compliance event requires Action''))
      else let event = (if time_IsZero (CE_Timestamp event) then event\<lparr> CE_Timestamp := wall \<rparr> else event)
           in case sink_Append outcome (ComplianceEvent_ToLegacyEvent event) s of
                (s, Some err) \<Rightarrow> (s, Some (ErrorfW ''compliance audit persistence failed'' err))
              | (s, None) \<Rightarrow> (s, None))"

text \<open>Fail-closed: an event is reported as written exactly when it is the last event of the store, and
  a failure stores nothing.\<close>

lemma Compliance_Emit_cases:
  assumes "Compliance_Emit outcome wall event s = (s', r)"
  shows "r = None \<Longrightarrow> sink_events s' = sink_events s @ [ComplianceEvent_ToLegacyEvent
           (if time_IsZero (CE_Timestamp event) then event\<lparr> CE_Timestamp := wall \<rparr> else event)]"
    and "r \<noteq> None \<Longrightarrow> sink_events s' = sink_events s"
  using assms by (auto simp: Compliance_Emit_def sink_Append_def Let_def split: if_splits option.splits)

end
