(* ===== verification/Consent.thy ===== *)
theory Consent
  imports Consent_Store Audit_Events
begin

text \<open>
  The consent service (\<^verbatim>\<open>internal/consent/service/service.go\<close>, \<^verbatim>\<open>tx.go\<close>): granting,
  revoking, erasing, listing and requiring consent. The state holds the store, the compliance events
  handed to the auditor, and the calls of the metrics, in order. The identifiers drawn by
  \<^verbatim>\<open>uuid.New\<close> are a parameter. The model is of a service that was given an auditor, as the server
  sets it up; without one \<^verbatim>\<open>emitAudit\<close> does nothing. An event counts when it is handed to the auditor:
  whether the auditor then stores it is its own matter (the theory of the publishers), since
  \<^verbatim>\<open>emitAudit\<close> only logs an error of \<^verbatim>\<open>Emit\<close> and no operation of the service sees it.
\<close>

section \<open>State\<close>

definition AuditActionConsentGranted :: string where "AuditActionConsentGranted = ''consent_granted''"
definition AuditActionConsentRevoked :: string where "AuditActionConsentRevoked = ''consent_revoked''"
definition AuditActionConsentDeleted :: string where "AuditActionConsentDeleted = ''consent_deleted''"
definition AuditActionConsentCheckPassed :: string where "AuditActionConsentCheckPassed = ''consent_check_passed''"
definition AuditActionConsentCheckFailed :: string where "AuditActionConsentCheckFailed = ''consent_check_failed''"

definition AuditDecisionGranted :: string where "AuditDecisionGranted = ''granted''"
definition AuditDecisionRevoked :: string where "AuditDecisionRevoked = ''revoked''"
definition AuditDecisionDeleted :: string where "AuditDecisionDeleted = ''deleted''"
definition AuditDecisionDenied :: string where "AuditDecisionDenied = ''denied''"

datatype consent_metric =
    ConsentsGranted ConsentPurpose | ConsentsRevoked ConsentPurpose | ActiveConsents int
  | ConsentCheckPassed ConsentPurpose | ConsentCheckFailed ConsentPurpose
  | ConsentCheckFailedByReason ConsentPurpose string | RecordsPerUser nat

record consent_state =
  cs_store :: consent_store
  cs_audit :: "ComplianceEvent list"
  cs_metrics :: "consent_metric list"

record consent_config =
  cc_consentTTL :: duration
  cc_grantIdempotencyWindow :: duration
  cc_reGrantCooldown :: duration

definition defaultConsentTTL :: duration where "defaultConsentTTL = 365 * 24 * hour"
definition defaultGrantIdempotencyWindow :: duration where "defaultGrantIdempotencyWindow = 5 * minute"

text \<open>The part of \<^verbatim>\<open>New\<close> that applies the defaults to what the options left.\<close>

definition consent_New :: "consent_config \<Rightarrow> consent_config" where
  "consent_New svc =
     (let svc = (if cc_consentTTL svc \<le> 0 then svc\<lparr> cc_consentTTL := defaultConsentTTL \<rparr> else svc);
          svc = (if cc_grantIdempotencyWindow svc \<le> 0
                 then svc\<lparr> cc_grantIdempotencyWindow := defaultGrantIdempotencyWindow \<rparr> else svc)
      in if cc_reGrantCooldown svc \<le> 0 then svc\<lparr> cc_reGrantCooldown := DefaultReGrantCooldown \<rparr> else svc)"

text \<open>The identifier the \<open>n\<close>-th attempt to create a record for a scope draws.\<close>

type_synonym consent_ids = "ConsentScope \<Rightarrow> nat \<Rightarrow> uuid"

section \<open>Audit and metrics\<close>

definition emitAudit :: "ctx \<Rightarrow> ComplianceEvent \<Rightarrow> consent_state \<Rightarrow> consent_state" where
  "emitAudit c event st =
     st\<lparr> cs_audit := cs_audit st @
          [if CE_RequestID event = [] then event\<lparr> CE_RequestID := ctx_RequestID c \<rparr> else event] \<rparr>"

definition add_metric :: "consent_metric \<Rightarrow> consent_state \<Rightarrow> consent_state" where
  "add_metric m st = st\<lparr> cs_metrics := cs_metrics st @ [m] \<rparr>"

definition emitGrantAudit :: "ctx \<Rightarrow> UserID \<Rightarrow> ConsentPurpose \<Rightarrow> time \<Rightarrow> consent_state \<Rightarrow> consent_state" where
  "emitGrantAudit c userID purpose now =
     emitAudit c \<lparr> CE_Timestamp = now, CE_UserID = userID, CE_Subject = [], CE_Action = AuditActionConsentGranted, CE_Purpose = ConsentPurpose_String purpose,
                 CE_Decision = AuditDecisionGranted, CE_SubjectIDHash = [], CE_RequestID = [], CE_ActorID = [] \<rparr>"

section \<open>Scopes and transactions\<close>

definition validatePurposes :: "ConsentPurpose list \<Rightarrow> go_error option" where
  "validatePurposes purposes =
     first_error (\<lambda>purpose. if \<not> ConsentPurpose_IsValid purpose
                            then Some (dErrors_New CodeBadRequest ''invalid purpose'') else None) purposes"

definition scopeForPurpose :: "UserID \<Rightarrow> ConsentPurpose \<Rightarrow> ConsentScope result" where
  "scopeForPurpose userID purpose =
     (case NewConsentScope userID purpose of
        Inl _ \<Rightarrow> Inl (dErrors_New CodeBadRequest ''invalid consent scope'')
      | Inr scope \<Rightarrow> Inr scope)"

text \<open>
  A transaction works on the store and on the variables its function captures; both stay as they
  are when it fails. \<^verbatim>\<open>withUserTx\<close> only tags the context for the lock.
\<close>

definition withUserTx :: "ctx \<Rightarrow> ('s \<Rightarrow> 's \<times> 'r result) \<Rightarrow> 's \<Rightarrow> 's \<times> 'r result" where
  "withUserTx c fn st = run_in_tx c fn st"

fun forEachScope_loop ::
  "UserID \<Rightarrow> (ConsentScope \<Rightarrow> 's \<Rightarrow> 's \<times> unit result) \<Rightarrow> ConsentPurpose list \<Rightarrow> 's \<Rightarrow> 's \<times> unit result" where
  "forEachScope_loop userID fn [] st = (st, Inr ())"
| "forEachScope_loop userID fn (purpose # purposes) st =
     (case scopeForPurpose userID purpose of
        Inl e \<Rightarrow> (st, Inl e)
      | Inr scope \<Rightarrow>
          (case fn scope st of
             (st, Inl e) \<Rightarrow> (st, Inl e)
           | (st, Inr _) \<Rightarrow> forEachScope_loop userID fn purposes st))"

definition forEachScope ::
  "ctx \<Rightarrow> UserID \<Rightarrow> ConsentPurpose list \<Rightarrow> (ConsentScope \<Rightarrow> 's \<Rightarrow> 's \<times> unit result) \<Rightarrow> 's \<Rightarrow> 's \<times> unit result" where
  "forEachScope c userID purposes fn st = withUserTx c (forEachScope_loop userID fn purposes) st"

section \<open>Grant\<close>

record grantEffect =
  ge_record :: Record
  ge_wasActive :: bool
  ge_timestamp :: time

definition createGrantTx ::
  "consent_config \<Rightarrow> uuid \<Rightarrow> consent_store \<Rightarrow> ConsentScope \<Rightarrow> time \<Rightarrow> consent_store \<times> Record result" where
  "createGrantTx cfg newID txStore scope now =
     (case NewRecord (ConsentID newID) (Scope_UserID scope) (Scope_Purpose scope) now
             (Some (now + cc_consentTTL cfg)) of
        Inl e \<Rightarrow> (txStore, Inl (dErrors_Wrap e CodeInternal ''failed to create consent record''))
      | Inr record \<Rightarrow>
          (case ConsentStore_Save txStore record of
             (txStore, Some e) \<Rightarrow>
               (txStore, Inl (if errors_Is e (Sentinel ErrConflict) then e
                              else dErrors_Wrap e CodeInternal ''failed to save consent''))
           | (txStore, None) \<Rightarrow> (txStore, Inr record)))"

text \<open>
  The loop of \<^verbatim>\<open>upsertGrantTx\<close>: the argument counts the attempts left, two at first; the
  next attempt is made when the record was missing and its creation met a conflict.
\<close>

fun upsertGrantTx_loop ::
  "consent_config \<Rightarrow> consent_ids \<Rightarrow> ctx \<Rightarrow> nat \<Rightarrow> consent_store \<Rightarrow> ConsentScope
   \<Rightarrow> consent_store \<times> (Record \<times> grantEffect option) result" where
  "upsertGrantTx_loop cfg ids c 0 txStore scope =
     (txStore, Inl (dErrors_New CodeConflict ''consent grant conflict''))"
| "upsertGrantTx_loop cfg ids c (Suc n) txStore scope =
     (let now = ctx_Now c in
      case ConsentStore_Execute txStore scope
             (\<lambda>existing. Record_EvaluateGrant existing now (cc_grantIdempotencyWindow cfg)
                           (cc_reGrantCooldown cfg) (cc_consentTTL cfg))
             (\<lambda>eval existing. if \<not> Eval_Changed eval then (existing, False)
                              else (the (Eval_Updated eval), True)) of
        (txStore, Inr (eval, record)) \<Rightarrow>
          if \<not> Eval_Changed eval then (txStore, Inr (record, None))
          else (txStore, Inr (record, Some \<lparr> ge_record = record, ge_wasActive = Eval_WasActive eval,
                                             ge_timestamp = now \<rparr>))
      | (txStore, Inl err) \<Rightarrow>
          if errors_Is err (Sentinel ErrNotFound)
          then (case createGrantTx cfg (ids scope n) txStore scope now of
                  (txStore, Inr record) \<Rightarrow>
                    (txStore, Inr (record, Some \<lparr> ge_record = record, ge_wasActive = False, ge_timestamp = now \<rparr>))
                | (txStore, Inl err) \<Rightarrow>
                    if errors_Is err (Sentinel ErrConflict)
                    then upsertGrantTx_loop cfg ids c n txStore scope
                    else (txStore, Inl err))
          else (txStore, Inl (if errors_As err \<noteq> None then err
                              else dErrors_Wrap err CodeInternal ''failed to update consent'')))"

definition upsertGrantTx ::
  "consent_config \<Rightarrow> consent_ids \<Rightarrow> ctx \<Rightarrow> consent_store \<Rightarrow> ConsentScope
   \<Rightarrow> consent_store \<times> (Record \<times> grantEffect option) result" where
  "upsertGrantTx cfg ids c txStore scope = upsertGrantTx_loop cfg ids c 2 txStore scope"

text \<open>What \<^verbatim>\<open>Grant\<close> does for one scope: the records and effects it collects are captured variables.\<close>

definition grant_scope ::
  "consent_config \<Rightarrow> consent_ids \<Rightarrow> ctx \<Rightarrow> ConsentScope \<Rightarrow> consent_store \<times> Record list \<times> grantEffect list
   \<Rightarrow> (consent_store \<times> Record list \<times> grantEffect list) \<times> unit result" where
  "grant_scope cfg ids c scope s =
     (let (txStore, granted, effects) = s in
      case upsertGrantTx cfg ids c txStore scope of
        (txStore, Inl e) \<Rightarrow> ((txStore, granted, effects), Inl e)
      | (txStore, Inr (record, effect)) \<Rightarrow>
          ((txStore, granted @ [record], case effect of None \<Rightarrow> effects | Some e \<Rightarrow> effects @ [e]), Inr ()))"

definition grant_effect :: "ctx \<Rightarrow> grantEffect \<Rightarrow> consent_state \<Rightarrow> consent_state" where
  "grant_effect c effect st =
     (let r = ge_record effect;
          st = emitGrantAudit c (Record_UserID r) (Record_Purpose r) (ge_timestamp effect) st;
          st = add_metric (ConsentsGranted (Record_Purpose r)) st
      in if \<not> ge_wasActive effect then add_metric (ActiveConsents 1) st else st)"

definition Grant ::
  "consent_config \<Rightarrow> consent_ids \<Rightarrow> ctx \<Rightarrow> UserID \<Rightarrow> ConsentPurpose list \<Rightarrow> consent_state
   \<Rightarrow> consent_state \<times> Record list result" where
  "Grant cfg ids c userID purposes st =
     (if UserID_IsNil userID then (st, Inl (dErrors_New CodeUnauthorized ''user ID required''))
      else if length purposes = 0
      then (st, Inl (dErrors_New CodeBadRequest ''purposes array must not be empty''))
      else case validatePurposes purposes of
             Some e \<Rightarrow> (st, Inl e)
           | None \<Rightarrow>
               (case forEachScope c userID purposes (grant_scope cfg ids c) (cs_store st, [], []) of
                  ((store, _, _), Inl e) \<Rightarrow> (st\<lparr> cs_store := store \<rparr>, Inl e)
                | ((store, granted, effects), Inr _) \<Rightarrow>
                    (fold (grant_effect c) effects (st\<lparr> cs_store := store \<rparr>), Inr granted)))"

section \<open>Revoke\<close>

definition tryRevokeScopeTx ::
  "consent_store \<Rightarrow> ConsentScope \<Rightarrow> time \<Rightarrow> consent_store \<times> (Record option \<times> bool) result" where
  "tryRevokeScopeTx txStore scope now =
     (case ConsentStore_Execute txStore scope
             (\<lambda>existing. if \<not> Record_CanRevoke existing now then Inr None
                         else (case Record_RevokeAt existing now of
                                 Inl e \<Rightarrow> Inl e | Inr updated \<Rightarrow> Inr (Some updated)))
             (\<lambda>updated existing. case updated of None \<Rightarrow> (existing, False) | Some u \<Rightarrow> (u, True)) of
        (txStore, Inr (updated, record)) \<Rightarrow> (txStore, Inr (Some record, updated \<noteq> None))
      | (txStore, Inl err) \<Rightarrow>
          if errors_Is err (Sentinel ErrNotFound) then (txStore, Inr (None, False))
          else (txStore, Inl (if errors_As err \<noteq> None then err
                              else dErrors_Wrap err CodeInternal ''failed to revoke consent'')))"

definition revoke_scope ::
  "time \<Rightarrow> ConsentScope \<Rightarrow> consent_store \<times> Record list \<Rightarrow> (consent_store \<times> Record list) \<times> unit result" where
  "revoke_scope now scope s =
     (let (txStore, revoked) = s in
      case tryRevokeScopeTx txStore scope now of
        (txStore, Inl e) \<Rightarrow> ((txStore, revoked), Inl e)
      | (txStore, Inr (record, changed)) \<Rightarrow>
          if \<not> changed then ((txStore, revoked), Inr ())
          else ((txStore, revoked @ [the record]), Inr ()))"

definition revoke_effect :: "ctx \<Rightarrow> UserID \<Rightarrow> Record \<Rightarrow> consent_state \<Rightarrow> consent_state" where
  "revoke_effect c userID record st =
     (let st = emitAudit c \<lparr> CE_Timestamp = ctx_Now c, CE_UserID = userID, CE_Subject = [], CE_Action = AuditActionConsentRevoked, CE_Purpose = ConsentPurpose_String (Record_Purpose record),
                 CE_Decision = AuditDecisionRevoked, CE_SubjectIDHash = [], CE_RequestID = [], CE_ActorID = [] \<rparr> st;
          st = add_metric (ConsentsRevoked (Record_Purpose record)) st
      in add_metric (ActiveConsents (- 1)) st)"

definition Revoke ::
  "ctx \<Rightarrow> UserID \<Rightarrow> ConsentPurpose list \<Rightarrow> consent_state \<Rightarrow> consent_state \<times> Record list result" where
  "Revoke c userID purposes st =
     (if UserID_IsNil userID then (st, Inl (dErrors_New CodeUnauthorized ''user ID required''))
      else case validatePurposes purposes of
             Some e \<Rightarrow> (st, Inl e)
           | None \<Rightarrow>
               (case forEachScope c userID purposes (revoke_scope (ctx_Now c)) (cs_store st, []) of
                  ((store, _), Inl e) \<Rightarrow> (st\<lparr> cs_store := store \<rparr>, Inl e)
                | ((store, revoked), Inr _) \<Rightarrow>
                    (fold (revoke_effect c userID) revoked (st\<lparr> cs_store := store \<rparr>), Inr revoked)))"

definition RevokeAll :: "ctx \<Rightarrow> UserID \<Rightarrow> consent_state \<Rightarrow> consent_state \<times> nat result" where
  "RevokeAll c userID st =
     (if UserID_IsNil userID then (st, Inl (dErrors_New CodeBadRequest ''user ID required''))
      else case withUserTx c (\<lambda>store. case ConsentStore_RevokeAllByUser store userID (ctx_Now c) of
                                       (store, n) \<Rightarrow> (store, Inr n)) (cs_store st) of
             (store, Inl e) \<Rightarrow> (st\<lparr> cs_store := store \<rparr>, Inl e)
           | (store, Inr revokedCount) \<Rightarrow>
               (let st = st\<lparr> cs_store := store \<rparr> in
                (if revokedCount > 0
                 then add_metric (ActiveConsents (- int revokedCount))
                        (emitAudit c \<lparr> CE_Timestamp = ctx_Now c, CE_UserID = userID, CE_Subject = [], CE_Action = AuditActionConsentRevoked, CE_Purpose = [],
                 CE_Decision = AuditDecisionRevoked, CE_SubjectIDHash = [], CE_RequestID = [], CE_ActorID = ctx_AdminActorID c \<rparr> st)
                 else st, Inr revokedCount)))"

definition DeleteAll :: "ctx \<Rightarrow> UserID \<Rightarrow> consent_state \<Rightarrow> consent_state \<times> go_error option" where
  "DeleteAll c userID st =
     (if UserID_IsNil userID then (st, Some (dErrors_New CodeBadRequest ''user ID required''))
      else case withUserTx c (\<lambda>store. (ConsentStore_DeleteByUser store userID, Inr ())) (cs_store st) of
             (store, Inl e) \<Rightarrow> (st\<lparr> cs_store := store \<rparr>, Some e)
           | (store, Inr _) \<Rightarrow>
               (emitAudit c \<lparr> CE_Timestamp = ctx_Now c, CE_UserID = userID, CE_Subject = [], CE_Action = AuditActionConsentDeleted, CE_Purpose = [],
                 CE_Decision = AuditDecisionDeleted, CE_SubjectIDHash = [], CE_RequestID = [], CE_ActorID = ctx_AdminActorID c \<rparr> (st\<lparr> cs_store := store \<rparr>), None))"

section \<open>List and require\<close>

definition filterRecords :: "Record list \<Rightarrow> RecordFilter option \<Rightarrow> time \<Rightarrow> Record list" where
  "filterRecords records flt now =
     (case flt of
        None \<Rightarrow> records
      | Some f \<Rightarrow>
          filter (\<lambda>record.
             (case Filter_Purpose f of None \<Rightarrow> True | Some p \<Rightarrow> Record_Purpose record = p) \<and>
             (case Filter_Status f of None \<Rightarrow> True | Some s \<Rightarrow> Record_ComputeStatus record now = s)) records)"

definition List :: "ctx \<Rightarrow> UserID \<Rightarrow> RecordFilter option \<Rightarrow> consent_state \<Rightarrow> consent_state \<times> Record list result" where
  "List c userID flt st =
     (if UserID_IsNil userID then (st, Inl (dErrors_New CodeUnauthorized ''user ID required''))
      else
        let storeFilter = (case flt of None \<Rightarrow> None
              | Some f \<Rightarrow> if Filter_Status f \<noteq> None
                          then Some \<lparr> Filter_Purpose = Filter_Purpose f, Filter_Status = None \<rparr> else Some f);
            records = ConsentStore_ListByUser (cs_store st) userID storeFilter;
            records = (case flt of None \<Rightarrow> records
              | Some f \<Rightarrow> if Filter_Purpose f \<noteq> None \<or> Filter_Status f \<noteq> None
                          then filterRecords records flt (ctx_Now c) else records)
        in (add_metric (RecordsPerUser (length records)) st, Inr records))"

record consentCheckOutcome =
  co_passed :: bool
  co_status :: "Status option"
  co_decision :: string

definition statusState :: "consentCheckOutcome \<Rightarrow> string" where
  "statusState out = (case co_status out of None \<Rightarrow> ''missing'' | Some s \<Rightarrow> Status_String s)"

definition outcomeMissing :: consentCheckOutcome where
  "outcomeMissing = \<lparr> co_passed = False, co_status = None, co_decision = AuditDecisionDenied \<rparr>"
definition outcomeRevoked :: consentCheckOutcome where
  "outcomeRevoked = \<lparr> co_passed = False, co_status = Some StatusRevoked, co_decision = AuditDecisionDenied \<rparr>"
definition outcomeExpired :: consentCheckOutcome where
  "outcomeExpired = \<lparr> co_passed = False, co_status = Some StatusExpired, co_decision = AuditDecisionDenied \<rparr>"
definition outcomePassed :: consentCheckOutcome where
  "outcomePassed = \<lparr> co_passed = True, co_status = Some StatusActive, co_decision = AuditDecisionGranted \<rparr>"

definition recordConsentCheckOutcome ::
  "ctx \<Rightarrow> UserID \<Rightarrow> ConsentPurpose \<Rightarrow> consentCheckOutcome \<Rightarrow> consent_state \<Rightarrow> consent_state" where
  "recordConsentCheckOutcome c userID purpose out st =
     (let action = (if \<not> co_passed out then AuditActionConsentCheckFailed else AuditActionConsentCheckPassed);
          st = emitAudit c \<lparr> CE_Timestamp = ctx_Now c, CE_UserID = userID, CE_Subject = [], CE_Action = action, CE_Purpose = ConsentPurpose_String purpose,
                 CE_Decision = co_decision out, CE_SubjectIDHash = [], CE_RequestID = [], CE_ActorID = [] \<rparr> st
      in if co_passed out then add_metric (ConsentCheckPassed purpose) st
         else add_metric (ConsentCheckFailedByReason purpose (statusState out))
                (add_metric (ConsentCheckFailed purpose) st))"

definition Require ::
  "ctx \<Rightarrow> UserID \<Rightarrow> ConsentPurpose \<Rightarrow> consent_state \<Rightarrow> consent_state \<times> go_error option" where
  "Require c userID purpose st =
     (if UserID_IsNil userID then (st, Some (dErrors_New CodeUnauthorized ''user ID required''))
      else if \<not> ConsentPurpose_IsValid purpose
      then (st, Some (dErrors_New CodeBadRequest ''invalid purpose''))
      else case NewConsentScope userID purpose of
             Inl _ \<Rightarrow> (st, Some (dErrors_New CodeBadRequest ''invalid consent scope''))
           | Inr scope \<Rightarrow>
               (case ConsentStore_FindByScope (cs_store st) scope of
                  Inl e \<Rightarrow>
                    if errors_Is e (Sentinel ErrNotFound)
                    then (recordConsentCheckOutcome c userID purpose outcomeMissing st,
                          Some (dErrors_New CodeMissingConsent ''consent not granted for required purpose''))
                    else (st, Some (dErrors_Wrap e CodeInternal ''failed to read consent''))
                | Inr record \<Rightarrow>
                    (let status = Record_ComputeStatus record (ctx_Now c) in
                     if status = StatusRevoked
                     then (recordConsentCheckOutcome c userID purpose outcomeRevoked st,
                           Some (dErrors_New CodeInvalidConsent ''consent revoked''))
                     else if status = StatusExpired
                     then (recordConsentCheckOutcome c userID purpose outcomeExpired st,
                           Some (dErrors_New CodeInvalidConsent ''consent expired''))
                     else (recordConsentCheckOutcome c userID purpose outcomePassed st, None))))"

end
