(* ===== verification/Consent_Properties.thy ===== *)
theory Consent_Properties
  imports Consent
begin

text \<open>
  What the consent service promises. An abstract description of a grant and a revocation on the
  record of one scope (\<open>grant_spec\<close>, \<open>revoke_spec\<close>), that the service implements it on every scope
  it is asked for and touches no other, the invariant of the store over any sequence of requests, and
  what \<^verbatim>\<open>Require\<close> answers after grants and revocations.
\<close>

section \<open>The specification of a grant\<close>

definition consent_cfg_ok :: "consent_config \<Rightarrow> bool" where
  "consent_cfg_ok cfg =
     (0 < cc_consentTTL cfg \<and>
      0 < cc_grantIdempotencyWindow cfg \<and> cc_grantIdempotencyWindow cfg \<le> max_duration \<and>
      0 < cc_reGrantCooldown cfg \<and> cc_reGrantCooldown cfg \<le> max_duration)"

text \<open>
  The outcome of a grant for the record of a scope: refused while the record is revoked and the
  cooldown runs; the same record when it is active and was granted within the window; a renewed
  record otherwise; a new one when there was none.
\<close>

definition grant_refused :: "consent_config \<Rightarrow> time \<Rightarrow> Record option \<Rightarrow> bool" where
  "grant_refused cfg now old =
     (case old of
        None \<Rightarrow> False
      | Some r \<Rightarrow> (case Record_RevokedAt r of None \<Rightarrow> False | Some t \<Rightarrow> now - t < cc_reGrantCooldown cfg))"

lemma grant_refused_iff:
  "grant_refused cfg now old \<longleftrightarrow>
     (\<exists>r t. old = Some r \<and> Record_RevokedAt r = Some t \<and> now - t < cc_reGrantCooldown cfg)"
  by (auto simp: grant_refused_def split: option.splits)

definition grant_kept :: "consent_config \<Rightarrow> time \<Rightarrow> Record option \<Rightarrow> bool" where
  "grant_kept cfg now old =
     (case old of
        None \<Rightarrow> False
      | Some r \<Rightarrow> Record_IsActive r now \<and> now - Record_GrantedAt r < cc_grantIdempotencyWindow cfg)"

lemma grant_kept_iff:
  "grant_kept cfg now old \<longleftrightarrow>
     (\<exists>r. old = Some r \<and> Record_IsActive r now \<and> now - Record_GrantedAt r < cc_grantIdempotencyWindow cfg)"
  by (auto simp: grant_kept_def split: option.splits)

definition grant_spec :: "consent_config \<Rightarrow> uuid \<Rightarrow> time \<Rightarrow> ConsentScope \<Rightarrow> Record option \<Rightarrow> Record" where
  "grant_spec cfg newID now scope old =
     (case old of
        None \<Rightarrow> \<lparr> Record_ID = ConsentID newID, Record_UserID = Scope_UserID scope,
                  Record_Purpose = Scope_Purpose scope, Record_GrantedAt = now,
                  Record_ExpiresAt = Some (now + cc_consentTTL cfg), Record_RevokedAt = None \<rparr>
      | Some r \<Rightarrow>
          if grant_kept cfg now old then r
          else r\<lparr> Record_GrantedAt := now, Record_ExpiresAt := Some (now + cc_consentTTL cfg),
                  Record_RevokedAt := None \<rparr>)"

definition regrant_error :: go_error where
  "regrant_error = dErrors_New CodeBadRequest ''consent was recently revoked; please wait before re-granting''"

definition scope_ok :: "ConsentScope \<Rightarrow> bool" where
  "scope_ok s = (\<not> UserID_IsNil (Scope_UserID s) \<and> ConsentPurpose_IsValid (Scope_Purpose s))"

abbreviation scope :: "UserID \<Rightarrow> ConsentPurpose \<Rightarrow> ConsentScope" where
  "scope u p \<equiv> \<lparr> Scope_UserID = u, Scope_Purpose = p \<rparr>"

lemma EvaluateGrant_eq:
  assumes "consent_cfg_ok cfg" "\<not> time_IsZero now"
  shows "Record_EvaluateGrant r now (cc_grantIdempotencyWindow cfg) (cc_reGrantCooldown cfg) (cc_consentTTL cfg) =
    (if grant_refused cfg now (Some r) then Inl regrant_error
     else Inr \<lparr> Eval_Updated = (if grant_kept cfg now (Some r) then None else Some (grant_spec cfg i now s (Some r))),
                Eval_Changed = (\<not> grant_kept cfg now (Some r)), Eval_WasActive = Record_IsActive r now \<rparr>)"
proof -
  have b: "min_duration < cc_grantIdempotencyWindow cfg" "min_duration < cc_reGrantCooldown cfg"
    using assms(1) by (simp_all add: consent_cfg_ok_def min_duration_def)
  have w: "time_Sub now t < cc_grantIdempotencyWindow cfg \<longleftrightarrow> now - t < cc_grantIdempotencyWindow cfg" for t
    using assms(1) b by (intro time_Sub_less_iff) (simp_all add: consent_cfg_ok_def)
  have k: "cc_reGrantCooldown cfg \<le> time_Sub now t \<longleftrightarrow> cc_reGrantCooldown cfg \<le> now - t" for t
    using assms(1) b by (intro time_Sub_le_iff) (simp_all add: consent_cfg_ok_def)
  show ?thesis
    using assms
    by (cases "Record_RevokedAt r")
      (auto simp: Record_EvaluateGrant_def grant_refused_iff grant_kept_iff grant_spec_def regrant_error_def w k Let_def
        Record_CanReGrant_def Record_RenewAt_def consent_cfg_ok_def Record_IsActive_def)
qed

text \<open>The identifier a created record gets: the first of the two attempts draws it.\<close>

definition new_id :: "consent_ids \<Rightarrow> ConsentScope \<Rightarrow> uuid" where
  "new_id ids s = ids s 1"

lemma upsertGrantTx_unfold:
  "upsertGrantTx cfg ids c st s = upsertGrantTx_loop cfg ids c (Suc 1) st s"
  by (simp add: upsertGrantTx_def numeral_2_eq_2)

text \<open>The effect a grant reports for the audit trail, and the store it leaves.\<close>

definition grant_reports :: "consent_config \<Rightarrow> time \<Rightarrow> Record option \<Rightarrow> Record \<Rightarrow> grantEffect option" where
  "grant_reports cfg now old r =
     (if grant_kept cfg now old then None
      else Some \<lparr> ge_record = r, ge_wasActive = (\<exists>r0. old = Some r0 \<and> Record_IsActive r0 now), ge_timestamp = now \<rparr>)"

definition grant_store :: "consent_config \<Rightarrow> time \<Rightarrow> consent_store \<Rightarrow> ConsentScope \<Rightarrow> Record \<Rightarrow> consent_store" where
  "grant_store cfg now st s r = (if grant_kept cfg now (consent_get st s) then st else consent_put st s r)"

lemma upsertGrantTx_eq:
  fixes st :: consent_store
  assumes "consent_cfg_ok cfg" "\<not> time_IsZero (ctx_Now c)" "scope_ok s" "new_id ids s \<noteq> 0"
  defines "r \<equiv> grant_spec cfg (new_id ids s) (ctx_Now c) s (consent_get st s)"
  shows "upsertGrantTx cfg ids c st s =
    (if grant_refused cfg (ctx_Now c) (consent_get st s) then (st, Inl regrant_error)
     else (grant_store cfg (ctx_Now c) st s r, Inr (r, grant_reports cfg (ctx_Now c) (consent_get st s) r)))"
proof (cases "consent_get st s")
  case None
  have "createGrantTx cfg (new_id ids s) st s (ctx_Now c) = (consent_put st s r, Inr r)"
  proof -
    have sc: "scope_of r = s" unfolding r_def grant_spec_def scope_of_def None by simp
    have "NewRecord (ConsentID (new_id ids s)) (Scope_UserID s) (Scope_Purpose s) (ctx_Now c)
        (Some (ctx_Now c + cc_consentTTL cfg)) = Inr r"
      using assms(1-4) None by (simp add: NewRecord_def r_def grant_spec_def scope_ok_def consent_cfg_ok_def)
    then show ?thesis
      by (simp add: createGrantTx_def ConsentStore_Save_eq sc None)
  qed
  then show ?thesis
    by (simp add: upsertGrantTx_unfold new_id_def ConsentStore_Execute_eq None grant_refused_iff grant_store_def grant_reports_def grant_kept_iff
        err_simps)
next
  case (Some r0)
  have "\<not> errors_Is regrant_error (Sentinel ErrNotFound)" "errors_As regrant_error \<noteq> None"
    by (simp_all add: regrant_error_def err_simps)
  moreover have "grant_kept cfg (ctx_Now c) (Some r0) \<Longrightarrow> r = r0"
    by (simp add: r_def grant_spec_def Some)
  ultimately show ?thesis
    using Some
    by (simp add: upsertGrantTx_unfold ConsentStore_Execute_eq EvaluateGrant_eq[OF assms(1,2), where i = "new_id ids s" and s = s]
        grant_store_def grant_reports_def r_def Let_def)
qed

text \<open>Granting again at once changes nothing.\<close>

lemma grant_spec_again:
  assumes "consent_cfg_ok cfg"
  shows "\<not> grant_refused cfg now old \<Longrightarrow> grant_kept cfg now (Some (grant_spec cfg i now s old))"
    and "\<not> grant_refused cfg now (Some (grant_spec cfg i now s old)) \<or> grant_refused cfg now old"
    and "\<not> grant_refused cfg now old \<Longrightarrow> Record_IsActive (grant_spec cfg i now s old) now"
  using assms
  by (auto simp: grant_spec_def grant_kept_iff grant_refused_iff consent_cfg_ok_def Record_IsActive_def
      split: option.splits if_splits)


lemma grant_spec_idem:
  assumes "consent_cfg_ok cfg" "\<not> grant_refused cfg now old"
  shows "grant_spec cfg i now s (Some (grant_spec cfg j now s old)) = grant_spec cfg j now s old"
  using grant_spec_again(1)[OF assms, of j s] by (simp add: grant_spec_def[of cfg i now s "Some _"])

lemma consent_get_grant_store:
  "consent_get (grant_store cfg now st s (grant_spec cfg i now s (consent_get st s))) s' =
   (if s' = s then Some (grant_spec cfg i now s (consent_get st s)) else consent_get st s')"
  by (auto simp: grant_store_def kv_simps grant_spec_def grant_kept_iff)

section \<open>The loop over the purposes\<close>

lemma forEachScope_loop_append:
  "forEachScope_loop u fn (ps @ qs) st =
     (case forEachScope_loop u fn ps st of
        (st, Inl e) \<Rightarrow> (st, Inl e) | (st, Inr _) \<Rightarrow> forEachScope_loop u fn qs st)"
  by (induction ps arbitrary: st) (auto split: sum.splits prod.splits)

lemma scopeForPurpose_ok:
  "\<not> UserID_IsNil u \<Longrightarrow> ConsentPurpose_IsValid p \<Longrightarrow> scopeForPurpose u p = Inr (scope u p)"
  by (simp add: scopeForPurpose_def NewConsentScope_def)

lemma validatePurposes_None: "validatePurposes ps = None \<longleftrightarrow> (\<forall>p \<in> set ps. ConsentPurpose_IsValid p)"
  by (auto simp: validatePurposes_def first_error_None_iff split: if_splits)

definition draws_ids :: "consent_ids \<Rightarrow> bool" where
  "draws_ids ids = (\<forall>s n. ids s n \<noteq> 0)"

text \<open>The store after grants for some purposes of a user, none of them refused.\<close>

definition granted_view ::
  "consent_config \<Rightarrow> consent_ids \<Rightarrow> time \<Rightarrow> UserID \<Rightarrow> ConsentPurpose list \<Rightarrow> consent_store \<Rightarrow> ConsentScope \<Rightarrow> Record option" where
  "granted_view cfg ids now u ps st s =
     (if Scope_UserID s = u \<and> Scope_Purpose s \<in> set ps
      then Some (grant_spec cfg (new_id ids s) now s (consent_get st s)) else consent_get st s)"

lemma grant_loop:
  assumes "consent_cfg_ok cfg" "\<not> time_IsZero (ctx_Now c)" "\<not> UserID_IsNil u" "draws_ids ids"
    and "\<forall>p \<in> set ps. ConsentPurpose_IsValid p \<and> \<not> grant_refused cfg (ctx_Now c) (consent_get st (scope u p))"
  shows "\<exists>st' effs. forEachScope_loop u (grant_scope cfg ids c) ps (st, g, e) =
      ((st', g @ map (\<lambda>p. grant_spec cfg (new_id ids (scope u p)) (ctx_Now c) (scope u p) (consent_get st (scope u p))) ps,
        e @ effs), Inr ()) \<and>
      consent_get st' = granted_view cfg ids (ctx_Now c) u ps st"
  using assms(5)
proof (induction ps arbitrary: st g e)
  case Nil
  then show ?case by (auto simp: granted_view_def)
next
  case (Cons p ps)
  let ?G = "\<lambda>st s. grant_spec cfg (new_id ids s) (ctx_Now c) s (consent_get st s)"
  let ?s = "scope u p" and ?now = "ctx_Now c"
  let ?st1 = "grant_store cfg ?now st ?s (?G st ?s)"
  have ok: "scope_ok ?s" "new_id ids ?s \<noteq> 0" "\<not> grant_refused cfg ?now (consent_get st ?s)"
    using Cons.prems assms(3,4) by (simp_all add: scope_ok_def draws_ids_def new_id_def)
  note up = upsertGrantTx_eq[OF assms(1,2) ok(1), where ids = ids and st = st, OF ok(2)]
  have get: "consent_get ?st1 s' = (if s' = ?s then Some (?G st ?s) else consent_get st s')" for s'
    by (rule consent_get_grant_store)
  have same: "?G ?st1 s' = ?G st s'" for s'
    using grant_spec_idem[OF assms(1) ok(3)] by (cases "s' = ?s") (simp_all add: get)
  have nr: "\<forall>q \<in> set ps. ConsentPurpose_IsValid q \<and> \<not> grant_refused cfg ?now (consent_get ?st1 (scope u q))"
    using Cons.prems grant_spec_again(2)[OF assms(1)] ok(3) by (auto simp: get)
  obtain e1 where step: "grant_scope cfg ids c ?s (st, g, e) = ((?st1, g @ [?G st ?s], e @ e1), Inr ())"
    using up ok(3) by (cases "grant_reports cfg ?now (consent_get st ?s) (?G st ?s)") (auto simp: grant_scope_def)
  from Cons.IH[OF nr, of "g @ [?G st ?s]" "e @ e1"] obtain st' effs where
    ih: "forEachScope_loop u (grant_scope cfg ids c) ps (?st1, g @ [?G st ?s], e @ e1) =
      ((st', (g @ [?G st ?s]) @ map (\<lambda>p. ?G ?st1 (scope u p)) ps, (e @ e1) @ effs), Inr ())"
      "consent_get st' = granted_view cfg ids ?now u ps ?st1" by blast
  have "consent_get st' = granted_view cfg ids ?now u (p # ps) st"
  proof
    fix s'
    show "consent_get st' s' = granted_view cfg ids ?now u (p # ps) st s'"
    proof (cases "s' = ?s")
      case True
      with same[of ?s] get[of ?s] show ?thesis by (simp add: ih(2) granted_view_def)
    next
      case False
      then have "Scope_UserID s' = u \<Longrightarrow> Scope_Purpose s' \<noteq> p" by (auto simp: scope_eq_iff)
      with False same[of s'] get[of s'] show ?thesis by (auto simp: ih(2) granted_view_def)
    qed
  qed
  with step ih(1) show ?case
    using Cons.prems assms(3) by (simp add: scopeForPurpose_ok same)
qed


section \<open>Example data\<close>

definition consent_init :: consent_state where
  "consent_init = \<lparr> cs_store = [], cs_audit = [], cs_metrics = [] \<rparr>"

definition ex_consent_cfg :: consent_config where
  "ex_consent_cfg = consent_New \<lparr> cc_consentTTL = 0, cc_grantIdempotencyWindow = 0, cc_reGrantCooldown = 0 \<rparr>"

definition ex_consent_ctx :: "time \<Rightarrow> ctx" where
  "ex_consent_ctx t = \<lparr> ctx_Now = t, ctx_DeviceID = [], ctx_DeviceFingerprint = [], ctx_UserAgent = [],
     ctx_APIVersion = [], ctx_RequestID = ''req'', ctx_AdminActorID = [], ctx_ErrEntry = None, ctx_ErrLocked = None \<rparr>"

definition ex_consent_state :: consent_state where
  "ex_consent_state = fst (Grant ex_consent_cfg (\<lambda>_ _. 7) (ex_consent_ctx 10) (UserID 1) [ConsentPurposeLogin] consent_init)"

definition ex_consent_record :: Record where
  "ex_consent_record = \<lparr> Record_ID = ConsentID 7, Record_UserID = UserID 1, Record_Purpose = ConsentPurposeLogin,
     Record_GrantedAt = 10, Record_ExpiresAt = Some (10 + 365 * 24 * hour), Record_RevokedAt = None \<rparr>"

definition ex_revoked_state :: consent_state where
  "ex_revoked_state = fst (Revoke (ex_consent_ctx 20) (UserID 1) [ConsentPurposeLogin] ex_consent_state)"

lemma ex_consent_cfg_ok: "consent_cfg_ok ex_consent_cfg" and ex_draws: "draws_ids (\<lambda>_ _. 7)"
  by (simp_all add: consent_cfg_ok_def ex_consent_cfg_def consent_New_def defaultConsentTTL_def
      defaultGrantIdempotencyWindow_def DefaultReGrantCooldown_def max_duration_def draws_ids_def Let_def)

lemma ex_consent_ctx [simp]: "ctx_Now (ex_consent_ctx t) = t" "ctx_ErrEntry (ex_consent_ctx t) = None"
    "ctx_ErrLocked (ex_consent_ctx t) = None"
  by (simp_all add: ex_consent_ctx_def)

lemma ex_consent_get:
  "consent_get (cs_store ex_consent_state) (scope (UserID 1) ConsentPurposeLogin) =
     Some ex_consent_record"
  by code_simp

lemma ex_revoked_get:
  "consent_get (cs_store ex_revoked_state) (scope (UserID 1) ConsentPurposeLogin) =
     Some (ex_consent_record\<lparr> Record_RevokedAt := Some 20 \<rparr>)"
  "consent_get (cs_store ex_revoked_state) (scope (UserID 1) ConsentPurposeDecision) = None"
  by code_simp+

lemma ex_consent_valid [simp]: "\<not> UserID_IsNil (UserID 1)" "ConsentPurpose_IsValid ConsentPurposeLogin"
    "ConsentPurpose_IsValid ConsentPurposeDecision" "\<not> time_IsZero 10" "\<not> time_IsZero 20" "\<not> time_IsZero 30"
  by code_simp+

section \<open>Grants\<close>

lemma Grant_unfold:
  assumes "\<not> UserID_IsNil u" "ps \<noteq> []" "\<forall>p \<in> set ps. ConsentPurpose_IsValid p"
    and "ctx_ErrEntry c = None" "ctx_ErrLocked c = None"
  shows "Grant cfg ids c u ps st =
    (case forEachScope_loop u (grant_scope cfg ids c) ps (cs_store st, [], []) of
       ((store, _, _), Inl e) \<Rightarrow> (st\<lparr> cs_store := store \<rparr>, Inl e)
     | ((store, granted, effects), Inr _) \<Rightarrow>
         (fold (grant_effect c) effects (st\<lparr> cs_store := store \<rparr>), Inr granted))"
  using assms validatePurposes_None[of ps]
  by (simp add: Grant_def forEachScope_def withUserTx_def run_in_tx_def)

lemma fold_keeps: "(\<And>x s. f (g x s) = f s) \<Longrightarrow> f (fold g xs s) = f s"
  by (induction xs arbitrary: s) auto

lemma cs_store_effects [simp]:
  "cs_store (fold (grant_effect c) es st) = cs_store st"
  "cs_store (fold (revoke_effect c u) rs st) = cs_store st"
  by (rule fold_keeps; simp add: grant_effect_def revoke_effect_def emitGrantAudit_def emitAudit_def
      add_metric_def Let_def)+

lemma Grant_granted:
  assumes "consent_cfg_ok cfg" and "\<not> time_IsZero (ctx_Now c)" and "\<not> UserID_IsNil u" and "draws_ids ids"
    and "ctx_ErrEntry c = None" and "ctx_ErrLocked c = None" and "ps \<noteq> []"
    and "\<forall>p \<in> set ps. ConsentPurpose_IsValid p \<and>
           \<not> grant_refused cfg (ctx_Now c) (consent_get (cs_store st) (scope u p))"
  shows "\<exists>st'. Grant cfg ids c u ps st =
       (st', Inr (map (\<lambda>p. grant_spec cfg (new_id ids (scope u p)) (ctx_Now c) (scope u p)
                              (consent_get (cs_store st) (scope u p))) ps)) \<and>
     consent_get (cs_store st') = granted_view cfg ids (ctx_Now c) u ps (cs_store st)"
proof -
  from grant_loop[OF assms(1-4,8), of "[]" "[]"] Grant_unfold[OF assms(3,7) _ assms(5,6), of cfg ids st] assms(8)
  show ?thesis by auto
qed

text \<open>\<^bold>\<open>C22\<close> A grant does what its specification says, for every purpose at once: when no purpose
  is in its cooldown, the request succeeds, returns the specified record of each purpose, leaves
  exactly these under their scopes, and leaves every other scope, of this and of every other user, as
  it was; repeated purposes make no difference.\<close>

theorem grant_refines:
  assumes "consent_cfg_ok cfg" and "\<not> time_IsZero (ctx_Now c)" and "\<not> UserID_IsNil u" and "draws_ids ids"
    and "ctx_ErrEntry c = None" and "ctx_ErrLocked c = None" and "ps \<noteq> []"
    and "\<forall>p \<in> set ps. ConsentPurpose_IsValid p \<and>
           \<not> grant_refused cfg (ctx_Now c) (consent_get (cs_store st) (scope u p))"
  shows "\<exists>st'. Grant cfg ids c u ps st =
       (st', Inr (map (\<lambda>p. grant_spec cfg (new_id ids (scope u p)) (ctx_Now c) (scope u p)
                              (consent_get (cs_store st) (scope u p))) ps)) \<and>
     consent_get (cs_store st') = granted_view cfg ids (ctx_Now c) u ps (cs_store st)"
  by (rule Grant_granted[OF assms])

theorem grant_refines_witness:
  "\<exists>st'. Grant ex_consent_cfg (\<lambda>_ _. 7) (ex_consent_ctx 10) (UserID 1) [ConsentPurposeLogin, ConsentPurposeLogin]
       consent_init = (st', Inr [ex_consent_record, ex_consent_record]) \<and>
     consent_get (cs_store st') (scope (UserID 1) ConsentPurposeLogin) = Some ex_consent_record"
proof -
  have n: "consent_get (cs_store consent_init) s = None" for s by (simp add: consent_init_def consent_get_def)
  have g: "grant_spec ex_consent_cfg (new_id (\<lambda>_ _. 7) (scope (UserID 1) ConsentPurposeLogin)) 10
      (scope (UserID 1) ConsentPurposeLogin) None = ex_consent_record" by code_simp
  from grant_refines[OF ex_consent_cfg_ok _ _ ex_draws, of "ex_consent_ctx 10" "UserID 1"
      "[ConsentPurposeLogin, ConsentPurposeLogin]" consent_init]
  show ?thesis by (auto simp: n g grant_refused_iff granted_view_def)
qed

lemma Grant_refused:
  assumes "consent_cfg_ok cfg" and "\<not> time_IsZero (ctx_Now c)" and "\<not> UserID_IsNil u" and "draws_ids ids"
    and "ctx_ErrEntry c = None" and "ctx_ErrLocked c = None"
    and "\<forall>p \<in> set (ps @ q # qs). ConsentPurpose_IsValid p"
    and "\<forall>p \<in> set ps. \<not> grant_refused cfg (ctx_Now c) (consent_get (cs_store st) (scope u p))"
    and "grant_refused cfg (ctx_Now c) (consent_get (cs_store st) (scope u q))"
  shows "\<exists>st'. Grant cfg ids c u (ps @ q # qs) st = (st', Inl regrant_error) \<and>
     consent_get (cs_store st') = granted_view cfg ids (ctx_Now c) u ps (cs_store st)"
proof -
  have "\<forall>p \<in> set ps. ConsentPurpose_IsValid p \<and>
      \<not> grant_refused cfg (ctx_Now c) (consent_get (cs_store st) (scope u p))" using assms(7,8) by simp
  from grant_loop[OF assms(1-4) this, of "[]" "[]"] obtain store g e where
    l: "forEachScope_loop u (grant_scope cfg ids c) ps (cs_store st, [], []) = ((store, g, e), Inr ())"
      "consent_get store = granted_view cfg ids (ctx_Now c) u ps (cs_store st)" by auto
  have q: "q \<notin> set ps" using assms(8,9) by blast
  then have get: "consent_get store (scope u q) = consent_get (cs_store st) (scope u q)"
    by (simp add: l(2) granted_view_def)
  have ok: "scope_ok (scope u q)" "new_id ids (scope u q) \<noteq> 0" "ConsentPurpose_IsValid q"
    using assms(3,4,7) by (simp_all add: scope_ok_def draws_ids_def new_id_def)
  have "grant_scope cfg ids c (scope u q) (store, g, e) = ((store, g, e), Inl regrant_error)"
    using upsertGrantTx_eq[OF assms(1,2) ok(1), of ids store, OF ok(2)] get assms(9) by (simp add: grant_scope_def)
  then have "forEachScope_loop u (grant_scope cfg ids c) (ps @ q # qs) (cs_store st, [], []) =
      ((store, g, e), Inl regrant_error)"
    using l(1) assms(3) ok(3) by (simp add: forEachScope_loop_append scopeForPurpose_ok)
  then show ?thesis
    using Grant_unfold[OF assms(3) _ assms(7,5,6), of cfg ids st] l(2) by simp
qed

text \<open>A grant for several purposes is not atomic on the in-memory store: when the first
  purpose that is still in its cooldown comes after others, the request fails with a bad-request error
  and yet the purposes before it stay granted.\<close>

lemma grant_partial:
  assumes "consent_cfg_ok cfg" and "\<not> time_IsZero (ctx_Now c)" and "\<not> UserID_IsNil u" and "draws_ids ids"
    and "ctx_ErrEntry c = None" and "ctx_ErrLocked c = None"
    and "\<forall>p \<in> set (ps @ q # qs). ConsentPurpose_IsValid p"
    and "\<forall>p \<in> set ps. \<not> grant_refused cfg (ctx_Now c) (consent_get (cs_store st) (scope u p))"
    and "grant_refused cfg (ctx_Now c) (consent_get (cs_store st) (scope u q))"
  shows "\<exists>st'. Grant cfg ids c u (ps @ q # qs) st = (st', Inl regrant_error) \<and>
     consent_get (cs_store st') = granted_view cfg ids (ctx_Now c) u ps (cs_store st)"
  by (rule Grant_refused[OF assms])

lemma grant_partial_witness:
  "\<exists>st'. Grant ex_consent_cfg (\<lambda>_ _. 7) (ex_consent_ctx 30) (UserID 1) [ConsentPurposeDecision, ConsentPurposeLogin]
       ex_revoked_state = (st', Inl regrant_error) \<and>
     consent_get (cs_store st') (scope (UserID 1) ConsentPurposeDecision) \<noteq> None"
proof -
  have r: "grant_refused ex_consent_cfg 30 (Some (ex_consent_record\<lparr> Record_RevokedAt := Some 20 \<rparr>))"
    by (simp add: grant_refused_iff ex_consent_cfg_def consent_New_def DefaultReGrantCooldown_def Let_def)
  from grant_partial[OF ex_consent_cfg_ok _ _ ex_draws, of "ex_consent_ctx 30" "UserID 1"
      "[ConsentPurposeDecision]" ConsentPurposeLogin "[]" ex_revoked_state] r
  show ?thesis by (auto simp: ex_revoked_get grant_refused_iff[of _ _ None] granted_view_def)
qed

section \<open>Revocations\<close>

definition revoke_spec :: "time \<Rightarrow> Record \<Rightarrow> Record" where
  "revoke_spec now r = (if Record_IsActive r now then r\<lparr> Record_RevokedAt := Some now \<rparr> else r)"

definition revoked_view ::
  "time \<Rightarrow> UserID \<Rightarrow> ConsentPurpose set \<Rightarrow> consent_store \<Rightarrow> ConsentScope \<Rightarrow> Record option" where
  "revoked_view now u P st s =
     (if Scope_UserID s = u \<and> Scope_Purpose s \<in> P then map_option (revoke_spec now) (consent_get st s)
      else consent_get st s)"

lemma revoke_spec_idem [simp]: "revoke_spec now (revoke_spec now r) = revoke_spec now r"
  by (simp add: revoke_spec_def Record_IsActive_def)

lemma revoke_spec_inactive [simp]: "\<not> Record_IsActive (revoke_spec now r) t \<or> \<not> Record_IsActive r now"
  by (simp add: revoke_spec_def Record_IsActive_def)

lemma tryRevokeScopeTx_eq:
  assumes "\<not> time_IsZero now"
  shows "tryRevokeScopeTx st s now =
    (case consent_get st s of
       None \<Rightarrow> (st, Inr (None, False))
     | Some r \<Rightarrow>
         if Record_IsActive r now
         then (consent_put st s (revoke_spec now r), Inr (Some (revoke_spec now r), True))
         else (st, Inr (Some r, False)))"
  using assms
  by (auto simp: tryRevokeScopeTx_def ConsentStore_Execute_eq CanRevoke_IsActive Record_RevokeAt_def
      revoke_spec_def err_simps split: option.splits)

lemma revoke_loop:
  assumes "\<not> time_IsZero now" "\<not> UserID_IsNil u" "\<forall>p \<in> set ps. ConsentPurpose_IsValid p"
  shows "\<exists>st' rs. forEachScope_loop u (revoke_scope now) ps (st, rv) = ((st', rv @ rs), Inr ()) \<and>
     consent_get st' = revoked_view now u (set ps) st \<and>
     set rs = {revoke_spec now r | r p. p \<in> set ps \<and> consent_get st (scope u p) = Some r \<and> Record_IsActive r now}"
  using assms(3)
proof (induction ps arbitrary: st rv)
  case Nil
  then show ?case by (auto simp: revoked_view_def)
next
  case (Cons p ps)
  let ?s = "scope u p"
  let ?hit = "\<exists>r. consent_get st ?s = Some r \<and> Record_IsActive r now"
  obtain st1 r1 where step: "revoke_scope now ?s (st, rv) = ((st1, rv @ r1), Inr ())"
    and get: "\<And>s'. consent_get st1 s' = (if s' = ?s then map_option (revoke_spec now) (consent_get st ?s)
                                          else consent_get st s')"
    and r1: "set r1 = {revoke_spec now r | r. consent_get st ?s = Some r \<and> Record_IsActive r now}"
  proof (cases ?hit)
    case True
    then obtain r where "consent_get st ?s = Some r" "Record_IsActive r now" by blast
    then show thesis
      by (intro that[of "consent_put st ?s (revoke_spec now r)" "[revoke_spec now r]"])
        (simp_all add: revoke_scope_def tryRevokeScopeTx_eq[OF assms(1)] kv_simps)
  next
    case False
    then have "map_option (revoke_spec now) (consent_get st ?s) = consent_get st ?s"
      by (cases "consent_get st ?s") (simp_all add: revoke_spec_def)
    with False show thesis
      by (intro that[of st "[]"])
        (auto simp: revoke_scope_def tryRevokeScopeTx_eq[OF assms(1)] split: option.splits)
  qed
  from Cons.IH[of st1 "rv @ r1"] Cons.prems obtain st' rs where
    ih: "forEachScope_loop u (revoke_scope now) ps (st1, rv @ r1) = ((st', (rv @ r1) @ rs), Inr ())"
      "consent_get st' = revoked_view now u (set ps) st1"
      "set rs = {revoke_spec now r | r q. q \<in> set ps \<and> consent_get st1 (scope u q) = Some r \<and> Record_IsActive r now}"
    by auto
  have view: "consent_get st' = revoked_view now u (set (p # ps)) st"
  proof
    fix s'
    show "consent_get st' s' = revoked_view now u (set (p # ps)) st s'"
    proof (cases "s' = ?s")
      case True
      then show ?thesis by (cases "consent_get st ?s") (simp_all add: ih(2) revoked_view_def get)
    next
      case False
      then have "Scope_UserID s' = u \<Longrightarrow> Scope_Purpose s' \<noteq> p" by (auto simp: scope_eq_iff)
      with False show ?thesis by (auto simp: ih(2) revoked_view_def get)
    qed
  qed
  have "set (r1 @ rs) =
      {revoke_spec now r | r q. q \<in> set (p # ps) \<and> consent_get st (scope u q) = Some r \<and> Record_IsActive r now}"
    (is "_ = ?R")
  proof -
    have "\<not> Record_IsActive r now" if "consent_get st1 ?s = Some r" for r
      using that get[of ?s] by (auto simp: revoke_spec_def Record_IsActive_def split: if_splits)
    then have "set rs = {revoke_spec now r | r q. q \<in> set ps - {p} \<and> consent_get st (scope u q) = Some r \<and>
        Record_IsActive r now}"
      unfolding ih(3) by (auto simp: get split: if_splits)
    then show ?thesis by (auto simp: r1)
  qed
  with step ih(1) view show ?case
    using Cons.prems assms(2) by (auto simp: scopeForPurpose_ok)
qed

lemma Revoke_effect:
  assumes "\<not> time_IsZero (ctx_Now c)" "\<not> UserID_IsNil u" "\<forall>p \<in> set ps. ConsentPurpose_IsValid p"
    and "ctx_ErrEntry c = None" "ctx_ErrLocked c = None"
  shows "\<exists>st' rs. Revoke c u ps st = (st', Inr rs) \<and>
     consent_get (cs_store st') = revoked_view (ctx_Now c) u (set ps) (cs_store st) \<and>
     set rs = {revoke_spec (ctx_Now c) r | r p. p \<in> set ps \<and> consent_get (cs_store st) (scope u p) = Some r \<and>
                 Record_IsActive r (ctx_Now c)}"
proof -
  have "validatePurposes ps = None" using assms(3) by (simp add: validatePurposes_None)
  with revoke_loop[OF assms(1-3), of "cs_store st" "[]"] assms(2,4,5) show ?thesis
    by (auto simp: Revoke_def forEachScope_def withUserTx_def run_in_tx_def)
qed

section \<open>Requiring consent\<close>

lemma cs_store_Require [simp]: "cs_store (fst (Require c u p st)) = cs_store st"
  by (auto simp: Require_def recordConsentCheckOutcome_def emitAudit_def add_metric_def Let_def
      split: sum.splits)

lemma Require_eq:
  assumes "\<not> UserID_IsNil u" "ConsentPurpose_IsValid p"
  shows "snd (Require c u p st) =
    (case consent_get (cs_store st) (scope u p) of
       None \<Rightarrow> Some (dErrors_New CodeMissingConsent ''consent not granted for required purpose'')
     | Some r \<Rightarrow>
         if Record_RevokedAt r \<noteq> None then Some (dErrors_New CodeInvalidConsent ''consent revoked'')
         else if \<not> Record_IsActive r (ctx_Now c) then Some (dErrors_New CodeInvalidConsent ''consent expired'')
         else None)"
  using assms
  by (auto simp: Require_def NewConsentScope_def ConsentStore_FindByScope_def err_simps Record_ComputeStatus_def
      Record_IsActive_def Let_def split: option.splits)

section \<open>Runs of the service\<close>

text \<open>One request, with the parameters of the service fixed.\<close>

inductive consent_step :: "consent_config \<Rightarrow> UserID \<Rightarrow> consent_state \<Rightarrow> consent_state \<Rightarrow> bool"
  for cfg :: consent_config where
  grant: "draws_ids ids \<Longrightarrow> consent_step cfg u st (fst (Grant cfg ids c u ps st))"
| revoke: "consent_step cfg u st (fst (Revoke c u ps st))"
| revoke_all: "consent_step cfg u st (fst (RevokeAll c u st))"
| delete_all: "consent_step cfg u st (fst (DeleteAll c u st))"
| list_all: "consent_step cfg u st (fst (List c u flt st))"
| require: "consent_step cfg u st (fst (Require c u p st))"

text \<open>Invariants of the store are carried through a transaction by its steps.\<close>

lemma forEachScope_loop_keeps:
  assumes "\<And>sc s. I s \<Longrightarrow> Scope_UserID sc = u \<Longrightarrow> I (fst (fn sc s))" and "I s"
  shows "I (fst (forEachScope_loop u fn ps s))"
  using assms(2)
proof (induction ps arbitrary: s)
  case (Cons p ps)
  show ?case
  proof (cases "scopeForPurpose u p")
    case (Inr sc)
    then have "Scope_UserID sc = u"
      by (auto simp: scopeForPurpose_def NewConsentScope_def split: if_splits)
    with assms(1)[OF Cons.prems] have "I (fst (fn sc s))" .
    with Cons.IH Inr show ?thesis by (cases "fn sc s") (auto split: sum.splits)
  qed (use Cons.prems in simp)
qed simp

lemma run_in_tx_keeps: "I s \<Longrightarrow> I (fst (fn s)) \<Longrightarrow> I (fst (run_in_tx c fn s))"
  by (simp add: run_in_tx_def split: option.split)

definition other_users :: "UserID \<Rightarrow> consent_store \<Rightarrow> consent_store \<Rightarrow> bool" where
  "other_users u st st' = (\<forall>s. Scope_UserID s \<noteq> u \<longrightarrow> consent_get st' s = consent_get st s)"

lemma other_users_refl [simp]: "other_users u st st"
  by (simp add: other_users_def)

lemma Save_keeps:
  "consents_ok st \<Longrightarrow> Record_ok r \<Longrightarrow> consents_ok (fst (ConsentStore_Save st r))"
  "other_users u st0 st \<Longrightarrow> Record_UserID r = u \<Longrightarrow> other_users u st0 (fst (ConsentStore_Save st r))"
  by (auto simp: ConsentStore_Save_eq other_users_def kv_simps scope_of_def scope_eq_iff
      split: option.split intro!: consents_ok_put)

lemma Execute_keeps:
  assumes "consents_ok st" and "\<And>r x. Record_ok r \<Longrightarrow> scope_of r = s \<Longrightarrow> v r = Inr x \<Longrightarrow> snd (m x r) \<Longrightarrow>
      Record_ok (fst (m x r)) \<and> scope_of (fst (m x r)) = s"
  shows "consents_ok (fst (ConsentStore_Execute st s v m))"
  using assms(1) consents_okD[OF assms(1)] assms(2)
  by (auto simp: ConsentStore_Execute_eq split: option.split sum.split intro!: consents_ok_put)

lemma Execute_other_users:
  "other_users u st0 st \<Longrightarrow> Scope_UserID s = u \<Longrightarrow> other_users u st0 (fst (ConsentStore_Execute st s v m))"
  by (auto simp: ConsentStore_Execute_eq other_users_def kv_simps split: option.split sum.split)

lemma createGrantTx_keeps:
  "consents_ok st \<Longrightarrow> consents_ok (fst (createGrantTx cfg i st s now))"
  "other_users u st0 st \<Longrightarrow> Scope_UserID s = u \<Longrightarrow> other_users u st0 (fst (createGrantTx cfg i st s now))"
proof -
  have r: "Record_ok r \<and> Record_UserID r = Scope_UserID s"
    if "NewRecord (ConsentID i) (Scope_UserID s) (Scope_Purpose s) now e = Inr r" for r e
    using NewRecord_ok[OF that] by simp
  show "consents_ok st \<Longrightarrow> consents_ok (fst (createGrantTx cfg i st s now))"
    using Save_keeps(1) r by (auto simp: createGrantTx_def split: sum.split prod.split option.split dest!: r) (metis fst_conv)+
  show "other_users u st0 st \<Longrightarrow> Scope_UserID s = u \<Longrightarrow> other_users u st0 (fst (createGrantTx cfg i st s now))"
    using Save_keeps(2) r by (auto simp: createGrantTx_def split: sum.split prod.split option.split dest!: r) (metis fst_conv)+
qed

lemma EvaluateGrant_keeps:
  "Record_EvaluateGrant r now w k t = Inr ev \<Longrightarrow> Eval_Changed ev \<Longrightarrow> Record_ok r \<Longrightarrow>
   Record_ok (the (Eval_Updated ev)) \<and> scope_of (the (Eval_Updated ev)) = scope_of r"
  by (auto simp: Record_EvaluateGrant_def Let_def scope_of_def split: if_splits sum.splits dest: RenewAt_ok)

text \<open>The callbacks of the grant.\<close>

abbreviation grant_validate :: "consent_config \<Rightarrow> ctx \<Rightarrow> Record \<Rightarrow> GrantEvaluation result" where
  "grant_validate cfg c existing \<equiv> Record_EvaluateGrant existing (ctx_Now c) (cc_grantIdempotencyWindow cfg)
     (cc_reGrantCooldown cfg) (cc_consentTTL cfg)"

abbreviation grant_mutate :: "GrantEvaluation \<Rightarrow> Record \<Rightarrow> Record \<times> bool" where
  "grant_mutate eval existing \<equiv> if \<not> Eval_Changed eval then (existing, False) else (the (Eval_Updated eval), True)"

lemma upsertGrantTx_loop_keeps:
  assumes "\<And>st. I st \<Longrightarrow> I (fst (ConsentStore_Execute st s (grant_validate cfg c) grant_mutate))"
    and "\<And>st i. I st \<Longrightarrow> I (fst (createGrantTx cfg i st s (ctx_Now c)))" and "I st"
  shows "I (fst (upsertGrantTx_loop cfg ids c n st s))"
  using assms(3)
proof (induction n arbitrary: st)
  case (Suc n)
  obtain st1 r where x: "ConsentStore_Execute st s (grant_validate cfg c) grant_mutate = (st1, r)" by fastforce
  obtain st2 r2 where cr: "createGrantTx cfg (ids s n) st1 s (ctx_Now c) = (st2, r2)" by fastforce
  have I1: "I st1" using assms(1)[OF Suc.prems] x by simp
  have I2: "I st2" using assms(2)[OF I1, of "ids s n"] cr by simp
  show ?case
  proof (cases r)
    case (Inl e)
    with x cr I1 I2 Suc.IH[OF I2] show ?thesis by (cases r2) (simp_all add: Let_def)
  next
    case (Inr q)
    with x I1 show ?thesis by (cases q) (simp add: Let_def)
  qed
qed simp

lemma grant_execute_ok:
  assumes "consents_ok st"
  shows "consents_ok (fst (ConsentStore_Execute st s (grant_validate cfg c) grant_mutate))"
proof -
  have "Record_ok (fst (grant_mutate ev q)) \<and> scope_of (fst (grant_mutate ev q)) = s"
    if "Record_ok q" "scope_of q = s" "grant_validate cfg c q = Inr ev" "snd (grant_mutate ev q)" for q ev
    using EvaluateGrant_keeps[OF that(3)] that by (simp split: if_splits)
  from Execute_keeps[OF assms, of s "grant_validate cfg c" grant_mutate, OF this] show ?thesis .
qed

lemma grant_scope_keeps:
  "consents_ok (fst s) \<Longrightarrow> consents_ok (fst (fst (grant_scope cfg ids c sc s)))"
  "other_users u st0 (fst s) \<Longrightarrow> Scope_UserID sc = u \<Longrightarrow> other_users u st0 (fst (fst (grant_scope cfg ids c sc s)))"
proof -
  have f: "fst (fst (grant_scope cfg ids c sc s)) = fst (upsertGrantTx_loop cfg ids c 2 (fst s) sc)"
    by (auto simp: grant_scope_def upsertGrantTx_def split: prod.split sum.split)
  show "consents_ok (fst s) \<Longrightarrow> consents_ok (fst (fst (grant_scope cfg ids c sc s)))"
    unfolding f by (rule upsertGrantTx_loop_keeps[OF grant_execute_ok createGrantTx_keeps(1)])
  show "other_users u st0 (fst s) \<Longrightarrow> Scope_UserID sc = u \<Longrightarrow> other_users u st0 (fst (fst (grant_scope cfg ids c sc s)))"
    unfolding f by (rule upsertGrantTx_loop_keeps[OF Execute_other_users createGrantTx_keeps(2)])
qed

lemma revoke_scope_keeps:
  "consents_ok (fst s) \<Longrightarrow> consents_ok (fst (fst (revoke_scope now sc s)))"
  "other_users u st0 (fst s) \<Longrightarrow> Scope_UserID sc = u \<Longrightarrow> other_users u st0 (fst (fst (revoke_scope now sc s)))"
proof -
  let ?v = "\<lambda>existing. if \<not> Record_CanRevoke existing now then Inr None
    else (case Record_RevokeAt existing now of Inl e \<Rightarrow> Inl e | Inr updated \<Rightarrow> Inr (Some updated))"
  let ?m = "\<lambda>updated existing. case updated of None \<Rightarrow> (existing, False) | Some u \<Rightarrow> (u, True)"
  have f: "fst (fst (revoke_scope now sc s)) = fst (ConsentStore_Execute (fst s) sc ?v ?m)"
    by (cases "ConsentStore_Execute (fst s) sc ?v ?m")
      (auto simp: revoke_scope_def tryRevokeScopeTx_def split: prod.split sum.split)
  have "Record_ok (fst (?m x q)) \<and> scope_of (fst (?m x q)) = sc"
    if "Record_ok q" "scope_of q = sc" "?v q = Inr x" "snd (?m x q)" for q and x :: "Record option"
    using that by (auto simp: Record_RevokeAt_def scope_of_def split: if_splits option.splits sum.splits)
  note k = Execute_keeps[of "fst s" sc ?v ?m, OF _ this]
  show "consents_ok (fst s) \<Longrightarrow> consents_ok (fst (fst (revoke_scope now sc s)))" unfolding f by (rule k)
  show "other_users u st0 (fst s) \<Longrightarrow> Scope_UserID sc = u \<Longrightarrow> other_users u st0 (fst (fst (revoke_scope now sc s)))"
    unfolding f by (rule Execute_other_users)
qed

lemma RevokeAllByUser_keeps:
  "consents_ok st \<Longrightarrow> consents_ok (fst (ConsentStore_RevokeAllByUser st u now))"
  "other_users u st (fst (ConsentStore_RevokeAllByUser st u now))"
proof -
  let ?f = "\<lambda>(p, r). (p, if \<not> Record_CanRevoke r now then r else r\<lparr> Record_RevokedAt := Some now \<rparr>)"
  show "other_users u st (fst (ConsentStore_RevokeAllByUser st u now))"
    by (auto simp: ConsentStore_RevokeAllByUser_def other_users_def consent_get_def kv_simps split: option.split)
  assume ok: "consents_ok st"
  show "consents_ok (fst (ConsentStore_RevokeAllByUser st u now))"
  proof (cases "kv_get st u")
    case (Some m)
    with ok have m: "kv_ok m" "kv_all (\<lambda>p r. Record_UserID r = u \<and> Record_Purpose r = p \<and> Record_ok r) m"
      by (auto simp: consents_ok_def dest: kv_allD)
    have "map fst (map ?f m) = map fst m" by (simp add: comp_def case_prod_beta)
    with m(1) have "kv_ok (map ?f m)" by metis
    moreover have "kv_all (\<lambda>p r. Record_UserID r = u \<and> Record_Purpose r = p \<and> Record_ok r) (map ?f m)"
      using m(2) by (auto simp: kv_all_def)
    ultimately show ?thesis
      using ok Some by (auto simp: ConsentStore_RevokeAllByUser_def consents_ok_def intro!: kv_all_put)
  qed (use ok in \<open>simp add: ConsentStore_RevokeAllByUser_def\<close>)
qed

definition consent_keeps :: "UserID \<Rightarrow> consent_state \<Rightarrow> consent_state \<Rightarrow> bool" where
  "consent_keeps u st st' =
     ((consents_ok (cs_store st) \<longrightarrow> consents_ok (cs_store st')) \<and> other_users u (cs_store st) (cs_store st'))"

lemma consent_keeps_same: "cs_store st' = cs_store st \<Longrightarrow> consent_keeps u st st'"
  by (simp add: consent_keeps_def other_users_def)

lemma forEachScope_store:
  assumes "\<And>sc s. consents_ok (fst s) \<Longrightarrow> consents_ok (fst (fst (fn sc s)))"
    and "\<And>sc s. other_users u (fst sI) (fst s) \<Longrightarrow> Scope_UserID sc = u \<Longrightarrow> other_users u (fst sI) (fst (fst (fn sc s)))"
  shows "(consents_ok (fst sI) \<longrightarrow> consents_ok (fst (fst (forEachScope c u ps fn sI)))) \<and>
         other_users u (fst sI) (fst (fst (forEachScope c u ps fn sI)))"
proof -
  have "other_users u (fst sI) (fst sI)" by (simp add: other_users_def)
  then have "other_users u (fst sI) (fst (fst (forEachScope c u ps fn sI)))"
    unfolding forEachScope_def withUserTx_def
    by (intro run_in_tx_keeps[where I = "\<lambda>s. other_users u (fst sI) (fst s)"]
        forEachScope_loop_keeps[where I = "\<lambda>s. other_users u (fst sI) (fst s)"] assms(2))
  moreover have "consents_ok (fst sI) \<Longrightarrow> consents_ok (fst (fst (forEachScope c u ps fn sI)))"
    unfolding forEachScope_def withUserTx_def
    by (intro run_in_tx_keeps[where I = "\<lambda>s. consents_ok (fst s)"]
        forEachScope_loop_keeps[where I = "\<lambda>s. consents_ok (fst s)"] assms(1))
  ultimately show ?thesis by blast
qed

lemma Grant_keeps: "consent_keeps u st (fst (Grant cfg ids c u ps st))"
proof -
  obtain store g e r where x: "forEachScope c u ps (grant_scope cfg ids c) (cs_store st, [], []) = ((store, g, e), r)"
    by (metis prod.exhaust)
  have "consent_keeps u st (st\<lparr> cs_store := store \<rparr>)"
    using forEachScope_store[where fn = "grant_scope cfg ids c" and u = u and c = c and ps = ps and
        sI = "(cs_store st, [], [])", OF grant_scope_keeps(1) grant_scope_keeps(2)] x
    by (simp add: consent_keeps_def)
  with x show ?thesis
    by (auto simp: Grant_def consent_keeps_same consent_keeps_def split: option.split sum.split)
qed

lemma Revoke_keeps: "consent_keeps u st (fst (Revoke c u ps st))"
proof -
  obtain store g r where x: "forEachScope c u ps (revoke_scope (ctx_Now c)) (cs_store st, []) = ((store, g), r)"
    by (metis prod.exhaust)
  have "consent_keeps u st (st\<lparr> cs_store := store \<rparr>)"
    using forEachScope_store[where fn = "revoke_scope (ctx_Now c)" and u = u and c = c and ps = ps and
        sI = "(cs_store st, [])", OF revoke_scope_keeps(1) revoke_scope_keeps(2)] x
    by (simp add: consent_keeps_def)
  with x show ?thesis
    by (auto simp: Revoke_def consent_keeps_same consent_keeps_def split: option.split sum.split)
qed

lemma RevokeAll_keeps: "consent_keeps u st (fst (RevokeAll c u st))"
proof -
  obtain store n where x: "ConsentStore_RevokeAllByUser (cs_store st) u (ctx_Now c) = (store, n)" by fastforce
  note k = RevokeAllByUser_keeps[where st = "cs_store st" and u = u and now = "ctx_Now c"]
  have "consent_keeps u st (st\<lparr> cs_store := store \<rparr>)"
    using k x by (simp add: consent_keeps_def)
  with x show ?thesis
    by (auto simp: RevokeAll_def consent_keeps_same withUserTx_def run_in_tx_def Let_def emitAudit_def add_metric_def
        consent_keeps_def other_users_def split: option.split)
qed

lemma DeleteAll_keeps: "consent_keeps u st (fst (DeleteAll c u st))"
proof -
  have "kv_all P (kv_del m k)" if "kv_all P m" for P and m :: consent_store and k
    using that by (auto simp: kv_all_def AList.delete_eq)
  then have "consents_ok st \<Longrightarrow> consents_ok (kv_del st u)" for st
    by (auto simp: consents_ok_def kv_simps AList.distinct_delete)
  then show ?thesis
    by (auto simp: DeleteAll_def ConsentStore_DeleteByUser_def withUserTx_def run_in_tx_def emitAudit_def
        consent_keeps_def other_users_def consent_get_def kv_simps split: option.split)
qed

lemma consent_step_keeps: "consent_step cfg u st st' \<Longrightarrow> consent_keeps u st st'"
proof (induction rule: consent_step.induct)
  case (list_all u st c flt)
  show ?case by (rule consent_keeps_same) (simp add: List_def add_metric_def Let_def)
qed (simp_all add: Grant_keeps Revoke_keeps RevokeAll_keeps DeleteAll_keeps consent_keeps_same)

text \<open>A run: requests of users, in any order.\<close>

inductive consent_run :: "consent_config \<Rightarrow> UserID set \<Rightarrow> consent_state \<Rightarrow> consent_state \<Rightarrow> bool"
  for cfg :: consent_config and U :: "UserID set" where
  start: "consent_run cfg U st st"
| request: "consent_run cfg U st st' \<Longrightarrow> u \<in> U \<Longrightarrow> consent_step cfg u st' st'' \<Longrightarrow> consent_run cfg U st st''"

lemma consent_run_keeps:
  "consent_run cfg U st st' \<Longrightarrow> (consents_ok (cs_store st) \<longrightarrow> consents_ok (cs_store st')) \<and>
     (\<forall>s. Scope_UserID s \<notin> U \<longrightarrow> consent_get (cs_store st') s = consent_get (cs_store st) s)"
proof (induction rule: consent_run.induct)
  case (request st st' u st'')
  with consent_step_keeps[OF request.hyps(3)] show ?case
    by (auto simp: consent_keeps_def other_users_def)
qed simp

text \<open>\<^bold>\<open>C23\<close> Every run of the consent service keeps the store well formed (at most one record per
  user and purpose, each under its own scope and satisfying its invariant) and keeps users apart: the
  requests of some users never change a consent of a user outside them.\<close>

theorem consent_invariant:
  assumes "consent_run cfg U st st'" and "consents_ok (cs_store st)"
  shows "consents_ok (cs_store st') \<and>
         (\<forall>s. Scope_UserID s \<notin> U \<longrightarrow> consent_get (cs_store st') s = consent_get (cs_store st) s)"
  using consent_run_keeps[OF assms(1)] assms(2) by blast

theorem consent_invariant_witness:
  "consents_ok (cs_store ex_consent_state) \<and>
   consent_get (cs_store ex_consent_state) (scope (UserID 2) ConsentPurposeLogin) = None"
proof -
  have "consent_run ex_consent_cfg {UserID 1} consent_init ex_consent_state"
    unfolding ex_consent_state_def
    by (rule consent_run.request[OF consent_run.start]) (simp, rule consent_step.grant[OF ex_draws])
  moreover have "consents_ok (cs_store consent_init)" by (simp add: consent_init_def consents_ok_def kv_all_def)
  ultimately have i: "consents_ok (cs_store ex_consent_state) \<and> (\<forall>s. Scope_UserID s \<notin> {UserID 1} \<longrightarrow>
      consent_get (cs_store ex_consent_state) s = consent_get (cs_store consent_init) s)"
    by (rule consent_invariant)
  have "consent_get (cs_store consent_init) s = None" for s by (simp add: consent_init_def consent_get_def)
  with i show ?thesis by simp
qed

section \<open>What consent means to the services that require it\<close>

text \<open>\<^bold>\<open>C24\<close> Requiring consent: for a known user and purpose the check passes exactly when there is
  a record for them that is neither revoked nor expired; a missing record and one that is revoked or
  expired are told apart by their error codes; the check changes no consent, and records exactly one
  audit event, whose decision is \<^verbatim>\<open>granted\<close> exactly when the check passes.\<close>

theorem require_exact:
  assumes "\<not> UserID_IsNil u" and "ConsentPurpose_IsValid p" and "Require c u p st = (st', oe)"
  shows "(oe = None \<longleftrightarrow> (\<exists>r. consent_get (cs_store st) (scope u p) = Some r \<and> Record_IsActive r (ctx_Now c))) \<and>
         (consent_get (cs_store st) (scope u p) = None \<longleftrightarrow> (\<exists>e. oe = Some e \<and> HasCode e CodeMissingConsent)) \<and>
         (\<forall>e. oe = Some e \<longrightarrow> HasCode e CodeMissingConsent \<or> HasCode e CodeInvalidConsent) \<and>
         cs_store st' = cs_store st \<and>
         (\<exists>ev. cs_audit st' = cs_audit st @ [ev] \<and> CE_UserID ev = u \<and>
               (CE_Decision ev = AuditDecisionGranted \<longleftrightarrow> oe = None))"
proof -
  have oe: "oe = snd (Require c u p st)" and st': "st' = fst (Require c u p st)" using assms(3) by simp_all
  have "\<exists>ev. cs_audit st' = cs_audit st @ [ev] \<and> CE_UserID ev = u \<and> (CE_Decision ev = AuditDecisionGranted \<longleftrightarrow> oe = None)"
    using assms
    by (auto simp: Require_def NewConsentScope_def ConsentStore_FindByScope_def err_simps Let_def
        recordConsentCheckOutcome_def outcomeMissing_def outcomeRevoked_def outcomeExpired_def outcomePassed_def
        emitAudit_def add_metric_def AuditDecisionGranted_def AuditDecisionDenied_def
        split: option.splits if_splits)
  moreover have "oe = None \<longleftrightarrow> (\<exists>r. consent_get (cs_store st) (scope u p) = Some r \<and> Record_IsActive r (ctx_Now c))"
    unfolding oe Require_eq[OF assms(1,2)] by (auto simp: Record_IsActive_def split: option.split if_splits)
  moreover have "consent_get (cs_store st) (scope u p) = None \<longleftrightarrow> (\<exists>e. oe = Some e \<and> HasCode e CodeMissingConsent)"
    "\<forall>e. oe = Some e \<longrightarrow> HasCode e CodeMissingConsent \<or> HasCode e CodeInvalidConsent"
    unfolding oe Require_eq[OF assms(1,2)] by (auto simp: err_simps split: option.split if_splits)
  ultimately show ?thesis by (simp add: st')
qed

theorem require_exact_witness:
  "snd (Require (ex_consent_ctx 20) (UserID 1) ConsentPurposeLogin ex_consent_state) = None"
proof -
  have v: "\<not> UserID_IsNil (UserID 1)" "ConsentPurpose_IsValid ConsentPurposeLogin" by code_simp+
  from require_exact[OF v surjective_pairing, of "ex_consent_ctx 20" ex_consent_state] ex_consent_get show ?thesis
    by (simp add: Record_IsActive_def ex_consent_record_def)
qed

text \<open>\<^bold>\<open>C25\<close> A granted consent holds: after a grant for some purposes that met no cooldown, every
  later check of one of these purposes passes, as long as the record's time has not run out and no
  request of the user came in between, whatever the other users did.\<close>

theorem grant_then_require:
  assumes "consent_cfg_ok cfg" and "\<not> time_IsZero (ctx_Now c)" and "\<not> UserID_IsNil u" and "draws_ids ids"
    and "ctx_ErrEntry c = None" and "ctx_ErrLocked c = None" and "ps \<noteq> []"
    and "\<forall>p \<in> set ps. ConsentPurpose_IsValid p \<and>
           \<not> grant_refused cfg (ctx_Now c) (consent_get (cs_store st) (scope u p))"
    and "consent_run cfg U (fst (Grant cfg ids c u ps st)) st2" and "u \<notin> U"
    and "p \<in> set ps"
  shows "\<exists>r. consent_get (cs_store st2) (scope u p) = Some r \<and> Record_IsActive r (ctx_Now c) \<and>
     (\<forall>c2. (\<forall>t. Record_ExpiresAt r = Some t \<longrightarrow> ctx_Now c2 \<le> t) \<longrightarrow> snd (Require c2 u p st2) = None)"
proof -
  let ?r = "grant_spec cfg (new_id ids (scope u p)) (ctx_Now c) (scope u p) (consent_get (cs_store st) (scope u p))"
  obtain st' where g: "fst (Grant cfg ids c u ps st) = st'"
      "consent_get (cs_store st') = granted_view cfg ids (ctx_Now c) u ps (cs_store st)"
    using Grant_granted[OF assms(1-8)] by force
  have frame: "consent_get (cs_store st2) s = consent_get (cs_store st') s" if "Scope_UserID s \<notin> U" for s
    using consent_run_keeps[OF assms(9)[unfolded g(1)]] that by blast
  have get: "consent_get (cs_store st2) (scope u p) = Some ?r"
    using frame[of "scope u p"] assms(10,11) by (simp add: g(2) granted_view_def)
  have act: "Record_IsActive ?r (ctx_Now c)" using grant_spec_again(3)[OF assms(1)] assms(8,11) by blast
  have pv: "ConsentPurpose_IsValid p" using assms(8,11) by blast
  have "snd (Require c2 u p st2) = None" if "\<forall>t. Record_ExpiresAt ?r = Some t \<longrightarrow> ctx_Now c2 \<le> t" for c2
    unfolding Require_eq[OF assms(3) pv] get
    using act that by (auto simp: Record_IsActive_def split: option.splits if_splits)
  with get act show ?thesis by blast
qed

theorem grant_then_require_witness:
  "\<exists>r. consent_get (cs_store ex_consent_state) (scope (UserID 1) ConsentPurposeLogin) = Some r \<and>
     Record_IsActive r 10"
proof -
  have n: "consent_get (cs_store consent_init) s = None" for s by (simp add: consent_init_def consent_get_def)
  from grant_then_require[OF ex_consent_cfg_ok _ _ ex_draws, of "ex_consent_ctx 10" "UserID 1" "[ConsentPurposeLogin]"
      consent_init "{}" ex_consent_state ConsentPurposeLogin] consent_run.start
  show ?thesis by (auto simp: n grant_refused_iff ex_consent_state_def)
qed

text \<open>\<^bold>\<open>C26\<close> A revoked consent is withdrawn at once: after a revocation the check of every
  purpose named in it fails at all times, until the user grants again, and a grant that names one of
  the purposes that were active fails as long as the cooldown since the revocation lasts, leaving it
  revoked.\<close>

theorem revoke_withdraws:
  assumes "consent_cfg_ok cfg" and "\<not> time_IsZero (ctx_Now c)" and "\<not> UserID_IsNil u"
    and "\<forall>p \<in> set ps. ConsentPurpose_IsValid p" and "ctx_ErrEntry c = None" and "ctx_ErrLocked c = None"
    and "\<not> time_IsZero (ctx_Now c2)" and "draws_ids ids" and "p \<in> set ps"
    and "consent_get (cs_store st) (scope u p) = Some r" and "Record_IsActive r (ctx_Now c)"
    and "ctx_ErrEntry c2 = None" and "ctx_ErrLocked c2 = None"
    and "ctx_Now c2 < ctx_Now c + cc_reGrantCooldown cfg"
  shows "\<exists>st' rs st2. Revoke c u ps st = (st', Inr rs) \<and> r\<lparr> Record_RevokedAt := Some (ctx_Now c) \<rparr> \<in> set rs \<and>
     Grant cfg ids c2 u [p] st' = (st2, Inl regrant_error) \<and>
     (\<forall>c3. \<exists>e. snd (Require c3 u p st') = Some e \<and> snd (Require c3 u p st2) = Some e \<and> HasCode e CodeInvalidConsent)"
proof -
  let ?r = "r\<lparr> Record_RevokedAt := Some (ctx_Now c) \<rparr>"
  from Revoke_effect[OF assms(2-6), of st] obtain st' rs where rv: "Revoke c u ps st = (st', Inr rs)"
    and view: "consent_get (cs_store st') = revoked_view (ctx_Now c) u (set ps) (cs_store st)"
    and rs: "set rs = {revoke_spec (ctx_Now c) r | r p. p \<in> set ps \<and> consent_get (cs_store st) (scope u p) = Some r \<and>
                 Record_IsActive r (ctx_Now c)}" by blast
  have spec: "revoke_spec (ctx_Now c) r = ?r" using assms(11) by (simp add: revoke_spec_def)
  have get: "consent_get (cs_store st') (scope u p) = Some ?r"
    using assms(9,10) spec by (simp add: view revoked_view_def)
  have pv: "ConsentPurpose_IsValid p" using assms(4,9) by blast
  have ref: "grant_refused cfg (ctx_Now c2) (Some ?r)" using assms(14) by (simp add: grant_refused_iff)
  have ok: "scope_ok (scope u p)" "new_id ids (scope u p) \<noteq> 0"
    using assms(3,8) pv by (simp_all add: scope_ok_def draws_ids_def new_id_def)
  have g: "Grant cfg ids c2 u [p] st' = (st', Inl regrant_error)"
    using upsertGrantTx_eq[OF assms(1,7) ok(1), of ids "cs_store st'", OF ok(2)] ref get pv
    by (subst Grant_unfold[OF assms(3) _ _ assms(12,13)])
      (simp_all add: scopeForPurpose_ok[OF assms(3)] grant_scope_def)
  have q: "snd (Require c3 u p st') = Some (dErrors_New CodeInvalidConsent ''consent revoked'')" for c3
    unfolding Require_eq[OF assms(3) pv] get by simp
  have "?r \<in> set rs" unfolding rs using assms(9-11) spec by force
  with rv g q show ?thesis by (auto simp: err_simps)
qed

theorem revoke_withdraws_witness:
  "\<exists>e. snd (Grant ex_consent_cfg (\<lambda>_ _. 7) (ex_consent_ctx 30) (UserID 1) [ConsentPurposeLogin] ex_revoked_state) = Inl e"
proof -
  have "ctx_Now (ex_consent_ctx 30) < ctx_Now (ex_consent_ctx 20) + cc_reGrantCooldown ex_consent_cfg"
    by (simp add: ex_consent_cfg_def consent_New_def DefaultReGrantCooldown_def Let_def)
  from revoke_withdraws[OF ex_consent_cfg_ok, of "ex_consent_ctx 20" "UserID 1" "[ConsentPurposeLogin]" "ex_consent_ctx 30"
      "\<lambda>_ _. 7" ConsentPurposeLogin ex_consent_state, OF _ _ _ _ _ _ ex_draws _ ex_consent_get _ _ _ this]
  show ?thesis by (auto simp: ex_consent_record_def Record_IsActive_def ex_revoked_state_def)
qed

text \<open>Revoking everything: all consents of the user that were active are revoked and
  counted, those that were expired or revoked are left alone, and afterwards no check for the user
  passes until a new grant.\<close>

lemma revoke_all_exact:
  assumes "consents_ok (cs_store st)" and "\<not> UserID_IsNil u"
    and "ctx_ErrEntry c = None" and "ctx_ErrLocked c = None" and "RevokeAll c u st = (st', Inr n)"
  shows "consent_get (cs_store st') = revoked_view (ctx_Now c) u UNIV (cs_store st) \<and>
         n = length (filter (\<lambda>r. Record_IsActive r (ctx_Now c)) (ConsentStore_ListByUser (cs_store st) u None)) \<and>
         (\<forall>c2 p. ctx_Now c \<le> ctx_Now c2 \<longrightarrow> ConsentPurpose_IsValid p \<longrightarrow> snd (Require c2 u p st') \<noteq> None)"
proof -
  obtain store where s: "ConsentStore_RevokeAllByUser (cs_store st) u (ctx_Now c) = (store, n)"
    and st': "cs_store st' = store"
    using assms(2-5)
    by (auto simp: RevokeAll_def withUserTx_def run_in_tx_def Let_def emitAudit_def add_metric_def
        split: prod.splits if_splits)
  have m: "map_of (map (\<lambda>(p, r). (p, f r)) m) k = map_option f (map_of m k)" for f :: "Record \<Rightarrow> Record"
      and m :: "(ConsentPurpose, Record) kv" and k
    by (induction m) auto
  have view: "consent_get (cs_store st') = revoked_view (ctx_Now c) u UNIV (cs_store st)"
  proof
    fix sc
    have f: "(\<lambda>(p, r). (p, if \<not> Record_CanRevoke r (ctx_Now c) then r else r\<lparr> Record_RevokedAt := Some (ctx_Now c) \<rparr>)) =
        (\<lambda>(p :: ConsentPurpose, r). (p, revoke_spec (ctx_Now c) r))"
      by (auto simp: fun_eq_iff CanRevoke_IsActive revoke_spec_def)
    show "consent_get (cs_store st') sc = revoked_view (ctx_Now c) u UNIV (cs_store st) sc"
      using s unfolding st' ConsentStore_RevokeAllByUser_def f
      by (auto simp: consent_get_def revoked_view_def kv_simps m split: option.splits)
  qed
  have n: "n = length (filter (\<lambda>r. Record_IsActive r (ctx_Now c)) (ConsentStore_ListByUser (cs_store st) u None))"
    using s by (auto simp: ConsentStore_RevokeAllByUser_def ConsentStore_ListByUser_def CanRevoke_IsActive
        kv_values_def split: option.splits)
  have "snd (Require c2 u p st') \<noteq> None" if "ctx_Now c \<le> ctx_Now c2" "ConsentPurpose_IsValid p" for c2 p
    unfolding Require_eq[OF assms(2) that(2)] view revoked_view_def
    using that(1) by (auto simp: revoke_spec_def Record_IsActive_def split: option.splits if_splits)
  with view n show ?thesis by blast
qed

lemma revoke_all_exact_witness:
  "\<exists>st'. RevokeAll (ex_consent_ctx 20) (UserID 1) ex_consent_state = (st', Inr 1) \<and>
     snd (Require (ex_consent_ctx 30) (UserID 1) ConsentPurposeLogin st') \<noteq> None"
proof -
  have ok: "consents_ok (cs_store ex_consent_state)" by code_simp
  have "snd (RevokeAll (ex_consent_ctx 20) (UserID 1) ex_consent_state) = Inr 1" by code_simp
  then obtain st' where r: "RevokeAll (ex_consent_ctx 20) (UserID 1) ex_consent_state = (st', Inr 1)"
    by (metis prod.collapse)
  from revoke_all_exact[OF ok _ _ _ r] r show ?thesis by auto
qed

end
