(* ===== verification/Consent_Handler.thy ===== *)
theory Consent_Handler
  imports Consent_Properties Http
begin

text \<open>
  The HTTP endpoints of consent (\<^verbatim>\<open>internal/consent/handler\<close>): the requests with their
  normalisation and validation, the responses, and the handlers over the service. A handler takes the
  user of the request's context and the decoded body. Of latency metrics and logs nothing is kept.
\<close>

section \<open>Requests\<close>

fun dedupePurposes_loop :: "string list \<Rightarrow> string list \<Rightarrow> string list" where
  "dedupePurposes_loop seen [] = []"
| "dedupePurposes_loop seen (p # ps) =
     (let normalized = TrimSpace p in
      if normalized \<in> set seen then dedupePurposes_loop seen ps
      else normalized # dedupePurposes_loop (normalized # seen) ps)"

definition dedupePurposes :: "string list \<Rightarrow> string list" where
  "dedupePurposes purposes = dedupePurposes_loop [] purposes"

definition handler_validatePurposes :: "string list \<Rightarrow> go_error option" where
  "handler_validatePurposes purposes =
     (if length purposes > MaxPurposes
      then Some (dErrors_New CodeValidation (''too many purposes: max '' @ itoa MaxPurposes @ '' allowed''))
      else if length purposes = 0 then Some (dErrors_New CodeValidation ''purposes are required'')
      else first_error (\<lambda>p.
             if p = [] then Some (dErrors_New CodeValidation ''invalid purpose'')
             else case ParseConsentPurpose p of
                    Inl _ \<Rightarrow> Some (dErrors_New CodeValidation ''invalid purpose'') | Inr _ \<Rightarrow> None) purposes)"

fun toDomainPurposes :: "string list \<Rightarrow> ConsentPurpose list result" where
  "toDomainPurposes [] = Inr []"
| "toDomainPurposes (p # ps) =
     (case ParseConsentPurpose p of
        Inl e \<Rightarrow> Inl e
      | Inr purpose \<Rightarrow> (case toDomainPurposes ps of Inl e \<Rightarrow> Inl e | Inr parsed \<Rightarrow> Inr (purpose # parsed)))"

text \<open>The requests to grant and to revoke hold a list of purposes, and have the same methods.\<close>

record GrantRequest =
  greq_Purposes :: "string list"

record RevokeRequest =
  rreq_Purposes :: "string list"

definition GrantRequest_Normalize :: "GrantRequest \<Rightarrow> GrantRequest" where
  "GrantRequest_Normalize r = r\<lparr> greq_Purposes := dedupePurposes (greq_Purposes r) \<rparr>"

definition GrantRequest_Validate :: "GrantRequest \<Rightarrow> go_error option" where
  "GrantRequest_Validate r = handler_validatePurposes (greq_Purposes r)"

definition GrantRequest_ToPurposes :: "GrantRequest \<Rightarrow> ConsentPurpose list result" where
  "GrantRequest_ToPurposes r = toDomainPurposes (greq_Purposes r)"

definition RevokeRequest_Normalize :: "RevokeRequest \<Rightarrow> RevokeRequest" where
  "RevokeRequest_Normalize r = r\<lparr> rreq_Purposes := dedupePurposes (rreq_Purposes r) \<rparr>"

definition RevokeRequest_Validate :: "RevokeRequest \<Rightarrow> go_error option" where
  "RevokeRequest_Validate r = handler_validatePurposes (rreq_Purposes r)"

definition RevokeRequest_ToPurposes :: "RevokeRequest \<Rightarrow> ConsentPurpose list result" where
  "RevokeRequest_ToPurposes r = toDomainPurposes (rreq_Purposes r)"

definition parseRecordFilter :: "string \<Rightarrow> string \<Rightarrow> RecordFilter option result" where
  "parseRecordFilter status purpose =
     (let status = TrimSpace status; purpose = TrimSpace purpose in
      case (if status \<noteq> [] then (case ParseStatus status of
                Inl _ \<Rightarrow> Inl (dErrors_New CodeValidation ''invalid status filter'')
              | Inr s \<Rightarrow> Inr (Some s)) else Inr None) of
        Inl e \<Rightarrow> Inl e
      | Inr filter_Status \<Rightarrow>
          (case (if purpose \<noteq> [] then (case ParseConsentPurpose purpose of
                    Inl _ \<Rightarrow> Inl (dErrors_New CodeValidation ''invalid purpose filter'')
                  | Inr p \<Rightarrow> Inr (Some p)) else Inr None) of
             Inl e \<Rightarrow> Inl e
           | Inr filter_Purpose \<Rightarrow>
               if filter_Status = None \<and> filter_Purpose = None then Inr None
               else Inr (Some \<lparr> Filter_Purpose = filter_Purpose, Filter_Status = filter_Status \<rparr>)))"

section \<open>Responses\<close>

record Grant_dto =
  grant_Purpose :: ConsentPurpose
  grant_GrantedAt :: time
  grant_ExpiresAt :: "time option"
  grant_Status :: Status

record GrantResponse =
  gresp_Granted :: "Grant_dto list"
  gresp_Message :: string

record Revoked_dto =
  revoked_Purpose :: ConsentPurpose
  revoked_RevokedAt :: time
  revoked_Status :: Status

record RevokeResponse =
  rresp_Revoked :: "Revoked_dto list"
  rresp_Message :: string

record ConsentWithStatus =
  cws_ID :: string
  cws_Purpose :: ConsentPurpose
  cws_GrantedAt :: time
  cws_ExpiresAt :: "time option"
  cws_RevokedAt :: "time option"
  cws_Status :: Status

text \<open>The two templates in use have the count before the final word.\<close>

definition formatActionMessage :: "string \<Rightarrow> nat \<Rightarrow> string" where
  "formatActionMessage verb n =
     ''Consent '' @ verb @ '' for '' @ itoa n @ '' purpose'' @ (if n = 1 then [] else ''s'')"

definition toGrantResponse :: "Record list \<Rightarrow> time \<Rightarrow> GrantResponse" where
  "toGrantResponse records now =
     \<lparr> gresp_Granted = map (\<lambda>record.
         \<lparr> grant_Purpose = Record_Purpose record, grant_GrantedAt = Record_GrantedAt record,
           grant_ExpiresAt = Record_ExpiresAt record, grant_Status = Record_ComputeStatus record now \<rparr>) records,
       gresp_Message = formatActionMessage ''granted'' (length records) \<rparr>"

definition toRevokeResponse :: "Record list \<Rightarrow> time \<Rightarrow> RevokeResponse" where
  "toRevokeResponse records now =
     (let revoked = map (\<lambda>record.
            \<lparr> revoked_Purpose = Record_Purpose record, revoked_RevokedAt = the (Record_RevokedAt record),
              revoked_Status = Record_ComputeStatus record now \<rparr>)
            (filter (\<lambda>record. Record_RevokedAt record \<noteq> None) records)
      in \<lparr> rresp_Revoked = revoked, rresp_Message = formatActionMessage ''revoked'' (length revoked) \<rparr>)"

definition toListResponse :: "(uuid \<Rightarrow> string) \<Rightarrow> Record list \<Rightarrow> time \<Rightarrow> ConsentWithStatus list" where
  "toListResponse uuid_String records now =
     map (\<lambda>record.
       \<lparr> cws_ID = (case Record_ID record of ConsentID u \<Rightarrow> uuid_String u), cws_Purpose = Record_Purpose record,
         cws_GrantedAt = Record_GrantedAt record, cws_ExpiresAt = Record_ExpiresAt record,
         cws_RevokedAt = Record_RevokedAt record, cws_Status = Record_ComputeStatus record now \<rparr>) records"

section \<open>Handlers\<close>

definition HandleGrantConsent ::
  "consent_config \<Rightarrow> consent_ids \<Rightarrow> ctx \<Rightarrow> UserID \<Rightarrow> GrantRequest option \<Rightarrow> consent_state
   \<Rightarrow> consent_state \<times> GrantResponse response" where
  "HandleGrantConsent cfg ids c ctxUserID decoded st =
     (case RequireUserID ctxUserID of
        Inl e \<Rightarrow> (st, WriteError e)
      | Inr userID \<Rightarrow>
          (case DecodeAndPrepare GrantRequest_Normalize GrantRequest_Validate decoded of
             Inl r \<Rightarrow> (st, r)
           | Inr grantReq \<Rightarrow>
               (case GrantRequest_ToPurposes grantReq of
                  Inl e \<Rightarrow> (st, WriteError (dErrors_New CodeValidation (error_Error e)))
                | Inr purposes \<Rightarrow>
                    (case Grant cfg ids c userID purposes st of
                       (st, Inl e) \<Rightarrow> (st, WriteError e)
                     | (st, Inr records) \<Rightarrow> (st, WriteJSON StatusOK (toGrantResponse records (ctx_Now c)))))))"

definition HandleRevokeConsent ::
  "ctx \<Rightarrow> UserID \<Rightarrow> RevokeRequest option \<Rightarrow> consent_state \<Rightarrow> consent_state \<times> RevokeResponse response" where
  "HandleRevokeConsent c ctxUserID decoded st =
     (case RequireUserID ctxUserID of
        Inl e \<Rightarrow> (st, WriteError e)
      | Inr userID \<Rightarrow>
          (case DecodeAndPrepare RevokeRequest_Normalize RevokeRequest_Validate decoded of
             Inl r \<Rightarrow> (st, r)
           | Inr revokeReq \<Rightarrow>
               (case RevokeRequest_ToPurposes revokeReq of
                  Inl e \<Rightarrow> (st, WriteError (dErrors_New CodeValidation (error_Error e)))
                | Inr purposes \<Rightarrow>
                    (case Revoke c userID purposes st of
                       (st, Inl e) \<Rightarrow> (st, WriteError e)
                     | (st, Inr records) \<Rightarrow> (st, WriteJSON StatusOK (toRevokeResponse records (ctx_Now c)))))))"

definition HandleRevokeAllConsents ::
  "ctx \<Rightarrow> UserID \<Rightarrow> consent_state \<Rightarrow> consent_state \<times> RevokeResponse response" where
  "HandleRevokeAllConsents c ctxUserID st =
     (case RequireUserID ctxUserID of
        Inl e \<Rightarrow> (st, WriteError e)
      | Inr userID \<Rightarrow>
          (case RevokeAll c userID st of
             (st, Inl e) \<Rightarrow> (st, WriteError e)
           | (st, Inr n) \<Rightarrow>
               (st, WriteJSON StatusOK \<lparr> rresp_Revoked = [], rresp_Message = formatActionMessage ''revoked'' n \<rparr>)))"

definition HandleAdminRevokeAllConsents ::
  "(string \<Rightarrow> uuid option) \<Rightarrow> ctx \<Rightarrow> bool \<Rightarrow> string \<Rightarrow> consent_state \<Rightarrow> consent_state \<times> RevokeResponse response" where
  "HandleAdminRevokeAllConsents uuid_Parse c isAdminRequest userIDStr st =
     (if \<not> isAdminRequest then (st, WriteError (dErrors_New CodeUnauthorized ''admin token required''))
      else case ParseUserID uuid_Parse userIDStr of
             Inl _ \<Rightarrow> (st, WriteError (dErrors_New CodeBadRequest ''invalid user id''))
           | Inr userID \<Rightarrow>
               (case RevokeAll c userID st of
                  (st, Inl e) \<Rightarrow> (st, WriteError e)
                | (st, Inr n) \<Rightarrow>
                    (st, WriteJSON StatusOK \<lparr> rresp_Revoked = [], rresp_Message = formatActionMessage ''revoked'' n \<rparr>)))"

definition HandleDeleteAllConsents :: "ctx \<Rightarrow> UserID \<Rightarrow> consent_state \<Rightarrow> consent_state \<times> string response" where
  "HandleDeleteAllConsents c ctxUserID st =
     (case RequireUserID ctxUserID of
        Inl e \<Rightarrow> (st, WriteError e)
      | Inr userID \<Rightarrow>
          (case DeleteAll c userID st of
             (st, Some e) \<Rightarrow> (st, WriteError e)
           | (st, None) \<Rightarrow> (st, WriteJSON StatusOK ''All consents deleted'')))"

definition HandleGetConsents ::
  "(uuid \<Rightarrow> string) \<Rightarrow> ctx \<Rightarrow> UserID \<Rightarrow> string \<Rightarrow> string \<Rightarrow> consent_state
   \<Rightarrow> consent_state \<times> ConsentWithStatus list response" where
  "HandleGetConsents uuid_String c ctxUserID status purpose st =
     (case RequireUserID ctxUserID of
        Inl e \<Rightarrow> (st, WriteError e)
      | Inr userID \<Rightarrow>
          (case parseRecordFilter status purpose of
             Inl e \<Rightarrow> (st, WriteError e)
           | Inr flt \<Rightarrow>
               (case List c userID flt st of
                  (st, Inl e) \<Rightarrow> (st, WriteError e)
                | (st, Inr records) \<Rightarrow>
                    (st, WriteJSON StatusOK (toListResponse uuid_String records (ctx_Now c))))))"

section \<open>Lemmas\<close>

lemma ParseConsentPurpose_valid: "ParseConsentPurpose s = Inr p \<Longrightarrow> ConsentPurpose_IsValid p"
  by (auto simp: ParseConsentPurpose_def Let_def split: if_splits)

lemma ParseConsentPurpose_inj:
  "ParseConsentPurpose s = Inr p \<Longrightarrow> ParseConsentPurpose t = Inr p \<Longrightarrow> s = t"
  by (auto simp: ParseConsentPurpose_def ConsentPurpose_of_def Let_def split: if_splits)

lemma dedupePurposes_loop_set: "set (dedupePurposes_loop seen ps) = TrimSpace ` set ps - set seen"
  by (induction seen ps rule: dedupePurposes_loop.induct) (auto simp: Let_def)

lemma dedupePurposes_loop_distinct: "distinct (dedupePurposes_loop seen ps)"
  by (induction seen ps rule: dedupePurposes_loop.induct) (auto simp: Let_def dedupePurposes_loop_set)

lemma toDomainPurposes_ok:
  assumes "\<forall>p \<in> set ps. \<exists>q. ParseConsentPurpose p = Inr q"
  shows "\<exists>qs. toDomainPurposes ps = Inr qs \<and> list_all2 (\<lambda>p q. ParseConsentPurpose p = Inr q) ps qs"
  using assms by (induction ps) (auto split: sum.splits)

lemma handler_purposes_ok:
  assumes "handler_validatePurposes ps = None" "distinct ps"
  shows "\<exists>qs. toDomainPurposes ps = Inr qs \<and> qs \<noteq> [] \<and> distinct qs \<and> length qs = length ps \<and>
           length qs \<le> 4 \<and> validatePurposes qs = None"
proof -
  have ps: "ps \<noteq> []" "\<forall>p \<in> set ps. \<exists>q. ParseConsentPurpose p = Inr q"
    using assms(1) by (auto simp: handler_validatePurposes_def first_error_None_iff split: if_splits sum.splits)
      (meson sum.exhaust)
  from toDomainPurposes_ok[OF ps(2)] obtain qs where qs: "toDomainPurposes ps = Inr qs"
      "list_all2 (\<lambda>p q. ParseConsentPurpose p = Inr q) ps qs" by blast
  have len: "length qs = length ps" using list_all2_lengthD[OF qs(2)] by simp
  have nth: "ParseConsentPurpose (ps ! i) = Inr (qs ! i)" if "i < length qs" for i
    using qs(2) that len by (simp add: list_all2_conv_all_nth)
  have d: "distinct qs"
    unfolding distinct_conv_nth using nth assms(2) len by (metis ParseConsentPurpose_inj distinct_conv_nth)
  have v: "\<forall>q \<in> set qs. ConsentPurpose_IsValid q"
    using nth ParseConsentPurpose_valid by (metis in_set_conv_nth)
  have "length qs = card (set qs)" using d by (simp add: distinct_card)
  also have "\<dots> \<le> card (set validConsentPurposes)"
    using v by (intro card_mono) (auto simp: ConsentPurpose_IsValid_def)
  also have "\<dots> \<le> 4" by (simp add: validConsentPurposes_def)
  finally show ?thesis using qs(1) d v len ps(1) by (auto simp: validatePurposes_None)
qed

text \<open>The endpoint's checks cover the service's: for an authenticated user, a grant request
  that passes preparation reaches the service with at least one and at most four distinct, valid
  purposes, so that of the service's own checks none can fail and the only domain error left is the
  cooldown; the answer is then 200 with one entry per purpose, or 400.\<close>

lemma grant_endpoint_covers_service:
  assumes "consent_cfg_ok cfg" and "\<not> time_IsZero (ctx_Now c)" and "\<not> UserID_IsNil u" and "draws_ids ids"
    and "ctx_ErrEntry c = None" and "ctx_ErrLocked c = None" and "consents_ok (cs_store st)"
    and "GrantRequest_Validate (GrantRequest_Normalize req) = None"
    and "HandleGrantConsent cfg ids c u (Some req) st = (st', resp)"
  shows "\<exists>ps. GrantRequest_ToPurposes (GrantRequest_Normalize req) = Inr ps \<and> ps \<noteq> [] \<and> distinct ps \<and> length ps \<le> 4 \<and>
     ((\<exists>p \<in> set ps. grant_refused cfg (ctx_Now c) (consent_get (cs_store st) (scope u p))) \<and>
        resp = WriteError regrant_error \<and> resp_Status resp = StatusBadRequest \<or>
      (\<exists>g. resp = WriteJSON StatusOK g \<and> map grant_Purpose (gresp_Granted g) = ps \<and>
           (\<forall>x \<in> set (gresp_Granted g). grant_Status x = StatusActive)))"
proof -
  let ?req = "GrantRequest_Normalize req" and ?now = "ctx_Now c"
  have "distinct (greq_Purposes ?req)"
    by (simp add: GrantRequest_Normalize_def dedupePurposes_def dedupePurposes_loop_distinct)
  from handler_purposes_ok[OF _ this] assms(8) obtain ps where
    ps: "GrantRequest_ToPurposes ?req = Inr ps" "ps \<noteq> []" "distinct ps" "length ps \<le> 4" "validatePurposes ps = None"
    by (auto simp: GrantRequest_Validate_def GrantRequest_ToPurposes_def)
  have v: "\<forall>p \<in> set ps. ConsentPurpose_IsValid p" using ps(5) by (simp add: validatePurposes_None)
  have h: "HandleGrantConsent cfg ids c u (Some req) st =
      (case Grant cfg ids c u ps st of
         (st, Inl e) \<Rightarrow> (st, WriteError e)
       | (st, Inr records) \<Rightarrow> (st, WriteJSON StatusOK (toGrantResponse records ?now)))"
    using assms(3,8) ps(1) by (simp add: HandleGrantConsent_def RequireUserID_def DecodeAndPrepare_def PrepareRequest_def)
  let ?R = "\<lambda>p. grant_refused cfg ?now (consent_get (cs_store st) (scope u p))"
  show ?thesis
  proof (cases "\<exists>p \<in> set ps. ?R p")
    case True
    then obtain as q bs where q: "ps = as @ q # bs" "?R q" "\<forall>p \<in> set as. \<not> ?R p"
      using split_list_first_prop[of ps ?R] by blast
    from Grant_refused[OF assms(1-6) v[unfolded q(1)] q(3,2)] q(1)
    have "\<exists>st'. Grant cfg ids c u ps st = (st', Inl regrant_error)" by blast
    with h assms(9) have "resp = WriteError regrant_error" by auto
    with ps True show ?thesis by (auto simp: regrant_error_def)
  next
    case False
    let ?G = "\<lambda>p. grant_spec cfg (new_id ids (scope u p)) ?now (scope u p) (consent_get (cs_store st) (scope u p))"
    from Grant_granted[OF assms(1-6) ps(2)] v False have
      "\<exists>st'. Grant cfg ids c u ps st = (st', Inr (map ?G ps))" by blast
    with h assms(9) have r: "resp = WriteJSON StatusOK (toGrantResponse (map ?G ps) ?now)" by auto
    have g: "Record_Purpose (?G p) = p \<and> Record_ComputeStatus (?G p) ?now = StatusActive" if "p \<in> set ps" for p
    proof -
      have "Record_Purpose r = p" if "consent_get (cs_store st) (scope u p) = Some r" for r
        using consents_okD(1)[OF assms(7) that] by (simp add: scope_of_def)
      then have "Record_Purpose (?G p) = p" by (auto simp: grant_spec_def split: option.split)
      with grant_spec_again(3)[OF assms(1)] False that show ?thesis by simp
    qed
    then have "map grant_Purpose (gresp_Granted (toGrantResponse (map ?G ps) ?now)) = ps"
      by (simp add: toGrantResponse_def comp_def map_idI)
    moreover from g have "\<forall>x \<in> set (gresp_Granted (toGrantResponse (map ?G ps) ?now)). grant_Status x = StatusActive"
      by (auto simp: toGrantResponse_def)
    ultimately show ?thesis using ps r by blast
  qed
qed

lemma grant_endpoint_covers_service_witness:
  "\<exists>g. snd (HandleGrantConsent ex_consent_cfg (\<lambda>_ _. 7) (ex_consent_ctx 10) (UserID 1)
         (Some \<lparr> greq_Purposes = ['' login'', ''login''] \<rparr>) consent_init) = WriteJSON StatusOK g"
proof -
  let ?req = "\<lparr> greq_Purposes = ['' login'', ''login''] \<rparr>"
  have v: "GrantRequest_Validate (GrantRequest_Normalize ?req) = None" by code_simp
  have p: "GrantRequest_ToPurposes (GrantRequest_Normalize ?req) = Inr [ConsentPurposeLogin]" by code_simp
  have n: "consent_get (cs_store consent_init) s = None" for s by (simp add: consent_init_def consent_get_def)
  have ok: "consents_ok (cs_store consent_init)" by code_simp
  from grant_endpoint_covers_service[OF ex_consent_cfg_ok _ _ ex_draws _ _ ok v surjective_pairing,
      of "ex_consent_ctx 10" "UserID 1"]
  show ?thesis by (auto simp: p n grant_refused_iff)
qed

text \<open>The filters of the listing endpoint: a listing answered with 200 holds exactly the
  records of the user that have the purpose and the status asked for, each with the status computed at
  the request's time, in the order of the store.\<close>

lemma list_endpoint_exact:
  assumes "\<not> UserID_IsNil u" and "parseRecordFilter status purpose = Inr flt"
  shows "snd (HandleGetConsents uuid_String c u status purpose st) =
     WriteJSON StatusOK (toListResponse uuid_String
       (filter (\<lambda>r. (\<forall>f p. flt = Some f \<longrightarrow> Filter_Purpose f = Some p \<longrightarrow> Record_Purpose r = p) \<and>
                     (\<forall>f s. flt = Some f \<longrightarrow> Filter_Status f = Some s \<longrightarrow> Record_ComputeStatus r (ctx_Now c) = s))
          (ConsentStore_ListByUser (cs_store st) u None)) (ctx_Now c))"
proof -
  have r: "RequireUserID u = Inr u" using assms(1) by (simp add: RequireUserID_def)
  show ?thesis
  proof (cases flt)
    case None
    then show ?thesis
      using assms by (simp add: HandleGetConsents_def r List_def Let_def)
  next
    case (Some f)
    show ?thesis
      using assms Some
      by (cases "Filter_Purpose f"; cases "Filter_Status f")
        (simp_all add: HandleGetConsents_def r List_def Let_def ConsentStore_ListByUser_def filterRecords_def conj_commute)
  qed
qed

lemma list_endpoint_exact_witness:
  "snd (HandleGetConsents (\<lambda>_. ''id'') (ex_consent_ctx 20) (UserID 1) ''revoked'' [] ex_consent_state) =
     WriteJSON StatusOK []"
proof -
  have f: "parseRecordFilter ''revoked'' [] = Inr (Some \<lparr> Filter_Purpose = None, Filter_Status = Some StatusRevoked \<rparr>)"
    by code_simp
  have l: "ConsentStore_ListByUser (cs_store ex_consent_state) (UserID 1) None = [ex_consent_record]" by code_simp
  show ?thesis
    unfolding list_endpoint_exact[OF ex_consent_valid(1) f]
    by (simp add: l ex_consent_record_def Record_ComputeStatus_def toListResponse_def)
qed

end
