(* ===== verification/RL_Models.thy ===== *)
theory RL_Models
  imports Stores
begin

unbundle bit_operations_syntax

text \<open>
  The domain types of the rate limiter (\<^verbatim>\<open>internal/ratelimit/models\<close>,
  \<^verbatim>\<open>internal/ratelimit/config\<close>): endpoint classes, keys, allowlist entries, lockout
  records, the backoff policy on 64-bit durations, and the configured limits. \<^verbatim>\<open>net.ParseIP\<close> and
  the parser of identifiers are parameters.
\<close>

section \<open>Endpoint classes and allowlist entries\<close>

datatype EndpointClass = ClassAuth | ClassSensitive | ClassRead | ClassWrite | ClassAdmin | ClassOther string

fun EndpointClass_String :: "EndpointClass \<Rightarrow> string" where
  "EndpointClass_String ClassAuth = ''auth''"
| "EndpointClass_String ClassSensitive = ''sensitive''"
| "EndpointClass_String ClassRead = ''read''"
| "EndpointClass_String ClassWrite = ''write''"
| "EndpointClass_String ClassAdmin = ''admin''"
| "EndpointClass_String (ClassOther s) = s"

fun EndpointClass_IsValid :: "EndpointClass \<Rightarrow> bool" where
  "EndpointClass_IsValid (ClassOther _) = False"
| "EndpointClass_IsValid _ = True"

datatype AllowlistEntryType = AllowlistTypeIP | AllowlistTypeUserID | AllowlistTypeOther string

fun AllowlistEntryType_String :: "AllowlistEntryType \<Rightarrow> string" where
  "AllowlistEntryType_String AllowlistTypeIP = ''ip''"
| "AllowlistEntryType_String AllowlistTypeUserID = ''user_id''"
| "AllowlistEntryType_String (AllowlistTypeOther s) = s"

definition AllowlistEntryType_of :: "string \<Rightarrow> AllowlistEntryType" where
  "AllowlistEntryType_of s =
     (if s = ''ip'' then AllowlistTypeIP else if s = ''user_id'' then AllowlistTypeUserID
      else AllowlistTypeOther s)"

definition AllowlistEntryType_IsValid :: "AllowlistEntryType \<Rightarrow> bool" where
  "AllowlistEntryType_IsValid t = (t = AllowlistTypeIP \<or> t = AllowlistTypeUserID)"

definition ParseAllowlistEntryType :: "string \<Rightarrow> AllowlistEntryType result" where
  "ParseAllowlistEntryType s =
     (if s = [] then Inl (dErrors_New CodeInvalidInput ''allowlist entry type cannot be empty'')
      else let t = AllowlistEntryType_of s in
        if \<not> AllowlistEntryType_IsValid t
        then Inl (dErrors_New CodeInvalidInput
               (''invalid allowlist entry type: must be '' @ [CHR 0x27] @ ''ip'' @ [CHR 0x27] @ '' or '' @
                [CHR 0x27] @ ''user_id'' @ [CHR 0x27]))
        else Inr t)"

definition ParseAllowlistIdentifier ::
  "(string \<Rightarrow> bool) \<Rightarrow> (string \<Rightarrow> uuid option) \<Rightarrow> AllowlistEntryType \<Rightarrow> string \<Rightarrow> string result" where
  "ParseAllowlistIdentifier is_IP uuid_Parse entryType identifier =
     (if identifier = [] then Inl (dErrors_New CodeInvalidInput ''identifier cannot be empty'')
      else if \<not> AllowlistEntryType_IsValid entryType
      then Inl (dErrors_New CodeInvalidInput ''invalid allowlist entry type'')
      else if entryType = AllowlistTypeIP \<and> \<not> is_IP identifier
      then Inl (dErrors_New CodeInvalidInput ''identifier must be a valid IP address'')
      else if entryType = AllowlistTypeUserID \<and> isl (ParseUserID uuid_Parse identifier)
      then Inl (dErrors_New CodeInvalidInput ''identifier must be a valid user_id'')
      else Inr identifier)"

record RateLimitResult =
  rl_Allowed :: bool
  rl_Bypassed :: bool
  rl_Limit :: int
  rl_Remaining :: int
  rl_ResetAt :: time
  rl_RetryAfter :: int

record AuthRateLimitResult = RateLimitResult +
  rl_RequiresCaptcha :: bool
  rl_FailureCount :: int

record AllowlistEntry =
  al_ID :: string
  al_Type :: AllowlistEntryType
  al_Identifier :: string
  al_Reason :: string
  al_ExpiresAt :: "time option"
  al_CreatedAt :: time
  al_CreatedBy :: UserID

definition NewAllowlistEntry ::
  "(string \<Rightarrow> bool) \<Rightarrow> (string \<Rightarrow> uuid option) \<Rightarrow> string \<Rightarrow> AllowlistEntryType \<Rightarrow> string \<Rightarrow> string \<Rightarrow> UserID
   \<Rightarrow> time option \<Rightarrow> time \<Rightarrow> AllowlistEntry result" where
  "NewAllowlistEntry is_IP uuid_Parse alID entryType identifier reason createdBy expiresAt now =
     (if alID = [] then Inl (dErrors_New CodeInvariantViolation ''id cannot be empty'')
      else if \<not> AllowlistEntryType_IsValid entryType
      then Inl (dErrors_New CodeInvariantViolation ''invalid allowlist entry type'')
      else if reason = [] then Inl (dErrors_New CodeInvariantViolation ''reason cannot be empty'')
      else case ParseAllowlistIdentifier is_IP uuid_Parse entryType identifier of
             Inl e \<Rightarrow> Inl (dErrors_New CodeInvariantViolation (error_Error e))
           | Inr parsedIdentifier \<Rightarrow>
               Inr \<lparr> al_ID = alID, al_Type = entryType, al_Identifier = parsedIdentifier, al_Reason = reason,
                     al_ExpiresAt = expiresAt, al_CreatedAt = now, al_CreatedBy = createdBy \<rparr>)"

definition AllowlistEntry_IsExpiredAt :: "AllowlistEntry \<Rightarrow> time \<Rightarrow> bool" where
  "AllowlistEntry_IsExpiredAt e now = (case al_ExpiresAt e of None \<Rightarrow> False | Some t \<Rightarrow> now > t)"

section \<open>Keys\<close>

datatype KeyPrefix = KeyPrefixIP | KeyPrefixUser | KeyPrefixAuth | KeyPrefixClient

fun KeyPrefix_String :: "KeyPrefix \<Rightarrow> string" where
  "KeyPrefix_String KeyPrefixIP = ''ip''"
| "KeyPrefix_String KeyPrefixUser = ''user''"
| "KeyPrefix_String KeyPrefixAuth = ''auth''"
| "KeyPrefix_String KeyPrefixClient = ''client''"

text \<open>\<^verbatim>\<open>strings.ReplaceAll\<close> for a single byte.\<close>

definition ReplaceAll1 :: "string \<Rightarrow> char \<Rightarrow> string \<Rightarrow> string" where
  "ReplaceAll1 s old new = concat (map (\<lambda>c. if c = old then new else [c]) s)"

definition sanitizeKeySegment :: "string \<Rightarrow> string" where
  "sanitizeKeySegment s =
     (let s = ReplaceAll1 s (CHR ''_'') ''__'';
          s = ReplaceAll1 s (CHR '':'') ''_c''
      in s)"

record RateLimitKey =
  key_prefix :: KeyPrefix
  key_identifier :: string
  key_class :: EndpointClass

definition NewRateLimitKey :: "KeyPrefix \<Rightarrow> string \<Rightarrow> EndpointClass \<Rightarrow> RateLimitKey" where
  "NewRateLimitKey prefix identifier class =
     \<lparr> key_prefix = prefix, key_identifier = sanitizeKeySegment identifier,
       key_class = class \<rparr>"

definition NewAuthLockoutKey :: "string \<Rightarrow> string \<Rightarrow> RateLimitKey" where
  "NewAuthLockoutKey identifier ip =
     \<lparr> key_prefix = KeyPrefixAuth,
       key_identifier = sanitizeKeySegment identifier @ '':'' @ sanitizeKeySegment ip, key_class = ClassOther [] \<rparr>"

definition RateLimitKey_String :: "RateLimitKey \<Rightarrow> string" where
  "RateLimitKey_String k =
     (if EndpointClass_String (key_class k) = [] then KeyPrefix_String (key_prefix k) @ '':'' @ key_identifier k
      else KeyPrefix_String (key_prefix k) @ '':'' @ key_identifier k @ '':'' @ EndpointClass_String (key_class k))"

definition NewClientRateLimitKey :: "string \<Rightarrow> string \<Rightarrow> string" where
  "NewClientRateLimitKey clientID endpoint =
     KeyPrefix_String KeyPrefixClient @ '':'' @ sanitizeKeySegment clientID @ '':'' @ sanitizeKeySegment endpoint"

section \<open>Lockout records and backoff\<close>

record AuthLockout =
  lo_Identifier :: string
  lo_FailureCount :: int
  lo_DailyFailures :: int
  lo_LockedUntil :: "time option"
  lo_LastFailureAt :: time
  lo_RequiresCaptcha :: bool

definition NewAuthLockout :: "string \<Rightarrow> time \<Rightarrow> AuthLockout result" where
  "NewAuthLockout identifier now =
     (if identifier = [] then Inl (dErrors_New CodeInvariantViolation ''identifier cannot be empty'')
      else Inr \<lparr> lo_Identifier = identifier, lo_FailureCount = 0, lo_DailyFailures = 0, lo_LockedUntil = None,
                 lo_LastFailureAt = now, lo_RequiresCaptcha = False \<rparr>)"

definition AuthLockout_IsLockedAt :: "AuthLockout \<Rightarrow> time \<Rightarrow> bool" where
  "AuthLockout_IsLockedAt l now = (case lo_LockedUntil l of None \<Rightarrow> False | Some t \<Rightarrow> now < t)"

definition AuthLockout_RecordFailure :: "AuthLockout \<Rightarrow> time \<Rightarrow> AuthLockout" where
  "AuthLockout_RecordFailure l now =
     l\<lparr> lo_FailureCount := lo_FailureCount l + 1, lo_DailyFailures := lo_DailyFailures l + 1,
        lo_LastFailureAt := now \<rparr>"

definition AuthLockout_ShouldHardLock :: "AuthLockout \<Rightarrow> int \<Rightarrow> bool" where
  "AuthLockout_ShouldHardLock l threshold = (lo_FailureCount l \<ge> threshold)"

definition AuthLockout_ApplyHardLock :: "AuthLockout \<Rightarrow> duration \<Rightarrow> time \<Rightarrow> AuthLockout" where
  "AuthLockout_ApplyHardLock l d now = l\<lparr> lo_LockedUntil := Some (now + d) \<rparr>"

definition AuthLockout_ShouldRequireCaptcha :: "AuthLockout \<Rightarrow> int \<Rightarrow> bool" where
  "AuthLockout_ShouldRequireCaptcha l threshold = (lo_DailyFailures l \<ge> threshold)"

definition AuthLockout_MarkRequiresCaptcha :: "AuthLockout \<Rightarrow> AuthLockout" where
  "AuthLockout_MarkRequiresCaptcha l = l\<lparr> lo_RequiresCaptcha := True \<rparr>"

definition AuthLockout_Clear :: "AuthLockout \<Rightarrow> AuthLockout" where
  "AuthLockout_Clear l = l\<lparr> lo_FailureCount := 0, lo_LockedUntil := None \<rparr>"

definition AuthLockout_RemainingAttempts :: "AuthLockout \<Rightarrow> int \<Rightarrow> int" where
  "AuthLockout_RemainingAttempts l limit =
     (let remaining = limit - lo_FailureCount l in if remaining < 0 then 0 else remaining)"

definition AuthLockout_IsAttemptLimitReached :: "AuthLockout \<Rightarrow> int \<Rightarrow> bool" where
  "AuthLockout_IsAttemptLimitReached l limit = (lo_FailureCount l \<ge> limit)"

text \<open>
  Durations of the backoff are kept at their width, 64 bits, since the multiplication may wrap. The
  shift of the constant 1 is done at the type of the conversion, \<^verbatim>\<open>time.Duration\<close>; Go shifts
  by counts of 64 or more to zero.
\<close>

record BackoffPolicy =
  bp_Base :: "64 word"
  bp_Cap :: "64 word"
  bp_WindowDuration :: duration

definition NewBackoffPolicy :: "64 word \<Rightarrow> 64 word \<Rightarrow> duration \<Rightarrow> BackoffPolicy" where
  "NewBackoffPolicy base cap windowDuration =
     \<lparr> bp_Base = base, bp_Cap = cap, bp_WindowDuration = windowDuration \<rparr>"

definition DefaultBackoffPolicy :: BackoffPolicy where
  "DefaultBackoffPolicy = \<lparr> bp_Base = 250000000, bp_Cap = 1000000000, bp_WindowDuration = 15 * minute \<rparr>"

definition CalculateBackoff :: "BackoffPolicy \<Rightarrow> int \<Rightarrow> 64 word" where
  "CalculateBackoff p failureCount =
     (if failureCount \<le> 0 \<or> bp_Base p = 0 then 0
      else let delay = bp_Base p * push_bit (nat (failureCount - 1)) 1 in
        if sint delay > sint (bp_Cap p) then bp_Cap p else delay)"

definition BackoffPolicy_ResetTime :: "BackoffPolicy \<Rightarrow> time \<Rightarrow> time" where
  "BackoffPolicy_ResetTime p lastFailureAt = lastFailureAt + bp_WindowDuration p"

section \<open>Quotas\<close>

datatype QuotaTier = QuotaTierFree | QuotaTierStarter | QuotaTierBusiness | QuotaTierEnterprise | QuotaTierOther string

fun QuotaTier_IsValid :: "QuotaTier \<Rightarrow> bool" where
  "QuotaTier_IsValid (QuotaTierOther _) = False"
| "QuotaTier_IsValid _ = True"

record APIKeyQuota =
  q_APIKeyID :: APIKeyID
  q_Tier :: QuotaTier
  q_MonthlyLimit :: int
  q_CurrentUsage :: int
  q_OverageAllowed :: bool
  q_PeriodStart :: time
  q_PeriodEnd :: time

definition IsOverQuota :: "APIKeyQuota \<Rightarrow> bool" where
  "IsOverQuota q = (q_CurrentUsage q \<ge> q_MonthlyLimit q)"

text \<open>The audit record of a limited request.\<close>

record RateLimitViolation =
  v_ID :: string
  v_Identifier :: string
  v_EndpointClass :: EndpointClass
  v_Endpoint :: string
  v_Limit :: int
  v_WindowSeconds :: int
  v_OccurredAt :: time

definition NewRateLimitViolation ::
  "string \<Rightarrow> string \<Rightarrow> EndpointClass \<Rightarrow> string \<Rightarrow> int \<Rightarrow> int \<Rightarrow> time \<Rightarrow> RateLimitViolation result" where
  "NewRateLimitViolation vID identifier class endpoint limit windowSeconds now =
     (if vID = [] then Inl (dErrors_New CodeInvariantViolation ''id cannot be empty'')
      else if identifier = [] then Inl (dErrors_New CodeInvariantViolation ''identifier cannot be empty'')
      else if \<not> EndpointClass_IsValid class then Inl (dErrors_New CodeInvariantViolation ''invalid endpoint class'')
      else if endpoint = [] then Inl (dErrors_New CodeInvariantViolation ''endpoint cannot be empty'')
      else if limit \<le> 0 then Inl (dErrors_New CodeInvariantViolation ''limit must be positive'')
      else if windowSeconds \<le> 0 then Inl (dErrors_New CodeInvariantViolation ''window_seconds must be positive'')
      else Inr \<lparr> v_ID = vID, v_Identifier = identifier, v_EndpointClass = class, v_Endpoint = endpoint,
                 v_Limit = limit, v_WindowSeconds = windowSeconds, v_OccurredAt = now \<rparr>)"

section \<open>Configuration\<close>

record Limit =
  lim_RequestsPerWindow :: int
  lim_Window :: duration

record ClientLimitConfig =
  cl_ConfidentialLimit :: Limit
  cl_PublicLimit :: Limit

record GlobalLimit =
  gl_PerInstancePerSecond :: int
  gl_GlobalPerSecond :: int
  gl_PerInstancePerHour :: int

record AuthLockoutConfig =
  lc_AttemptsPerWindow :: int
  lc_WindowDuration :: duration
  lc_HardLockThreshold :: int
  lc_HardLockDuration :: duration
  lc_CaptchaAfterLockouts :: int
  lc_ProgressiveBackoffBase :: "64 word"
  lc_SupportURL :: string

definition AuthLockoutConfig_BackoffPolicy :: "AuthLockoutConfig \<Rightarrow> BackoffPolicy" where
  "AuthLockoutConfig_BackoffPolicy c =
     (let base = (if lc_ProgressiveBackoffBase c = 0 then 250000000 else lc_ProgressiveBackoffBase c)
      in NewBackoffPolicy base 1000000000 (lc_WindowDuration c))"

definition AuthLockoutConfig_CalculateBackoff :: "AuthLockoutConfig \<Rightarrow> int \<Rightarrow> 64 word" where
  "AuthLockoutConfig_CalculateBackoff c failureCount = CalculateBackoff (AuthLockoutConfig_BackoffPolicy c) failureCount"

record QuotaLimit =
  ql_MonthlyRequests :: int
  ql_OverageAllowed :: bool

record rl_config =
  cfg_IPLimits :: "(EndpointClass, Limit) kv"
  cfg_UserLimits :: "(EndpointClass, Limit) kv"
  cfg_ClientLimits :: ClientLimitConfig
  cfg_Global :: GlobalLimit
  cfg_AuthLockout :: AuthLockoutConfig
  cfg_QuotaTiers :: "(QuotaTier, QuotaLimit) kv"

abbreviation limit_of :: "int \<Rightarrow> duration \<Rightarrow> Limit" where
  "limit_of n w \<equiv> \<lparr> lim_RequestsPerWindow = n, lim_Window = w \<rparr>"

definition DefaultConfig :: rl_config where
  "DefaultConfig =
     \<lparr> cfg_IPLimits =
         [(ClassAuth, limit_of 10 minute), (ClassSensitive, limit_of 30 minute), (ClassRead, limit_of 100 minute),
          (ClassWrite, limit_of 50 minute), (ClassAdmin, limit_of 10 minute)],
       cfg_UserLimits =
         [(ClassAuth, limit_of 50 hour), (ClassSensitive, limit_of 20 hour), (ClassRead, limit_of 200 hour),
          (ClassWrite, limit_of 100 hour), (ClassAdmin, limit_of 20 hour)],
       cfg_ClientLimits = \<lparr> cl_ConfidentialLimit = limit_of 100 minute, cl_PublicLimit = limit_of 30 minute \<rparr>,
       cfg_Global = \<lparr> gl_PerInstancePerSecond = 1000, gl_GlobalPerSecond = 10000, gl_PerInstancePerHour = 100000 \<rparr>,
       cfg_AuthLockout =
         \<lparr> lc_AttemptsPerWindow = 5, lc_WindowDuration = 15 * minute, lc_HardLockThreshold = 10,
           lc_HardLockDuration = 15 * minute, lc_CaptchaAfterLockouts = 3, lc_ProgressiveBackoffBase = 250000000,
           lc_SupportURL = ''/support'' \<rparr>,
       cfg_QuotaTiers =
         [(QuotaTierFree, \<lparr> ql_MonthlyRequests = 1000, ql_OverageAllowed = False \<rparr>),
          (QuotaTierStarter, \<lparr> ql_MonthlyRequests = 10000, ql_OverageAllowed = True \<rparr>),
          (QuotaTierBusiness, \<lparr> ql_MonthlyRequests = 100000, ql_OverageAllowed = True \<rparr>),
          (QuotaTierEnterprise, \<lparr> ql_MonthlyRequests = -1, ql_OverageAllowed = True \<rparr>)] \<rparr>"

definition GetIPLimit :: "rl_config \<Rightarrow> EndpointClass \<Rightarrow> (int \<times> duration) option" where
  "GetIPLimit c class =
     (case kv_get (cfg_IPLimits c) class of
        Some limit \<Rightarrow> Some (lim_RequestsPerWindow limit, lim_Window limit) | None \<Rightarrow> None)"

definition GetUserLimit :: "rl_config \<Rightarrow> EndpointClass \<Rightarrow> (int \<times> duration) option" where
  "GetUserLimit c class =
     (case kv_get (cfg_UserLimits c) class of
        Some limit \<Rightarrow> Some (lim_RequestsPerWindow limit, lim_Window limit) | None \<Rightarrow> None)"

section \<open>Keys do not collide\<close>

text \<open>The escaping is undone by reading a pair starting with an underscore as one byte.\<close>

fun unescapeKeySegment :: "string \<Rightarrow> string" where
  "unescapeKeySegment [] = []"
| "unescapeKeySegment [c] = [c]"
| "unescapeKeySegment (c # d # s) =
     (if c = CHR ''_'' then (if d = CHR ''c'' then CHR '':'' else d) # unescapeKeySegment s
      else c # unescapeKeySegment (d # s))"

lemma sanitizeKeySegment_Nil [simp]: "sanitizeKeySegment [] = []"
  by (simp add: sanitizeKeySegment_def ReplaceAll1_def)

lemma sanitizeKeySegment_Cons [simp]:
  "sanitizeKeySegment (c # s) =
     (if c = CHR ''_'' then ''__'' else if c = CHR '':'' then ''_c'' else [c]) @ sanitizeKeySegment s"
  by (simp add: sanitizeKeySegment_def ReplaceAll1_def)

lemma unescape_other: "c \<noteq> CHR ''_'' \<Longrightarrow> unescapeKeySegment (c # s) = c # unescapeKeySegment s"
  by (cases s) auto

lemma unescape_sanitize [simp]: "unescapeKeySegment (sanitizeKeySegment s) = s"
  by (induction s) (auto simp: unescape_other)

lemma sanitizeKeySegment_inj [simp]: "sanitizeKeySegment s = sanitizeKeySegment t \<longleftrightarrow> s = t"
  using unescape_sanitize by metis

lemma sanitizeKeySegment_no_colon [simp]: "CHR '':'' \<notin> set (sanitizeKeySegment s)"
  by (induction s) auto

lemma KeyPrefix_no_colon [simp]: "CHR '':'' \<notin> set (KeyPrefix_String p)"
  by (cases p) auto

lemma KeyPrefix_String_inj [simp]: "KeyPrefix_String p = KeyPrefix_String q \<longleftrightarrow> p = q"
  by (cases p; cases q) auto

text \<open>Joining segments without the separator is injective.\<close>

lemma split_at_sep:
  "a @ c # x = b @ c # y \<Longrightarrow> c \<notin> set a \<Longrightarrow> c \<notin> set b \<Longrightarrow> a = b \<and> x = y"
proof (induction a arbitrary: b)
  case Nil
  then show ?case by (cases b) auto
next
  case (Cons d a)
  then show ?case by (cases b) auto
qed

lemma RateLimitKey_String_New:
  "RateLimitKey_String (NewRateLimitKey p i c) =
     KeyPrefix_String p @ CHR '':'' # sanitizeKeySegment i @
       (if EndpointClass_String c = [] then [] else CHR '':'' # EndpointClass_String c)"
  by (simp add: RateLimitKey_String_def NewRateLimitKey_def)

lemma RateLimitKey_String_Lockout:
  "RateLimitKey_String (NewAuthLockoutKey i ip) =
     ''auth'' @ CHR '':'' # sanitizeKeySegment i @ CHR '':'' # sanitizeKeySegment ip"
  by (simp add: RateLimitKey_String_def NewAuthLockoutKey_def)

lemma class_tail_inj:
  assumes "a @ (if c = [] then [] else CHR '':'' # c) = b @ (if d = [] then [] else CHR '':'' # d)"
    and "CHR '':'' \<notin> set a" "CHR '':'' \<notin> set b"
  shows "a = b \<and> c = d"
  using assms split_at_sep [of a "CHR '':''" c b d]
  by (auto split: if_splits)

lemma rate_key_inj:
  "RateLimitKey_String (NewRateLimitKey p i c) = RateLimitKey_String (NewRateLimitKey q j d) \<longleftrightarrow>
     p = q \<and> i = j \<and> EndpointClass_String c = EndpointClass_String d"
proof
  assume eq: "RateLimitKey_String (NewRateLimitKey p i c) = RateLimitKey_String (NewRateLimitKey q j d)"
  note first = split_at_sep [OF eq [unfolded RateLimitKey_String_New] KeyPrefix_no_colon KeyPrefix_no_colon]
  show "p = q \<and> i = j \<and> EndpointClass_String c = EndpointClass_String d"
    using first class_tail_inj [OF conjunct2 [OF first]] by auto
qed (simp add: RateLimitKey_String_New)

lemma lockout_key_inj:
  "RateLimitKey_String (NewAuthLockoutKey i a) = RateLimitKey_String (NewAuthLockoutKey j b) \<longleftrightarrow> i = j \<and> a = b"
  unfolding RateLimitKey_String_Lockout
  using split_at_sep [of "sanitizeKeySegment i" "CHR '':''" "sanitizeKeySegment a" "sanitizeKeySegment j" "sanitizeKeySegment b"]
  by auto

lemma client_key_inj:
  "NewClientRateLimitKey i a = NewClientRateLimitKey j b \<longleftrightarrow> i = j \<and> a = b"
  unfolding NewClientRateLimitKey_def
  using split_at_sep [of "sanitizeKeySegment i" "CHR '':''" "sanitizeKeySegment a" "sanitizeKeySegment j" "sanitizeKeySegment b"]
  by auto

lemma key_families_distinct:
  assumes "p = KeyPrefixIP \<or> p = KeyPrefixUser"
  shows "RateLimitKey_String (NewRateLimitKey p i c) \<noteq> RateLimitKey_String (NewAuthLockoutKey j ip)"
    and "RateLimitKey_String (NewRateLimitKey p i c) \<noteq> NewClientRateLimitKey j e"
    and "RateLimitKey_String (NewAuthLockoutKey i ip) \<noteq> NewClientRateLimitKey j e"
  using assms by (auto simp: RateLimitKey_String_New RateLimitKey_String_Lockout NewClientRateLimitKey_def)

text \<open>
  Rate-limit keys do not collide, whatever bytes the caller controls. Two IP, user or
  other class-based keys are the same string only for the same prefix, identifier and class; two
  lockout keys only for the same account and address; two client keys only for the same client and
  endpoint; and the three families are disjoint. An identifier that contains the separator or the
  escape byte cannot reach another bucket.
\<close>

lemma keys_do_not_collide:
  assumes "p = KeyPrefixIP \<or> p = KeyPrefixUser"
  shows "(RateLimitKey_String (NewRateLimitKey p i c) = RateLimitKey_String (NewRateLimitKey q j d) \<longleftrightarrow>
            p = q \<and> i = j \<and> EndpointClass_String c = EndpointClass_String d) \<and>
         (RateLimitKey_String (NewAuthLockoutKey i a) = RateLimitKey_String (NewAuthLockoutKey j b) \<longleftrightarrow> i = j \<and> a = b) \<and>
         (NewClientRateLimitKey i a = NewClientRateLimitKey j b \<longleftrightarrow> i = j \<and> a = b) \<and>
         RateLimitKey_String (NewRateLimitKey p i c) \<noteq> RateLimitKey_String (NewAuthLockoutKey j a) \<and>
         RateLimitKey_String (NewRateLimitKey p i c) \<noteq> NewClientRateLimitKey j a \<and>
         RateLimitKey_String (NewAuthLockoutKey i a) \<noteq> NewClientRateLimitKey j b"
  by (intro conjI rate_key_inj lockout_key_inj client_key_inj key_families_distinct [OF assms])

lemma keys_do_not_collide_witness:
  "RateLimitKey_String (NewRateLimitKey KeyPrefixUser ''a_:b'' ClassRead) = ''user:a___cb:read'' \<and>
   RateLimitKey_String (NewAuthLockoutKey ''u:1'' ''h'') \<noteq> RateLimitKey_String (NewAuthLockoutKey ''u'' ''1:h'') \<and>
   NewClientRateLimitKey ''a:b'' ''e'' \<noteq> NewClientRateLimitKey ''a'' ''b:e'' \<and>
   RateLimitKey_String (NewRateLimitKey KeyPrefixUser ''a_:b'' ClassRead) \<noteq>
     RateLimitKey_String (NewRateLimitKey KeyPrefixUser ''a_c_b'' ClassRead)"
proof -
  have u: "KeyPrefixUser = KeyPrefixIP \<or> KeyPrefixUser = KeyPrefixUser" by simp
  have "RateLimitKey_String (NewRateLimitKey KeyPrefixUser ''a_:b'' ClassRead) = ''user:a___cb:read''"
    by code_simp
  moreover have "RateLimitKey_String (NewAuthLockoutKey ''u:1'' ''h'') \<noteq> RateLimitKey_String (NewAuthLockoutKey ''u'' ''1:h'')"
    using keys_do_not_collide [OF u, of "''u:1''" ClassRead KeyPrefixIP "''u''" ClassRead "''h''" "''1:h''"] by simp
  moreover have "NewClientRateLimitKey ''a:b'' ''e'' \<noteq> NewClientRateLimitKey ''a'' ''b:e''"
    using keys_do_not_collide [OF u, of "''a:b''" ClassRead KeyPrefixIP "''a''" ClassRead "''e''" "''b:e''"] by simp
  moreover have "RateLimitKey_String (NewRateLimitKey KeyPrefixUser ''a_:b'' ClassRead) \<noteq>
      RateLimitKey_String (NewRateLimitKey KeyPrefixUser ''a_c_b'' ClassRead)"
    using keys_do_not_collide [OF u, of "''a_:b''" ClassRead KeyPrefixUser "''a_c_b''" ClassRead] by simp
  ultimately show ?thesis by blast
qed

section \<open>Backoff\<close>

lemma sint_mult_power:
  fixes b :: "64 word"
  shows "sint (b * push_bit k 1) = signed_take_bit 63 (sint b * 2 ^ k)"
proof -
  have "b * push_bit k 1 = word_of_int (sint b * 2 ^ k)"
    by (simp add: push_bit_eq_mult)
  then show ?thesis by (simp only: signed_of_int) simp
qed

lemma CalculateBackoff_wraps:
  assumes "bp_Base p \<noteq> 0" "0 < n"
  shows "sint (CalculateBackoff p n) = min (sint (bp_Cap p)) (signed_take_bit 63 (sint (bp_Base p) * 2 ^ nat (n - 1)))"
  using assms sint_mult_power [of "bp_Base p" "nat (n - 1)"] by (auto simp: CalculateBackoff_def Let_def min_def)

lemma CalculateBackoff_exact:
  assumes "0 < sint (bp_Base p)" "0 < n" "sint (bp_Base p) * 2 ^ nat (n - 1) < 2 ^ 63"
  shows "sint (CalculateBackoff p n) = min (sint (bp_Cap p)) (sint (bp_Base p) * 2 ^ nat (n - 1))"
proof -
  have "signed_take_bit 63 (sint (bp_Base p) * 2 ^ nat (n - 1)) = sint (bp_Base p) * 2 ^ nat (n - 1)"
    using assms by (intro signed_take_bit_int_eq_self) (auto intro: order_trans [of _ 0])
  moreover have "bp_Base p \<noteq> 0" using assms(1) by auto
  ultimately show ?thesis using CalculateBackoff_wraps [of p n] assms(2) by simp
qed

lemma default_backoff_zero:
  assumes "58 \<le> n"
  shows "CalculateBackoff DefaultBackoffPolicy n = 0"
proof -
  define k where "k = nat (n - 58)"
  have n: "nat (n - 1) = k + 57" using assms by (simp add: k_def nat_add_distrib [symmetric])
  have "bp_Base DefaultBackoffPolicy * push_bit (nat (n - 1)) 1 = push_bit k (bp_Base DefaultBackoffPolicy * push_bit 57 1)"
    by (simp add: n push_bit_eq_mult power_add)
  also have "bp_Base DefaultBackoffPolicy * push_bit 57 1 = 0" by code_simp
  finally have "bp_Base DefaultBackoffPolicy * push_bit (nat (n - 1)) 1 = 0" by simp
  moreover have "\<not> sint 0 > sint (bp_Cap DefaultBackoffPolicy)" by code_simp
  ultimately show ?thesis by (simp add: CalculateBackoff_def Let_def)
qed

text \<open>
  \<^bold>\<open>C27\<close>: The progressive delay at the width of \<^verbatim>\<open>time.Duration\<close>. While base times
  the doubling factor fits into 63 bits the delay is exactly the smaller of the cap and base doubled
  per failure, so it is positive, never above the cap and never shrinks with a further failure. The
  product is not checked for overflow: for every number of failures the delay is the smaller of the
  cap and the product read as a signed 64-bit number. With the default policy the first 36 failures
  fit; of the following ones up to the 57th exactly thirteen (37, 38, 39, 41, 42, 43, 46, 47, 49, 51,
  52, 55 and 57) give a negative delay, the other products wrap to a positive number above the cap;
  from the 58th on the delay is zero.
\<close>

theorem backoff_exact:
  assumes "0 < sint (bp_Base p)" "0 < sint (bp_Cap p)" "0 < m" "m \<le> n"
    and "sint (bp_Base p) * 2 ^ nat (n - 1) < 2 ^ 63" and "0 < i" "58 \<le> j"
  shows "sint (CalculateBackoff p n) = min (sint (bp_Cap p)) (sint (bp_Base p) * 2 ^ nat (n - 1)) \<and>
         0 < sint (CalculateBackoff p m) \<and> sint (CalculateBackoff p m) \<le> sint (CalculateBackoff p n) \<and>
         sint (CalculateBackoff p i) = min (sint (bp_Cap p)) (signed_take_bit 63 (sint (bp_Base p) * 2 ^ nat (i - 1))) \<and>
         filter (\<lambda>k. sint (CalculateBackoff DefaultBackoffPolicy k) < 0) [1..57] =
           [37, 38, 39, 41, 42, 43, 46, 47, 49, 51, 52, 55, 57] \<and>
         filter (\<lambda>k. CalculateBackoff DefaultBackoffPolicy k = bp_Cap DefaultBackoffPolicy) [37..57] =
           [40, 44, 45, 48, 50, 53, 54, 56] \<and>
         CalculateBackoff DefaultBackoffPolicy j = 0"
proof (intro conjI)
  have le: "sint (bp_Base p) * 2 ^ nat (m - 1) \<le> sint (bp_Base p) * 2 ^ nat (n - 1)"
    using assms by (intro mult_left_mono power_increasing) auto
  have n: "sint (CalculateBackoff p n) = min (sint (bp_Cap p)) (sint (bp_Base p) * 2 ^ nat (n - 1))"
    using assms by (intro CalculateBackoff_exact) auto
  have m: "sint (CalculateBackoff p m) = min (sint (bp_Cap p)) (sint (bp_Base p) * 2 ^ nat (m - 1))"
    using assms le_less_trans [OF le] by (intro CalculateBackoff_exact) auto
  show "sint (CalculateBackoff p n) = min (sint (bp_Cap p)) (sint (bp_Base p) * 2 ^ nat (n - 1))" by (fact n)
  show "0 < sint (CalculateBackoff p m)" using assms by (simp add: m)
  show "sint (CalculateBackoff p m) \<le> sint (CalculateBackoff p n)" using le by (simp add: m n)
  show "sint (CalculateBackoff p i) = min (sint (bp_Cap p)) (signed_take_bit 63 (sint (bp_Base p) * 2 ^ nat (i - 1)))"
    using assms(1,6) by (intro CalculateBackoff_wraps) auto
  show "filter (\<lambda>k. sint (CalculateBackoff DefaultBackoffPolicy k) < 0) [1..57] =
      [37, 38, 39, 41, 42, 43, 46, 47, 49, 51, 52, 55, 57]" by code_simp
  show "filter (\<lambda>k. CalculateBackoff DefaultBackoffPolicy k = bp_Cap DefaultBackoffPolicy) [37..57] =
      [40, 44, 45, 48, 50, 53, 54, 56]" by code_simp
  show "CalculateBackoff DefaultBackoffPolicy j = 0" using assms(7) by (rule default_backoff_zero)
qed

theorem backoff_exact_witness:
  "sint (CalculateBackoff DefaultBackoffPolicy 2) = 500000000 \<and>
   sint (CalculateBackoff DefaultBackoffPolicy 36) = 1000000000 \<and>
   sint (CalculateBackoff DefaultBackoffPolicy 2) \<le> sint (CalculateBackoff DefaultBackoffPolicy 36) \<and>
   CalculateBackoff DefaultBackoffPolicy 90 = 0"
proof -
  have "sint (bp_Base DefaultBackoffPolicy) = 250000000" "sint (bp_Cap DefaultBackoffPolicy) = 1000000000"
    by code_simp+
  then show ?thesis
    using backoff_exact [of DefaultBackoffPolicy 2 2 1 90] backoff_exact [of DefaultBackoffPolicy 2 36 37 90]
    by (simp add: min_def)
qed

end
