(* ===== verification/RL_Bucket.thy ===== *)
theory RL_Bucket
  imports RL_Models
begin

unbundle bit_operations_syntax

text \<open>
  The in-memory bucket store (\<^verbatim>\<open>store/bucket/store_memory.go\<close>): a sliding window of
  request times in a circular buffer, shards with least-recently-used eviction, and the sharded
  store. The circular buffer is shown to implement a plain list of times, and the store to enforce
  the limit over every window of time.

  A request time is its Unix time in nanoseconds (\<^verbatim>\<open>UnixNano\<close>), as everywhere in the
  model; the 64-bit range of \<^verbatim>\<open>UnixNano\<close> (years 1678 to 2262) is taken for granted.
\<close>

section \<open>The sliding window\<close>

abbreviation (input) circularBufferSize :: nat where "circularBufferSize \<equiv> 256"

abbreviation (input) maxClockSkewTolerance :: duration where "maxClockSkewTolerance \<equiv> 5 * second"

record slidingWindow =
  sw_timestamps :: "int list"
  sw_writePos :: nat
  sw_size :: nat
  sw_windowSize :: duration

definition new_window :: "duration \<Rightarrow> slidingWindow" where
  "new_window windowDuration =
     \<lparr> sw_timestamps = replicate circularBufferSize 0, sw_writePos = 0, sw_size = 0,
       sw_windowSize = windowDuration \<rparr>"

definition bufferIndex :: "slidingWindow \<Rightarrow> nat \<Rightarrow> nat" where
  "bufferIndex sw position =
     nat ((int (sw_writePos sw) - int (sw_size sw) + int position + int circularBufferSize)
          mod int circularBufferSize)"

fun count_loop :: "slidingWindow \<Rightarrow> int \<Rightarrow> int \<Rightarrow> nat list \<Rightarrow> int \<times> int \<Rightarrow> int \<times> int" where
  "count_loop sw windowStart maxValidTimestamp [] acc = acc"
| "count_loop sw windowStart maxValidTimestamp (i # is) (n, oldestTimestamp) =
     (let ts = sw_timestamps sw ! bufferIndex sw i in
      count_loop sw windowStart maxValidTimestamp is
        (if ts > windowStart \<and> ts \<le> maxValidTimestamp
         then (n + 1, if ts < oldestTimestamp then ts else oldestTimestamp)
         else (n, oldestTimestamp)))"

definition countRequestsInWindow :: "slidingWindow \<Rightarrow> int \<Rightarrow> int \<Rightarrow> int \<times> int" where
  "countRequestsInWindow sw windowStart nowNano =
     (let maxValidTimestamp = nowNano + maxClockSkewTolerance
      in count_loop sw windowStart maxValidTimestamp [0..<sw_size sw] (0, nowNano))"

definition record_one :: "int \<Rightarrow> slidingWindow \<Rightarrow> slidingWindow" where
  "record_one timestamp sw =
     (let sw = sw\<lparr> sw_timestamps := (sw_timestamps sw)[sw_writePos sw := timestamp],
                   sw_writePos := (sw_writePos sw + 1) mod circularBufferSize \<rparr>
      in if sw_size sw < circularBufferSize then sw\<lparr> sw_size := sw_size sw + 1 \<rparr> else sw)"

definition recordRequests :: "slidingWindow \<Rightarrow> int \<Rightarrow> int \<Rightarrow> int \<Rightarrow> slidingWindow" where
  "recordRequests sw n timestamp nowNano =
     (let maxValidTimestamp = nowNano + maxClockSkewTolerance;
          timestamp = (if timestamp > maxValidTimestamp then maxValidTimestamp else timestamp)
      in (record_one timestamp ^^ nat n) sw)"

definition tryConsume :: "slidingWindow \<Rightarrow> int \<Rightarrow> int \<Rightarrow> time \<Rightarrow> slidingWindow \<times> bool \<times> int \<times> time" where
  "tryConsume sw cost limit now =
     (let nowNano = now;
          windowStart = nowNano - sw_windowSize sw;
          (requestsInWindow, oldestTimestamp) = countRequestsInWindow sw windowStart nowNano;
          sw = sw\<lparr> sw_size := nat requestsInWindow \<rparr>
      in if requestsInWindow + cost > limit
         then (sw, False, 0, oldestTimestamp + sw_windowSize sw)
         else let sw = recordRequests sw cost nowNano nowNano
              in (sw, True, limit - (requestsInWindow + cost), now + sw_windowSize sw))"

definition currentCount :: "slidingWindow \<Rightarrow> time \<Rightarrow> int" where
  "currentCount sw now = fst (countRequestsInWindow sw (now - sw_windowSize sw) now)"

section \<open>Shards\<close>

text \<open>
  A shard is its recency list, most recent first. The map from keys to list elements of the code
  is the search of that list by key: \<^verbatim>\<open>set\<close> and \<^verbatim>\<open>delete\<close> change both together. A
  window is a pointer in the code; \<open>shard_write\<close> is the change of a window in place.
\<close>

record shard =
  sh_lruList :: "(string \<times> slidingWindow) list"
  sh_maxSize :: int

definition newShard :: "int \<Rightarrow> shard" where
  "newShard maxSize = \<lparr> sh_lruList = [], sh_maxSize = maxSize \<rparr>"

definition move_to_front :: "string \<Rightarrow> (string \<times> slidingWindow) list \<Rightarrow> (string \<times> slidingWindow) list" where
  "move_to_front key l = filter (\<lambda>e. fst e = key) l @ filter (\<lambda>e. fst e \<noteq> key) l"

definition shard_write :: "string \<Rightarrow> slidingWindow \<Rightarrow> shard \<Rightarrow> shard" where
  "shard_write key window s =
     s\<lparr> sh_lruList := map (\<lambda>e. if fst e = key then (key, window) else e) (sh_lruList s) \<rparr>"

definition shard_get :: "shard \<Rightarrow> string \<Rightarrow> shard \<times> slidingWindow option" where
  "shard_get s key =
     (case map_of (sh_lruList s) key of
        None \<Rightarrow> (s, None)
      | Some window \<Rightarrow> (s\<lparr> sh_lruList := move_to_front key (sh_lruList s) \<rparr>, Some window))"

definition shard_set :: "shard \<Rightarrow> string \<Rightarrow> slidingWindow \<Rightarrow> shard" where
  "shard_set s key window =
     (case map_of (sh_lruList s) key of
        Some _ \<Rightarrow> shard_write key window (s\<lparr> sh_lruList := move_to_front key (sh_lruList s) \<rparr>)
      | None \<Rightarrow>
          (let l = (if int (length (sh_lruList s)) \<ge> sh_maxSize s \<and> sh_lruList s \<noteq> []
                    then butlast (sh_lruList s) else sh_lruList s)
           in s\<lparr> sh_lruList := (key, window) # l \<rparr>))"

definition shard_delete :: "shard \<Rightarrow> string \<Rightarrow> shard" where
  "shard_delete s key = s\<lparr> sh_lruList := filter (\<lambda>e. fst e \<noteq> key) (sh_lruList s) \<rparr>"

section \<open>The store\<close>

record InMemoryBucketStore =
  bs_shards :: "shard list"
  bs_shardCount :: "32 word"

datatype BucketOption = WithShardCount int | WithMaxBucketsPerShard int

fun apply_bucket_option :: "BucketOption \<Rightarrow> InMemoryBucketStore \<Rightarrow> InMemoryBucketStore" where
  "apply_bucket_option (WithShardCount n) s =
     (if n > 0 then s\<lparr> bs_shardCount := word_of_int n \<rparr> else s)"
| "apply_bucket_option (WithMaxBucketsPerShard m) s =
     s\<lparr> bs_shards := map (\<lambda>sh. sh\<lparr> sh_maxSize := m \<rparr>) (bs_shards s) \<rparr>"

definition New_bucket_store :: "BucketOption list \<Rightarrow> InMemoryBucketStore" where
  "New_bucket_store opts =
     (let store = \<lparr> bs_shards = [], bs_shardCount = 32 \<rparr>;
          store = fold apply_bucket_option opts store;
          store = store\<lparr> bs_shards := replicate (unat (bs_shardCount store)) (newShard 100000) \<rparr>
      in fold apply_bucket_option opts store)"

text \<open>The FNV-1a hash of \<^verbatim>\<open>hash/fnv\<close>, on 32-bit words.\<close>

definition fnv32a :: "string \<Rightarrow> 32 word" where
  "fnv32a s = fold (\<lambda>c h. (h XOR of_char c) * 16777619) s 2166136261"

definition getShard :: "InMemoryBucketStore \<Rightarrow> string \<Rightarrow> nat" where
  "getShard s key = unat (fnv32a key mod bs_shardCount s)"

definition retryAfterSeconds :: "bool \<Rightarrow> time \<Rightarrow> time \<Rightarrow> int" where
  "retryAfterSeconds allowed resetAt now =
     (if allowed then 0
      else let seconds = whole_seconds (time_Sub resetAt now) in if seconds < 0 then 0 else seconds)"

definition AllowN :: "InMemoryBucketStore \<Rightarrow> ctx \<Rightarrow> string \<Rightarrow> int \<Rightarrow> int \<Rightarrow> duration
    \<Rightarrow> InMemoryBucketStore \<times> RateLimitResult" where
  "AllowN s ctx key cost limit windowDuration =
     (let i = getShard s key;
          (sh, found) = shard_get (bs_shards s ! i) key;
          (sh, sw) = (case found of
                        Some sw \<Rightarrow> (sh, sw)
                      | None \<Rightarrow> let sw = new_window windowDuration in (shard_set sh key sw, sw));
          now = ctx_Now ctx;
          (sw, allowed, remaining, resetAt) = tryConsume sw cost limit now
      in (s\<lparr> bs_shards := (bs_shards s)[i := shard_write key sw sh] \<rparr>,
          \<lparr> rl_Allowed = allowed, rl_Bypassed = False, rl_Limit = limit, rl_Remaining = remaining,
            rl_ResetAt = resetAt, rl_RetryAfter = retryAfterSeconds allowed resetAt now \<rparr>))"

definition Allow :: "InMemoryBucketStore \<Rightarrow> ctx \<Rightarrow> string \<Rightarrow> int \<Rightarrow> duration
    \<Rightarrow> InMemoryBucketStore \<times> RateLimitResult" where
  "Allow s ctx key limit window = AllowN s ctx key 1 limit window"

definition Bucket_Reset :: "InMemoryBucketStore \<Rightarrow> string \<Rightarrow> InMemoryBucketStore" where
  "Bucket_Reset s key =
     (let i = getShard s key in s\<lparr> bs_shards := (bs_shards s)[i := shard_delete (bs_shards s ! i) key] \<rparr>)"

definition GetCurrentCount :: "InMemoryBucketStore \<Rightarrow> ctx \<Rightarrow> string \<Rightarrow> int" where
  "GetCurrentCount s ctx key =
     (case map_of (sh_lruList (bs_shards s ! getShard s key)) key of
        None \<Rightarrow> 0
      | Some window \<Rightarrow> currentCount window (ctx_Now ctx))"

definition Bucket_Stats :: "InMemoryBucketStore \<Rightarrow> int \<times> int list" where
  "Bucket_Stats s =
     (let bucketsPerShard = map (\<lambda>sh. int (length (sh_lruList sh))) (bs_shards s)
      in (sum_list bucketsPerShard, bucketsPerShard))"

section \<open>The window implements a list of times\<close>

text \<open>
  The reference: the times of the requests counted so far, oldest first. A call drops the times
  that left the window, and adds its own when the limit has room.
\<close>

definition window_spec :: "duration \<Rightarrow> int \<Rightarrow> int \<Rightarrow> time \<Rightarrow> time list \<Rightarrow> time list \<times> bool" where
  "window_spec W cost limit now xs =
     (let ys = filter (\<lambda>t. now - W < t) xs
      in if int (length ys) + cost > limit then (ys, False) else (ys @ replicate (nat cost) now, True))"

definition sw_entries :: "slidingWindow \<Rightarrow> time list" where
  "sw_entries sw = map (\<lambda>i. sw_timestamps sw ! bufferIndex sw i) [0..<sw_size sw]"

definition sw_ok :: "slidingWindow \<Rightarrow> bool" where
  "sw_ok sw \<longleftrightarrow> length (sw_timestamps sw) = circularBufferSize \<and> sw_writePos sw < circularBufferSize \<and>
     sw_size sw \<le> circularBufferSize"

text \<open>The times are in order and none is later than \<open>now\<close>.\<close>

definition sw_upto :: "slidingWindow \<Rightarrow> time \<Rightarrow> bool" where
  "sw_upto sw now \<longleftrightarrow> sw_ok sw \<and> sorted (sw_entries sw) \<and> (\<forall>t \<in> set (sw_entries sw). t \<le> now)"

lemma length_sw_entries [simp]: "length (sw_entries sw) = sw_size sw"
  by (simp add: sw_entries_def)

lemma sw_entries_new [simp]: "sw_entries (new_window W) = []" "sw_ok (new_window W)"
  by (simp_all add: sw_entries_def new_window_def sw_ok_def)

lemma sw_upto_new [simp]: "sw_upto (new_window W) now"
  by (simp add: sw_upto_def)

lemma count_loop_eq:
  "count_loop sw ws mx is (n, oldest) =
     (let ys = filter (\<lambda>t. ws < t \<and> t \<le> mx) (map (\<lambda>i. sw_timestamps sw ! bufferIndex sw i) is)
      in (n + int (length ys), fold min ys oldest))"
  by (induction "is" arbitrary: n oldest) (auto simp: Let_def min_def)

lemma countRequestsInWindow_eq:
  "countRequestsInWindow sw ws now =
     (let ys = filter (\<lambda>t. ws < t \<and> t \<le> now + maxClockSkewTolerance) (sw_entries sw)
      in (int (length ys), fold min ys now))"
  by (simp add: countRequestsInWindow_def count_loop_eq sw_entries_def Let_def)

lemma sw_entries_shrink:
  assumes "k \<le> sw_size sw"
  shows "sw_entries (sw\<lparr> sw_size := k \<rparr>) = drop (sw_size sw - k) (sw_entries sw)"
  using assms by (intro nth_equalityI) (auto simp: sw_entries_def bufferIndex_def algebra_simps of_nat_diff)

lemma filter_sorted_suffix:
  fixes c :: int
  assumes "sorted xs"
  shows "filter (\<lambda>t. c < t) xs = drop (length xs - length (filter (\<lambda>t. c < t) xs)) xs"
  using assms
proof (induction xs)
  case (Cons x xs)
  show ?case
  proof (cases "c < x")
    case True
    then have "filter (\<lambda>t. c < t) xs = xs" using Cons.prems by (intro filter_True) auto
    with True show ?thesis by simp
  next
    case False
    moreover have "length (filter (\<lambda>t. c < t) xs) \<le> length xs" by simp
    ultimately show ?thesis using Cons by (simp add: Suc_diff_le)
  qed
qed simp

lemma fold_min_sorted:
  fixes now :: int
  shows "sorted ys \<Longrightarrow> \<forall>t \<in> set ys. t \<le> now \<Longrightarrow> fold min ys now = (case ys of [] \<Rightarrow> now | y # _ \<Rightarrow> y)"
proof (cases ys)
  case (Cons y zs)
  assume "sorted ys" "\<forall>t \<in> set ys. t \<le> now"
  moreover have "\<forall>t \<in> set zs. y \<le> t \<Longrightarrow> fold min zs y = y"
    by (induction zs) (auto simp: min_def)
  ultimately show ?thesis using Cons by (auto simp: min_def)
qed simp

lemma record_one_ok:
  assumes "sw_ok sw" shows "sw_ok (record_one t sw)" "sw_windowSize (record_one t sw) = sw_windowSize sw"
  using assms by (auto simp: sw_ok_def record_one_def Let_def)

lemma bufferIndex_eq:
  assumes "sw_ok sw" "i < sw_size sw"
  shows "bufferIndex sw i =
           (if sw_size sw \<le> sw_writePos sw + i then sw_writePos sw + i - sw_size sw
            else sw_writePos sw + i + circularBufferSize - sw_size sw)"
proof (cases "sw_size sw \<le> sw_writePos sw + i")
  case True
  then have "int (sw_writePos sw) - int (sw_size sw) + int i + 256 = int (sw_writePos sw + i - sw_size sw) + 256"
    by simp
  with True assms show ?thesis by (simp add: bufferIndex_def sw_ok_def)
next
  case False
  let ?k = "int (sw_writePos sw) - int (sw_size sw) + int i + 256"
  have "?k = int (sw_writePos sw + i + 256 - sw_size sw)" and "0 \<le> ?k" "?k < 256"
    using assms False by (auto simp: sw_ok_def)
  then have "nat (?k mod 256) = sw_writePos sw + i + 256 - sw_size sw"
    by (simp only: mod_pos_pos_trivial nat_int)
  with False show ?thesis by (simp only: bufferIndex_def if_False of_nat_numeral)
qed

lemma record_one_fields:
  assumes "sw_size sw < circularBufferSize"
  shows "sw_size (record_one t sw) = Suc (sw_size sw)"
    and "sw_timestamps (record_one t sw) = (sw_timestamps sw)[sw_writePos sw := t]"
    and "sw_writePos (record_one t sw) = (if sw_writePos sw = 255 then 0 else (sw_writePos sw + 1) mod circularBufferSize)"
  using assms by (simp_all add: record_one_def Let_def)

lemma bufferIndex_record_one:
  assumes "sw_ok sw" "sw_size sw < circularBufferSize" "i < sw_size sw"
  shows "bufferIndex (record_one t sw) i = bufferIndex sw i" "bufferIndex sw i \<noteq> sw_writePos sw"
proof -
  have "sw_writePos sw < 256" using assms by (simp add: sw_ok_def)
  with assms show "bufferIndex (record_one t sw) i = bufferIndex sw i"
    by (cases "sw_writePos sw = 255") (auto simp: bufferIndex_eq record_one_ok record_one_fields)
  show "bufferIndex sw i \<noteq> sw_writePos sw"
    using assms by (auto simp: bufferIndex_eq sw_ok_def)
qed

lemma bufferIndex_record_last:
  assumes "sw_ok sw" "sw_size sw < circularBufferSize"
  shows "bufferIndex (record_one t sw) (sw_size sw) = sw_writePos sw"
proof -
  have "sw_writePos sw < 256" using assms by (simp add: sw_ok_def)
  with assms show ?thesis
    by (cases "sw_writePos sw = 255") (simp_all add: bufferIndex_eq record_one_ok record_one_fields)
qed

lemma sw_entries_record_one:
  assumes "sw_ok sw" "sw_size sw < circularBufferSize"
  shows "sw_entries (record_one t sw) = sw_entries sw @ [t]"
proof -
  have "sw_writePos sw < length (sw_timestamps sw)" using assms by (simp add: sw_ok_def)
  moreover have "(sw_timestamps sw)[sw_writePos sw := t] ! bufferIndex sw i = sw_timestamps sw ! bufferIndex sw i"
    if "i < sw_size sw" for i
    using bufferIndex_record_one(2) [OF assms that] by simp
  ultimately show ?thesis
    using assms by (simp add: sw_entries_def record_one_fields bufferIndex_record_one bufferIndex_record_last)
qed

lemma record_loop:
  assumes "sw_ok sw" "sw_size sw + n \<le> circularBufferSize"
  shows "sw_ok ((record_one t ^^ n) sw) \<and> sw_windowSize ((record_one t ^^ n) sw) = sw_windowSize sw \<and>
         sw_entries ((record_one t ^^ n) sw) = sw_entries sw @ replicate n t"
  using assms(2)
proof (induction n)
  case (Suc n)
  let ?s = "(record_one t ^^ n) sw"
  have IH: "sw_ok ?s" "sw_windowSize ?s = sw_windowSize sw" "sw_entries ?s = sw_entries sw @ replicate n t"
    using Suc by auto
  have "sw_size ?s < circularBufferSize"
    using Suc.prems arg_cong [OF IH(3), of length] by simp
  then show ?case
    using IH record_one_ok [of ?s t] sw_entries_record_one [of ?s t] by (simp add: replicate_append_same)
qed (use assms in simp)

lemma sw_upto_keep:
  fixes W :: duration
  assumes "sw_upto sw now"
  defines "ys \<equiv> filter (\<lambda>t. now - W < t) (sw_entries sw)"
  shows "countRequestsInWindow sw (now - W) now = (int (length ys), case ys of [] \<Rightarrow> now | t # _ \<Rightarrow> t)"
    and "sw_entries (sw\<lparr> sw_size := length ys \<rparr>) = ys"
    and "sw_ok (sw\<lparr> sw_size := length ys \<rparr>)"
proof -
  have so: "sorted (sw_entries sw)" and le: "\<forall>t \<in> set (sw_entries sw). t \<le> now" and ok: "sw_ok sw"
    using assms(1) by (auto simp: sw_upto_def)
  have "filter (\<lambda>t. now - W < t \<and> t \<le> now + 5 * second) (sw_entries sw) = ys"
    unfolding ys_def using le by (intro filter_cong) auto
  moreover have "fold min ys now = (case ys of [] \<Rightarrow> now | t # _ \<Rightarrow> t)"
    unfolding ys_def using so le by (intro fold_min_sorted) (auto intro: sorted_wrt_filter)
  ultimately show "countRequestsInWindow sw (now - W) now = (int (length ys), case ys of [] \<Rightarrow> now | t # _ \<Rightarrow> t)"
    by (simp add: countRequestsInWindow_eq)
  have len: "length ys \<le> sw_size sw"
    using length_filter_le [of _ "sw_entries sw"] by (simp add: ys_def)
  show "sw_entries (sw\<lparr> sw_size := length ys \<rparr>) = ys"
    using filter_sorted_suffix [OF so, of "now - W"] sw_entries_shrink [OF len] by (simp add: ys_def)
  show "sw_ok (sw\<lparr> sw_size := length ys \<rparr>)"
    using ok len by (simp add: sw_ok_def)
qed

lemma tryConsume_eq:
  assumes "sw_upto sw now" "0 \<le> cost" "limit \<le> int circularBufferSize"
    and "tryConsume sw cost limit now = (sw', allowed, remaining, resetAt)"
  shows "window_spec (sw_windowSize sw) cost limit now (sw_entries sw) = (sw_entries sw', allowed)"
    and "sw_upto sw' now"
    and "sw_windowSize sw' = sw_windowSize sw"
    and "remaining = (if allowed then limit - int (length (sw_entries sw')) else 0)"
    and "resetAt = (if allowed then now else case sw_entries sw' of [] \<Rightarrow> now | t # _ \<Rightarrow> t) + sw_windowSize sw"
proof -
  define ys where "ys = filter (\<lambda>t. now - sw_windowSize sw < t) (sw_entries sw)"
  define sw1 where "sw1 = sw\<lparr> sw_size := length ys \<rparr>"
  note keep = sw_upto_keep [OF assms(1), of "sw_windowSize sw", folded ys_def, folded sw1_def]
  have srt: "sorted ys" "\<forall>t \<in> set ys. t \<le> now"
    using assms(1) by (auto simp: sw_upto_def ys_def intro: sorted_wrt_filter)
  have W: "sw_windowSize sw1 = sw_windowSize sw" and sz: "sw_size sw1 = length ys" by (simp_all add: sw1_def)
  have spec: "window_spec (sw_windowSize sw) cost limit now (sw_entries sw) =
      (if int (length ys) + cost > limit then (ys, False) else (ys @ replicate (nat cost) now, True))"
    by (simp add: window_spec_def ys_def)
  have step: "tryConsume sw cost limit now =
      (if int (length ys) + cost > limit
       then (sw1, False, 0, (case ys of [] \<Rightarrow> now | t # _ \<Rightarrow> t) + sw_windowSize sw)
       else ((record_one now ^^ nat cost) sw1, True, limit - (int (length ys) + cost),
             now + sw_windowSize ((record_one now ^^ nat cost) sw1)))"
    by (simp add: tryConsume_def keep(1) recordRequests_def sw1_def Let_def)
  have "(window_spec (sw_windowSize sw) cost limit now (sw_entries sw) = (sw_entries sw', allowed) \<and> sw_upto sw' now) \<and>
        sw_windowSize sw' = sw_windowSize sw \<and>
        remaining = (if allowed then limit - int (length (sw_entries sw')) else 0) \<and>
        resetAt = (if allowed then now else case sw_entries sw' of [] \<Rightarrow> now | t # _ \<Rightarrow> t) + sw_windowSize sw"
  proof (cases "int (length ys) + cost > limit")
    case True
    then have "sw' = sw1" "\<not> allowed" "remaining = 0" "resetAt = (case ys of [] \<Rightarrow> now | t # _ \<Rightarrow> t) + sw_windowSize sw"
      using step assms(4) by auto
    with True show ?thesis
      using keep srt W by (simp add: spec sw_upto_def)
  next
    case False
    then have eqs: "sw' = (record_one now ^^ nat cost) sw1" "allowed" "remaining = limit - (int (length ys) + cost)"
      "resetAt = now + sw_windowSize ((record_one now ^^ nat cost) sw1)"
      using step assms(4) by auto
    have "length ys + nat cost \<le> circularBufferSize" using False assms(2,3) by simp
    then have rec: "sw_ok sw'" "sw_windowSize sw' = sw_windowSize sw" "sw_entries sw' = ys @ replicate (nat cost) now"
      using record_loop [OF keep(3), of "nat cost" now] by (simp_all add: eqs(1) sz keep(2) W)
    moreover have "sorted (ys @ replicate (nat cost) now)" using srt by (simp add: sorted_append sorted_replicate)
    ultimately show ?thesis
      using False srt eqs assms(2) length_sw_entries [of sw'] by (auto simp: spec sw_upto_def simp del: length_sw_entries)
  qed
  then show "window_spec (sw_windowSize sw) cost limit now (sw_entries sw) = (sw_entries sw', allowed)"
    and "sw_upto sw' now" and "sw_windowSize sw' = sw_windowSize sw"
    and "remaining = (if allowed then limit - int (length (sw_entries sw')) else 0)"
    and "resetAt = (if allowed then now else case sw_entries sw' of [] \<Rightarrow> now | t # _ \<Rightarrow> t) + sw_windowSize sw"
    by blast+
qed

section \<open>The store as a map from keys to windows\<close>

definition bucket_at :: "InMemoryBucketStore \<Rightarrow> string \<Rightarrow> slidingWindow option" where
  "bucket_at s key = map_of (sh_lruList (bs_shards s ! getShard s key)) key"

text \<open>
  The invariant of the store, and that a set of keys fits into its shards, so that no key of the
  set is ever evicted for another.
\<close>

definition bucket_ok :: "InMemoryBucketStore \<Rightarrow> bool" where
  "bucket_ok s \<longleftrightarrow> bs_shardCount s \<noteq> 0 \<and> length (bs_shards s) = unat (bs_shardCount s) \<and>
     list_all (\<lambda>sh. distinct (map fst (sh_lruList sh))) (bs_shards s)"

definition bucket_fits :: "string list \<Rightarrow> InMemoryBucketStore \<Rightarrow> bool" where
  "bucket_fits ks s \<longleftrightarrow>
     (\<forall>i < length (bs_shards s).
        (let here = filter (\<lambda>k. getShard s k = i) (remdups ks)
         in int (length here) \<le> sh_maxSize (bs_shards s ! i) \<and>
            fst ` set (sh_lruList (bs_shards s ! i)) \<subseteq> set here))"

lemma map_of_move_to_front [simp]: "map_of (move_to_front k l) = map_of l"
proof
  fix x
  have "map_of (filter (\<lambda>e. fst e = k) l) x = (if x = k then map_of l k else None)"
    and "map_of (filter (\<lambda>e. fst e \<noteq> k) l) x = (if x = k then None else map_of l x)"
    by (induction l) auto
  then show "map_of (move_to_front k l) x = map_of l x"
    by (cases "x = k") (simp_all add: move_to_front_def map_add_def split: option.splits)
qed

lemma move_to_front_keys:
  "distinct (map fst l) \<Longrightarrow> distinct (map fst (move_to_front k l))" "set (move_to_front k l) = set l"
  "length (move_to_front k l) = length l"
  by (auto simp: move_to_front_def distinct_map_filter sum_length_filter_compl)

lemma map_of_write:
  "map_of (map (\<lambda>e. if fst e = k then (k, w) else e) l) =
     (\<lambda>x. if x = k then map_option (\<lambda>_. w) (map_of l k) else map_of l x)"
  by (induction l) (auto simp: fun_eq_iff)

lemma map_fst_write [simp]: "map fst (map (\<lambda>e. if fst e = k then (k, w) else e) l) = map fst l"
  by (induction l) auto

lemma room_for_key:
  assumes "k \<in> set here" "k \<notin> fst ` set l" "fst ` set l \<subseteq> set here" "distinct (map fst l)"
  shows "length l < length here"
proof -
  have "length l = card (fst ` set l)" using distinct_card [OF assms(4)] by simp
  also have "\<dots> < card (set here)" using assms(1-3) by (intro psubset_card_mono) auto
  also have "\<dots> \<le> length here" by (rule card_length)
  finally show ?thesis .
qed

text \<open>One access of a shard: find or create the window, then change it in place.\<close>

lemma shard_access:
  assumes dist: "distinct (map fst (sh_lruList sh))"
    and room: "map_of (sh_lruList sh) key = None \<Longrightarrow> int (length (sh_lruList sh)) < sh_maxSize sh"
    and get: "shard_get sh key = (sh1, found)"
    and set: "(sh2, sw) = (case found of Some sw \<Rightarrow> (sh1, sw) | None \<Rightarrow> (shard_set sh1 key (new_window W), new_window W))"
  shows "sw = (case map_of (sh_lruList sh) key of Some w \<Rightarrow> w | None \<Rightarrow> new_window W)"
    and "map_of (sh_lruList (shard_write key sw' sh2)) = (map_of (sh_lruList sh))(key \<mapsto> sw')"
    and "distinct (map fst (sh_lruList (shard_write key sw' sh2)))"
    and "fst ` set (sh_lruList (shard_write key sw' sh2)) = insert key (fst ` set (sh_lruList sh))"
    and "sh_maxSize (shard_write key sw' sh2) = sh_maxSize sh"
proof -
  have wl: "sh_lruList (shard_write key w x) = map (\<lambda>e. if fst e = key then (key, w) else e) (sh_lruList x)" for w x
    by (simp add: shard_write_def)
  have keys: "fst ` set (sh_lruList (shard_write key w x)) = fst ` set (sh_lruList x)" for w x
    using arg_cong [OF map_fst_write [of key w "sh_lruList x"], of set]
    by (simp only: set_map [symmetric] wl)
  have dst: "distinct (map fst (sh_lruList (shard_write key w x))) = distinct (map fst (sh_lruList x))" for w x
    by (simp only: wl map_fst_write)
  have mp: "map_of (sh_lruList (shard_write key w x)) =
      (\<lambda>y. if y = key then map_option (\<lambda>_. w) (map_of (sh_lruList x) key) else map_of (sh_lruList x) y)" for w x
    by (simp add: shard_write_def map_of_write)
  have "sw = (case map_of (sh_lruList sh) key of Some w \<Rightarrow> w | None \<Rightarrow> new_window W) \<and>
      sh_maxSize sh2 = sh_maxSize sh \<and> distinct (map fst (sh_lruList sh2)) \<and>
      map_of (sh_lruList sh2) = (map_of (sh_lruList sh))(key \<mapsto> sw) \<and>
      fst ` set (sh_lruList sh2) = insert key (fst ` set (sh_lruList sh))"
  proof (cases "map_of (sh_lruList sh) key")
    case None
    with get set have "sh1 = sh" "sw = new_window W" "sh2 = shard_set sh key (new_window W)"
      by (auto simp: shard_get_def)
    moreover have "sh_lruList (shard_set sh key (new_window W)) = (key, new_window W) # sh_lruList sh"
      and "sh_maxSize (shard_set sh key (new_window W)) = sh_maxSize sh"
      using None room [OF None] by (simp_all add: shard_set_def)
    moreover have "key \<notin> fst ` set (sh_lruList sh)" using None by (simp add: map_of_eq_None_iff)
    ultimately show ?thesis using None dist by auto
  next
    case (Some w)
    with get have "found = Some w" "sh1 = sh\<lparr> sh_lruList := move_to_front key (sh_lruList sh) \<rparr>"
      by (simp_all add: shard_get_def)
    with set have "sw = w" "sh2 = sh\<lparr> sh_lruList := move_to_front key (sh_lruList sh) \<rparr>" by simp_all
    moreover have "key \<in> fst ` set (sh_lruList sh)" using Some by (force dest: map_of_SomeD)
    ultimately show ?thesis using Some dist by (auto simp: move_to_front_keys)
  qed
  then show "sw = (case map_of (sh_lruList sh) key of Some w \<Rightarrow> w | None \<Rightarrow> new_window W)"
    and "map_of (sh_lruList (shard_write key sw' sh2)) = (map_of (sh_lruList sh))(key \<mapsto> sw')"
    and "distinct (map fst (sh_lruList (shard_write key sw' sh2)))"
    and "fst ` set (sh_lruList (shard_write key sw' sh2)) = insert key (fst ` set (sh_lruList sh))"
    and "sh_maxSize (shard_write key sw' sh2) = sh_maxSize sh"
    by (auto simp: mp dst keys fun_eq_iff) (simp add: shard_write_def)
qed

lemma bucket_okD:
  assumes "bucket_ok s"
  shows "getShard s key < length (bs_shards s)"
    and "distinct (map fst (sh_lruList (bs_shards s ! getShard s key)))"
  using assms by (auto simp: bucket_ok_def getShard_def list_all_length unat_mod_distrib unat_gt_0)

lemma getShard_update [simp]: "getShard (s\<lparr> bs_shards := x \<rparr>) key = getShard s key"
  by (simp add: getShard_def)

lemma AllowN_effect:
  assumes ok: "bucket_ok s" and fits: "bucket_fits ks s" and k: "key \<in> set ks"
    and run: "AllowN s ctx key cost limit W = (s', r)"
  obtains sw' where "tryConsume (case bucket_at s key of Some w \<Rightarrow> w | None \<Rightarrow> new_window W) cost limit (ctx_Now ctx) =
        (sw', rl_Allowed r, rl_Remaining r, rl_ResetAt r)"
    and "bucket_at s' = (bucket_at s)(key \<mapsto> sw')" and "bucket_ok s'" and "bucket_fits ks s'"
    and "rl_Bypassed r = False" "rl_Limit r = limit"
    and "rl_RetryAfter r = retryAfterSeconds (rl_Allowed r) (rl_ResetAt r) (ctx_Now ctx)"
proof -
  let ?i = "getShard s key"
  let ?sh = "bs_shards s ! ?i"
  obtain sh1 found where get: "shard_get ?sh key = (sh1, found)" by fastforce
  obtain sh2 sw where set: "(sh2, sw) = (case found of Some sw \<Rightarrow> (sh1, sw) | None \<Rightarrow> (shard_set sh1 key (new_window W), new_window W))"
    by (metis surj_pair)
  obtain sw' al rem rst where tc: "tryConsume sw cost limit (ctx_Now ctx) = (sw', al, rem, rst)"
    by (metis prod_cases4)
  define sh' where "sh' = shard_write key sw' sh2"
  have s': "s' = s\<lparr> bs_shards := (bs_shards s)[?i := sh'] \<rparr>"
    and r: "rl_Allowed r = al" "rl_Remaining r = rem" "rl_ResetAt r = rst" "rl_Bypassed r = False" "rl_Limit r = limit"
      "rl_RetryAfter r = retryAfterSeconds al rst (ctx_Now ctx)"
    using run get tc unfolding AllowN_def Let_def by (auto simp: set [symmetric] sh'_def split: prod.splits)
  have i: "?i < length (bs_shards s)" and dist: "distinct (map fst (sh_lruList ?sh))" using bucket_okD [OF ok] by auto
  let ?here = "filter (\<lambda>k. getShard s k = ?i) (remdups ks)"
  have here: "int (length ?here) \<le> sh_maxSize ?sh" "fst ` set (sh_lruList ?sh) \<subseteq> set ?here"
    using fits i by (auto simp: bucket_fits_def Let_def)
  have room: "int (length (sh_lruList ?sh)) < sh_maxSize ?sh" if "map_of (sh_lruList ?sh) key = None"
    using room_for_key [of key ?here "sh_lruList ?sh"] here dist k that by (auto simp: map_of_eq_None_iff)
  note acc1 = shard_access(1) [OF dist room get set]
  note acc = shard_access(2-5) [OF dist room get set, where sw' = sw', folded sh'_def]
  have "bucket_at s' k' = ((bucket_at s)(key \<mapsto> sw')) k'" for k'
    using i acc(1) by (cases "getShard s k' = ?i") (auto simp: bucket_at_def s')
  then have bat: "bucket_at s' = (bucket_at s)(key \<mapsto> sw')" by (rule ext)
  have bok: "bucket_ok s'"
    using ok i acc(2) by (auto simp: bucket_ok_def s' list_all_length nth_list_update)
  have fit: "bucket_fits ks s'"
    using fits i acc(3,4) k by (auto simp: bucket_fits_def s' nth_list_update Let_def)
  show thesis
    by (rule that [OF _ bat bok fit]) (use tc r acc1 in \<open>simp_all add: bucket_at_def\<close>)
qed

section \<open>What a rate limiter promises\<close>

text \<open>
  The contract a caller of a bucket store relies on: for each key a log of the admitted times that
  a request changes as the reference window says, and nothing else. From it, for every sequence of
  requests with times that never go back, no window of time admits more than the limit.
\<close>

fun limiter_run :: "('st \<Rightarrow> time \<Rightarrow> 'k \<Rightarrow> 'st \<times> bool) \<Rightarrow> 'st \<Rightarrow> (time \<times> 'k) list \<Rightarrow> 'st \<times> (time \<times> 'k) list" where
  "limiter_run f st [] = (st, [])"
| "limiter_run f st ((now, k) # rs) =
     (let (st, a) = f st now k;
          (st, admitted) = limiter_run f st rs
      in (st, if a then (now, k) # admitted else admitted))"

definition times_of :: "'k \<Rightarrow> (time \<times> 'k) list \<Rightarrow> time list" where
  "times_of k rs = map fst (filter (\<lambda>r. snd r = k) rs)"

definition within :: "duration \<Rightarrow> time \<Rightarrow> time list \<Rightarrow> nat" where
  "within W t us = length (filter (\<lambda>u. t - W < u \<and> u \<le> t) us)"

lemma times_of_simps [simp]:
  "times_of k [] = []" "times_of k ((t, j) # rs) = (if j = k then [t] else []) @ times_of k rs"
  by (simp_all add: times_of_def)

lemma limiter_run_subset: "set (snd (limiter_run f st rs)) \<subseteq> set rs"
proof (induction rs arbitrary: st)
  case (Cons r rs)
  obtain now k where r: "r = (now, k)" by fastforce
  show ?case using Cons.IH [of "fst (f st now k)"] by (auto simp: r split: prod.splits)
qed simp

lemma limiter_run_append:
  "limiter_run f st (rs @ rs') =
     (let (st, a) = limiter_run f st rs; (st, b) = limiter_run f st rs' in (st, a @ b))"
proof (induction rs arbitrary: st)
  case (Cons r rs)
  obtain now k where r: "r = (now, k)" by fastforce
  obtain st1 a where "f st now k = (st1, a)" by fastforce
  then show ?case using Cons.IH [of st1] by (simp add: r split: prod.splits)
qed simp

lemma within_append [simp]: "within W t (us @ vs) = within W t us + within W t vs"
  by (simp add: within_def)

lemma within_le: "now \<le> t \<Longrightarrow> within W t us \<le> length (filter (\<lambda>u. now - W < u) us)"
  unfolding within_def by (induction us) auto

lemma within_admit:
  assumes "\<forall>t. int (within W t us) \<le> max 0 L" "int (length (filter (\<lambda>u. now - W < u) us)) + 1 \<le> L"
  shows "\<forall>t. int (within W t (us @ [now])) \<le> max 0 L"
proof
  fix t
  show "int (within W t (us @ [now])) \<le> max 0 L"
  proof (cases "now \<le> t")
    case True
    have "within W t [now] \<le> 1" by (simp add: within_def)
    with True assms(2) within_le [of now t W us] show ?thesis by simp
  next
    case False
    then have "within W t [now] = 0" by (simp add: within_def)
    with assms(1) show ?thesis by simp
  qed
qed

locale rate_limiter =
  fixes allow :: "'st \<Rightarrow> time \<Rightarrow> 'k \<Rightarrow> 'st \<times> bool"
    and keys :: "'k set"
    and lim :: "'k \<Rightarrow> int"
    and win :: "'k \<Rightarrow> duration"
    and ok :: "'st \<Rightarrow> time \<Rightarrow> bool"
    and log :: "'st \<Rightarrow> 'k \<Rightarrow> time list"
  assumes allow_law:
    "ok st now0 \<Longrightarrow> now0 \<le> now \<Longrightarrow> k \<in> keys \<Longrightarrow> allow st now k = (st', a) \<Longrightarrow>
       ok st' now \<and> window_spec (win k) 1 (lim k) now (log st k) = (log st' k, a) \<and>
       (\<forall>j \<in> keys. j \<noteq> k \<longrightarrow> log st' j = log st j)"
begin

text \<open>The log agrees with the history \<open>us\<close> of \<open>k\<close> on every window that is still to come.\<close>

definition follows :: "'st \<Rightarrow> time \<Rightarrow> 'k \<Rightarrow> time list \<Rightarrow> bool" where
  "follows st now k us \<longleftrightarrow> (\<forall>c. now - win k \<le> c \<longrightarrow> filter (\<lambda>u. c < u) (log st k) = filter (\<lambda>u. c < u) us)"

lemma follows_step:
  assumes "ok st now0" "now0 \<le> now" "j \<in> keys" "allow st now j = (st', a)" "follows st now0 k us" "k \<in> keys"
    and bound: "\<forall>t. int (within (win k) t us) \<le> max 0 (lim k)"
  defines "vs \<equiv> us @ (if a \<and> j = k then [now] else [])"
  shows "follows st' now k vs" "\<forall>t. int (within (win k) t vs) \<le> max 0 (lim k)"
proof -
  note law = allow_law [OF assms(1-4)]
  have "follows st' now k vs \<and> (\<forall>t. int (within (win k) t vs) \<le> max 0 (lim k))"
  proof (cases "j = k")
    case False
    then show ?thesis using law assms(2,5,6) bound by (auto simp: follows_def vs_def)
  next
    case True
    have ys: "filter (\<lambda>u. now - win k < u) (log st k) = filter (\<lambda>u. now - win k < u) us"
      using assms(2,5) by (simp add: follows_def)
    have cut: "filter (\<lambda>u. c < u) (filter (\<lambda>u. now - win k < u) us) = filter (\<lambda>u. c < u) us"
      if "now - win k \<le> c" for c
      using that by (auto intro: filter_cong)
    have spec: "(log st' k, a) = (if int (length (filter (\<lambda>u. now - win k < u) us)) + 1 > lim k
        then (filter (\<lambda>u. now - win k < u) us, False) else (filter (\<lambda>u. now - win k < u) us @ [now], True))"
      using law True by (auto simp: window_spec_def ys)
    show ?thesis
    proof (cases a)
      case False
      then show ?thesis using spec cut bound by (auto simp: follows_def vs_def split: if_splits)
    next
      case True
      then have "\<forall>t. int (within (win k) t (us @ [now])) \<le> max 0 (lim k)"
        using spec by (intro within_admit [OF bound]) (auto split: if_splits)
      then show ?thesis using spec cut True \<open>j = k\<close> by (auto simp: follows_def vs_def split: if_splits)
    qed
  qed
  then show "follows st' now k vs" "\<forall>t. int (within (win k) t vs) \<le> max 0 (lim k)" by blast+
qed

lemma run_bounded:
  assumes "ok st now0" "sorted (now0 # map fst rs)" "snd ` set rs \<subseteq> keys" "follows st now0 k us" "k \<in> keys"
    and "\<forall>t. int (within (win k) t us) \<le> max 0 (lim k)"
  shows "int (within (win k) t (us @ times_of k (snd (limiter_run allow st rs)))) \<le> max 0 (lim k)"
  using assms
proof (induction rs arbitrary: st now0 us)
  case (Cons r rs)
  obtain now j where r: "r = (now, j)" by fastforce
  obtain st' a where step: "allow st now j = (st', a)" by fastforce
  have le: "now0 \<le> now" "j \<in> keys" using Cons.prems by (auto simp: r)
  note cont = follows_step [OF Cons.prems(1) le step Cons.prems(4,5,6)]
  have "ok st' now" using allow_law [OF Cons.prems(1) le step] by blast
  from Cons.IH [OF this _ _ cont(1) Cons.prems(5) cont(2)] Cons.prems show ?case
    by (auto simp: r step split: prod.splits if_splits)
qed simp

lemma limit_holds:
  assumes "ok st now0" "sorted (now0 # map fst rs)" "snd ` set rs \<subseteq> keys" "log st k = []"
  shows "int (within (win k) t (times_of k (snd (limiter_run allow st rs)))) \<le> max 0 (lim k)"
proof (cases "k \<in> keys")
  case True
  then show ?thesis
    using run_bounded [OF assms(1-3), of k "[]" t] assms(4) by (simp add: follows_def within_def)
next
  case False
  then have "times_of k (snd (limiter_run allow st rs)) = []"
    using assms(3) limiter_run_subset [of allow st rs] by (force simp: times_of_def filter_empty_conv)
  then show ?thesis by (simp add: within_def)
qed

end

section \<open>The in-memory store is a rate limiter\<close>

text \<open>Callers name their keys by an injective function \<open>nm\<close> into the strings of the store.\<close>

definition bucket_admit :: "('k \<Rightarrow> string) \<Rightarrow> ('k \<Rightarrow> int) \<Rightarrow> ('k \<Rightarrow> duration) \<Rightarrow> InMemoryBucketStore \<Rightarrow> time \<Rightarrow> 'k
    \<Rightarrow> InMemoryBucketStore \<times> bool" where
  "bucket_admit nm lim win s now k = map_prod id rl_Allowed (Allow s (ctx_at now) (nm k) (lim k) (win k))"

definition bucket_inv :: "('k \<Rightarrow> string) \<Rightarrow> 'k list \<Rightarrow> ('k \<Rightarrow> duration) \<Rightarrow> InMemoryBucketStore \<Rightarrow> time \<Rightarrow> bool" where
  "bucket_inv nm ks win s now \<longleftrightarrow> bucket_ok s \<and> bucket_fits (map nm ks) s \<and>
     (\<forall>k \<in> set ks. \<forall>w. bucket_at s (nm k) = Some w \<longrightarrow> sw_upto w now \<and> sw_windowSize w = win k)"

definition bucket_log :: "('k \<Rightarrow> string) \<Rightarrow> InMemoryBucketStore \<Rightarrow> 'k \<Rightarrow> time list" where
  "bucket_log nm s k = (case bucket_at s (nm k) of None \<Rightarrow> [] | Some w \<Rightarrow> sw_entries w)"

lemma Allow_ctx: "ctx_Now c = ctx_Now c' \<Longrightarrow> Allow s c key limit window = Allow s c' key limit window"
  by (simp add: Allow_def AllowN_def)

lemma sw_upto_mono: "sw_upto w now0 \<Longrightarrow> now0 \<le> now \<Longrightarrow> sw_upto w now"
  by (auto simp: sw_upto_def)

lemma bucket_inv_mono: "bucket_inv nm ks win s now0 \<Longrightarrow> now0 \<le> now \<Longrightarrow> bucket_inv nm ks win s now"
  unfolding bucket_inv_def by (blast intro: sw_upto_mono)

lemma bucket_window:
  assumes "bucket_inv nm ks win s now0" "now0 \<le> now" "k \<in> set ks"
  defines "w \<equiv> case bucket_at s (nm k) of Some w \<Rightarrow> w | None \<Rightarrow> new_window (win k)"
  shows "sw_upto w now" "sw_windowSize w = win k" "sw_entries w = bucket_log nm s k"
proof -
  have "sw_windowSize (new_window (win k)) = win k" by (simp add: new_window_def)
  then have "sw_upto w now \<and> sw_windowSize w = win k \<and> sw_entries w = bucket_log nm s k"
    using bucket_inv_mono [OF assms(1,2)] assms(3) unfolding w_def
    by (cases "bucket_at s (nm k)") (auto simp: bucket_inv_def bucket_log_def)
  then show "sw_upto w now" "sw_windowSize w = win k" "sw_entries w = bucket_log nm s k" by blast+
qed

lemma bucket_admit_law:
  assumes inv: "bucket_inv nm ks win s now0" and le: "now0 \<le> now" and k: "k \<in> set ks" "lim k \<le> int circularBufferSize"
    and inj: "inj_on nm (set ks)" and step: "bucket_admit nm lim win s now k = (s', a)"
  shows "bucket_inv nm ks win s' now \<and> window_spec (win k) 1 (lim k) now (bucket_log nm s k) = (bucket_log nm s' k, a) \<and>
         (\<forall>j \<in> set ks. j \<noteq> k \<longrightarrow> bucket_log nm s' j = bucket_log nm s j)"
proof -
  note w = bucket_window [OF inv le k(1)]
  obtain r where r: "AllowN s (ctx_at now) (nm k) 1 (lim k) (win k) = (s', r)" "a = rl_Allowed r"
    using step by (auto simp: bucket_admit_def Allow_def map_prod_def split: prod.splits)
  have ok: "bucket_ok s" "bucket_fits (map nm ks) s" "nm k \<in> set (map nm ks)" using inv k(1) by (auto simp: bucket_inv_def)
  obtain sw' where tc: "tryConsume (case bucket_at s (nm k) of Some w \<Rightarrow> w | None \<Rightarrow> new_window (win k)) 1 (lim k) now =
        (sw', rl_Allowed r, rl_Remaining r, rl_ResetAt r)"
    and s': "bucket_at s' = (bucket_at s)(nm k \<mapsto> sw')" "bucket_ok s'" "bucket_fits (map nm ks) s'"
    using AllowN_effect [OF ok r(1)] by auto
  note eq = tryConsume_eq [OF w(1) _ k(2) tc]
  have other: "nm j \<noteq> nm k" if "j \<in> set ks" "j \<noteq> k" for j
    using inj_onD [OF inj] that k(1) by blast
  have "bucket_inv nm ks win s' now"
    using bucket_inv_mono [OF inv le] eq(2,3) w(2) s' other by (auto simp: bucket_inv_def)
  with eq(1) other show ?thesis by (simp add: w r(2) s'(1) bucket_log_def)
qed

interpretation buckets: rate_limiter "bucket_admit nm lim win"
    "{k \<in> set ks. lim k \<le> int circularBufferSize \<and> inj_on nm (set ks)}" lim win
    "bucket_inv nm ks win" "bucket_log nm"
  for nm lim win ks
  by unfold_locales (auto dest: bucket_admit_law)

text \<open>A new store has no windows.\<close>

lemma New_bucket_store_empty: "sh \<in> set (bs_shards (New_bucket_store opts)) \<Longrightarrow> sh_lruList sh = []"
proof -
  have keep: "\<forall>sh \<in> set (bs_shards (fold apply_bucket_option opts s)). sh_lruList sh = []"
    if "\<forall>sh \<in> set (bs_shards s). sh_lruList sh = []" for s
    using that
  proof (induction opts arbitrary: s)
    case (Cons opt opts)
    show ?case using Cons.prems by (cases opt) (auto intro!: Cons.IH)
  qed simp
  show "sh \<in> set (bs_shards (New_bucket_store opts)) \<Longrightarrow> sh_lruList sh = []"
    unfolding New_bucket_store_def Let_def by (rule bspec [OF keep]) (simp_all add: newShard_def)
qed

lemma bucket_at_New:
  assumes "bucket_ok (New_bucket_store opts)"
  shows "bucket_at (New_bucket_store opts) k = None"
  using New_bucket_store_empty [OF nth_mem [OF bucket_okD(1) [OF assms, of k]]] by (simp add: bucket_at_def)

text \<open>
  \<^bold>\<open>C28\<close>: The sliding window of the bucket store, a circular buffer of 256 times with a
  lazily cleaned length, implements the plain list of admitted times: for a limit the buffer can
  hold, a call at a time not before the recorded ones drops exactly the times that left the window,
  admits the request if and only if the remaining times and its cost stay within the limit, and
  records its cost as that many copies of the current time. The reported remainder is the room left.
  The reset time of a denied call is one window after the oldest counted request (after now if there
  is none), that of an admitted call is one window after now, whatever the oldest counted request is.
  The invariant of the buffer is kept.
\<close>

theorem window_refines:
  assumes "sw_upto sw now" "0 \<le> cost" "limit \<le> 256"
    and "tryConsume sw cost limit now = (sw', allowed, remaining, resetAt)"
  shows "window_spec (sw_windowSize sw) cost limit now (sw_entries sw) = (sw_entries sw', allowed) \<and> sw_upto sw' now \<and>
         remaining = (if allowed then limit - int (length (sw_entries sw')) else 0) \<and>
         resetAt = (if allowed then now else case sw_entries sw' of [] \<Rightarrow> now | t # _ \<Rightarrow> t) + sw_windowSize sw"
  using tryConsume_eq [OF assms(1,2) _ assms(4)] assms(3) by simp

definition ex_window :: slidingWindow where
  "ex_window = fst (tryConsume (fst (tryConsume (new_window (10 * second)) 1 2 (3 * second))) 1 2 (5 * second))"

lemma ex_window_entries: "sw_entries ex_window = [3 * second, 5 * second]" "sw_ok ex_window" "sw_windowSize ex_window = 10 * second"
  by code_simp+

lemma ex_window_upto: "5 * second \<le> now \<Longrightarrow> sw_upto ex_window now"
  by (simp add: sw_upto_def ex_window_entries)

theorem window_refines_witness:
  "\<exists>sw'. tryConsume ex_window 1 2 (7 * second) = (sw', False, 0, 13 * second) \<and>
     sw_entries sw' = [3 * second, 5 * second]"
proof -
  obtain sw' allowed remaining resetAt where tc: "tryConsume ex_window 1 2 (7 * second) = (sw', allowed, remaining, resetAt)"
    by (metis prod_cases4)
  have "window_spec (10 * second) 1 2 (7 * second) [3 * second, 5 * second] = ([3 * second, 5 * second], False)"
    by code_simp
  then have "sw_entries sw' = [3 * second, 5 * second]" "\<not> allowed"
    using window_refines [OF ex_window_upto _ _ tc] by (simp_all add: ex_window_entries)
  then show ?thesis
    using window_refines [OF ex_window_upto _ _ tc] tc by (simp add: ex_window_entries)
qed

text \<open>
  The bucket store enforces its limits. Start from a new store and let requests for
  any number of keys arrive, at times that never go back; every key has its own limit, at most the
  256 the buffer holds, and its own window, and the keys in use fit into their shards, so none is
  evicted. Then in every stretch of time as long as the window of a key, wherever it starts, no more
  requests of that key are admitted than its limit allows.
\<close>

lemma limit_enforced:
  assumes "bucket_ok (New_bucket_store opts)" "bucket_fits ks (New_bucket_store opts)"
    and "sorted (map fst rs)" "\<forall>r \<in> set rs. snd r \<in> set ks \<and> lim (snd r) \<le> 256"
  shows "int (within (win k) t (times_of k (snd (limiter_run (bucket_admit id lim win) (New_bucket_store opts) rs))))
           \<le> max 0 (lim k)"
proof (cases rs)
  case (Cons r rest)
  have inv: "bucket_inv id ks win (New_bucket_store opts) (fst r)" and log: "bucket_log id (New_bucket_store opts) k = []"
    using assms(1,2) by (simp_all add: bucket_inv_def bucket_log_def bucket_at_New)
  have srt: "sorted (fst r # map fst rs)" using assms(3) Cons by simp
  show ?thesis
    by (rule buckets.limit_holds [OF inv srt _ log]) (use assms(4) in auto)
qed (simp add: within_def)

text \<open>
  The reset time of a denial is exact. When a single request is denied by a full
  window, the same request made again later, with no request of that key admitted in between, is
  admitted if and only if it comes at the reported reset time or after it. (The \<^verbatim>\<open>Retry-After\<close>
  value is that time rounded down to whole seconds, so a client that waits exactly that long can
  still be early.)
\<close>

lemma denied_until_reset:
  assumes "sw_upto sw now" "0 < limit" "limit \<le> 256" "int (length (sw_entries sw)) \<le> limit" "now \<le> later"
    and "tryConsume sw 1 limit now = (sw', False, remaining, resetAt)"
  shows "fst (snd (tryConsume sw' 1 limit later)) \<longleftrightarrow> resetAt \<le> later"
proof -
  let ?W = "sw_windowSize sw"
  have L: "limit \<le> int circularBufferSize" using assms(3) by simp
  note eq = tryConsume_eq [OF assms(1) _ L assms(6)]
  define ys where "ys = sw_entries sw'"
  have "ys = filter (\<lambda>t. now - ?W < t) (sw_entries sw)" "int (length ys) + 1 > limit"
    using eq(1) by (simp_all add: window_spec_def Let_def ys_def split: if_splits)
  then have full: "int (length ys) = limit"
    using assms(4) length_filter_le [of "\<lambda>t. now - ?W < t" "sw_entries sw"] by simp
  then obtain y zs where y: "ys = y # zs" using assms(2) by (cases ys) auto
  have srt: "sorted ys" and W: "sw_windowSize sw' = ?W" using eq(2,3) by (auto simp: sw_upto_def ys_def)
  have reset: "resetAt = y + ?W" using eq(5) y by (simp add: ys_def)
  obtain sw2 al rem2 rst2 where tc: "tryConsume sw' 1 limit later = (sw2, al, rem2, rst2)" by (metis prod_cases4)
  have "al \<longleftrightarrow> int (length (filter (\<lambda>t. later - ?W < t) ys)) + 1 \<le> limit"
    using tryConsume_eq(1) [OF sw_upto_mono [OF eq(2) assms(5)] _ L tc] W
    by (auto simp: window_spec_def ys_def [symmetric] Let_def split: if_splits)
  moreover have "filter (\<lambda>t. later - ?W < t) ys = ys" if "later < y + ?W"
    using that srt y by (intro filter_True) auto
  moreover have "length (filter (\<lambda>t. later - ?W < t) ys) < length ys" if "y + ?W \<le> later"
    using that length_filter_le [of _ zs] by (auto simp: y less_Suc_eq_le)
  ultimately show ?thesis using full by (cases "later < y + ?W") (auto simp: tc reset)
qed

lemma denied_until_reset_witness:
  "\<exists>sw'. tryConsume ex_window 1 2 (7 * second) = (sw', False, 0, 13 * second) \<and>
     \<not> fst (snd (tryConsume sw' 1 2 (13 * second - 1))) \<and> fst (snd (tryConsume sw' 1 2 (13 * second)))"
proof -
  have tc: "tryConsume ex_window 1 2 (7 * second) =
      (fst (tryConsume ex_window 1 2 (7 * second)), False, 0, 13 * second)"
    by (rule prod_eqI) code_simp+
  note exact = denied_until_reset [OF ex_window_upto _ _ _ _ tc]
  show ?thesis
    using tc exact [of "13 * second - 1"] exact [of "13 * second"] by (auto simp: ex_window_entries)
qed

text \<open>
  A limit above the 256 entries of the circular buffer is not enforced at all: no
  matter how many requests the window has seen, a single request is admitted, since the buffer can
  never hold more than 256 times.
\<close>

lemma limit_above_buffer:
  assumes "sw_ok sw" "256 < limit"
  shows "fst (snd (tryConsume sw 1 limit now))"
proof -
  obtain n oldest where c: "countRequestsInWindow sw (now - sw_windowSize sw) now = (n, oldest)" by fastforce
  have "n \<le> int (sw_size sw)"
    using c length_filter_le [of _ "sw_entries sw"] by (auto simp: countRequestsInWindow_eq Let_def)
  with assms c show ?thesis by (simp add: tryConsume_def sw_ok_def Let_def)
qed

end
