(* ===== verification/RL_Services.thy ===== *)
theory RL_Services
  imports RL_Bucket
begin

text \<open>
  Services of the rate limiter: the allowlist store, request limits per address and per user, and
  limits per client, with their audit events. Bucket and allowlist stores reach the request limiter as
  arguments, so that their failures are modelled; the in-memory stores are the instances the code comes
  with.
\<close>

section \<open>Audit of the rate limiter\<close>

definition extractSubject :: "(string \<times> attr) list \<Rightarrow> string" where
  "extractSubject attrList =
     first_nonempty (map (ExtractString attrList) [''identifier'', ''ip'', ''user_id'', ''client_id'', ''api_key_id''])"

definition extractReason :: "(string \<times> attr) list \<Rightarrow> string" where
  "extractReason attrList = first_nonempty (map (ExtractString attrList) [''reason'', ''bypass_type''])"

record SecurityEvent =
  sev_Subject :: string
  sev_Action :: string
  sev_Reason :: string
  sev_RequestID :: string

definition LogAudit :: "ctx \<Rightarrow> string \<Rightarrow> (string \<times> attr) list \<Rightarrow> SecurityEvent" where
  "LogAudit ctx event attrList =
     (let requestID = ctx_RequestID ctx;
          attrList = (if requestID \<noteq> [] then attrList @ [(''request_id'', AString requestID)] else attrList)
      in \<lparr> sev_Subject = extractSubject attrList, sev_Action = event, sev_Reason = extractReason attrList,
           sev_RequestID = requestID \<rparr>)"

section \<open>The allowlist\<close>

type_synonym allowlist = "(string, AllowlistEntry) kv"

definition buildKey :: "AllowlistEntryType \<Rightarrow> string \<Rightarrow> string" where
  "buildKey entryType identifier = AllowlistEntryType_String entryType @ '':'' @ identifier"

definition Allowlist_Add :: "AllowlistEntry \<Rightarrow> allowlist \<Rightarrow> allowlist" where
  "Allowlist_Add entry s = kv_put s (buildKey (al_Type entry) (al_Identifier entry)) entry"

definition Allowlist_Remove :: "AllowlistEntryType \<Rightarrow> string \<Rightarrow> allowlist \<Rightarrow> allowlist" where
  "Allowlist_Remove entryType identifier s = kv_del s (buildKey entryType identifier)"

fun allowlisted_loop :: "allowlist \<Rightarrow> time \<Rightarrow> string \<Rightarrow> AllowlistEntryType list \<Rightarrow> bool" where
  "allowlisted_loop s now identifier [] = False"
| "allowlisted_loop s now identifier (entryType # ts) =
     (case kv_get s (buildKey entryType identifier) of
        Some entry \<Rightarrow> if \<not> AllowlistEntry_IsExpiredAt entry now then True else allowlisted_loop s now identifier ts
      | None \<Rightarrow> allowlisted_loop s now identifier ts)"

definition IsAllowlisted :: "allowlist \<Rightarrow> ctx \<Rightarrow> string \<Rightarrow> bool result" where
  "IsAllowlisted s ctx identifier =
     (if identifier = [] then Inr False
      else Inr (allowlisted_loop s (ctx_Now ctx) identifier [AllowlistTypeIP, AllowlistTypeUserID]))"

definition Allowlist_List :: "allowlist \<Rightarrow> ctx \<Rightarrow> AllowlistEntry list" where
  "Allowlist_List s ctx = filter (\<lambda>e. \<not> AllowlistEntry_IsExpiredAt e (ctx_Now ctx)) (kv_values s)"

definition RemoveExpiredAt :: "time \<Rightarrow> allowlist \<Rightarrow> allowlist" where
  "RemoveExpiredAt now s = kv_delete_where (\<lambda>e. AllowlistEntry_IsExpiredAt e now) s"

section \<open>Request limits\<close>

text \<open>
  The service state: the bucket store, the recorded bypasses (the metric) and the audit events.
  \<open>allow\<close> and \<open>allowlisted\<close> are the two stores; \<open>anonIP\<close> is \<^verbatim>\<open>privacy.AnonymizeIP\<close>.
\<close>

record 'b requests =
  rq_buckets :: 'b
  rq_bypasses :: "string list"
  rq_audit :: "SecurityEvent list"

definition rq_log :: "ctx \<Rightarrow> string \<Rightarrow> (string \<times> attr) list \<Rightarrow> 'b requests \<Rightarrow> 'b requests" where
  "rq_log ctx event attrs st = st\<lparr> rq_audit := rq_audit st @ [LogAudit ctx event attrs] \<rparr>"

type_synonym 'b allow_fun = "'b \<Rightarrow> ctx \<Rightarrow> string \<Rightarrow> int \<Rightarrow> duration \<Rightarrow> 'b \<times> RateLimitResult result"
type_synonym allowlisted_fun = "ctx \<Rightarrow> string \<Rightarrow> bool result"

definition config_missing_denial :: "ctx \<Rightarrow> RateLimitResult" where
  "config_missing_denial ctx =
     \<lparr> rl_Allowed = False, rl_Bypassed = False, rl_Limit = 0, rl_Remaining = 0, rl_ResetAt = ctx_Now ctx,
       rl_RetryAfter = 60 \<rparr>"

definition bypass_result :: "int \<Rightarrow> duration \<Rightarrow> ctx \<Rightarrow> RateLimitResult" where
  "bypass_result limit window ctx =
     \<lparr> rl_Allowed = True, rl_Bypassed = True, rl_Limit = limit, rl_Remaining = limit,
       rl_ResetAt = ctx_Now ctx + window, rl_RetryAfter = 0 \<rparr>"

definition checkRateLimit :: "'b allow_fun \<Rightarrow> allowlisted_fun \<Rightarrow> ctx \<Rightarrow> string \<Rightarrow> EndpointClass \<Rightarrow> KeyPrefix \<Rightarrow> int
    \<Rightarrow> duration \<Rightarrow> string \<Rightarrow> 'b requests \<Rightarrow> 'b requests \<times> RateLimitResult result" where
  "checkRateLimit allow allowlisted ctx identifier class keyPrefix requestsPerWindow window logIdentifier st =
     (case allowlisted ctx identifier of
        Inl e \<Rightarrow> (st, Inl (dErrors_Wrap e CodeInternal ''failed to check allowlist''))
      | Inr isAllowlisted \<Rightarrow>
          let key = NewRateLimitKey keyPrefix identifier class;
              (buckets, res) = allow (rq_buckets st) ctx (RateLimitKey_String key) requestsPerWindow window;
              st = st\<lparr> rq_buckets := buckets \<rparr>
          in (case res of
                Inl e \<Rightarrow> (st, Inl (dErrors_Wrap e CodeInternal ''failed to check rate limit''))
              | Inr r \<Rightarrow>
                  if isAllowlisted
                  then let bypassType = KeyPrefix_String keyPrefix;
                           st = st\<lparr> rq_bypasses := rq_bypasses st @ [bypassType] \<rparr>;
                           st = rq_log ctx ''allowlist_bypass''
                                  [(''identifier'', AString logIdentifier), (''endpoint_class'', AOther),
                                   (''bypass_type'', AString bypassType)] st
                       in (st, Inr (bypass_result requestsPerWindow window ctx))
                  else (if \<not> rl_Allowed r
                        then rq_log ctx (KeyPrefix_String keyPrefix @ ''_rate_limit_exceeded'')
                               [(''identifier'', AString logIdentifier), (''endpoint_class'', AOther),
                                (''limit'', AOther), (''window_seconds'', AOther)] st
                        else st, Inr r)))"

definition CheckIP :: "'b allow_fun \<Rightarrow> allowlisted_fun \<Rightarrow> (string \<Rightarrow> string) \<Rightarrow> rl_config \<Rightarrow> ctx \<Rightarrow> string \<Rightarrow> EndpointClass
    \<Rightarrow> 'b requests \<Rightarrow> 'b requests \<times> RateLimitResult result" where
  "CheckIP allow allowlisted anonIP cfg ctx ip class st =
     (case GetIPLimit cfg class of
        None \<Rightarrow>
          (rq_log ctx ''rate_limit_config_missing''
             [(''identifier'', AString (anonIP ip)), (''endpoint_class'', AOther), (''limit_type'', AOther)] st,
           Inr (config_missing_denial ctx))
      | Some (requestsPerWindow, window) \<Rightarrow>
          checkRateLimit allow allowlisted ctx ip class KeyPrefixIP requestsPerWindow window (anonIP ip) st)"

definition CheckUser :: "'b allow_fun \<Rightarrow> allowlisted_fun \<Rightarrow> rl_config \<Rightarrow> ctx \<Rightarrow> string \<Rightarrow> EndpointClass
    \<Rightarrow> 'b requests \<Rightarrow> 'b requests \<times> RateLimitResult result" where
  "CheckUser allow allowlisted cfg ctx userID class st =
     (case GetUserLimit cfg class of
        None \<Rightarrow>
          (rq_log ctx ''rate_limit_config_missing''
             [(''identifier'', AString userID), (''endpoint_class'', AOther), (''limit_type'', AOther)] st,
           Inr (config_missing_denial ctx))
      | Some (requestsPerWindow, window) \<Rightarrow>
          checkRateLimit allow allowlisted ctx userID class KeyPrefixUser requestsPerWindow window userID st)"

record limitParams =
  lp_identifier :: string
  lp_logIdentifier :: string
  lp_prefix :: KeyPrefix
  lp_limit :: int
  lp_window :: duration

definition checkSingleLimit :: "'b allow_fun \<Rightarrow> ctx \<Rightarrow> limitParams \<Rightarrow> EndpointClass \<Rightarrow> 'b requests
    \<Rightarrow> 'b requests \<times> RateLimitResult result" where
  "checkSingleLimit allow ctx p class st =
     (let key = NewRateLimitKey (lp_prefix p) (lp_identifier p) class;
          (buckets, res) = allow (rq_buckets st) ctx (RateLimitKey_String key) (lp_limit p) (lp_window p);
          st = st\<lparr> rq_buckets := buckets \<rparr>
      in (case res of
            Inl e \<Rightarrow> (st, Inl (dErrors_Wrap e CodeInternal
                       (''failed to check '' @ KeyPrefix_String (lp_prefix p) @ '' rate limit'')))
          | Inr r \<Rightarrow>
              (if \<not> rl_Allowed r
               then rq_log ctx (KeyPrefix_String (lp_prefix p) @ ''_rate_limit_exceeded'')
                      [(''identifier'', AString (lp_logIdentifier p)), (''endpoint_class'', AOther),
                       (''limit'', AOther), (''window_seconds'', AOther)] st
               else st, Inr r)))"

definition getBothLimits :: "(string \<Rightarrow> string) \<Rightarrow> rl_config \<Rightarrow> ctx \<Rightarrow> string \<Rightarrow> string \<Rightarrow> EndpointClass \<Rightarrow> 'b requests
    \<Rightarrow> 'b requests \<times> (RateLimitResult + limitParams \<times> limitParams)" where
  "getBothLimits anonIP cfg ctx ip userID class st =
     (case GetIPLimit cfg class of
        None \<Rightarrow>
          (rq_log ctx ''rate_limit_config_missing''
             [(''identifier'', AString (anonIP ip)), (''endpoint_class'', AOther), (''limit_type'', AOther)] st,
           Inl (config_missing_denial ctx))
      | Some (ipRequests, ipWindow) \<Rightarrow>
          (case GetUserLimit cfg class of
             None \<Rightarrow>
               (rq_log ctx ''rate_limit_config_missing''
                  [(''identifier'', AString userID), (''endpoint_class'', AOther), (''limit_type'', AOther)] st,
                Inl (config_missing_denial ctx))
           | Some (userRequests, userWindow) \<Rightarrow>
               (st, Inr (\<lparr> lp_identifier = ip, lp_logIdentifier = anonIP ip, lp_prefix = KeyPrefixIP,
                           lp_limit = ipRequests, lp_window = ipWindow \<rparr>,
                         \<lparr> lp_identifier = userID, lp_logIdentifier = userID, lp_prefix = KeyPrefixUser,
                           lp_limit = userRequests, lp_window = userWindow \<rparr>))))"

definition checkAllowlistStatus :: "allowlisted_fun \<Rightarrow> ctx \<Rightarrow> string \<Rightarrow> string \<Rightarrow> bool \<times> bool" where
  "checkAllowlistStatus allowlisted ctx ip userID =
     (case allowlisted ctx ip of Inl _ \<Rightarrow> False | Inr b \<Rightarrow> b,
      case allowlisted ctx userID of Inl _ \<Rightarrow> False | Inr b \<Rightarrow> b)"

definition buildBypassResult :: "(string \<Rightarrow> string) \<Rightarrow> ctx \<Rightarrow> string \<Rightarrow> string \<Rightarrow> limitParams \<Rightarrow> limitParams \<Rightarrow> bool \<Rightarrow> bool
    \<Rightarrow> 'b requests \<Rightarrow> 'b requests \<times> RateLimitResult" where
  "buildBypassResult anonIP ctx ip userID ipLimit userLimit ipAllowlisted userAllowlisted st =
     (let bypassType = (if \<not> ipAllowlisted \<and> userAllowlisted then ''user'' else ''ip'');
          st = st\<lparr> rq_bypasses := rq_bypasses st @ [bypassType] \<rparr>;
          st = rq_log ctx ''allowlist_bypass''
                 [(''ip'', AString (anonIP ip)), (''user_id'', AString userID), (''endpoint_class'', AOther),
                  (''bypass_type'', AString bypassType)] st;
          (limit, window) = (if lp_limit userLimit < lp_limit ipLimit
                             then (lp_limit userLimit, lp_window userLimit)
                             else (lp_limit ipLimit, lp_window ipLimit))
      in (st, bypass_result limit window ctx))"

definition moreRestrictiveResult :: "RateLimitResult \<Rightarrow> RateLimitResult \<Rightarrow> RateLimitResult" where
  "moreRestrictiveResult a b =
     (if rl_Remaining a < rl_Remaining b then a
      else if rl_Remaining b < rl_Remaining a then b
      else if rl_ResetAt a < rl_ResetAt b then a
      else b)"

definition CheckBoth :: "'b allow_fun \<Rightarrow> allowlisted_fun \<Rightarrow> (string \<Rightarrow> string) \<Rightarrow> rl_config \<Rightarrow> ctx \<Rightarrow> string \<Rightarrow> string
    \<Rightarrow> EndpointClass \<Rightarrow> 'b requests \<Rightarrow> 'b requests \<times> RateLimitResult result" where
  "CheckBoth allow allowlisted anonIP cfg ctx ip userID class st =
     (case getBothLimits anonIP cfg ctx ip userID class st of
        (st, Inl denial) \<Rightarrow> (st, Inr denial)
      | (st, Inr (ipLimit, userLimit)) \<Rightarrow>
          let (ipAllowlisted, userAllowlisted) = checkAllowlistStatus allowlisted ctx ip userID
          in (case checkSingleLimit allow ctx ipLimit class st of
                (st, Inl e) \<Rightarrow> (st, Inl e)
              | (st, Inr ipRes) \<Rightarrow>
                  (case checkSingleLimit allow ctx userLimit class st of
                     (st, Inl e) \<Rightarrow> (st, Inl e)
                   | (st, Inr userRes) \<Rightarrow>
                       if ipAllowlisted \<or> userAllowlisted
                       then (let (st, r) = buildBypassResult anonIP ctx ip userID ipLimit userLimit
                                             ipAllowlisted userAllowlisted st
                             in (st, Inr r))
                       else if \<not> rl_Allowed ipRes then (st, Inr ipRes)
                       else if \<not> rl_Allowed userRes then (st, Inr userRes)
                       else (st, Inr (moreRestrictiveResult ipRes userRes)))))"

text \<open>The in-memory bucket store never fails.\<close>

definition memory_allow :: "InMemoryBucketStore allow_fun" where
  "memory_allow s ctx key limit window = (let (s, r) = Allow s ctx key limit window in (s, Inr r))"

section \<open>Client limits\<close>

definition anonymizeClientID :: "string \<Rightarrow> string" where
  "anonymizeClientID clientID =
     (if length clientID \<le> 8 then take (length clientID div 2) clientID @ ''***''
      else take 4 clientID @ ''***'' @ drop (length clientID - 4) clientID)"

definition ClientLimit_Check :: "'b allow_fun \<Rightarrow> (ctx \<Rightarrow> string \<Rightarrow> bool result) \<Rightarrow> ClientLimitConfig \<Rightarrow> ctx \<Rightarrow> string
    \<Rightarrow> string \<Rightarrow> 'b requests \<Rightarrow> 'b requests \<times> RateLimitResult result" where
  "ClientLimit_Check allow isConfidentialClient cfg ctx clientID endpoint st =
     (if clientID = []
      then (st, Inr \<lparr> rl_Allowed = True, rl_Bypassed = False, rl_Limit = 0, rl_Remaining = 0,
                      rl_ResetAt = ctx_Now ctx, rl_RetryAfter = 0 \<rparr>)
      else let isConfidential = (case isConfidentialClient ctx clientID of Inl _ \<Rightarrow> False | Inr b \<Rightarrow> b);
               (limit, clientType) = (if isConfidential then (cl_ConfidentialLimit cfg, ''confidential'')
                                      else (cl_PublicLimit cfg, ''public''));
               key = NewClientRateLimitKey clientID endpoint;
               (buckets, res) = allow (rq_buckets st) ctx key (lim_RequestsPerWindow limit) (lim_Window limit);
               st = st\<lparr> rq_buckets := buckets \<rparr>
           in (case res of
                 Inl e \<Rightarrow> (st, Inl (dErrors_Wrap e CodeInternal ''failed to check client rate limit''))
               | Inr r \<Rightarrow>
                   (if \<not> rl_Allowed r
                    then rq_log ctx ''client_rate_limit_exceeded''
                           [(''client_id'', AString (anonymizeClientID clientID)), (''client_type'', AString clientType),
                            (''endpoint'', AString endpoint), (''limit'', AOther), (''window_seconds'', AOther)] st
                    else st, Inr r)))"

end
