(* ===== verification/RL_Requests.thy ===== *)
theory RL_Requests
  imports RL_Services
begin

text \<open>
  Properties of the request limiter over the in-memory bucket store: a combined check admits exactly
  what both limits allow, and over any sequence of checks the configured limits hold per address and
  per user.
\<close>

section \<open>Requests and their buckets\<close>

datatype rq_op = ReqIP string EndpointClass | ReqUser string EndpointClass | ReqBoth string string EndpointClass

fun rq_do :: "allowlisted_fun \<Rightarrow> (string \<Rightarrow> string) \<Rightarrow> rl_config \<Rightarrow> ctx \<Rightarrow> rq_op \<Rightarrow> InMemoryBucketStore requests
    \<Rightarrow> InMemoryBucketStore requests \<times> RateLimitResult result" where
  "rq_do allowlisted anonIP cfg ctx (ReqIP ip c) st = CheckIP memory_allow allowlisted anonIP cfg ctx ip c st"
| "rq_do allowlisted anonIP cfg ctx (ReqUser u c) st = CheckUser memory_allow allowlisted cfg ctx u c st"
| "rq_do allowlisted anonIP cfg ctx (ReqBoth ip u c) st = CheckBoth memory_allow allowlisted anonIP cfg ctx ip u c st"

text \<open>A bucket is named by its prefix, identifier and class.\<close>

type_synonym bkey = "KeyPrefix \<times> string \<times> EndpointClass"

definition bkey_String :: "bkey \<Rightarrow> string" where
  "bkey_String k = (case k of (p, i, c) \<Rightarrow> RateLimitKey_String (NewRateLimitKey p i c))"

fun bkey_limit :: "rl_config \<Rightarrow> bkey \<Rightarrow> (int \<times> duration) option" where
  "bkey_limit cfg (KeyPrefixIP, i, c) = GetIPLimit cfg c"
| "bkey_limit cfg (KeyPrefixUser, i, c) = GetUserLimit cfg c"
| "bkey_limit cfg _ = None"

definition bkey_lim :: "rl_config \<Rightarrow> bkey \<Rightarrow> int" where
  "bkey_lim cfg k = (case bkey_limit cfg k of Some (n, w) \<Rightarrow> n | None \<Rightarrow> 0)"

definition bkey_win :: "rl_config \<Rightarrow> bkey \<Rightarrow> duration" where
  "bkey_win cfg k = (case bkey_limit cfg k of Some (n, w) \<Rightarrow> w | None \<Rightarrow> 0)"

fun op_keys :: "rq_op \<Rightarrow> bkey list" where
  "op_keys (ReqIP ip c) = [(KeyPrefixIP, ip, c)]"
| "op_keys (ReqUser u c) = [(KeyPrefixUser, u, c)]"
| "op_keys (ReqBoth ip u c) = [(KeyPrefixIP, ip, c), (KeyPrefixUser, u, c)]"

fun op_class :: "rq_op \<Rightarrow> EndpointClass" where
  "op_class (ReqIP ip c) = c"
| "op_class (ReqUser u c) = c"
| "op_class (ReqBoth ip u c) = c"

text \<open>A request counts as limited and admitted when it is allowed and not bypassed.\<close>

definition counted :: "RateLimitResult result \<Rightarrow> bool" where
  "counted res = (case res of Inl _ \<Rightarrow> False | Inr r \<Rightarrow> rl_Allowed r \<and> \<not> rl_Bypassed r)"

fun rq_run :: "allowlisted_fun \<Rightarrow> (string \<Rightarrow> string) \<Rightarrow> rl_config \<Rightarrow> InMemoryBucketStore requests \<Rightarrow> (ctx \<times> rq_op) list
    \<Rightarrow> InMemoryBucketStore requests \<times> (time \<times> rq_op) list" where
  "rq_run allowlisted anonIP cfg st [] = (st, [])"
| "rq_run allowlisted anonIP cfg st ((ctx, op) # ops) =
     (let (st, res) = rq_do allowlisted anonIP cfg ctx op st;
          (st, admitted) = rq_run allowlisted anonIP cfg st ops
      in (st, if counted res then (ctx_Now ctx, op) # admitted else admitted))"

abbreviation rq_admit :: "rl_config \<Rightarrow> InMemoryBucketStore \<Rightarrow> time \<Rightarrow> bkey \<Rightarrow> InMemoryBucketStore \<times> bool" where
  "rq_admit cfg \<equiv> bucket_admit bkey_String (bkey_lim cfg) (bkey_win cfg)"

lemma rq_buckets_log [simp]: "rq_buckets (rq_log ctx e a st) = rq_buckets st"
  by (simp add: rq_log_def)

lemma memory_allow_admit:
  assumes "bkey_limit cfg k = Some (n, w)"
  shows "memory_allow s ctx (bkey_String k) n w =
           (fst (rq_admit cfg s (ctx_Now ctx) k), Inr (snd (Allow s ctx (bkey_String k) n w)))"
    and "rl_Allowed (snd (Allow s ctx (bkey_String k) n w)) = snd (rq_admit cfg s (ctx_Now ctx) k)"
  using assms Allow_ctx [of "ctx_at (ctx_Now ctx)" ctx]
  by (simp_all add: memory_allow_def bucket_admit_def bkey_lim_def bkey_win_def split: prod.splits)

lemma Allow_not_bypassed: "\<not> rl_Bypassed (snd (Allow s ctx k n w))"
  by (simp add: Allow_def AllowN_def Let_def split: prod.splits)

lemma checkRateLimit_access:
  assumes "bkey_limit cfg (p, i, c) = Some (n, w)"
    and "checkRateLimit memory_allow allowlisted ctx i c p n w li st = (st', res)"
  obtains ks adm where "ks = [] \<or> ks = [(p, i, c)]"
    and "limiter_run (rq_admit cfg) (rq_buckets st) (map (Pair (ctx_Now ctx)) ks) = (rq_buckets st', adm)"
    and "counted res \<Longrightarrow> adm = [(ctx_Now ctx, (p, i, c))]"
proof (cases "allowlisted ctx i")
  case (Inl e)
  then have "st' = st" "\<not> counted res" using assms(2) by (auto simp: checkRateLimit_def counted_def)
  then show thesis by (intro that [of "[]" "[]"]) auto
next
  case (Inr b)
  let ?k = "(p, i, c)" and ?now = "ctx_Now ctx"
  let ?r = "snd (Allow (rq_buckets st) ctx (bkey_String ?k) n w)"
  note adm = memory_allow_admit [OF assms(1), of "rq_buckets st" ctx]
  have key: "RateLimitKey_String (NewRateLimitKey p i c) = bkey_String ?k" by (simp add: bkey_String_def)
  have st': "rq_buckets st' = fst (rq_admit cfg (rq_buckets st) ?now ?k)"
    and res: "counted res \<Longrightarrow> rl_Allowed ?r"
    using assms(2) Inr adm(1) by (auto simp: checkRateLimit_def key counted_def bypass_result_def Let_def split: if_splits)
  show thesis
    by (rule that [of "[?k]" "if rl_Allowed ?r then [(?now, ?k)] else []"])
      (use st' res adm(2) in \<open>auto split: prod.splits\<close>)
qed

lemma checkSingleLimit_access:
  assumes "bkey_limit cfg (lp_prefix p, lp_identifier p, c) = Some (lp_limit p, lp_window p)"
  shows "checkSingleLimit memory_allow ctx p c st =
           (fst (checkSingleLimit memory_allow ctx p c st), Inr (snd (Allow (rq_buckets st) ctx (bkey_String (lp_prefix p, lp_identifier p, c)) (lp_limit p) (lp_window p))))"
    and "rq_buckets (fst (checkSingleLimit memory_allow ctx p c st)) =
           fst (rq_admit cfg (rq_buckets st) (ctx_Now ctx) (lp_prefix p, lp_identifier p, c))"
proof -
  have key: "RateLimitKey_String (NewRateLimitKey (lp_prefix p) (lp_identifier p) c) = bkey_String (lp_prefix p, lp_identifier p, c)"
    by (simp add: bkey_String_def)
  note adm = memory_allow_admit(1) [OF assms, of "rq_buckets st" ctx]
  show "checkSingleLimit memory_allow ctx p c st =
      (fst (checkSingleLimit memory_allow ctx p c st), Inr (snd (Allow (rq_buckets st) ctx (bkey_String (lp_prefix p, lp_identifier p, c)) (lp_limit p) (lp_window p))))"
    by (simp add: checkSingleLimit_def key adm Let_def)
  show "rq_buckets (fst (checkSingleLimit memory_allow ctx p c st)) =
      fst (rq_admit cfg (rq_buckets st) (ctx_Now ctx) (lp_prefix p, lp_identifier p, c))"
    by (simp add: checkSingleLimit_def key adm Let_def)
qed

definition either_allowlisted :: "allowlisted_fun \<Rightarrow> ctx \<Rightarrow> string \<Rightarrow> string \<Rightarrow> bool" where
  "either_allowlisted allowlisted ctx ip u =
     (case checkAllowlistStatus allowlisted ctx ip u of (a, b) \<Rightarrow> a \<or> b)"

text \<open>The combined check: both buckets are asked, in this order, whatever the allowlist says.\<close>

lemma CheckBoth_unfold:
  assumes ip: "GetIPLimit cfg c = Some (ipN, ipW)" and user: "GetUserLimit cfg c = Some (uN, uW)"
  shows "\<exists>st' r. CheckBoth memory_allow allowlisted anonIP cfg ctx ip u c st = (st', Inr r) \<and>
    (let (s1, a) = rq_admit cfg (rq_buckets st) (ctx_Now ctx) (KeyPrefixIP, ip, c);
         (s2, b) = rq_admit cfg s1 (ctx_Now ctx) (KeyPrefixUser, u, c)
     in rq_buckets st' = s2 \<and> rl_Allowed r = (either_allowlisted allowlisted ctx ip u \<or> a \<and> b) \<and>
        rl_Bypassed r = either_allowlisted allowlisted ctx ip u)"
proof -
  define ipK uK where "ipK = (KeyPrefixIP, ip, c)" and "uK = (KeyPrefixUser, u, c)"
  define pi where "pi = \<lparr> lp_identifier = ip, lp_logIdentifier = anonIP ip, lp_prefix = KeyPrefixIP, lp_limit = ipN, lp_window = ipW \<rparr>"
  define pu where "pu = \<lparr> lp_identifier = u, lp_logIdentifier = u, lp_prefix = KeyPrefixUser, lp_limit = uN, lp_window = uW \<rparr>"
  have both: "getBothLimits anonIP cfg ctx ip u c st = (st, Inr (pi, pu))"
    using ip user by (simp add: getBothLimits_def pi_def pu_def)
  have fi: "lp_prefix pi = KeyPrefixIP" "lp_identifier pi = ip" "lp_limit pi = ipN" "lp_window pi = ipW"
    and fu: "lp_prefix pu = KeyPrefixUser" "lp_identifier pu = u" "lp_limit pu = uN" "lp_window pu = uW"
    by (simp_all add: pi_def pu_def)
  define st1 where "st1 = fst (checkSingleLimit memory_allow ctx pi c st)"
  define st2 where "st2 = fst (checkSingleLimit memory_allow ctx pu c st1)"
  define ri where "ri = snd (Allow (rq_buckets st) ctx (bkey_String ipK) ipN ipW)"
  define ru where "ru = snd (Allow (rq_buckets st1) ctx (bkey_String uK) uN uW)"
  have li: "bkey_limit cfg ipK = Some (ipN, ipW)" and lu: "bkey_limit cfg uK = Some (uN, uW)"
    using ip user by (simp_all add: ipK_def uK_def)
  have c1: "checkSingleLimit memory_allow ctx pi c st = (st1, Inr ri)"
    and b1: "rq_buckets st1 = fst (rq_admit cfg (rq_buckets st) (ctx_Now ctx) ipK)"
    using checkSingleLimit_access [of cfg pi c ctx st] li by (simp_all add: fi st1_def ri_def ipK_def)
  have c2: "checkSingleLimit memory_allow ctx pu c st1 = (st2, Inr ru)"
    and b2: "rq_buckets st2 = fst (rq_admit cfg (rq_buckets st1) (ctx_Now ctx) uK)"
    using checkSingleLimit_access [of cfg pu c ctx st1] lu by (simp_all add: fu st2_def ru_def uK_def)
  have a1: "rl_Allowed ri = snd (rq_admit cfg (rq_buckets st) (ctx_Now ctx) ipK)"
    and a2: "rl_Allowed ru = snd (rq_admit cfg (rq_buckets st1) (ctx_Now ctx) uK)"
    and nb: "\<not> rl_Bypassed ri" "\<not> rl_Bypassed ru"
    using memory_allow_admit(2) [OF li] memory_allow_admit(2) [OF lu] Allow_not_bypassed by (simp_all add: ri_def ru_def)
  obtain ia ua where al: "checkAllowlistStatus allowlisted ctx ip u = (ia, ua)" by fastforce
  have "CheckBoth memory_allow allowlisted anonIP cfg ctx ip u c st =
      (if ia \<or> ua then (let (st, r) = buildBypassResult anonIP ctx ip u pi pu ia ua st2 in (st, Inr r))
       else if \<not> rl_Allowed ri then (st2, Inr ri) else if \<not> rl_Allowed ru then (st2, Inr ru)
       else (st2, Inr (moreRestrictiveResult ri ru)))"
    by (simp add: CheckBoth_def both al c1 c2)
  moreover have "either_allowlisted allowlisted ctx ip u = (ia \<or> ua)" by (simp add: either_allowlisted_def al)
  ultimately show ?thesis
    using a1 a2 b1 b2 nb unfolding ipK_def [symmetric] uK_def [symmetric]
    by (auto simp: buildBypassResult_def bypass_result_def moreRestrictiveResult_def Let_def split: prod.splits)
qed

section \<open>Limits over runs of requests\<close>

lemma rq_do_access:
  assumes "rq_do allowlisted anonIP cfg ctx op st = (st', res)"
  obtains ks adm where "ks = [] \<or> ks = op_keys op"
    and "limiter_run (rq_admit cfg) (rq_buckets st) (map (Pair (ctx_Now ctx)) ks) = (rq_buckets st', adm)"
    and "counted res \<Longrightarrow> adm = map (Pair (ctx_Now ctx)) (op_keys op)"
proof (cases op)
  case (ReqIP ip c)
  show thesis
  proof (cases "GetIPLimit cfg c")
    case None
    then show thesis using assms ReqIP
      by (intro that [of "[]" "[]"]) (auto simp: CheckIP_def counted_def config_missing_denial_def)
  next
    case (Some nw)
    then show thesis
      using checkRateLimit_access [of cfg KeyPrefixIP ip c "fst nw" "snd nw" allowlisted ctx "anonIP ip" st st' res] assms ReqIP that
      by (auto simp: CheckIP_def split: prod.splits)
  qed
next
  case (ReqUser u c)
  show thesis
  proof (cases "GetUserLimit cfg c")
    case None
    then show thesis using assms ReqUser
      by (intro that [of "[]" "[]"]) (auto simp: CheckUser_def counted_def config_missing_denial_def)
  next
    case (Some nw)
    then show thesis
      using checkRateLimit_access [of cfg KeyPrefixUser u c "fst nw" "snd nw" allowlisted ctx u st st' res] assms ReqUser that
      by (auto simp: CheckUser_def split: prod.splits)
  qed
next
  case (ReqBoth ip u c)
  show thesis
  proof (cases "\<exists>ipN ipW uN uW. GetIPLimit cfg c = Some (ipN, ipW) \<and> GetUserLimit cfg c = Some (uN, uW)")
    case True
    then obtain r where "res = Inr r"
      and eff: "let (s1, a) = rq_admit cfg (rq_buckets st) (ctx_Now ctx) (KeyPrefixIP, ip, c);
          (s2, b) = rq_admit cfg s1 (ctx_Now ctx) (KeyPrefixUser, u, c)
        in rq_buckets st' = s2 \<and> rl_Allowed r = (either_allowlisted allowlisted ctx ip u \<or> a \<and> b) \<and>
           rl_Bypassed r = either_allowlisted allowlisted ctx ip u"
      using CheckBoth_unfold [of cfg c _ _ _ _ allowlisted anonIP ctx ip u st] assms ReqBoth by fastforce
    obtain s1 a s2 b where steps: "rq_admit cfg (rq_buckets st) (ctx_Now ctx) (KeyPrefixIP, ip, c) = (s1, a)"
      "rq_admit cfg s1 (ctx_Now ctx) (KeyPrefixUser, u, c) = (s2, b)" by fastforce
    show thesis
      by (rule that [of "op_keys op" "(if a then [(ctx_Now ctx, (KeyPrefixIP, ip, c))] else []) @
            (if b then [(ctx_Now ctx, (KeyPrefixUser, u, c))] else [])"])
        (use eff steps \<open>res = Inr r\<close> ReqBoth in \<open>auto simp: counted_def\<close>)
  next
    case False
    then show thesis using assms ReqBoth
      by (intro that [of "[]" "[]"])
        (auto simp: CheckBoth_def getBothLimits_def counted_def config_missing_denial_def split: option.splits prod.splits)
  qed
qed

definition op_times :: "bkey \<Rightarrow> (time \<times> rq_op) list \<Rightarrow> time list" where
  "op_times k admitted = map fst (filter (\<lambda>a. k \<in> set (op_keys (snd a))) admitted)"

lemma op_times_access: "op_times k [(now, op)] = times_of k (map (Pair now) (op_keys op))"
  by (cases op) (auto simp: op_times_def times_of_def)

lemma rq_run_accesses:
  assumes "sorted (now0 # map (\<lambda>a. ctx_Now (fst a)) ops)"
    and "rq_run allowlisted anonIP cfg st ops = (st', admitted)"
  shows "\<exists>rs adm. limiter_run (rq_admit cfg) (rq_buckets st) rs = (rq_buckets st', adm) \<and>
           sorted (now0 # map fst rs) \<and> snd ` set rs \<subseteq> (\<Union>a \<in> set ops. set (op_keys (snd a))) \<and>
           (\<forall>k W t. within W t (op_times k admitted) \<le> within W t (times_of k adm))"
  using assms
proof (induction ops arbitrary: now0 st admitted)
  case Nil
  then show ?case by (intro exI [of _ "[]"]) (auto simp: op_times_def within_def)
next
  case (Cons a ops)
  obtain ctx op where a: "a = (ctx, op)" by fastforce
  let ?now = "ctx_Now ctx"
  obtain st1 res where do1: "rq_do allowlisted anonIP cfg ctx op st = (st1, res)" by fastforce
  obtain adm2 where run: "rq_run allowlisted anonIP cfg st1 ops = (st', adm2)"
    and admitted: "admitted = (if counted res then [(?now, op)] else []) @ adm2"
    using Cons.prems(2) by (auto simp: a do1 split: prod.splits if_splits)
  obtain ks adm where ks: "ks = [] \<or> ks = op_keys op"
    and acc: "limiter_run (rq_admit cfg) (rq_buckets st) (map (Pair ?now) ks) = (rq_buckets st1, adm)"
    and cnt: "counted res \<Longrightarrow> adm = map (Pair ?now) (op_keys op)"
    using rq_do_access [OF do1] by blast
  have "sorted (?now # map (\<lambda>a. ctx_Now (fst a)) ops)" using Cons.prems(1) by (simp add: a)
  from Cons.IH [OF this run] obtain rs adms where
    rest: "limiter_run (rq_admit cfg) (rq_buckets st1) rs = (rq_buckets st', adms)" "sorted (?now # map fst rs)"
      "snd ` set rs \<subseteq> (\<Union>a \<in> set ops. set (op_keys (snd a)))"
      "\<And>k W t. within W t (op_times k adm2) \<le> within W t (times_of k adms)"
    by blast
  have first: "within W t (op_times k (if counted res then [(?now, op)] else [])) \<le> within W t (times_of k adm)" for k W t
  proof (cases "counted res")
    case True
    then show ?thesis using cnt op_times_access [of k ?now op] by simp
  qed (simp add: op_times_def within_def)
  have split_times: "op_times k (xs @ ys) = op_times k xs @ op_times k ys" "times_of k (bs @ cs) = times_of k bs @ times_of k cs"
    for k xs ys bs cs by (simp_all add: op_times_def times_of_def)
  show ?case
  proof (intro exI conjI allI)
    show "limiter_run (rq_admit cfg) (rq_buckets st) (map (Pair ?now) ks @ rs) = (rq_buckets st', adm @ adms)"
      by (simp add: limiter_run_append acc rest(1))
    show "sorted (now0 # map fst (map (Pair ?now) ks @ rs))"
      using rest(2) Cons.prems(1) by (auto simp: a sorted_append comp_def sorted_replicate map_replicate_const)
    show "snd ` set (map (Pair ?now) ks @ rs) \<subseteq> (\<Union>a \<in> set (a # ops). set (op_keys (snd a)))"
      using rest(3) ks by (auto simp: a)
    show "within W t (op_times k admitted) \<le> within W t (times_of k (adm @ adms))" for k W t
      using first [where k = k and W = W and t = t] rest(4) [where k = k and W = W and t = t]
      unfolding admitted split_times within_append by linarith
  qed
qed

text \<open>Distinct buckets of recognised classes have distinct names.\<close>

lemma EndpointClass_String_inj:
  "EndpointClass_IsValid c \<Longrightarrow> EndpointClass_IsValid d \<Longrightarrow> EndpointClass_String c = EndpointClass_String d \<Longrightarrow> c = d"
  by (cases c; cases d) auto

definition bkey_valid :: "bkey \<Rightarrow> bool" where
  "bkey_valid k = EndpointClass_IsValid (snd (snd k))"

lemma bkey_String_inj: "list_all bkey_valid ks \<Longrightarrow> inj_on bkey_String (set ks)"
  unfolding inj_on_def list_all_iff bkey_valid_def
  by (auto simp: bkey_String_def rate_key_inj) (metis EndpointClass_String_inj snd_conv)

text \<open>
  \<^bold>\<open>C30\<close>: The request limiter enforces its configuration end to end. Take any sequence of
  checks (by address, by user, or both) against a new store, with any allowlist, at times that never
  go back; let the buckets they use be of recognised classes, fit the store, and have configured
  limits of at most 256. Then for every address or user and class, in every stretch of time as long
  as the configured window, at most the configured number of requests is allowed without an
  allowlist bypass. A combined check counts against both of its buckets.
\<close>

theorem request_limits_enforced:
  assumes "bucket_ok (New_bucket_store opts)" "bucket_fits (map bkey_String ks) (New_bucket_store opts)"
    and "list_all bkey_valid ks" "\<forall>k \<in> set ks. bkey_lim cfg k \<le> 256"
    and "sorted (map (\<lambda>a. ctx_Now (fst a)) ops)" "\<forall>a \<in> set ops. set (op_keys (snd a)) \<subseteq> set ks"
    and "rq_buckets st = New_bucket_store opts"
    and "rq_run allowlisted anonIP cfg st ops = (st', admitted)" "bkey_limit cfg k = Some (limit, window)"
  shows "int (within window t (op_times k admitted)) \<le> max 0 limit"
proof (cases ops)
  case Nil
  then show ?thesis using assms(8) by (simp add: op_times_def within_def)
next
  case (Cons a rest)
  let ?now0 = "ctx_Now (fst a)"
  have srt: "sorted (?now0 # map (\<lambda>a. ctx_Now (fst a)) ops)" using assms(5) Cons by simp
  obtain rs adm where run: "limiter_run (rq_admit cfg) (New_bucket_store opts) rs = (rq_buckets st', adm)"
    "sorted (?now0 # map fst rs)" "snd ` set rs \<subseteq> (\<Union>a \<in> set ops. set (op_keys (snd a)))"
    "within window t (op_times k admitted) \<le> within window t (times_of k adm)"
    using rq_run_accesses [OF srt assms(8)] assms(7) by metis
  have inv: "bucket_inv bkey_String ks (bkey_win cfg) (New_bucket_store opts) ?now0"
    and log: "bucket_log bkey_String (New_bucket_store opts) k = []"
    using assms(1,2) by (simp_all add: bucket_inv_def bucket_log_def bucket_at_New)
  have "snd ` set rs \<subseteq> {k \<in> set ks. bkey_lim cfg k \<le> int circularBufferSize \<and> inj_on bkey_String (set ks)}"
    using run(3) assms(3,4,6) bkey_String_inj [of ks] by fastforce
  note bound = buckets.limit_holds [OF inv run(2) this log, of t]
  have "bkey_lim cfg k = limit" "bkey_win cfg k = window" using assms(9) by (simp_all add: bkey_lim_def bkey_win_def)
  with bound run(1,4) show ?thesis by simp
qed

definition ex_requests :: "InMemoryBucketStore requests" where
  "ex_requests = \<lparr> rq_buckets = New_bucket_store [WithShardCount 2, WithMaxBucketsPerShard 3], rq_bypasses = [], rq_audit = [] \<rparr>"

definition ex_ops :: "(ctx \<times> rq_op) list" where
  "ex_ops = map (\<lambda>t. (ctx_at t, ReqBoth ''10.0.0.1'' ''u'' ClassAuth)) [1, 1, 1, 1, 1, 1, 1, 1, 1, 1, 2, minute + 1]"

lemma ex_ops_run:
  "snd (rq_run (IsAllowlisted []) (\<lambda>ip. ip) DefaultConfig ex_requests ex_ops) =
     map (\<lambda>t. (t, ReqBoth ''10.0.0.1'' ''u'' ClassAuth)) [1, 1, 1, 1, 1, 1, 1, 1, 1, 1, minute + 1]"
  by code_simp

theorem request_limits_enforced_witness:
  "\<exists>st' admitted. rq_run (IsAllowlisted []) (\<lambda>ip. ip) DefaultConfig ex_requests ex_ops = (st', admitted) \<and>
     length admitted = 11 \<and>
     within minute 30 (op_times (KeyPrefixIP, ''10.0.0.1'', ClassAuth) admitted) = 10 \<and>
     int (within minute (minute + 1) (op_times (KeyPrefixIP, ''10.0.0.1'', ClassAuth) admitted)) \<le> max 0 10"
proof -
  let ?ks = "[(KeyPrefixIP, ''10.0.0.1'', ClassAuth), (KeyPrefixUser, ''u'', ClassAuth)]"
  obtain st' admitted where run: "rq_run (IsAllowlisted []) (\<lambda>ip. ip) DefaultConfig ex_requests ex_ops = (st', admitted)"
    by fastforce
  have adm: "admitted = map (\<lambda>t. (t, ReqBoth ''10.0.0.1'' ''u'' ClassAuth)) [1, 1, 1, 1, 1, 1, 1, 1, 1, 1, minute + 1]"
    using ex_ops_run run by simp
  have "bucket_ok (New_bucket_store [WithShardCount 2, WithMaxBucketsPerShard 3])"
    and "bucket_fits (map bkey_String ?ks) (New_bucket_store [WithShardCount 2, WithMaxBucketsPerShard 3])"
    and "list_all bkey_valid ?ks" and "\<forall>k \<in> set ?ks. bkey_lim DefaultConfig k \<le> 256"
    and "sorted (map (\<lambda>a. ctx_Now (fst a)) ex_ops)" and "\<forall>a \<in> set ex_ops. set (op_keys (snd a)) \<subseteq> set ?ks"
    and "rq_buckets ex_requests = New_bucket_store [WithShardCount 2, WithMaxBucketsPerShard 3]"
    by code_simp+
  note bound = request_limits_enforced [OF this run, of "(KeyPrefixIP, ''10.0.0.1'', ClassAuth)" 10 minute "minute + 1"]
  have "bkey_limit DefaultConfig (KeyPrefixIP, ''10.0.0.1'', ClassAuth) = Some (10, minute)" by code_simp
  then have "int (within minute (minute + 1) (op_times (KeyPrefixIP, ''10.0.0.1'', ClassAuth) admitted)) \<le> max 0 10"
    by (rule bound)
  moreover have "length admitted = 11 \<and> within minute 30 (op_times (KeyPrefixIP, ''10.0.0.1'', ClassAuth) admitted) = 10"
    unfolding adm by code_simp
  ultimately show ?thesis using run by blast
qed

end
