(* ===== verification/RL_Lockout.thy ===== *)
theory RL_Lockout
  imports RL_Services
begin

text \<open>
  Lockouts after failed logins: the in-memory store, the service and the cleanup worker
  (\<^verbatim>\<open>store/authlockout\<close>, \<^verbatim>\<open>service/authlockout\<close>, \<^verbatim>\<open>workers/cleanup\<close>). The service
  is shown to decide each pair of account and address by the failures of that pair alone.

  Calls of the service come one after the other. With the in-memory store \<^verbatim>\<open>recordFailureNonAtomic\<close>
  (by its comment the path of tests) changes the record it shares with the map outside the lock of the
  store, so what two concurrent failures of one pair do there is a data race and not part of this
  model; the path for stores with atomic operations is \<open>recordFailureAtomic\<close>.
\<close>

section \<open>The store\<close>

type_synonym lockout_store = "(string, AuthLockout) kv"

definition LockoutStore_Get :: "lockout_store \<Rightarrow> string \<Rightarrow> AuthLockout option result" where
  "LockoutStore_Get s identifier = Inr (kv_get s identifier)"

definition LockoutStore_GetOrCreate :: "lockout_store \<Rightarrow> string \<Rightarrow> time \<Rightarrow> lockout_store \<times> AuthLockout result" where
  "LockoutStore_GetOrCreate s identifier now =
     (case kv_get s identifier of
        Some existing \<Rightarrow> (s, Inr existing)
      | None \<Rightarrow>
          let record = \<lparr> lo_Identifier = identifier, lo_FailureCount = 0, lo_DailyFailures = 0, lo_LockedUntil = None,
                         lo_LastFailureAt = now, lo_RequiresCaptcha = False \<rparr>
          in (kv_put s identifier record, Inr record))"

definition LockoutStore_Clear :: "lockout_store \<Rightarrow> string \<Rightarrow> lockout_store \<times> go_error option" where
  "LockoutStore_Clear s identifier = (kv_del s identifier, None)"

definition LockoutStore_Update :: "lockout_store \<Rightarrow> AuthLockout \<Rightarrow> lockout_store \<times> go_error option" where
  "LockoutStore_Update s r = (kv_put s (lo_Identifier r) r, None)"

definition LockoutStore_ResetFailureCount :: "lockout_store \<Rightarrow> time \<Rightarrow> lockout_store \<times> int result" where
  "LockoutStore_ResetFailureCount s cutoff =
     (map (\<lambda>(k, r). (k, if lo_LastFailureAt r < cutoff then r\<lparr> lo_FailureCount := 0 \<rparr> else r)) s,
      Inr (sum_list (map (\<lambda>r. if lo_LastFailureAt r < cutoff then lo_FailureCount r else 0) (kv_values s))))"

definition LockoutStore_ResetDailyFailures :: "lockout_store \<Rightarrow> time \<Rightarrow> lockout_store \<times> int result" where
  "LockoutStore_ResetDailyFailures s cutoff =
     (map (\<lambda>(k, r). (k, if lo_LastFailureAt r < cutoff then r\<lparr> lo_DailyFailures := 0 \<rparr> else r)) s,
      Inr (sum_list (map (\<lambda>r. if lo_LastFailureAt r < cutoff then lo_DailyFailures r else 0) (kv_values s))))"

section \<open>The service\<close>

record lockouts =
  lk_store :: lockout_store
  lk_audit :: "SecurityEvent list"

definition lk_log :: "ctx \<Rightarrow> string \<Rightarrow> (string \<times> attr) list \<Rightarrow> lockouts \<Rightarrow> lockouts" where
  "lk_log ctx event attrs st = st\<lparr> lk_audit := lk_audit st @ [LogAudit ctx event attrs] \<rparr>"

text \<open>\<^verbatim>\<open>Duration.Milliseconds\<close> truncates towards zero.\<close>

definition Milliseconds :: "64 word \<Rightarrow> int" where
  "Milliseconds d = sgn (sint d) * (\<bar>sint d\<bar> div 1000000)"

definition GetProgressiveBackoff :: "AuthLockoutConfig \<Rightarrow> int \<Rightarrow> 64 word" where
  "GetProgressiveBackoff cfg failureCount = AuthLockoutConfig_CalculateBackoff cfg failureCount"

definition buildAuthResult :: "bool \<Rightarrow> int \<Rightarrow> int \<Rightarrow> int \<Rightarrow> time \<Rightarrow> AuthLockout \<Rightarrow> AuthRateLimitResult" where
  "buildAuthResult allowed limit remaining retryAfter resetAt r =
     \<lparr> rl_Allowed = allowed, rl_Bypassed = False, rl_Limit = limit, rl_Remaining = remaining, rl_ResetAt = resetAt,
       rl_RetryAfter = retryAfter, rl_RequiresCaptcha = lo_RequiresCaptcha r, rl_FailureCount = lo_FailureCount r \<rparr>"

definition zero_lockout :: AuthLockout where
  "zero_lockout = \<lparr> lo_Identifier = [], lo_FailureCount = 0, lo_DailyFailures = 0, lo_LockedUntil = None,
     lo_LastFailureAt = zero_time, lo_RequiresCaptcha = False \<rparr>"

definition Lockout_Check :: "(string \<Rightarrow> string) \<Rightarrow> AuthLockoutConfig \<Rightarrow> ctx \<Rightarrow> string \<Rightarrow> string \<Rightarrow> lockouts
    \<Rightarrow> lockouts \<times> AuthRateLimitResult result" where
  "Lockout_Check anonIP cfg ctx identifier ip st =
     (let key = RateLimitKey_String (NewAuthLockoutKey identifier ip)
      in case LockoutStore_Get (lk_store st) key of
           Inl e \<Rightarrow> (st, Inl (dErrors_Wrap e CodeInternal ''failed to get auth lockout record''))
         | Inr failureRecord \<Rightarrow>
             let r = (case failureRecord of Some r \<Rightarrow> r | None \<Rightarrow> zero_lockout);
                 now = ctx_Now ctx
             in case (if AuthLockout_IsLockedAt r now then lo_LockedUntil r else None) of
                  Some lockedUntil \<Rightarrow>
                    let retryAfter = max (whole_seconds (time_Sub lockedUntil now)) 0
                    in (lk_log ctx ''auth_lockout_triggered''
                          [(''identifier'', AString identifier), (''ip'', AString (anonIP ip)), (''locked_until'', AOther)] st,
                        Inr (buildAuthResult False 0 0 retryAfter lockedUntil r))
                | None \<Rightarrow>
                    if AuthLockout_IsAttemptLimitReached r (lc_AttemptsPerWindow cfg)
                    then let resetAt = BackoffPolicy_ResetTime (AuthLockoutConfig_BackoffPolicy cfg) (lo_LastFailureAt r);
                             retryAfter = max (whole_seconds (time_Sub resetAt now)) 0
                         in (st, Inr (buildAuthResult False 0 0 retryAfter resetAt r))
                    else let delay = GetProgressiveBackoff cfg (lo_FailureCount r);
                             remaining = min (AuthLockout_RemainingAttempts r (lc_AttemptsPerWindow cfg)) (lc_AttemptsPerWindow cfg)
                         in (st, Inr (buildAuthResult True (lc_AttemptsPerWindow cfg) remaining (Milliseconds delay)
                                        (now + lc_WindowDuration cfg) r)))"

definition recordFailureNonAtomic :: "(string \<Rightarrow> string) \<Rightarrow> AuthLockoutConfig \<Rightarrow> ctx \<Rightarrow> string \<Rightarrow> string \<Rightarrow> string \<Rightarrow> time
    \<Rightarrow> lockouts \<Rightarrow> lockouts \<times> AuthLockout result" where
  "recordFailureNonAtomic anonIP cfg ctx key identifier ip now st =
     (case LockoutStore_GetOrCreate (lk_store st) key now of
        (s, Inl e) \<Rightarrow> (st\<lparr> lk_store := s \<rparr>, Inl (dErrors_Wrap e CodeInternal ''failed to get auth lockout record''))
      | (s, Inr current) \<Rightarrow>
          let st = st\<lparr> lk_store := s \<rparr>;
              current = AuthLockout_RecordFailure current now;
              shouldHardLock = AuthLockout_ShouldHardLock current (lc_HardLockThreshold cfg);
              shouldRequireCaptcha =
                (AuthLockout_ShouldRequireCaptcha current (lc_CaptchaAfterLockouts cfg) \<and> \<not> lo_RequiresCaptcha current);
              current = (if shouldHardLock then AuthLockout_ApplyHardLock current (lc_HardLockDuration cfg) now else current);
              current = (if shouldRequireCaptcha then AuthLockout_MarkRequiresCaptcha current else current)
          in (case LockoutStore_Update (lk_store st) current of
                (s, Some e) \<Rightarrow>
                  (st\<lparr> lk_store := s \<rparr>, Inl (dErrors_Wrap e CodeInternal ''failed to update auth lockout record''))
              | (s, None) \<Rightarrow>
                  let st = st\<lparr> lk_store := s \<rparr>;
                      st = (if shouldHardLock
                            then lk_log ctx ''auth_lockout_triggered''
                                   [(''identifier'', AString identifier), (''ip'', AString (anonIP ip)),
                                    (''locked_until'', AOther)] st
                            else st)
                  in (st, Inr current)))"

text \<open>The in-memory store has no atomic operations, so \<^verbatim>\<open>RecordFailure\<close> takes the other path.\<close>

definition Lockout_RecordFailure :: "(string \<Rightarrow> string) \<Rightarrow> AuthLockoutConfig \<Rightarrow> ctx \<Rightarrow> string \<Rightarrow> string \<Rightarrow> lockouts
    \<Rightarrow> lockouts \<times> AuthLockout result" where
  "Lockout_RecordFailure anonIP cfg ctx identifier ip st =
     (let now = ctx_Now ctx;
          key = RateLimitKey_String (NewAuthLockoutKey identifier ip)
      in recordFailureNonAtomic anonIP cfg ctx key identifier ip now st)"

text \<open>The path for stores with atomic operations, over any such store.\<close>

record 's AtomicStore =
  as_RecordFailureAtomic :: "'s \<Rightarrow> string \<Rightarrow> time \<Rightarrow> 's \<times> AuthLockout result"
  as_ApplyHardLockAtomic :: "'s \<Rightarrow> string \<Rightarrow> time \<Rightarrow> int \<Rightarrow> 's \<times> bool result"
  as_SetRequiresCaptchaAtomic :: "'s \<Rightarrow> string \<Rightarrow> int \<Rightarrow> 's \<times> bool result"

definition recordFailureAtomic_captcha :: "'s AtomicStore \<Rightarrow> AuthLockoutConfig \<Rightarrow> string \<Rightarrow> AuthLockout
    \<Rightarrow> 's \<times> SecurityEvent list \<Rightarrow> ('s \<times> SecurityEvent list) \<times> AuthLockout result" where
  "recordFailureAtomic_captcha store cfg key current st =
     (if AuthLockout_ShouldRequireCaptcha current (lc_CaptchaAfterLockouts cfg) \<and> \<not> lo_RequiresCaptcha current
      then (case as_SetRequiresCaptchaAtomic store (fst st) key (lc_CaptchaAfterLockouts cfg * lc_HardLockThreshold cfg) of
              (s, Inl e) \<Rightarrow> ((s, snd st), Inl (dErrors_Wrap e CodeInternal ''failed to set captcha requirement''))
            | (s, Inr applied) \<Rightarrow>
                ((s, snd st), Inr (if applied then current\<lparr> lo_RequiresCaptcha := True \<rparr> else current)))
      else (st, Inr current))"

definition recordFailureAtomic :: "(string \<Rightarrow> string) \<Rightarrow> 's AtomicStore \<Rightarrow> AuthLockoutConfig \<Rightarrow> ctx \<Rightarrow> string \<Rightarrow> string \<Rightarrow> string
    \<Rightarrow> time \<Rightarrow> 's \<times> SecurityEvent list \<Rightarrow> ('s \<times> SecurityEvent list) \<times> AuthLockout result" where
  "recordFailureAtomic anonIP store cfg ctx key identifier ip now st =
     (case as_RecordFailureAtomic store (fst st) key now of
        (s, Inl e) \<Rightarrow> ((s, snd st), Inl (dErrors_Wrap e CodeInternal ''failed to record auth failure''))
      | (s, Inr current) \<Rightarrow>
          if AuthLockout_ShouldHardLock current (lc_HardLockThreshold cfg)
          then let lockedUntil = now + lc_HardLockDuration cfg
               in (case as_ApplyHardLockAtomic store s key lockedUntil (lc_HardLockThreshold cfg) of
                     (s, Inl e) \<Rightarrow> ((s, snd st), Inl (dErrors_Wrap e CodeInternal ''failed to apply hard lock''))
                   | (s, Inr applied) \<Rightarrow>
                       if applied
                       then recordFailureAtomic_captcha store cfg key (current\<lparr> lo_LockedUntil := Some lockedUntil \<rparr>)
                              (s, snd st @ [LogAudit ctx ''auth_lockout_triggered''
                                              [(''identifier'', AString identifier), (''ip'', AString (anonIP ip)),
                                               (''locked_until'', AOther)]])
                       else recordFailureAtomic_captcha store cfg key current (s, snd st))
          else recordFailureAtomic_captcha store cfg key current (s, snd st))"

definition Lockout_Clear :: "(string \<Rightarrow> string) \<Rightarrow> ctx \<Rightarrow> string \<Rightarrow> string \<Rightarrow> lockouts \<Rightarrow> lockouts \<times> go_error option" where
  "Lockout_Clear anonIP ctx identifier ip st =
     (let key = RateLimitKey_String (NewAuthLockoutKey identifier ip)
      in case LockoutStore_Clear (lk_store st) key of
           (s, Some e) \<Rightarrow> (st\<lparr> lk_store := s \<rparr>, Some (dErrors_Wrap e CodeInternal ''failed to clear auth failures''))
         | (s, None) \<Rightarrow>
             (lk_log ctx ''auth_lockout_cleared'' [(''identifier'', AString identifier), (''ip'', AString (anonIP ip))]
                (st\<lparr> lk_store := s \<rparr>), None))"

section \<open>The cleanup worker\<close>

record CleanupResult =
  cr_FailuresReset :: int
  cr_DailyFailuresReset :: int

definition Cleanup_RunOnce :: "AuthLockoutConfig \<Rightarrow> ctx \<Rightarrow> lockouts \<Rightarrow> lockouts \<times> CleanupResult result" where
  "Cleanup_RunOnce cfg ctx st =
     (let now = ctx_Now ctx;
          windowCutoff = now - lc_WindowDuration cfg;
          dailyCutoff = now - 24 * hour
      in case LockoutStore_ResetFailureCount (lk_store st) windowCutoff of
           (s, Inl e) \<Rightarrow> (st\<lparr> lk_store := s \<rparr>, Inl e)
         | (s, Inr failuresReset) \<Rightarrow>
             (case LockoutStore_ResetDailyFailures s dailyCutoff of
                (s, Inl e) \<Rightarrow> (st\<lparr> lk_store := s \<rparr>, Inl e)
              | (s, Inr dailyReset) \<Rightarrow>
                  (st\<lparr> lk_store := s \<rparr>,
                   Inr \<lparr> cr_FailuresReset = failuresReset, cr_DailyFailuresReset = dailyReset \<rparr>)))"

section \<open>Each pair is decided by its own failures\<close>

text \<open>
  The reference for one pair of account and address: the failures counted, the time of the last one,
  and the end of a hard lock.
\<close>

datatype lk_op = LFail string string | LClear string string | LCheck string string | LCleanup

fun lk_do :: "(string \<Rightarrow> string) \<Rightarrow> AuthLockoutConfig \<Rightarrow> ctx \<times> lk_op \<Rightarrow> lockouts \<Rightarrow> lockouts" where
  "lk_do anonIP cfg (ctx, LFail i ip) st = fst (Lockout_RecordFailure anonIP cfg ctx i ip st)"
| "lk_do anonIP cfg (ctx, LClear i ip) st = fst (Lockout_Clear anonIP ctx i ip st)"
| "lk_do anonIP cfg (ctx, LCheck i ip) st = fst (Lockout_Check anonIP cfg ctx i ip st)"
| "lk_do anonIP cfg (ctx, LCleanup) st = fst (Cleanup_RunOnce cfg ctx st)"

type_synonym pair_state = "int \<times> time option \<times> time option"

fun pair_step :: "AuthLockoutConfig \<Rightarrow> string \<Rightarrow> string \<Rightarrow> ctx \<times> lk_op \<Rightarrow> pair_state \<Rightarrow> pair_state" where
  "pair_step cfg i ip (ctx, LFail j jp) (n, lastAt, lock) =
     (if j = i \<and> jp = ip
      then (n + 1, Some (ctx_Now ctx),
            if n + 1 \<ge> lc_HardLockThreshold cfg then Some (ctx_Now ctx + lc_HardLockDuration cfg) else lock)
      else (n, lastAt, lock))"
| "pair_step cfg i ip (ctx, LClear j jp) (n, lastAt, lock) = (if j = i \<and> jp = ip then (0, None, None) else (n, lastAt, lock))"
| "pair_step cfg i ip (ctx, LCheck j jp) p = p"
| "pair_step cfg i ip (ctx, LCleanup) (n, lastAt, lock) =
     (case lastAt of
        None \<Rightarrow> (n, lastAt, lock)
      | Some t \<Rightarrow> (if t < ctx_Now ctx - lc_WindowDuration cfg then 0 else n, lastAt, lock))"

abbreviation lockout_key :: "string \<Rightarrow> string \<Rightarrow> string" where
  "lockout_key i ip \<equiv> RateLimitKey_String (NewAuthLockoutKey i ip)"

definition pair_of :: "lockouts \<Rightarrow> string \<Rightarrow> pair_state" where
  "pair_of st key =
     (case kv_get (lk_store st) key of
        None \<Rightarrow> (0, None, None)
      | Some r \<Rightarrow> (lo_FailureCount r, Some (lo_LastFailureAt r), lo_LockedUntil r))"

definition lk_ok :: "lockouts \<Rightarrow> bool" where
  "lk_ok st \<longleftrightarrow> kv_ok (lk_store st) \<and> (\<forall>k r. kv_get (lk_store st) k = Some r \<longrightarrow> lo_Identifier r = k)"

lemma lk_log_simps [simp]: "lk_store (lk_log ctx e a st) = lk_store st"
  by (simp add: lk_log_def)

text \<open>The record a failure leaves.\<close>

lemma RecordFailure_store:
  assumes "lk_ok st"
  obtains r where "lk_store (fst (Lockout_RecordFailure anonIP cfg ctx i ip st)) = kv_put (lk_store st) (lockout_key i ip) r"
    and "lo_Identifier r = lockout_key i ip"
    and "pair_of (fst (Lockout_RecordFailure anonIP cfg ctx i ip st)) (lockout_key i ip) =
           pair_step cfg i ip (ctx, LFail i ip) (pair_of st (lockout_key i ip))"
proof -
  let ?k = "lockout_key i ip" and ?now = "ctx_Now ctx"
  define r0 where "r0 = (case kv_get (lk_store st) ?k of Some r \<Rightarrow> r | None \<Rightarrow>
    \<lparr> lo_Identifier = ?k, lo_FailureCount = 0, lo_DailyFailures = 0, lo_LockedUntil = None, lo_LastFailureAt = ?now,
      lo_RequiresCaptcha = False \<rparr>)"
  define r1 where "r1 = AuthLockout_RecordFailure r0 ?now"
  define r2 where "r2 = (if AuthLockout_ShouldHardLock r1 (lc_HardLockThreshold cfg)
    then AuthLockout_ApplyHardLock r1 (lc_HardLockDuration cfg) ?now else r1)"
  define r where "r = (if AuthLockout_ShouldRequireCaptcha r1 (lc_CaptchaAfterLockouts cfg) \<and> \<not> lo_RequiresCaptcha r1
    then AuthLockout_MarkRequiresCaptcha r2 else r2)"
  have id0: "lo_Identifier r0 = ?k" using assms by (auto simp: r0_def lk_ok_def split: option.splits)
  have r_fields: "lo_Identifier r = ?k" "lo_FailureCount r = lo_FailureCount r0 + 1" "lo_LastFailureAt r = ?now"
    "lo_LockedUntil r = (if lo_FailureCount r0 + 1 \<ge> lc_HardLockThreshold cfg then Some (?now + lc_HardLockDuration cfg) else lo_LockedUntil r0)"
    by (auto simp: r_def r2_def r1_def id0 AuthLockout_RecordFailure_def AuthLockout_ShouldHardLock_def
      AuthLockout_ApplyHardLock_def AuthLockout_MarkRequiresCaptcha_def)
  have goc: "LockoutStore_GetOrCreate (lk_store st) ?k ?now =
      (if kv_get (lk_store st) ?k = None then kv_put (lk_store st) ?k r0 else lk_store st, Inr r0)"
    by (simp add: LockoutStore_GetOrCreate_def r0_def Let_def split: option.splits)
  have "lk_store (fst (Lockout_RecordFailure anonIP cfg ctx i ip st)) =
      kv_put (if kv_get (lk_store st) ?k = None then kv_put (lk_store st) ?k r0 else lk_store st) ?k r"
    unfolding Lockout_RecordFailure_def recordFailureNonAtomic_def Let_def goc prod.case sum.case
      r1_def [symmetric] r2_def [symmetric] r_def [symmetric]
    by (simp add: LockoutStore_Update_def r_fields(1))
  moreover have "kv_put (kv_put (lk_store st) ?k r0) ?k r = kv_put (lk_store st) ?k r"
    by (induction "lk_store st") auto
  ultimately have store: "lk_store (fst (Lockout_RecordFailure anonIP cfg ctx i ip st)) = kv_put (lk_store st) ?k r" by simp
  have "pair_of (fst (Lockout_RecordFailure anonIP cfg ctx i ip st)) ?k = (lo_FailureCount r, Some (lo_LastFailureAt r), lo_LockedUntil r)"
    by (simp add: pair_of_def store kv_simps)
  also have "\<dots> = pair_step cfg i ip (ctx, LFail i ip) (pair_of st ?k)"
    by (simp add: r_fields pair_of_def) (simp add: r0_def split: option.splits)
  finally show thesis using that [OF store r_fields(1)] by blast
qed

lemma map_values_get: "kv_get (map (\<lambda>(k, r). (k, f r)) s) k = map_option f (kv_get s k)"
  by (induction s) auto

lemma map_values_keys: "map fst (map (\<lambda>(k, r). (k, f r)) s) = map fst s"
  by (induction s) auto

lemma Cleanup_store:
  "lk_store (fst (Cleanup_RunOnce cfg ctx st)) =
     map (\<lambda>(k, r). (k, if lo_LastFailureAt r < ctx_Now ctx - 24 * hour then r\<lparr> lo_DailyFailures := 0 \<rparr> else r))
       (map (\<lambda>(k, r). (k, if lo_LastFailureAt r < ctx_Now ctx - lc_WindowDuration cfg then r\<lparr> lo_FailureCount := 0 \<rparr> else r))
         (lk_store st))"
  by (simp only: Cleanup_RunOnce_def LockoutStore_ResetFailureCount_def LockoutStore_ResetDailyFailures_def Let_def)
    simp

lemma lk_do_step:
  assumes "lk_ok st"
  shows "lk_ok (lk_do anonIP cfg a st)"
    and "pair_of (lk_do anonIP cfg a st) (lockout_key i ip) = pair_step cfg i ip a (pair_of st (lockout_key i ip))"
proof -
  obtain ctx op where a: "a = (ctx, op)" by fastforce
  have "lk_ok (lk_do anonIP cfg a st) \<and>
    pair_of (lk_do anonIP cfg a st) (lockout_key i ip) = pair_step cfg i ip a (pair_of st (lockout_key i ip))"
  proof (cases op)
    case (LFail j jp)
    obtain r where r: "lk_store (lk_do anonIP cfg a st) = kv_put (lk_store st) (lockout_key j jp) r"
      "lo_Identifier r = lockout_key j jp"
      "pair_of (lk_do anonIP cfg a st) (lockout_key j jp) = pair_step cfg j jp (ctx, LFail j jp) (pair_of st (lockout_key j jp))"
      using RecordFailure_store [OF assms, of anonIP cfg ctx j jp] by (auto simp: a LFail)
    have "lk_ok (lk_do anonIP cfg a st)" using assms r(1,2) by (auto simp: lk_ok_def kv_simps)
    moreover have "pair_of (lk_do anonIP cfg a st) (lockout_key i ip) = pair_of st (lockout_key i ip)"
      if "\<not> (j = i \<and> jp = ip)"
      using r(1) that by (auto simp: pair_of_def kv_simps lockout_key_inj)
    ultimately show ?thesis using r(3) by (cases "pair_of st (lockout_key i ip)") (auto simp: a LFail)
  next
    case (LClear j jp)
    have st': "lk_store (fst (Lockout_Clear anonIP ctx j jp st)) = kv_del (lk_store st) (lockout_key j jp)"
      by (simp add: Lockout_Clear_def LockoutStore_Clear_def)
    have "lk_ok (lk_do anonIP cfg a st)" using assms by (auto simp: a LClear lk_ok_def st' kv_simps)
    then show ?thesis
      by (cases "pair_of st (lockout_key i ip)") (auto simp: a LClear pair_of_def st' kv_simps lockout_key_inj)
  next
    case (LCheck j jp)
    have "lk_store (lk_do anonIP cfg a st) = lk_store st"
      by (auto simp: a LCheck Lockout_Check_def LockoutStore_Get_def Let_def split: option.splits)
    then show ?thesis using assms by (simp add: a LCheck lk_ok_def pair_of_def)
  next
    case LCleanup
    note st' = Cleanup_store [of cfg ctx st]
    have "lk_ok (lk_do anonIP cfg a st)"
      using assms unfolding a LCleanup lk_do.simps lk_ok_def st' map_values_keys map_values_get by auto
    moreover have "pair_of (lk_do anonIP cfg a st) (lockout_key i ip) = pair_step cfg i ip a (pair_of st (lockout_key i ip))"
      unfolding a LCleanup lk_do.simps pair_of_def st' map_values_get
      by (cases "kv_get (lk_store st) (lockout_key i ip)") auto
    ultimately show ?thesis by blast
  qed
  then show "lk_ok (lk_do anonIP cfg a st)"
    and "pair_of (lk_do anonIP cfg a st) (lockout_key i ip) = pair_step cfg i ip a (pair_of st (lockout_key i ip))" by blast+
qed

lemma lk_run:
  "lk_ok st \<Longrightarrow> lk_ok (fold (lk_do anonIP cfg) ops st) \<and>
     pair_of (fold (lk_do anonIP cfg) ops st) (lockout_key i ip) = fold (pair_step cfg i ip) ops (pair_of st (lockout_key i ip))"
  by (induction ops arbitrary: st) (simp_all add: lk_do_step)

definition no_lockouts :: lockouts where
  "no_lockouts = \<lparr> lk_store = [], lk_audit = [] \<rparr>"

text \<open>
  \<^bold>\<open>C31\<close>: A login attempt is decided by the failures of its own account and address. After
  any sequence of recorded failures, clearances, checks and cleanup runs over all accounts, the check
  for one pair refuses exactly when a hard lock of that pair has not ended or its counted failures
  reach the attempts allowed. The failures counted are those since the last clearance, or since the
  last cleanup run that found the pair's latest failure older than the window; time alone never
  lowers them. The hard lock is set when they reach its threshold and survives the cleanup. An
  allowed attempt reports the attempts left.
\<close>

theorem lockout_refines:
  assumes "fold (pair_step cfg i ip) ops (0, None, None) = (n, lastAt, lock)"
    and "0 < lc_AttemptsPerWindow cfg"
  shows "\<exists>st' r. Lockout_Check anonIP cfg ctx i ip (fold (lk_do anonIP cfg) ops no_lockouts) = (st', Inr r) \<and>
           (rl_Allowed r \<longleftrightarrow> (case lock of None \<Rightarrow> True | Some u \<Rightarrow> u \<le> ctx_Now ctx) \<and> n < lc_AttemptsPerWindow cfg) \<and>
           rl_FailureCount r = n \<and>
           rl_Remaining r = (if rl_Allowed r then min (lc_AttemptsPerWindow cfg - n) (lc_AttemptsPerWindow cfg) else 0)"
proof -
  let ?st = "fold (lk_do anonIP cfg) ops no_lockouts"
  have "lk_ok no_lockouts" "pair_of no_lockouts k = (0, None, None)" for k
    by (simp_all add: no_lockouts_def lk_ok_def pair_of_def)
  then have pair: "pair_of ?st (lockout_key i ip) = (n, lastAt, lock)"
    using lk_run [of no_lockouts anonIP cfg ops i ip] assms(1) by simp
  define r where "r = (case kv_get (lk_store ?st) (lockout_key i ip) of Some r \<Rightarrow> r | None \<Rightarrow> zero_lockout)"
  have r: "lo_FailureCount r = n" "lo_LockedUntil r = lock"
    using pair by (auto simp: pair_of_def r_def zero_lockout_def split: option.splits)
  show ?thesis
    unfolding Lockout_Check_def LockoutStore_Get_def Let_def sum.case r_def [symmetric]
    using assms(2)
    by (cases lock) (auto simp: buildAuthResult_def AuthLockout_IsLockedAt_def AuthLockout_IsAttemptLimitReached_def
      AuthLockout_RemainingAttempts_def r Let_def)
qed

definition ex_lockout_cfg :: AuthLockoutConfig where
  "ex_lockout_cfg = cfg_AuthLockout DefaultConfig"

theorem lockout_refines_witness:
  "let ops = replicate 5 (ctx_at 10, LFail ''u'' ''ip'') @ replicate 9 (ctx_at 11, LFail ''u'' ''other'');
       check = (\<lambda>ip t. snd (Lockout_Check (\<lambda>x. x) ex_lockout_cfg (ctx_at t) ''u'' ip (fold (lk_do (\<lambda>x. x) ex_lockout_cfg) ops no_lockouts)))
   in (\<exists>r. check ''ip'' 20 = Inr r \<and> \<not> rl_Allowed r) \<and> (\<exists>r. check ''ip'' (24 * hour) = Inr r \<and> \<not> rl_Allowed r) \<and>
      (\<exists>r. check ''third'' 20 = Inr r \<and> rl_Allowed r \<and> rl_Remaining r = 5)"
proof -
  let ?ops = "replicate 5 (ctx_at 10, LFail ''u'' ''ip'') @ replicate 9 (ctx_at 11, LFail ''u'' ''other'')"
  have 1: "fold (pair_step ex_lockout_cfg ''u'' ''ip'') ?ops (0, None, None) = (5, Some 10, None)" by code_simp
  have 2: "fold (pair_step ex_lockout_cfg ''u'' ''third'') ?ops (0, None, None) = (0, None, None)" by code_simp
  have A: "lc_AttemptsPerWindow ex_lockout_cfg = 5" by code_simp
  show ?thesis
    unfolding Let_def
    using lockout_refines [OF 1, of "\<lambda>x. x" "ctx_at 20"] lockout_refines [OF 1, of "\<lambda>x. x" "ctx_at (24 * hour)"]
      lockout_refines [OF 2, of "\<lambda>x. x" "ctx_at 20"]
    by (auto simp: A)
qed

end
