(* ===== verification/Calendar.thy ===== *)
theory Calendar
  imports Domain
begin

text \<open>
  Dates of the proleptic Gregorian calendar in UTC, as \<^verbatim>\<open>time.Date\<close>, \<^verbatim>\<open>Time.Date\<close>,
  \<^verbatim>\<open>Time.AddDate\<close> and \<^verbatim>\<open>time.Parse\<close> with the layout \<^verbatim>\<open>2006-01-02\<close> use them, and the age test
  \<^verbatim>\<open>IsOver18\<close> (\<^verbatim>\<open>pkg/domain/age.go\<close>). The lemmas show that the day number of a date and the date
  of a day number are inverse to each other, and that day numbers are ordered as dates are.
\<close>

section \<open>Day numbers\<close>

text \<open>Day 0 is 1 January 1970. A day beyond the end of its month runs into the next month, as in
  \<^verbatim>\<open>time.Date\<close>.\<close>

abbreviation (input) day_length :: duration where "day_length \<equiv> 24 * hour"

definition days_from_civil :: "int \<Rightarrow> int \<Rightarrow> int \<Rightarrow> int" where
  "days_from_civil y m d =
     (let y = (if m \<le> 2 then y - 1 else y);
          era = y div 400;
          yoe = y mod 400;
          doy = (153 * (if m > 2 then m - 3 else m + 9) + 2) div 5 + d - 1;
          doe = yoe * 365 + yoe div 4 - yoe div 100 + doy
      in era * 146097 + doe - 719468)"

definition civil_from_days :: "int \<Rightarrow> int \<times> int \<times> int" where
  "civil_from_days z =
     (let z = z + 719468;
          era = z div 146097;
          doe = z mod 146097;
          yoe = (doe - doe div 1460 + doe div 36524 - doe div 146096) div 365;
          doy = doe - (365 * yoe + yoe div 4 - yoe div 100);
          mp = (5 * doy + 2) div 153;
          m = (if mp < 10 then mp + 3 else mp - 9)
      in (yoe + era * 400 + (if m \<le> 2 then 1 else 0), m, doy - (153 * mp + 2) div 5 + 1))"

definition isLeap :: "int \<Rightarrow> bool" where
  "isLeap y = (y mod 4 = 0 \<and> (y mod 100 \<noteq> 0 \<or> y mod 400 = 0))"

definition daysIn :: "int \<Rightarrow> int \<Rightarrow> int" where
  "daysIn m y = (if m = 2 then (if isLeap y then 29 else 28) else if m \<in> {4, 6, 9, 11} then 30 else 31)"

definition valid_date :: "int \<Rightarrow> int \<Rightarrow> int \<Rightarrow> bool" where
  "valid_date y m d = (1 \<le> m \<and> m \<le> 12 \<and> 1 \<le> d \<and> d \<le> daysIn m y)"

section \<open>Parsing and ages\<close>

definition digit_value :: "char \<Rightarrow> int option" where
  "digit_value c = (if 48 \<le> (of_char c :: int) \<and> (of_char c :: int) \<le> 57 then Some (of_char c - 48) else None)"

fun digits_value :: "string \<Rightarrow> int option" where
  "digits_value [] = Some 0"
| "digits_value (c # s) =
     (case (digit_value c, digits_value s) of
        (Some v, Some w) \<Rightarrow> Some (v * 10 ^ length s + w)
      | _ \<Rightarrow> None)"

text \<open>\<^verbatim>\<open>time.Parse("2006-01-02", s)\<close>: four, two and two digits, the month and the day in range.\<close>

definition parse_date :: "string \<Rightarrow> time option" where
  "parse_date s =
     (if length s = 10 \<and> s ! 4 = CHR ''-'' \<and> s ! 7 = CHR ''-''
      then (case (digits_value (take 4 s), digits_value (take 2 (drop 5 s)), digits_value (drop 8 s)) of
              (Some y, Some m, Some d) \<Rightarrow>
                if valid_date y m d then Some (days_from_civil y m d * day_length) else None
            | _ \<Rightarrow> None)
      else None)"

definition AddYears :: "int \<Rightarrow> time \<Rightarrow> time" where
  "AddYears n t =
     (let (y, m, d) = civil_from_days (t div day_length)
      in days_from_civil (y + n) m d * day_length + t mod day_length)"

definition IsOver18 :: "time \<Rightarrow> time \<Rightarrow> bool" where
  "IsOver18 birthDate now = (\<not> now < AddYears 18 birthDate)"

section \<open>Day numbers and dates agree\<close>

text \<open>The day on which a year that begins in March begins, and the offset of a month in it.\<close>

definition march_days :: "int \<Rightarrow> int" where
  "march_days y = 365 * y + y div 4 - y div 100 + y div 400"

definition month_index :: "int \<Rightarrow> int" where
  "month_index m = (if m > 2 then m - 3 else m + 9)"

lemma div_mod_pos: "(k * q + r) div k = q" "(k * q + r) mod k = r" if "0 \<le> r" "r < k" for k q r :: int
  using int_div_pos_eq[of "k * q + r" k q r] int_mod_pos_eq[of "k * q + r" k q r] that by simp_all

lemma march_days_era:
  assumes "0 \<le> r" "r < 400"
  shows "march_days (400 * e + r) = e * 146097 + (r * 365 + r div 4 - r div 100)"
proof -
  have eq: "400 * e + r = r + 4 * (100 * e)" "400 * e + r = r + 100 * (4 * e)" by simp_all
  have "(400 * e + r) div 4 = 100 * e + r div 4" unfolding eq(1) by (rule div_mult_self2) simp
  moreover have "(400 * e + r) div 100 = 4 * e + r div 100" unfolding eq(2) by (rule div_mult_self2) simp
  moreover have "(400 * e + r) div 400 = e" by (rule div_mod_pos(1)[OF assms])
  moreover have "365 * (400 * e + r) + (100 * e + x) - (4 * e + y) + e = e * 146097 + (r * 365 + x - y)" for x y by simp
  ultimately show ?thesis by (simp only: march_days_def)
qed

lemma days_from_civil_eq:
  "days_from_civil y m d =
     march_days (if m \<le> 2 then y - 1 else y) + (153 * month_index m + 2) div 5 + d - 1 - 719468"
proof -
  have "march_days z = z div 400 * 146097 + (z mod 400 * 365 + z mod 400 div 4 - z mod 400 div 100)" for z :: int
    using march_days_era[of "z mod 400" "z div 400"] by simp
  then show ?thesis by (simp add: days_from_civil_def month_index_def Let_def)
qed

lemma succ_div_mod:
  assumes "k > 1"
  shows "((z::int) + 1) div k = z div k + (if z mod k + 1 = k then 1 else 0)"
    "(z + 1) mod k = (if z mod k + 1 = k then 0 else z mod k + 1)"
proof -
  define q r where "q = z div k" and "r = z mod k"
  have z: "z = k * q + r" and r: "0 \<le> r" "r < k" using assms by (simp_all add: q_def r_def)
  have "(z + 1) div k = q + (if r + 1 = k then 1 else 0) \<and> (z + 1) mod k = (if r + 1 = k then 0 else r + 1)"
  proof (cases "r + 1 = k")
    case True
    then have "z + 1 = k * (q + 1) + 0" using z by (simp add: distrib_left)
    then show ?thesis using div_mod_pos[of 0 k "q + 1"] True assms by simp
  next
    case False
    then have "r + 1 < k" "0 \<le> r + 1" using r by simp_all
    then have "(k * q + (r + 1)) div k = q" "(k * q + (r + 1)) mod k = r + 1" by (simp_all only: div_mod_pos)
    moreover have "z + 1 = k * q + (r + 1)" using z by simp
    ultimately show ?thesis using False by (simp only: if_False add_0_right simp_thms)
  qed
  then show "(z + 1) div k = z div k + (if z mod k + 1 = k then 1 else 0)"
    "(z + 1) mod k = (if z mod k + 1 = k then 0 else z mod k + 1)"
    by (simp_all only: q_def r_def)
qed

lemma dvd_100: "100 dvd z \<Longrightarrow> 4 dvd z" and dvd_400: "400 dvd z \<Longrightarrow> 100 dvd z" for z :: int
  by (rule dvd_trans[of _ 100], simp, assumption, rule dvd_trans[of _ 400], simp, assumption)

lemma march_days_step: "march_days (z + 1) = march_days z + 365 + (if isLeap (z + 1) then 1 else 0)"
proof -
  have step: "(z + 1) div k = z div k + (if (z + 1) mod k = 0 then 1 else 0)" if "k > 1" for k
  proof -
    have "z mod k + 1 \<noteq> 0" using that pos_mod_sign[of k z] by linarith
    then show ?thesis using succ_div_mod[OF that, of z] by (cases "z mod k + 1 = k") (simp_all only: if_True if_False refl)
  qed
  have count: "365 * (z + 1) + (a + (if P then 1 else 0)) - (b + (if Q then 1 else 0)) + (c + (if R then 1 else 0)) =
      365 * z + a - b + c + 365 + (if P \<and> (\<not> Q \<or> R) then 1 else 0)" if "Q \<Longrightarrow> P" "R \<Longrightarrow> Q" for a b c :: int and P Q R
    by (cases P; cases Q; cases R) (use that in simp_all)
  have steps: "(z + 1) div 4 = z div 4 + (if (z + 1) mod 4 = 0 then 1 else 0)"
    "(z + 1) div 100 = z div 100 + (if (z + 1) mod 100 = 0 then 1 else 0)"
    "(z + 1) div 400 = z div 400 + (if (z + 1) mod 400 = 0 then 1 else 0)" by (rule step; simp)+
  show ?thesis unfolding march_days_def isLeap_def steps
    by (rule count) (simp_all only: mod_eq_0_iff_dvd dvd_100 dvd_400)
qed

lemma daysIn_pos: "1 \<le> daysIn m y" "28 \<le> daysIn m y" "daysIn m y \<le> 31"
  by (auto simp: daysIn_def)

lemma month_cases:
  assumes "1 \<le> m" "m \<le> (12::int)"
  obtains "m = 1" | "m = 2" | "m = 3" | "m = 4" | "m = 5" | "m = 6" | "m = 7" | "m = 8" | "m = 9" | "m = 10" | "m = 11" | "m = 12"
proof -
  have "m \<in> {1..12}" using assms by simp
  also have "{1..12::int} = {1, 2, 3, 4, 5, 6, 7, 8, 9, 10, 11, 12}" by (simp add: simp_from_to)
  finally show thesis using that by auto
qed

text \<open>A month begins when the one before it ends.\<close>

lemma next_month:
  assumes "1 \<le> m" "m \<le> 12"
  shows "(if m = 12 then days_from_civil (y + 1) 1 1 else days_from_civil y (m + 1) 1) = days_from_civil y m 1 + daysIn m y"
proof -
  have step: "march_days y = march_days (y - 1) + 365 + (if isLeap y then 1 else 0)" using march_days_step[of "y - 1"] by simp
  show ?thesis by (rule month_cases[OF assms]; simp add: days_from_civil_eq month_index_def daysIn_def; simp add: step)
qed

definition month_start :: "int \<Rightarrow> int" where
  "month_start k = days_from_civil (k div 12) (k mod 12 + 1) 1"

lemma month_start_step: "month_start (k + 1) = month_start k + daysIn (k mod 12 + 1) (k div 12)"
proof -
  have "1 \<le> k mod 12 + 1" "k mod 12 + 1 \<le> 12" using pos_mod_bound[of 12 k] pos_mod_sign[of 12 k] by linarith+
  note next_month[OF this, of "k div 12"]
  then show ?thesis using succ_div_mod[of 12 k] by (simp add: month_start_def split: if_splits)
qed

lemma month_start_mono: "k \<le> l \<Longrightarrow> month_start k \<le> month_start l"
proof (induction rule: int_ge_induct)
  case (step l)
  then show ?case using daysIn_pos(1)[of "l mod 12 + 1" "l div 12"] by (simp add: month_start_step)
qed simp

lemma month_number: "1 \<le> m \<Longrightarrow> m \<le> 12 \<Longrightarrow> (12 * y + m - 1) div 12 = y" "1 \<le> m \<Longrightarrow> m \<le> 12 \<Longrightarrow> (12 * y + m - 1) mod 12 = m - 1" for m :: int
  using div_mod_pos[of "m - 1" 12 y] by (simp_all add: algebra_simps)

lemma days_from_month: "1 \<le> m \<Longrightarrow> m \<le> 12 \<Longrightarrow> days_from_civil y m d = month_start (12 * y + m - 1) + d - 1"
  by (simp only: month_start_def month_number) (simp add: days_from_civil_eq)

definition date_before :: "int \<times> int \<times> int \<Rightarrow> int \<times> int \<times> int \<Rightarrow> bool" where
  "date_before a b =
     (fst a < fst b \<or> fst a = fst b \<and> (fst (snd a) < fst (snd b) \<or> fst (snd a) = fst (snd b) \<and> snd (snd a) < snd (snd b)))"

lemma days_from_civil_less:
  assumes "valid_date y m d" "valid_date Y M D" "date_before (y, m, d) (Y, M, D)"
  shows "days_from_civil y m d < days_from_civil Y M D"
proof (cases "12 * y + m = 12 * Y + M")
  case True
  then have "y = Y" using assms(1,2) month_number(1)[of m y] month_number(1)[of M Y] by (simp add: valid_date_def)
  with True have "y = Y \<and> m = M" by simp
  then show ?thesis using assms(3) by (simp add: date_before_def days_from_civil_eq)
next
  case False
  then have k: "12 * y + m - 1 + 1 \<le> 12 * Y + M - 1" using assms by (auto simp: date_before_def valid_date_def)
  have "(12 * y + m - 1) div 12 = y" "(12 * y + m - 1) mod 12 + 1 = m"
    using assms(1) month_number[of m y] by (simp_all add: valid_date_def)
  then have "month_start (12 * y + m - 1) + d - 1 < month_start (12 * y + m - 1 + 1)"
    using assms(1) month_start_step[of "12 * y + m - 1"] by (simp add: valid_date_def)
  also have "\<dots> \<le> month_start (12 * Y + M - 1)" using month_start_mono[OF k] .
  also have "\<dots> \<le> month_start (12 * Y + M - 1) + D - 1" using assms(2) by (simp add: valid_date_def)
  finally show ?thesis using assms(1,2) by (simp add: days_from_month valid_date_def)
qed

lemma days_from_civil_less_iff:
  assumes "valid_date y m d" "valid_date Y M D"
  shows "days_from_civil y m d < days_from_civil Y M D \<longleftrightarrow> date_before (y, m, d) (Y, M, D)"
proof -
  have "date_before (y, m, d) (Y, M, D) \<or> (y, m, d) = (Y, M, D) \<or> date_before (Y, M, D) (y, m, d)"
    by (auto simp: date_before_def)
  then show ?thesis using days_from_civil_less[OF assms] days_from_civil_less[OF assms(2,1)] by force
qed

subsection \<open>The date of a day number\<close>

text \<open>The year of a day of an era of 400 years is found by a formula that grows with the day, so it is
  enough to look at the first and the last day of each year.\<close>

definition era_year :: "int \<Rightarrow> int" where
  "era_year doe = (doe - doe div 1460 + doe div 36524 - doe div 146096) div 365"

definition era_days :: "int \<Rightarrow> int" where
  "era_days r = 365 * r + r div 4 - r div 100"

definition last_of_year :: "int \<Rightarrow> int" where
  "last_of_year r = era_days r + 364 + (if isLeap (r + 1) then 1 else 0)"

lemma era_year_step: "era_year x \<le> era_year (x + 1)"
proof -
  have grows: "x - a + b - c \<le> (x + 1) - (a + (if P then 1 else 0)) + (b + (if Q then 1 else 0)) - (c + (if R then 1 else 0))"
    if "R \<Longrightarrow> Q" for a b c :: int and P Q R by (cases P; cases Q; cases R) (use that in simp_all)
  have steps: "(x + 1) div 1460 = x div 1460 + (if x mod 1460 + 1 = 1460 then 1 else 0)"
    "(x + 1) div 36524 = x div 36524 + (if x mod 36524 + 1 = 36524 then 1 else 0)"
    "(x + 1) div 146096 = x div 146096 + (if x mod 146096 + 1 = 146096 then 1 else 0)"
    by (rule succ_div_mod(1); simp)+
  have last: "a mod 36524 + 1 = 36524" if "a + 1 = 146096" for a :: int
  proof -
    have "a = 146095" using that by simp
    then show ?thesis by simp
  qed
  have "x mod 36524 = x mod 146096 mod 36524" by (rule mod_mod_cancel[symmetric]) simp
  then have "x mod 36524 + 1 = 36524" if "x mod 146096 + 1 = 146096" using last[OF that] by (simp only:)
  then have "x - x div 1460 + x div 36524 - x div 146096 \<le>
      (x + 1) - (x + 1) div 1460 + (x + 1) div 36524 - (x + 1) div 146096"
    unfolding steps by (rule grows)
  then show ?thesis unfolding era_year_def by (rule zdiv_mono1) simp
qed

lemma era_year_mono: "x \<le> y \<Longrightarrow> era_year x \<le> era_year y"
  by (induction rule: int_ge_induct) (use era_year_step in \<open>auto intro: order_trans\<close>)

lemma era_year_ends: "list_all (\<lambda>r. era_year (era_days r) = r \<and> era_year (last_of_year r) = r) [0..399]"
  by code_simp

lemma era_year_of:
  assumes "0 \<le> r" "r < 400" "era_days r \<le> x" "x \<le> last_of_year r"
  shows "era_year x = r"
proof -
  have "r \<in> set [0..399]" using assms(1,2) by simp
  then have "era_year (era_days r) = r" "era_year (last_of_year r) = r" using era_year_ends by (auto simp: list_all_iff)
  with era_year_mono[OF assms(3)] era_year_mono[OF assms(4)] show ?thesis by simp
qed

lemma era_days_range: "list_all (\<lambda>r. 0 \<le> era_days r \<and> last_of_year r < 146097) [0..399]"
  by code_simp

definition day_of_year :: "int \<Rightarrow> int \<Rightarrow> int" where
  "day_of_year m d = (153 * month_index m + 2) div 5 + d - 1"

lemma day_of_year_range:
  assumes "valid_date y m d"
  shows "0 \<le> day_of_year m d \<and> day_of_year m d \<le> 364 + (if isLeap ((if m \<le> 2 then y - 1 else y) + 1) then 1 else 0)"
proof -
  have "1 \<le> m" "m \<le> 12" "1 \<le> d" "d \<le> daysIn m y" using assms by (simp_all add: valid_date_def)
  then show ?thesis by - (rule month_cases[of m]; simp add: day_of_year_def month_index_def daysIn_def split: if_splits)
qed

lemma month_of_day:
  assumes "valid_date y m d"
  shows "(5 * day_of_year m d + 2) div 153 = month_index m"
proof -
  have m: "1 \<le> m" "m \<le> 12" "1 \<le> d" "d \<le> daysIn m y" using assms by (simp_all add: valid_date_def)
  then have "0 \<le> 5 * day_of_year m d + 2 - 153 * month_index m \<and> 5 * day_of_year m d + 2 - 153 * month_index m < 153"
    by - (rule month_cases[of m]; simp add: day_of_year_def month_index_def daysIn_def split: if_splits)
  then show ?thesis using div_mod_pos(1)[of "5 * day_of_year m d + 2 - 153 * month_index m" 153 "month_index m"] by simp
qed

lemma isLeap_era: "isLeap (400 * e + r) = isLeap r"
proof -
  have "400 * e + r = r + 4 * (100 * e)" "400 * e + r = r + 100 * (4 * e)" "400 * e + r = r + 400 * e" by simp_all
  then have "(400 * e + r) mod 4 = r mod 4" "(400 * e + r) mod 100 = r mod 100" "(400 * e + r) mod 400 = r mod 400"
    by (metis mod_mult_self2)+
  then show ?thesis by (simp only: isLeap_def)
qed

theorem civil_from_days_from_civil:
  assumes "valid_date y m d"
  shows "civil_from_days (days_from_civil y m d) = (y, m, d)"
proof -
  define z where "z = (if m \<le> 2 then y - 1 else y)"
  define e r where "e = z div 400" and "r = z mod 400"
  have r: "0 \<le> r" "r < 400" and z: "z = 400 * e + r" by (simp_all add: e_def r_def)
  define doy where "doy = day_of_year m d"
  have "isLeap (z + 1) = isLeap (r + 1)" unfolding z using isLeap_era[of e "r + 1"] by (simp add: add.assoc)
  then have doy: "0 \<le> doy" "era_days r + doy \<le> last_of_year r"
    using day_of_year_range[OF assms] by (simp_all add: doy_def last_of_year_def z_def[symmetric])
  have "r \<in> set [0..399]" using r by simp
  then have range: "0 \<le> era_days r" "last_of_year r < 146097" using era_days_range unfolding list_all_iff by blast+
  have days: "days_from_civil y m d + 719468 = 146097 * e + (era_days r + doy)"
    unfolding days_from_civil_eq z_def[symmetric] doy_def day_of_year_def
    using march_days_era[OF r, of e] by (simp add: z era_days_def)
  have dm: "(days_from_civil y m d + 719468) div 146097 = e" "(days_from_civil y m d + 719468) mod 146097 = era_days r + doy"
    unfolding days using doy range by (intro div_mod_pos; simp)+
  have yr: "era_year (era_days r + doy) = r" using doy r by (intro era_year_of) simp_all
  have month: "(5 * doy + 2) div 153 = month_index m" using month_of_day[OF assms] by (simp add: doy_def)
  have m: "1 \<le> m" "m \<le> 12" using assms by (simp_all add: valid_date_def)
  have "civil_from_days (days_from_civil y m d) =
      (let mp = month_index m; m' = (if mp < 10 then mp + 3 else mp - 9)
       in (r + e * 400 + (if m' \<le> 2 then 1 else 0), m', doy - (153 * mp + 2) div 5 + 1))"
    unfolding civil_from_days_def Let_def dm era_year_def[symmetric] yr era_days_def[symmetric] add_diff_cancel_left' month ..
  also have "\<dots> = (y, m, d)"
    using m z by (auto simp: Let_def month_index_def doy_def day_of_year_def z_def)
  finally show ?thesis .
qed

lemma next_day:
  assumes "valid_date y m d"
  shows "\<exists>y' m' d'. valid_date y' m' d' \<and> days_from_civil y' m' d' = days_from_civil y m d + 1"
proof (cases "d < daysIn m y")
  case True
  then have "valid_date y m (d + 1)" "days_from_civil y m (d + 1) = days_from_civil y m d + 1"
    using assms by (simp_all add: valid_date_def days_from_civil_eq)
  then show ?thesis by blast
next
  case False
  then have d: "d = daysIn m y" and m: "1 \<le> m" "m \<le> 12" using assms by (simp_all add: valid_date_def)
  have v: "valid_date (y + 1) 1 1" "m \<noteq> 12 \<Longrightarrow> valid_date y (m + 1) 1"
    using m daysIn_pos(1)[of "m + 1" y] by (simp_all add: valid_date_def daysIn_def)
  have "days_from_civil y m 1 + daysIn m y = days_from_civil y m d + 1" by (simp add: d days_from_civil_eq)
  then show ?thesis using next_month[OF m, of y] v by (metis (full_types))
qed

lemma prev_day:
  assumes "valid_date y m d"
  shows "\<exists>y' m' d'. valid_date y' m' d' \<and> days_from_civil y' m' d' = days_from_civil y m d - 1"
proof (cases "d = 1")
  case False
  then have "valid_date y m (d - 1)" "days_from_civil y m (d - 1) = days_from_civil y m d - 1"
    using assms by (simp_all add: valid_date_def days_from_civil_eq)
  then show ?thesis by blast
next
  case True
  define Y M where "Y = (if m = 1 then y - 1 else y)" and "M = (if m = 1 then 12 else m - 1)"
  have M: "1 \<le> M" "M \<le> 12" using assms by (auto simp: valid_date_def M_def)
  then have "valid_date Y M (daysIn M Y)" using daysIn_pos(1) by (simp add: valid_date_def)
  moreover have "days_from_civil Y M (daysIn M Y) = days_from_civil Y M 1 + daysIn M Y - 1" by (simp add: days_from_civil_eq)
  moreover have "days_from_civil Y M 1 + daysIn M Y = days_from_civil y m d"
    using next_month[OF M, of Y] True assms by (auto simp: Y_def M_def valid_date_def split: if_splits)
  ultimately show ?thesis by (metis (full_types))
qed

lemma day_has_date: "\<exists>y m d. valid_date y m d \<and> days_from_civil y m d = z"
proof (induction z rule: int_induct[of _ 0])
  case base
  have "valid_date 1970 1 1 \<and> days_from_civil 1970 1 1 = 0" by code_simp
  then show ?case by blast
next
  case (step1 z)
  then show ?case using next_day by blast
next
  case (step2 z)
  then show ?case using prev_day by blast
qed

theorem days_from_civil_from_days:
  "case civil_from_days z of (y, m, d) \<Rightarrow> valid_date y m d \<and> days_from_civil y m d = z"
proof -
  obtain y m d where "valid_date y m d" "days_from_civil y m d = z" using day_has_date by blast
  then show ?thesis using civil_from_days_from_civil by auto
qed

section \<open>Legal age\<close>

lemma AddYears_date:
  assumes "valid_date y m d"
  shows "AddYears n (days_from_civil y m d * day_length) = days_from_civil (y + n) m d * day_length"
  using civil_from_days_from_civil[OF assms] by (simp add: AddYears_def)

lemma leap_day_overflow: "days_from_civil y 2 29 = days_from_civil y 3 1" if "\<not> isLeap y"
  using next_month[of 2 y] that by (simp add: daysIn_def days_from_civil_eq)

text \<open>A person is of age from the start of the eighteenth birthday in UTC on; someone born on a leap
  day, in a year without one, from the first of March on.\<close>

lemma IsOver18_exact:
  assumes "valid_date y m d" "valid_date Y M D" "0 \<le> tod" "tod < day_length"
  shows "IsOver18 (days_from_civil y m d * day_length) (days_from_civil Y M D * day_length + tod)
           \<longleftrightarrow> \<not> date_before (Y, M, D) (y + 18, m, d)"
proof -
  have "IsOver18 (days_from_civil y m d * day_length) (days_from_civil Y M D * day_length + tod)
      \<longleftrightarrow> \<not> days_from_civil Y M D < days_from_civil (y + 18) m d"
    using assms(3,4) by (auto simp: IsOver18_def AddYears_date[OF assms(1), simplified])
  also have "days_from_civil Y M D < days_from_civil (y + 18) m d \<longleftrightarrow> date_before (Y, M, D) (y + 18, m, d)"
  proof (cases "valid_date (y + 18) m d")
    case True
    then show ?thesis by (rule days_from_civil_less_iff[OF assms(2)])
  next
    case False
    then have f: "m = 2" "d = 29" "\<not> isLeap (y + 18)"
      using assms(1) by (auto simp: valid_date_def daysIn_def split: if_splits)
    have "valid_date (y + 18) 3 1" by (simp add: valid_date_def daysIn_def)
    from days_from_civil_less_iff[OF assms(2) this] show ?thesis
      using assms(2) f leap_day_overflow[OF f(3)] by (auto simp: date_before_def valid_date_def daysIn_def)
  qed
  finally show ?thesis .
qed

text \<open>The same over the two dates, for any moment.\<close>

definition date_of :: "time \<Rightarrow> int \<times> int \<times> int" where
  "date_of t = civil_from_days (t div day_length)"

definition birthday18 :: "int \<times> int \<times> int \<Rightarrow> int \<times> int \<times> int" where
  "birthday18 b = (fst b + 18, snd b)"

lemma IsOver18_dates:
  assumes "birth mod day_length = 0"
  shows "IsOver18 birth now \<longleftrightarrow> \<not> date_before (date_of now) (birthday18 (date_of birth))"
proof -
  obtain y m d where b: "date_of birth = (y, m, d)" by (metis prod_cases3)
  obtain Y M D where n: "date_of now = (Y, M, D)" by (metis prod_cases3)
  have v: "valid_date y m d" "days_from_civil y m d = birth div day_length"
    "valid_date Y M D" "days_from_civil Y M D = now div day_length"
    using days_from_civil_from_days[of "birth div day_length"] days_from_civil_from_days[of "now div day_length"] b n
    by (simp_all add: date_of_def)
  have eq: "birth = days_from_civil y m d * day_length" "now = days_from_civil Y M D * day_length + now mod day_length"
    using assms v(2,4) div_mult_mod_eq[of birth day_length] div_mult_mod_eq[of now day_length] by (simp_all only: add_0_right)
  have h: "0 \<le> now mod day_length" "now mod day_length < day_length" by simp_all
  have "IsOver18 birth now = IsOver18 (days_from_civil y m d * day_length) (days_from_civil Y M D * day_length + now mod day_length)"
    using eq by (simp only:)
  also have "\<dots> \<longleftrightarrow> \<not> date_before (Y, M, D) (y + 18, m, d)" by (rule IsOver18_exact[OF v(1,3) h])
  finally show ?thesis by (simp add: b n birthday18_def)
qed

lemma parse_date_midnight: "parse_date s = Some t \<Longrightarrow> t mod day_length = 0"
  by (auto simp: parse_date_def split: if_splits option.splits)

end
