(* ===== verification/RL_Admin.thy ===== *)
theory RL_Admin
  imports RL_Services Http Calendar
begin

text \<open>
  Administration of the rate limiter (\<^verbatim>\<open>models/requests.go\<close>, \<^verbatim>\<open>admin/admin.go\<close>), API key
  quotas (\<^verbatim>\<open>store/quota\<close>, \<^verbatim>\<open>service/quota\<close>) and the HTTP endpoints of both
  (\<^verbatim>\<open>handler\<close>). The wall clock the request validation reads and new identifiers are arguments.
\<close>

section \<open>The end of a month\<close>

definition month_after :: "int \<Rightarrow> int \<Rightarrow> int \<times> int" where
  "month_after y m = (if m = 12 then (y + 1, 1) else (y, m + 1))"

definition AddMonth :: "time \<Rightarrow> time" where
  "AddMonth t =
     (let (y, m, d) = civil_from_days (t div day_length);
          (y, m) = month_after y m
      in days_from_civil y m d * day_length + t mod day_length)"

definition NewAPIKeyQuota :: "APIKeyID \<Rightarrow> QuotaTier \<Rightarrow> int \<Rightarrow> bool \<Rightarrow> time \<Rightarrow> APIKeyQuota result" where
  "NewAPIKeyQuota apiKeyID tier monthlyLimit overageAllowed now =
     (if APIKeyID_IsNil apiKeyID then Inl (dErrors_New CodeInvariantViolation ''api_key_id cannot be empty'')
      else if \<not> QuotaTier_IsValid tier then Inl (dErrors_New CodeInvariantViolation ''invalid quota tier'')
      else if monthlyLimit < 0 then Inl (dErrors_New CodeInvariantViolation ''monthly_limit cannot be negative'')
      else let (y, m, d) = civil_from_days (now div day_length);
               periodStart = days_from_civil y m 1 * day_length;
               periodEnd = AddMonth periodStart - 1
           in Inr \<lparr> q_APIKeyID = apiKeyID, q_Tier = tier, q_MonthlyLimit = monthlyLimit, q_CurrentUsage = 0,
                    q_OverageAllowed = overageAllowed, q_PeriodStart = periodStart, q_PeriodEnd = periodEnd \<rparr>)"

section \<open>Requests\<close>

definition EndpointClass_of :: "string \<Rightarrow> EndpointClass" where
  "EndpointClass_of s =
     (if s = ''auth'' then ClassAuth else if s = ''sensitive'' then ClassSensitive else if s = ''read'' then ClassRead
      else if s = ''write'' then ClassWrite else if s = ''admin'' then ClassAdmin else ClassOther s)"

definition QuotaTier_of :: "string \<Rightarrow> QuotaTier" where
  "QuotaTier_of s =
     (if s = ''free'' then QuotaTierFree else if s = ''starter'' then QuotaTierStarter
      else if s = ''business'' then QuotaTierBusiness else if s = ''enterprise'' then QuotaTierEnterprise
      else QuotaTierOther s)"

fun QuotaTier_String :: "QuotaTier \<Rightarrow> string" where
  "QuotaTier_String QuotaTierFree = ''free''"
| "QuotaTier_String QuotaTierStarter = ''starter''"
| "QuotaTier_String QuotaTierBusiness = ''business''"
| "QuotaTier_String QuotaTierEnterprise = ''enterprise''"
| "QuotaTier_String (QuotaTierOther s) = s"

abbreviation quoted :: "string \<Rightarrow> string" where "quoted s \<equiv> [CHR 0x27] @ s @ [CHR 0x27]"

definition validateAllowlistEntry :: "(string \<Rightarrow> bool) \<Rightarrow> AllowlistEntryType \<Rightarrow> string \<Rightarrow> go_error option" where
  "validateAllowlistEntry is_IP entryType identifier =
     (if length identifier > 255 then Some (dErrors_New CodeValidation ''identifier must be 255 characters or less'')
      else if AllowlistEntryType_String entryType = [] then Some (dErrors_New CodeValidation ''type is required'')
      else if identifier = [] then Some (dErrors_New CodeValidation ''identifier is required'')
      else if \<not> AllowlistEntryType_IsValid entryType
      then Some (dErrors_New CodeValidation (''type must be '' @ quoted ''ip'' @ '' or '' @ quoted ''user_id''))
      else if entryType = AllowlistTypeIP \<and> \<not> is_IP identifier
      then Some (dErrors_New CodeValidation ''identifier must be a valid IP address'')
      else None)"

record AddAllowlistRequest =
  aa_Type :: AllowlistEntryType
  aa_Identifier :: string
  aa_Reason :: string
  aa_ExpiresAt :: "time option"

definition normalize_type :: "(string \<Rightarrow> string) \<Rightarrow> AllowlistEntryType \<Rightarrow> AllowlistEntryType" where
  "normalize_type uni t = AllowlistEntryType_of (TrimSpace (ToLower uni (AllowlistEntryType_String t)))"

definition AddAllowlistRequest_Normalize :: "(string \<Rightarrow> string) \<Rightarrow> AddAllowlistRequest \<Rightarrow> AddAllowlistRequest" where
  "AddAllowlistRequest_Normalize uni r =
     r\<lparr> aa_Type := normalize_type uni (aa_Type r), aa_Identifier := TrimSpace (aa_Identifier r),
        aa_Reason := TrimSpace (aa_Reason r) \<rparr>"

definition AddAllowlistRequest_ValidateAt :: "(string \<Rightarrow> bool) \<Rightarrow> time \<Rightarrow> AddAllowlistRequest \<Rightarrow> go_error option" where
  "AddAllowlistRequest_ValidateAt is_IP now r =
     (case validateAllowlistEntry is_IP (aa_Type r) (aa_Identifier r) of
        Some e \<Rightarrow> Some e
      | None \<Rightarrow>
          if length (aa_Reason r) > 500 then Some (dErrors_New CodeValidation ''reason must be 500 characters or less'')
          else if aa_Reason r = [] then Some (dErrors_New CodeValidation ''reason is required'')
          else if (case aa_ExpiresAt r of None \<Rightarrow> False | Some t \<Rightarrow> t < now)
          then Some (dErrors_New CodeValidation ''expires_at must be in the future'')
          else None)"

record RemoveAllowlistRequest =
  ra_Type :: AllowlistEntryType
  ra_Identifier :: string

definition RemoveAllowlistRequest_Normalize :: "(string \<Rightarrow> string) \<Rightarrow> RemoveAllowlistRequest \<Rightarrow> RemoveAllowlistRequest" where
  "RemoveAllowlistRequest_Normalize uni r =
     r\<lparr> ra_Type := normalize_type uni (ra_Type r), ra_Identifier := TrimSpace (ra_Identifier r) \<rparr>"

definition RemoveAllowlistRequest_Validate :: "(string \<Rightarrow> bool) \<Rightarrow> RemoveAllowlistRequest \<Rightarrow> go_error option" where
  "RemoveAllowlistRequest_Validate is_IP r = validateAllowlistEntry is_IP (ra_Type r) (ra_Identifier r)"

record ResetRateLimitRequest =
  rr_Type :: AllowlistEntryType
  rr_Identifier :: string
  rr_Class :: EndpointClass

definition ResetRateLimitRequest_Normalize :: "(string \<Rightarrow> string) \<Rightarrow> ResetRateLimitRequest \<Rightarrow> ResetRateLimitRequest" where
  "ResetRateLimitRequest_Normalize uni r =
     r\<lparr> rr_Type := normalize_type uni (rr_Type r), rr_Identifier := TrimSpace (rr_Identifier r),
        rr_Class := EndpointClass_of (TrimSpace (ToLower uni (EndpointClass_String (rr_Class r)))) \<rparr>"

definition ResetRateLimitRequest_Validate :: "(string \<Rightarrow> bool) \<Rightarrow> ResetRateLimitRequest \<Rightarrow> go_error option" where
  "ResetRateLimitRequest_Validate is_IP r =
     (case validateAllowlistEntry is_IP (rr_Type r) (rr_Identifier r) of
        Some e \<Rightarrow> Some e
      | None \<Rightarrow>
          if EndpointClass_String (rr_Class r) \<noteq> [] \<and> \<not> EndpointClass_IsValid (rr_Class r)
          then Some (dErrors_New CodeValidation
                 (''class must be '' @ quoted ''auth'' @ '', '' @ quoted ''sensitive'' @ '', '' @ quoted ''read'' @
                  '', or '' @ quoted ''write''))
          else None)"

record UpdateQuotaTierRequest =
  ut_Tier :: string

definition UpdateQuotaTierRequest_Normalize :: "(string \<Rightarrow> string) \<Rightarrow> UpdateQuotaTierRequest \<Rightarrow> UpdateQuotaTierRequest" where
  "UpdateQuotaTierRequest_Normalize uni r = r\<lparr> ut_Tier := TrimSpace (ToLower uni (ut_Tier r)) \<rparr>"

definition UpdateQuotaTierRequest_Validate :: "UpdateQuotaTierRequest \<Rightarrow> go_error option" where
  "UpdateQuotaTierRequest_Validate r =
     (if \<not> QuotaTier_IsValid (QuotaTier_of (ut_Tier r))
      then Some (dErrors_New CodeValidation
             (''tier must be '' @ quoted ''free'' @ '', '' @ quoted ''starter'' @ '', '' @ quoted ''business'' @
              '', or '' @ quoted ''enterprise''))
      else None)"

section \<open>The administration service\<close>

record rl_admin =
  adm_allowlist :: allowlist
  adm_buckets :: InMemoryBucketStore
  adm_audit :: "SecurityEvent list"

record admin_env =
  ae_is_IP :: "string \<Rightarrow> bool"
  ae_uuid_Parse :: "string \<Rightarrow> uuid option"
  ae_uni :: "string \<Rightarrow> string"
  ae_newID :: string
  ae_wall :: time

definition adm_log :: "ctx \<Rightarrow> string \<Rightarrow> (string \<times> attr) list \<Rightarrow> rl_admin \<Rightarrow> rl_admin" where
  "adm_log ctx event attrs st = st\<lparr> adm_audit := adm_audit st @ [LogAudit ctx event attrs] \<rparr>"

definition AddToAllowlist :: "admin_env \<Rightarrow> ctx \<Rightarrow> AddAllowlistRequest \<Rightarrow> UserID \<Rightarrow> rl_admin \<Rightarrow> rl_admin \<times> AllowlistEntry result" where
  "AddToAllowlist env ctx req adminUserID st =
     (let req = AddAllowlistRequest_Normalize (ae_uni env) req
      in case AddAllowlistRequest_ValidateAt (ae_is_IP env) (ae_wall env) req of
           Some e \<Rightarrow> (st, Inl (ErrorfW ''invalid add allowlist request'' e))
         | None \<Rightarrow>
             (case NewAllowlistEntry (ae_is_IP env) (ae_uuid_Parse env) (ae_newID env) (aa_Type req) (aa_Identifier req)
                     (aa_Reason req) adminUserID (aa_ExpiresAt req) (ctx_Now ctx) of
                Inl e \<Rightarrow> (st, Inl (ErrorfW ''failed to create allowlist entry'' e))
              | Inr entry \<Rightarrow>
                  let st = st\<lparr> adm_allowlist := Allowlist_Add entry (adm_allowlist st) \<rparr>
                  in (adm_log ctx ''rate_limit_allowlist_added''
                        [(''identifier'', AOther), (''type'', AOther), (''expires_at'', AOther), (''admin_user_id'', AOther)] st,
                      Inr entry)))"

definition RemoveFromAllowlist :: "admin_env \<Rightarrow> ctx \<Rightarrow> RemoveAllowlistRequest \<Rightarrow> rl_admin \<Rightarrow> rl_admin \<times> go_error option" where
  "RemoveFromAllowlist env ctx req st =
     (case RemoveAllowlistRequest_Validate (ae_is_IP env) req of
        Some e \<Rightarrow> (st, Some (ErrorfW ''invalid remove allowlist request'' e))
      | None \<Rightarrow>
          let st = st\<lparr> adm_allowlist := Allowlist_Remove (ra_Type req) (ra_Identifier req) (adm_allowlist st) \<rparr>
          in (adm_log ctx ''rate_limit_allowlist_removed''
                [(''identifier'', AString (ra_Identifier req)), (''type'', AOther)] st, None))"

definition ListAllowlist :: "ctx \<Rightarrow> rl_admin \<Rightarrow> AllowlistEntry list" where
  "ListAllowlist ctx st = Allowlist_List (adm_allowlist st) ctx"

definition ResetRateLimit :: "admin_env \<Rightarrow> ctx \<Rightarrow> ResetRateLimitRequest \<Rightarrow> rl_admin \<Rightarrow> rl_admin \<times> go_error option" where
  "ResetRateLimit env ctx req st =
     (let req = ResetRateLimitRequest_Normalize (ae_uni env) req
      in case ResetRateLimitRequest_Validate (ae_is_IP env) req of
           Some e \<Rightarrow> (st, Some (ErrorfW ''invalid reset rate limit request'' e))
         | None \<Rightarrow>
             let classes = (if EndpointClass_String (rr_Class req) = []
                            then [ClassAuth, ClassSensitive, ClassRead, ClassWrite] else [rr_Class req])
             in (case (case rr_Type req of AllowlistTypeIP \<Rightarrow> Some KeyPrefixIP | AllowlistTypeUserID \<Rightarrow> Some KeyPrefixUser
                       | AllowlistTypeOther _ \<Rightarrow> None) of
                   None \<Rightarrow> (st, Some (Errorf (''unknown identifier type: '' @ AllowlistEntryType_String (rr_Type req))))
                 | Some prefix \<Rightarrow>
                     let keys = map (\<lambda>c. RateLimitKey_String (NewRateLimitKey prefix (rr_Identifier req) c)) classes;
                         st = st\<lparr> adm_buckets := fold (\<lambda>key b. Bucket_Reset b key) keys (adm_buckets st) \<rparr>
                     in (adm_log ctx ''rate_limit_reset''
                           [(''identifier'', AString (rr_Identifier req)), (''type'', AOther), (''class'', AOther)] st, None)))"

section \<open>Quotas\<close>

record quotas =
  qt_store :: "(APIKeyID, APIKeyQuota) kv"
  qt_audit :: "SecurityEvent list"

definition qt_log :: "ctx \<Rightarrow> string \<Rightarrow> (string \<times> attr) list \<Rightarrow> quotas \<Rightarrow> quotas" where
  "qt_log ctx event attrs st = st\<lparr> qt_audit := qt_audit st @ [LogAudit ctx event attrs] \<rparr>"

text \<open>A missing key of a Go map reads as the zero value.\<close>

definition tier_limits :: "rl_config \<Rightarrow> QuotaTier \<Rightarrow> QuotaLimit" where
  "tier_limits cfg tier =
     (case kv_get (cfg_QuotaTiers cfg) tier of
        Some l \<Rightarrow> l | None \<Rightarrow> \<lparr> ql_MonthlyRequests = 0, ql_OverageAllowed = False \<rparr>)"

definition new_quota :: "rl_config \<Rightarrow> APIKeyID \<Rightarrow> QuotaTier \<Rightarrow> time \<Rightarrow> APIKeyQuota" where
  "new_quota cfg apiKeyID tier now =
     (let limits = tier_limits cfg tier
      in \<lparr> q_APIKeyID = apiKeyID, q_Tier = tier, q_MonthlyLimit = ql_MonthlyRequests limits, q_CurrentUsage = 0,
           q_OverageAllowed = ql_OverageAllowed limits, q_PeriodStart = now, q_PeriodEnd = AddMonth now \<rparr>)"

definition QuotaStore_IncrementUsage :: "rl_config \<Rightarrow> ctx \<Rightarrow> APIKeyID \<Rightarrow> int \<Rightarrow> (APIKeyID, APIKeyQuota) kv
    \<Rightarrow> (APIKeyID, APIKeyQuota) kv \<times> APIKeyQuota result" where
  "QuotaStore_IncrementUsage cfg ctx apiKeyID n s =
     (let quota = (case kv_get s apiKeyID of
                     Some q \<Rightarrow> q | None \<Rightarrow> new_quota cfg apiKeyID QuotaTierFree (ctx_Now ctx));
          quota = quota\<lparr> q_CurrentUsage := q_CurrentUsage quota + n \<rparr>
      in (kv_put s apiKeyID quota, Inr quota))"

definition QuotaStore_ResetQuota :: "ctx \<Rightarrow> APIKeyID \<Rightarrow> (APIKeyID, APIKeyQuota) kv \<Rightarrow> (APIKeyID, APIKeyQuota) kv" where
  "QuotaStore_ResetQuota ctx apiKeyID s =
     (case kv_get s apiKeyID of
        None \<Rightarrow> s
      | Some quota \<Rightarrow>
          kv_put s apiKeyID (quota\<lparr> q_CurrentUsage := 0, q_PeriodStart := ctx_Now ctx, q_PeriodEnd := AddMonth (ctx_Now ctx) \<rparr>))"

definition QuotaStore_UpdateTier :: "rl_config \<Rightarrow> ctx \<Rightarrow> APIKeyID \<Rightarrow> QuotaTier \<Rightarrow> (APIKeyID, APIKeyQuota) kv
    \<Rightarrow> (APIKeyID, APIKeyQuota) kv" where
  "QuotaStore_UpdateTier cfg ctx apiKeyID tier s =
     (case kv_get s apiKeyID of
        None \<Rightarrow> kv_put s apiKeyID (new_quota cfg apiKeyID tier (ctx_Now ctx))
      | Some quota \<Rightarrow>
          let limits = tier_limits cfg tier
          in kv_put s apiKeyID (quota\<lparr> q_Tier := tier, q_MonthlyLimit := ql_MonthlyRequests limits,
                                        q_OverageAllowed := ql_OverageAllowed limits \<rparr>))"

definition Quota_Check :: "APIKeyID \<Rightarrow> quotas \<Rightarrow> APIKeyQuota result" where
  "Quota_Check apiKeyID st =
     (case kv_get (qt_store st) apiKeyID of
        None \<Rightarrow> Inl (dErrors_Wrap (Errorf (''quota not found for API key '' @ apiKeyID)) CodeNotFound ''quota not found'')
      | Some quota \<Rightarrow> Inr quota)"

definition Quota_Increment :: "rl_config \<Rightarrow> ctx \<Rightarrow> APIKeyID \<Rightarrow> int \<Rightarrow> quotas \<Rightarrow> quotas \<times> APIKeyQuota result" where
  "Quota_Increment cfg ctx apiKeyID n st =
     (case QuotaStore_IncrementUsage cfg ctx apiKeyID n (qt_store st) of
        (s, Inl e) \<Rightarrow> (st\<lparr> qt_store := s \<rparr>, Inl (dErrors_Wrap e CodeInternal ''failed to increment API key usage''))
      | (s, Inr quota) \<Rightarrow>
          let st = st\<lparr> qt_store := s \<rparr>
          in (if q_CurrentUsage quota > q_MonthlyLimit quota \<and> q_MonthlyLimit quota > 0
              then qt_log ctx ''api_key_quota_exceeded''
                     [(''api_key_id'', AOther), (''current_usage'', AOther), (''monthly_limit'', AOther)] st
              else st, Inr quota))"

definition Quota_Reset :: "ctx \<Rightarrow> APIKeyID \<Rightarrow> quotas \<Rightarrow> quotas \<times> go_error option" where
  "Quota_Reset ctx apiKeyID st =
     (if APIKeyID_IsNil apiKeyID then (st, Some (dErrors_New CodeBadRequest ''api_key_id is required''))
      else let st = st\<lparr> qt_store := QuotaStore_ResetQuota ctx apiKeyID (qt_store st) \<rparr>
           in (qt_log ctx ''api_key_quota_reset'' [(''api_key_id'', AOther)] st, None))"

definition Quota_List :: "quotas \<Rightarrow> APIKeyQuota list" where
  "Quota_List st = kv_values (qt_store st)"

definition Quota_UpdateTier :: "rl_config \<Rightarrow> ctx \<Rightarrow> APIKeyID \<Rightarrow> QuotaTier \<Rightarrow> quotas \<Rightarrow> quotas \<times> go_error option" where
  "Quota_UpdateTier cfg ctx apiKeyID tier st =
     (if APIKeyID_IsNil apiKeyID then (st, Some (dErrors_New CodeBadRequest ''api_key_id is required''))
      else if \<not> QuotaTier_IsValid tier then (st, Some (dErrors_New CodeBadRequest ''invalid tier''))
      else let st = st\<lparr> qt_store := QuotaStore_UpdateTier cfg ctx apiKeyID tier (qt_store st) \<rparr>
           in (qt_log ctx ''api_key_tier_updated'' [(''api_key_id'', AOther), (''tier'', AOther)] st, None))"

section \<open>Endpoints\<close>

record AllowlistEntryResponse =
  ar_Allowlisted :: bool
  ar_Identifier :: string
  ar_ExpiresAt :: "time option"

definition HandleAddAllowlist :: "admin_env \<Rightarrow> ctx \<Rightarrow> UserID \<Rightarrow> AddAllowlistRequest option \<Rightarrow> rl_admin
    \<Rightarrow> rl_admin \<times> AllowlistEntryResponse response" where
  "HandleAddAllowlist env ctx adminUserID decoded st =
     (case DecodeAndPrepare (AddAllowlistRequest_Normalize (ae_uni env))
             (AddAllowlistRequest_ValidateAt (ae_is_IP env) (ae_wall env)) decoded of
        Inl resp \<Rightarrow> (st, resp)
      | Inr req \<Rightarrow>
          (case AddToAllowlist env ctx req adminUserID st of
             (st, Inl e) \<Rightarrow> (st, WriteError e)
           | (st, Inr entry) \<Rightarrow>
               (st, WriteJSON StatusOK \<lparr> ar_Allowlisted = True, ar_Identifier = al_Identifier entry, ar_ExpiresAt = al_ExpiresAt entry \<rparr>)))"

abbreviation no_content :: "'a response" where
  "no_content \<equiv> \<lparr> resp_Status = StatusNoContent, resp_Body = NoBody \<rparr>"

definition HandleRemoveAllowlist :: "admin_env \<Rightarrow> ctx \<Rightarrow> RemoveAllowlistRequest option \<Rightarrow> rl_admin \<Rightarrow> rl_admin \<times> unit response" where
  "HandleRemoveAllowlist env ctx decoded st =
     (case DecodeAndPrepare (RemoveAllowlistRequest_Normalize (ae_uni env)) (RemoveAllowlistRequest_Validate (ae_is_IP env)) decoded of
        Inl resp \<Rightarrow> (st, resp)
      | Inr req \<Rightarrow>
          (case RemoveFromAllowlist env ctx req st of
             (st, Some e) \<Rightarrow> (st, WriteError e)
           | (st, None) \<Rightarrow> (st, no_content)))"

definition HandleListAllowlist :: "ctx \<Rightarrow> rl_admin \<Rightarrow> AllowlistEntry list response" where
  "HandleListAllowlist ctx st = WriteJSON StatusOK (ListAllowlist ctx st)"

definition HandleResetRateLimit :: "admin_env \<Rightarrow> ctx \<Rightarrow> ResetRateLimitRequest option \<Rightarrow> rl_admin \<Rightarrow> rl_admin \<times> unit response" where
  "HandleResetRateLimit env ctx decoded st =
     (case DecodeAndPrepare (ResetRateLimitRequest_Normalize (ae_uni env)) (ResetRateLimitRequest_Validate (ae_is_IP env)) decoded of
        Inl resp \<Rightarrow> (st, resp)
      | Inr req \<Rightarrow>
          (case ResetRateLimit env ctx req st of
             (st, Some e) \<Rightarrow> (st, WriteError e)
           | (st, None) \<Rightarrow> (st, no_content)))"

record QuotaUsageResponse =
  qr_APIKeyID :: string
  qr_Tier :: string
  qr_Usage :: int
  qr_Limit :: int
  qr_Remaining :: int
  qr_ResetAt :: time

definition toQuotaUsageResponse :: "APIKeyQuota \<Rightarrow> QuotaUsageResponse" where
  "toQuotaUsageResponse quota =
     (let remaining = max (q_MonthlyLimit quota - q_CurrentUsage quota) 0
      in \<lparr> qr_APIKeyID = q_APIKeyID quota, qr_Tier = QuotaTier_String (q_Tier quota), qr_Usage = q_CurrentUsage quota,
           qr_Limit = q_MonthlyLimit quota, qr_Remaining = remaining, qr_ResetAt = q_PeriodEnd quota \<rparr>)"

definition requireAPIKeyFromPath :: "string \<Rightarrow> 'a response + APIKeyID" where
  "requireAPIKeyFromPath apiKeyStr =
     (case ParseAPIKeyID apiKeyStr of
        Inl _ \<Rightarrow> Inl (WriteError (dErrors_New CodeBadRequest ''invalid api_key format''))
      | Inr apiKeyID \<Rightarrow> Inr apiKeyID)"

definition HandleGetQuota :: "string \<Rightarrow> quotas \<Rightarrow> QuotaUsageResponse response" where
  "HandleGetQuota apiKeyStr st =
     (case requireAPIKeyFromPath apiKeyStr of
        Inl resp \<Rightarrow> resp
      | Inr apiKeyID \<Rightarrow>
          (case Quota_Check apiKeyID st of
             Inl e \<Rightarrow> WriteError e
           | Inr quota \<Rightarrow> WriteJSON StatusOK (toQuotaUsageResponse quota)))"

definition HandleResetQuota :: "ctx \<Rightarrow> string \<Rightarrow> quotas \<Rightarrow> quotas \<times> (string \<times> string) list response" where
  "HandleResetQuota ctx apiKeyStr st =
     (case requireAPIKeyFromPath apiKeyStr of
        Inl resp \<Rightarrow> (st, resp)
      | Inr apiKeyID \<Rightarrow>
          (case Quota_Reset ctx apiKeyID st of
             (st, Some e) \<Rightarrow> (st, WriteError e)
           | (st, None) \<Rightarrow> (st, WriteJSON StatusOK [(''status'', ''reset'')])))"

definition HandleListQuotas :: "quotas \<Rightarrow> QuotaUsageResponse list response" where
  "HandleListQuotas st = WriteJSON StatusOK (map toQuotaUsageResponse (Quota_List st))"

definition HandleUpdateQuotaTier :: "(string \<Rightarrow> string) \<Rightarrow> rl_config \<Rightarrow> ctx \<Rightarrow> string \<Rightarrow> UpdateQuotaTierRequest option \<Rightarrow> quotas
    \<Rightarrow> quotas \<times> (string \<times> string) list response" where
  "HandleUpdateQuotaTier uni cfg ctx apiKeyStr decoded st =
     (case requireAPIKeyFromPath apiKeyStr of
        Inl resp \<Rightarrow> (st, resp)
      | Inr apiKeyID \<Rightarrow>
          (case DecodeAndPrepare (UpdateQuotaTierRequest_Normalize uni) UpdateQuotaTierRequest_Validate decoded of
             Inl resp \<Rightarrow> (st, resp)
           | Inr req \<Rightarrow>
               let tier = QuotaTier_of (ut_Tier req)
               in (case Quota_UpdateTier cfg ctx apiKeyID tier st of
                     (st, Some e) \<Rightarrow> (st, WriteError e)
                   | (st, None) \<Rightarrow>
                       (st, WriteJSON StatusOK [(''status'', ''updated''), (''tier'', QuotaTier_String tier)]))))"

end
