(* ===== verification/RL_Throttle.thy ===== *)
theory RL_Throttle
  imports RL_Services
begin

text \<open>
  The global throttle (\<^verbatim>\<open>store/globalthrottle/store_memory.go\<close>,
  \<^verbatim>\<open>service/globalthrottle\<close>): lock-free counters per second and per hour. The operation is given
  twice: as one call that runs alone, and as the sequence of its atomic accesses, which any number of
  goroutines may interleave.
\<close>

section \<open>One call\<close>

record throttle =
  gt_secondCount :: int
  gt_secondBucket :: int
  gt_hourCount :: int
  gt_hourBucket :: int
  gt_perSecondLimit :: int
  gt_perHourLimit :: int

datatype throttle_option = WithPerSecondLimit int | WithPerHourLimit int

fun apply_throttle_option :: "throttle_option \<Rightarrow> throttle \<Rightarrow> throttle" where
  "apply_throttle_option (WithPerSecondLimit n) s = s\<lparr> gt_perSecondLimit := n \<rparr>"
| "apply_throttle_option (WithPerHourLimit n) s = s\<lparr> gt_perHourLimit := n \<rparr>"

definition New_throttle :: "throttle_option list \<Rightarrow> throttle" where
  "New_throttle opts =
     fold apply_throttle_option opts
       \<lparr> gt_secondCount = 0, gt_secondBucket = 0, gt_hourCount = 0, gt_hourBucket = 0,
         gt_perSecondLimit = 1000, gt_perHourLimit = 100000 \<rparr>"

definition Unix :: "time \<Rightarrow> int" where "Unix t = t div second"

definition Truncate_hour :: "time \<Rightarrow> time" where "Truncate_hour t = t - t mod hour"

text \<open>Alone, the compare-and-swap succeeds at once, so the loop of \<^verbatim>\<open>tryIncrementWithLimit\<close> runs once.\<close>

definition tryIncrementWithLimit :: "int \<Rightarrow> int \<Rightarrow> int \<times> int \<times> bool" where
  "tryIncrementWithLimit counter limit =
     (if counter \<ge> limit then (counter, counter, True) else (counter + 1, counter + 1, False))"

definition IncrementGlobal :: "ctx \<Rightarrow> throttle \<Rightarrow> throttle \<times> int \<times> bool" where
  "IncrementGlobal ctx s =
     (let currentSecond = Unix (ctx_Now ctx);
          currentHour = Unix (Truncate_hour (ctx_Now ctx));
          s = (if currentSecond \<noteq> gt_secondBucket s
               then s\<lparr> gt_secondBucket := currentSecond, gt_secondCount := 0 \<rparr> else s);
          s = (if currentHour \<noteq> gt_hourBucket s
               then s\<lparr> gt_hourBucket := currentHour, gt_hourCount := 0 \<rparr> else s);
          (c, secCount, secBlocked) = tryIncrementWithLimit (gt_secondCount s) (gt_perSecondLimit s);
          s = s\<lparr> gt_secondCount := c \<rparr>
      in if secBlocked then (s, secCount, True)
         else let (c, hourCount, hourBlocked) = tryIncrementWithLimit (gt_hourCount s) (gt_perHourLimit s);
                  s = s\<lparr> gt_hourCount := c \<rparr>
              in if hourBlocked
                 then (s\<lparr> gt_secondCount := gt_secondCount s - 1 \<rparr>, hourCount, True)
                 else (s, secCount, False))"

definition GetGlobalCount :: "ctx \<Rightarrow> throttle \<Rightarrow> int" where
  "GetGlobalCount ctx s = (if Unix (ctx_Now ctx) \<noteq> gt_secondBucket s then 0 else gt_secondCount s)"

definition Throttle_Check :: "ctx \<Rightarrow> throttle \<times> SecurityEvent list \<Rightarrow> (throttle \<times> SecurityEvent list) \<times> bool result" where
  "Throttle_Check ctx st =
     (let (s, n, blocked) = IncrementGlobal ctx (fst st);
          audit = (if blocked
                   then snd st @ [LogAudit ctx ''global_throttle_triggered''
                                    [(''current_count'', AOther), (''global_limit'', AOther)]]
                   else snd st)
      in ((s, audit), Inr (\<not> blocked)))"

section \<open>Atomic accesses\<close>

text \<open>
  Where a goroutine is inside \<^verbatim>\<open>IncrementGlobal\<close>: before each access to a shared counter,
  with the local variables it still needs.
\<close>

datatype pc =
    LoadSecondBucket int int
  | CasSecondBucket int int int
  | StoreSecondCount int
  | LoadHourBucket int
  | CasHourBucket int int
  | StoreHourCount
  | LoadSecondCount
  | CasSecondCount int
  | LoadHourCount int
  | CasHourCount int int
  | RollbackSecond int
  | Done int bool

definition call :: "time \<Rightarrow> pc" where
  "call now = LoadSecondBucket (Unix now) (Unix (Truncate_hour now))"

fun access :: "throttle \<Rightarrow> pc \<Rightarrow> throttle \<times> pc" where
  "access s (LoadSecondBucket currentSecond currentHour) =
     (let lastSecond = gt_secondBucket s
      in (s, if currentSecond \<noteq> lastSecond then CasSecondBucket currentSecond currentHour lastSecond
             else LoadHourBucket currentHour))"
| "access s (CasSecondBucket currentSecond currentHour lastSecond) =
     (if gt_secondBucket s = lastSecond then (s\<lparr> gt_secondBucket := currentSecond \<rparr>, StoreSecondCount currentHour)
      else (s, LoadHourBucket currentHour))"
| "access s (StoreSecondCount currentHour) = (s\<lparr> gt_secondCount := 0 \<rparr>, LoadHourBucket currentHour)"
| "access s (LoadHourBucket currentHour) =
     (let lastHour = gt_hourBucket s
      in (s, if currentHour \<noteq> lastHour then CasHourBucket currentHour lastHour else LoadSecondCount))"
| "access s (CasHourBucket currentHour lastHour) =
     (if gt_hourBucket s = lastHour then (s\<lparr> gt_hourBucket := currentHour \<rparr>, StoreHourCount)
      else (s, LoadSecondCount))"
| "access s StoreHourCount = (s\<lparr> gt_hourCount := 0 \<rparr>, LoadSecondCount)"
| "access s LoadSecondCount =
     (let current = gt_secondCount s
      in (s, if current \<ge> gt_perSecondLimit s then Done current True else CasSecondCount current))"
| "access s (CasSecondCount current) =
     (if gt_secondCount s = current then (s\<lparr> gt_secondCount := current + 1 \<rparr>, LoadHourCount (current + 1))
      else (s, LoadSecondCount))"
| "access s (LoadHourCount secCount) =
     (let current = gt_hourCount s
      in (s, if current \<ge> gt_perHourLimit s then RollbackSecond current else CasHourCount secCount current))"
| "access s (CasHourCount secCount current) =
     (if gt_hourCount s = current then (s\<lparr> gt_hourCount := current + 1 \<rparr>, Done secCount False)
      else (s, LoadHourCount secCount))"
| "access s (RollbackSecond hourCount) = (s\<lparr> gt_secondCount := gt_secondCount s - 1 \<rparr>, Done hourCount True)"
| "access s (Done n blocked) = (s, Done n blocked)"

text \<open>The system: goroutines come in at any time, and any one of them makes the next access.\<close>

type_synonym throttle_system = "throttle \<times> pc list"

inductive throttle_step :: "throttle_system \<Rightarrow> throttle_system \<Rightarrow> bool" where
  enter: "throttle_step (s, gs) (s, gs @ [call now])"
| move: "i < length gs \<Longrightarrow> access s (gs ! i) = (s', g) \<Longrightarrow> throttle_step (s, gs) (s', gs[i := g])"

inductive_cases throttle_stepE: "throttle_step (s, gs) z"

section \<open>Alone\<close>

text \<open>A call that is not disturbed makes at most nine accesses and does what \<open>IncrementGlobal\<close> does.\<close>

fun accesses :: "nat \<Rightarrow> throttle \<times> pc \<Rightarrow> throttle \<times> pc" where
  "accesses 0 z = z"
| "accesses (Suc n) z = accesses n (access (fst z) (snd z))"

lemma accesses_Done [simp]: "accesses n (s, Done c b) = (s, Done c b)"
  by (induction n) auto

lemma accesses_numeral: "accesses (numeral n) z = accesses (pred_numeral n) (access (fst z) (snd z))"
  by (simp add: numeral_eq_Suc)

lemma call_alone:
  "accesses 10 (s, call (ctx_Now ctx)) =
     (fst (IncrementGlobal ctx s), Done (fst (snd (IncrementGlobal ctx s))) (snd (snd (IncrementGlobal ctx s))))"
  by (simp add: accesses_numeral call_def IncrementGlobal_def tryIncrementWithLimit_def Let_def)

lemma accesses_add: "accesses (m + n) z = accesses n (accesses m z)"
  by (induction m arbitrary: z) auto

fun finished :: "pc \<Rightarrow> bool" where
  "finished (Done n blocked) = True"
| "finished _ = False"

lemma undisturbed_done: "finished (snd (accesses 10 (s, g)))"
  by (cases g) (simp_all add: accesses_numeral Let_def)

text \<open>
  \<^bold>\<open>C33\<close>: The lock-free counter makes progress. From whatever point of
  \<^verbatim>\<open>IncrementGlobal\<close> and whatever state of the counters other goroutines have left, a goroutine
  that is then left alone finishes within ten accesses: the compare-and-swap loops do not spin by
  themselves. A call that runs alone from its start finishes with exactly the effect and the answer
  of the sequential operation.
\<close>

theorem throttle_progress:
  "finished (snd (accesses 10 (s, g))) \<and>
   accesses 10 (s, call (ctx_Now ctx)) =
     (fst (IncrementGlobal ctx s), Done (fst (snd (IncrementGlobal ctx s))) (snd (snd (IncrementGlobal ctx s))))"
  using undisturbed_done call_alone by blast

section \<open>Interleaved\<close>

fun pc_ok :: "int \<Rightarrow> int \<Rightarrow> pc \<Rightarrow> bool" where
  "pc_ok L H (CasSecondCount current) = (current < L)"
| "pc_ok L H (CasHourCount secCount current) = (current < H \<and> secCount \<le> L)"
| "pc_ok L H (LoadHourCount secCount) = (secCount \<le> L)"
| "pc_ok L H (Done n blocked) = (\<not> blocked \<longrightarrow> n \<le> L)"
| "pc_ok L H _ = True"

definition throttle_ok :: "int \<Rightarrow> int \<Rightarrow> throttle_system \<Rightarrow> bool" where
  "throttle_ok L H z \<longleftrightarrow> (case z of (s, gs) \<Rightarrow>
     gt_perSecondLimit s = L \<and> gt_perHourLimit s = H \<and> gt_secondCount s \<le> L \<and> gt_hourCount s \<le> H \<and> list_all (pc_ok L H) gs)"

lemma access_ok:
  assumes "access s g = (s', g')" "pc_ok L H g" "0 \<le> L" "0 \<le> H"
    and "gt_perSecondLimit s = L" "gt_perHourLimit s = H" "gt_secondCount s \<le> L" "gt_hourCount s \<le> H"
  shows "gt_perSecondLimit s' = L \<and> gt_perHourLimit s' = H \<and> gt_secondCount s' \<le> L \<and> gt_hourCount s' \<le> H \<and> pc_ok L H g'"
  using assms by (cases g) (auto simp: Let_def split: if_splits)

lemma throttle_step_ok:
  "throttle_step z z' \<Longrightarrow> 0 \<le> L \<Longrightarrow> 0 \<le> H \<Longrightarrow> throttle_ok L H z \<Longrightarrow> throttle_ok L H z'"
proof (induction rule: throttle_step.induct)
  case (enter s gs now)
  then show ?case by (simp add: throttle_ok_def call_def)
next
  case (move i gs s s' g)
  then have "pc_ok L H (gs ! i)" by (auto simp: throttle_ok_def list_all_length)
  from access_ok [OF move(2) this] move show ?case
    by (auto simp: throttle_ok_def list_all_length nth_list_update)
qed

lemma throttle_steps_ok:
  "throttle_step\<^sup>*\<^sup>* z z' \<Longrightarrow> 0 \<le> L \<Longrightarrow> 0 \<le> H \<Longrightarrow> throttle_ok L H z \<Longrightarrow> throttle_ok L H z'"
  by (induction rule: rtranclp_induct) (auto intro: throttle_step_ok)

lemma New_throttle_counts [simp]: "gt_secondCount (New_throttle opts) = 0" "gt_hourCount (New_throttle opts) = 0"
proof -
  have "gt_secondCount (fold apply_throttle_option opts s) = gt_secondCount s \<and>
      gt_hourCount (fold apply_throttle_option opts s) = gt_hourCount s" for s
  proof (induction opts arbitrary: s)
    case (Cons opt opts)
    show ?case by (cases opt) (simp_all add: Cons.IH)
  qed simp
  then show "gt_secondCount (New_throttle opts) = 0" "gt_hourCount (New_throttle opts) = 0"
    by (simp_all add: New_throttle_def)
qed

text \<open>Schedules, to exhibit runs.\<close>

datatype sched = Enter time | Move nat

fun sched_step :: "sched \<Rightarrow> throttle_system \<Rightarrow> throttle_system" where
  "sched_step (Enter now) (s, gs) = (s, gs @ [call now])"
| "sched_step (Move i) (s, gs) =
     (if i < length gs then case access s (gs ! i) of (s', g) \<Rightarrow> (s', gs[i := g]) else (s, gs))"

lemma sched_step_reach: "throttle_step\<^sup>*\<^sup>* z (sched_step c z)"
proof -
  obtain s gs where z: "z = (s, gs)" by fastforce
  show ?thesis
  proof (cases c)
    case (Enter now)
    then show ?thesis by (auto simp: z intro: throttle_step.enter)
  next
    case (Move i)
    then show ?thesis by (auto simp: z split: prod.splits intro: throttle_step.move)
  qed
qed

lemma sched_reach: "throttle_step\<^sup>*\<^sup>* z (fold sched_step cs z)"
proof (induction cs arbitrary: z)
  case (Cons c cs)
  show ?case using rtranclp_trans [OF sched_step_reach Cons.IH] by simp
qed simp

text \<open>
  \<^bold>\<open>C32\<close>: The counters of the global throttle never exceed their limits, in any interleaving of
  any number of concurrent calls, not even for a moment: in every reachable state the count of the
  second and the count of the hour are at most the configured limits, and every admitted call was
  given a number within the limit of the second.
\<close>

theorem throttle_never_exceeds:
  assumes "throttle_step\<^sup>*\<^sup>* (New_throttle opts, []) (s, gs)"
    and "0 \<le> gt_perSecondLimit (New_throttle opts)" "0 \<le> gt_perHourLimit (New_throttle opts)"
  shows "gt_secondCount s \<le> gt_perSecondLimit (New_throttle opts) \<and> gt_hourCount s \<le> gt_perHourLimit (New_throttle opts) \<and>
         (\<forall>n. Done n False \<in> set gs \<longrightarrow> n \<le> gt_perSecondLimit (New_throttle opts))"
proof -
  have "throttle_ok (gt_perSecondLimit (New_throttle opts)) (gt_perHourLimit (New_throttle opts)) (New_throttle opts, [])"
    using assms(2,3) by (simp add: throttle_ok_def)
  from throttle_steps_ok [OF assms(1-3) this] show ?thesis
    by (fastforce simp: throttle_ok_def list_all_iff)
qed

theorem throttle_never_exceeds_witness:
  "let z = fold sched_step ([Enter (3 * second), Enter (3 * second)] @ concat (replicate 10 [Move 0, Move 1]))
             (New_throttle [WithPerSecondLimit 1], [])
   in snd z = [Done 1 True, Done 1 False] \<and> gt_secondCount (fst z) \<le> 1"
proof -
  let ?z = "fold sched_step ([Enter (3 * second), Enter (3 * second)] @ concat (replicate 10 [Move 0, Move 1]))
             (New_throttle [WithPerSecondLimit 1], [])"
  have run: "snd ?z = [Done 1 True, Done 1 False]" by code_simp
  have reach: "throttle_step\<^sup>*\<^sup>* (New_throttle [WithPerSecondLimit 1], []) (fst ?z, snd ?z)"
    unfolding prod.collapse by (rule sched_reach)
  have "gt_perSecondLimit (New_throttle [WithPerSecondLimit 1]) = 1" "0 \<le> gt_perHourLimit (New_throttle [WithPerSecondLimit 1])"
    by code_simp+
  then have "gt_secondCount (fst ?z) \<le> 1" using throttle_never_exceeds [OF reach] by simp
  with run show ?thesis by (simp only: Let_def)
qed

text \<open>
  The counters bound themselves, not the calls admitted: the rollback after a full hour is not tied to
  the second it counted in. If the second (here also the hour) changes before the rollback, the new
  count starts at minus one. In this run the limit is one call per second and two calls of second
  3600, the fourth and the fifth of the run, are admitted.
\<close>

definition race_schedule :: "sched list" where
  "race_schedule =
     [Enter (10 * second)] @ replicate 10 (Move 0) @ [Enter (11 * second)] @ replicate 10 (Move 1) @
     [Enter (3599 * second)] @ replicate 7 (Move 2) @
     [Enter (3600 * second)] @ replicate 6 (Move 3) @ [Move 2] @ replicate 6 (Move 3) @
     [Enter (3600 * second)] @ replicate 10 (Move 4)"

lemma throttle_rollback_race:
  "\<exists>s. throttle_step\<^sup>*\<^sup>* (New_throttle [WithPerSecondLimit 1, WithPerHourLimit 2], [])
         (s, [Done 1 False, Done 1 False, Done 2 True, Done 0 False, Done 1 False])"
proof -
  have "snd (fold sched_step race_schedule (New_throttle [WithPerSecondLimit 1, WithPerHourLimit 2], [])) =
      [Done 1 False, Done 1 False, Done 2 True, Done 0 False, Done 1 False]"
    by code_simp
  then show ?thesis
    using sched_reach [of "(New_throttle [WithPerSecondLimit 1, WithPerHourLimit 2], [])" race_schedule]
    by (metis prod.collapse)
qed

end
