(* ===== verification/RL_Middleware.thy ===== *)
theory RL_Middleware
  imports RL_Throttle Circuit Http
begin

text \<open>
  The HTTP middleware of the rate limiter (\<^verbatim>\<open>middleware/ratelimit.go\<close>,
  \<^verbatim>\<open>limiter.go\<close>, \<^verbatim>\<open>fallback.go\<close>): a check through a circuit breaker with a fallback,
  and what the request meets. Primary limiter and fallback are arguments with states of their own;
  log lines are left out.
\<close>

section \<open>Checks through the circuit breaker\<close>

text \<open>
  The state of a check: primary limiter, fallback limiter and breaker. A Go result with its error is
  a pair of options, since the code returns the zero value beside an error.
\<close>

record ('p, 'f) guarded =
  g_primary :: 'p
  g_fallback :: 'f
  g_breaker :: CircuitBreaker

type_synonym 's check = "'s \<Rightarrow> 's \<times> RateLimitResult result"
type_synonym outcome = "RateLimitResult option \<times> bool \<times> go_error option"

definition tryFallback :: "RateLimitResult option \<Rightarrow> go_error option \<Rightarrow> 'f check \<Rightarrow> ('p, 'f) guarded \<Rightarrow> ('p, 'f) guarded \<times> outcome" where
  "tryFallback primaryResult primaryErr fallback g =
     (case fallback (g_fallback g) of
        (f, Inl _) \<Rightarrow> (g\<lparr> g_fallback := f \<rparr>, (primaryResult, False, primaryErr))
      | (f, Inr fallbackResult) \<Rightarrow> (g\<lparr> g_fallback := f \<rparr>, (Some fallbackResult, True, primaryErr)))"

definition handlePrimaryFailure :: "go_error \<Rightarrow> 'f check option \<Rightarrow> ('p, 'f) guarded \<Rightarrow> ('p, 'f) guarded \<times> outcome" where
  "handlePrimaryFailure primaryErr fallback g =
     (let (b, useFallback, change) = CircuitBreaker_RecordFailure (g_breaker g);
          g = g\<lparr> g_breaker := b \<rparr>
      in case (if \<not> useFallback then None else fallback) of
           None \<Rightarrow> (g, (None, False, Some primaryErr))
         | Some fb \<Rightarrow> tryFallback None (Some primaryErr) fb g)"

definition handlePrimarySuccess :: "RateLimitResult \<Rightarrow> 'f check option \<Rightarrow> ('p, 'f) guarded \<Rightarrow> ('p, 'f) guarded \<times> outcome" where
  "handlePrimarySuccess result fallback g =
     (let (b, usePrimary, change) = CircuitBreaker_RecordSuccess (g_breaker g);
          g = g\<lparr> g_breaker := b \<rparr>
      in case (if usePrimary then None else fallback) of
           None \<Rightarrow> (g, (Some result, False, None))
         | Some fb \<Rightarrow> tryFallback (Some result) None fb g)"

definition withCircuitBreaker :: "'p check \<Rightarrow> 'f check option \<Rightarrow> ('p, 'f) guarded \<Rightarrow> ('p, 'f) guarded \<times> outcome" where
  "withCircuitBreaker primary fallback g =
     (case primary (g_primary g) of
        (p, Inl err) \<Rightarrow> handlePrimaryFailure err fallback (g\<lparr> g_primary := p \<rparr>)
      | (p, Inr result) \<Rightarrow> handlePrimarySuccess result fallback (g\<lparr> g_primary := p \<rparr>))"

section \<open>What the request meets\<close>

text \<open>
  The verdict on a request: the next handler runs, or a response is written. A nil result would be
  dereferenced; that is the third verdict, which is shown not to occur.
\<close>

type_synonym headers = "(string \<times> string) list"

datatype mw_body =
    RateLimitExceeded int
  | UserRateLimitExceeded int int time
  | ClientRateLimitExceeded int
  | ServiceOverloaded
  | ConflictingClientID

datatype verdict = Next headers | Respond nat mw_body headers | NilDereference

text \<open>\<^verbatim>\<open>strconv.Itoa\<close> on signed numbers.\<close>

definition Itoa :: "int \<Rightarrow> string" where
  "Itoa n = (if n < 0 then ''-'' @ itoa (nat (- n)) else itoa (nat n))"

definition addRateLimitHeaders :: "RateLimitResult \<Rightarrow> headers" where
  "addRateLimitHeaders result =
     [(''X-RateLimit-Limit'', Itoa (rl_Limit result)), (''X-RateLimit-Remaining'', Itoa (rl_Remaining result)),
      (''X-RateLimit-Reset'', Itoa (Unix (rl_ResetAt result)))]"

definition writeRateLimitExceeded :: "RateLimitResult \<Rightarrow> headers \<Rightarrow> verdict" where
  "writeRateLimitExceeded result hs =
     Respond StatusTooManyRequests (RateLimitExceeded (rl_RetryAfter result)) (hs @ [(''Retry-After'', Itoa (rl_RetryAfter result))])"

definition writeUserRateLimitExceeded :: "RateLimitResult \<Rightarrow> headers \<Rightarrow> verdict" where
  "writeUserRateLimitExceeded result hs =
     Respond StatusTooManyRequests (UserRateLimitExceeded (rl_Limit result) (rl_Remaining result) (rl_ResetAt result))
       (hs @ [(''Retry-After'', Itoa (rl_RetryAfter result))])"

definition writeClientRateLimitExceeded :: "RateLimitResult \<Rightarrow> headers \<Rightarrow> verdict" where
  "writeClientRateLimitExceeded result hs =
     Respond StatusTooManyRequests (ClientRateLimitExceeded (rl_RetryAfter result)) (hs @ [(''Retry-After'', Itoa (rl_RetryAfter result))])"

definition writeServiceOverloaded :: verdict where
  "writeServiceOverloaded = Respond StatusServiceUnavailable ServiceOverloaded [(''Retry-After'', ''60'')]"

text \<open>The part of the three limiting handlers after the check; they differ in the refusal they write.\<close>

definition serve_limited :: "(RateLimitResult \<Rightarrow> headers \<Rightarrow> verdict) \<Rightarrow> outcome \<Rightarrow> verdict" where
  "serve_limited refuse outcome =
     (case outcome of (result, degraded, err) \<Rightarrow>
        if err \<noteq> None \<and> \<not> degraded then Next []
        else let hs = (if degraded then [(''X-RateLimit-Status'', ''degraded'')] else []);
                 hs = hs @ (case result of None \<Rightarrow> [] | Some r \<Rightarrow> addRateLimitHeaders r)
             in case result of
                  None \<Rightarrow> NilDereference
                | Some r \<Rightarrow> if \<not> rl_Allowed r then refuse r hs else Next hs)"

record mw_config =
  mw_disabled :: bool
  mw_failClosed :: bool

definition MW_RateLimit :: "mw_config \<Rightarrow> (string \<Rightarrow> EndpointClass \<Rightarrow> 'p check) \<Rightarrow> (string \<Rightarrow> EndpointClass \<Rightarrow> 'f check) option
    \<Rightarrow> EndpointClass \<Rightarrow> string \<Rightarrow> ('p, 'f) guarded \<Rightarrow> ('p, 'f) guarded \<times> verdict" where
  "MW_RateLimit cfg checkIP fallback class ip g =
     (if mw_disabled cfg then (g, Next [])
      else let (g, outcome) = withCircuitBreaker (checkIP ip class) (map_option (\<lambda>fb. fb ip class) fallback) g
           in (g, serve_limited writeRateLimitExceeded outcome))"

definition MW_RateLimitAuthenticated :: "mw_config \<Rightarrow> (string \<Rightarrow> string \<Rightarrow> EndpointClass \<Rightarrow> 'p check)
    \<Rightarrow> (string \<Rightarrow> string \<Rightarrow> EndpointClass \<Rightarrow> 'f check) option \<Rightarrow> EndpointClass \<Rightarrow> string \<Rightarrow> string
    \<Rightarrow> ('p, 'f) guarded \<Rightarrow> ('p, 'f) guarded \<times> verdict" where
  "MW_RateLimitAuthenticated cfg checkBoth fallback class ip userID g =
     (if mw_disabled cfg then (g, Next [])
      else let (g, outcome) = withCircuitBreaker (checkBoth ip userID class) (map_option (\<lambda>fb. fb ip userID class) fallback) g
           in (g, serve_limited writeUserRateLimitExceeded outcome))"

definition MW_GlobalThrottle :: "mw_config \<Rightarrow> ('p \<Rightarrow> 'p \<times> bool result) \<Rightarrow> 'p \<Rightarrow> 'p \<times> verdict" where
  "MW_GlobalThrottle cfg checkGlobalThrottle p =
     (if mw_disabled cfg then (p, Next [])
      else case checkGlobalThrottle p of
             (p, Inl _) \<Rightarrow> (p, Next [(''X-RateLimit-Status'', ''degraded'')])
           | (p, Inr allowed) \<Rightarrow> (p, if \<not> allowed then writeServiceOverloaded else Next []))"

text \<open>
  The client of a request: method, the \<^verbatim>\<open>client_id\<close> of the query, and the one of the form body
  (\<open>None\<close> when the form cannot be parsed).
\<close>

record client_request =
  cr_IsPost :: bool
  cr_Query :: string
  cr_Form :: "string option"
  cr_Path :: string

definition extractClientID :: "client_request \<Rightarrow> string option" where
  "extractClientID r =
     (if \<not> cr_IsPost r then Some (cr_Query r)
      else case cr_Form r of
             None \<Rightarrow> Some (cr_Query r)
           | Some formClientID \<Rightarrow>
               if cr_Query r = [] \<and> formClientID = [] then Some []
               else if formClientID = [] then Some (cr_Query r)
               else if cr_Query r = [] then Some formClientID
               else if cr_Query r \<noteq> formClientID then None
               else Some (cr_Query r))"

definition MW_RateLimitClient :: "bool \<Rightarrow> (string \<Rightarrow> string \<Rightarrow> 'p check) \<Rightarrow> (string \<Rightarrow> string \<Rightarrow> 'f check) option
    \<Rightarrow> client_request \<Rightarrow> ('p, 'f) guarded \<Rightarrow> ('p, 'f) guarded \<times> verdict" where
  "MW_RateLimitClient disabled check fallback r g =
     (if disabled then (g, Next [])
      else case extractClientID r of
             None \<Rightarrow> (g, Respond StatusBadRequest ConflictingClientID [])
           | Some clientID \<Rightarrow>
               if clientID = [] then (g, Next [])
               else let endpoint = cr_Path r;
                        (g, outcome) = withCircuitBreaker (check clientID endpoint) (map_option (\<lambda>fb. fb clientID endpoint) fallback) g
                    in (g, serve_limited writeClientRateLimitExceeded outcome))"

section \<open>The limiters behind the middleware\<close>

text \<open>\<^verbatim>\<open>limiter.go\<close>: the primary limiter composes the request limiter and the global throttle.\<close>

record 'b Limiter =
  l_requests :: "'b requests"
  l_throttle :: "throttle \<times> SecurityEvent list"

definition Limiter_CheckIPRateLimit :: "'b allow_fun \<Rightarrow> allowlisted_fun \<Rightarrow> (string \<Rightarrow> string) \<Rightarrow> rl_config \<Rightarrow> ctx \<Rightarrow> string
    \<Rightarrow> EndpointClass \<Rightarrow> 'b Limiter \<Rightarrow> 'b Limiter \<times> RateLimitResult result" where
  "Limiter_CheckIPRateLimit allow allowlisted anonIP cfg ctx ip class l =
     (case CheckIP allow allowlisted anonIP cfg ctx ip class (l_requests l) of (r, res) \<Rightarrow> (l\<lparr> l_requests := r \<rparr>, res))"

definition Limiter_CheckBothLimits :: "'b allow_fun \<Rightarrow> allowlisted_fun \<Rightarrow> (string \<Rightarrow> string) \<Rightarrow> rl_config \<Rightarrow> ctx \<Rightarrow> string
    \<Rightarrow> string \<Rightarrow> EndpointClass \<Rightarrow> 'b Limiter \<Rightarrow> 'b Limiter \<times> RateLimitResult result" where
  "Limiter_CheckBothLimits allow allowlisted anonIP cfg ctx ip userID class l =
     (case CheckBoth allow allowlisted anonIP cfg ctx ip userID class (l_requests l) of (r, res) \<Rightarrow> (l\<lparr> l_requests := r \<rparr>, res))"

definition Limiter_CheckGlobalThrottle :: "ctx \<Rightarrow> 'b Limiter \<Rightarrow> 'b Limiter \<times> bool result" where
  "Limiter_CheckGlobalThrottle ctx l =
     (case Throttle_Check ctx (l_throttle l) of (t, res) \<Rightarrow> (l\<lparr> l_throttle := t \<rparr>, res))"

text \<open>\<^verbatim>\<open>fallback.go\<close>: in-memory limits while the primary is unavailable.\<close>

definition new_fallback_requests :: "InMemoryBucketStore requests" where
  "new_fallback_requests = \<lparr> rq_buckets = New_bucket_store [], rq_bypasses = [], rq_audit = [] \<rparr>"

definition fallback_CheckIPRateLimit :: "allowlisted_fun \<Rightarrow> (string \<Rightarrow> string) \<Rightarrow> rl_config \<Rightarrow> ctx \<Rightarrow> string \<Rightarrow> EndpointClass
    \<Rightarrow> InMemoryBucketStore requests check" where
  "fallback_CheckIPRateLimit allowlisted anonIP cfg ctx ip class = CheckIP memory_allow allowlisted anonIP cfg ctx ip class"

definition fallback_CheckBothLimits :: "allowlisted_fun \<Rightarrow> (string \<Rightarrow> string) \<Rightarrow> rl_config \<Rightarrow> ctx \<Rightarrow> string \<Rightarrow> string \<Rightarrow> EndpointClass
    \<Rightarrow> InMemoryBucketStore requests check" where
  "fallback_CheckBothLimits allowlisted anonIP cfg ctx ip userID class = CheckBoth memory_allow allowlisted anonIP cfg ctx ip userID class"

definition fallbackClient_Check :: "ClientLimitConfig \<Rightarrow> ctx \<Rightarrow> string \<Rightarrow> string \<Rightarrow> InMemoryBucketStore check" where
  "fallbackClient_Check cfg ctx clientID endpoint s =
     memory_allow s ctx (NewClientRateLimitKey clientID endpoint) (lim_RequestsPerWindow (cl_PublicLimit cfg)) (lim_Window (cl_PublicLimit cfg))"

section \<open>Which answer counts\<close>

text \<open>
  The answer that decides a request: that of the primary limiter while the circuit is closed, that of
  the fallback while it is open and the fallback answers. \<open>None\<close> stands for no answer.
\<close>

definition deciding :: "'p check \<Rightarrow> 'f check option \<Rightarrow> ('p, 'f) guarded \<Rightarrow> RateLimitResult option" where
  "deciding primary fallback g =
     (let answer = (\<lambda>res. case res of Inl _ \<Rightarrow> None | Inr r \<Rightarrow> Some r);
          p = answer (snd (primary (g_primary g)));
          f = (case fallback of None \<Rightarrow> None | Some fb \<Rightarrow> answer (snd (fb (g_fallback g))));
          open_after = CircuitBreaker_IsOpen (circuit_after [p \<noteq> None] (g_breaker g))
      in if open_after \<and> f \<noteq> None then f else p)"

lemma withCircuitBreaker_outcome:
  assumes "withCircuitBreaker primary fallback g = (g', result, degraded, err)"
  shows "deciding primary fallback g = (if err \<noteq> None \<and> \<not> degraded then None else result)"
    and "err \<noteq> None \<and> \<not> degraded \<or> result \<noteq> None"
    and "g_breaker g' = circuit_after [err = None] (g_breaker g)"
proof -
  obtain p res where p: "primary (g_primary g) = (p, res)" by fastforce
  obtain bs ps cs where s: "CircuitBreaker_RecordSuccess (g_breaker g) = (bs, ps, cs)" by (metis surj_pair)
  obtain bf pf cf where f: "CircuitBreaker_RecordFailure (g_breaker g) = (bf, pf, cf)" by (metis surj_pair)
  note laws = middleware.success_law [OF s] middleware.failure_law [OF f]
  have "deciding primary fallback g = (if err \<noteq> None \<and> \<not> degraded then None else result) \<and>
      (err \<noteq> None \<and> \<not> degraded \<or> result \<noteq> None) \<and> g_breaker g' = circuit_after [err = None] (g_breaker g)"
  proof (cases res)
    case (Inl e)
    show ?thesis
    proof (cases fallback)
      case None
      then show ?thesis using assms laws p Inl
        by (auto simp: withCircuitBreaker_def handlePrimaryFailure_def deciding_def circuit_after_def f Let_def)
    next
      case (Some fb)
      then show ?thesis using assms laws p Inl
        by (cases "fb (g_fallback g)"; cases "snd (fb (g_fallback g))")
          (auto simp: withCircuitBreaker_def handlePrimaryFailure_def tryFallback_def deciding_def circuit_after_def f Let_def split: if_splits)
    qed
  next
    case (Inr r)
    show ?thesis
    proof (cases fallback)
      case None
      then show ?thesis using assms laws p Inr
        by (auto simp: withCircuitBreaker_def handlePrimarySuccess_def deciding_def circuit_after_def s Let_def)
    next
      case (Some fb)
      then show ?thesis using assms laws p Inr
        by (cases "fb (g_fallback g)"; cases "snd (fb (g_fallback g))")
          (auto simp: withCircuitBreaker_def handlePrimarySuccess_def tryFallback_def deciding_def circuit_after_def s Let_def split: if_splits)
    qed
  qed
  then show "deciding primary fallback g = (if err \<noteq> None \<and> \<not> degraded then None else result)"
    and "err \<noteq> None \<and> \<not> degraded \<or> result \<noteq> None"
    and "g_breaker g' = circuit_after [err = None] (g_breaker g)" by blast+
qed

fun refused :: "verdict \<Rightarrow> bool" where
  "refused (Respond status body hs) = (status = StatusTooManyRequests)"
| "refused _ = False"

fun passed_on :: "verdict \<Rightarrow> bool" where
  "passed_on (Next hs) = True"
| "passed_on _ = False"

text \<open>A request is either refused with 429 or passed on to the next handler, and which of them is decided by a condition.\<close>

definition refused_iff :: "verdict \<Rightarrow> bool \<Rightarrow> bool" where
  "refused_iff v refuse = (refused v = refuse \<and> passed_on v = (\<not> refuse))"

lemma serve_limited_verdict:
  assumes "withCircuitBreaker primary fallback g = (g', outcome)" and "\<And>r hs. refused (refuse r hs)"
  shows "refused_iff (serve_limited refuse outcome)
           (case deciding primary fallback g of None \<Rightarrow> False | Some r \<Rightarrow> \<not> rl_Allowed r)"
proof -
  obtain result degraded err where o: "outcome = (result, degraded, err)" by (metis prod_cases3)
  note w = withCircuitBreaker_outcome [OF assms(1) [unfolded o]]
  have "\<not> passed_on (refuse r hs)" for r hs using assms(2) [of r hs] by (cases "refuse r hs") simp_all
  then show ?thesis using w(1,2) assms(2)
    by (auto simp: o serve_limited_def refused_iff_def Let_def split: option.splits)
qed

lemma refusals:
  "refused (writeRateLimitExceeded r hs)" "refused (writeUserRateLimitExceeded r hs)" "refused (writeClientRateLimitExceeded r hs)"
  by (simp_all add: writeRateLimitExceeded_def writeUserRateLimitExceeded_def writeClientRateLimitExceeded_def)

abbreviation denies :: "RateLimitResult option \<Rightarrow> bool" where
  "denies d \<equiv> (case d of None \<Rightarrow> False | Some r \<Rightarrow> \<not> rl_Allowed r)"

text \<open>
  \<^bold>\<open>C34\<close>: Which requests the middleware refuses. Each of the three limiting handlers answers
  429 exactly when it is enabled and the deciding answer denies, and passes the request on in every
  other case; the deciding answer is the primary limiter's while its circuit is closed and the
  fallback's while it is open and the fallback answers. So without any answer the request goes
  through, and a nil result is never dereferenced. The global throttle answers 503 exactly when it is
  enabled and the throttle denies, and passes the request on when the throttle fails. The client
  handler limits the client that the query or the form names, and answers 400 without asking a
  limiter when they disagree. The option to fail closed changes nothing in the three handlers that
  have it: with it or without it state and verdict are the same.
\<close>

theorem middleware_verdict:
  "refused_iff (snd (MW_RateLimit cfg checkIP fallback class ip g))
      (\<not> mw_disabled cfg \<and> denies (deciding (checkIP ip class) (map_option (\<lambda>fb. fb ip class) fallback) g)) \<and>
   refused_iff (snd (MW_RateLimitAuthenticated cfg checkBoth fallback2 class ip userID g))
      (\<not> mw_disabled cfg \<and>
       denies (deciding (checkBoth ip userID class) (map_option (\<lambda>fb. fb ip userID class) fallback2) g)) \<and>
   (case extractClientID r of
      None \<Rightarrow> MW_RateLimitClient off check fallback3 r g = (g, if off then Next [] else Respond 400 ConflictingClientID [])
    | Some c \<Rightarrow> refused_iff (snd (MW_RateLimitClient off check fallback3 r g))
        (\<not> off \<and> c \<noteq> [] \<and> denies (deciding (check c (cr_Path r)) (map_option (\<lambda>fb. fb c (cr_Path r)) fallback3) g))) \<and>
   (extractClientID r = None \<longleftrightarrow>
      cr_IsPost r \<and> cr_Query r \<noteq> [] \<and> (case cr_Form r of None \<Rightarrow> False | Some f \<Rightarrow> f \<noteq> [] \<and> f \<noteq> cr_Query r)) \<and>
   (if \<not> mw_disabled cfg \<and> snd (throttle p) = Inr False
    then snd (MW_GlobalThrottle cfg throttle p) = Respond 503 ServiceOverloaded [(''Retry-After'', ''60'')]
    else passed_on (snd (MW_GlobalThrottle cfg throttle p))) \<and>
   MW_RateLimit (cfg\<lparr> mw_failClosed := b \<rparr>) checkIP fallback class ip g = MW_RateLimit cfg checkIP fallback class ip g \<and>
   MW_RateLimitAuthenticated (cfg\<lparr> mw_failClosed := b \<rparr>) checkBoth fallback2 class ip userID g =
     MW_RateLimitAuthenticated cfg checkBoth fallback2 class ip userID g \<and>
   MW_GlobalThrottle (cfg\<lparr> mw_failClosed := b \<rparr>) throttle p = MW_GlobalThrottle cfg throttle p"
proof (intro conjI)
  obtain g1 o1 where 1: "withCircuitBreaker (checkIP ip class) (map_option (\<lambda>fb. fb ip class) fallback) g = (g1, o1)"
    by (metis surj_pair)
  obtain g2 o2 where 2: "withCircuitBreaker (checkBoth ip userID class) (map_option (\<lambda>fb. fb ip userID class) fallback2) g = (g2, o2)"
    by (metis surj_pair)
  show "refused_iff (snd (MW_RateLimit cfg checkIP fallback class ip g))
      (\<not> mw_disabled cfg \<and> denies (deciding (checkIP ip class) (map_option (\<lambda>fb. fb ip class) fallback) g))"
    using serve_limited_verdict [OF 1 refusals(1)] by (simp add: MW_RateLimit_def 1) (simp add: refused_iff_def)
  show "refused_iff (snd (MW_RateLimitAuthenticated cfg checkBoth fallback2 class ip userID g))
      (\<not> mw_disabled cfg \<and> denies (deciding (checkBoth ip userID class) (map_option (\<lambda>fb. fb ip userID class) fallback2) g))"
    using serve_limited_verdict [OF 2 refusals(2)] by (simp add: MW_RateLimitAuthenticated_def 2) (simp add: refused_iff_def)
  show "case extractClientID r of
      None \<Rightarrow> MW_RateLimitClient off check fallback3 r g = (g, if off then Next [] else Respond 400 ConflictingClientID [])
    | Some c \<Rightarrow> refused_iff (snd (MW_RateLimitClient off check fallback3 r g))
        (\<not> off \<and> c \<noteq> [] \<and> denies (deciding (check c (cr_Path r)) (map_option (\<lambda>fb. fb c (cr_Path r)) fallback3) g))"
  proof (cases "extractClientID r")
    case None
    then show ?thesis by (simp add: MW_RateLimitClient_def status_defs)
  next
    case (Some c)
    obtain g3 o3 where 3: "withCircuitBreaker (check c (cr_Path r)) (map_option (\<lambda>fb. fb c (cr_Path r)) fallback3) g = (g3, o3)"
      by (metis surj_pair)
    show ?thesis using serve_limited_verdict [OF 3 refusals(3)] by (simp add: MW_RateLimitClient_def Some 3) (simp add: refused_iff_def)
  qed
  show "extractClientID r = None \<longleftrightarrow>
      cr_IsPost r \<and> cr_Query r \<noteq> [] \<and> (case cr_Form r of None \<Rightarrow> False | Some f \<Rightarrow> f \<noteq> [] \<and> f \<noteq> cr_Query r)"
    by (auto simp: extractClientID_def split: option.splits)
  show "if \<not> mw_disabled cfg \<and> snd (throttle p) = Inr False
    then snd (MW_GlobalThrottle cfg throttle p) = Respond 503 ServiceOverloaded [(''Retry-After'', ''60'')]
    else passed_on (snd (MW_GlobalThrottle cfg throttle p))"
    by (auto simp: MW_GlobalThrottle_def writeServiceOverloaded_def status_defs split: prod.splits sum.splits)
qed (simp_all add: MW_RateLimit_def MW_RateLimitAuthenticated_def MW_GlobalThrottle_def)

end
