(* ===== verification/Reg_Models.thy ===== *)
theory Reg_Models
  imports Complex_Main Stores
begin

text \<open>
  The evidence registry, first part: the domain aggregates
  (\<^verbatim>\<open>internal/evidence/registry/domain\<close>), the providers' evidence and errors
  (\<^verbatim>\<open>providers\<close>, with the HTTP adapter and the two response parsers), the records
  (\<^verbatim>\<open>models\<close>) and the conversion between them (\<^verbatim>\<open>service/converter.go\<close>).

  A confidence is a \<^verbatim>\<open>float64\<close>; the code only compares confidences, and a finite float is a
  rational number, so it is a \<open>rat\<close> here. The HTTP client and the JSON decoder appear through
  what they return.
\<close>

section \<open>Shared kernel\<close>

definition Confidence_New :: "rat \<Rightarrow> rat result" where
  "Confidence_New value =
     (if value < 0 \<or> value > 1 then Inl (Errorf ''invalid confidence: must be between 0.0 and 1.0'') else Inr value)"

definition CheckedAt_IsExpiredAt :: "time \<Rightarrow> time \<Rightarrow> duration \<Rightarrow> bool" where
  "CheckedAt_IsExpiredAt c now ttl = (time_Sub now c > ttl)"

definition CheckedAt_IsFreshAt :: "time \<Rightarrow> time \<Rightarrow> duration \<Rightarrow> bool" where
  "CheckedAt_IsFreshAt c now ttl = (\<not> CheckedAt_IsExpiredAt c now ttl)"

section \<open>Citizens\<close>

record PersonalDetails =
  pd_FullName :: string
  pd_DateOfBirth :: string
  pd_Address :: string

definition no_details :: PersonalDetails where
  "no_details = \<lparr> pd_FullName = [], pd_DateOfBirth = [], pd_Address = [] \<rparr>"

record CitizenVerification =
  cv_nationalID :: NationalID
  cv_details :: PersonalDetails
  cv_Valid :: bool
  cv_CheckedAt :: time
  cv_providerID :: string
  cv_confidence :: rat
  cv_minimized :: bool

definition Citizen_New :: "NationalID \<Rightarrow> PersonalDetails \<Rightarrow> bool \<Rightarrow> time \<Rightarrow> string \<Rightarrow> rat \<Rightarrow> CitizenVerification result" where
  "Citizen_New nationalID details valid checkedAt providerID confidence =
     (if NationalID_IsNil nationalID then Inl (Errorf ''national_id is required'')
      else if time_IsZero checkedAt then Inl (Errorf ''checked_at is required'')
      else if providerID = [] then Inl (Errorf ''provider_id is required'')
      else Inr \<lparr> cv_nationalID = nationalID, cv_details = details, cv_Valid = valid, cv_CheckedAt = checkedAt,
                 cv_providerID = providerID, cv_confidence = confidence, cv_minimized = False \<rparr>)"

definition Minimized :: "CitizenVerification \<Rightarrow> CitizenVerification" where
  "Minimized c = c\<lparr> cv_details := no_details, cv_minimized := True \<rparr>"

definition WithoutNationalID :: "CitizenVerification \<Rightarrow> CitizenVerification" where
  "WithoutNationalID c = (Minimized c)\<lparr> cv_nationalID := NationalID [] \<rparr>"

section \<open>Sanctions\<close>

datatype ListType = ListTypeNone | ListTypeSanctions | ListTypePEP | ListTypeWatchlist | ListTypeOther string

fun ListType_IsValid :: "ListType \<Rightarrow> bool" where
  "ListType_IsValid (ListTypeOther s) = False"
| "ListType_IsValid _ = True"

record SanctionsCheck =
  sc_nationalID :: NationalID
  sc_listed :: bool
  sc_ListType :: ListType
  sc_Reason :: string
  sc_ListedDate :: string
  sc_source :: string
  sc_checkedAt :: time
  sc_providerID :: string
  sc_confidence :: rat

definition sanctions_required :: "NationalID \<Rightarrow> string \<Rightarrow> time \<Rightarrow> string \<Rightarrow> go_error option" where
  "sanctions_required nationalID source checkedAt providerID =
     (if NationalID_IsNil nationalID then Some (Errorf ''national_id is required'')
      else if source = [] then Some (Errorf ''source is required'')
      else if time_IsZero checkedAt then Some (Errorf ''checked_at is required'')
      else if providerID = [] then Some (Errorf ''provider_id is required'')
      else None)"

definition NewSanctionsCheck :: "NationalID \<Rightarrow> string \<Rightarrow> time \<Rightarrow> string \<Rightarrow> rat \<Rightarrow> SanctionsCheck result" where
  "NewSanctionsCheck nationalID source checkedAt providerID confidence =
     (case sanctions_required nationalID source checkedAt providerID of
        Some e \<Rightarrow> Inl e
      | None \<Rightarrow> Inr \<lparr> sc_nationalID = nationalID, sc_listed = False, sc_ListType = ListTypeNone, sc_Reason = [],
                      sc_ListedDate = [], sc_source = source, sc_checkedAt = checkedAt, sc_providerID = providerID,
                      sc_confidence = confidence \<rparr>)"

definition NewListedSanctionsCheck ::
  "NationalID \<Rightarrow> ListType \<Rightarrow> string \<Rightarrow> string \<Rightarrow> string \<Rightarrow> time \<Rightarrow> string \<Rightarrow> rat \<Rightarrow> SanctionsCheck result" where
  "NewListedSanctionsCheck nationalID listType reason listedDate source checkedAt providerID confidence =
     (case sanctions_required nationalID source checkedAt providerID of
        Some e \<Rightarrow> Inl e
      | None \<Rightarrow>
          if listType \<noteq> ListTypeNone \<and> \<not> ListType_IsValid listType then Inl (Errorf ''invalid list type'')
          else let listType = (if listType = ListTypeNone then ListTypeSanctions else listType)
               in Inr \<lparr> sc_nationalID = nationalID, sc_listed = True, sc_ListType = listType, sc_Reason = reason,
                        sc_ListedDate = listedDate, sc_source = source, sc_checkedAt = checkedAt,
                        sc_providerID = providerID, sc_confidence = confidence \<rparr>)"

definition IsSanctioned :: "SanctionsCheck \<Rightarrow> bool" where
  "IsSanctioned s = (sc_listed s \<and> sc_ListType s = ListTypeSanctions)"

section \<open>Providers\<close>

datatype ProviderType =
    ProviderTypeCitizen | ProviderTypeSanctions | ProviderTypeBiometric | ProviderTypeDocument | ProviderTypeWallet

fun ProviderType_String :: "ProviderType \<Rightarrow> string" where
  "ProviderType_String ProviderTypeCitizen = ''citizen''"
| "ProviderType_String ProviderTypeSanctions = ''sanctions''"
| "ProviderType_String ProviderTypeBiometric = ''biometric''"
| "ProviderType_String ProviderTypeDocument = ''document''"
| "ProviderType_String ProviderTypeWallet = ''wallet''"

text \<open>A value of \<^verbatim>\<open>map[string]any\<close>: a string, a boolean, or a value of another type, with the
  name \<^verbatim>\<open>%T\<close> prints for the type.\<close>

datatype data_value = DString string | DBool bool | DOther string

fun data_type :: "data_value \<Rightarrow> string" where
  "data_type (DString _) = ''string''"
| "data_type (DBool _) = ''bool''"
| "data_type (DOther t) = t"

record Evidence =
  ev_ProviderID :: string
  ev_ProviderType :: ProviderType
  ev_Confidence :: rat
  ev_Data :: "(string, data_value) kv"
  ev_CheckedAt :: time
  ev_Metadata :: "(string, string) kv"

datatype ErrorCategory =
    ErrorTimeout | ErrorBadData | ErrorAuthentication | ErrorProviderOutage | ErrorContractMismatch
  | ErrorNotFound | ErrorRateLimited | ErrorInternal

record ProviderError =
  pe_Category :: ErrorCategory
  pe_ProviderID :: string
  pe_Message :: string
  pe_Underlying :: "go_error option"
  pe_Retryable :: bool

definition NewProviderError :: "ErrorCategory \<Rightarrow> string \<Rightarrow> string \<Rightarrow> go_error option \<Rightarrow> ProviderError" where
  "NewProviderError category providerID message underlying =
     \<lparr> pe_Category = category, pe_ProviderID = providerID, pe_Message = message, pe_Underlying = underlying,
       pe_Retryable = (category = ErrorTimeout \<or> category = ErrorProviderOutage \<or> category = ErrorRateLimited) \<rparr>"

text \<open>The errors the orchestrator sees: a provider error, one of its three sentinels, or any other
  error, such as that of a cancelled context.\<close>

datatype reg_error =
    RProvider ProviderError | ErrProviderNotFound | ErrNoProvidersAvailable | ErrAllProvidersFailed | ROther go_error

fun IsRetryable :: "reg_error \<Rightarrow> bool" where
  "IsRetryable (RProvider pe) = pe_Retryable pe"
| "IsRetryable _ = False"

fun GetCategory :: "reg_error \<Rightarrow> ErrorCategory" where
  "GetCategory (RProvider pe) = pe_Category pe"
| "GetCategory _ = ErrorInternal"

section \<open>The HTTP adapter\<close>

text \<open>
  What an HTTP call leads to: \<^verbatim>\<open>Do\<close> fails (and whether the deadline of the context has passed),
  the body cannot be read, or a status with a body. Building the request fails only for a malformed
  base URL, which is a fixed setting.
\<close>

datatype http_outcome =
    DoFailed go_error bool | ReadFailed nat go_error | Responded nat string

record http_adapter =
  ha_id :: string
  ha_type :: ProviderType
  ha_parser :: "nat \<Rightarrow> string \<Rightarrow> Evidence result"

definition MaxResponseSize :: nat where "MaxResponseSize = 10 * 1024 * 1024"

definition executeRequest :: "http_adapter \<Rightarrow> http_outcome \<Rightarrow> ProviderError + nat \<times> string" where
  "executeRequest a out =
     (case out of
        DoFailed err deadline \<Rightarrow>
          if deadline then Inl (NewProviderError ErrorTimeout (ha_id a) ''request timeout'' (Some err))
          else Inl (NewProviderError ErrorProviderOutage (ha_id a) ''failed to execute request'' (Some err))
      | ReadFailed _ err \<Rightarrow> Inl (NewProviderError ErrorBadData (ha_id a) ''failed to read response'' (Some err))
      | Responded status body \<Rightarrow>
          if length body > MaxResponseSize
          then Inl (NewProviderError ErrorBadData (ha_id a) (''response too large: exceeds '' @ itoa MaxResponseSize @ '' bytes'') None)
          else Inr (status, body))"

definition checkStatusCode :: "http_adapter \<Rightarrow> nat \<Rightarrow> ProviderError option" where
  "checkStatusCode a statusCode =
     (if statusCode = 401 \<or> statusCode = 403
      then Some (NewProviderError ErrorAuthentication (ha_id a) (''authentication failed: '' @ itoa statusCode) None)
      else if statusCode = 404 then Some (NewProviderError ErrorNotFound (ha_id a) ''record not found'' None)
      else if statusCode = 429 then Some (NewProviderError ErrorRateLimited (ha_id a) ''rate limit exceeded'' None)
      else if statusCode = 503 \<or> statusCode = 504
      then Some (NewProviderError ErrorProviderOutage (ha_id a) (''provider unavailable: '' @ itoa statusCode) None)
      else None)"

definition parseAndEnrich :: "http_adapter \<Rightarrow> ctx \<Rightarrow> nat \<Rightarrow> string \<Rightarrow> ProviderError + Evidence" where
  "parseAndEnrich a ctx statusCode body =
     (case ha_parser a statusCode body of
        Inl err \<Rightarrow> Inl (NewProviderError ErrorBadData (ha_id a) ''failed to parse response'' (Some err))
      | Inr ev \<Rightarrow>
          Inr (ev\<lparr> ev_ProviderID := ha_id a, ev_ProviderType := ha_type a,
                   ev_CheckedAt := (if time_IsZero (ev_CheckedAt ev) then ctx_Now ctx else ev_CheckedAt ev) \<rparr>))"

definition HTTPAdapter_Lookup :: "http_adapter \<Rightarrow> ctx \<Rightarrow> http_outcome \<Rightarrow> reg_error + Evidence" where
  "HTTPAdapter_Lookup a ctx out =
     (case executeRequest a out of
        Inl e \<Rightarrow> Inl (RProvider e)
      | Inr (status, body) \<Rightarrow>
          (case checkStatusCode a status of
             Some e \<Rightarrow> Inl (RProvider e)
           | None \<Rightarrow> (case parseAndEnrich a ctx status body of Inl e \<Rightarrow> Inl (RProvider e) | Inr ev \<Rightarrow> Inr ev)))"

text \<open>The bodies of the two registries, as \<^verbatim>\<open>json.Unmarshal\<close> decodes them (an error, or the fields),
  and \<^verbatim>\<open>time.Parse\<close> of a timestamp, whose failure leaves the zero time.\<close>

record citizenHTTPResponse =
  chr_NationalID :: string
  chr_FullName :: string
  chr_DateOfBirth :: string
  chr_Address :: string
  chr_Valid :: bool
  chr_CheckedAt :: string

record sanctionsHTTPResponse =
  shr_NationalID :: string
  shr_Listed :: bool
  shr_Source :: string
  shr_CheckedAt :: string

definition time_or_zero :: "(string \<Rightarrow> time option) \<Rightarrow> string \<Rightarrow> time" where
  "time_or_zero parse_RFC3339 s = (case parse_RFC3339 s of Some t \<Rightarrow> t | None \<Rightarrow> zero_time)"

definition parseCitizenResponse ::
  "(string \<Rightarrow> citizenHTTPResponse result) \<Rightarrow> (string \<Rightarrow> time option) \<Rightarrow> nat \<Rightarrow> string \<Rightarrow> Evidence result" where
  "parseCitizenResponse json_Unmarshal parse_RFC3339 statusCode body =
     (if statusCode \<noteq> 200 then Inl (Errorf (''unexpected status code: '' @ itoa statusCode))
      else case json_Unmarshal body of
             Inl err \<Rightarrow> Inl (ErrorfW ''failed to unmarshal citizen response'' err)
           | Inr resp \<Rightarrow>
               Inr \<lparr> ev_ProviderID = [], ev_ProviderType = ProviderTypeCitizen, ev_Confidence = 1,
                     ev_Data = [(''national_id'', DString (chr_NationalID resp)), (''full_name'', DString (chr_FullName resp)),
                       (''date_of_birth'', DString (chr_DateOfBirth resp)), (''address'', DString (chr_Address resp)),
                       (''valid'', DBool (chr_Valid resp))],
                     ev_CheckedAt = time_or_zero parse_RFC3339 (chr_CheckedAt resp), ev_Metadata = [] \<rparr>)"

definition parseSanctionsResponse ::
  "(string \<Rightarrow> sanctionsHTTPResponse result) \<Rightarrow> (string \<Rightarrow> time option) \<Rightarrow> nat \<Rightarrow> string \<Rightarrow> Evidence result" where
  "parseSanctionsResponse json_Unmarshal parse_RFC3339 statusCode body =
     (if statusCode \<noteq> 200 then Inl (Errorf (''unexpected status code: '' @ itoa statusCode))
      else case json_Unmarshal body of
             Inl err \<Rightarrow> Inl (ErrorfW ''failed to unmarshal sanctions response'' err)
           | Inr resp \<Rightarrow>
               Inr \<lparr> ev_ProviderID = [], ev_ProviderType = ProviderTypeSanctions, ev_Confidence = 1,
                     ev_Data = [(''national_id'', DString (shr_NationalID resp)), (''listed'', DBool (shr_Listed resp)),
                       (''source'', DString (shr_Source resp))],
                     ev_CheckedAt = time_or_zero parse_RFC3339 (shr_CheckedAt resp), ev_Metadata = [] \<rparr>)"

section \<open>Records and conversion\<close>

record CitizenRecord =
  cr_NationalID :: string
  cr_FullName :: string
  cr_DateOfBirth :: string
  cr_Address :: string
  cr_Valid :: bool
  cr_Source :: string
  cr_CheckedAt :: time

record SanctionsRecord =
  sr_NationalID :: string
  sr_Listed :: bool
  sr_Source :: string
  sr_CheckedAt :: time

definition getRequiredString :: "(string, data_value) kv \<Rightarrow> string \<Rightarrow> string result" where
  "getRequiredString data key =
     (case kv_get data key of
        None \<Rightarrow> Inl (dErrors_New CodeBadRequest (''required field missing: '' @ key))
      | Some (DString s) \<Rightarrow> Inr s
      | Some v \<Rightarrow> Inl (dErrors_New CodeBadRequest
          (''field '' @ key @ '' has wrong type: expected string, got '' @ data_type v)))"

definition getRequiredBool :: "(string, data_value) kv \<Rightarrow> string \<Rightarrow> bool result" where
  "getRequiredBool data key =
     (case kv_get data key of
        None \<Rightarrow> Inl (dErrors_New CodeBadRequest (''required field missing: '' @ key))
      | Some (DBool b) \<Rightarrow> Inr b
      | Some v \<Rightarrow> Inl (dErrors_New CodeBadRequest
          (''field '' @ key @ '' has wrong type: expected bool, got '' @ data_type v)))"

definition getString :: "(string, data_value) kv \<Rightarrow> string \<Rightarrow> string" where
  "getString data key = (case kv_get data key of Some (DString s) \<Rightarrow> s | _ \<Rightarrow> [])"

definition wrong_type :: "ProviderType \<Rightarrow> ProviderType \<Rightarrow> go_error" where
  "wrong_type want got = dErrors_New CodeBadRequest
     (''wrong provider type: expected '' @ ProviderType_String want @ '', got '' @ ProviderType_String got)"

text \<open>The two required checks both conversions begin with.\<close>

definition evidence_identity :: "Evidence \<Rightarrow> (NationalID \<times> rat) result" where
  "evidence_identity ev =
     (case getRequiredString (ev_Data ev) ''national_id'' of
        Inl err \<Rightarrow> Inl (dErrors_Wrap err CodeBadRequest ''invalid provider response'')
      | Inr s \<Rightarrow>
          (case ParseNationalID s of
             Inl err \<Rightarrow> Inl (dErrors_Wrap err CodeBadRequest ''invalid national_id format'')
           | Inr nationalID \<Rightarrow>
               (case Confidence_New (ev_Confidence ev) of
                  Inl err \<Rightarrow> Inl (dErrors_Wrap err CodeBadRequest ''invalid confidence value'')
                | Inr confidence \<Rightarrow> Inr (nationalID, confidence))))"

definition EvidenceToCitizenVerification :: "Evidence \<Rightarrow> CitizenVerification result" where
  "EvidenceToCitizenVerification ev =
     (if ev_ProviderType ev \<noteq> ProviderTypeCitizen then Inl (wrong_type ProviderTypeCitizen (ev_ProviderType ev))
      else case evidence_identity ev of
             Inl e \<Rightarrow> Inl e
           | Inr (nationalID, confidence) \<Rightarrow>
               (case getRequiredBool (ev_Data ev) ''valid'' of
                  Inl err \<Rightarrow> Inl (dErrors_Wrap err CodeBadRequest ''invalid provider response'')
                | Inr valid \<Rightarrow>
                    (case Citizen_New nationalID
                            \<lparr> pd_FullName = getString (ev_Data ev) ''full_name'',
                              pd_DateOfBirth = getString (ev_Data ev) ''date_of_birth'',
                              pd_Address = getString (ev_Data ev) ''address'' \<rparr>
                            valid (ev_CheckedAt ev) (ev_ProviderID ev) confidence of
                       Inl err \<Rightarrow> Inl (dErrors_Wrap err CodeBadRequest ''invalid citizen verification'')
                     | Inr v \<Rightarrow> Inr v)))"

definition EvidenceToSanctionsCheck :: "Evidence \<Rightarrow> SanctionsCheck result" where
  "EvidenceToSanctionsCheck ev =
     (if ev_ProviderType ev \<noteq> ProviderTypeSanctions then Inl (wrong_type ProviderTypeSanctions (ev_ProviderType ev))
      else case evidence_identity ev of
             Inl e \<Rightarrow> Inl e
           | Inr (nationalID, confidence) \<Rightarrow>
               (case getRequiredBool (ev_Data ev) ''listed'' of
                  Inl err \<Rightarrow> Inl (dErrors_Wrap err CodeBadRequest ''invalid provider response'')
                | Inr listed \<Rightarrow>
                    let source = getString (ev_Data ev) ''source''
                    in (case (if listed
                              then NewListedSanctionsCheck nationalID ListTypeSanctions [] [] source (ev_CheckedAt ev) (ev_ProviderID ev) confidence
                              else NewSanctionsCheck nationalID source (ev_CheckedAt ev) (ev_ProviderID ev) confidence) of
                          Inl err \<Rightarrow> Inl (dErrors_Wrap err CodeBadRequest ''invalid sanctions check'')
                        | Inr check \<Rightarrow> Inr check)))"

definition CitizenVerificationToRecord :: "CitizenVerification \<Rightarrow> CitizenRecord" where
  "CitizenVerificationToRecord cv =
     \<lparr> cr_NationalID = NationalID_String (cv_nationalID cv), cr_FullName = pd_FullName (cv_details cv),
       cr_DateOfBirth = pd_DateOfBirth (cv_details cv), cr_Address = pd_Address (cv_details cv),
       cr_Valid = cv_Valid cv, cr_Source = cv_providerID cv, cr_CheckedAt = cv_CheckedAt cv \<rparr>"

definition SanctionsCheckToRecord :: "SanctionsCheck \<Rightarrow> SanctionsRecord" where
  "SanctionsCheckToRecord sc =
     \<lparr> sr_NationalID = NationalID_String (sc_nationalID sc), sr_Listed = sc_listed sc, sr_Source = sc_source sc,
       sr_CheckedAt = sc_checkedAt sc \<rparr>"

end
