(* ===== verification/Reg_Cache.thy ===== *)
theory Reg_Cache
  imports Reg_Models
begin

text \<open>
  The evidence registry, second part: the in-memory cache
  (\<^verbatim>\<open>internal/evidence/registry/store/store_memory.go\<close>), a hash map from keys to the elements of
  a doubly linked list that is kept in order of use, for citizens and for sanctions.

  An element of \<^verbatim>\<open>container/list\<close> has an identity, the pointer that the hash map stores; it is a
  number here, drawn from a counter. A lookup returns the cached record, through whose pointer nothing in
  the repository writes; here it is the value. The two structures have to agree on their elements, which
  \<open>lru_ok\<close> states and every operation keeps. The specification is a plain list of entries, the
  most recently used one first, and the cache refines it for every sequence of operations.
\<close>

section \<open>The linked list\<close>

type_synonym 'e elems = "(nat \<times> 'e) list"

text \<open>\<^verbatim>\<open>Remove\<close> and \<^verbatim>\<open>MoveToFront\<close> of \<^verbatim>\<open>list.List\<close>, and the assignment through \<^verbatim>\<open>elem.Value\<close>.\<close>

definition list_Remove :: "nat \<Rightarrow> 'e elems \<Rightarrow> 'e elems" where
  "list_Remove e l = filter (\<lambda>(e', v). e' \<noteq> e) l"

definition list_MoveToFront :: "nat \<Rightarrow> 'e elems \<Rightarrow> 'e elems" where
  "list_MoveToFront e l = (case map_of l e of None \<Rightarrow> l | Some v \<Rightarrow> (e, v) # list_Remove e l)"

definition list_assign :: "nat \<Rightarrow> 'e \<Rightarrow> 'e elems \<Rightarrow> 'e elems" where
  "list_assign e v l = map (\<lambda>(e', v'). (e', if e' = e then v else v')) l"

section \<open>The cache\<close>

record 'r cached =
  ca_key :: string
  ca_record :: 'r
  ca_storedAt :: time

record cachedCitizen = "CitizenRecord cached" +
  cc_regulated :: bool

type_synonym cachedSanction = "SanctionsRecord cached"

record 'e lru =
  lru_index :: "(string, nat) kv"
  lru_elems :: "'e elems"
  lru_next :: nat

definition lru_empty :: "'e lru" where
  "lru_empty = \<lparr> lru_index = [], lru_elems = [], lru_next = 0 \<rparr>"

record InMemoryCache =
  citizens_lru :: "cachedCitizen lru"
  sanctions_lru :: "cachedSanction lru"
  cacheTTL :: duration
  maxSize :: int

definition DefaultMaxCacheSize :: int where "DefaultMaxCacheSize = 10000"

text \<open>The option \<^verbatim>\<open>WithMaxSize\<close> is the argument \<open>cap\<close>.\<close>

definition NewInMemoryCache :: "duration \<Rightarrow> int option \<Rightarrow> InMemoryCache" where
  "NewInMemoryCache ttl cap =
     \<lparr> citizens_lru = lru_empty, sanctions_lru = lru_empty, cacheTTL = ttl,
       maxSize = (case cap of None \<Rightarrow> DefaultMaxCacheSize | Some n \<Rightarrow> n) \<rparr>"

text \<open>The body the two \<^verbatim>\<open>evictOldest\<close> functions share, and those the two \<^verbatim>\<open>Save\<close> and the two
  \<^verbatim>\<open>Find\<close> functions share. A value is found through the element the hash map has; \<open>usable\<close> is the
  extra test a lookup makes after that of the age.\<close>

definition evictOldest :: "('r, 'm) cached_scheme lru \<Rightarrow> ('r, 'm) cached_scheme lru" where
  "evictOldest l =
     (if lru_elems l = [] then l
      else let (e, v) = last (lru_elems l)
           in l\<lparr> lru_elems := list_Remove e (lru_elems l), lru_index := kv_del (lru_index l) (ca_key v) \<rparr>)"

definition lru_save :: "int \<Rightarrow> ('r, 'm) cached_scheme \<Rightarrow> ('r, 'm) cached_scheme lru \<Rightarrow> ('r, 'm) cached_scheme lru" where
  "lru_save cap v l =
     (case kv_get (lru_index l) (ca_key v) of
        Some e \<Rightarrow> l\<lparr> lru_elems := list_MoveToFront e (list_assign e v (lru_elems l)) \<rparr>
      | None \<Rightarrow>
          let l = (if int (length (lru_elems l)) \<ge> cap then evictOldest l else l)
          in l\<lparr> lru_elems := (lru_next l, v) # lru_elems l,
                lru_index := kv_put (lru_index l) (ca_key v) (lru_next l), lru_next := lru_next l + 1 \<rparr>)"

definition lru_find ::
  "duration \<Rightarrow> time \<Rightarrow> (('r, 'm) cached_scheme \<Rightarrow> bool) \<Rightarrow> string \<Rightarrow> ('r, 'm) cached_scheme lru \<Rightarrow>
   ('r, 'm) cached_scheme lru \<times> ('r, 'm) cached_scheme option" where
  "lru_find ttl now usable key l =
     (case kv_get (lru_index l) key of
        None \<Rightarrow> (l, None)
      | Some e \<Rightarrow>
          (case map_of (lru_elems l) e of
             None \<Rightarrow> (l, None)
           | Some v \<Rightarrow>
               if time_Sub now (ca_storedAt v) \<ge> ttl
               then (l\<lparr> lru_elems := list_Remove e (lru_elems l), lru_index := kv_del (lru_index l) key \<rparr>, None)
               else if \<not> usable v then (l, None)
               else (l\<lparr> lru_elems := list_MoveToFront e (lru_elems l) \<rparr>, Some v)))"

definition cache_ErrNotFound :: go_error where
  "cache_ErrNotFound = Errorf ''not found''"

definition SaveCitizen ::
  "time \<Rightarrow> NationalID \<Rightarrow> CitizenRecord option \<Rightarrow> bool \<Rightarrow> InMemoryCache \<Rightarrow> InMemoryCache \<times> go_error option" where
  "SaveCitizen now key record regulated c =
     (case record of
        None \<Rightarrow> (c, None)
      | Some rec \<Rightarrow>
          if NationalID_IsNil key then (c, Some (Errorf ''cannot cache citizen record with nil key''))
          else (c\<lparr> citizens_lru := lru_save (maxSize c)
                     \<lparr> ca_key = NationalID_String key, ca_record = rec, ca_storedAt = now, cc_regulated = regulated \<rparr>
                     (citizens_lru c) \<rparr>, None))"

definition FindCitizen :: "time \<Rightarrow> NationalID \<Rightarrow> bool \<Rightarrow> InMemoryCache \<Rightarrow> InMemoryCache \<times> CitizenRecord result" where
  "FindCitizen now nationalID regulated c =
     (let (l, r) = lru_find (cacheTTL c) now (\<lambda>v. cc_regulated v = regulated) (NationalID_String nationalID) (citizens_lru c)
      in (c\<lparr> citizens_lru := l \<rparr>, case r of None \<Rightarrow> Inl cache_ErrNotFound | Some v \<Rightarrow> Inr (ca_record v)))"

definition SaveSanction ::
  "time \<Rightarrow> NationalID \<Rightarrow> SanctionsRecord option \<Rightarrow> InMemoryCache \<Rightarrow> InMemoryCache \<times> go_error option" where
  "SaveSanction now key record c =
     (case record of
        None \<Rightarrow> (c, None)
      | Some rec \<Rightarrow>
          if NationalID_IsNil key then (c, Some (Errorf ''cannot cache sanction record with nil key''))
          else (c\<lparr> sanctions_lru := lru_save (maxSize c)
                     \<lparr> ca_key = NationalID_String key, ca_record = rec, ca_storedAt = now \<rparr> (sanctions_lru c) \<rparr>, None))"

definition FindSanction :: "time \<Rightarrow> NationalID \<Rightarrow> InMemoryCache \<Rightarrow> InMemoryCache \<times> SanctionsRecord result" where
  "FindSanction now nationalID c =
     (let (l, r) = lru_find (cacheTTL c) now (\<lambda>v. True) (NationalID_String nationalID) (sanctions_lru c)
      in (c\<lparr> sanctions_lru := l \<rparr>, case r of None \<Rightarrow> Inl cache_ErrNotFound | Some v \<Rightarrow> Inr (ca_record v)))"

definition cache_Size :: "InMemoryCache \<Rightarrow> nat \<times> nat" where
  "cache_Size c = (length (lru_elems (citizens_lru c)), length (lru_elems (sanctions_lru c)))"

definition cache_ClearAll :: "InMemoryCache \<Rightarrow> InMemoryCache" where
  "cache_ClearAll c =
     c\<lparr> citizens_lru := (citizens_lru c)\<lparr> lru_index := [], lru_elems := [] \<rparr>,
        sanctions_lru := (sanctions_lru c)\<lparr> lru_index := [], lru_elems := [] \<rparr> \<rparr>"

section \<open>The two structures agree\<close>

definition lru_ok :: "int \<Rightarrow> ('r, 'm) cached_scheme lru \<Rightarrow> bool" where
  "lru_ok cap l =
     (distinct (map fst (lru_elems l)) \<and> (\<forall>(e, v) \<in> set (lru_elems l). e < lru_next l) \<and>
      distinct (map (ca_key \<circ> snd) (lru_elems l)) \<and>
      (\<forall>k e. kv_get (lru_index l) k = Some e \<longleftrightarrow> (\<exists>v. (e, v) \<in> set (lru_elems l) \<and> ca_key v = k)) \<and>
      int (length (lru_elems l)) \<le> max 1 cap)"

text \<open>The entries, the most recently used one first.\<close>

definition entries :: "'e lru \<Rightarrow> 'e list" where
  "entries l = map snd (lru_elems l)"

definition without :: "string \<Rightarrow> ('r, 'm) cached_scheme list \<Rightarrow> ('r, 'm) cached_scheme list" where
  "without k = filter (\<lambda>v. ca_key v \<noteq> k)"

definition spec_save :: "int \<Rightarrow> ('r, 'm) cached_scheme \<Rightarrow> ('r, 'm) cached_scheme list \<Rightarrow> ('r, 'm) cached_scheme list" where
  "spec_save cap v vs =
     v # (if ca_key v \<in> ca_key ` set vs then without (ca_key v) vs
          else if int (length vs) \<ge> cap then butlast vs else vs)"

definition spec_find ::
  "duration \<Rightarrow> time \<Rightarrow> (('r, 'm) cached_scheme \<Rightarrow> bool) \<Rightarrow> string \<Rightarrow> ('r, 'm) cached_scheme list \<Rightarrow>
   ('r, 'm) cached_scheme list \<times> ('r, 'm) cached_scheme option" where
  "spec_find ttl now usable k vs =
     (case find (\<lambda>v. ca_key v = k) vs of
        None \<Rightarrow> (vs, None)
      | Some v \<Rightarrow>
          if time_Sub now (ca_storedAt v) \<ge> ttl then (without k vs, None)
          else if \<not> usable v then (vs, None)
          else (v # without k vs, Some v))"

lemmas lru_defs = list_Remove_def list_MoveToFront_def list_assign_def entries_def without_def

lemma lru_ok_distinct: "lru_ok cap l \<Longrightarrow> distinct (map fst (lru_elems l))"
  by (simp add: lru_ok_def)

lemma lru_ok_index:
  "lru_ok cap l \<Longrightarrow> kv_get (lru_index l) k = Some e \<longleftrightarrow> (\<exists>v. (e, v) \<in> set (lru_elems l) \<and> ca_key v = k)"
  by (simp add: lru_ok_def)

lemma lru_ok_value: "lru_ok cap l \<Longrightarrow> map_of (lru_elems l) e = Some v \<longleftrightarrow> (e, v) \<in> set (lru_elems l)"
  by (simp add: lru_ok_distinct)

lemma lru_ok_entry:
  assumes "lru_ok cap l" "kv_get (lru_index l) k = Some e"
  obtains v where "(e, v) \<in> set (lru_elems l)" "ca_key v = k" "map_of (lru_elems l) e = Some v"
  using assms lru_ok_index[OF assms(1)] lru_ok_value[OF assms(1)] by blast

lemma lru_ok_same_elem:
  assumes "lru_ok cap l" "(e, v) \<in> set (lru_elems l)" "(e, v') \<in> set (lru_elems l)"
  shows "v' = v"
  using assms eq_key_imp_eq_value[OF lru_ok_distinct[OF assms(1)]] by blast

lemma lru_ok_same_key:
  assumes "lru_ok cap l" "(e, v) \<in> set (lru_elems l)" "(e', v') \<in> set (lru_elems l)"
  shows "e' = e \<longleftrightarrow> ca_key v' = ca_key v"
proof
  assume "e' = e"
  then show "ca_key v' = ca_key v" using lru_ok_same_elem[OF assms(1,2)] assms(3) by blast
next
  assume "ca_key v' = ca_key v"
  then have "kv_get (lru_index l) (ca_key v) = Some e'" "kv_get (lru_index l) (ca_key v) = Some e"
    using lru_ok_index[OF assms(1)] assms(2,3) by blast+
  then show "e' = e" by simp
qed

lemma lru_ok_no_key:
  assumes "lru_ok cap l"
  shows "kv_get (lru_index l) k = None \<longleftrightarrow> k \<notin> ca_key ` set (entries l)"
proof -
  have "kv_get (lru_index l) k \<noteq> None \<longleftrightarrow> (\<exists>e v. (e, v) \<in> set (lru_elems l) \<and> ca_key v = k)"
    using lru_ok_index[OF assms, of k] by (simp only: not_None_eq)
  also have "\<dots> \<longleftrightarrow> k \<in> ca_key ` set (entries l)" unfolding entries_def by force
  finally show ?thesis by blast
qed

lemma entries_Remove:
  assumes "lru_ok cap l" "(e, v) \<in> set (lru_elems l)"
  shows "map snd (list_Remove e (lru_elems l)) = without (ca_key v) (entries l)"
proof -
  have "list_Remove e (lru_elems l) = filter (\<lambda>(e', v'). ca_key v' \<noteq> ca_key v) (lru_elems l)"
    unfolding list_Remove_def using lru_ok_same_key[OF assms] by (intro filter_cong) auto
  then show ?thesis by (simp add: lru_defs filter_map o_def case_prod_unfold)
qed

lemma list_assign_Remove: "list_Remove e (list_assign e v l) = list_Remove e l"
  by (induction l) (auto simp: lru_defs)

lemma map_of_assign: "map_of l e = Some u \<Longrightarrow> map_of (list_assign e v l) e = Some v"
  by (induction l) (auto simp: lru_defs split: if_splits)

lemma entries_find:
  assumes "lru_ok cap l"
  shows "find (\<lambda>v. ca_key v = k) (entries l) =
           (case kv_get (lru_index l) k of None \<Rightarrow> None | Some e \<Rightarrow> map_of (lru_elems l) e)"
proof (cases "kv_get (lru_index l) k")
  case None
  then show ?thesis using lru_ok_no_key[OF assms, of k] by (auto simp: find_None_iff)
next
  case (Some e)
  then obtain v where v: "(e, v) \<in> set (lru_elems l)" "ca_key v = k" "map_of (lru_elems l) e = Some v"
    using lru_ok_entry[OF assms Some] by blast
  have key: "u = v" if "u \<in> set (entries l)" "ca_key u = k" for u
  proof -
    from that(1) obtain e' where e': "(e', u) \<in> set (lru_elems l)" by (auto simp: entries_def)
    with lru_ok_same_key[OF assms v(1) e'] v(2) that(2) have "e' = e" by simp
    with e' lru_ok_same_elem[OF assms v(1)] show ?thesis by blast
  qed
  have "v \<in> set (entries l)" using v(1) by (force simp: entries_def)
  then have "find (\<lambda>u. ca_key u = k) (entries l) \<noteq> None" using v(2) by (auto simp: find_None_iff)
  then obtain u where u: "find (\<lambda>u. ca_key u = k) (entries l) = Some u" by auto
  then have "u \<in> set (entries l)" "ca_key u = k" by (auto simp: find_Some_iff)
  with key u v(3) Some show ?thesis by simp
qed

lemma list_Remove_last:
  "distinct (map fst l) \<Longrightarrow> l \<noteq> [] \<Longrightarrow> list_Remove (fst (last l)) l = butlast l"
  by (induction l rule: rev_induct) (auto simp: list_Remove_def filter_id_conv image_iff)

subsection \<open>Every operation keeps them in agreement\<close>

lemma lru_ok_empty [simp]: "lru_ok cap \<lparr> lru_index = [], lru_elems = [], lru_next = n \<rparr>"
  by (simp add: lru_ok_def)

lemma lru_ok_Remove:
  assumes "lru_ok cap l" "(e, v) \<in> set (lru_elems l)"
  shows "lru_ok cap (l\<lparr> lru_elems := list_Remove e (lru_elems l), lru_index := kv_del (lru_index l) (ca_key v) \<rparr>)"
proof -
  have "int (length (list_Remove e (lru_elems l))) \<le> max 1 cap"
    using assms(1) length_filter_le[of "\<lambda>(e', v). e' \<noteq> e" "lru_elems l"] unfolding lru_ok_def list_Remove_def by linarith
  moreover have "ca_key u = ca_key v \<longleftrightarrow> e' = e" if "(e', u) \<in> set (lru_elems l)" for e' u
    using lru_ok_same_key[OF assms that] by simp
  then have "kv_get (kv_del (lru_index l) (ca_key v)) k = Some e' \<longleftrightarrow>
      (\<exists>u. (e', u) \<in> set (list_Remove e (lru_elems l)) \<and> ca_key u = k)" for k e'
    using lru_ok_index[OF assms(1), of k e'] by (auto simp: kv_simps list_Remove_def)
  ultimately show ?thesis using assms(1)
    unfolding lru_ok_def by (simp add: distinct_map_filter list_Remove_def)
qed

lemma lru_ok_front:
  assumes "lru_ok cap l" "(e, u) \<in> set (lru_elems l)" "ca_key v = ca_key u"
  shows "lru_ok cap (l\<lparr> lru_elems := (e, v) # list_Remove e (lru_elems l) \<rparr>)"
proof -
  have key: "e' = e \<longleftrightarrow> ca_key w = ca_key v" if "(e', w) \<in> set (lru_elems l)" for e' w
    using lru_ok_same_key[OF assms(1,2) that] assms(3) by simp
  have "length (list_Remove e (lru_elems l)) < length (lru_elems l)"
    unfolding list_Remove_def using assms(2) by (intro length_filter_less) auto
  then have "int (length ((e, v) # list_Remove e (lru_elems l))) \<le> max 1 cap"
    using assms(1) unfolding lru_ok_def by simp
  moreover have "kv_get (lru_index l) k = Some e' \<longleftrightarrow>
      (\<exists>w. (e', w) \<in> set ((e, v) # list_Remove e (lru_elems l)) \<and> ca_key w = k)" for k e'
  proof (cases "e' = e")
    case True
    have "kv_get (lru_index l) k = Some e \<longleftrightarrow> ca_key u = k"
      using lru_ok_index[OF assms(1), of k e] lru_ok_same_elem[OF assms(1,2)] assms(2) by blast
    with True assms(3) show ?thesis by (simp add: list_Remove_def)
  next
    case False
    then show ?thesis using lru_ok_index[OF assms(1), of k e'] by (simp add: list_Remove_def)
  qed
  moreover have "ca_key v \<notin> (ca_key \<circ> snd) ` set (list_Remove e (lru_elems l))"
    using key by (force simp: list_Remove_def)
  moreover have "e \<notin> fst ` set (list_Remove e (lru_elems l))" by (auto simp: list_Remove_def)
  ultimately show ?thesis using assms(1,2)
    unfolding lru_ok_def by (auto simp: distinct_map_filter list_Remove_def)
qed

lemma last_elem: "l \<noteq> [] \<Longrightarrow> last l = (e, v) \<Longrightarrow> (e, v) \<in> set l"
  by (metis last_in_set)

lemma evictOldest_ok: "lru_ok cap l \<Longrightarrow> lru_ok cap (evictOldest l)"
  by (auto simp: evictOldest_def Let_def split: prod.splits intro!: lru_ok_Remove last_elem)

lemma evictOldest_entries:
  assumes "lru_ok cap l"
  shows "lru_elems (evictOldest l) = butlast (lru_elems l)" "lru_next (evictOldest l) = lru_next l"
  using list_Remove_last[OF lru_ok_distinct[OF assms]]
  by (simp_all add: evictOldest_def Let_def case_prod_unfold)

lemma lru_ok_push:
  assumes "lru_ok cap l" "kv_get (lru_index l) (ca_key v) = None" "int (length (lru_elems l)) < max 1 cap"
  shows "lru_ok cap (l\<lparr> lru_elems := (lru_next l, v) # lru_elems l,
     lru_index := kv_put (lru_index l) (ca_key v) (lru_next l), lru_next := lru_next l + 1 \<rparr>)"
proof -
  have fresh: "lru_next l \<notin> fst ` set (lru_elems l)" using assms(1) unfolding lru_ok_def by auto
  have new: "ca_key v \<notin> ca_key ` set (entries l)" using assms(2) lru_ok_no_key[OF assms(1)] by simp
  then have keys: "ca_key v \<notin> (ca_key \<circ> snd) ` set (lru_elems l)" by (simp add: entries_def image_comp)
  have "kv_get (kv_put (lru_index l) (ca_key v) (lru_next l)) k = Some e \<longleftrightarrow>
      (\<exists>w. (e, w) \<in> set ((lru_next l, v) # lru_elems l) \<and> ca_key w = k)" for k e
  proof (cases "k = ca_key v")
    case True
    have "ca_key w \<noteq> k" if "(e, w) \<in> set (lru_elems l)" for w
      using imageI[OF that, of "ca_key \<circ> snd"] keys True by (metis comp_apply snd_conv)
    with True show ?thesis by (auto simp: kv_simps)
  next
    case False
    then show ?thesis using lru_ok_index[OF assms(1), of k e] by (auto simp: kv_simps)
  qed
  moreover have "int (length ((lru_next l, v) # lru_elems l)) \<le> max 1 cap" using assms(3) by simp
  moreover have "\<forall>(e, w) \<in> set ((lru_next l, v) # lru_elems l). e < lru_next l + 1"
    using assms(1) unfolding lru_ok_def by auto
  moreover have "distinct (map fst ((lru_next l, v) # lru_elems l))"
    "distinct (map (ca_key \<circ> snd) ((lru_next l, v) # lru_elems l))"
    using assms(1) fresh keys unfolding lru_ok_def by simp_all
  ultimately have "lru_ok cap \<lparr> lru_index = kv_put (lru_index l) (ca_key v) (lru_next l),
      lru_elems = (lru_next l, v) # lru_elems l, lru_next = lru_next l + 1 \<rparr>"
    unfolding lru_ok_def lru.simps by blast
  then show ?thesis by (cases l) simp
qed

lemma evictOldest_missing:
  "kv_get (lru_index l) k = None \<Longrightarrow> kv_get (lru_index (evictOldest l)) k = None"
  by (auto simp: evictOldest_def Let_def kv_simps split: prod.splits simp del: map_of_eq_None_iff)

lemma lru_save_ok:
  assumes "lru_ok cap l"
  shows "lru_ok cap (lru_save cap v l)"
proof (cases "kv_get (lru_index l) (ca_key v)")
  case None
  let ?l = "if int (length (lru_elems l)) \<ge> cap then evictOldest l else l"
  have "lru_ok cap ?l" using assms evictOldest_ok[OF assms] by simp
  moreover have "kv_get (lru_index ?l) (ca_key v) = None" using None evictOldest_missing[OF None] by (simp del: map_of_eq_None_iff)
  moreover have "int (length (lru_elems ?l)) < max 1 cap"
    using assms evictOldest_entries(1)[OF assms] unfolding lru_ok_def by auto
  ultimately show ?thesis using None unfolding lru_save_def Let_def by (simp only: option.case lru_ok_push)
next
  case (Some e)
  then obtain u where u: "(e, u) \<in> set (lru_elems l)" "ca_key u = ca_key v" "map_of (lru_elems l) e = Some u"
    using lru_ok_entry[OF assms Some] by blast
  show ?thesis using Some lru_ok_front[OF assms u(1), of v] u(2) map_of_assign[OF u(3), of v]
    by (simp add: lru_save_def list_MoveToFront_def list_assign_Remove)
qed

lemma lru_find_ok:
  assumes "lru_ok cap l"
  shows "lru_ok cap (fst (lru_find ttl now usable k l))"
proof (cases "kv_get (lru_index l) k")
  case (Some e)
  then obtain u where u: "(e, u) \<in> set (lru_elems l)" "ca_key u = k" "map_of (lru_elems l) e = Some u"
    using lru_ok_entry[OF assms Some] by blast
  show ?thesis using Some u lru_ok_Remove[OF assms u(1)] lru_ok_front[OF assms u(1) refl] assms
    by (simp add: lru_find_def list_MoveToFront_def)
qed (simp add: lru_find_def assms)

subsection \<open>Refinement of the list of entries\<close>

lemma lru_save_refines:
  assumes "lru_ok cap l"
  shows "entries (lru_save cap v l) = spec_save cap v (entries l)"
proof (cases "kv_get (lru_index l) (ca_key v)")
  case None
  then show ?thesis using lru_ok_no_key[OF assms, of "ca_key v"] evictOldest_entries[OF assms]
    by (simp add: lru_save_def spec_save_def Let_def entries_def map_butlast)
next
  case (Some e)
  then obtain u where u: "(e, u) \<in> set (lru_elems l)" "ca_key u = ca_key v" "map_of (lru_elems l) e = Some u"
    using lru_ok_entry[OF assms Some] by blast
  have "ca_key v \<in> ca_key ` set (entries l)" 
    using imageI[OF u(1), of "ca_key \<circ> snd"] u(2) by (simp add: entries_def image_comp)
  then show ?thesis using Some entries_Remove[OF assms u(1)] u(2) map_of_assign[OF u(3), of v]
    by (simp add: lru_save_def spec_save_def list_MoveToFront_def list_assign_Remove entries_def)
qed

lemma lru_find_refines:
  assumes "lru_ok cap l"
  shows "(entries (fst (lru_find ttl now usable k l)), snd (lru_find ttl now usable k l)) =
         spec_find ttl now usable k (entries l)"
proof (cases "kv_get (lru_index l) k")
  case None
  then show ?thesis using entries_find[OF assms, of k] by (simp add: lru_find_def spec_find_def)
next
  case (Some e)
  then obtain u where u: "(e, u) \<in> set (lru_elems l)" "ca_key u = k" "map_of (lru_elems l) e = Some u"
    using lru_ok_entry[OF assms Some] by blast
  show ?thesis using Some u entries_find[OF assms, of k] entries_Remove[OF assms u(1)]
    by (simp add: lru_find_def spec_find_def list_MoveToFront_def entries_def)
qed

section \<open>Sequences of operations\<close>

datatype cache_op =
    OpSaveCitizen time NationalID "CitizenRecord option" bool
  | OpFindCitizen time NationalID bool
  | OpSaveSanction time NationalID "SanctionsRecord option"
  | OpFindSanction time NationalID
  | OpClearAll
  | OpSize

datatype cache_out =
    Saved "go_error option" | GotCitizen "CitizenRecord result" | GotSanction "SanctionsRecord result"
  | Cleared | Sizes "nat \<times> nat"

fun cache_do :: "cache_op \<Rightarrow> InMemoryCache \<Rightarrow> InMemoryCache \<times> cache_out" where
  "cache_do (OpSaveCitizen t n r reg) c = map_prod (\<lambda>c. c) Saved (SaveCitizen t n r reg c)"
| "cache_do (OpFindCitizen t n reg) c = map_prod (\<lambda>c. c) GotCitizen (FindCitizen t n reg c)"
| "cache_do (OpSaveSanction t n r) c = map_prod (\<lambda>c. c) Saved (SaveSanction t n r c)"
| "cache_do (OpFindSanction t n) c = map_prod (\<lambda>c. c) GotSanction (FindSanction t n c)"
| "cache_do OpClearAll c = (cache_ClearAll c, Cleared)"
| "cache_do OpSize c = (c, Sizes (cache_Size c))"

fun cache_run :: "cache_op list \<Rightarrow> InMemoryCache \<Rightarrow> InMemoryCache \<times> cache_out list" where
  "cache_run [] c = (c, [])"
| "cache_run (op # ops) c =
     (let (c, out) = cache_do op c; (c, outs) = cache_run ops c in (c, out # outs))"

text \<open>The specification: two lists of entries, without elements, identities or an index.\<close>

type_synonym spec_cache = "cachedCitizen list \<times> cachedSanction list"

definition hit :: "'e list \<times> ('r, 'm) cached_scheme option \<Rightarrow> 'r result" where
  "hit r = (case snd r of None \<Rightarrow> Inl cache_ErrNotFound | Some v \<Rightarrow> Inr (ca_record v))"

fun spec_do :: "duration \<Rightarrow> int \<Rightarrow> cache_op \<Rightarrow> spec_cache \<Rightarrow> spec_cache \<times> cache_out" where
  "spec_do ttl cap (OpSaveCitizen t n None reg) (cs, ss) = ((cs, ss), Saved None)"
| "spec_do ttl cap (OpSaveCitizen t n (Some r) reg) (cs, ss) =
     (if NationalID_IsNil n then ((cs, ss), Saved (Some (Errorf ''cannot cache citizen record with nil key'')))
      else ((spec_save cap \<lparr> ca_key = NationalID_String n, ca_record = r, ca_storedAt = t, cc_regulated = reg \<rparr> cs, ss), Saved None))"
| "spec_do ttl cap (OpFindCitizen t n reg) (cs, ss) =
     (let r = spec_find ttl t (\<lambda>v. cc_regulated v = reg) (NationalID_String n) cs in ((fst r, ss), GotCitizen (hit r)))"
| "spec_do ttl cap (OpSaveSanction t n None) (cs, ss) = ((cs, ss), Saved None)"
| "spec_do ttl cap (OpSaveSanction t n (Some r)) (cs, ss) =
     (if NationalID_IsNil n then ((cs, ss), Saved (Some (Errorf ''cannot cache sanction record with nil key'')))
      else ((cs, spec_save cap \<lparr> ca_key = NationalID_String n, ca_record = r, ca_storedAt = t \<rparr> ss), Saved None))"
| "spec_do ttl cap (OpFindSanction t n) (cs, ss) =
     (let r = spec_find ttl t (\<lambda>v. True) (NationalID_String n) ss in ((cs, fst r), GotSanction (hit r)))"
| "spec_do ttl cap OpClearAll (cs, ss) = (([], []), Cleared)"
| "spec_do ttl cap OpSize (cs, ss) = ((cs, ss), Sizes (length cs, length ss))"

fun spec_run :: "duration \<Rightarrow> int \<Rightarrow> cache_op list \<Rightarrow> spec_cache \<Rightarrow> spec_cache \<times> cache_out list" where
  "spec_run ttl cap [] s = (s, [])"
| "spec_run ttl cap (op # ops) s =
     (let (s, out) = spec_do ttl cap op s; (s, outs) = spec_run ttl cap ops s in (s, out # outs))"

definition cache_ok :: "InMemoryCache \<Rightarrow> bool" where
  "cache_ok c = (lru_ok (maxSize c) (citizens_lru c) \<and> lru_ok (maxSize c) (sanctions_lru c))"

definition cache_abs :: "InMemoryCache \<Rightarrow> spec_cache" where
  "cache_abs c = (entries (citizens_lru c), entries (sanctions_lru c))"

lemma cache_ok_New [simp]: "cache_ok (NewInMemoryCache ttl cap)"
  by (simp add: cache_ok_def NewInMemoryCache_def lru_empty_def)

lemma cache_abs_New [simp]: "cache_abs (NewInMemoryCache ttl cap) = ([], [])"
  by (simp add: cache_abs_def NewInMemoryCache_def lru_empty_def entries_def)

lemma cacheTTL_New [simp]: "cacheTTL (NewInMemoryCache ttl cap) = ttl"
  by (simp add: NewInMemoryCache_def)

lemma lru_find_spec:
  assumes "lru_ok cap l"
  shows "entries (fst (lru_find ttl now usable k l)) = fst (spec_find ttl now usable k (entries l))"
    "snd (lru_find ttl now usable k l) = snd (spec_find ttl now usable k (entries l))"
  using lru_find_refines[OF assms, of ttl now usable k] by (metis fst_conv, metis snd_conv)

lemmas cache_op_defs = SaveCitizen_def FindCitizen_def SaveSanction_def FindSanction_def cache_ClearAll_def cache_Size_def

lemma lru_ok_cleared [simp]: "lru_ok cap (l\<lparr> lru_index := [], lru_elems := [] \<rparr>)"
  by (simp add: lru_ok_def)

lemma cache_do_kept: "cacheTTL (fst (cache_do op c)) = cacheTTL c" "maxSize (fst (cache_do op c)) = maxSize c"
  by (cases op; simp add: cache_op_defs Let_def case_prod_unfold split: option.split)+

lemma cache_do_ok: "cache_ok c \<Longrightarrow> cache_ok (fst (cache_do op c))"
  by (cases op; simp add: cache_ok_def cache_op_defs Let_def case_prod_unfold lru_save_ok lru_find_ok split: option.split)

lemma spec_do_cases [case_names NoCitizen SaveCitizen FindCitizen NoSanction SaveSanction FindSanction ClearAll Size]:
  obtains t n reg where "op = OpSaveCitizen t n None reg" | t n r reg where "op = OpSaveCitizen t n (Some r) reg"
  | t n reg where "op = OpFindCitizen t n reg" | t n where "op = OpSaveSanction t n None"
  | t n r where "op = OpSaveSanction t n (Some r)" | t n where "op = OpFindSanction t n" | "op = OpClearAll" | "op = OpSize"
  by (metis cache_op.exhaust option.exhaust)

lemma cache_do_refines:
  assumes "cache_ok c"
  shows "spec_do (cacheTTL c) (maxSize c) op (cache_abs c) =
           (cache_abs (fst (cache_do op c)), snd (cache_do op c))"
proof -
  have ok: "lru_ok (maxSize c) (citizens_lru c)" "lru_ok (maxSize c) (sanctions_lru c)"
    using assms by (simp_all add: cache_ok_def)
  have len: "length (entries l) = length (lru_elems l)" "entries (l\<lparr> lru_index := [], lru_elems := [] \<rparr>) = []" for l :: "'e lru"
    by (simp_all add: entries_def)
  show ?thesis
    by (cases op rule: spec_do_cases; simp add: cache_abs_def cache_op_defs Let_def case_prod_unfold hit_def len
        lru_save_refines[OF ok(1)] lru_save_refines[OF ok(2)] lru_find_spec[OF ok(1)] lru_find_spec[OF ok(2)])
qed

lemma cache_run_refines:
  "cache_ok c \<Longrightarrow> spec_run (cacheTTL c) (maxSize c) ops (cache_abs c) =
     (cache_abs (fst (cache_run ops c)), snd (cache_run ops c)) \<and> cache_ok (fst (cache_run ops c)) \<and>
     cacheTTL (fst (cache_run ops c)) = cacheTTL c \<and> maxSize (fst (cache_run ops c)) = maxSize c"
proof (induction ops arbitrary: c)
  case (Cons op ops)
  from Cons.IH[OF cache_do_ok[OF Cons.prems, of op]] cache_do_refines[OF Cons.prems, of op] show ?case
    by (simp add: Let_def case_prod_unfold cache_do_kept)
qed simp

lemma cache_run_New:
  "lru_ok (maxSize (fst (cache_run ops (NewInMemoryCache ttl cap)))) (citizens_lru (fst (cache_run ops (NewInMemoryCache ttl cap))))"
  "cacheTTL (fst (cache_run ops (NewInMemoryCache ttl cap))) = ttl"
  using cache_run_refines[OF cache_ok_New, of ttl cap ops] unfolding cache_ok_def by (blast, simp)

lemma cache_ok_Size: "cache_ok c \<Longrightarrow> int (fst (cache_Size c)) \<le> max 1 (maxSize c) \<and> int (snd (cache_Size c)) \<le> max 1 (maxSize c)"
  by (simp add: cache_ok_def lru_ok_def cache_Size_def)

text \<open>
  \<^bold>\<open>C38\<close> The registry cache behaves as a bounded list of entries in order of use. Whatever sequence of
  saves, lookups, clearings and size queries is applied to a new cache, its hash map and its linked
  list of elements return exactly the answers of the specification, which evicts the least recently
  used entry when a new key arrives at capacity and drops an entry found past its age. Neither cache
  ever holds more than the configured number of entries, or one entry if the setting is not positive.
\<close>

theorem cache_refines_lru:
  "snd (cache_run ops (NewInMemoryCache ttl cap)) =
     snd (spec_run ttl (maxSize (NewInMemoryCache ttl cap)) ops ([], [])) \<and>
   int (fst (cache_Size (fst (cache_run ops (NewInMemoryCache ttl cap))))) \<le> max 1 (maxSize (NewInMemoryCache ttl cap)) \<and>
   int (snd (cache_Size (fst (cache_run ops (NewInMemoryCache ttl cap))))) \<le> max 1 (maxSize (NewInMemoryCache ttl cap))"
  using cache_run_refines[OF cache_ok_New, of ttl cap ops]
    cache_ok_Size[of "fst (cache_run ops (NewInMemoryCache ttl cap))"] by simp

section \<open>What a hit returns\<close>

text \<open>The entry the last accepted save of a key left, unless the cache was cleared since.\<close>

fun last_save :: "string \<Rightarrow> cache_op list \<Rightarrow> cachedCitizen option" where
  "last_save k [] = None"
| "last_save k (op # ops) =
     (case last_save k ops of
        Some v \<Rightarrow> Some v
      | None \<Rightarrow>
          (case op of
             OpSaveCitizen t n (Some r) reg \<Rightarrow>
               if \<not> NationalID_IsNil n \<and> NationalID_String n = k \<and> OpClearAll \<notin> set ops
               then Some \<lparr> ca_key = k, ca_record = r, ca_storedAt = t, cc_regulated = reg \<rparr> else None
           | _ \<Rightarrow> None))"

lemma last_save_snoc:
  "last_save k (ops @ [op]) =
     (case op of
        OpSaveCitizen t n (Some r) reg \<Rightarrow>
          if \<not> NationalID_IsNil n \<and> NationalID_String n = k
          then Some \<lparr> ca_key = k, ca_record = r, ca_storedAt = t, cc_regulated = reg \<rparr> else last_save k ops
      | OpClearAll \<Rightarrow> None
      | _ \<Rightarrow> last_save k ops)"
  by (induction ops) (auto split: cache_op.splits option.splits)

lemma cache_run_snoc: "fst (cache_run (ops @ [op]) c) = fst (cache_do op (fst (cache_run ops c)))"
  by (induction ops arbitrary: c) (simp_all add: Let_def case_prod_unfold)

lemma spec_save_set: "set (spec_save cap v vs) \<subseteq> insert v (set (without (ca_key v) vs))"
  by (auto simp: spec_save_def without_def image_iff) (metis in_set_butlastD)+

lemma spec_find_set: "set (fst (spec_find ttl now usable k vs)) \<subseteq> set vs"
  by (auto simp: spec_find_def without_def find_Some_iff split: option.splits)

lemma spec_find_member: "v \<in> set (fst (spec_find ttl now usable k vs)) \<Longrightarrow> v \<in> set vs"
  using spec_find_set by fast

lemma spec_find_Some:
  "snd (spec_find ttl now usable k vs) = Some v \<Longrightarrow>
     v \<in> set vs \<and> ca_key v = k \<and> usable v \<and> time_Sub now (ca_storedAt v) < ttl"
  by (auto simp: spec_find_def find_Some_iff split: option.splits if_splits)

lemma citizens_from_saves:
  assumes "v \<in> set (entries (citizens_lru (fst (cache_run ops (NewInMemoryCache ttl cap)))))"
  shows "last_save (ca_key v) ops = Some v"
  using assms
proof (induction ops arbitrary: v rule: rev_induct)
  case Nil
  then show ?case by (simp add: NewInMemoryCache_def lru_empty_def entries_def)
next
  case (snoc op ops)
  let ?c = "fst (cache_run ops (NewInMemoryCache ttl cap))"
  have ok: "lru_ok (maxSize ?c) (citizens_lru ?c)"
    by (rule cache_run_New(1))
  show ?case
  proof (cases op)
    case (OpSaveCitizen t n rec reg)
    show ?thesis
    proof (cases rec)
      case None
      then show ?thesis using snoc OpSaveCitizen by (simp add: cache_run_snoc last_save_snoc SaveCitizen_def)
    next
      case (Some r)
      let ?v = "\<lparr> ca_key = NationalID_String n, ca_record = r, ca_storedAt = t, cc_regulated = reg \<rparr> :: cachedCitizen"
      show ?thesis using snoc OpSaveCitizen Some lru_save_refines[OF ok, of ?v] spec_save_set[of "maxSize ?c" ?v "entries (citizens_lru ?c)"]
        by (auto simp: cache_run_snoc last_save_snoc SaveCitizen_def without_def split: if_splits)
    qed
  next
    case (OpFindCitizen t n reg)
    then have "v \<in> set (entries (citizens_lru ?c))" using snoc.prems
      by (auto simp: cache_run_snoc FindCitizen_def Let_def case_prod_unfold lru_find_spec(1)[OF ok] dest: spec_find_member)
    with OpFindCitizen snoc.IH show ?thesis by (simp add: last_save_snoc)
  qed (use snoc in \<open>auto simp: cache_run_snoc last_save_snoc cache_op_defs Let_def case_prod_unfold entries_def split: if_splits option.splits\<close>)
qed

text \<open>
  A hit of the citizen cache is never stale and never of the other mode. If a lookup returns a
  record after any sequence of operations on a new cache, that record is the one the last accepted
  save for that national identifier stored, no clearing came after it, it was stored in the mode that
  the lookup asked for, and its age is below the time to live.
\<close>

lemma cache_hit_is_last_save:
  assumes "snd (FindCitizen now n regulated (fst (cache_run ops (NewInMemoryCache ttl cap)))) = Inr r"
  shows "\<exists>v. last_save (NationalID_String n) ops = Some v \<and> ca_record v = r \<and> cc_regulated v = regulated \<and>
             time_Sub now (ca_storedAt v) < ttl"
proof -
  let ?c = "fst (cache_run ops (NewInMemoryCache ttl cap))"
  have c: "lru_ok (maxSize ?c) (citizens_lru ?c)" "cacheTTL ?c = ttl" by (rule cache_run_New)+
  from assms obtain v where v: "snd (spec_find ttl now (\<lambda>v. cc_regulated v = regulated) (NationalID_String n)
      (entries (citizens_lru ?c))) = Some v" "ca_record v = r"
    by (auto simp: FindCitizen_def Let_def case_prod_unfold lru_find_spec[OF c(1)] c(2) split: option.splits)
  from spec_find_Some[OF v(1)] v(2) citizens_from_saves[of v ops ttl cap] show ?thesis by auto
qed

definition ex_crec :: CitizenRecord where
  "ex_crec = \<lparr> cr_NationalID = [], cr_FullName = [], cr_DateOfBirth = [], cr_Address = [], cr_Valid = True,
     cr_Source = ''gov'', cr_CheckedAt = 5 \<rparr>"

lemma cache_hit_is_last_save_witness:
  "\<exists>v. last_save ''ABC123'' [OpSaveCitizen 10 (NationalID ''ABC123'') (Some ex_crec) True, OpFindSanction 11 (NationalID ''ABC123'')] = Some v \<and>
       ca_record v = ex_crec \<and> cc_regulated v = True \<and> time_Sub 15 (ca_storedAt v) < 100"
proof -
  have "snd (FindCitizen 15 (NationalID ''ABC123'') True (fst (cache_run
      [OpSaveCitizen 10 (NationalID ''ABC123'') (Some ex_crec) True, OpFindSanction 11 (NationalID ''ABC123'')]
      (NewInMemoryCache 100 (Some 2))))) = Inr ex_crec" by code_simp
  from cache_hit_is_last_save[OF this] show ?thesis by simp
qed

end
