(* ===== verification/Reg_Orchestrator.thy ===== *)
theory Reg_Orchestrator
  imports Reg_Models
begin

text \<open>
  The evidence registry, third part: the provider registry
  (\<^verbatim>\<open>internal/evidence/registry/providers/provider.go\<close>), the orchestrator with its four lookup
  strategies (\<^verbatim>\<open>orchestrator/orchestrator.go\<close>) and the correlation rules
  (\<^verbatim>\<open>orchestrator/correlation/rules.go\<close>).

  A provider is an external service. What it answers to the filters of a request, in the n-th call of a lookup, is the
  parameter \<open>oe_answer\<close>, so it may fail at first and succeed later. Whether the context is done at the n-th
  wait is \<open>oe_done\<close>, the product of a delay and the multiplier, taken in floating point, is
  \<open>oe_scale\<close>, and the order in which the goroutines of a parallel lookup reach the lock is
  \<open>oe_order\<close>. The state records the calls with their filters, the waits a lookup made, and the retry budget.
\<close>

section \<open>The provider registry\<close>

text \<open>A provider is its identifier and the type of its capabilities; \<^verbatim>\<open>Register\<close> keys it by its
  identifier. The order of the list is the order in which \<^verbatim>\<open>range\<close> visits the map.\<close>

type_synonym ProviderRegistry = "(string, ProviderType) kv"

definition ProviderRegistry_Register :: "string \<Rightarrow> ProviderType \<Rightarrow> ProviderRegistry \<Rightarrow> ProviderRegistry \<times> go_error option" where
  "ProviderRegistry_Register oid typ r =
     (case kv_get r oid of
        Some _ \<Rightarrow> (r, Some (Errorf (''provider '' @ oid @ '' already registered'')))
      | None \<Rightarrow> (kv_put r oid typ, None))"

definition ListByType :: "ProviderRegistry \<Rightarrow> ProviderType \<Rightarrow> string list" where
  "ListByType r t = map fst (filter (\<lambda>(oid, typ). typ = t) r)"

section \<open>Retry budget\<close>

definition int32 :: "int \<Rightarrow> int" where
  "int32 n = (n + 2 ^ 31) mod 2 ^ 32 - 2 ^ 31"

definition newRetryBudget :: "int \<Rightarrow> int" where
  "newRetryBudget limit = int32 (max limit 1000)"

text \<open>The compare-and-swap loop, as the one step it takes when it succeeds.\<close>

definition tryConsume :: "int \<Rightarrow> int \<times> bool" where
  "tryConsume remaining = (if remaining \<le> 0 then (remaining, False) else (remaining - 1, True))"

section \<open>Configuration\<close>

datatype LookupStrategy =
    StrategyNone | StrategyPrimary | StrategyFallback | StrategyParallel | StrategyVoting | StrategyUnknown string

record ProviderChain =
  pc_Primary :: string
  pc_Secondary :: "string list"

record BackoffConfig =
  bo_InitialDelay :: duration
  bo_MaxDelay :: duration
  bo_MaxRetries :: int
  bo_Multiplier :: rat
  bo_GlobalRetryBudget :: int

text \<open>A correlation rule is an interface with two methods.\<close>

record CorrelationRule =
  rule_Applicable :: "ProviderType list \<Rightarrow> bool"
  rule_Merge :: "Evidence list \<Rightarrow> Evidence result"

record Orchestrator =
  or_registry :: ProviderRegistry
  or_chains :: "(ProviderType, ProviderChain) kv"
  or_rules :: "CorrelationRule list"
  or_strategy :: LookupStrategy
  or_timeout :: duration
  or_backoff :: BackoffConfig

definition or_default :: "'a::zero \<Rightarrow> 'a \<Rightarrow> 'a" where
  "or_default v d = (if v = 0 then d else v)"

definition Orchestrator_New ::
  "ProviderRegistry \<Rightarrow> LookupStrategy \<Rightarrow> duration \<Rightarrow> (ProviderType, ProviderChain) kv \<Rightarrow> CorrelationRule list \<Rightarrow>
   BackoffConfig \<Rightarrow> Orchestrator" where
  "Orchestrator_New registry strategy timeout cfg_chains rules b =
     \<lparr> or_registry = registry, or_chains = cfg_chains, or_rules = rules,
       or_strategy = (if strategy = StrategyNone then StrategyFallback else strategy),
       or_timeout = or_default timeout (5 * second),
       or_backoff = \<lparr> bo_InitialDelay = or_default (bo_InitialDelay b) (100 * millisecond),
         bo_MaxDelay = or_default (bo_MaxDelay b) (2 * second),
         bo_MaxRetries = or_default (bo_MaxRetries b) 3,
         bo_Multiplier = or_default (bo_Multiplier b) 2,
         bo_GlobalRetryBudget = or_default (bo_GlobalRetryBudget b) 10 \<rparr> \<rparr>"

text \<open>What a caller asks for. The time limit is part of what the providers answer and of \<open>oe_done\<close>.\<close>

type_synonym Filters = "(string, string) kv"

record LookupRequest =
  lq_Types :: "ProviderType list"
  lq_Filters :: Filters
  lq_Strategy :: LookupStrategy

record orch_env =
  oe_answer :: "string \<Rightarrow> Filters \<Rightarrow> nat \<Rightarrow> reg_error + Evidence"
  oe_done :: "nat \<Rightarrow> go_error option"
  oe_scale :: "duration \<Rightarrow> rat \<Rightarrow> duration"
  oe_order :: "string list \<Rightarrow> string list"

record orch_state =
  os_calls :: "(string \<times> Filters) list"
  os_waits :: "duration list"
  os_budget :: int

definition orch_init :: "int \<Rightarrow> orch_state" where
  "orch_init b = \<lparr> os_calls = [], os_waits = [], os_budget = b \<rparr>"

record LookupResult =
  lr_Evidence :: "Evidence list"
  lr_Errors :: "(string, reg_error) kv"

section \<open>Calls\<close>

definition Provider_Lookup :: "orch_env \<Rightarrow> Filters \<Rightarrow> string \<Rightarrow> orch_state \<Rightarrow> orch_state \<times> (reg_error + Evidence)" where
  "Provider_Lookup env filters oid st =
     (st\<lparr> os_calls := os_calls st @ [(oid, filters)] \<rparr>, oe_answer env oid filters (count_list (os_calls st) (oid, filters)))"

text \<open>
  \<^verbatim>\<open>tryProviderWithBackoff\<close>: the loop over the attempts, with the number of attempts that are left.
  The results \<^verbatim>\<open>(evidence, err)\<close> are an error or an evidence that may be nil: with a negative
  \<^verbatim>\<open>MaxRetries\<close> the loop has no attempt and both are nil.
\<close>

fun attempts ::
  "orch_env \<Rightarrow> BackoffConfig \<Rightarrow> Filters \<Rightarrow> string \<Rightarrow> nat \<Rightarrow> duration \<Rightarrow> reg_error option \<Rightarrow> orch_state \<Rightarrow>
   orch_state \<times> (reg_error + Evidence option)" where
  "attempts env b filters oid 0 delay lastErr st = (st, case lastErr of None \<Rightarrow> Inr None | Some e \<Rightarrow> Inl e)"
| "attempts env b filters oid (Suc n) delay lastErr st =
     (let try_now = (\<lambda>delay st.
            case Provider_Lookup env filters oid st of
              (st, Inr ev) \<Rightarrow> (st, Inr (Some ev))
            | (st, Inl err) \<Rightarrow>
                if IsRetryable err then attempts env b filters oid n delay (Some err) st else (st, Inl err))
      in case lastErr of
           None \<Rightarrow> try_now delay st
         | Some e \<Rightarrow>
             let (budget, ok) = tryConsume (os_budget st); st = st\<lparr> os_budget := budget \<rparr>
             in if \<not> ok then (st, Inl e)
                else let w = length (os_waits st); st = st\<lparr> os_waits := os_waits st @ [delay] \<rparr>
                     in case oe_done env w of
                          Some ctx_err \<Rightarrow> (st, Inl (ROther ctx_err))
                        | None \<Rightarrow> try_now (min (oe_scale env delay (bo_Multiplier b)) (bo_MaxDelay b)) st)"

definition tryProviderWithBackoff ::
  "orch_env \<Rightarrow> Orchestrator \<Rightarrow> Filters \<Rightarrow> string \<Rightarrow> orch_state \<Rightarrow> orch_state \<times> (reg_error + Evidence option)" where
  "tryProviderWithBackoff env orch filters oid st =
     (case kv_get (or_registry orch) oid of
        None \<Rightarrow> (st, Inl ErrProviderNotFound)
      | Some _ \<Rightarrow>
          attempts env (or_backoff orch) filters oid (nat (bo_MaxRetries (or_backoff orch) + 1))
            (bo_InitialDelay (or_backoff orch)) None st)"

fun try_ids ::
  "orch_env \<Rightarrow> Orchestrator \<Rightarrow> Filters \<Rightarrow> string list \<Rightarrow> (string, reg_error) kv \<Rightarrow> orch_state \<Rightarrow>
   orch_state \<times> (string, reg_error) kv \<times> Evidence option" where
  "try_ids env orch filters [] errs st = (st, errs, None)"
| "try_ids env orch filters (oid # ids) errs st =
     (case tryProviderWithBackoff env orch filters oid st of
        (st, Inr ev) \<Rightarrow> (st, errs, ev)
      | (st, Inl err) \<Rightarrow> try_ids env orch filters ids (kv_put errs oid err) st)"

definition tryChainWithFallback ::
  "orch_env \<Rightarrow> Orchestrator \<Rightarrow> Filters \<Rightarrow> ProviderChain \<Rightarrow> (string, reg_error) kv \<Rightarrow> orch_state \<Rightarrow>
   orch_state \<times> (string, reg_error) kv \<times> Evidence option" where
  "tryChainWithFallback env orch filters chain errs st = try_ids env orch filters (pc_Primary chain # pc_Secondary chain) errs st"

definition getChainForType :: "Orchestrator \<Rightarrow> ProviderType \<Rightarrow> reg_error + ProviderChain" where
  "getChainForType orch typ =
     (case kv_get (or_chains orch) typ of
        Some chain \<Rightarrow> Inr chain
      | None \<Rightarrow>
          (case ListByType (or_registry orch) typ of
             [] \<Rightarrow> Inl ErrNoProvidersAvailable
           | oid # _ \<Rightarrow> Inr \<lparr> pc_Primary = oid, pc_Secondary = [] \<rparr>))"

section \<open>Strategies\<close>

definition no_results :: LookupResult where
  "no_results = \<lparr> lr_Evidence = [], lr_Errors = [] \<rparr>"

text \<open>The test every strategy ends with.\<close>

definition all_failed :: "LookupResult \<Rightarrow> reg_error option" where
  "all_failed r = (if lr_Evidence r = [] \<and> lr_Errors r \<noteq> [] then Some ErrAllProvidersFailed else None)"

definition primary_step ::
  "orch_env \<Rightarrow> Orchestrator \<Rightarrow> Filters \<Rightarrow> ProviderType \<Rightarrow> LookupResult \<times> orch_state \<Rightarrow> LookupResult \<times> orch_state" where
  "primary_step env orch filters typ rs =
     (let (r, st) = rs; failed = (\<lambda>oid e. r\<lparr> lr_Errors := kv_put (lr_Errors r) oid e \<rparr>)
      in case getChainForType orch typ of
           Inl e \<Rightarrow> (failed ''no-provider'' e, st)
         | Inr chain \<Rightarrow>
             (case kv_get (or_registry orch) (pc_Primary chain) of
                None \<Rightarrow> (failed (pc_Primary chain) ErrProviderNotFound, st)
              | Some _ \<Rightarrow>
                  (case Provider_Lookup env filters (pc_Primary chain) st of
                     (st, Inl e) \<Rightarrow> (failed (pc_Primary chain) e, st)
                   | (st, Inr ev) \<Rightarrow> (r\<lparr> lr_Evidence := lr_Evidence r @ [ev] \<rparr>, st))))"

definition lookupPrimary ::
  "orch_env \<Rightarrow> Orchestrator \<Rightarrow> LookupRequest \<Rightarrow> orch_state \<Rightarrow> orch_state \<times> LookupResult \<times> reg_error option" where
  "lookupPrimary env orch req st =
     (let (r, st) = fold (primary_step env orch (lq_Filters req)) (lq_Types req) (no_results, st) in (st, r, all_failed r))"

definition fallback_step ::
  "orch_env \<Rightarrow> Orchestrator \<Rightarrow> Filters \<Rightarrow> ProviderType \<Rightarrow> LookupResult \<times> orch_state \<Rightarrow> LookupResult \<times> orch_state" where
  "fallback_step env orch filters typ rs =
     (let (r, st) = rs
      in case getChainForType orch typ of
           Inl e \<Rightarrow> (r\<lparr> lr_Errors := kv_put (lr_Errors r) ''no-provider'' e \<rparr>, st)
         | Inr chain \<Rightarrow>
             (case tryChainWithFallback env orch filters chain (lr_Errors r) st of
                (st, errs, Some ev) \<Rightarrow> (r\<lparr> lr_Errors := errs, lr_Evidence := lr_Evidence r @ [ev] \<rparr>, st)
              | (st, errs, None) \<Rightarrow> (r\<lparr> lr_Errors := errs \<rparr>, st)))"

definition lookupFallback ::
  "orch_env \<Rightarrow> Orchestrator \<Rightarrow> LookupRequest \<Rightarrow> orch_state \<Rightarrow> orch_state \<times> LookupResult \<times> reg_error option" where
  "lookupFallback env orch req st =
     (let (r, st) = fold (fallback_step env orch (lq_Filters req)) (lq_Types req)
            (no_results, st\<lparr> os_budget := newRetryBudget (bo_GlobalRetryBudget (or_backoff orch)) \<rparr>)
      in (st, r, all_failed r))"

definition parallel_step :: "orch_env \<Rightarrow> Filters \<Rightarrow> string \<Rightarrow> LookupResult \<times> orch_state \<Rightarrow> LookupResult \<times> orch_state" where
  "parallel_step env filters oid rs =
     (let (r, st) = rs
      in case Provider_Lookup env filters oid st of
           (st, Inl e) \<Rightarrow> (r\<lparr> lr_Errors := kv_put (lr_Errors r) oid e \<rparr>, st)
         | (st, Inr ev) \<Rightarrow> (r\<lparr> lr_Evidence := lr_Evidence r @ [ev] \<rparr>, st))"

fun first_merge :: "CorrelationRule list \<Rightarrow> Evidence list \<Rightarrow> Evidence option" where
  "first_merge [] evs = None"
| "first_merge (rule # rules) evs =
     (if rule_Applicable rule (map ev_ProviderType evs)
      then (case rule_Merge rule evs of Inr merged \<Rightarrow> Some merged | Inl _ \<Rightarrow> first_merge rules evs)
      else first_merge rules evs)"

definition applyCorrelationRules :: "Orchestrator \<Rightarrow> LookupResult \<Rightarrow> LookupResult" where
  "applyCorrelationRules orch r =
     (if or_rules orch = [] \<or> length (lr_Evidence r) < 2 then r
      else case first_merge (or_rules orch) (lr_Evidence r) of
             None \<Rightarrow> r
           | Some merged \<Rightarrow> r\<lparr> lr_Evidence := [merged] \<rparr>)"

definition lookupParallel ::
  "orch_env \<Rightarrow> Orchestrator \<Rightarrow> LookupRequest \<Rightarrow> orch_state \<Rightarrow> orch_state \<times> LookupResult \<times> reg_error option" where
  "lookupParallel env orch req st =
     (let (r, st) = fold (parallel_step env (lq_Filters req)) (oe_order env (concat (map (ListByType (or_registry orch)) (lq_Types req)))) (no_results, st);
          r = applyCorrelationRules orch r
      in (st, r, all_failed r))"

definition vote :: "Evidence \<Rightarrow> (ProviderType, Evidence) kv \<Rightarrow> (ProviderType, Evidence) kv" where
  "vote e m =
     (case kv_get m (ev_ProviderType e) of
        None \<Rightarrow> kv_put m (ev_ProviderType e) e
      | Some existing \<Rightarrow> if ev_Confidence e > ev_Confidence existing then kv_put m (ev_ProviderType e) e else m)"

definition lookupVoting ::
  "orch_env \<Rightarrow> Orchestrator \<Rightarrow> LookupRequest \<Rightarrow> orch_state \<Rightarrow> orch_state \<times> LookupResult \<times> reg_error option" where
  "lookupVoting env orch req st =
     (case lookupParallel env orch req st of
        (st, r, Some e) \<Rightarrow> (st, r, Some e)
      | (st, r, None) \<Rightarrow> (st, r\<lparr> lr_Evidence := kv_values (fold vote (lr_Evidence r) []) \<rparr>, None))"

text \<open>\<^verbatim>\<open>Lookup\<close>: an unknown strategy has no result, only an error. The time limit of the context is
  part of what the providers answer and of \<open>oe_done\<close>.\<close>

definition Orchestrator_Lookup ::
  "orch_env \<Rightarrow> Orchestrator \<Rightarrow> LookupRequest \<Rightarrow> orch_state \<Rightarrow>
   orch_state \<times> LookupResult option \<times> reg_error option" where
  "Orchestrator_Lookup env orch req st =
     (let found = (\<lambda>(st, r, e). (st, Some r, e))
      in case (if lq_Strategy req = StrategyNone then or_strategy orch else lq_Strategy req) of
           StrategyPrimary \<Rightarrow> found (lookupPrimary env orch req st)
         | StrategyFallback \<Rightarrow> found (lookupFallback env orch req st)
         | StrategyParallel \<Rightarrow> found (lookupParallel env orch req st)
         | StrategyVoting \<Rightarrow> found (lookupVoting env orch req st)
         | StrategyNone \<Rightarrow> (st, None, Some (ROther (Errorf ''unknown strategy: '')))
         | StrategyUnknown s \<Rightarrow> (st, None, Some (ROther (Errorf (''unknown strategy: '' @ s)))))"

section \<open>Correlation rules\<close>

record CitizenNameRuleConfig =
  FullNameField :: string
  DateOfBirthField :: string

definition NewCitizenNameRule :: "CitizenNameRuleConfig \<Rightarrow> CitizenNameRuleConfig" where
  "NewCitizenNameRule cfg =
     \<lparr> FullNameField = (if FullNameField cfg = [] then ''full_name'' else FullNameField cfg),
       DateOfBirthField = (if DateOfBirthField cfg = [] then ''date_of_birth'' else DateOfBirthField cfg) \<rparr>"

definition CitizenNameRule_Applicable :: "ProviderType list \<Rightarrow> bool" where
  "CitizenNameRule_Applicable types = (count_list types ProviderTypeCitizen > 1)"

text \<open>The distinct strings the sources give for a field, as the keys of \<^verbatim>\<open>map[string]bool\<close>.\<close>

definition field_values :: "string \<Rightarrow> Evidence list \<Rightarrow> string list" where
  "field_values field evs =
     remdups (List.map_filter (\<lambda>e. case kv_get (ev_Data e) field of Some (DString s) \<Rightarrow> Some s | _ \<Rightarrow> None) evs)"

definition detectConflicts :: "CitizenNameRuleConfig \<Rightarrow> Evidence list \<Rightarrow> string list" where
  "detectConflicts cfg evs =
     (if length evs < 2 then []
      else filter (\<lambda>field. length (field_values field evs) > 1) [FullNameField cfg, DateOfBirthField cfg])"

definition more_confident :: "Evidence \<Rightarrow> Evidence \<Rightarrow> Evidence" where
  "more_confident e best = (if ev_Confidence e > ev_Confidence best then e else best)"

definition CitizenNameRule_Merge :: "CitizenNameRuleConfig \<Rightarrow> Evidence list \<Rightarrow> Evidence result" where
  "CitizenNameRule_Merge cfg evs =
     (if evs = [] then Inl (Errorf ''no evidence to merge'')
      else case filter (\<lambda>e. ev_ProviderType e = ProviderTypeCitizen) evs of
             [] \<Rightarrow> Inl (Errorf ''no citizen evidence found'')
           | e # es \<Rightarrow>
               let best = fold more_confident es e; conflicts = detectConflicts cfg (e # es);
                   metadata = [(''merge_strategy'', ''highest_confidence''), (''sources_count'', itoa (length (e # es)))]
               in Inr \<lparr> ev_ProviderID = ''correlation:citizen_name'', ev_ProviderType = ProviderTypeCitizen,
                        ev_Confidence = ev_Confidence best, ev_Data = ev_Data best, ev_CheckedAt = ev_CheckedAt best,
                        ev_Metadata = (if conflicts \<noteq> [] then kv_put metadata ''conflicts'' (str_join conflicts '','') else metadata) \<rparr>)"

definition CitizenNameRule :: "CitizenNameRuleConfig \<Rightarrow> CorrelationRule" where
  "CitizenNameRule cfg =
     \<lparr> rule_Applicable = CitizenNameRule_Applicable, rule_Merge = CitizenNameRule_Merge (NewCitizenNameRule cfg) \<rparr>"

lemma most_confident_max:
  "fold more_confident es e \<in> set (e # es) \<and> (\<forall>x \<in> set (e # es). ev_Confidence x \<le> ev_Confidence (fold more_confident es e))"
proof (induction es arbitrary: e)
  case (Cons x es)
  from Cons[of "more_confident x e"] show ?case by (auto simp: more_confident_def split: if_splits)
qed simp

text \<open>A merge takes the data of a citizen source with the highest confidence, and marks a conflict
  exactly when two sources give different strings for a field.\<close>

lemma CitizenNameRule_Merge_best:
  assumes "CitizenNameRule_Merge cfg evs = Inr m"
  shows "\<exists>b \<in> set evs. ev_ProviderType b = ProviderTypeCitizen \<and> ev_Data m = ev_Data b \<and> ev_Confidence m = ev_Confidence b \<and>
           (\<forall>x \<in> set evs. ev_ProviderType x = ProviderTypeCitizen \<longrightarrow> ev_Confidence x \<le> ev_Confidence m)"
proof -
  from assms obtain e es where es: "filter (\<lambda>e. ev_ProviderType e = ProviderTypeCitizen) evs = e # es"
    and m: "ev_Data m = ev_Data (fold more_confident es e)" "ev_Confidence m = ev_Confidence (fold more_confident es e)"
    by (auto simp: CitizenNameRule_Merge_def Let_def split: if_splits list.splits)
  have "set (e # es) = {x \<in> set evs. ev_ProviderType x = ProviderTypeCitizen}" using es by (metis set_filter)
  with most_confident_max[of es e] m show ?thesis by (metis (mono_tags, lifting) mem_Collect_eq)
qed

section \<open>Bounds of a lookup\<close>

definition attempts_of :: "Orchestrator \<Rightarrow> nat" where
  "attempts_of orch = nat (bo_MaxRetries (or_backoff orch) + 1)"

text \<open>What a lookup may add to the state: so many calls, and waits that are paid from the budget and
  bounded by the two configured delays.\<close>

definition spends :: "BackoffConfig \<Rightarrow> nat \<Rightarrow> orch_state \<Rightarrow> orch_state \<Rightarrow> bool" where
  "spends b n st st' =
     (length (os_calls st') \<le> length (os_calls st) + n \<and>
      (\<exists>ws. os_waits st' = os_waits st @ ws \<and> (\<forall>d \<in> set ws. d \<le> max (bo_InitialDelay b) (bo_MaxDelay b)) \<and>
            int (length ws) \<le> max 0 (os_budget st) - max 0 (os_budget st')))"

lemma spends_refl: "spends b n st st"
  by (simp add: spends_def)

lemma spends_trans:
  assumes "spends b n st st1" "spends b m st1 st2"
  shows "spends b (n + m) st st2"
proof -
  from assms obtain ws ws' where
    "os_waits st1 = os_waits st @ ws" "\<forall>d \<in> set ws. d \<le> max (bo_InitialDelay b) (bo_MaxDelay b)"
    "int (length ws) \<le> max 0 (os_budget st) - max 0 (os_budget st1)"
    "os_waits st2 = os_waits st1 @ ws'" "\<forall>d \<in> set ws'. d \<le> max (bo_InitialDelay b) (bo_MaxDelay b)"
    "int (length ws') \<le> max 0 (os_budget st1) - max 0 (os_budget st2)"
    unfolding spends_def by blast
  then have "os_waits st2 = os_waits st @ (ws @ ws') \<and> (\<forall>d \<in> set (ws @ ws'). d \<le> max (bo_InitialDelay b) (bo_MaxDelay b)) \<and>
      int (length (ws @ ws')) \<le> max 0 (os_budget st) - max 0 (os_budget st2)" by auto
  with assms show ?thesis unfolding spends_def by (auto simp del: set_append)
qed

lemma Provider_Lookup_spends: "Provider_Lookup env filters oid st = (st', a) \<Longrightarrow> spends b 1 st st'"
  by (auto simp: Provider_Lookup_def spends_def)

lemma wait_spends:
  assumes "tryConsume (os_budget st) = (budget, ok)" "delay \<le> max (bo_InitialDelay b) (bo_MaxDelay b)"
  shows "spends b 0 st (st\<lparr> os_budget := budget \<rparr>)"
    "ok \<Longrightarrow> spends b 0 st (st\<lparr> os_budget := budget, os_waits := os_waits st @ [delay] \<rparr>)"
  using assms by (auto simp: spends_def tryConsume_def split: if_splits)

lemma attempts_spends:
  "delay \<le> max (bo_InitialDelay b) (bo_MaxDelay b) \<Longrightarrow> spends b n st (fst (attempts env b filters oid n delay lastErr st))"
proof (induction n arbitrary: delay lastErr st)
  case 0
  then show ?case by (simp add: spends_refl)
next
  case (Suc n)
  have try_now: "spends b (Suc n) st0 (fst (case Provider_Lookup env filters oid st of (st, Inr ev) \<Rightarrow> (st, Inr (Some ev))
      | (st, Inl err) \<Rightarrow> if IsRetryable err then attempts env b filters oid n d (Some err) st else (st, Inl err)))"
    if "spends b 0 st0 st" "d \<le> max (bo_InitialDelay b) (bo_MaxDelay b)" for st0 st d
  proof (cases "Provider_Lookup env filters oid st")
    case (Pair st1 a)
    have "spends b 1 st0 st1" using spends_trans[OF that(1) Provider_Lookup_spends[OF Pair]] by simp
    then have "spends b (Suc n) st0 st1" "spends b (Suc n) st0 (fst (attempts env b filters oid n d (Some e) st1))" for e
      using spends_trans[OF _ spends_refl, of b 1 st0 st1 n] spends_trans[OF _ Suc.IH[OF that(2)], of 1 st0 st1 "Some e"] by simp_all
    then show ?thesis using Pair by (auto split: sum.splits)
  qed
  have scaled: "min x (bo_MaxDelay b) \<le> max (bo_InitialDelay b) (bo_MaxDelay b)" for x by simp
  show ?case
  proof (cases lastErr)
    case None
    then show ?thesis using try_now[OF spends_refl Suc.prems] by (simp add: Let_def)
  next
    case (Some e)
    obtain budget ok where c: "tryConsume (os_budget st) = (budget, ok)" by fastforce
    note w = wait_spends[OF c Suc.prems]
    have mono: "spends b (Suc n) st st'" if "spends b 0 st st'" for st' using spends_trans[OF that spends_refl, of "Suc n"] by simp
    show ?thesis using Some c mono[OF w(1)] mono[OF w(2)] try_now[OF w(2) scaled]
      by (cases ok; cases "oe_done env (length (os_waits st))") (simp_all add: Let_def)
  qed
qed

lemma tryProvider_spends:
  "spends (or_backoff orch) (attempts_of orch) st (fst (tryProviderWithBackoff env orch filters oid st))"
  by (simp add: tryProviderWithBackoff_def attempts_of_def spends_refl attempts_spends split: option.split)

lemma try_ids_spends:
  "spends (or_backoff orch) (length ids * attempts_of orch) st (fst (try_ids env orch filters ids errs st))"
proof (induction ids arbitrary: errs st)
  case (Cons oid ids)
  obtain st1 a where t: "tryProviderWithBackoff env orch filters oid st = (st1, a)" by fastforce
  have "spends (or_backoff orch) (attempts_of orch) st st1" using tryProvider_spends[of orch st env filters oid] t by simp
  then show ?case using t spends_trans[OF _ Cons.IH] spends_trans[OF _ spends_refl]
    by (auto split: sum.splits)
qed (simp add: spends_refl)

definition chain_length :: "Orchestrator \<Rightarrow> ProviderType \<Rightarrow> nat" where
  "chain_length orch typ = (case getChainForType orch typ of Inl _ \<Rightarrow> 0 | Inr c \<Rightarrow> 1 + length (pc_Secondary c))"

lemma fallback_step_spends:
  "spends (or_backoff orch) (chain_length orch typ * attempts_of orch) (snd rs) (snd (fallback_step env orch filters typ rs))"
proof (cases "getChainForType orch typ")
  case (Inr c)
  have "spends (or_backoff orch) (chain_length orch typ * attempts_of orch) (snd rs)
      (fst (tryChainWithFallback env orch filters c (lr_Errors (fst rs)) (snd rs)))"
    unfolding tryChainWithFallback_def using Inr
      try_ids_spends[of orch "pc_Primary c # pc_Secondary c" "snd rs" env filters "lr_Errors (fst rs)"] by (simp add: chain_length_def)
  then show ?thesis using Inr by (auto simp: fallback_step_def Let_def split: prod.splits option.splits)
qed (simp add: fallback_step_def Let_def case_prod_unfold spends_refl)

lemma fallback_fold_spends:
  "spends (or_backoff orch) (sum_list (map (chain_length orch) types) * attempts_of orch) (snd rs)
     (snd (fold (fallback_step env orch filters) types rs))"
proof (induction types arbitrary: rs)
  case (Cons t ts)
  from spends_trans[OF fallback_step_spends Cons.IH] show ?case by (simp add: add_mult_distrib)
qed (simp add: spends_refl)

text \<open>An int32 is never above a positive number that was converted to it.\<close>

lemma newRetryBudget_le: "newRetryBudget limit \<le> max limit 1000"
  by (simp add: newRetryBudget_def int32_def zmod_le_nonneg_dividend algebra_simps)

text \<open>Four providers that are down, with every setting at its default: 3 retries for a provider, a budget of 10.\<close>

definition ex_down :: Orchestrator where
  "ex_down = Orchestrator_New (map (\<lambda>oid. (oid, ProviderTypeCitizen)) [''a'', ''b'', ''c'', ''d'']) StrategyNone 0
     [(ProviderTypeCitizen, \<lparr> pc_Primary = ''a'', pc_Secondary = [''b'', ''c'', ''d''] \<rparr>)] []
     \<lparr> bo_InitialDelay = 0, bo_MaxDelay = 0, bo_MaxRetries = 0, bo_Multiplier = 0, bo_GlobalRetryBudget = 0 \<rparr>"

definition ex_down_env :: orch_env where
  "ex_down_env = \<lparr> oe_answer = (\<lambda>oid filters k. Inl (RProvider (NewProviderError ErrorProviderOutage oid ''down'' None))),
     oe_done = (\<lambda>_. None), oe_scale = (\<lambda>d m. 2 * d), oe_order = (\<lambda>ids. ids) \<rparr>"

definition ex_request :: "ProviderType \<Rightarrow> LookupRequest" where
  "ex_request t = \<lparr> lq_Types = [t], lq_Filters = [(''national_id'', ''ABC123'')], lq_Strategy = StrategyFallback \<rparr>"

text \<open>
  \<^bold>\<open>C40\<close> A fallback lookup is bounded, whatever the providers answer and whenever the context ends. It
  makes at most one call per attempt and chain entry, and every wait before a retry is at most the larger
  of the initial and the maximal delay. The number of retries is at most the configured budget or 1000,
  whichever is larger, and not the configured budget alone: with the default budget of 10 and a chain of
  four providers that are down, a lookup makes 12 retries.
\<close>

theorem fallback_bounded:
  "length (os_calls (fst (lookupFallback env orch req (orch_init n)))) \<le>
     sum_list (map (chain_length orch) (lq_Types req)) * nat (bo_MaxRetries (or_backoff orch) + 1) \<and>
   int (length (os_waits (fst (lookupFallback env orch req (orch_init n))))) \<le>
     max (bo_GlobalRetryBudget (or_backoff orch)) 1000 \<and>
   list_all (\<lambda>d. d \<le> max (bo_InitialDelay (or_backoff orch)) (bo_MaxDelay (or_backoff orch)))
     (os_waits (fst (lookupFallback env orch req (orch_init n)))) \<and>
   bo_GlobalRetryBudget (or_backoff ex_down) = 10 \<and>
   length (os_waits (fst (lookupFallback ex_down_env ex_down (ex_request ProviderTypeCitizen) (orch_init 0)))) = 12"
proof -
  let ?st = "(orch_init n)\<lparr> os_budget := newRetryBudget (bo_GlobalRetryBudget (or_backoff orch)) \<rparr>"
  have fold: "fst (lookupFallback env orch req (orch_init n)) =
      snd (fold (fallback_step env orch (lq_Filters req)) (lq_Types req) (no_results, ?st))"
    by (simp add: lookupFallback_def Let_def case_prod_unfold)
  have down: "bo_GlobalRetryBudget (or_backoff ex_down) = 10"
    "length (os_waits (fst (lookupFallback ex_down_env ex_down (ex_request ProviderTypeCitizen) (orch_init 0)))) = 12"
    by code_simp+
  show ?thesis using fallback_fold_spends[of orch "lq_Types req" "(no_results, ?st)" env "lq_Filters req"] down
      newRetryBudget_le[of "bo_GlobalRetryBudget (or_backoff orch)"] unfolding fold
    by (auto simp: spends_def orch_init_def attempts_of_def list_all_iff)
qed

section \<open>What a fallback lookup finds\<close>

text \<open>The answer a provider settles on: the first one that is not a retryable error, or that to the
  last attempt.\<close>

definition retried :: "reg_error + Evidence \<Rightarrow> bool" where
  "retried a = (case a of Inl e \<Rightarrow> IsRetryable e | Inr _ \<Rightarrow> False)"

definition settled :: "(nat \<Rightarrow> reg_error + Evidence) \<Rightarrow> nat \<Rightarrow> reg_error + Evidence" where
  "settled answer n = (case find (\<lambda>k. \<not> retried (answer k)) [0..<n] of Some k \<Rightarrow> answer k | None \<Rightarrow> answer n)"

lemma settled_0: "settled answer 0 = answer 0"
  by (simp add: settled_def)

lemma find_map_eq: "find P (map f xs) = map_option f (find (\<lambda>x. P (f x)) xs)"
  by (induction xs) simp_all

lemma settled_Suc:
  "settled answer (Suc n) = (if retried (answer 0) then settled (\<lambda>k. answer (Suc k)) n else answer 0)"
proof -
  have "[0..<Suc n] = 0 # map Suc [0..<n]" by (simp add: map_Suc_upt upt_conv_Cons)
  then have "find (\<lambda>k. \<not> retried (answer k)) [0..<Suc n] = (if retried (answer 0)
      then map_option Suc (find (\<lambda>k. \<not> retried (answer (Suc k))) [0..<n]) else Some 0)"
    by (simp add: find_map_eq del: upt_Suc)
  then show ?thesis by (simp add: settled_def split: option.split del: upt_Suc)
qed

lemma Provider_Lookup_count:
  "Provider_Lookup env filters oid st = (st', a) \<Longrightarrow>
     a = oe_answer env oid filters (count_list (os_calls st) (oid, filters)) \<and> os_budget st' = os_budget st \<and> os_waits st' = os_waits st \<and>
     count_list (os_calls st') (oid, filters) = Suc (count_list (os_calls st) (oid, filters)) \<and>
     (\<forall>x. x \<noteq> oid \<longrightarrow> count_list (os_calls st') (x, filters) = count_list (os_calls st) (x, filters))"
  by (auto simp: Provider_Lookup_def)

lemma attempts_step:
  assumes "\<And>k. oe_done env k = None" "os_budget st \<ge> of_bool (lastErr \<noteq> None)"
  shows "\<exists>st1 d. attempts env b filters oid (Suc n) delay lastErr st =
      (case oe_answer env oid filters (count_list (os_calls st) (oid, filters)) of
         Inr ev \<Rightarrow> (st1, Inr (Some ev))
       | Inl e \<Rightarrow> if IsRetryable e then attempts env b filters oid n d (Some e) st1 else (st1, Inl e)) \<and>
      count_list (os_calls st1) (oid, filters) = Suc (count_list (os_calls st) (oid, filters)) \<and>
      (\<forall>x. x \<noteq> oid \<longrightarrow> count_list (os_calls st1) (x, filters) = count_list (os_calls st) (x, filters)) \<and>
      os_budget st1 = os_budget st - of_bool (lastErr \<noteq> None)"
proof -
  let ?st = "if lastErr = None then st else st\<lparr> os_budget := os_budget st - 1, os_waits := os_waits st @ [delay] \<rparr>"
  let ?d = "if lastErr = None then delay else min (oe_scale env delay (bo_Multiplier b)) (bo_MaxDelay b)"
  obtain st1 a where p: "Provider_Lookup env filters oid ?st = (st1, a)" by fastforce
  have a: "a = oe_answer env oid filters (count_list (os_calls st) (oid, filters))" using Provider_Lookup_count[OF p] by (simp split: if_splits)
  have "attempts env b filters oid (Suc n) delay lastErr st =
      (case a of Inr ev \<Rightarrow> (st1, Inr (Some ev))
       | Inl e \<Rightarrow> if IsRetryable e then attempts env b filters oid n ?d (Some e) st1 else (st1, Inl e))"
    using assms p by (cases lastErr) (simp_all add: Let_def tryConsume_def)
  with Provider_Lookup_count[OF p] show ?thesis unfolding a by (intro exI[of _ st1] exI[of _ ?d]) (simp split: if_splits)
qed

lemma attempts_settled:
  assumes "\<And>k. oe_done env k = None" "os_budget st \<ge> int n + of_bool (lastErr \<noteq> None)"
  shows "\<exists>st'. attempts env b filters oid (Suc n) delay lastErr st =
           (st', map_sum (\<lambda>e. e) Some (settled (\<lambda>k. oe_answer env oid filters (count_list (os_calls st) (oid, filters) + k)) n)) \<and>
         os_budget st' \<ge> os_budget st - int n - of_bool (lastErr \<noteq> None) \<and>
         (\<forall>x. x \<noteq> oid \<longrightarrow> count_list (os_calls st') (x, filters) = count_list (os_calls st) (x, filters))"
  using assms(2)
proof (induction n arbitrary: delay lastErr st)
  case 0
  from attempts_step[OF assms(1), of lastErr st b filters oid 0 delay] 0 obtain st1 d where
    "attempts env b filters oid (Suc 0) delay lastErr st =
      (case oe_answer env oid filters (count_list (os_calls st) (oid, filters)) of
         Inr ev \<Rightarrow> (st1, Inr (Some ev))
       | Inl e \<Rightarrow> if IsRetryable e then attempts env b filters oid 0 d (Some e) st1 else (st1, Inl e))"
    "\<forall>x. x \<noteq> oid \<longrightarrow> count_list (os_calls st1) (x, filters) = count_list (os_calls st) (x, filters)"
    "os_budget st1 = os_budget st - of_bool (lastErr \<noteq> None)" by auto
  then show ?case by (cases "oe_answer env oid filters (count_list (os_calls st) (oid, filters))") (auto simp: settled_0 simp del: attempts.simps(2))
next
  case (Suc n)
  let ?a = "oe_answer env oid filters (count_list (os_calls st) (oid, filters))"
  from attempts_step[OF assms(1), of lastErr st b filters oid "Suc n" delay] Suc.prems obtain st1 d where
    step: "attempts env b filters oid (Suc (Suc n)) delay lastErr st =
      (case ?a of Inr ev \<Rightarrow> (st1, Inr (Some ev))
       | Inl e \<Rightarrow> if IsRetryable e then attempts env b filters oid (Suc n) d (Some e) st1 else (st1, Inl e))"
    and st1: "count_list (os_calls st1) (oid, filters) = Suc (count_list (os_calls st) (oid, filters))"
      "\<forall>x. x \<noteq> oid \<longrightarrow> count_list (os_calls st1) (x, filters) = count_list (os_calls st) (x, filters)"
      "os_budget st1 = os_budget st - of_bool (lastErr \<noteq> None)" by (auto simp del: attempts.simps)
  show ?case
  proof (cases "retried ?a")
    case True
    then obtain e where e: "?a = Inl e" "IsRetryable e" by (auto simp: retried_def split: sum.splits)
    have "os_budget st1 \<ge> int n + of_bool (Some e \<noteq> None)" using Suc.prems st1(3) by simp
    from Suc.IH[OF this, of d] e True step st1 show ?thesis by (auto simp: settled_Suc simp del: attempts.simps)
  next
    case False
    then have "attempts env b filters oid (Suc (Suc n)) delay lastErr st = (st1, map_sum (\<lambda>e. e) Some ?a)"
      using step by (auto simp: retried_def split: sum.splits simp del: attempts.simps)
    with False st1 Suc.prems show ?thesis by (simp add: settled_Suc del: attempts.simps)
  qed
qed

definition record_failures :: "(string \<Rightarrow> reg_error + Evidence) \<Rightarrow> string list \<Rightarrow> (string, reg_error) kv \<Rightarrow> (string, reg_error) kv" where
  "record_failures answer ids errs = fold (\<lambda>oid errs. kv_put errs oid (projl (answer oid))) ids errs"

lemma try_ids_first:
  assumes "\<And>k. oe_done env k = None" "bo_MaxRetries (or_backoff orch) = int m"
    "distinct ids" "\<forall>oid \<in> set ids. kv_get (or_registry orch) oid \<noteq> None" "os_budget st \<ge> int (length ids * m)"
    "\<forall>oid \<in> set ids. count_list (os_calls st) (oid, filters) = 0"
  shows "snd (try_ids env orch filters ids errs st) =
     (record_failures (\<lambda>oid. settled (oe_answer env oid filters) m) (takeWhile (\<lambda>oid. isl (settled (oe_answer env oid filters) m)) ids) errs,
      map_option (\<lambda>oid. projr (settled (oe_answer env oid filters) m)) (find (\<lambda>oid. \<not> isl (settled (oe_answer env oid filters) m)) ids))"
  using assms(3-)
proof (induction ids arbitrary: errs st)
  case (Cons oid ids)
  let ?a = "settled (oe_answer env oid filters) m"
  have budget: "os_budget st \<ge> int m + of_bool (None \<noteq> None)"
  proof -
    have "int m \<le> int (length (oid # ids) * m)" unfolding of_nat_le_iff by simp
    with Cons.prems(3) have "int m \<le> os_budget st" by (rule order_trans[rotated])
    then show ?thesis by simp
  qed
  obtain t where t: "kv_get (or_registry orch) oid = Some t" using Cons.prems(2) by (auto simp del: map_of_eq_None_iff)
  have "nat (bo_MaxRetries (or_backoff orch) + 1) = Suc m" using assms(2) by simp
  with t obtain st' where st': "tryProviderWithBackoff env orch filters oid st = (st', map_sum (\<lambda>e. e) Some ?a)"
      "os_budget st' \<ge> os_budget st - int m" "\<forall>x. x \<noteq> oid \<longrightarrow> count_list (os_calls st') (x, filters) = count_list (os_calls st) (x, filters)"
    using attempts_settled[OF assms(1) budget, of "or_backoff orch" filters oid "bo_InitialDelay (or_backoff orch)"] Cons.prems(4)
    by (auto simp: tryProviderWithBackoff_def simp del: attempts.simps)
  show ?case
  proof (cases ?a)
    case (Inl e)
    have rest: "distinct ids" "\<forall>oid \<in> set ids. kv_get (or_registry orch) oid \<noteq> None"
      "os_budget st' \<ge> int (length ids * m)" "\<forall>x \<in> set ids. count_list (os_calls st') (x, filters) = 0"
      using Cons.prems st'(2,3) by auto
    show ?thesis using st'(1) Inl Cons.IH[OF rest, of "kv_put errs oid e"] by (simp add: record_failures_def)
  qed (use st'(1) in \<open>simp add: record_failures_def\<close>)
qed (simp add: record_failures_def)

lemma record_failures_other: "oid \<notin> set ids \<Longrightarrow> kv_get (record_failures answer ids errs) oid = kv_get errs oid"
  by (induction ids arbitrary: errs) (auto simp: record_failures_def kv_simps)

lemma record_failures_get:
  "distinct ids \<Longrightarrow> oid \<in> set ids \<Longrightarrow> kv_get (record_failures answer ids errs) oid = Some (projl (answer oid))"
proof (induction ids arbitrary: errs)
  case (Cons x ids)
  have step: "record_failures answer (x # ids) errs = record_failures answer ids (kv_put errs x (projl (answer x)))"
    by (simp add: record_failures_def)
  show ?case using Cons record_failures_other[of oid ids answer "kv_put errs x (projl (answer x))"]
    by (cases "oid = x") (simp_all add: step kv_simps)
qed simp

lemma newRetryBudget_ge: "limit < 2 ^ 31 \<Longrightarrow> newRetryBudget limit = max limit 1000"
  by (simp add: newRetryBudget_def int32_def max_def)

text \<open>
  \<^bold>\<open>C39\<close> A fallback lookup finds evidence if any provider of the chain has it. For one type whose chain
  has distinct registered providers and needs at most 1000 retries, with a context that does not end during
  the lookup (its timeout does not fire), the lookup returns exactly the evidence, for the filters of the
  request, of the first provider of the chain, the primary before the secondaries, that settles on an
  evidence within its attempts. It reports failure only if no provider does, and then, as well as for
  every provider tried before the successful one, the recorded error is the one that the provider
  settled on. A provider settles on its first answer that is not a retryable error, or on the last.
\<close>

theorem fallback_first_success:
  assumes "getChainForType orch t = Inr chain" "ids = pc_Primary chain # pc_Secondary chain" "distinct ids"
    and "\<forall>oid \<in> set ids. kv_get (or_registry orch) oid \<noteq> None"
    and "bo_MaxRetries (or_backoff orch) = int m" "length ids * m \<le> 1000" "bo_GlobalRetryBudget (or_backoff orch) < 2 ^ 31"
    and "\<forall>k. oe_done env k = None" "lq_Types req = [t]" "lookupFallback env orch req (orch_init n) = (st, r, e)"
  shows "lr_Evidence r = (case find (\<lambda>oid. \<not> isl (settled (oe_answer env oid (lq_Filters req)) m)) ids of
             None \<Rightarrow> [] | Some oid \<Rightarrow> [projr (settled (oe_answer env oid (lq_Filters req)) m)]) \<and>
         (e = None \<longleftrightarrow> (\<exists>oid \<in> set ids. \<not> isl (settled (oe_answer env oid (lq_Filters req)) m))) \<and>
         (\<forall>oid \<in> set (takeWhile (\<lambda>oid. isl (settled (oe_answer env oid (lq_Filters req)) m)) ids).
            kv_get (lr_Errors r) oid = Some (projl (settled (oe_answer env oid (lq_Filters req)) m)))"
proof -
  let ?st = "(orch_init n)\<lparr> os_budget := newRetryBudget (bo_GlobalRetryBudget (or_backoff orch)) \<rparr>"
  let ?failed = "takeWhile (\<lambda>oid. isl (settled (oe_answer env oid (lq_Filters req)) m)) ids"
  have "os_budget ?st \<ge> int (length ids * m)" "\<forall>oid \<in> set ids. count_list (os_calls ?st) (oid, lq_Filters req) = 0"
    using of_nat_mono[OF assms(6), where 'a = int] newRetryBudget_ge[OF assms(7)] by (simp_all add: orch_init_def)
  note first = try_ids_first[OF _ assms(5,3,4) this, of env "[]"]
  have r: "lr_Errors r = record_failures (\<lambda>oid. settled (oe_answer env oid (lq_Filters req)) m) ?failed []"
    "lr_Evidence r = (case find (\<lambda>oid. \<not> isl (settled (oe_answer env oid (lq_Filters req)) m)) ids of
       None \<Rightarrow> [] | Some oid \<Rightarrow> [projr (settled (oe_answer env oid (lq_Filters req)) m)])" "e = all_failed r"
    using assms(1,2,8,9,10) first
    by (auto simp: lookupFallback_def fallback_step_def tryChainWithFallback_def no_results_def Let_def
        split: prod.splits option.splits)
  have "distinct ?failed" using assms(3) by (rule distinct_takeWhile)
  then have errs: "\<forall>oid \<in> set ?failed. kv_get (lr_Errors r) oid = Some (projl (settled (oe_answer env oid (lq_Filters req)) m))"
    using r(1) record_failures_get by metis
  have none: "lr_Errors r \<noteq> []" if "find (\<lambda>oid. \<not> isl (settled (oe_answer env oid (lq_Filters req)) m)) ids = None"
  proof -
    have "pc_Primary chain \<in> set ?failed" using that assms(2) by (auto split: if_splits)
    with errs show ?thesis by force
  qed
  have "e = None \<longleftrightarrow> find (\<lambda>oid. \<not> isl (settled (oe_answer env oid (lq_Filters req)) m)) ids \<noteq> None"
    using r none by (auto simp: all_failed_def split: option.splits)
  with r(2) errs show ?thesis by (auto simp: find_None_iff)
qed

definition ex_orch :: Orchestrator where
  "ex_orch = Orchestrator_New [(''gov'', ProviderTypeCitizen), (''alt'', ProviderTypeCitizen)] StrategyNone 0
     [(ProviderTypeCitizen, \<lparr> pc_Primary = ''gov'', pc_Secondary = [''alt''] \<rparr>)] []
     \<lparr> bo_InitialDelay = 0, bo_MaxDelay = 0, bo_MaxRetries = 0, bo_Multiplier = 0, bo_GlobalRetryBudget = 0 \<rparr>"

definition ex_evidence :: Evidence where
  "ex_evidence = \<lparr> ev_ProviderID = ''alt'', ev_ProviderType = ProviderTypeCitizen, ev_Confidence = 1,
     ev_Data = [(''national_id'', DString ''ABC123''), (''full_name'', DString ''Ada''),
       (''date_of_birth'', DString ''1990-01-01''), (''valid'', DBool True)],
     ev_CheckedAt = 9, ev_Metadata = [] \<rparr>"

text \<open>The primary provider is down; the secondary answers on its third attempt.\<close>

definition ex_orch_env :: orch_env where
  "ex_orch_env = \<lparr> oe_answer = (\<lambda>oid filters k. if oid = ''alt'' \<and> k \<ge> 2 \<and> kv_get filters ''national_id'' = Some ''ABC123'' then Inr ex_evidence
                     else Inl (RProvider (NewProviderError ErrorProviderOutage oid ''down'' None))),
     oe_done = (\<lambda>_. None), oe_scale = (\<lambda>d m. 2 * d), oe_order = (\<lambda>ids. ids) \<rparr>"

theorem fallback_first_success_witness:
  "\<exists>st r. lookupFallback ex_orch_env ex_orch (ex_request ProviderTypeCitizen) (orch_init 0) = (st, r, None) \<and>
     lr_Evidence r = [ex_evidence] \<and>
     kv_get (lr_Errors r) ''gov'' = Some (RProvider (NewProviderError ErrorProviderOutage ''gov'' ''down'' None))"
proof -
  obtain st r e where l: "lookupFallback ex_orch_env ex_orch (ex_request ProviderTypeCitizen) (orch_init 0) = (st, r, e)" by (metis prod_cases3)
  have c: "getChainForType ex_orch ProviderTypeCitizen = Inr \<lparr> pc_Primary = ''gov'', pc_Secondary = [''alt''] \<rparr>" by code_simp
  have s: "settled (oe_answer ex_orch_env ''gov'' (lq_Filters (ex_request ProviderTypeCitizen))) 3 = Inl (RProvider (NewProviderError ErrorProviderOutage ''gov'' ''down'' None))"
    "settled (oe_answer ex_orch_env ''alt'' (lq_Filters (ex_request ProviderTypeCitizen))) 3 = Inr ex_evidence" by code_simp+
  have h: "bo_MaxRetries (or_backoff ex_orch) = int 3" "bo_GlobalRetryBudget (or_backoff ex_orch) < 2 ^ 31"
      "\<forall>k. oe_done ex_orch_env k = None" "\<forall>oid \<in> set [''gov'', ''alt'']. kv_get (or_registry ex_orch) oid \<noteq> None"
    by (simp_all add: ex_orch_def Orchestrator_New_def or_default_def ex_orch_env_def)
  have "lr_Evidence r = [ex_evidence] \<and> e = None \<and>
      kv_get (lr_Errors r) ''gov'' = Some (RProvider (NewProviderError ErrorProviderOutage ''gov'' ''down'' None))"
    using fallback_first_success[OF c refl _ _ h(1) _ h(2,3) _ l] h(4) s by (simp add: ex_request_def)
  with l show ?thesis by blast
qed

end
