(* ===== verification/Reg_Service.thy ===== *)
theory Reg_Service
  imports Reg_Cache Reg_Orchestrator Consent_Properties
begin

text \<open>
  The evidence registry, fourth part: the service
  (\<^verbatim>\<open>internal/evidence/registry/service/service.go\<close>, \<^verbatim>\<open>contracts.go\<close>) over the consent service,
  the cache, the orchestrator and the compliance publisher, composed as in the code, with the consent
  adapter in between (\<^verbatim>\<open>adapters/consent_adapter.go\<close>).

  The state holds the consent service, the cache, the audit store and a record of which providers were
  called. The providers at the n-th lookup are the parameter \<open>re_world\<close>; the order in which
  \<^verbatim>\<open>range\<close> visits the errors of a lookup is \<open>re_range\<close>; the argument \<open>clk\<close> of an operation has
  the readings of the process clock: 0 for the cache lookup, 1 for the cache write, 2 for the audit
  event. The sanctions and the citizen half of the cache share nothing, so the order of the two
  concurrent lookups of \<^verbatim>\<open>checkCache\<close> does not matter. Spans, logs and metrics are left out.
\<close>

section \<open>State\<close>

record reg_env =
  re_orch :: Orchestrator
  re_world :: "nat \<Rightarrow> orch_env"
  re_range :: "(string, reg_error) kv \<Rightarrow> (string, reg_error) kv"
  re_consentPort :: bool
  re_auditor :: bool
  re_append :: append_result
  re_regulated :: bool

record reg_state =
  rg_consent :: consent_state
  rg_cache :: "InMemoryCache option"
  rg_sink :: audit_sink
  rg_calls :: "(string \<times> Filters) list"
  rg_lookups :: nat

section \<open>Error translation\<close>

fun reg_cause :: "reg_error \<Rightarrow> go_error" where
  "reg_cause (RProvider pe) = Errorf (pe_Message pe)"
| "reg_cause ErrProviderNotFound = Errorf ''provider not found''"
| "reg_cause ErrNoProvidersAvailable = Errorf ''no providers available for this type''"
| "reg_cause ErrAllProvidersFailed = Errorf ''all providers failed''"
| "reg_cause (ROther e) = e"

definition translateProviderError :: "reg_error \<Rightarrow> go_error" where
  "translateProviderError err =
     (case err of
        RProvider pe \<Rightarrow>
          (case pe_Category pe of
             ErrorTimeout \<Rightarrow> dErrors_New CodeTimeout ''registry lookup timed out''
           | ErrorNotFound \<Rightarrow> dErrors_New CodeNotFound ''citizen record not found''
           | ErrorAuthentication \<Rightarrow> dErrors_New CodeInternal ''registry authentication failed''
           | ErrorRateLimited \<Rightarrow> dErrors_New CodeInternal ''registry rate limited''
           | ErrorProviderOutage \<Rightarrow> dErrors_New CodeInternal ''registry unavailable''
           | ErrorBadData \<Rightarrow> dErrors_New CodeBadRequest (pe_Message pe)
           | _ \<Rightarrow> dErrors_New CodeInternal ''registry lookup failed'')
      | _ \<Rightarrow> dErrors_Wrap (reg_cause err) CodeInternal ''registry lookup failed'')"

definition translateOrchestratorError :: "reg_env \<Rightarrow> reg_error \<Rightarrow> LookupResult option \<Rightarrow> go_error" where
  "translateOrchestratorError env err result =
     (case (case result of None \<Rightarrow> [] | Some r \<Rightarrow> re_range env (lr_Errors r)) of
        (_, provErr) # _ \<Rightarrow> translateProviderError provErr
      | [] \<Rightarrow>
          (case err of
             ErrAllProvidersFailed \<Rightarrow> dErrors_New CodeInternal ''all registry providers failed''
           | ErrNoProvidersAvailable \<Rightarrow> dErrors_New CodeInternal ''no registry providers available''
           | ErrProviderNotFound \<Rightarrow> dErrors_New CodeInternal ''registry provider not found''
           | _ \<Rightarrow> translateProviderError err))"

section \<open>Helpers\<close>

definition reg_requireConsent :: "reg_env \<Rightarrow> ctx \<Rightarrow> UserID \<Rightarrow> reg_state \<Rightarrow> reg_state \<times> go_error option" where
  "reg_requireConsent env c userID st =
     (if \<not> re_consentPort env then (st, None)
      else let (cs, e) = Require c userID ConsentPurposeRegistryCheck (rg_consent st)
           in (st\<lparr> rg_consent := cs \<rparr>, e))"

definition national_id_filter :: "NationalID \<Rightarrow> Filters" where
  "national_id_filter nid = [(''national_id'', NationalID_String nid)]"

definition reg_lookup :: "reg_env \<Rightarrow> ProviderType list \<Rightarrow> NationalID \<Rightarrow> reg_state \<Rightarrow> reg_state \<times> LookupResult result" where
  "reg_lookup env types nid st =
     (let (os, result, e) = Orchestrator_Lookup (re_world env (rg_lookups st)) (re_orch env)
            \<lparr> lq_Types = types, lq_Filters = national_id_filter nid, lq_Strategy = StrategyFallback \<rparr> (orch_init 0);
          st = st\<lparr> rg_lookups := rg_lookups st + 1, rg_calls := rg_calls st @ os_calls os \<rparr>
      in case e of
           Some err \<Rightarrow> (st, Inl (translateOrchestratorError env err result))
         | None \<Rightarrow> (case result of Some r \<Rightarrow> (st, Inr r) | None \<Rightarrow> (st, Inr no_results)))"

text \<open>The block the three single lookups share: look one type up, and convert its first evidence.\<close>

definition fetch_evidence ::
  "reg_env \<Rightarrow> ProviderType \<Rightarrow> (Evidence \<Rightarrow> 'a result) \<Rightarrow> NationalID \<Rightarrow> reg_state \<Rightarrow> reg_state \<times> 'a result" where
  "fetch_evidence env typ convert nid st =
     (case reg_lookup env [typ] nid st of
        (st, Inl e) \<Rightarrow> (st, Inl e)
      | (st, Inr result) \<Rightarrow>
          (case find (\<lambda>ev. ev_ProviderType ev = typ) (lr_Evidence result) of
             None \<Rightarrow> (st, Inl (translateOrchestratorError env ErrAllProvidersFailed (Some result)))
           | Some ev \<Rightarrow> (st, convert ev)))"

definition auditSanctionsCheck ::
  "reg_env \<Rightarrow> (nat \<Rightarrow> time) \<Rightarrow> ctx \<Rightarrow> UserID \<Rightarrow> bool \<Rightarrow> reg_state \<Rightarrow> reg_state \<times> go_error option" where
  "auditSanctionsCheck env clk c userID listed st =
     (if \<not> re_auditor env then (st, None)
      else let event = \<lparr> CE_Timestamp = zero_time, CE_UserID = userID, CE_Subject = [],
                 CE_Action = ''registry_sanctions_checked'', CE_Purpose = ''registry_check'',
                 CE_Decision = (if listed then ''listed'' else ''not_listed''), CE_SubjectIDHash = [],
                 CE_RequestID = ctx_RequestID c, CE_ActorID = [] \<rparr>
           in case Compliance_Emit (re_append env) (clk 2) event (rg_sink st) of
                (s, Some _) \<Rightarrow> (st\<lparr> rg_sink := s \<rparr>, Some (dErrors_New CodeInternal ''unable to complete sanctions check''))
              | (s, None) \<Rightarrow> (st\<lparr> rg_sink := s \<rparr>, None))"

definition citizenRecordFromEvidence :: "reg_env \<Rightarrow> Evidence \<Rightarrow> CitizenRecord result" where
  "citizenRecordFromEvidence env ev =
     (case EvidenceToCitizenVerification ev of
        Inl err \<Rightarrow> Inl (dErrors_Wrap err CodeInternal ''failed to convert citizen evidence'')
      | Inr v \<Rightarrow> Inr (CitizenVerificationToRecord (if re_regulated env then WithoutNationalID v else v)))"

definition sanctionsRecordFromEvidence :: "Evidence \<Rightarrow> SanctionsRecord result" where
  "sanctionsRecordFromEvidence ev =
     (case EvidenceToSanctionsCheck ev of
        Inl err \<Rightarrow> Inl (dErrors_Wrap err CodeInternal ''failed to convert sanctions evidence'')
      | Inr check \<Rightarrow> Inr (SanctionsCheckToRecord check))"

text \<open>The two cache reads and the two cache writes of the service; there is no cache if it is nil.\<close>

definition find_citizen :: "reg_env \<Rightarrow> (nat \<Rightarrow> time) \<Rightarrow> NationalID \<Rightarrow> reg_state \<Rightarrow> reg_state \<times> CitizenRecord result" where
  "find_citizen env clk nid st =
     (case rg_cache st of
        None \<Rightarrow> (st, Inl cache_ErrNotFound)
      | Some cache \<Rightarrow> let (cache, r) = FindCitizen (clk 0) nid (re_regulated env) cache in (st\<lparr> rg_cache := Some cache \<rparr>, r))"

definition find_sanction :: "(nat \<Rightarrow> time) \<Rightarrow> NationalID \<Rightarrow> reg_state \<Rightarrow> reg_state \<times> SanctionsRecord result" where
  "find_sanction clk nid st =
     (case rg_cache st of
        None \<Rightarrow> (st, Inl cache_ErrNotFound)
      | Some cache \<Rightarrow> let (cache, r) = FindSanction (clk 0) nid cache in (st\<lparr> rg_cache := Some cache \<rparr>, r))"

definition save_citizen :: "reg_env \<Rightarrow> (nat \<Rightarrow> time) \<Rightarrow> NationalID \<Rightarrow> CitizenRecord \<Rightarrow> reg_state \<Rightarrow> reg_state" where
  "save_citizen env clk nid record st =
     st\<lparr> rg_cache := map_option (\<lambda>cache. fst (SaveCitizen (clk 1) nid (Some record) (re_regulated env) cache)) (rg_cache st) \<rparr>"

definition save_sanction :: "(nat \<Rightarrow> time) \<Rightarrow> NationalID \<Rightarrow> SanctionsRecord \<Rightarrow> reg_state \<Rightarrow> reg_state" where
  "save_sanction clk nid record st =
     st\<lparr> rg_cache := map_option (\<lambda>cache. fst (SaveSanction (clk 1) nid (Some record) cache)) (rg_cache st) \<rparr>"

section \<open>Single lookups\<close>

definition Citizen ::
  "reg_env \<Rightarrow> (nat \<Rightarrow> time) \<Rightarrow> ctx \<Rightarrow> UserID \<Rightarrow> NationalID \<Rightarrow> reg_state \<Rightarrow> reg_state \<times> CitizenRecord result" where
  "Citizen env clk c userID nid st =
     (case reg_requireConsent env c userID st of
        (st, Some e) \<Rightarrow> (st, Inl e)
      | (st, None) \<Rightarrow>
          (case find_citizen env clk nid st of
             (st, Inr cached) \<Rightarrow> (st, Inr cached)
           | (st, Inl _) \<Rightarrow>
               (case fetch_evidence env ProviderTypeCitizen (citizenRecordFromEvidence env) nid st of
                  (st, Inl e) \<Rightarrow> (st, Inl e)
                | (st, Inr record) \<Rightarrow> (save_citizen env clk nid record st, Inr record))))"

text \<open>Without minimisation: the caller minimises what it returns.\<close>

definition detailsFromEvidence :: "Evidence \<Rightarrow> CitizenRecord result" where
  "detailsFromEvidence ev =
     (case EvidenceToCitizenVerification ev of
        Inl e \<Rightarrow> Inl (dErrors_Wrap e CodeInternal ''failed to convert citizen evidence'')
      | Inr v \<Rightarrow> Inr (CitizenVerificationToRecord v))"

definition CitizenWithDetails ::
  "reg_env \<Rightarrow> ctx \<Rightarrow> UserID \<Rightarrow> NationalID \<Rightarrow> reg_state \<Rightarrow> reg_state \<times> CitizenRecord result" where
  "CitizenWithDetails env c userID nid st =
     (case reg_requireConsent env c userID st of
        (st, Some e) \<Rightarrow> (st, Inl e)
      | (st, None) \<Rightarrow> fetch_evidence env ProviderTypeCitizen detailsFromEvidence nid st)"

definition audited ::
  "reg_env \<Rightarrow> (nat \<Rightarrow> time) \<Rightarrow> ctx \<Rightarrow> UserID \<Rightarrow> SanctionsRecord \<Rightarrow> reg_state \<Rightarrow> reg_state \<times> SanctionsRecord result" where
  "audited env clk c userID record st =
     (case auditSanctionsCheck env clk c userID (sr_Listed record) st of
        (st, Some e) \<Rightarrow> (st, Inl e)
      | (st, None) \<Rightarrow> (st, Inr record))"

definition Sanctions ::
  "reg_env \<Rightarrow> (nat \<Rightarrow> time) \<Rightarrow> ctx \<Rightarrow> UserID \<Rightarrow> NationalID \<Rightarrow> reg_state \<Rightarrow> reg_state \<times> SanctionsRecord result" where
  "Sanctions env clk c userID nid st =
     (case reg_requireConsent env c userID st of
        (st, Some e) \<Rightarrow> (st, Inl e)
      | (st, None) \<Rightarrow>
          (case find_sanction clk nid st of
             (st, Inr cached) \<Rightarrow> audited env clk c userID cached st
           | (st, Inl _) \<Rightarrow>
               (case fetch_evidence env ProviderTypeSanctions sanctionsRecordFromEvidence nid st of
                  (st, Inl e) \<Rightarrow> (st, Inl e)
                | (st, Inr record) \<Rightarrow> audited env clk c userID record (save_sanction clk nid record st))))"

section \<open>The combined check\<close>

text \<open>\<^verbatim>\<open>convertEvidence\<close>: the last record of each type wins, the first failure ends the loop.\<close>

fun convertEvidence ::
  "reg_env \<Rightarrow> Evidence list \<Rightarrow> CitizenRecord option \<times> SanctionsRecord option \<Rightarrow>
   (CitizenRecord option \<times> SanctionsRecord option) result" where
  "convertEvidence env [] acc = Inr acc"
| "convertEvidence env (ev # evs) (cit, san) =
     (if ev_ProviderType ev = ProviderTypeCitizen
      then (case citizenRecordFromEvidence env ev of
              Inl e \<Rightarrow> Inl e
            | Inr record \<Rightarrow> convertEvidence env evs (Some record, san))
      else if ev_ProviderType ev = ProviderTypeSanctions
      then (case sanctionsRecordFromEvidence ev of
              Inl e \<Rightarrow> Inl e
            | Inr record \<Rightarrow> convertEvidence env evs (cit, Some record))
      else convertEvidence env evs (cit, san))"

definition missing_types :: "CitizenRecord result \<Rightarrow> SanctionsRecord result \<Rightarrow> ProviderType list" where
  "missing_types cit san =
     (if isl cit then [ProviderTypeCitizen] else []) @ (if isl san then [ProviderTypeSanctions] else [])"

definition to_option :: "'a result \<Rightarrow> 'a option" where
  "to_option r = (case r of Inl _ \<Rightarrow> None | Inr x \<Rightarrow> Some x)"

definition cacheNewlyFetched ::
  "reg_env \<Rightarrow> (nat \<Rightarrow> time) \<Rightarrow> NationalID \<Rightarrow> CitizenRecord \<Rightarrow> SanctionsRecord \<Rightarrow> bool \<Rightarrow> bool \<Rightarrow> reg_state \<Rightarrow> reg_state" where
  "cacheNewlyFetched env clk nid cit san citizenCached sanctionsCached st =
     (let st = (if \<not> citizenCached then save_citizen env clk nid cit st else st)
      in if \<not> sanctionsCached then save_sanction clk nid san st else st)"

definition Check ::
  "reg_env \<Rightarrow> (nat \<Rightarrow> time) \<Rightarrow> ctx \<Rightarrow> UserID \<Rightarrow> NationalID \<Rightarrow> reg_state \<Rightarrow>
   reg_state \<times> (CitizenRecord \<times> SanctionsRecord) result" where
  "Check env clk c userID nid st =
     (case reg_requireConsent env c userID st of
        (st, Some e) \<Rightarrow> (st, Inl e)
      | (st, None) \<Rightarrow>
          let (st, cit) = find_citizen env clk nid st; (st, san) = find_sanction clk nid st
          in case (cit, san) of
               (Inr cr, Inr sr) \<Rightarrow> (st, Inr (cr, sr))
             | _ \<Rightarrow>
                 (case reg_lookup env (missing_types cit san) nid st of
                    (st, Inl e) \<Rightarrow> (st, Inl e)
                  | (st, Inr result) \<Rightarrow>
                      (case convertEvidence env (lr_Evidence result) (None, None) of
                         Inl e \<Rightarrow> (st, Inl e)
                       | Inr (fetchedCitizen, fetchedSanction) \<Rightarrow>
                           (case (if isl cit then fetchedCitizen else to_option cit,
                                  if isl san then fetchedSanction else to_option san) of
                              (Some cr, Some sr) \<Rightarrow>
                                (cacheNewlyFetched env clk nid cr sr (\<not> isl cit) (\<not> isl san) st, Inr (cr, sr))
                            | _ \<Rightarrow> (st, Inl (translateOrchestratorError env ErrAllProvidersFailed (Some result)))))))"

section \<open>Contracts\<close>

record CitizenContractRecord =
  ccr_DateOfBirth :: string
  ccr_Valid :: bool

definition CitizenContract ::
  "reg_env \<Rightarrow> ctx \<Rightarrow> UserID \<Rightarrow> NationalID \<Rightarrow> reg_state \<Rightarrow> reg_state \<times> CitizenContractRecord result" where
  "CitizenContract env c userID nid st =
     (case CitizenWithDetails env c userID nid st of
        (st, Inl e) \<Rightarrow> (st, Inl e)
      | (st, Inr r) \<Rightarrow> (st, Inr \<lparr> ccr_DateOfBirth = cr_DateOfBirth r, ccr_Valid = cr_Valid r \<rparr>))"

definition SanctionsContract ::
  "reg_env \<Rightarrow> (nat \<Rightarrow> time) \<Rightarrow> ctx \<Rightarrow> UserID \<Rightarrow> NationalID \<Rightarrow> reg_state \<Rightarrow> reg_state \<times> bool result" where
  "SanctionsContract env clk c userID nid st =
     (case Sanctions env clk c userID nid st of
        (st, Inl e) \<Rightarrow> (st, Inl e)
      | (st, Inr r) \<Rightarrow> (st, Inr (sr_Listed r)))"

section \<open>Personal data in regulated mode\<close>

definition no_pii :: "CitizenRecord \<Rightarrow> bool" where
  "no_pii r = (cr_NationalID r = [] \<and> cr_FullName r = [] \<and> cr_DateOfBirth r = [] \<and> cr_Address r = [])"

lemma citizenRecord_no_pii:
  "re_regulated env \<Longrightarrow> citizenRecordFromEvidence env ev = Inr r \<Longrightarrow> no_pii r"
  by (auto simp: citizenRecordFromEvidence_def CitizenVerificationToRecord_def WithoutNationalID_def Minimized_def
      no_details_def no_pii_def split: sum.splits)

text \<open>Every cached citizen record that is marked as minimised is; the cache is well formed.\<close>

definition minimised :: "InMemoryCache \<Rightarrow> bool" where
  "minimised c = (cache_ok c \<and> (\<forall>v \<in> set (entries (citizens_lru c)). cc_regulated v \<longrightarrow> no_pii (ca_record v)))"

lemma minimised_ok: "minimised c \<Longrightarrow> lru_ok (maxSize c) (citizens_lru c)"
  by (simp add: minimised_def cache_ok_def)

lemma minimised_New [simp]: "minimised (NewInMemoryCache ttl cap)"
  using cache_abs_New[of ttl cap] cache_ok_New[of ttl cap] by (simp add: minimised_def cache_abs_def)

lemma cache_ok_ops:
  assumes "cache_ok c"
  shows "cache_ok (fst (SaveCitizen t n (Some r) reg c))" "cache_ok (fst (FindCitizen t n reg c))"
    "cache_ok (fst (SaveSanction t n (Some s) c))" "cache_ok (fst (FindSanction t n c))"
  using cache_do_ok[OF assms, of "OpSaveCitizen t n (Some r) reg"] cache_do_ok[OF assms, of "OpFindCitizen t n reg"]
    cache_do_ok[OF assms, of "OpSaveSanction t n (Some s)"] cache_do_ok[OF assms, of "OpFindSanction t n"] by simp_all

lemma minimised_SaveCitizen:
  assumes "minimised c" "reg \<Longrightarrow> no_pii r"
  shows "minimised (fst (SaveCitizen t n (Some r) reg c))"
proof -
  let ?v = "\<lparr> ca_key = NationalID_String n, ca_record = r, ca_storedAt = t, cc_regulated = reg \<rparr> :: cachedCitizen"
  have "set (spec_save (maxSize c) ?v (entries (citizens_lru c))) \<subseteq> insert ?v (set (entries (citizens_lru c)))"
    using spec_save_set[of "maxSize c" ?v "entries (citizens_lru c)"] by (auto simp: without_def)
  then show ?thesis using assms cache_ok_ops(1)[of c t n r reg] lru_save_refines[OF minimised_ok[OF assms(1)], of ?v]
    by (auto simp: minimised_def SaveCitizen_def)
qed

lemma minimised_FindCitizen:
  assumes "minimised c" "FindCitizen t n reg c = (c', res)"
  shows "minimised c'" "res = Inr r \<Longrightarrow> reg \<Longrightarrow> no_pii r"
proof -
  note find = lru_find_spec[OF minimised_ok[OF assms(1)]]
  have c': "c' = fst (FindCitizen t n reg c)" "res = snd (FindCitizen t n reg c)" using assms(2) by simp_all
  show "minimised c'" unfolding c' using assms(1) cache_ok_ops(2)[of c t n reg]
    by (auto simp: minimised_def FindCitizen_def Let_def case_prod_unfold find dest: spec_find_member)
  show "no_pii r" if "res = Inr r" reg
    using assms(1) that c'(2) by (auto simp: minimised_def FindCitizen_def Let_def case_prod_unfold find
        split: option.splits dest: spec_find_Some)
qed

lemma minimised_sanctions:
  assumes "minimised c"
  shows "minimised (fst (SaveSanction t n (Some s) c))" "minimised (fst (FindSanction t n c))"
  using assms cache_ok_ops(3)[of c t n s] cache_ok_ops(4)[of c t n]
  by (auto simp: minimised_def SaveSanction_def FindSanction_def Let_def case_prod_unfold)

definition reg_ok :: "reg_state \<Rightarrow> bool" where
  "reg_ok st = (case rg_cache st of None \<Rightarrow> True | Some c \<Rightarrow> minimised c)"

lemma reg_ok_frame [simp]:
  "reg_ok (st\<lparr> rg_consent := a \<rparr>) = reg_ok st" "reg_ok (st\<lparr> rg_sink := b \<rparr>) = reg_ok st"
  "reg_ok (st\<lparr> rg_lookups := m, rg_calls := d \<rparr>) = reg_ok st"
  by (simp_all add: reg_ok_def)

text \<open>Which parts of the state the steps of an operation change.\<close>

lemma reg_requireConsent_frame:
  "reg_requireConsent env c u st = (st1, e) \<Longrightarrow> \<exists>a. st1 = st\<lparr> rg_consent := a \<rparr>"
  by (auto simp: reg_requireConsent_def Let_def split: if_splits prod.splits intro: exI[of _ "rg_consent st"])

lemma reg_lookup_frame:
  "reg_lookup env ts nid st = (st1, r) \<Longrightarrow> \<exists>m d. st1 = st\<lparr> rg_lookups := m, rg_calls := d \<rparr>"
  by (auto simp: reg_lookup_def Let_def split: prod.splits option.splits)

lemma fetch_evidence_frame:
  "fetch_evidence env typ convert nid st = (st1, r) \<Longrightarrow> \<exists>m d. st1 = st\<lparr> rg_lookups := m, rg_calls := d \<rparr>"
  by (auto simp: fetch_evidence_def split: prod.splits sum.splits option.splits dest!: reg_lookup_frame)

lemma fetch_evidence_Inr: "fetch_evidence env typ convert nid st = (st1, Inr r) \<Longrightarrow> \<exists>ev. convert ev = Inr r"
  by (auto simp: fetch_evidence_def split: prod.splits sum.splits option.splits)

lemma fetch_evidence_ok: "fetch_evidence env typ convert nid st = (st1, r) \<Longrightarrow> reg_ok st \<Longrightarrow> reg_ok st1"
  by (auto dest: fetch_evidence_frame)

lemma fetched_citizen_no_pii:
  "fetch_evidence env typ (citizenRecordFromEvidence env) nid st = (st1, Inr r) \<Longrightarrow> re_regulated env \<Longrightarrow> no_pii r"
  by (auto dest: fetch_evidence_Inr citizenRecord_no_pii)

text \<open>What the n-th lookup says about the person with a national id: the conversion of the first evidence
  of the type among the answers to a lookup of that type whose one filter is that national id.\<close>

definition evidence_at :: "reg_env \<Rightarrow> ProviderType \<Rightarrow> (Evidence \<Rightarrow> 'a result) \<Rightarrow> NationalID \<Rightarrow> nat \<Rightarrow> 'a result" where
  "evidence_at env typ convert nid n =
     (case snd (Orchestrator_Lookup (re_world env n) (re_orch env)
          \<lparr> lq_Types = [typ], lq_Filters = [(''national_id'', NationalID_String nid)], lq_Strategy = StrategyFallback \<rparr> (orch_init 0)) of
        (result, Some err) \<Rightarrow> Inl (translateOrchestratorError env err result)
      | (result, None) \<Rightarrow>
          let found = (case result of None \<Rightarrow> no_results | Some r \<Rightarrow> r)
          in case find (\<lambda>ev. ev_ProviderType ev = typ) (lr_Evidence found) of
               None \<Rightarrow> Inl (translateOrchestratorError env ErrAllProvidersFailed (Some found))
             | Some ev \<Rightarrow> convert ev)"

lemma fetch_evidence_at:
  "snd (fetch_evidence env typ convert nid st) = evidence_at env typ convert nid (rg_lookups st)"
  "rg_lookups (fst (fetch_evidence env typ convert nid st)) = rg_lookups st + 1"
  by (auto simp: fetch_evidence_def reg_lookup_def evidence_at_def national_id_filter_def Let_def case_prod_unfold
      split: prod.splits option.splits sum.splits)

lemma audited_frame: "audited env clk c u s st = (st1, r) \<Longrightarrow> \<exists>b. st1 = st\<lparr> rg_sink := b \<rparr>"
  by (auto simp: audited_def auditSanctionsCheck_def Let_def split: if_splits prod.splits option.splits intro: exI[of _ "rg_sink st"])

lemma find_citizen_ok:
  assumes "find_citizen env clk nid st = (st1, res)" "reg_ok st"
  shows "reg_ok st1" "res = Inr r \<Longrightarrow> re_regulated env \<Longrightarrow> no_pii r"
  using assms minimised_FindCitizen
  by (auto simp: find_citizen_def reg_ok_def Let_def split: option.splits prod.splits)

lemma find_sanction_ok: "find_sanction clk nid st = (st1, res) \<Longrightarrow> reg_ok st \<Longrightarrow> reg_ok st1"
  by (auto simp: find_sanction_def reg_ok_def Let_def case_prod_unfold minimised_sanctions split: option.splits)

lemma save_citizen_ok: "reg_ok st \<Longrightarrow> (re_regulated env \<Longrightarrow> no_pii r) \<Longrightarrow> reg_ok (save_citizen env clk nid r st)"
  by (auto simp: save_citizen_def reg_ok_def minimised_SaveCitizen split: option.splits)

lemma save_sanction_ok: "reg_ok st \<Longrightarrow> reg_ok (save_sanction clk nid s st)"
  by (auto simp: save_sanction_def reg_ok_def minimised_sanctions split: option.splits)

section \<open>Runs of the service\<close>

lemma Citizen_ok:
  assumes "reg_ok st" "Citizen env clk c u nid st = (st', res)"
  shows "reg_ok st' \<and> (\<forall>r. res = Inr r \<longrightarrow> re_regulated env \<longrightarrow> no_pii r)"
  using assms unfolding Citizen_def
  by (auto split: prod.splits option.splits sum.splits intro!: save_citizen_ok
      dest: find_citizen_ok fetch_evidence_ok fetched_citizen_no_pii dest!: reg_requireConsent_frame)

lemma CitizenWithDetails_frame:
  "CitizenWithDetails env c u nid st = (st', res) \<Longrightarrow> rg_cache st' = rg_cache st \<and> rg_sink st' = rg_sink st"
  unfolding CitizenWithDetails_def
  by (auto split: prod.splits option.splits sum.splits dest!: reg_requireConsent_frame fetch_evidence_frame)

lemma Sanctions_ok:
  assumes "reg_ok st" "Sanctions env clk c u nid st = (st', res)"
  shows "reg_ok st'"
proof -
  obtain st1 e where consent: "reg_requireConsent env c u st = (st1, e)" by force
  obtain st2 san where f: "find_sanction clk nid st1 = (st2, san)" by force
  have ok1: "reg_ok st1" using reg_requireConsent_frame[OF consent] assms(1) by auto
  have ok2: "reg_ok st2" using find_sanction_ok[OF f ok1] .
  show ?thesis using assms(2) ok1 ok2 unfolding Sanctions_def consent f
    by (auto simp: f split: prod.splits option.splits sum.splits intro!: save_sanction_ok
        dest: fetch_evidence_ok dest!: audited_frame)
qed

lemma convertEvidence_no_pii:
  assumes "convertEvidence env evs acc = Inr (cit, san)" "re_regulated env" "\<And>r. fst acc = Some r \<Longrightarrow> no_pii r" "cit = Some r"
  shows "no_pii r"
  using assms by (induction env evs acc rule: convertEvidence.induct)
    (auto split: if_splits sum.splits dest: citizenRecord_no_pii)


lemma cacheNewlyFetched_ok:
  "reg_ok st \<Longrightarrow> (\<not> cc \<Longrightarrow> re_regulated env \<Longrightarrow> no_pii cit) \<Longrightarrow> reg_ok (cacheNewlyFetched env clk nid cit san cc sc st)"
  by (auto simp: cacheNewlyFetched_def Let_def intro!: save_sanction_ok save_citizen_ok)

lemma Check_ok:
  assumes ok: "reg_ok st" and check: "Check env clk c u nid st = (st', res)"
  shows "reg_ok st' \<and> (\<forall>cit san. res = Inr (cit, san) \<longrightarrow> re_regulated env \<longrightarrow> no_pii cit)"
proof -
  obtain st1 e where consent: "reg_requireConsent env c u st = (st1, e)" by force
  obtain st2 cit where f1: "find_citizen env clk nid st1 = (st2, cit)" by force
  obtain st3 san where f2: "find_sanction clk nid st2 = (st3, san)" by force
  have ok1: "reg_ok st1" using reg_requireConsent_frame[OF consent] ok by auto
  have ok3: "reg_ok st3" using find_sanction_ok[OF f2 find_citizen_ok(1)[OF f1 ok1]] .
  note pii = find_citizen_ok(2)[OF f1 ok1]
  obtain st4 lk where look: "reg_lookup env (missing_types cit san) nid st3 = (st4, lk)" by force
  have ok4: "reg_ok st4" using reg_lookup_frame[OF look] ok3 by auto
  have fresh: "no_pii r" if "convertEvidence env evs (None, None) = Inr (Some r, s)" "re_regulated env" for evs r s
    using convertEvidence_no_pii[OF that(1) that(2)] by simp
  show ?thesis
    using check ok1 ok3 ok4 pii fresh unfolding Check_def consent f1 f2 Let_def split_conv look
    by (auto simp: f1 f2 look to_option_def split: option.splits sum.splits prod.splits if_splits intro!: cacheNewlyFetched_ok)
qed


datatype reg_call =
    CallCitizen "nat \<Rightarrow> time" ctx UserID NationalID
  | CallDetails ctx UserID NationalID
  | CallSanctions "nat \<Rightarrow> time" ctx UserID NationalID
  | CallCheck "nat \<Rightarrow> time" ctx UserID NationalID

fun reg_do :: "reg_env \<Rightarrow> reg_call \<Rightarrow> reg_state \<Rightarrow> reg_state" where
  "reg_do env (CallCitizen clk c u nid) st = fst (Citizen env clk c u nid st)"
| "reg_do env (CallDetails c u nid) st = fst (CitizenWithDetails env c u nid st)"
| "reg_do env (CallSanctions clk c u nid) st = fst (Sanctions env clk c u nid st)"
| "reg_do env (CallCheck clk c u nid) st = fst (Check env clk c u nid st)"

text \<open>A run is a sequence of calls; the service that makes a call need not be in regulated mode, since
  two services may share a cache.\<close>

fun reg_run :: "(reg_env \<times> reg_call) list \<Rightarrow> reg_state \<Rightarrow> reg_state" where
  "reg_run [] st = st"
| "reg_run ((env, call) # calls) st = reg_run calls (reg_do env call st)"

lemma reg_do_ok: "reg_ok st \<Longrightarrow> reg_ok (reg_do env call st)"
  using Citizen_ok[OF _ prod.collapse[symmetric]] Sanctions_ok[OF _ prod.collapse[symmetric]]
    Check_ok[OF _ prod.collapse[symmetric]] CitizenWithDetails_frame[OF prod.collapse[symmetric]]
  by (cases call) (simp_all add: reg_ok_def)

lemma reg_run_ok: "reg_ok st \<Longrightarrow> reg_ok (reg_run calls st)"
  by (induction calls st rule: reg_run.induct) (simp_all add: reg_do_ok)

lemma any_mode:
  "translateOrchestratorError (env\<lparr> re_regulated := b \<rparr>) = translateOrchestratorError env"
  "reg_requireConsent (env\<lparr> re_regulated := b \<rparr>) = reg_requireConsent env"
  "auditSanctionsCheck (env\<lparr> re_regulated := b \<rparr>) = auditSanctionsCheck env"
  by (auto simp: translateOrchestratorError_def reg_requireConsent_def auditSanctionsCheck_def Let_def fun_eq_iff split: option.splits)

lemma Sanctions_any_mode: "Sanctions (env\<lparr> re_regulated := b \<rparr>) clk c u nid st = Sanctions env clk c u nid st"
  unfolding Sanctions_def fetch_evidence_def reg_lookup_def audited_def any_mode by simp

text \<open>\<^bold>\<open>C13\<close> In regulated mode the citizen records that leave the registry service are minimised: after any
  run of calls on a service that started without a cache or with an empty one, whichever services of
  either mode made them, the citizen record that a citizen lookup or a combined check returns has neither
  a national id nor a name, a date of birth or an address, whether it comes from the cache or from a
  provider. Sanctions records are not minimised: the sanctions check gives the same record, with the
  national id that the provider reported, in either mode.\<close>

theorem regulated_no_pii:
  assumes "rg_cache st0 = map_option (\<lambda>(ttl, cap). NewInMemoryCache ttl cap) cfg" and "re_regulated env"
  shows "(case snd (Citizen env clk c u nid (reg_run calls st0)) of Inl _ \<Rightarrow> True | Inr r \<Rightarrow> no_pii r) \<and>
    (case snd (Check env clk c u nid (reg_run calls st0)) of Inl _ \<Rightarrow> True | Inr (cit, san) \<Rightarrow> no_pii cit) \<and>
    Sanctions env clk c u nid st = Sanctions (env\<lparr> re_regulated := False \<rparr>) clk c u nid st"
proof -
  have "reg_ok st0" using assms(1) by (cases cfg) (simp_all add: reg_ok_def case_prod_unfold)
  then have ok: "reg_ok (reg_run calls st0)" by (rule reg_run_ok)
  show ?thesis using Citizen_ok[OF ok prod.collapse[symmetric]] Check_ok[OF ok prod.collapse[symmetric]] assms(2)
    by (auto simp: Sanctions_any_mode split: sum.splits prod.splits)
qed

definition ex_reg_env :: "bool \<Rightarrow> reg_env" where
  "ex_reg_env regulated = \<lparr> re_orch = ex_orch, re_world = (\<lambda>_. ex_orch_env), re_range = (\<lambda>m. m), re_consentPort = True,
     re_auditor = True, re_append = (\<lambda>_. None), re_regulated = regulated \<rparr>"

definition ex_reg_state :: reg_state where
  "ex_reg_state = \<lparr> rg_consent = fst (Grant ex_consent_cfg (\<lambda>_ _. 7) (ex_consent_ctx 10) (UserID 1)
       [ConsentPurposeRegistryCheck] consent_init),
     rg_cache = Some (NewInMemoryCache hour (Some 8)), rg_sink = \<lparr> sink_events = [], sink_calls = 0 \<rparr>,
     rg_calls = [], rg_lookups = 0 \<rparr>"

definition ex_nid :: NationalID where
  "ex_nid = NationalID ''ABC123''"

theorem regulated_no_pii_witness:
  "\<exists>r. snd (Citizen (ex_reg_env True) (\<lambda>_. 30) (ex_consent_ctx 20) (UserID 1) ex_nid
     (reg_run [(ex_reg_env False, CallCitizen (\<lambda>_. 25) (ex_consent_ctx 20) (UserID 1) ex_nid)] ex_reg_state)) = Inr r \<and>
     cr_Valid r \<and> no_pii r"
proof -
  let ?run = "[(ex_reg_env False, CallCitizen (\<lambda>_. 25) (ex_consent_ctx 20) (UserID 1) ex_nid)]"
  have v: "map_sum (\<lambda>_. ()) cr_Valid (snd (Citizen (ex_reg_env True) (\<lambda>_. 30) (ex_consent_ctx 20) (UserID 1) ex_nid (reg_run ?run ex_reg_state))) = Inr True"
    by code_simp
  have "rg_cache ex_reg_state = map_option (\<lambda>(ttl, cap). NewInMemoryCache ttl cap) (Some (hour, Some 8))" "re_regulated (ex_reg_env True)"
    by (simp_all add: ex_reg_state_def ex_reg_env_def)
  from regulated_no_pii[OF this, of "\<lambda>_. 30" "ex_consent_ctx 20" "UserID 1" ex_nid ?run ex_reg_state] v show ?thesis
    by (auto split: sum.splits)
qed

section \<open>Consent and audit\<close>

definition reg_consent_ok :: "reg_env \<Rightarrow> ctx \<Rightarrow> UserID \<Rightarrow> reg_state \<Rightarrow> bool" where
  "reg_consent_ok env c u st = (re_consentPort env \<longrightarrow> snd (Require c u ConsentPurposeRegistryCheck (rg_consent st)) = None)"

lemma reg_requireConsent_eq:
  "reg_requireConsent env c u st =
     (st\<lparr> rg_consent := (if re_consentPort env then fst (Require c u ConsentPurposeRegistryCheck (rg_consent st)) else rg_consent st) \<rparr>,
      if re_consentPort env then snd (Require c u ConsentPurposeRegistryCheck (rg_consent st)) else None)"
  by (simp add: reg_requireConsent_def case_prod_unfold Let_def)

lemma reg_refused:
  assumes "\<not> reg_consent_ok env c u st"
  shows "\<exists>e. snd (Require c u ConsentPurposeRegistryCheck (rg_consent st)) = Some e \<and>
    reg_requireConsent env c u st = (st\<lparr> rg_consent := fst (Require c u ConsentPurposeRegistryCheck (rg_consent st)) \<rparr>, Some e)"
  using assms by (auto simp: reg_consent_ok_def reg_requireConsent_eq)

definition sanctions_event :: "time \<Rightarrow> ctx \<Rightarrow> UserID \<Rightarrow> bool \<Rightarrow> Event" where
  "sanctions_event t c u listed =
     \<lparr> Event_Category = CategoryCompliance, Event_Timestamp = t, Event_UserID = u, Event_Subject = [],
       Event_Action = ''registry_sanctions_checked'', Event_Purpose = ''registry_check'', Event_RequestingParty = [],
       Event_Decision = (if listed then ''listed'' else ''not_listed''), Event_Reason = [], Event_Email = [],
       Event_RequestID = ctx_RequestID c, Event_ActorID = [], Event_SubjectIDHash = [] \<rparr>"

lemma audited_cases:
  assumes "audited env clk c u s st = (st', res)" "re_auditor env"
  shows "(\<exists>e. res = Inl e \<and> HasCode e CodeInternal \<and> sink_events (rg_sink st') = sink_events (rg_sink st)) \<or>
    res = Inr s \<and> sink_events (rg_sink st') = sink_events (rg_sink st) @ [sanctions_event (clk 2) c u (sr_Listed s)]"
  using assms
  by (auto simp: audited_def auditSanctionsCheck_def Compliance_Emit_def sink_Append_def Let_def sanctions_event_def err_simps
      ComplianceEvent_ToLegacyEvent_def zero_time_def time_IsZero_def split: if_splits option.splits)

lemma find_sanction_frame:
  "find_sanction clk nid st = (st1, res) \<Longrightarrow> \<exists>m. st1 = st\<lparr> rg_cache := m \<rparr>"
  by (auto simp: find_sanction_def Let_def case_prod_unfold split: option.splits intro: exI[of _ "rg_cache st"])

lemma save_sanction_frame [simp]: "rg_sink (save_sanction clk nid s st) = rg_sink st"
  by (simp add: save_sanction_def)

lemma Sanctions_audit:
  assumes "Sanctions env clk c u nid st = (st', res)" "re_auditor env"
  shows "(\<exists>e. res = Inl e \<and> sink_events (rg_sink st') = sink_events (rg_sink st)) \<or>
    (\<exists>s. res = Inr s \<and> sink_events (rg_sink st') = sink_events (rg_sink st) @ [sanctions_event (clk 2) c u (sr_Listed s)])"
proof -
  obtain st1 e where consent: "reg_requireConsent env c u st = (st1, e)" by force
  obtain st2 san where f: "find_sanction clk nid st1 = (st2, san)" by force
  have "rg_sink st1 = rg_sink st" "rg_sink st2 = rg_sink st"
    using reg_requireConsent_frame[OF consent] find_sanction_frame[OF f] by auto
  then show ?thesis using assms unfolding Sanctions_def consent f
    by (auto simp: f split: prod.splits option.splits sum.splits dest!: fetch_evidence_frame audited_cases[OF _ assms(2)])
qed

lemma reg_gate:
  assumes "re_consentPort env" "snd (Require c u ConsentPurposeRegistryCheck (rg_consent st)) = Some e"
  defines "st' \<equiv> st\<lparr> rg_consent := fst (Require c u ConsentPurposeRegistryCheck (rg_consent st)) \<rparr>"
  shows "Citizen env clk c u nid st = (st', Inl e)" "CitizenWithDetails env c u nid st = (st', Inl e)"
    "Sanctions env clk c u nid st = (st', Inl e)" "Check env clk c u nid st = (st', Inl e)"
  using assms
  by (simp_all add: Citizen_def CitizenWithDetails_def Sanctions_def Check_def reg_requireConsent_eq)

text \<open>Checking a consent changes no consent, so its verdict is the same for the whole evaluation.\<close>

lemma Require_cong: "cs_store a = cs_store b \<Longrightarrow> snd (Require c u p a) = snd (Require c u p b)"
  by (auto simp: Require_def Let_def split: sum.splits option.splits)

definition consents :: "reg_state \<Rightarrow> consent_store" where
  "consents rs = cs_store (rg_consent rs)"

definition consented :: "ctx \<Rightarrow> UserID \<Rightarrow> ConsentPurpose \<Rightarrow> reg_state \<Rightarrow> bool" where
  "consented c u p rs = (snd (Require c u p (rg_consent rs)) = None)"

lemma consented_cong: "consents a = consents b \<Longrightarrow> consented c u p a = consented c u p b"
  unfolding consents_def consented_def using Require_cong by metis

lemma consents_frame [simp]:
  "consents (st\<lparr> rg_sink := b \<rparr>) = consents st" "consents (st\<lparr> rg_lookups := m, rg_calls := d \<rparr>) = consents st"
  "consents (st\<lparr> rg_cache := k \<rparr>) = consents st" "consents (save_sanction clk nid s st) = consents st"
  by (simp_all add: consents_def save_sanction_def)

lemma reg_requireConsent_consents:
  assumes "reg_requireConsent env c u st = (st1, e)"
  shows "consents st1 = consents st" "e = None \<Longrightarrow> re_consentPort env \<Longrightarrow> consented c u ConsentPurposeRegistryCheck st"
  using assms by (auto simp: reg_requireConsent_eq consents_def consented_def)

text \<open>What the contract of a citizen lookup returns is what the lookup says about the national id.\<close>

definition citizen_evidence :: "reg_env \<Rightarrow> NationalID \<Rightarrow> nat \<Rightarrow> CitizenContractRecord result" where
  "citizen_evidence env nid n =
     map_sum id (\<lambda>r. \<lparr> ccr_DateOfBirth = cr_DateOfBirth r, ccr_Valid = cr_Valid r \<rparr>)
       (evidence_at env ProviderTypeCitizen detailsFromEvidence nid n)"

lemma CitizenContract_evidence:
  assumes "re_consentPort env \<longrightarrow> consented c u ConsentPurposeRegistryCheck st"
  shows "snd (CitizenContract env c u nid st) = citizen_evidence env nid (rg_lookups st)"
proof -
  let ?st = "st\<lparr> rg_consent := (if re_consentPort env then fst (Require c u ConsentPurposeRegistryCheck (rg_consent st)) else rg_consent st) \<rparr>"
  obtain st2 res where f: "fetch_evidence env ProviderTypeCitizen detailsFromEvidence nid ?st = (st2, res)" by force
  have "reg_requireConsent env c u st = (?st, None)" using assms by (simp add: reg_requireConsent_eq consented_def)
  moreover have "evidence_at env ProviderTypeCitizen detailsFromEvidence nid (rg_lookups st) = res"
    using fetch_evidence_at(1)[of env ProviderTypeCitizen detailsFromEvidence nid ?st] f by simp
  ultimately show ?thesis using f
    by (cases res) (simp_all add: CitizenContract_def CitizenWithDetails_def citizen_evidence_def)
qed

lemma CitizenContract_refused:
  assumes "re_consentPort env" "\<not> consented c u ConsentPurposeRegistryCheck st"
  shows "\<exists>e. snd (CitizenContract env c u nid st) = Inl e"
  using assms reg_gate(2)[of env c u st] by (auto simp: CitizenContract_def consented_def)

text \<open>\<^bold>\<open>C12\<close> A sanctions check of a service with a consent port and an auditor is gated and audited, and
  fails closed on both sides. Where consent for registry checks is missing, revoked or expired, the check
  ends with the error of the consent service, no provider is called and neither the cache nor the audit
  store changes. Otherwise the audit store gains exactly one compliance event, with the user, the request
  and the verdict, if the check returns a record (from the cache or from a provider), and none if it
  returns an error, in particular if the audit store refuses the event.\<close>

theorem sanctions_gated_and_audited:
  assumes "re_consentPort env" and "re_auditor env" and "Sanctions env clk c u nid st = (st', res)"
  shows "(case snd (Require c u ConsentPurposeRegistryCheck (rg_consent st)) of
       None \<Rightarrow> True
     | Some e \<Rightarrow> res = Inl e \<and> rg_calls st' = rg_calls st \<and> rg_cache st' = rg_cache st \<and> rg_sink st' = rg_sink st) \<and>
    sink_events (rg_sink st') = sink_events (rg_sink st) @
      (case res of Inl _ \<Rightarrow> [] | Inr s \<Rightarrow> [sanctions_event (clk 2) c u (sr_Listed s)])"
  using Sanctions_audit[OF assms(3,2)] reg_gate(3)[OF assms(1)] assms(3)
  by (auto split: option.splits)

definition ex_sanction :: Evidence where
  "ex_sanction = \<lparr> ev_ProviderID = ''sanc'', ev_ProviderType = ProviderTypeSanctions, ev_Confidence = 1,
     ev_Data = [(''national_id'', DString ''ABC123''), (''listed'', DBool True), (''source'', DString ''list'')],
     ev_CheckedAt = 9, ev_Metadata = [] \<rparr>"

text \<open>A service with one provider of each type, both of which answer at once.\<close>

definition ex_orch2 :: Orchestrator where
  "ex_orch2 = Orchestrator_New [(''alt'', ProviderTypeCitizen), (''sanc'', ProviderTypeSanctions)] StrategyNone 0
     [(ProviderTypeCitizen, \<lparr> pc_Primary = ''alt'', pc_Secondary = [] \<rparr>),
      (ProviderTypeSanctions, \<lparr> pc_Primary = ''sanc'', pc_Secondary = [] \<rparr>)] []
     \<lparr> bo_InitialDelay = 0, bo_MaxDelay = 0, bo_MaxRetries = 0, bo_Multiplier = 0, bo_GlobalRetryBudget = 0 \<rparr>"

definition ex_world2 :: orch_env where
  "ex_world2 = ex_orch_env\<lparr> oe_answer := (\<lambda>oid filters k.
     if kv_get filters ''national_id'' = Some ''ABC123'' then Inr (if oid = ''alt'' then ex_evidence else ex_sanction)
     else Inl (RProvider (NewProviderError ErrorNotFound oid ''not found'' None))) \<rparr>"

definition ex_reg_env2 :: reg_env where
  "ex_reg_env2 = (ex_reg_env False)\<lparr> re_orch := ex_orch2, re_world := (\<lambda>_. ex_world2) \<rparr>"

theorem sanctions_gated_and_audited_witness:
  "\<exists>st'. Sanctions ex_reg_env2 (\<lambda>_. 30) (ex_consent_ctx 20) (UserID 1) ex_nid ex_reg_state =
       (st', Inr \<lparr> sr_NationalID = ''ABC123'', sr_Listed = True, sr_Source = ''list'', sr_CheckedAt = 9 \<rparr>) \<and>
     sink_events (rg_sink st') = [sanctions_event 30 (ex_consent_ctx 20) (UserID 1) True]"
proof -
  obtain st' res where r: "Sanctions ex_reg_env2 (\<lambda>_. 30) (ex_consent_ctx 20) (UserID 1) ex_nid ex_reg_state = (st', res)" by force
  have "snd (Sanctions ex_reg_env2 (\<lambda>_. 30) (ex_consent_ctx 20) (UserID 1) ex_nid ex_reg_state) =
      Inr \<lparr> sr_NationalID = ''ABC123'', sr_Listed = True, sr_Source = ''list'', sr_CheckedAt = 9 \<rparr>" by code_simp
  moreover have "re_consentPort ex_reg_env2" "re_auditor ex_reg_env2" "sink_events (rg_sink ex_reg_state) = []"
    by (simp_all add: ex_reg_env2_def ex_reg_env_def ex_reg_state_def)
  ultimately show ?thesis using sanctions_gated_and_audited[OF _ _ r] r by simp
qed

text \<open>The combined check, in contrast, never writes an audit event, although it returns a sanctions record.\<close>

lemma Check_not_audited: "rg_sink (fst (Check env clk c u nid st)) = rg_sink st"
proof -
  obtain st1 e where consent: "reg_requireConsent env c u st = (st1, e)" by force
  obtain st2 cit where f1: "find_citizen env clk nid st1 = (st2, cit)" by force
  obtain st3 san where f2: "find_sanction clk nid st2 = (st3, san)" by force
  have "rg_sink st1 = rg_sink st" using reg_requireConsent_frame[OF consent] by auto
  moreover have "rg_sink st2 = rg_sink st1" using f1
    by (auto simp: find_citizen_def Let_def case_prod_unfold split: option.splits)
  moreover have "rg_sink st3 = rg_sink st2" using find_sanction_frame[OF f2] by auto
  ultimately show ?thesis unfolding Check_def consent f1 f2 Let_def split_conv
    by (auto simp: f1 f2 cacheNewlyFetched_def save_citizen_def Let_def split: option.splits sum.splits prod.splits
        dest!: reg_lookup_frame)
qed

end
