(* ===== verification/VC.thy ===== *)
theory VC
  imports Reg_Service Calendar
begin

text \<open>
  Verifiable credentials (\<^verbatim>\<open>internal/evidence/vc\<close>): the value objects and the credential aggregate
  (\<^verbatim>\<open>domain\<close>), the models and their parsers, the in-memory store and the service, over the consent
  service and the registry service with the two adapters in between.

  A value of a claims map is a \<open>data_value\<close>. The text of a fresh UUID and \<^verbatim>\<open>uuid.Parse\<close> are
  parameters; so is the order in which \<^verbatim>\<open>range\<close> visits the credentials of the store. The events
  handed to the fire-and-forget publisher are kept in the order they were tracked.
\<close>

section \<open>Value objects\<close>

definition ErrInvalidIssuedAt :: go_error where
  "ErrInvalidIssuedAt = Errorf ''issued_at cannot be zero''"

definition ErrInvalidExpiresAt :: go_error where
  "ErrInvalidExpiresAt = Errorf ''expires_at cannot be zero''"

definition ErrExpiresBeforeIssued :: go_error where
  "ErrExpiresBeforeIssued = Errorf ''expires_at must be after issued_at''"

definition NewIssuedAt :: "time \<Rightarrow> time result" where
  "NewIssuedAt t = (if time_IsZero t then Inl ErrInvalidIssuedAt else Inr t)"

definition NewExpiresAt :: "time \<Rightarrow> time result" where
  "NewExpiresAt t = (if time_IsZero t then Inl ErrInvalidExpiresAt else Inr t)"

definition NewExpiresAtAfter :: "time \<Rightarrow> time \<Rightarrow> time result" where
  "NewExpiresAtAfter t issuedAt =
     (if time_IsZero t then Inl ErrInvalidExpiresAt
      else if \<not> issuedAt < t then Inl ErrExpiresBeforeIssued
      else Inr t)"

definition NoExpiration :: time where
  "NoExpiration = zero_time"

definition IsExpiredAt :: "time \<Rightarrow> time \<Rightarrow> bool" where
  "IsExpiredAt expiresAt now = (if time_IsZero expiresAt then False else expiresAt < now)"

lemma NoExpiration_never: "\<not> IsExpiredAt NoExpiration now"
  by (simp add: IsExpiredAt_def NoExpiration_def time_IsZero_def)

text \<open>A credential is not expired at its issuance, nor up to and including its expiry.\<close>

lemma NewExpiresAtAfter_lifetime:
  "NewExpiresAtAfter t issuedAt = Inr e \<Longrightarrow> e = t \<and> issuedAt < e \<and> (IsExpiredAt e now \<longleftrightarrow> e < now)"
  by (auto simp: NewExpiresAtAfter_def IsExpiredAt_def split: if_splits)

section \<open>Models\<close>

type_synonym CredentialType = string
type_synonym CredentialID = string
type_synonym Claims = "(string, data_value) kv"

definition CredentialTypeAgeOver18 :: CredentialType where
  "CredentialTypeAgeOver18 = ''AgeOver18''"

definition IssuerCredo :: string where
  "IssuerCredo = ''credo''"

definition VerifiedViaNationalRegistry :: string where
  "VerifiedViaNationalRegistry = ''national_registry''"

definition credentialIDPrefix :: string where
  "credentialIDPrefix = ''vc_''"

definition ParseCredentialType :: "string \<Rightarrow> CredentialType result" where
  "ParseCredentialType v =
     (if TrimSpace v = [] then Inl (dErrors_New CodeInvalidInput ''type is required'')
      else if v \<noteq> CredentialTypeAgeOver18 then Inl (dErrors_New CodeInvalidInput ''unsupported credential type'')
      else Inr v)"

definition NewCredentialID :: "string \<Rightarrow> CredentialID" where
  "NewCredentialID fresh = credentialIDPrefix @ fresh"

definition ParseCredentialID :: "(string \<Rightarrow> uuid option) \<Rightarrow> string \<Rightarrow> CredentialID result" where
  "ParseCredentialID uuid_Parse v =
     (if TrimSpace v = [] then Inl (dErrors_New CodeInvalidInput ''credential_id is required'')
      else if \<not> starts_with credentialIDPrefix v then Inl (dErrors_New CodeInvalidInput ''credential_id must start with vc_'')
      else case uuid_Parse (drop (length credentialIDPrefix) v) of
             None \<Rightarrow> Inl (dErrors_New CodeInvalidInput ''invalid credential_id format'')
           | Some _ \<Rightarrow> Inr v)"

record IssueRequest =
  IR_UserID :: UserID
  IR_Type :: CredentialType
  IR_NationalID :: NationalID

record CredentialRecord =
  CR_ID :: CredentialID
  CR_Type :: CredentialType
  CR_Subject :: UserID
  CR_Issuer :: string
  CR_IssuedAt :: time
  CR_Claims :: Claims

record VerifyResult =
  VR_Valid :: bool
  VR_Credential :: "CredentialRecord option"
  VR_Reason :: string

section \<open>The credential aggregate\<close>

text \<open>\<^verbatim>\<open>ClaimSet\<close> has one implementation.\<close>

datatype ClaimSet = AgeOver18Claims (isOver18: bool) (verifiedVia: string)

fun Claims_Minimized :: "ClaimSet \<Rightarrow> ClaimSet" where
  "Claims_Minimized (AgeOver18Claims over via) = AgeOver18Claims over []"

fun ToMap :: "ClaimSet \<Rightarrow> Claims" where
  "ToMap (AgeOver18Claims over via) =
     (let m = kv_put [] ''is_over_18'' (DBool over) in if via \<noteq> [] then kv_put m ''verified_via'' (DString via) else m)"

definition AgeOver18ClaimsFromMap :: "Claims \<Rightarrow> ClaimSet" where
  "AgeOver18ClaimsFromMap m =
     AgeOver18Claims (case kv_get m ''is_over_18'' of Some (DBool b) \<Rightarrow> b | _ \<Rightarrow> False)
       (case kv_get m ''verified_via'' of Some (DString s) \<Rightarrow> s | _ \<Rightarrow> [])"

definition claimsFromMap :: "CredentialType \<Rightarrow> Claims \<Rightarrow> ClaimSet result" where
  "claimsFromMap credType m =
     (if credType = CredentialTypeAgeOver18 then Inr (AgeOver18ClaimsFromMap m)
      else Inl (Errorf ''unknown credential type''))"

record Credential =
  cred_id :: CredentialID
  cred_credType :: CredentialType
  cred_subject :: UserID
  cred_issuer :: string
  cred_issuedAt :: time
  cred_claims :: ClaimSet
  cred_minimized :: bool

definition Credential_New ::
  "CredentialID \<Rightarrow> CredentialType \<Rightarrow> UserID \<Rightarrow> string \<Rightarrow> time \<Rightarrow> ClaimSet option \<Rightarrow> Credential result" where
  "Credential_New credentialID credType subject issuer issuedAt claims =
     (if credentialID = [] then Inl (Errorf ''credential_id is required'')
      else if UserID_IsNil subject then Inl (Errorf ''subject is required'')
      else if issuer = [] then Inl (Errorf ''issuer is required'')
      else if time_IsZero issuedAt then Inl (Errorf ''issued_at is required'')
      else case claims of
             None \<Rightarrow> Inl (Errorf ''claims cannot be nil'')
           | Some cs \<Rightarrow>
               Inr \<lparr> cred_id = credentialID, cred_credType = credType, cred_subject = subject, cred_issuer = issuer,
                 cred_issuedAt = issuedAt, cred_claims = cs, cred_minimized = False \<rparr>)"

definition Credential_Minimized :: "Credential \<Rightarrow> Credential" where
  "Credential_Minimized c =
     \<lparr> cred_id = cred_id c, cred_credType = cred_credType c, cred_subject = cred_subject c, cred_issuer = cred_issuer c,
       cred_issuedAt = cred_issuedAt c, cred_claims = Claims_Minimized (cred_claims c), cred_minimized = True \<rparr>"

definition ToModel :: "Credential \<Rightarrow> CredentialRecord" where
  "ToModel c =
     \<lparr> CR_ID = cred_id c, CR_Type = cred_credType c, CR_Subject = cred_subject c, CR_Issuer = cred_issuer c,
       CR_IssuedAt = cred_issuedAt c, CR_Claims = ToMap (cred_claims c) \<rparr>"

definition FromModel :: "CredentialRecord \<Rightarrow> Credential result" where
  "FromModel m =
     (case NewIssuedAt (CR_IssuedAt m) of
        Inl e \<Rightarrow> Inl e
      | Inr issuedAt \<Rightarrow>
          (case claimsFromMap (CR_Type m) (CR_Claims m) of
             Inl e \<Rightarrow> Inl e
           | Inr claims \<Rightarrow> Credential_New (CR_ID m) (CR_Type m) (CR_Subject m) (CR_Issuer m) issuedAt (Some claims)))"

section \<open>The in-memory store\<close>

type_synonym vc_store = "(string, CredentialRecord) kv"

definition VCStore_Save :: "CredentialRecord \<Rightarrow> vc_store \<Rightarrow> vc_store" where
  "VCStore_Save credential s = kv_put s (CR_ID credential) credential"

definition VCStore_FindByID :: "CredentialID \<Rightarrow> vc_store \<Rightarrow> CredentialRecord result" where
  "VCStore_FindByID i s = (case kv_get s i of Some vc \<Rightarrow> Inr vc | None \<Rightarrow> Inl (Sentinel ErrNotFound))"

text \<open>The loop of \<^verbatim>\<open>FindBySubjectAndType\<close>: a later credential replaces the one found so far.\<close>

fun latest :: "UserID \<Rightarrow> CredentialType \<Rightarrow> CredentialRecord list \<Rightarrow> CredentialRecord option \<Rightarrow> CredentialRecord option" where
  "latest subject credType [] found = found"
| "latest subject credType (c # cs) found =
     (if CR_Subject c = subject \<and> CR_Type c = credType
      then latest subject credType cs
        (case found of None \<Rightarrow> Some c | Some f \<Rightarrow> if CR_IssuedAt f < CR_IssuedAt c then Some c else Some f)
      else latest subject credType cs found)"

definition VCStore_FindBySubjectAndType ::
  "(CredentialRecord list \<Rightarrow> CredentialRecord list) \<Rightarrow> UserID \<Rightarrow> CredentialType \<Rightarrow> vc_store \<Rightarrow> CredentialRecord result" where
  "VCStore_FindBySubjectAndType range_order subject credType s =
     (case latest subject credType (range_order (kv_values s)) None of
        None \<Rightarrow> Inl (Sentinel ErrNotFound)
      | Some c \<Rightarrow> Inr c)"

section \<open>The service\<close>

record vc_env =
  ve_reg :: reg_env
  ve_consentPort :: bool
  ve_auditor :: bool
  ve_regulated :: bool
  ve_range :: "CredentialRecord list \<Rightarrow> CredentialRecord list"
  ve_uuid_String :: "uuid \<Rightarrow> string"

record vc_state =
  vs_registry :: reg_state
  vs_store :: vc_store
  vs_tracked :: "OpsEvent list"

definition validateIssueRequest :: "IssueRequest \<Rightarrow> go_error option" where
  "validateIssueRequest req =
     (if UserID_IsNil (IR_UserID req) then Some (dErrors_New CodeUnauthorized ''user ID required'')
      else if IR_Type req \<noteq> CredentialTypeAgeOver18 then Some (dErrors_New CodeBadRequest ''invalid credential type'')
      else if NationalID_IsNil (IR_NationalID req) then Some (dErrors_New CodeBadRequest ''national_id is required'')
      else None)"

definition sanitizeExternalError :: "go_error \<Rightarrow> string \<Rightarrow> go_error" where
  "sanitizeExternalError err msg =
     (case errors_As err of
        Some (code, _) \<Rightarrow> if code = CodeInternal then dErrors_New CodeInternal msg else err
      | None \<Rightarrow> dErrors_Wrap err CodeInternal msg)"

definition requireVCIssuanceConsent :: "vc_env \<Rightarrow> ctx \<Rightarrow> UserID \<Rightarrow> vc_state \<Rightarrow> vc_state \<times> go_error option" where
  "requireVCIssuanceConsent env c userID st =
     (if \<not> ve_consentPort env then (st, Some (dErrors_New CodeInternal ''consent service unavailable''))
      else let (cs, e) = Require c userID ConsentPurposeVCIssuance (rg_consent (vs_registry st));
               st = st\<lparr> vs_registry := (vs_registry st)\<lparr> rg_consent := cs \<rparr> \<rparr>
           in (st, map_option (\<lambda>e. sanitizeExternalError e ''consent check failed'') e))"

definition fetchCitizenRecord ::
  "vc_env \<Rightarrow> ctx \<Rightarrow> IssueRequest \<Rightarrow> vc_state \<Rightarrow> vc_state \<times> CitizenContractRecord result" where
  "fetchCitizenRecord env c req st =
     (let (rs, r) = CitizenContract (ve_reg env) c (IR_UserID req) (IR_NationalID req) (vs_registry st);
          st = st\<lparr> vs_registry := rs \<rparr>
      in case r of
           Inl e \<Rightarrow> (st, Inl (sanitizeExternalError e ''registry lookup failed''))
         | Inr record \<Rightarrow>
             if \<not> ccr_Valid record then (st, Inl (dErrors_New CodeBadRequest ''invalid citizen record''))
             else (st, Inr record))"

definition buildCredentialModel ::
  "vc_env \<Rightarrow> string \<Rightarrow> IssueRequest \<Rightarrow> CitizenContractRecord \<Rightarrow> time \<Rightarrow> CredentialRecord result" where
  "buildCredentialModel env fresh req record now =
     (case parse_date (ccr_DateOfBirth record) of
        None \<Rightarrow> Inl (dErrors_New CodeBadRequest ''invalid citizen record'')
      | Some birthDate \<Rightarrow>
          if \<not> IsOver18 birthDate now then Inl (dErrors_New CodeBadRequest ''User does not meet age requirement'')
          else let claims = AgeOver18Claims True VerifiedViaNationalRegistry
               in case NewIssuedAt now of
                    Inl e \<Rightarrow> Inl (dErrors_Wrap e CodeInternal ''failed to create issuance timestamp'')
                  | Inr issuedAt \<Rightarrow>
                      (case Credential_New (NewCredentialID fresh) (IR_Type req) (IR_UserID req) IssuerCredo issuedAt (Some claims) of
                         Inl e \<Rightarrow> Inl (dErrors_Wrap e CodeInternal ''failed to create credential'')
                       | Inr cred \<Rightarrow> Inr (ToModel (if ve_regulated env then Credential_Minimized cred else cred))))"

text \<open>The body the two audit helpers share.\<close>

definition vc_track :: "vc_env \<Rightarrow> ctx \<Rightarrow> string \<Rightarrow> CredentialRecord \<Rightarrow> vc_state \<Rightarrow> vc_state" where
  "vc_track env c action credential st =
     (if \<not> ve_auditor env then st
      else st\<lparr> vs_tracked := vs_tracked st @
        [\<lparr> OE_Timestamp = zero_time, OE_Subject = (case CR_Subject credential of UserID u \<Rightarrow> ve_uuid_String env u),
           OE_Action = action, OE_RequestID = ctx_RequestID c \<rparr>] \<rparr>)"

definition Issue :: "vc_env \<Rightarrow> string \<Rightarrow> ctx \<Rightarrow> IssueRequest \<Rightarrow> vc_state \<Rightarrow> vc_state \<times> CredentialRecord result" where
  "Issue env fresh c req st =
     (case validateIssueRequest req of
        Some e \<Rightarrow> (st, Inl e)
      | None \<Rightarrow>
          (case requireVCIssuanceConsent env c (IR_UserID req) st of
             (st, Some e) \<Rightarrow> (st, Inl e)
           | (st, None) \<Rightarrow>
               (case fetchCitizenRecord env c req st of
                  (st, Inl e) \<Rightarrow> (st, Inl e)
                | (st, Inr record) \<Rightarrow>
                    (case buildCredentialModel env fresh req record (ctx_Now c) of
                       Inl e \<Rightarrow> (st, Inl e)
                     | Inr vcModel \<Rightarrow>
                         (vc_track env c ''vc_issued'' vcModel (st\<lparr> vs_store := VCStore_Save vcModel (vs_store st) \<rparr>), Inr vcModel)))))"

definition Verify :: "vc_env \<Rightarrow> ctx \<Rightarrow> CredentialID \<Rightarrow> vc_state \<Rightarrow> vc_state \<times> VerifyResult result" where
  "Verify env c credentialID st =
     (if credentialID = [] then (st, Inl (dErrors_New CodeBadRequest ''credential_id is required''))
      else case VCStore_FindByID credentialID (vs_store st) of
             Inl e \<Rightarrow> (st, Inl (if errors_Is e (Sentinel ErrNotFound) then dErrors_New CodeNotFound ''credential not found''
                              else dErrors_Wrap e CodeInternal ''failed to retrieve credential''))
           | Inr cred \<Rightarrow>
               (vc_track env c ''vc_verified'' cred st, Inr \<lparr> VR_Valid = True, VR_Credential = Some cred, VR_Reason = [] \<rparr>))"

record CredentialPresence =
  CP_Exists :: bool
  CP_Claims :: Claims

definition FindCredentialPresence ::
  "vc_env \<Rightarrow> UserID \<Rightarrow> CredentialType \<Rightarrow> vc_state \<Rightarrow> CredentialPresence result" where
  "FindCredentialPresence env userID credType st =
     (case VCStore_FindBySubjectAndType (ve_range env) userID credType (vs_store st) of
        Inl e \<Rightarrow> if errors_Is e (Sentinel ErrNotFound) then Inr \<lparr> CP_Exists = False, CP_Claims = [] \<rparr> else Inl e
      | Inr record \<Rightarrow> Inr \<lparr> CP_Exists = True, CP_Claims = CR_Claims record \<rparr>)"

section \<open>Credentials survive persistence\<close>

lemma ToMap_roundtrip: "AgeOver18ClaimsFromMap (ToMap cs) = cs"
  by (cases cs) (simp add: AgeOver18ClaimsFromMap_def Let_def kv_simps)

text \<open>\<^bold>\<open>C19\<close> A credential read back from the model it was stored as is the same credential, and a
  minimised one stays without the source of its verification; only the mark that it was minimised is not
  part of the model. The model of a minimised credential has no claim but the verdict on the age.\<close>

theorem credential_roundtrip:
  assumes "Credential_New i CredentialTypeAgeOver18 u issuer t (Some cs) = Inr c"
  shows "FromModel (ToModel c) = Inr c \<and>
    FromModel (ToModel (Credential_Minimized c)) = Inr ((Credential_Minimized c)\<lparr> cred_minimized := False \<rparr>) \<and>
    CR_Claims (ToModel (Credential_Minimized c)) = [(''is_over_18'', DBool (isOver18 cs))]"
  using assms
  by (cases cs) (auto simp: Credential_New_def FromModel_def ToModel_def NewIssuedAt_def claimsFromMap_def ToMap_roundtrip
      Credential_Minimized_def AgeOver18ClaimsFromMap_def Let_def kv_simps split: if_splits)

theorem credential_roundtrip_witness:
  "\<exists>c. Credential_New ''vc_1'' CredentialTypeAgeOver18 (UserID 1) IssuerCredo 10
       (Some (AgeOver18Claims True VerifiedViaNationalRegistry)) = Inr c \<and>
     FromModel (ToModel c) = Inr c \<and> cred_claims c = AgeOver18Claims True ''national_registry''"
proof -
  let ?c = "\<lparr> cred_id = ''vc_1'', cred_credType = CredentialTypeAgeOver18, cred_subject = UserID 1, cred_issuer = IssuerCredo,
    cred_issuedAt = 10, cred_claims = AgeOver18Claims True VerifiedViaNationalRegistry, cred_minimized = False \<rparr>"
  have "Credential_New ''vc_1'' CredentialTypeAgeOver18 (UserID 1) IssuerCredo 10
       (Some (AgeOver18Claims True VerifiedViaNationalRegistry)) = Inr ?c" by code_simp
  from credential_roundtrip[OF this] this show ?thesis by (simp add: VerifiedViaNationalRegistry_def)
qed

section \<open>Issuance\<close>

text \<open>What a request has to meet, over the dates in UTC of its time and of the birth.\<close>

definition vc_consented :: "ctx \<Rightarrow> UserID \<Rightarrow> vc_state \<Rightarrow> reg_state" where
  "vc_consented c u st =
     (vs_registry st)\<lparr> rg_consent := fst (Require c u ConsentPurposeVCIssuance (rg_consent (vs_registry st))) \<rparr>"

definition adult_citizen :: "time \<Rightarrow> CitizenContractRecord \<Rightarrow> bool" where
  "adult_citizen now r =
     (ccr_Valid r \<and>
      (case parse_date (ccr_DateOfBirth r) of
         None \<Rightarrow> False
       | Some birth \<Rightarrow> \<not> date_before (date_of now) (birthday18 (date_of birth))))"

definition issue_allowed :: "vc_env \<Rightarrow> ctx \<Rightarrow> IssueRequest \<Rightarrow> vc_state \<Rightarrow> bool" where
  "issue_allowed env c req st =
     (\<not> UserID_IsNil (IR_UserID req) \<and> IR_Type req = CredentialTypeAgeOver18 \<and> \<not> NationalID_IsNil (IR_NationalID req) \<and>
      ve_consentPort env \<and> consented c (IR_UserID req) ConsentPurposeVCIssuance (vs_registry st) \<and>
      (re_consentPort (ve_reg env) \<longrightarrow> consented c (IR_UserID req) ConsentPurposeRegistryCheck (vs_registry st)) \<and>
      (case citizen_evidence (ve_reg env) (IR_NationalID req) (rg_lookups (vs_registry st)) of
         Inl _ \<Rightarrow> False
       | Inr r \<Rightarrow> adult_citizen (ctx_Now c) r))"

lemma vc_citizen:
  "(case snd (CitizenContract (ve_reg env) c u nid (vc_consented c u st)) of Inl _ \<Rightarrow> False | Inr r \<Rightarrow> P r) \<longleftrightarrow>
     (re_consentPort (ve_reg env) \<longrightarrow> consented c u ConsentPurposeRegistryCheck (vs_registry st)) \<and>
     (case citizen_evidence (ve_reg env) nid (rg_lookups (vs_registry st)) of Inl _ \<Rightarrow> False | Inr r \<Rightarrow> P r)"
proof -
  have "consents (vc_consented c u st) = consents (vs_registry st)" "rg_lookups (vc_consented c u st) = rg_lookups (vs_registry st)"
    by (simp_all add: vc_consented_def consents_def)
  then show ?thesis
    using consented_cong[of "vc_consented c u st" "vs_registry st" c u ConsentPurposeRegistryCheck]
      CitizenContract_evidence[of "ve_reg env" c u "vc_consented c u st" nid]
      CitizenContract_refused[of "ve_reg env" c u "vc_consented c u st" nid] by (cases "re_consentPort (ve_reg env)") auto
qed

lemma issue_allowed_eq:
  "issue_allowed env c req st \<longleftrightarrow>
     \<not> UserID_IsNil (IR_UserID req) \<and> IR_Type req = CredentialTypeAgeOver18 \<and> \<not> NationalID_IsNil (IR_NationalID req) \<and>
      ve_consentPort env \<and> snd (Require c (IR_UserID req) ConsentPurposeVCIssuance (rg_consent (vs_registry st))) = None \<and>
      (case snd (CitizenContract (ve_reg env) c (IR_UserID req) (IR_NationalID req) (vc_consented c (IR_UserID req) st)) of
         Inl _ \<Rightarrow> False
       | Inr r \<Rightarrow> adult_citizen (ctx_Now c) r)"
  unfolding vc_citizen by (auto simp: issue_allowed_def consented_def)

definition issued :: "vc_env \<Rightarrow> string \<Rightarrow> ctx \<Rightarrow> IssueRequest \<Rightarrow> CredentialRecord" where
  "issued env fresh c req =
     \<lparr> CR_ID = NewCredentialID fresh, CR_Type = ''AgeOver18'', CR_Subject = IR_UserID req, CR_Issuer = ''credo'',
       CR_IssuedAt = ctx_Now c,
       CR_Claims = (if ve_regulated env then [(''is_over_18'', DBool True)]
                    else [(''is_over_18'', DBool True), (''verified_via'', DString ''national_registry'')]) \<rparr>"

lemma NewCredentialID_simps [simp]: "NewCredentialID fresh \<noteq> []" "NewCredentialID fresh = NewCredentialID fresh' \<longleftrightarrow> fresh = fresh'"
  by (simp_all add: NewCredentialID_def credentialIDPrefix_def)

lemma buildCredentialModel_eq:
  assumes "\<not> time_IsZero now" "now = ctx_Now c" "\<not> UserID_IsNil (IR_UserID req)" "IR_Type req = CredentialTypeAgeOver18" "ccr_Valid r"
  shows "if adult_citizen now r then buildCredentialModel env fresh req r now = Inr (issued env fresh c req)
         else \<exists>e. buildCredentialModel env fresh req r now = Inl e"
  using assms IsOver18_dates[OF parse_date_midnight]
  by (auto simp: buildCredentialModel_def adult_citizen_def NewIssuedAt_def Credential_New_def NewCredentialID_simps
      IssuerCredo_def CredentialTypeAgeOver18_def VerifiedViaNationalRegistry_def issued_def ToModel_def
      Credential_Minimized_def Let_def split: option.splits)

lemma vc_track_simps [simp]:
  "vs_store (vc_track env c a cr st) = vs_store st" "vs_registry (vc_track env c a cr st) = vs_registry st"
  by (simp_all add: vc_track_def)

lemma Issue_eq:
  assumes "Issue env fresh c req st = (st', res)" and "\<not> time_IsZero (ctx_Now c)"
  shows "if issue_allowed env c req st
    then res = Inr (issued env fresh c req) \<and> vs_store st' = kv_put (vs_store st) (NewCredentialID fresh) (issued env fresh c req)
    else (\<exists>e. res = Inl e) \<and> vs_store st' = vs_store st \<and> vs_tracked st' = vs_tracked st"
proof -
  let ?u = "IR_UserID req"
  obtain rs r where cc: "CitizenContract (ve_reg env) c ?u (IR_NationalID req) (vc_consented c ?u st) = (rs, r)" by force
  have "CR_ID (issued env fresh c req) = NewCredentialID fresh" by (simp add: issued_def)
  note defs = Issue_def validateIssueRequest_def requireVCIssuanceConsent_def fetchCitizenRecord_def issue_allowed_eq
    VCStore_Save_def Let_def case_prod_unfold vc_consented_def[symmetric] cc this
  show ?thesis
  proof (cases "snd (Require c ?u ConsentPurposeVCIssuance (rg_consent (vs_registry st))) = None \<and> (\<exists>x. r = Inr x \<and> ccr_Valid x)
      \<and> \<not> UserID_IsNil ?u \<and> IR_Type req = CredentialTypeAgeOver18")
    case True
    then obtain x where x: "r = Inr x" "ccr_Valid x" "\<not> UserID_IsNil ?u" "IR_Type req = CredentialTypeAgeOver18" by blast
    show ?thesis using assms(1) True x(1,2) buildCredentialModel_eq[OF assms(2) refl x(3,4,2), of env fresh]
      by (auto simp: defs split: if_splits) metis
  next
    case False
    then show ?thesis using assms(1) by (auto simp: defs adult_citizen_def split: if_splits sum.splits option.splits)
  qed
qed

text \<open>\<^bold>\<open>C10\<close> A credential that says its subject is over 18 is issued exactly when the request names a
  user, the supported type and a national id, the user's consents for issuance and for registry checks are
  in force (the latter if the registry service has a consent port), the lookup filtered by the national id
  of the request yields a valid citizen record, and the date of birth in it can be read and lies, in UTC, eighteen years back, where a leap day counts as the first of
  March of a year without one. The credential then is stored under its id, with exactly the claims of the
  mode of the service. In every other case an error is returned and no credential is stored.\<close>

theorem vc_issue_exact:
  assumes "Issue env fresh c req st = (st', res)" and "\<not> time_IsZero (ctx_Now c)"
  shows "if issue_allowed env c req st
    then res = Inr (issued env fresh c req) \<and> vs_store st' = kv_put (vs_store st) (NewCredentialID fresh) (issued env fresh c req)
    else (\<exists>e. res = Inl e) \<and> vs_store st' = vs_store st \<and> vs_tracked st' = vs_tracked st"
  using assms by (rule Issue_eq)

definition ex_now :: time where
  "ex_now = 1600000000 * 1000000000"

definition ex_vc_env :: "bool \<Rightarrow> vc_env" where
  "ex_vc_env regulated = \<lparr> ve_reg = ex_reg_env2, ve_consentPort = True, ve_auditor = True, ve_regulated = regulated,
     ve_range = rev, ve_uuid_String = (\<lambda>_. ''u'') \<rparr>"

definition ex_vc_state :: vc_state where
  "ex_vc_state = \<lparr> vs_registry = ex_reg_state\<lparr> rg_consent := fst (Grant ex_consent_cfg (\<lambda>sc _. if Scope_Purpose sc = ConsentPurposeRegistryCheck then 7 else 8)
       (ex_consent_ctx (ex_now - 10)) (UserID 1) [ConsentPurposeRegistryCheck, ConsentPurposeVCIssuance] consent_init) \<rparr>,
     vs_store = [], vs_tracked = [] \<rparr>"

definition ex_issue :: IssueRequest where
  "ex_issue = \<lparr> IR_UserID = UserID 1, IR_Type = ''AgeOver18'', IR_NationalID = ex_nid \<rparr>"

lemma ex_issue_allowed: "issue_allowed (ex_vc_env b) (ex_consent_ctx ex_now) ex_issue ex_vc_state"
  by code_simp

theorem vc_issue_exact_witness:
  "\<exists>st'. Issue (ex_vc_env True) ''1'' (ex_consent_ctx ex_now) ex_issue ex_vc_state =
     (st', Inr \<lparr> CR_ID = ''vc_1'', CR_Type = ''AgeOver18'', CR_Subject = UserID 1, CR_Issuer = ''credo'',
       CR_IssuedAt = ex_now, CR_Claims = [(''is_over_18'', DBool True)] \<rparr>)"
proof -
  have z: "\<not> time_IsZero (ctx_Now (ex_consent_ctx ex_now))" by code_simp
  from vc_issue_exact[OF prod.collapse[symmetric] z, where env = "ex_vc_env True" and fresh = "''1''" and req = ex_issue and st = ex_vc_state] ex_issue_allowed[of True]
  show ?thesis by (auto simp: issued_def ex_vc_env_def ex_issue_def prod_eq_iff NewCredentialID_def credentialIDPrefix_def)
qed

section \<open>Issued credentials verify\<close>

datatype vc_call = CallIssue vc_env string ctx IssueRequest | CallVerify vc_env ctx CredentialID

fun vc_do :: "vc_call \<Rightarrow> vc_state \<Rightarrow> vc_state" where
  "vc_do (CallIssue env fresh c req) st = fst (Issue env fresh c req st)"
| "vc_do (CallVerify env c i) st = fst (Verify env c i st)"

text \<open>A request has a time; the text of a UUID is not drawn again.\<close>

fun call_timed :: "vc_call \<Rightarrow> bool" where
  "call_timed (CallIssue _ _ c _) = (\<not> time_IsZero (ctx_Now c))"
| "call_timed (CallVerify _ _ _) = True"

fun draws :: "string \<Rightarrow> vc_call \<Rightarrow> bool" where
  "draws fresh (CallIssue _ fresh' _ _) = (fresh' = fresh)"
| "draws fresh (CallVerify _ _ _) = False"

text \<open>Every credential of the store has the id it is stored under and says that its subject is over 18.\<close>

definition vc_ok :: "vc_store \<Rightarrow> bool" where
  "vc_ok s = (kv_ok s \<and> (\<forall>i r. kv_get s i = Some r \<longrightarrow> CR_ID r = i \<and> kv_get (CR_Claims r) ''is_over_18'' = Some (DBool True)))"

lemma Verify_store [simp]: "vs_store (fst (Verify env c i st)) = vs_store st"
  by (simp add: Verify_def split: sum.split)

lemma Issue_store:
  assumes "\<not> time_IsZero (ctx_Now c)"
  shows "vs_store (fst (Issue env fresh c req st)) \<in>
    {vs_store st, kv_put (vs_store st) (NewCredentialID fresh) (issued env fresh c req)}"
  using Issue_eq[OF prod.collapse[symmetric] assms, where env = env and fresh = fresh and req = req and st = st] by (auto split: if_splits)

lemma kv_get_issued: "kv_get (CR_Claims (issued env fresh c req)) ''is_over_18'' = Some (DBool True)"
  by (simp add: issued_def kv_simps)

lemma vc_ok_put: "vc_ok s \<Longrightarrow> vc_ok (kv_put s (NewCredentialID fresh) (issued env fresh c req))"
  by (auto simp: vc_ok_def kv_simps kv_get_issued) (simp_all add: issued_def)

lemma vc_do_ok: "vc_ok (vs_store st) \<Longrightarrow> call_timed call \<Longrightarrow> vc_ok (vs_store (vc_do call st))"
  using Issue_store vc_ok_put by (cases call) (simp, metis insertE singletonD, simp)

lemma vc_run_ok: "vc_ok (vs_store st) \<Longrightarrow> list_all call_timed calls \<Longrightarrow> vc_ok (vs_store (fold vc_do calls st))"
  by (induction calls arbitrary: st) (simp_all add: vc_do_ok)

lemma vc_do_keeps:
  assumes "call_timed call" "\<not> draws fresh call" "kv_get (vs_store st) (NewCredentialID fresh) = Some r"
  shows "kv_get (vs_store (vc_do call st)) (NewCredentialID fresh) = Some r"
proof (cases call)
  case (CallIssue env f c req)
  then have "\<not> time_IsZero (ctx_Now c)" using assms(1) by simp
  from Issue_store[OF this, of env f req st] CallIssue assms(2,3) show ?thesis by (auto simp: kv_simps)
qed (use assms in simp)

lemma vc_run_keeps:
  assumes "list_all (\<lambda>call. call_timed call \<and> \<not> draws fresh call) calls" "kv_get (vs_store st) (NewCredentialID fresh) = Some r"
  shows "kv_get (vs_store (fold vc_do calls st)) (NewCredentialID fresh) = Some r"
  using assms by (induction calls arbitrary: st) (simp_all add: vc_do_keeps)

lemma latest_spec:
  "case latest u t cs found of
     None \<Rightarrow> found = None \<and> (\<forall>c \<in> set cs. \<not> (CR_Subject c = u \<and> CR_Type c = t))
   | Some r \<Rightarrow> (found = Some r \<or> r \<in> set cs \<and> CR_Subject r = u \<and> CR_Type r = t) \<and>
       (\<forall>c \<in> set cs \<union> set_option found. (found = Some c \<or> CR_Subject c = u \<and> CR_Type c = t) \<longrightarrow> CR_IssuedAt c \<le> CR_IssuedAt r)"
proof (induction u t cs found rule: latest.induct)
  case (1 u t found)
  then show ?case by (cases found) auto
next
  case (2 u t c cs found)
  show ?case
  proof (cases "CR_Subject c = u \<and> CR_Type c = t")
    case True
    with 2(1)[OF True] show ?thesis by (cases found) (auto split: option.splits if_splits)
  next
    case False
    with 2(2)[OF False] show ?thesis by (auto split: option.splits)
  qed
qed

lemma kv_values_issued:
  "vc_ok s \<Longrightarrow> r \<in> set (kv_values s) \<Longrightarrow> kv_get (CR_Claims r) ''is_over_18'' = Some (DBool True)"
  by (auto simp: vc_ok_def kv_values_iff)

text \<open>\<^bold>\<open>C11\<close> An issued credential stays verifiable and visible: after it was issued on a service that
  started with an empty store, and after any later run of issuances, to whomever, and verifications in
  which the text of its UUID is not drawn again, \<^verbatim>\<open>Verify\<close> reports it valid with its exact content, and
  \<^verbatim>\<open>FindCredentialPresence\<close> reports for its subject a credential that says the subject is over 18,
  whatever the order in which the store is traversed.\<close>

theorem issued_verifies:
  assumes "vs_store st0 = []" and "list_all call_timed before" and "\<not> time_IsZero (ctx_Now c)"
    and "Issue env fresh c req (fold vc_do before st0) = (st1, Inr cr)"
    and "list_all (\<lambda>call. call_timed call \<and> \<not> draws fresh call) after"
    and "\<forall>xs. set (ve_range env' xs) = set xs"
  shows "snd (Verify env' c' (CR_ID cr) (fold vc_do after st1)) =
      Inr \<lparr> VR_Valid = True, VR_Credential = Some cr, VR_Reason = [] \<rparr> \<and>
    (\<exists>claims. FindCredentialPresence env' (IR_UserID req) CredentialTypeAgeOver18 (fold vc_do after st1) =
        Inr \<lparr> CP_Exists = True, CP_Claims = claims \<rparr> \<and> kv_get claims ''is_over_18'' = Some (DBool True))"
proof -
  let ?st = "fold vc_do after st1"
  have ok0: "vc_ok (vs_store (fold vc_do before st0))" using assms(1,2) by (intro vc_run_ok) (simp_all add: vc_ok_def kv_simps)
  have cr: "cr = issued env fresh c req" and get1: "kv_get (vs_store st1) (NewCredentialID fresh) = Some cr"
    using Issue_eq[OF assms(4,3)] by (auto simp: kv_simps split: if_splits)
  have "vc_ok (vs_store st1)" using vc_do_ok[OF ok0, of "CallIssue env fresh c req"] assms(3,4) by simp
  moreover have "list_all call_timed after" using assms(5) by (auto simp: list_all_iff)
  ultimately have ok: "vc_ok (vs_store ?st)" by (rule vc_run_ok)
  have get: "kv_get (vs_store ?st) (NewCredentialID fresh) = Some cr" by (rule vc_run_keeps[OF assms(5) get1])
  have fields: "CR_ID cr = NewCredentialID fresh" "CR_Subject cr = IR_UserID req" "CR_Type cr = CredentialTypeAgeOver18"
    by (simp_all add: cr issued_def CredentialTypeAgeOver18_def)
  have mem: "cr \<in> set (ve_range env' (kv_values (vs_store ?st)))"
    using get ok assms(6) by (auto simp: kv_values_iff vc_ok_def)
  note found = latest_spec[where u = "IR_UserID req" and t = CredentialTypeAgeOver18
      and cs = "ve_range env' (kv_values (vs_store ?st))" and found = None]
  from mem obtain r where r: "latest (IR_UserID req) CredentialTypeAgeOver18 (ve_range env' (kv_values (vs_store ?st))) None = Some r"
    using found fields
    by (auto split: option.splits)
  then have "r \<in> set (kv_values (vs_store ?st))"
    using found assms(6) by simp
  then have "kv_get (CR_Claims r) ''is_over_18'' = Some (DBool True)" by (rule kv_values_issued[OF ok])
  then show ?thesis
    by (simp add: Verify_def VCStore_FindByID_def get fields FindCredentialPresence_def VCStore_FindBySubjectAndType_def r)
qed


theorem issued_verifies_witness:
  "\<exists>st1 cr. Issue (ex_vc_env False) ''1'' (ex_consent_ctx ex_now) ex_issue (fold vc_do [] ex_vc_state) = (st1, Inr cr) \<and>
     snd (Verify (ex_vc_env False) (ex_consent_ctx ex_now) (CR_ID cr)
       (fold vc_do [CallIssue (ex_vc_env True) ''2'' (ex_consent_ctx ex_now) ex_issue] st1)) =
       Inr \<lparr> VR_Valid = True, VR_Credential = Some cr, VR_Reason = [] \<rparr>"
proof -
  let ?c = "ex_consent_ctx ex_now"
  have z: "\<not> time_IsZero (ctx_Now ?c)" by code_simp
  obtain st1 where i: "Issue (ex_vc_env False) ''1'' ?c ex_issue (fold vc_do [] ex_vc_state) = (st1, Inr (issued (ex_vc_env False) ''1'' ?c ex_issue))"
    using Issue_eq[OF prod.collapse[symmetric] z, where env = "ex_vc_env False" and fresh = "''1''" and req = ex_issue and st = ex_vc_state]
      ex_issue_allowed[of False] by (auto simp: prod_eq_iff)
  have "list_all (\<lambda>call. call_timed call \<and> \<not> draws ''1'' call) [CallIssue (ex_vc_env True) ''2'' ?c ex_issue]"
    using z by simp
  from issued_verifies[OF _ _ z i this, of "ex_vc_env False" ?c] i show ?thesis
    by (auto simp: ex_vc_state_def ex_vc_env_def)
qed

end
