(* ===== verification/Decision.thy ===== *)
theory Decision
  imports VC
begin

text \<open>
  The decision engine (\<^verbatim>\<open>internal/decision\<close>): models, rules, the gathering of evidence and the service,
  over the consent service, the registry service and the credential service, with the three adapters in
  between.

  The fetches of one evaluation run in goroutines whose calls interleave inside the registry service: a
  step is one call of the consent service, of the orchestrator, of the cache, of the publisher or of the
  credential store, and the parameter \<open>de_schedule\<close> picks the goroutine that makes the next step, in any
  order; what then is left of the goroutines runs to its end, since the group waits for all of them. The
  first fetch that fails decides the error and cancels the context of the others: \<open>de_cancel\<close> says which
  of them notice it, and where. The deadline of five seconds acts through the answers of the providers. SHA-256 is the
  parameter \<open>de_sha256\<close>, in hexadecimal. Latencies, metrics and logs are left out.
\<close>

section \<open>Models\<close>

datatype DecisionOutcome = DecisionPass | DecisionPassWithConditions | DecisionFail

fun DecisionOutcome_String :: "DecisionOutcome \<Rightarrow> string" where
  "DecisionOutcome_String DecisionPass = ''pass''"
| "DecisionOutcome_String DecisionPassWithConditions = ''pass_with_conditions''"
| "DecisionOutcome_String DecisionFail = ''fail''"

datatype DecisionReason =
    ReasonAllChecksPassed | ReasonSanctioned | ReasonInvalidCitizen | ReasonUnderage | ReasonMissingCredential
  | ReasonNotSanctioned | ReasonEmpty

fun DecisionReason_String :: "DecisionReason \<Rightarrow> string" where
  "DecisionReason_String ReasonAllChecksPassed = ''all_checks_passed''"
| "DecisionReason_String ReasonSanctioned = ''sanctioned''"
| "DecisionReason_String ReasonInvalidCitizen = ''invalid_citizen''"
| "DecisionReason_String ReasonUnderage = ''underage''"
| "DecisionReason_String ReasonMissingCredential = ''missing_credential''"
| "DecisionReason_String ReasonNotSanctioned = ''not_sanctioned''"
| "DecisionReason_String ReasonEmpty = []"

type_synonym Purpose = string

definition PurposeAgeVerification :: Purpose where
  "PurposeAgeVerification = ''age_verification''"

definition PurposeSanctionsScreening :: Purpose where
  "PurposeSanctionsScreening = ''sanctions_screening''"

definition ParsePurpose :: "string \<Rightarrow> Purpose result" where
  "ParsePurpose s =
     (if s = PurposeAgeVerification \<or> s = PurposeSanctionsScreening then Inr s
      else Inl (dErrors_New CodeBadRequest ''unsupported purpose: must be age_verification or sanctions_screening''))"

record DerivedIdentity =
  di_PseudonymousID :: UserID
  di_IsOver18 :: bool
  di_CitizenValid :: bool

record DecisionInput =
  in_Identity :: DerivedIdentity
  in_Sanctions :: bool
  in_Credential :: Claims

definition IsSanctioned :: "DecisionInput \<Rightarrow> bool" where
  "IsSanctioned i = in_Sanctions i"

definition IsCitizenValid :: "DecisionInput \<Rightarrow> bool" where
  "IsCitizenValid i = di_CitizenValid (in_Identity i)"

definition IsOfLegalAge :: "DecisionInput \<Rightarrow> bool" where
  "IsOfLegalAge i = di_IsOver18 (in_Identity i)"

definition deriveIsOver18 :: "string \<Rightarrow> time \<Rightarrow> bool" where
  "deriveIsOver18 dob now =
     (if dob = [] then False
      else case parse_date dob of None \<Rightarrow> False | Some birthDate \<Rightarrow> IsOver18 birthDate now)"

definition DerivedIdentityFromCitizen :: "UserID \<Rightarrow> CitizenContractRecord \<Rightarrow> time \<Rightarrow> DerivedIdentity" where
  "DerivedIdentityFromCitizen userID citizen now =
     \<lparr> di_PseudonymousID = userID, di_IsOver18 = deriveIsOver18 (ccr_DateOfBirth citizen) now,
       di_CitizenValid = ccr_Valid citizen \<rparr>"

record EvaluateRequest =
  ER_UserID :: UserID
  ER_Purpose :: Purpose
  ER_NationalID :: NationalID

record EvidenceSummary =
  es_CitizenValid :: "bool option"
  es_SanctionsListed :: bool
  es_HasCredential :: "bool option"
  es_IsOver18 :: "bool option"

record EvaluateResult =
  res_Status :: DecisionOutcome
  res_Reason :: DecisionReason
  res_Conditions :: "string list"
  res_Evidence :: EvidenceSummary
  res_EvaluatedAt :: time

text \<open>The contract record of a sanctions check is its one field \<^verbatim>\<open>Listed\<close>.\<close>

record GatheredEvidence =
  ge_Citizen :: "CitizenContractRecord option"
  ge_Sanctions :: "bool option"
  ge_Credential :: "CredentialPresence option"
  ge_FetchedAt :: time

section \<open>Rules\<close>

definition evaluateAgeVerification :: "DecisionInput \<Rightarrow> DecisionOutcome" where
  "evaluateAgeVerification i =
     (if IsSanctioned i then DecisionFail
      else if \<not> IsCitizenValid i then DecisionFail
      else if \<not> IsOfLegalAge i then DecisionFail
      else if length (in_Credential i) > 0 then DecisionPass
      else DecisionPassWithConditions)"

definition evaluateSanctionsScreening :: "DecisionInput \<Rightarrow> DecisionOutcome" where
  "evaluateSanctionsScreening i = (if IsSanctioned i then DecisionFail else DecisionPass)"

definition EvaluateDecision :: "Purpose \<Rightarrow> DecisionInput \<Rightarrow> DecisionOutcome" where
  "EvaluateDecision purpose i =
     (if purpose = PurposeAgeVerification then evaluateAgeVerification i
      else if purpose = PurposeSanctionsScreening then evaluateSanctionsScreening i
      else DecisionFail)"

definition setAgeVerificationEvidence :: "EvaluateResult \<Rightarrow> GatheredEvidence \<Rightarrow> DerivedIdentity \<Rightarrow> EvaluateResult" where
  "setAgeVerificationEvidence result evidence derived =
     (let es = res_Evidence result;
          es = (case ge_Citizen evidence of None \<Rightarrow> es | Some c \<Rightarrow> es\<lparr> es_CitizenValid := Some (ccr_Valid c) \<rparr>);
          es = es\<lparr> es_IsOver18 := Some (di_IsOver18 derived) \<rparr>;
          es = es\<lparr> es_HasCredential := Some (case ge_Credential evidence of None \<Rightarrow> False | Some p \<Rightarrow> CP_Exists p) \<rparr>
      in result\<lparr> res_Evidence := es \<rparr>)"

definition reasonForAgeVerification ::
  "DecisionOutcome \<Rightarrow> GatheredEvidence \<Rightarrow> DerivedIdentity \<Rightarrow> DecisionReason \<times> string list" where
  "reasonForAgeVerification outcome evidence derived =
     (case outcome of
        DecisionFail \<Rightarrow>
          if ge_Sanctions evidence = Some True then (ReasonSanctioned, [])
          else if (case ge_Citizen evidence of None \<Rightarrow> True | Some c \<Rightarrow> \<not> ccr_Valid c) then (ReasonInvalidCitizen, [])
          else if \<not> di_IsOver18 derived then (ReasonUnderage, [])
          else (ReasonEmpty, [])
      | DecisionPass \<Rightarrow> (ReasonAllChecksPassed, [])
      | DecisionPassWithConditions \<Rightarrow> (ReasonMissingCredential, [''obtain_age_credential'']))"

definition buildAgeVerificationResult ::
  "EvaluateResult \<Rightarrow> DecisionOutcome \<Rightarrow> GatheredEvidence \<Rightarrow> DerivedIdentity \<Rightarrow> EvaluateResult" where
  "buildAgeVerificationResult result outcome evidence derived =
     (let result = setAgeVerificationEvidence result evidence derived;
          (reason, conditions) = reasonForAgeVerification outcome evidence derived;
          result = result\<lparr> res_Reason := reason \<rparr>
      in if length conditions > 0 then result\<lparr> res_Conditions := conditions \<rparr> else result)"

definition buildSanctionsResult :: "EvaluateResult \<Rightarrow> DecisionOutcome \<Rightarrow> EvaluateResult" where
  "buildSanctionsResult result outcome =
     (case outcome of
        DecisionFail \<Rightarrow> result\<lparr> res_Reason := ReasonSanctioned \<rparr>
      | DecisionPass \<Rightarrow> result\<lparr> res_Reason := ReasonNotSanctioned \<rparr>
      | DecisionPassWithConditions \<Rightarrow> result)"

definition BuildResult ::
  "Purpose \<Rightarrow> DecisionOutcome \<Rightarrow> GatheredEvidence \<Rightarrow> DerivedIdentity \<Rightarrow> time \<Rightarrow> EvaluateResult" where
  "BuildResult purpose outcome evidence derived evalTime =
     (let result = \<lparr> res_Status = outcome, res_Reason = ReasonEmpty, res_Conditions = [],
            res_Evidence = \<lparr> es_CitizenValid = None, es_SanctionsListed = (ge_Sanctions evidence = Some True),
              es_HasCredential = None, es_IsOver18 = None \<rparr>,
            res_EvaluatedAt = evalTime \<rparr>
      in if purpose = PurposeAgeVerification then buildAgeVerificationResult result outcome evidence derived
         else if purpose = PurposeSanctionsScreening then buildSanctionsResult result outcome
         else result)"

section \<open>Evidence\<close>

datatype evidenceTask = citizenTask | sanctionsTask | credentialTask

text \<open>Where a goroutine is: before the next call that it makes, or at its end.\<close>

datatype fetch_state =
    CitizenConsent | CitizenLookup
  | SanctionsConsent | SanctionsCache | SanctionsLookup | SanctionsSave SanctionsRecord | SanctionsAudit SanctionsRecord
  | CredentialLookup | Finished

record dec_env =
  de_vc :: vc_env
  de_schedule :: "evidenceTask list"
  de_cancel :: "evidenceTask \<Rightarrow> fetch_state \<Rightarrow> bool"
  de_append :: append_result
  de_sha256 :: "string \<Rightarrow> string"

record dec_state =
  ds_vc :: vc_state
  ds_sink :: audit_sink

record evidenceFetchResult =
  ef_citizen :: "CitizenContractRecord option"
  ef_sanctions :: "bool option"
  ef_credential :: "CredentialPresence option"

definition buildEvidenceTasks :: "EvaluateRequest \<Rightarrow> evidenceTask list" where
  "buildEvidenceTasks req =
     (if ER_Purpose req = PurposeAgeVerification then [citizenTask, sanctionsTask, credentialTask]
      else if ER_Purpose req = PurposeSanctionsScreening then [sanctionsTask]
      else [])"

fun launched :: "evidenceTask \<Rightarrow> fetch_state" where
  "launched citizenTask = CitizenConsent"
| "launched sanctionsTask = SanctionsConsent"
| "launched credentialTask = CredentialLookup"

text \<open>One step: where the goroutine is then, the state, its error if it ends with one, and the results.\<close>

fun fetch ::
  "dec_env \<Rightarrow> (nat \<Rightarrow> time) \<Rightarrow> ctx \<Rightarrow> EvaluateRequest \<Rightarrow> fetch_state \<Rightarrow> evidenceFetchResult \<Rightarrow> vc_state \<Rightarrow>
   fetch_state \<times> vc_state \<times> go_error option \<times> evidenceFetchResult" where
  "fetch env clk c req CitizenConsent result st =
     (case reg_requireConsent (ve_reg (de_vc env)) c (ER_UserID req) (vs_registry st) of
        (rs, Some e) \<Rightarrow> (Finished, st\<lparr> vs_registry := rs \<rparr>, Some e, result)
      | (rs, None) \<Rightarrow> (CitizenLookup, st\<lparr> vs_registry := rs \<rparr>, None, result))"
| "fetch env clk c req CitizenLookup result st =
     (case fetch_evidence (ve_reg (de_vc env)) ProviderTypeCitizen detailsFromEvidence (ER_NationalID req) (vs_registry st) of
        (rs, Inl e) \<Rightarrow> (Finished, st\<lparr> vs_registry := rs \<rparr>, Some e, result)
      | (rs, Inr r) \<Rightarrow> (Finished, st\<lparr> vs_registry := rs \<rparr>, None,
          result\<lparr> ef_citizen := Some \<lparr> ccr_DateOfBirth = cr_DateOfBirth r, ccr_Valid = cr_Valid r \<rparr> \<rparr>))"
| "fetch env clk c req SanctionsConsent result st =
     (case reg_requireConsent (ve_reg (de_vc env)) c (ER_UserID req) (vs_registry st) of
        (rs, Some e) \<Rightarrow> (Finished, st\<lparr> vs_registry := rs \<rparr>, Some e, result)
      | (rs, None) \<Rightarrow> (SanctionsCache, st\<lparr> vs_registry := rs \<rparr>, None, result))"
| "fetch env clk c req SanctionsCache result st =
     (case find_sanction clk (ER_NationalID req) (vs_registry st) of
        (rs, Inr cached) \<Rightarrow> (SanctionsAudit cached, st\<lparr> vs_registry := rs \<rparr>, None, result)
      | (rs, Inl _) \<Rightarrow> (SanctionsLookup, st\<lparr> vs_registry := rs \<rparr>, None, result))"
| "fetch env clk c req SanctionsLookup result st =
     (case fetch_evidence (ve_reg (de_vc env)) ProviderTypeSanctions sanctionsRecordFromEvidence (ER_NationalID req) (vs_registry st) of
        (rs, Inl e) \<Rightarrow> (Finished, st\<lparr> vs_registry := rs \<rparr>, Some e, result)
      | (rs, Inr record) \<Rightarrow> (SanctionsSave record, st\<lparr> vs_registry := rs \<rparr>, None, result))"
| "fetch env clk c req (SanctionsSave record) result st =
     (SanctionsAudit record, st\<lparr> vs_registry := save_sanction clk (ER_NationalID req) record (vs_registry st) \<rparr>, None, result)"
| "fetch env clk c req (SanctionsAudit record) result st =
     (case audited (ve_reg (de_vc env)) clk c (ER_UserID req) record (vs_registry st) of
        (rs, Inl e) \<Rightarrow> (Finished, st\<lparr> vs_registry := rs \<rparr>, Some e, result)
      | (rs, Inr record) \<Rightarrow> (Finished, st\<lparr> vs_registry := rs \<rparr>, None, result\<lparr> ef_sanctions := Some (sr_Listed record) \<rparr>))"
| "fetch env clk c req CredentialLookup result st =
     (case FindCredentialPresence (de_vc env) (ER_UserID req) CredentialTypeAgeOver18 st of
        Inl _ \<Rightarrow> (Finished, st, None, result)
      | Inr cred \<Rightarrow> (Finished, st, None, result\<lparr> ef_credential := Some cred \<rparr>))"
| "fetch env clk c req Finished result st = (Finished, st, None, result)"

text \<open>The group of goroutines: where each of them is, the first error so far, and what they share.\<close>

record evidence_group =
  eg_threads :: "evidenceTask \<Rightarrow> fetch_state"
  eg_err :: "go_error option"
  eg_result :: evidenceFetchResult
  eg_vc :: vc_state

definition group_step ::
  "dec_env \<Rightarrow> (nat \<Rightarrow> time) \<Rightarrow> ctx \<Rightarrow> EvaluateRequest \<Rightarrow> evidenceTask \<Rightarrow> evidence_group \<Rightarrow> evidence_group" where
  "group_step env clk c req t g =
     (if eg_err g \<noteq> None \<and> de_cancel env t (eg_threads g t) then g\<lparr> eg_threads := (eg_threads g)(t := Finished) \<rparr>
      else case fetch env clk c req (eg_threads g t) (eg_result g) (eg_vc g) of
             (pc, vs, e, result) \<Rightarrow>
               \<lparr> eg_threads = (eg_threads g)(t := pc), eg_err = (case eg_err g of None \<Rightarrow> e | Some err \<Rightarrow> Some err),
                 eg_result = result, eg_vc = vs \<rparr>)"

text \<open>No goroutine makes more than five steps.\<close>

definition fetch_steps :: nat where
  "fetch_steps = 5"

definition run_group ::
  "dec_env \<Rightarrow> (nat \<Rightarrow> time) \<Rightarrow> ctx \<Rightarrow> EvaluateRequest \<Rightarrow> evidenceTask list \<Rightarrow> evidence_group \<Rightarrow> evidence_group" where
  "run_group env clk c req tasks g =
     fold (group_step env clk c req) (de_schedule env @ concat (map (replicate fetch_steps) tasks)) g"

definition no_evidence :: evidenceFetchResult where
  "no_evidence = \<lparr> ef_citizen = None, ef_sanctions = None, ef_credential = None \<rparr>"

definition gatherEvidence ::
  "dec_env \<Rightarrow> (nat \<Rightarrow> time) \<Rightarrow> ctx \<Rightarrow> EvaluateRequest \<Rightarrow> time \<Rightarrow> vc_state \<Rightarrow> vc_state \<times> GatheredEvidence result" where
  "gatherEvidence env clk c req evalTime st =
     (let tasks = buildEvidenceTasks req;
          g = run_group env clk c req tasks
                \<lparr> eg_threads = (\<lambda>t. if t \<in> set tasks then launched t else Finished), eg_err = None,
                  eg_result = no_evidence, eg_vc = st \<rparr>
      in case eg_err g of
           Some e \<Rightarrow> (eg_vc g, Inl e)
         | None \<Rightarrow>
             let result = eg_result g
             in (eg_vc g, Inr \<lparr> ge_Citizen = ef_citizen result, ge_Sanctions = ef_sanctions result,
                  ge_Credential = ef_credential result, ge_FetchedAt = evalTime \<rparr>))"

section \<open>The service\<close>

definition deriveIdentity :: "UserID \<Rightarrow> GatheredEvidence \<Rightarrow> time \<Rightarrow> DerivedIdentity" where
  "deriveIdentity userID evidence evalTime =
     (case ge_Citizen evidence of
        None \<Rightarrow> \<lparr> di_PseudonymousID = userID, di_IsOver18 = False, di_CitizenValid = False \<rparr>
      | Some citizen \<Rightarrow>
          \<lparr> di_PseudonymousID = userID, di_IsOver18 = deriveIsOver18 (ccr_DateOfBirth citizen) evalTime,
            di_CitizenValid = ccr_Valid citizen \<rparr>)"

definition buildInput :: "GatheredEvidence \<Rightarrow> DerivedIdentity \<Rightarrow> DecisionInput" where
  "buildInput evidence derived =
     \<lparr> in_Identity = derived,
       in_Sanctions = (case ge_Sanctions evidence of None \<Rightarrow> False | Some listed \<Rightarrow> listed),
       in_Credential = (case ge_Credential evidence of None \<Rightarrow> [] | Some p \<Rightarrow> if CP_Exists p then CP_Claims p else []) \<rparr>"

definition hashSubjectID :: "dec_env \<Rightarrow> string \<Rightarrow> string" where
  "hashSubjectID env subjectID = de_sha256 env subjectID"

definition decision_emitAudit ::
  "dec_env \<Rightarrow> time \<Rightarrow> ctx \<Rightarrow> EvaluateRequest \<Rightarrow> EvaluateResult \<Rightarrow> time \<Rightarrow> dec_state \<Rightarrow> dec_state \<times> go_error option" where
  "decision_emitAudit env wall c req result evalTime st =
     (let event = \<lparr> CE_Timestamp = evalTime, CE_UserID = ER_UserID req, CE_Subject = [],
            CE_Action = ''decision_made'', CE_Purpose = ER_Purpose req,
            CE_Decision = DecisionOutcome_String (res_Status result),
            CE_SubjectIDHash = hashSubjectID env (NationalID_String (ER_NationalID req)),
            CE_RequestID = ctx_RequestID c, CE_ActorID = [] \<rparr>
      in case Compliance_Emit (de_append env) wall event (ds_sink st) of
           (s, Some _) \<Rightarrow> (st\<lparr> ds_sink := s \<rparr>, Some (dErrors_New CodeInternal ''decision audit unavailable''))
         | (s, None) \<Rightarrow> (st\<lparr> ds_sink := s \<rparr>, None))"

definition decision_requireConsent :: "ctx \<Rightarrow> UserID \<Rightarrow> dec_state \<Rightarrow> dec_state \<times> go_error option" where
  "decision_requireConsent c userID st =
     (let vs = ds_vc st; rs = vs_registry vs; (cs, e) = Require c userID ConsentPurposeDecision (rg_consent rs)
      in (st\<lparr> ds_vc := vs\<lparr> vs_registry := rs\<lparr> rg_consent := cs \<rparr> \<rparr> \<rparr>, e))"

definition Evaluate ::
  "dec_env \<Rightarrow> (nat \<Rightarrow> time) \<Rightarrow> ctx \<Rightarrow> EvaluateRequest \<Rightarrow> dec_state \<Rightarrow> dec_state \<times> EvaluateResult result" where
  "Evaluate env clk c req st =
     (let evalTime = ctx_Now c
      in case decision_requireConsent c (ER_UserID req) st of
           (st, Some e) \<Rightarrow> (st, Inl e)
         | (st, None) \<Rightarrow>
             (case gatherEvidence env clk c req evalTime (ds_vc st) of
                (vs, Inl e) \<Rightarrow> (st\<lparr> ds_vc := vs \<rparr>, Inl e)
              | (vs, Inr evidence) \<Rightarrow>
                  let derived = deriveIdentity (ER_UserID req) evidence evalTime;
                      outcome = EvaluateDecision (ER_Purpose req) (buildInput evidence derived);
                      result = BuildResult (ER_Purpose req) outcome evidence derived evalTime
                  in case decision_emitAudit env (clk 3) c req result evalTime (st\<lparr> ds_vc := vs \<rparr>) of
                       (st, Some e) \<Rightarrow> (st, Inl e)
                     | (st, None) \<Rightarrow> (st, Inr result)))"

section \<open>Steps of an evaluation\<close>

abbreviation registry_of :: "dec_env \<Rightarrow> reg_env" where
  "registry_of env \<equiv> ve_reg (de_vc env)"

text \<open>The fetches of a goroutine that runs alone are the contracts of the registry service.\<close>

definition alone ::
  "dec_env \<Rightarrow> (nat \<Rightarrow> time) \<Rightarrow> ctx \<Rightarrow> EvaluateRequest \<Rightarrow> evidenceTask \<Rightarrow> vc_state \<Rightarrow> evidence_group" where
  "alone env clk c req t st = fold (group_step env clk c req) (replicate fetch_steps t)
     \<lparr> eg_threads = launched, eg_err = None, eg_result = no_evidence, eg_vc = st \<rparr>"

lemmas alone_defs = alone_def fetch_steps_def group_step_def eval_nat_numeral

lemma citizen_alone:
  assumes "\<And>t pc. \<not> de_cancel env t pc"
  shows "CitizenContract (registry_of env) c (ER_UserID req) (ER_NationalID req) (vs_registry st) =
    (let g = alone env clk c req citizenTask st
     in (vs_registry (eg_vc g), case eg_err g of Some e \<Rightarrow> Inl e | None \<Rightarrow> Inr (the (ef_citizen (eg_result g)))))"
proof -
  obtain rs e where k: "reg_requireConsent (registry_of env) c (ER_UserID req) (vs_registry st) = (rs, e)" by force
  obtain rs2 r where f: "fetch_evidence (registry_of env) ProviderTypeCitizen detailsFromEvidence (ER_NationalID req) rs = (rs2, r)" by force
  show ?thesis using assms
    by (cases e; cases r) (simp_all add: alone_defs CitizenContract_def CitizenWithDetails_def k f)
qed

lemma sanctions_alone:
  assumes "\<And>t pc. \<not> de_cancel env t pc"
  shows "SanctionsContract (registry_of env) clk c (ER_UserID req) (ER_NationalID req) (vs_registry st) =
    (let g = alone env clk c req sanctionsTask st
     in (vs_registry (eg_vc g), case eg_err g of Some e \<Rightarrow> Inl e | None \<Rightarrow> Inr (the (ef_sanctions (eg_result g)))))"
proof -
  obtain rs e where k: "reg_requireConsent (registry_of env) c (ER_UserID req) (vs_registry st) = (rs, e)" by force
  obtain rs1 s where s: "find_sanction clk (ER_NationalID req) rs = (rs1, s)" by force
  obtain rs2 r where f: "fetch_evidence (registry_of env) ProviderTypeSanctions sanctionsRecordFromEvidence (ER_NationalID req) rs1 = (rs2, r)" by force
  show ?thesis using assms
    by (cases e; cases s; cases r)
      (simp_all add: alone_defs SanctionsContract_def Sanctions_def k s f split: prod.split sum.split)
qed









section \<open>The group of goroutines\<close>



























section \<open>Decisions\<close>

definition decision_event :: "dec_env \<Rightarrow> ctx \<Rightarrow> EvaluateRequest \<Rightarrow> DecisionOutcome \<Rightarrow> Event" where
  "decision_event env c req status =
     \<lparr> Event_Category = CategoryCompliance, Event_Timestamp = ctx_Now c, Event_UserID = ER_UserID req, Event_Subject = [],
       Event_Action = ''decision_made'', Event_Purpose = ER_Purpose req, Event_RequestingParty = [], Event_Decision = DecisionOutcome_String status,
       Event_Reason = [], Event_Email = [], Event_RequestID = ctx_RequestID c, Event_ActorID = [],
       Event_SubjectIDHash = de_sha256 env (NationalID_String (ER_NationalID req)) \<rparr>"

lemma decision_emitAudit_cases:
  assumes "decision_emitAudit env wall c req result (ctx_Now c) st = (st', e)" "\<not> time_IsZero (ctx_Now c)"
  shows "ds_vc st' = ds_vc st"
    "sink_events (ds_sink st') = sink_events (ds_sink st) @ (if e = None then [decision_event env c req (res_Status result)] else [])"
  using assms
  by (auto simp: decision_emitAudit_def Compliance_Emit_def sink_Append_def decision_event_def hashSubjectID_def
      ComplianceEvent_ToLegacyEvent_def Let_def split: prod.splits option.splits if_splits)

text \<open>The parts of a successful evaluation: the consent, the group of fetches, and the result from the rules.\<close>

definition consent_checked :: "ctx \<Rightarrow> UserID \<Rightarrow> vc_state \<Rightarrow> vc_state" where
  "consent_checked c u vs =
     vs\<lparr> vs_registry := (vs_registry vs)\<lparr> rg_consent := fst (Require c u ConsentPurposeDecision (rg_consent (vs_registry vs))) \<rparr> \<rparr>"

definition decided :: "EvaluateRequest \<Rightarrow> time \<Rightarrow> GatheredEvidence \<Rightarrow> EvaluateResult" where
  "decided req now ev =
     (let derived = deriveIdentity (ER_UserID req) ev now
      in BuildResult (ER_Purpose req) (EvaluateDecision (ER_Purpose req) (buildInput ev derived)) ev derived now)"

lemma decision_requireConsent_eq:
  "decision_requireConsent c u st =
     (st\<lparr> ds_vc := consent_checked c u (ds_vc st) \<rparr>, snd (Require c u ConsentPurposeDecision (rg_consent (vs_registry (ds_vc st)))))"
  by (simp add: decision_requireConsent_def consent_checked_def Let_def case_prod_unfold)

lemma Evaluate_cases:
  assumes "Evaluate env clk c req st = (st', res)" "\<not> time_IsZero (ctx_Now c)"
  obtains
    (refused) e where "snd (Require c (ER_UserID req) ConsentPurposeDecision (rg_consent (vs_registry (ds_vc st)))) = Some e"
      "res = Inl e" "st' = st\<lparr> ds_vc := consent_checked c (ER_UserID req) (ds_vc st) \<rparr>"
  | (failed) e vs where "consented c (ER_UserID req) ConsentPurposeDecision (vs_registry (ds_vc st))"
      "gatherEvidence env clk c req (ctx_Now c) (consent_checked c (ER_UserID req) (ds_vc st)) = (vs, Inl e)"
      "res = Inl e" "st' = st\<lparr> ds_vc := vs \<rparr>"
  | (gathered) ev vs where "consented c (ER_UserID req) ConsentPurposeDecision (vs_registry (ds_vc st))"
      "gatherEvidence env clk c req (ctx_Now c) (consent_checked c (ER_UserID req) (ds_vc st)) = (vs, Inr ev)"
      "ds_vc st' = vs" "(\<exists>e. res = Inl e) \<or> res = Inr (decided req (ctx_Now c) ev)"
      "sink_events (ds_sink st') = sink_events (ds_sink st) @
         (case res of Inl _ \<Rightarrow> [] | Inr r \<Rightarrow> [decision_event env c req (res_Status r)])"
proof -
  obtain vs g where g: "gatherEvidence env clk c req (ctx_Now c) (consent_checked c (ER_UserID req) (ds_vc st)) = (vs, g)" by force
  show thesis
  proof (cases "snd (Require c (ER_UserID req) ConsentPurposeDecision (rg_consent (vs_registry (ds_vc st))))")
    case (Some e)
    then show ?thesis using assms(1) refused by (simp add: Evaluate_def decision_requireConsent_eq)
  next
    case None
    then have ok: "consented c (ER_UserID req) ConsentPurposeDecision (vs_registry (ds_vc st))" by (simp add: consented_def)
    show ?thesis
    proof (cases g)
      case (Inl e)
      then show ?thesis using assms(1) None g ok failed by (simp add: Evaluate_def decision_requireConsent_eq)
    next
      case (Inr ev)
      obtain st2 e where em: "decision_emitAudit env (clk 3) c req (decided req (ctx_Now c) ev) (ctx_Now c) (st\<lparr> ds_vc := vs \<rparr>) = (st2, e)" by force
      then have "st' = st2 \<and> res = (case e of None \<Rightarrow> Inr (decided req (ctx_Now c) ev) | Some e \<Rightarrow> Inl e)"
        using assms(1) None g Inr by (auto simp: Evaluate_def decision_requireConsent_eq decided_def Let_def split: option.splits)
      then show ?thesis using gathered[OF ok] g Inr decision_emitAudit_cases[OF em assms(2)] by (cases e) auto
    qed
  qed
qed


text \<open>\<^bold>\<open>C9\<close> A decision is gated by consent and audited, failing closed on both sides. Without consent for
  decisions in force, the evaluation ends with the error of the consent service and nothing but the record
  of that check changes: no evidence is fetched and no registry state, credential or audit event of a
  decision changes. Whatever happens later, the audit store gains exactly one event, with the user, the
  purpose, the hash of the national id and the outcome, if a result is returned, and none if an error is.\<close>

theorem evaluate_gated_and_audited:
  assumes "Evaluate env clk c req st = (st', res)" and "\<not> time_IsZero (ctx_Now c)"
  shows "(case snd (Require c (ER_UserID req) ConsentPurposeDecision (rg_consent (vs_registry (ds_vc st)))) of
       None \<Rightarrow> True
     | Some e \<Rightarrow> res = Inl e \<and> st' = st\<lparr> ds_vc := consent_checked c (ER_UserID req) (ds_vc st) \<rparr>) \<and>
    sink_events (ds_sink st') = sink_events (ds_sink st) @
      (case res of Inl _ \<Rightarrow> [] | Inr r \<Rightarrow> [decision_event env c req (res_Status r)])"
  using assms by (rule Evaluate_cases) (auto simp: consented_def)




definition verdict :: "EvaluateResult \<Rightarrow> DecisionOutcome \<times> DecisionReason \<times> string list" where
  "verdict r = (res_Status r, res_Reason r, res_Conditions r)"







definition ex_dec_env :: dec_env where
  "ex_dec_env = \<lparr> de_vc = ex_vc_env True, de_schedule = [sanctionsTask, citizenTask, sanctionsTask, citizenTask], de_cancel = (\<lambda>_ _. False), de_append = (\<lambda>_. None), de_sha256 = (\<lambda>s. s) \<rparr>"

text \<open>The citizen of the example is on the sanctions list; in this state all three consents are given.\<close>

definition ex_dec_state :: dec_state where
  "ex_dec_state = \<lparr> ds_vc = ex_vc_state\<lparr> vs_registry := (vs_registry ex_vc_state)\<lparr> rg_consent :=
       fst (Grant ex_consent_cfg (\<lambda>sc _. if Scope_Purpose sc = ConsentPurposeRegistryCheck then 7 else 8) (ex_consent_ctx (ex_now - 10)) (UserID 1)
         [ConsentPurposeRegistryCheck, ConsentPurposeDecision] consent_init) \<rparr> \<rparr>,
     ds_sink = \<lparr> sink_events = [], sink_calls = 0 \<rparr> \<rparr>"

definition ex_eval :: EvaluateRequest where
  "ex_eval = \<lparr> ER_UserID = UserID 1, ER_Purpose = PurposeAgeVerification, ER_NationalID = ex_nid \<rparr>"

lemma ex_evaluated:
  "map_sum (\<lambda>_. ()) verdict (snd (Evaluate ex_dec_env (\<lambda>_. ex_now) (ex_consent_ctx ex_now) ex_eval ex_dec_state)) =
     Inr (DecisionFail, ReasonSanctioned, [])"
  by code_simp

lemma ex_dec_hyps:
  "\<not> time_IsZero (ctx_Now (ex_consent_ctx ex_now))" "ER_Purpose ex_eval \<in> {PurposeAgeVerification, PurposeSanctionsScreening}"
  "re_consentPort (registry_of ex_dec_env)" "re_auditor (registry_of ex_dec_env)"
  "sink_events (rg_sink (vs_registry (ds_vc ex_dec_state))) = []" "sink_events (ds_sink ex_dec_state) = []"
  by (simp_all add: time_IsZero_def zero_time_def ex_now_def ex_eval_def ex_dec_env_def ex_vc_env_def ex_reg_env2_def ex_reg_env_def ex_dec_state_def
      ex_vc_state_def ex_reg_state_def)

lemma ex_Evaluate:
  obtains st' r where "Evaluate ex_dec_env (\<lambda>_. ex_now) (ex_consent_ctx ex_now) ex_eval ex_dec_state = (st', Inr r)"
    "verdict r = (DecisionFail, ReasonSanctioned, [])"
proof -
  obtain st' res where e: "Evaluate ex_dec_env (\<lambda>_. ex_now) (ex_consent_ctx ex_now) ex_eval ex_dec_state = (st', res)" by force
  show thesis using that ex_evaluated e by (cases res) auto
qed

theorem evaluate_gated_and_audited_witness:
  "\<exists>st' r. Evaluate ex_dec_env (\<lambda>_. ex_now) (ex_consent_ctx ex_now) ex_eval ex_dec_state = (st', Inr r) \<and>
     sink_events (ds_sink st') = [decision_event ex_dec_env (ex_consent_ctx ex_now) ex_eval DecisionFail]"
proof (rule ex_Evaluate)
  fix st' r
  assume e: "Evaluate ex_dec_env (\<lambda>_. ex_now) (ex_consent_ctx ex_now) ex_eval ex_dec_state = (st', Inr r)"
    and v: "verdict r = (DecisionFail, ReasonSanctioned, [])"
  from evaluate_gated_and_audited[OF e ex_dec_hyps(1)] v
  have "sink_events (ds_sink st') = [decision_event ex_dec_env (ex_consent_ctx ex_now) ex_eval DecisionFail]"
    by (simp add: ex_dec_hyps(6) verdict_def)
  with e show ?thesis by blast
qed


end
