(* ===== verification/Evidence_Handler.thy ===== *)
theory Evidence_Handler
  imports Decision Http
begin

text \<open>
  The HTTP endpoints of the evidence registry, of credentials and of decisions
  (\<^verbatim>\<open>internal/evidence/registry/handler\<close>, \<^verbatim>\<open>internal/evidence/vc/handler\<close>,
  \<^verbatim>\<open>internal/decision/handler\<close>): requests with their validation, responses, and the handlers over the
  services. A handler takes the user of the request's context and the decoded body. Validation stores the
  parsed values in the request, so it returns the request it leaves behind. A response has times as values;
  their text is left to the encoder. Logs and spans are left out.
\<close>

section \<open>Preparation\<close>

text \<open>\<^verbatim>\<open>DecodeAndPrepare\<close> on a type without \<^verbatim>\<open>Normalize\<close> whose \<^verbatim>\<open>Validate\<close> writes to the request.\<close>

definition DecodeAndValidate :: "('r \<Rightarrow> 'r result) \<Rightarrow> 'r option \<Rightarrow> 'a response + 'r" where
  "DecodeAndValidate validate decoded =
     (case decoded of
        None \<Rightarrow> Inl (WriteError (dErrors_New CodeBadRequest ''invalid request body''))
      | Some req \<Rightarrow>
          (case validate req of
             Inl err \<Rightarrow>
               Inl (if errors_As err \<noteq> None then WriteError err
                    else WriteError (dErrors_New CodeValidation (error_Error err)))
           | Inr req \<Rightarrow> Inr req))"

lemma DecodeAndValidate_pure:
  "DecodeAndValidate (\<lambda>r. case v r of None \<Rightarrow> Inr r | Some e \<Rightarrow> Inl e) decoded = DecodeAndPrepare (\<lambda>r. r) v decoded"
  by (auto simp: DecodeAndValidate_def DecodeAndPrepare_def PrepareRequest_def split: option.split)

section \<open>The registry\<close>

text \<open>The requests of the two endpoints have the same fields and the same validation.\<close>

record CitizenLookupRequest =
  clr_NationalID :: string
  clr_parsedNationalID :: NationalID

definition CitizenLookupRequest_Validate :: "CitizenLookupRequest \<Rightarrow> CitizenLookupRequest result" where
  "CitizenLookupRequest_Validate r =
     (case ParseNationalID (clr_NationalID r) of
        Inl err \<Rightarrow> Inl (dErrors_New CodeBadRequest (error_Error err))
      | Inr parsed \<Rightarrow> Inr (r\<lparr> clr_parsedNationalID := parsed \<rparr>))"

record SanctionsCheckRequest =
  scr_NationalID :: string
  scr_parsedNationalID :: NationalID

definition SanctionsCheckRequest_Validate :: "SanctionsCheckRequest \<Rightarrow> SanctionsCheckRequest result" where
  "SanctionsCheckRequest_Validate r =
     (case ParseNationalID (scr_NationalID r) of
        Inl err \<Rightarrow> Inl (dErrors_New CodeBadRequest (error_Error err))
      | Inr parsed \<Rightarrow> Inr (r\<lparr> scr_parsedNationalID := parsed \<rparr>))"

record CitizenLookupResponse =
  clp_NationalID :: string
  clp_FullName :: string
  clp_DateOfBirth :: string
  clp_Address :: string
  clp_Valid :: bool
  clp_Source :: string
  clp_CheckedAt :: time

record SanctionsCheckResponse =
  scp_NationalID :: string
  scp_Listed :: bool
  scp_Source :: string
  scp_CheckedAt :: time

text \<open>The operational events the handler tracks, with the publisher that may be nil.\<close>

record reg_handler =
  rh_opsTracker :: bool
  rh_uuid_String :: "uuid \<Rightarrow> string"

definition registry_emitAudit :: "reg_handler \<Rightarrow> OpsEvent \<Rightarrow> OpsEvent list \<Rightarrow> OpsEvent list" where
  "registry_emitAudit h event tracked = (if \<not> rh_opsTracker h then tracked else tracked @ [event])"

definition redactNationalID :: "NationalID \<Rightarrow> string" where
  "redactNationalID nid =
     (let s = NationalID_String nid in if length s \<le> 4 then ''****'' else ''****'' @ drop (length s - 4) s)"

definition HandleCitizenLookup ::
  "reg_handler \<Rightarrow> reg_env \<Rightarrow> (nat \<Rightarrow> time) \<Rightarrow> ctx \<Rightarrow> UserID \<Rightarrow> CitizenLookupRequest option \<Rightarrow> reg_state \<times> OpsEvent list \<Rightarrow>
   (reg_state \<times> OpsEvent list) \<times> CitizenLookupResponse response" where
  "HandleCitizenLookup h env clk c ctxUser body st =
     (case RequireUserID ctxUser of
        Inl err \<Rightarrow> (st, WriteError err)
      | Inr userID \<Rightarrow>
          (case DecodeAndValidate CitizenLookupRequest_Validate body of
             Inl resp \<Rightarrow> (st, resp)
           | Inr req \<Rightarrow>
               (case Citizen env clk c userID (clr_parsedNationalID req) (fst st) of
                  (rs, Inl err) \<Rightarrow> ((rs, snd st), WriteError err)
                | (rs, Inr record) \<Rightarrow>
                    ((rs, registry_emitAudit h \<lparr> OE_Timestamp = zero_time,
                        OE_Subject = (case userID of UserID u \<Rightarrow> rh_uuid_String h u),
                        OE_Action = ''registry_citizen_checked'', OE_RequestID = ctx_RequestID c \<rparr> (snd st)),
                     WriteJSON StatusOK \<lparr> clp_NationalID = cr_NationalID record, clp_FullName = cr_FullName record,
                       clp_DateOfBirth = cr_DateOfBirth record, clp_Address = cr_Address record,
                       clp_Valid = cr_Valid record, clp_Source = cr_Source record,
                       clp_CheckedAt = cr_CheckedAt record \<rparr>))))"

definition HandleSanctionsLookup ::
  "reg_env \<Rightarrow> (nat \<Rightarrow> time) \<Rightarrow> ctx \<Rightarrow> UserID \<Rightarrow> SanctionsCheckRequest option \<Rightarrow> reg_state \<Rightarrow>
   reg_state \<times> SanctionsCheckResponse response" where
  "HandleSanctionsLookup env clk c ctxUser body st =
     (case RequireUserID ctxUser of
        Inl err \<Rightarrow> (st, WriteError err)
      | Inr userID \<Rightarrow>
          (case DecodeAndValidate SanctionsCheckRequest_Validate body of
             Inl resp \<Rightarrow> (st, resp)
           | Inr req \<Rightarrow>
               (case Sanctions env clk c userID (scr_parsedNationalID req) st of
                  (st, Inl err) \<Rightarrow> (st, WriteError err)
                | (st, Inr record) \<Rightarrow>
                    (st, WriteJSON StatusOK \<lparr> scp_NationalID = sr_NationalID record, scp_Listed = sr_Listed record,
                       scp_Source = sr_Source record, scp_CheckedAt = sr_CheckedAt record \<rparr>))))"

section \<open>Credentials\<close>

record IssueRequest_http =
  ih_Type :: string
  ih_NationalID :: string
  ih_parsedType :: CredentialType
  ih_parsedNationalID :: NationalID

definition IssueRequest_Validate :: "IssueRequest_http \<Rightarrow> IssueRequest_http result" where
  "IssueRequest_Validate r =
     (if length (ih_NationalID r) > 20 then Inl (dErrors_New CodeValidation ''national_id must be 6-20 characters'')
      else if ih_Type r = [] then Inl (dErrors_New CodeValidation ''type is required'')
      else if ih_NationalID r = [] then Inl (dErrors_New CodeValidation ''national_id is required'')
      else case ParseCredentialType (ih_Type r) of
             Inl err \<Rightarrow> Inl (dErrors_New CodeValidation (error_Error err))
           | Inr parsedType \<Rightarrow>
               (case ParseNationalID (ih_NationalID r) of
                  Inl err \<Rightarrow> Inl (dErrors_New CodeValidation (error_Error err))
                | Inr parsedNationalID \<Rightarrow>
                    Inr (r\<lparr> ih_parsedType := parsedType, ih_parsedNationalID := parsedNationalID \<rparr>)))"

record IssueResponse =
  ip_CredentialID :: string
  ip_Type :: string
  ip_Subject :: string
  ip_Issuer :: string
  ip_IssuedAt :: time
  ip_Claims :: Claims

record VerifyRequest =
  vq_CredentialID :: string
  vq_parsedCredentialID :: CredentialID

definition VerifyRequest_Validate :: "(string \<Rightarrow> uuid option) \<Rightarrow> VerifyRequest \<Rightarrow> VerifyRequest result" where
  "VerifyRequest_Validate uuid_Parse r =
     (if length (vq_CredentialID r) > 64 then Inl (dErrors_New CodeValidation ''credential_id is too long'')
      else if vq_CredentialID r = [] then Inl (dErrors_New CodeValidation ''credential_id is required'')
      else case ParseCredentialID uuid_Parse (vq_CredentialID r) of
             Inl err \<Rightarrow> Inl (dErrors_New CodeBadRequest (error_Error err))
           | Inr parsedID \<Rightarrow> Inr (r\<lparr> vq_parsedCredentialID := parsedID \<rparr>))"

record VerifyResponse =
  vp_Valid :: bool
  vp_CredentialID :: string
  vp_Type :: string
  vp_Subject :: string
  vp_IssuedAt :: time
  vp_Claims :: Claims
  vp_Reason :: string

definition HandleIssue ::
  "vc_env \<Rightarrow> string \<Rightarrow> ctx \<Rightarrow> UserID \<Rightarrow> IssueRequest_http option \<Rightarrow> vc_state \<Rightarrow> vc_state \<times> IssueResponse response" where
  "HandleIssue env fresh c userID body st =
     (if UserID_IsNil userID then (st, WriteError (dErrors_New CodeUnauthorized ''authentication required''))
      else case DecodeAndValidate IssueRequest_Validate body of
             Inl resp \<Rightarrow> (st, resp)
           | Inr req \<Rightarrow>
               (case Issue env fresh c \<lparr> IR_UserID = userID, IR_Type = ih_parsedType req, IR_NationalID = ih_parsedNationalID req \<rparr> st of
                  (st, Inl err) \<Rightarrow> (st, WriteError err)
                | (st, Inr credential) \<Rightarrow>
                    (st, WriteJSON StatusOK \<lparr> ip_CredentialID = CR_ID credential, ip_Type = CR_Type credential,
                       ip_Subject = (case CR_Subject credential of UserID u \<Rightarrow> ve_uuid_String env u),
                       ip_Issuer = CR_Issuer credential, ip_IssuedAt = CR_IssuedAt credential,
                       ip_Claims = CR_Claims credential \<rparr>)))"

definition not_found_response :: VerifyResponse where
  "not_found_response = \<lparr> vp_Valid = False, vp_CredentialID = [], vp_Type = [], vp_Subject = [], vp_IssuedAt = zero_time,
     vp_Claims = [], vp_Reason = ''credential_not_found'' \<rparr>"

text \<open>\<^verbatim>\<open>Verify\<close> always returns a credential with a result.\<close>

definition HandleVerify ::
  "(string \<Rightarrow> uuid option) \<Rightarrow> vc_env \<Rightarrow> ctx \<Rightarrow> UserID \<Rightarrow> VerifyRequest option \<Rightarrow> vc_state \<Rightarrow> vc_state \<times> VerifyResponse response" where
  "HandleVerify uuid_Parse env c userID body st =
     (if UserID_IsNil userID then (st, WriteError (dErrors_New CodeUnauthorized ''authentication required''))
      else case DecodeAndValidate (VerifyRequest_Validate uuid_Parse) body of
             Inl resp \<Rightarrow> (st, resp)
           | Inr req \<Rightarrow>
               (case Verify env c (vq_parsedCredentialID req) st of
                  (st, Inl err) \<Rightarrow>
                    if HasCode err CodeNotFound then (st, WriteJSON StatusNotFound not_found_response)
                    else (st, WriteError err)
                | (st, Inr result) \<Rightarrow>
                    (let credential = the (VR_Credential result)
                     in (st, WriteJSON StatusOK \<lparr> vp_Valid = VR_Valid result, vp_CredentialID = CR_ID credential,
                          vp_Type = CR_Type credential,
                          vp_Subject = (case CR_Subject credential of UserID u \<Rightarrow> ve_uuid_String env u),
                          vp_IssuedAt = CR_IssuedAt credential, vp_Claims = CR_Claims credential, vp_Reason = [] \<rparr>))))"

section \<open>Decisions\<close>

record EvaluateRequest_http =
  eh_Purpose :: string
  eh_NationalID :: string
  eh_parsedPurpose :: Purpose
  eh_parsedNationalID :: NationalID

definition EvaluateRequest_Validate :: "EvaluateRequest_http \<Rightarrow> EvaluateRequest_http result" where
  "EvaluateRequest_Validate r =
     (if length (eh_NationalID r) > 20 then Inl (dErrors_New CodeValidation ''national_id must be at most 20 characters'')
      else let r = r\<lparr> eh_Purpose := TrimSpace (eh_Purpose r) \<rparr>
      in if eh_Purpose r = [] then Inl (dErrors_New CodeValidation ''purpose is required'')
      else case ParsePurpose (eh_Purpose r) of
             Inl err \<Rightarrow> Inl err
           | Inr purpose \<Rightarrow>
               let r = r\<lparr> eh_parsedPurpose := purpose, eh_NationalID := TrimSpace (eh_NationalID r) \<rparr>
               in if purpose = PurposeAgeVerification \<or> purpose = PurposeSanctionsScreening
                  then if eh_NationalID r = [] then Inl (dErrors_New CodeValidation ''context.national_id is required'')
                       else case ParseNationalID (eh_NationalID r) of
                              Inl err \<Rightarrow> Inl err
                            | Inr nationalID \<Rightarrow> Inr (r\<lparr> eh_parsedNationalID := nationalID \<rparr>)
                  else Inr r)"

record EvaluateResponse =
  ep_Status :: string
  ep_Reason :: string
  ep_Conditions :: "string list"
  ep_Evidence :: EvidenceSummary
  ep_EvaluatedAt :: time

definition FromResult :: "EvaluateResult \<Rightarrow> EvaluateResponse" where
  "FromResult result =
     \<lparr> ep_Status = DecisionOutcome_String (res_Status result), ep_Reason = DecisionReason_String (res_Reason result),
       ep_Conditions = res_Conditions result, ep_Evidence = res_Evidence result, ep_EvaluatedAt = res_EvaluatedAt result \<rparr>"

definition HandleEvaluate ::
  "dec_env \<Rightarrow> (nat \<Rightarrow> time) \<Rightarrow> ctx \<Rightarrow> UserID \<Rightarrow> EvaluateRequest_http option \<Rightarrow> dec_state \<Rightarrow> dec_state \<times> EvaluateResponse response" where
  "HandleEvaluate env clk c userID body st =
     (if UserID_IsNil userID then (st, WriteError (dErrors_New CodeUnauthorized ''authentication required''))
      else case DecodeAndValidate EvaluateRequest_Validate body of
             Inl resp \<Rightarrow> (st, resp)
           | Inr req \<Rightarrow>
               (case Evaluate env clk c \<lparr> ER_UserID = userID, ER_Purpose = eh_parsedPurpose req, ER_NationalID = eh_parsedNationalID req \<rparr> st of
                  (st, Inl err) \<Rightarrow> (st, WriteError err)
                | (st, Inr result) \<Rightarrow> (st, WriteJSON StatusOK (FromResult result))))"

section \<open>Consent at the boundary\<close>

definition forbidden :: "'a response \<Rightarrow> bool" where
  "forbidden r =
     (resp_Status r = 403 \<and> (case resp_Body r of ErrorBody code _ \<Rightarrow> code \<in> {''missing_consent'', ''invalid_consent''} | _ \<Rightarrow> False))"

lemma Require_forbidden:
  assumes "snd (Require c u p cs) = Some e" "\<not> UserID_IsNil u" "ConsentPurpose_IsValid p"
  shows "forbidden (WriteError e)" "sanitizeExternalError e msg = e"
  using assms(1) unfolding Require_eq[OF assms(2,3)]
  by (auto simp: forbidden_def sanitizeExternalError_def err_simps status_defs split: option.splits if_splits)

lemma purposes_valid: "ConsentPurpose_IsValid ConsentPurposeRegistryCheck" "ConsentPurpose_IsValid ConsentPurposeVCIssuance"
  "ConsentPurpose_IsValid ConsentPurposeDecision"
  by code_simp+

lemma IssueRequest_Validate_issue:
  assumes "IssueRequest_Validate b = Inr b'" "\<not> UserID_IsNil u"
  shows "validateIssueRequest \<lparr> IR_UserID = u, IR_Type = ih_parsedType b', IR_NationalID = ih_parsedNationalID b' \<rparr> = None"
  using assms
  by (auto simp: IssueRequest_Validate_def validateIssueRequest_def ParseCredentialType_def ParseNationalID_def split: if_splits sum.splits)

lemma Issue_refused:
  assumes "validateIssueRequest req = None" "ve_consentPort env"
    "snd (Require c (IR_UserID req) ConsentPurposeVCIssuance (rg_consent (vs_registry st))) = Some e"
  shows "Issue env fresh c req st = (st\<lparr> vs_registry := vc_consented c (IR_UserID req) st \<rparr>, Inl (sanitizeExternalError e ''consent check failed''))"
  using assms by (simp add: Issue_def requireVCIssuanceConsent_def vc_consented_def case_prod_unfold Let_def)

lemma Evaluate_refused:
  assumes "snd (Require c (ER_UserID req) ConsentPurposeDecision (rg_consent (vs_registry (ds_vc st)))) = Some e"
  shows "Evaluate env clk c req st = (st\<lparr> ds_vc := consent_checked c (ER_UserID req) (ds_vc st) \<rparr>, Inl e)"
  using assms by (simp add: Evaluate_def decision_requireConsent_eq)

lemma unconsented: "\<not> consented c u p rs \<Longrightarrow> \<exists>e. snd (Require c u p (rg_consent rs)) = Some e"
  by (auto simp: consented_def)

text \<open>What a refusal leaves behind in the registry service and the consent service it is built on: the one
  event of the failed check that the consent service hands to its auditor, and metrics.\<close>

definition check_failed_event :: "ctx \<Rightarrow> UserID \<Rightarrow> ConsentPurpose \<Rightarrow> ComplianceEvent" where
  "check_failed_event c u p =
     \<lparr> CE_Timestamp = ctx_Now c, CE_UserID = u, CE_Subject = [], CE_Action = ''consent_check_failed'', CE_Purpose = ConsentPurpose_String p,
       CE_Decision = ''denied'', CE_SubjectIDHash = [], CE_RequestID = ctx_RequestID c, CE_ActorID = [] \<rparr>"

definition only_refusal :: "ctx \<Rightarrow> UserID \<Rightarrow> ConsentPurpose \<Rightarrow> reg_state \<Rightarrow> reg_state \<Rightarrow> bool" where
  "only_refusal c u p rs rs' =
     (rs' = rs\<lparr> rg_consent := (rg_consent rs)\<lparr> cs_audit := cs_audit (rg_consent rs) @ [check_failed_event c u p],
        cs_metrics := cs_metrics (rg_consent rs') \<rparr> \<rparr>)"

lemma Require_only_refusal:
  assumes "snd (Require c u p (rg_consent rs)) = Some e" "\<not> UserID_IsNil u" "ConsentPurpose_IsValid p"
  shows "only_refusal c u p rs (rs\<lparr> rg_consent := fst (Require c u p (rg_consent rs)) \<rparr>)"
  using assms
  by (auto simp: only_refusal_def Require_def NewConsentScope_def ConsentStore_FindByScope_def err_simps Let_def
      recordConsentCheckOutcome_def outcomeMissing_def outcomeRevoked_def outcomeExpired_def outcomePassed_def
      emitAudit_def add_metric_def check_failed_event_def AuditActionConsentCheckFailed_def AuditDecisionDenied_def
      split: option.splits if_splits)

text \<open>\<^bold>\<open>C18\<close> Without consent the endpoints answer 403: a valid request of a user whose consent for the
  purpose of the endpoint (registry checks for the two lookups, issuance for credentials, decisions for
  evaluations) is missing, revoked or expired is answered with status 403 and the code of a missing or of an
  invalid consent. Nothing else happens than that the consent service hands the event of the failed check,
  with the user, the purpose and the decision to deny, to its auditor and counts it in its metrics: no
  consent changes, no provider is called, nothing is cached, and no credential, no event of the endpoint
  itself and no operational event is written.\<close>

theorem no_consent_is_forbidden:
  assumes "\<not> UserID_IsNil u" and "re_consentPort env" and "ve_consentPort venv"
    and "CitizenLookupRequest_Validate b1 = Inr b1'" and "SanctionsCheckRequest_Validate b2 = Inr b2'"
    and "IssueRequest_Validate b3 = Inr b3'" and "EvaluateRequest_Validate b4 = Inr b4'"
  shows "(consented c u ConsentPurposeRegistryCheck rs \<or>
      (case HandleCitizenLookup h env clk c u (Some b1) (rs, ops) of ((rs', ops'), r) \<Rightarrow>
         forbidden r \<and> only_refusal c u ConsentPurposeRegistryCheck rs rs' \<and> ops' = ops) \<and>
      (case HandleSanctionsLookup env clk c u (Some b2) rs of (rs', r) \<Rightarrow>
         forbidden r \<and> only_refusal c u ConsentPurposeRegistryCheck rs rs')) \<and>
    (consented c u ConsentPurposeVCIssuance (vs_registry vs) \<or>
      (case HandleIssue venv fresh c u (Some b3) vs of (vs', r) \<Rightarrow>
         forbidden r \<and> only_refusal c u ConsentPurposeVCIssuance (vs_registry vs) (vs_registry vs') \<and>
         vs_store vs' = vs_store vs \<and> vs_tracked vs' = vs_tracked vs)) \<and>
    (consented c u ConsentPurposeDecision (vs_registry (ds_vc ds)) \<or>
      (case HandleEvaluate denv clk c u (Some b4) ds of (ds', r) \<Rightarrow>
         forbidden r \<and> only_refusal c u ConsentPurposeDecision (vs_registry (ds_vc ds)) (vs_registry (ds_vc ds')) \<and>
         vs_store (ds_vc ds') = vs_store (ds_vc ds) \<and> vs_tracked (ds_vc ds') = vs_tracked (ds_vc ds) \<and> ds_sink ds' = ds_sink ds))"
proof (intro conjI)
  note defs = DecodeAndValidate_def RequireUserID_def assms(1,4-7) case_prod_unfold
  show "consented c u ConsentPurposeRegistryCheck rs \<or>
      (case HandleCitizenLookup h env clk c u (Some b1) (rs, ops) of ((rs', ops'), r) \<Rightarrow>
         forbidden r \<and> only_refusal c u ConsentPurposeRegistryCheck rs rs' \<and> ops' = ops) \<and>
      (case HandleSanctionsLookup env clk c u (Some b2) rs of (rs', r) \<Rightarrow>
         forbidden r \<and> only_refusal c u ConsentPurposeRegistryCheck rs rs')"
    using reg_gate(1,3)[OF assms(2)]
    by (auto simp: HandleCitizenLookup_def HandleSanctionsLookup_def defs dest!: unconsented
        intro: Require_forbidden(1)[OF _ assms(1) purposes_valid(1)] Require_only_refusal[OF _ assms(1) purposes_valid(1)])
  show "consented c u ConsentPurposeVCIssuance (vs_registry vs) \<or>
      (case HandleIssue venv fresh c u (Some b3) vs of (vs', r) \<Rightarrow>
         forbidden r \<and> only_refusal c u ConsentPurposeVCIssuance (vs_registry vs) (vs_registry vs') \<and>
         vs_store vs' = vs_store vs \<and> vs_tracked vs' = vs_tracked vs)"
    using Issue_refused[OF IssueRequest_Validate_issue[OF assms(6,1)] assms(3)] Require_forbidden[OF _ assms(1) purposes_valid(2)]
      Require_only_refusal[OF _ assms(1) purposes_valid(2)]
    by (auto simp: HandleIssue_def vc_consented_def defs dest!: unconsented)
  show "consented c u ConsentPurposeDecision (vs_registry (ds_vc ds)) \<or>
      (case HandleEvaluate denv clk c u (Some b4) ds of (ds', r) \<Rightarrow>
         forbidden r \<and> only_refusal c u ConsentPurposeDecision (vs_registry (ds_vc ds)) (vs_registry (ds_vc ds')) \<and>
         vs_store (ds_vc ds') = vs_store (ds_vc ds) \<and> vs_tracked (ds_vc ds') = vs_tracked (ds_vc ds) \<and> ds_sink ds' = ds_sink ds)"
    using Evaluate_refused Require_forbidden(1)[OF _ assms(1) purposes_valid(3)] Require_only_refusal[OF _ assms(1) purposes_valid(3)]
    by (auto simp: HandleEvaluate_def consent_checked_def defs dest!: unconsented)
qed

definition ex_no_consent :: reg_state where
  "ex_no_consent = ex_reg_state\<lparr> rg_consent := consent_init \<rparr>"

theorem no_consent_is_forbidden_witness:
  "forbidden (snd (HandleIssue (ex_vc_env False) ''1'' (ex_consent_ctx ex_now) (UserID 1)
       (Some \<lparr> ih_Type = ''AgeOver18'', ih_NationalID = ''ABC123'', ih_parsedType = [], ih_parsedNationalID = NationalID [] \<rparr>)
       (ex_vc_state\<lparr> vs_registry := ex_no_consent \<rparr>)))"
proof -
  let ?b3 = "\<lparr> ih_Type = ''AgeOver18'', ih_NationalID = ''ABC123'', ih_parsedType = [], ih_parsedNationalID = NationalID [] \<rparr>"
  have v: "\<not> UserID_IsNil (UserID 1)" "re_consentPort (ex_reg_env False)" "ve_consentPort (ex_vc_env False)"
    "CitizenLookupRequest_Validate \<lparr> clr_NationalID = ''ABC123'', clr_parsedNationalID = NationalID [] \<rparr> =
       Inr \<lparr> clr_NationalID = ''ABC123'', clr_parsedNationalID = ex_nid \<rparr>"
    "SanctionsCheckRequest_Validate \<lparr> scr_NationalID = ''ABC123'', scr_parsedNationalID = NationalID [] \<rparr> =
       Inr \<lparr> scr_NationalID = ''ABC123'', scr_parsedNationalID = ex_nid \<rparr>"
    "IssueRequest_Validate ?b3 = Inr \<lparr> ih_Type = ''AgeOver18'', ih_NationalID = ''ABC123'', ih_parsedType = ''AgeOver18'', ih_parsedNationalID = ex_nid \<rparr>"
    "EvaluateRequest_Validate \<lparr> eh_Purpose = '' age_verification'', eh_NationalID = ''ABC123'', eh_parsedPurpose = [], eh_parsedNationalID = NationalID [] \<rparr> =
       Inr \<lparr> eh_Purpose = ''age_verification'', eh_NationalID = ''ABC123'', eh_parsedPurpose = ''age_verification'', eh_parsedNationalID = ex_nid \<rparr>"
    by code_simp+
  have "\<not> consented (ex_consent_ctx ex_now) (UserID 1) ConsentPurposeVCIssuance ex_no_consent" by code_simp
  with no_consent_is_forbidden[OF v, where c = "ex_consent_ctx ex_now" and vs = "ex_vc_state\<lparr> vs_registry := ex_no_consent \<rparr>" and fresh = "''1''"]
  show ?thesis by (auto simp: case_prod_unfold)
qed

end
