(* ===== verification/Audit_Publishers.thy ===== *)
theory Audit_Publishers
  imports Complex_Main Audit_Events "HOL-Library.Sublist"
begin

text \<open>
  The buffered and the sampled audit publishers (\<^verbatim>\<open>pkg/platform/audit/publishers\<close>): the ring buffer and the
  security publisher (\<^verbatim>\<open>security\<close>), and the sampler, the circuit breaker and the operational publisher
  (\<^verbatim>\<open>ops\<close>). The audit store is the \<open>audit_sink\<close> of the compliance publisher.

  A clock reading is an argument; \<open>ctx_done\<close> says whether the context is done when a retry waits. The
  draws of the sampler and the rates are rational numbers. Waiting times are left out, and so are metrics
  and logs, which mirror the counters.
\<close>

section \<open>The ring buffer\<close>

record RingBuffer =
  rb_events :: "SecurityEvent list"
  rb_head :: nat
  rb_tail :: nat
  rb_count :: nat
  rb_capacity :: nat
  rb_dropped :: nat

definition zero_SecurityEvent :: SecurityEvent where
  "zero_SecurityEvent = \<lparr> SE_Timestamp = zero_time, SE_Subject = [], SE_Action = [], SE_Reason = [], SE_IP = [],
     SE_RequestID = [], SE_ActorID = [], SE_Severity = SeverityNone \<rparr>"

definition NewRingBuffer :: "int \<Rightarrow> RingBuffer" where
  "NewRingBuffer capacity =
     (let capacity = nat (if capacity \<le> 0 then 10000 else capacity)
      in \<lparr> rb_events = replicate capacity zero_SecurityEvent, rb_head = 0, rb_tail = 0, rb_count = 0,
           rb_capacity = capacity, rb_dropped = 0 \<rparr>)"

definition TryEnqueue :: "SecurityEvent \<Rightarrow> RingBuffer \<Rightarrow> RingBuffer \<times> bool" where
  "TryEnqueue event b =
     (if rb_count b \<ge> rb_capacity b then (b, False)
      else (b\<lparr> rb_events := (rb_events b)[rb_head b := event], rb_head := (rb_head b + 1) mod rb_capacity b,
               rb_count := rb_count b + 1 \<rparr>, True))"

definition Enqueue :: "SecurityEvent \<Rightarrow> RingBuffer \<Rightarrow> RingBuffer" where
  "Enqueue event b =
     (let b = (if rb_count b \<ge> rb_capacity b
               then b\<lparr> rb_tail := (rb_tail b + 1) mod rb_capacity b, rb_count := rb_count b - 1, rb_dropped := rb_dropped b + 1 \<rparr>
               else b)
      in b\<lparr> rb_events := (rb_events b)[rb_head b := event], rb_head := (rb_head b + 1) mod rb_capacity b,
            rb_count := rb_count b + 1 \<rparr>)"

definition DropOldest :: "RingBuffer \<Rightarrow> RingBuffer \<times> bool" where
  "DropOldest b =
     (if rb_count b = 0 then (b, False)
      else (b\<lparr> rb_tail := (rb_tail b + 1) mod rb_capacity b, rb_count := rb_count b - 1, rb_dropped := rb_dropped b + 1 \<rparr>, True))"

fun dequeue_loop :: "nat \<Rightarrow> RingBuffer \<Rightarrow> RingBuffer \<times> SecurityEvent list" where
  "dequeue_loop 0 b = (b, [])"
| "dequeue_loop (Suc n) b =
     (let e = rb_events b ! rb_tail b; (b, es) = dequeue_loop n (b\<lparr> rb_tail := (rb_tail b + 1) mod rb_capacity b \<rparr>)
      in (b, e # es))"

text \<open>\<open>None\<close> is the panic of \<^verbatim>\<open>make\<close> with a negative length.\<close>

definition DequeueBatch :: "int \<Rightarrow> RingBuffer \<Rightarrow> (RingBuffer \<times> SecurityEvent list) option" where
  "DequeueBatch n b =
     (if rb_count b = 0 then Some (b, [])
      else let n = (if n > int (rb_count b) then int (rb_count b) else n)
           in if n < 0 then None
              else let (b, result) = dequeue_loop (nat n) b in Some (b\<lparr> rb_count := rb_count b - nat n \<rparr>, result))"

section \<open>A bounded queue\<close>

text \<open>
  The contract: a queue holds at most \<open>room\<close> elements; a new one goes to the end and drops the oldest
  if the queue is full; a batch is taken from the front.
\<close>

locale bounded_queue =
  fixes ok :: "'b \<Rightarrow> bool" and content :: "'b \<Rightarrow> 'e list" and room :: "'b \<Rightarrow> nat" and drops :: "'b \<Rightarrow> nat"
    and enq :: "'e \<Rightarrow> 'b \<Rightarrow> 'b" and deq :: "nat \<Rightarrow> 'b \<Rightarrow> 'b \<times> 'e list"
  assumes content_room: "ok b \<Longrightarrow> length (content b) \<le> room b \<and> room b > 0"
    and enq_content: "ok b \<Longrightarrow> content (enq e b) = (if length (content b) < room b then content b else tl (content b)) @ [e]"
    and enq_drops: "ok b \<Longrightarrow> drops (enq e b) = drops b + (if length (content b) < room b then 0 else 1)"
    and enq_ok: "ok b \<Longrightarrow> ok (enq e b) \<and> room (enq e b) = room b"
    and deq_content: "ok b \<Longrightarrow> deq n b = (b', es) \<Longrightarrow> es = take n (content b) \<and> content b' = drop n (content b)"
    and deq_ok: "ok b \<Longrightarrow> deq n b = (b', es) \<Longrightarrow> ok b' \<and> room b' = room b \<and> drops b' = drops b"
begin

lemma enq_account: "ok b \<Longrightarrow> length (content (enq e b)) + drops (enq e b) = length (content b) + drops b + 1"
  using content_room[of b] by (auto simp: enq_content enq_drops)

lemma deq_account: "ok b \<Longrightarrow> deq n b = (b', es) \<Longrightarrow> length es + length (content b') + drops b' = length (content b) + drops b"
  using deq_content[of b n b' es] deq_ok[of b n b' es] by simp

lemma enq_subseq: "ok b \<Longrightarrow> subseq (content (enq e b)) (content b @ [e])"
  using suffix_imp_subseq[OF suffix_tl[of "content b"]] by (simp add: enq_content)

lemma deq_split: "ok b \<Longrightarrow> deq n b = (b', es) \<Longrightarrow> es @ content b' = content b"
  using deq_content[of b n b' es] by simp

end

section \<open>The ring buffer is a bounded queue\<close>

definition ring_ok :: "RingBuffer \<Rightarrow> bool" where
  "ring_ok b = (rb_capacity b > 0 \<and> length (rb_events b) = rb_capacity b \<and> rb_count b \<le> rb_capacity b \<and>
     rb_tail b < rb_capacity b \<and> rb_head b = (rb_tail b + rb_count b) mod rb_capacity b)"

definition ring_content :: "RingBuffer \<Rightarrow> SecurityEvent list" where
  "ring_content b = map (\<lambda>i. rb_events b ! ((rb_tail b + i) mod rb_capacity b)) [0..<rb_count b]"

definition ring_deq :: "nat \<Rightarrow> RingBuffer \<Rightarrow> RingBuffer \<times> SecurityEvent list" where
  "ring_deq n b = the (DequeueBatch (int n) b)"

lemma ring_New: "ring_ok (NewRingBuffer capacity)" "ring_content (NewRingBuffer capacity) = []"
  by (auto simp: ring_ok_def ring_content_def NewRingBuffer_def Let_def)

lemma ring_length [simp]: "length (ring_content b) = rb_count b"
  by (simp add: ring_content_def)

text \<open>Writing at the head leaves the queued events alone and adds one at the end.\<close>

lemma mod_add_inj: "(t + i) mod k = (t + j) mod k \<Longrightarrow> i < k \<Longrightarrow> j < k \<Longrightarrow> i = j" for t i j k :: nat
proof -
  assume a: "(t + i) mod k = (t + j) mod k" "i < k" "j < k"
  then have "i mod k = j mod k" using nat_mod_eq_iff[of "t + i" k "t + j"] nat_mod_eq_iff[of i k j] by auto
  then show "i = j" using a(2,3) by simp
qed

lemma ring_write:
  assumes "ring_ok b" "rb_count b < rb_capacity b"
  shows "ring_content (b\<lparr> rb_events := (rb_events b)[rb_head b := e], rb_head := h, rb_count := rb_count b + 1 \<rparr>) = ring_content b @ [e]"
    "rb_head b < rb_capacity b"
proof -
  show h: "rb_head b < rb_capacity b" using assms(1) by (simp add: ring_ok_def)
  have ne: "(rb_tail b + i) mod rb_capacity b \<noteq> rb_head b" if "i < rb_count b" for i
    using mod_add_inj[of "rb_tail b" i "rb_capacity b" "rb_count b"] that assms by (auto simp: ring_ok_def)
  have len: "length (rb_events b) = rb_capacity b" "rb_head b = (rb_tail b + rb_count b) mod rb_capacity b"
    using assms(1) by (simp_all add: ring_ok_def)
  show "ring_content (b\<lparr> rb_events := (rb_events b)[rb_head b := e], rb_head := h, rb_count := rb_count b + 1 \<rparr>) = ring_content b @ [e]"
  proof -
    have "(rb_events b)[rb_head b := e] ! ((rb_tail b + i) mod rb_capacity b) = rb_events b ! ((rb_tail b + i) mod rb_capacity b)"
      if "i < rb_count b" for i using ne[OF that] by simp
    moreover have "(rb_events b)[rb_head b := e] ! ((rb_tail b + rb_count b) mod rb_capacity b) = e" using h len by simp
    ultimately show ?thesis by (simp add: ring_content_def)
  qed
qed

definition ring_drop :: "nat \<Rightarrow> RingBuffer \<Rightarrow> RingBuffer" where
  "ring_drop n b = b\<lparr> rb_tail := (rb_tail b + n) mod rb_capacity b, rb_count := rb_count b - n \<rparr>"

lemma ring_drop_content:
  assumes "ring_ok b" "n \<le> rb_count b"
  shows "ring_ok (ring_drop n b)" "ring_content (ring_drop n b) = drop n (ring_content b)"
proof -
  have "((rb_tail b + n) mod rb_capacity b + (rb_count b - n)) mod rb_capacity b = (rb_tail b + rb_count b) mod rb_capacity b"
    using assms(2) mod_add_left_eq[of "rb_tail b + n" "rb_capacity b" "rb_count b - n"] by (simp only: add.assoc le_add_diff_inverse)
  then show "ring_ok (ring_drop n b)" using assms by (auto simp: ring_ok_def ring_drop_def)
  have "(((rb_tail b + n) mod rb_capacity b) + i) mod rb_capacity b = (rb_tail b + (n + i)) mod rb_capacity b" for i
    by (simp add: mod_add_left_eq add.assoc)
  then show "ring_content (ring_drop n b) = drop n (ring_content b)"
    by (auto simp: ring_content_def ring_drop_def drop_map intro!: nth_equalityI)
qed

lemma dequeue_loop_run:
  assumes "rb_tail b < rb_capacity b"
  shows "dequeue_loop n b = (b\<lparr> rb_tail := (rb_tail b + n) mod rb_capacity b \<rparr>,
    map (\<lambda>i. rb_events b ! ((rb_tail b + i) mod rb_capacity b)) [0..<n])"
  using assms
proof (induction n arbitrary: b)
  case (Suc n)
  define b1 where "b1 = b\<lparr> rb_tail := (rb_tail b + 1) mod rb_capacity b \<rparr>"
  have b1: "rb_tail b1 < rb_capacity b1" "rb_capacity b1 = rb_capacity b" "rb_events b1 = rb_events b"
    using Suc.prems by (simp_all add: b1_def)
  have shift: "(rb_tail b1 + i) mod rb_capacity b = (rb_tail b + Suc i) mod rb_capacity b" for i
    by (simp add: b1_def mod_add_left_eq)
  have "dequeue_loop n b1 = (b\<lparr> rb_tail := (rb_tail b + Suc n) mod rb_capacity b \<rparr>,
      map (\<lambda>i. rb_events b ! ((rb_tail b + Suc i) mod rb_capacity b)) [0..<n])"
    unfolding Suc.IH[OF b1(1)] b1(2,3) shift by (simp add: b1_def)
  then show ?case using Suc.prems unfolding map_upt_Suc by (simp add: b1_def[symmetric] Let_def) (simp add: b1_def)
qed simp

lemma dequeue_loop_eq:
  assumes "ring_ok b" "n \<le> rb_count b"
  shows "dequeue_loop n b = (b\<lparr> rb_tail := (rb_tail b + n) mod rb_capacity b \<rparr>, take n (ring_content b))"
  using assms dequeue_loop_run[of b n] by (simp add: ring_ok_def ring_content_def take_map)

lemma DequeueBatch_eq:
  assumes "ring_ok b" "0 \<le> n"
  shows "DequeueBatch n b = Some (ring_drop (nat (min n (int (rb_count b)))) b, take (nat n) (ring_content b))"
proof -
  define k where "k = nat (min n (int (rb_count b)))"
  have k: "k \<le> rb_count b" "take (nat n) (ring_content b) = take k (ring_content b)" by (auto simp: k_def min_def)
  show ?thesis
  proof (cases "rb_count b = 0")
    case True
    then show ?thesis using assms by (simp add: DequeueBatch_def ring_drop_def ring_ok_def ring_content_def)
  next
    case False
    then have "DequeueBatch n b = (let (b', r) = dequeue_loop k b in Some (b'\<lparr> rb_count := rb_count b' - k \<rparr>, r))"
      using assms(2) by (simp add: DequeueBatch_def k_def min_def Let_def)
    then show ?thesis using dequeue_loop_eq[OF assms(1) k(1)] k(2) by (simp add: ring_drop_def k_def)
  qed
qed

lemma Enqueue_eq:
  assumes "ring_ok b"
  shows "ring_ok (Enqueue e b)" "rb_capacity (Enqueue e b) = rb_capacity b"
    "ring_content (Enqueue e b) = (if rb_count b < rb_capacity b then ring_content b else tl (ring_content b)) @ [e]"
    "rb_dropped (Enqueue e b) = rb_dropped b + (if rb_count b < rb_capacity b then 0 else 1)"
proof -
  define d where "d = (if rb_count b \<ge> rb_capacity b then (ring_drop 1 b)\<lparr> rb_dropped := rb_dropped b + 1 \<rparr> else b)"
  have e: "Enqueue e b = d\<lparr> rb_events := (rb_events d)[rb_head d := e], rb_head := (rb_head d + 1) mod rb_capacity d, rb_count := rb_count d + 1 \<rparr>"
    by (simp add: Enqueue_def d_def ring_drop_def Let_def)
  have d: "ring_ok d" "rb_count d < rb_capacity d" "rb_capacity d = rb_capacity b"
    "ring_content d = (if rb_count b < rb_capacity b then ring_content b else tl (ring_content b))"
    using assms ring_drop_content[OF assms, of 1] by (auto simp: d_def ring_ok_def ring_content_def ring_drop_def drop_Suc)
  show "ring_content (Enqueue e b) = (if rb_count b < rb_capacity b then ring_content b else tl (ring_content b)) @ [e]"
    using ring_write(1)[OF d(1,2)] e d(4) by simp
  show "ring_ok (Enqueue e b)" using d(1,2) by (simp add: e ring_ok_def mod_Suc_eq)
  show "rb_capacity (Enqueue e b) = rb_capacity b" "rb_dropped (Enqueue e b) = rb_dropped b + (if rb_count b < rb_capacity b then 0 else 1)"
    using d(3) by (simp_all add: e) (simp add: d_def)
qed

interpretation ring: bounded_queue ring_ok ring_content rb_capacity rb_dropped Enqueue ring_deq
proof unfold_locales
  fix b :: RingBuffer and e n b' es
  assume ok: "ring_ok b"
  show "length (ring_content b) \<le> rb_capacity b \<and> rb_capacity b > 0" using ok by (simp add: ring_ok_def)
  show "ring_content (Enqueue e b) = (if length (ring_content b) < rb_capacity b then ring_content b else tl (ring_content b)) @ [e]"
    "rb_dropped (Enqueue e b) = rb_dropped b + (if length (ring_content b) < rb_capacity b then 0 else 1)"
    "ring_ok (Enqueue e b) \<and> rb_capacity (Enqueue e b) = rb_capacity b"
    using Enqueue_eq[OF ok] by simp_all
  assume "ring_deq n b = (b', es)"
  then have d: "b' = ring_drop (min n (rb_count b)) b" "es = take n (ring_content b)"
    using DequeueBatch_eq[OF ok, of "int n"] by (simp_all add: ring_deq_def min_def split: if_splits)
  show "es = take n (ring_content b) \<and> ring_content b' = drop n (ring_content b)"
    "ring_ok b' \<and> rb_capacity b' = rb_capacity b \<and> rb_dropped b' = rb_dropped b"
    using ring_drop_content[OF ok, of "min n (rb_count b)"] d by (auto simp: ring_drop_def min_def)
qed

text \<open>\<^bold>\<open>C17\<close> The ring buffer implements a bounded queue that drops its oldest element: a buffer of any
  requested capacity starts empty; enqueueing appends the event to the content and drops the first one,
  counting it, exactly if the buffer was full; dropping the oldest removes the first and counts it; a batch
  of n takes the first n, or all if there are fewer; the number of queued events never exceeds the
  capacity, and the positions stay in range.\<close>

theorem ring_buffer_refines_queue:
  "ring_ok (NewRingBuffer capacity) \<and> ring_content (NewRingBuffer capacity) = [] \<and>
   (ring_ok b \<longrightarrow> 0 \<le> n \<longrightarrow>
     (let b' = Enqueue e b in ring_ok b' \<and> ring_content b' = (if rb_count b = rb_capacity b then tl (ring_content b) else ring_content b) @ [e] \<and>
        rb_dropped b' = rb_dropped b + (if rb_count b = rb_capacity b then 1 else 0)) \<and>
     (case TryEnqueue e b of (b', added) \<Rightarrow> ring_ok b' \<and> added = (rb_count b < rb_capacity b) \<and>
        ring_content b' = (if added then ring_content b @ [e] else ring_content b)) \<and>
     (case DropOldest b of (b', dropped) \<Rightarrow> ring_ok b' \<and> dropped = (ring_content b \<noteq> []) \<and> ring_content b' = tl (ring_content b) \<and>
        rb_dropped b' = rb_dropped b + (if dropped then 1 else 0)) \<and>
     (\<exists>b'. DequeueBatch n b = Some (b', take (nat n) (ring_content b)) \<and> ring_ok b' \<and> ring_content b' = drop (nat n) (ring_content b)) \<and>
     length (ring_content b) \<le> rb_capacity b)"
proof (intro conjI impI)
  assume ok: "ring_ok b" and n: "0 \<le> n"
  then have full: "rb_count b < rb_capacity b \<longleftrightarrow> rb_count b \<noteq> rb_capacity b" by (auto simp: ring_ok_def)
  show "let b' = Enqueue e b in ring_ok b' \<and> ring_content b' = (if rb_count b = rb_capacity b then tl (ring_content b) else ring_content b) @ [e] \<and>
        rb_dropped b' = rb_dropped b + (if rb_count b = rb_capacity b then 1 else 0)"
    using Enqueue_eq[OF ok, of e] full by (simp add: Let_def)
  show "case TryEnqueue e b of (b', added) \<Rightarrow> ring_ok b' \<and> added = (rb_count b < rb_capacity b) \<and>
        ring_content b' = (if added then ring_content b @ [e] else ring_content b)"
  proof (cases "rb_count b < rb_capacity b")
    case True
    then show ?thesis using ring_write(1)[OF ok True, where e = e] Enqueue_eq(1)[OF ok, of e]
      by (simp add: TryEnqueue_def Enqueue_def Let_def)
  qed (simp add: TryEnqueue_def ok)
  show "case DropOldest b of (b', dropped) \<Rightarrow> ring_ok b' \<and> dropped = (ring_content b \<noteq> []) \<and> ring_content b' = tl (ring_content b) \<and>
        rb_dropped b' = rb_dropped b + (if dropped then 1 else 0)"
    using ring_drop_content[OF ok, of 1] ok
    by (cases "rb_count b = 0") (simp_all add: DropOldest_def ring_drop_def ring_content_def ring_ok_def drop_Suc)
  show "\<exists>b'. DequeueBatch n b = Some (b', take (nat n) (ring_content b)) \<and> ring_ok b' \<and> ring_content b' = drop (nat n) (ring_content b)"
    using DequeueBatch_eq[OF ok n] ring_drop_content[OF ok, of "nat (min n (int (rb_count b)))"] n by (auto simp: min_def)
  show "length (ring_content b) \<le> rb_capacity b" using ok by (simp add: ring_ok_def)
qed (simp_all add: ring_New)


definition ex_sec :: "string \<Rightarrow> SecurityEvent" where
  "ex_sec action = zero_SecurityEvent\<lparr> SE_Timestamp := 5, SE_Action := action \<rparr>"

theorem ring_buffer_refines_queue_witness:
  "\<exists>b'. DequeueBatch 5 (Enqueue (ex_sec ''c'') (Enqueue (ex_sec ''b'') (Enqueue (ex_sec ''a'') (NewRingBuffer 2)))) =
     Some (b', [ex_sec ''b'', ex_sec ''c''])"
proof -
  let ?b = "Enqueue (ex_sec ''c'') (Enqueue (ex_sec ''b'') (Enqueue (ex_sec ''a'') (NewRingBuffer 2)))"
  have "ring_ok ?b" by (intro Enqueue_eq(1) ring_New(1))
  moreover have "ring_content ?b = [ex_sec ''b'', ex_sec ''c'']" by code_simp
  ultimately show ?thesis using ring_buffer_refines_queue[of 2 ?b 5] by auto
qed

section \<open>The security publisher\<close>

record SecurityPublisher =
  sp_buffer :: RingBuffer
  sp_maxRetries :: int
  sp_batchSize :: int
  sp_flushed :: nat
  sp_retries :: nat
  sp_droppedAfterRetry :: nat

text \<open>\<^verbatim>\<open>New\<close> with the options for the size of the buffer, the number of retries and the size of a batch.\<close>

definition SecurityPublisher_New :: "int option \<Rightarrow> int option \<Rightarrow> int option \<Rightarrow> SecurityPublisher" where
  "SecurityPublisher_New bufferSize maxRetries batchSize =
     \<lparr> sp_buffer = NewRingBuffer (case bufferSize of None \<Rightarrow> 10000 | Some n \<Rightarrow> n),
       sp_maxRetries = (case maxRetries of None \<Rightarrow> 3 | Some n \<Rightarrow> n),
       sp_batchSize = (case batchSize of None \<Rightarrow> 100 | Some n \<Rightarrow> n),
       sp_flushed = 0, sp_retries = 0, sp_droppedAfterRetry = 0 \<rparr>"

definition stamped :: "time \<Rightarrow> SecurityEvent \<Rightarrow> SecurityEvent" where
  "stamped wall event = (if time_IsZero (SE_Timestamp event) then event\<lparr> SE_Timestamp := wall \<rparr> else event)"

definition Security_Emit :: "time \<Rightarrow> SecurityEvent \<Rightarrow> SecurityPublisher \<Rightarrow> SecurityPublisher" where
  "Security_Emit wall event p = p\<lparr> sp_buffer := Enqueue (stamped wall event) (sp_buffer p) \<rparr>"

fun persist_attempts ::
  "append_result \<Rightarrow> (nat \<Rightarrow> bool) \<Rightarrow> nat \<Rightarrow> Event \<Rightarrow> SecurityPublisher \<Rightarrow> audit_sink \<Rightarrow> SecurityPublisher \<times> audit_sink" where
  "persist_attempts outcome ctx_done 0 ev p s = (p\<lparr> sp_droppedAfterRetry := sp_droppedAfterRetry p + 1 \<rparr>, s)"
| "persist_attempts outcome ctx_done (Suc k) ev p s =
     (case sink_Append outcome ev s of
        (s, None) \<Rightarrow> (p\<lparr> sp_flushed := sp_flushed p + 1 \<rparr>, s)
      | (s, Some _) \<Rightarrow>
          let p = p\<lparr> sp_retries := sp_retries p + 1 \<rparr>
          in if ctx_done (sink_calls s) then (p, s) else persist_attempts outcome ctx_done k ev p s)"

definition persistWithRetry ::
  "append_result \<Rightarrow> (nat \<Rightarrow> bool) \<Rightarrow> SecurityEvent \<Rightarrow> SecurityPublisher \<Rightarrow> audit_sink \<Rightarrow> SecurityPublisher \<times> audit_sink" where
  "persistWithRetry outcome ctx_done event p s =
     persist_attempts outcome ctx_done (nat (sp_maxRetries p + 1)) (SecurityEvent_ToLegacyEvent event) p s"

fun persist_all ::
  "append_result \<Rightarrow> (nat \<Rightarrow> bool) \<Rightarrow> SecurityEvent list \<Rightarrow> SecurityPublisher \<Rightarrow> audit_sink \<Rightarrow> SecurityPublisher \<times> audit_sink" where
  "persist_all outcome ctx_done [] p s = (p, s)"
| "persist_all outcome ctx_done (event # events) p s =
     (case persistWithRetry outcome ctx_done event p s of (p, s) \<Rightarrow> persist_all outcome ctx_done events p s)"

definition flushBatch ::
  "append_result \<Rightarrow> (nat \<Rightarrow> bool) \<Rightarrow> SecurityPublisher \<Rightarrow> audit_sink \<Rightarrow> (SecurityPublisher \<times> audit_sink) option" where
  "flushBatch outcome ctx_done p s =
     (case DequeueBatch (sp_batchSize p) (sp_buffer p) of
        None \<Rightarrow> None
      | Some (b, events) \<Rightarrow>
          let p = p\<lparr> sp_buffer := b \<rparr>
          in if length events = 0 then Some (p, s) else Some (persist_all outcome ctx_done events p s))"

text \<open>The final drain of \<^verbatim>\<open>Close\<close>, which ends when the buffer is empty; \<^verbatim>\<open>flushBatch\<close> never returns an
  error, so nothing else ends it.\<close>

partial_function (option) Security_Close ::
  "append_result \<Rightarrow> (nat \<Rightarrow> bool) \<Rightarrow> SecurityPublisher \<Rightarrow> audit_sink \<Rightarrow> (SecurityPublisher \<times> audit_sink) option" where
  "Security_Close outcome ctx_done p s =
     (if rb_count (sp_buffer p) > 0
      then (case flushBatch outcome ctx_done p s of
              None \<Rightarrow> None
            | Some r \<Rightarrow> Security_Close outcome ctx_done (fst r) (snd r))
      else Some (p, s))"

record BufferStats =
  bs_Queued :: nat
  bs_Flushed :: nat
  bs_Dropped :: nat
  bs_DroppedAfterRetry :: nat
  bs_Retries :: nat

definition Security_Stats :: "SecurityPublisher \<Rightarrow> BufferStats" where
  "Security_Stats p = \<lparr> bs_Queued = rb_count (sp_buffer p), bs_Flushed = sp_flushed p, bs_Dropped = rb_dropped (sp_buffer p),
     bs_DroppedAfterRetry = sp_droppedAfterRetry p, bs_Retries = sp_retries p \<rparr>"


subsection \<open>Where every event goes\<close>

text \<open>What one event, and then a batch, leaves behind when the context is not done.\<close>

abbreviation never :: "nat \<Rightarrow> bool" where
  "never \<equiv> \<lambda>_. False"

definition handled :: "SecurityPublisher \<Rightarrow> nat" where
  "handled p = sp_flushed p + sp_droppedAfterRetry p"

definition persisted :: "SecurityEvent list \<Rightarrow> SecurityPublisher \<times> audit_sink \<Rightarrow> SecurityPublisher \<times> audit_sink \<Rightarrow> bool" where
  "persisted events ps ps' =
     (sp_buffer (fst ps') = sp_buffer (fst ps) \<and> sp_batchSize (fst ps') = sp_batchSize (fst ps) \<and>
      handled (fst ps') = handled (fst ps) + length events \<and>
      (\<exists>es. sink_events (snd ps') = sink_events (snd ps) @ es \<and> sp_flushed (fst ps') = sp_flushed (fst ps) + length es \<and>
            subseq es (map SecurityEvent_ToLegacyEvent events)))"

lemma persist_attempts_persisted:
  "persisted [event] (p, s) (persist_attempts outcome never k (SecurityEvent_ToLegacyEvent event) p s)"
proof (induction k arbitrary: p s)
  case 0
  then show ?case by (simp add: persisted_def handled_def)
next
  case (Suc k)
  obtain s1 e where a: "sink_Append outcome (SecurityEvent_ToLegacyEvent event) s = (s1, e)" by force
  show ?case
  proof (cases e)
    case None
    then show ?thesis using a by (auto simp: persisted_def handled_def sink_Append_def split: option.splits)
  next
    case (Some x)
    then have "sink_events s1 = sink_events s" using a by (auto simp: sink_Append_def split: option.splits)
    then show ?thesis using Suc.IH[of "p\<lparr> sp_retries := sp_retries p + 1 \<rparr>" s1] a Some
      by (simp add: persisted_def handled_def Let_def)
  qed
qed

lemma persist_all_persisted: "persisted events (p, s) (persist_all outcome never events p s)"
proof (induction events arbitrary: p s)
  case Nil
  then show ?case by (simp add: persisted_def)
next
  case (Cons event events)
  obtain p1 s1 where 1: "persistWithRetry outcome never event p s = (p1, s1)" by force
  have a: "persisted [event] (p, s) (p1, s1)" using persist_attempts_persisted 1 by (metis persistWithRetry_def)
  have b: "persisted events (p1, s1) (persist_all outcome never events p1 s1)" by (rule Cons.IH)
  obtain es1 es2 where es: "sink_events s1 = sink_events s @ es1" "subseq es1 (map SecurityEvent_ToLegacyEvent [event])"
    "sp_flushed p1 = sp_flushed p + length es1"
    "sink_events (snd (persist_all outcome never events p1 s1)) = sink_events s1 @ es2" "subseq es2 (map SecurityEvent_ToLegacyEvent events)"
    "sp_flushed (fst (persist_all outcome never events p1 s1)) = sp_flushed p1 + length es2"
    using a b by (auto simp: persisted_def)
  then have "subseq (es1 @ es2) (map SecurityEvent_ToLegacyEvent (event # events))"
    using list_emb_append_mono[OF es(2,5)] by simp
  then show ?case using a b es 1 by (auto simp: persisted_def intro!: exI[of _ "es1 @ es2"])
qed

lemma flushBatch_persisted:
  assumes "ring_ok (sp_buffer p)" "0 \<le> sp_batchSize p"
  defines "out \<equiv> take (nat (sp_batchSize p)) (ring_content (sp_buffer p))"
  shows "\<exists>p1 p' s'. flushBatch outcome never p s = Some (p', s') \<and> persisted out (p1, s) (p', s') \<and>
    p1 = p\<lparr> sp_buffer := sp_buffer p' \<rparr> \<and> ring_ok (sp_buffer p') \<and> out @ ring_content (sp_buffer p') = ring_content (sp_buffer p) \<and>
    rb_dropped (sp_buffer p') = rb_dropped (sp_buffer p)"
proof -
  let ?b = "ring_drop (nat (min (sp_batchSize p) (int (rb_count (sp_buffer p))))) (sp_buffer p)"
  have d: "DequeueBatch (sp_batchSize p) (sp_buffer p) = Some (?b, out)" using DequeueBatch_eq[OF assms(1,2)] by (simp add: out_def)
  have c: "ring_ok ?b" "out @ ring_content ?b = ring_content (sp_buffer p)" "rb_dropped ?b = rb_dropped (sp_buffer p)"
    using ring_drop_content[OF assms(1), of "nat (min (sp_batchSize p) (int (rb_count (sp_buffer p))))"] assms(2)
    by (auto simp: out_def min_def ring_drop_def)
  let ?r = "persist_all outcome never out (p\<lparr> sp_buffer := ?b \<rparr>) s"
  have "flushBatch outcome never p s = Some ?r" using d by (auto simp: flushBatch_def Let_def)
  moreover have "persisted out (p\<lparr> sp_buffer := ?b \<rparr>, s) ?r" by (rule persist_all_persisted)
  moreover then have "sp_buffer (fst ?r) = ?b" by (simp add: persisted_def)
  ultimately show ?thesis using c by (metis prod.collapse)
qed


datatype sec_op = SecEmit time SecurityEvent | SecFlush

fun sec_run :: "append_result \<Rightarrow> sec_op list \<Rightarrow> SecurityPublisher \<times> audit_sink \<Rightarrow> (SecurityPublisher \<times> audit_sink) option" where
  "sec_run outcome [] ps = Some ps"
| "sec_run outcome (SecEmit wall e # ops) ps = sec_run outcome ops (Security_Emit wall e (fst ps), snd ps)"
| "sec_run outcome (SecFlush # ops) ps =
     (case flushBatch outcome never (fst ps) (snd ps) of None \<Rightarrow> None | Some ps \<Rightarrow> sec_run outcome ops ps)"

fun emitted :: "sec_op list \<Rightarrow> SecurityEvent list" where
  "emitted [] = []"
| "emitted (SecEmit wall e # ops) = stamped wall e # emitted ops"
| "emitted (SecFlush # ops) = emitted ops"

definition sec_inv :: "SecurityEvent list \<Rightarrow> Event list \<Rightarrow> SecurityPublisher \<times> audit_sink \<Rightarrow> bool" where
  "sec_inv history base ps =
     (ring_ok (sp_buffer (fst ps)) \<and>
      length history = handled (fst ps) + rb_count (sp_buffer (fst ps)) + rb_dropped (sp_buffer (fst ps)) \<and>
      (\<exists>es out. sink_events (snd ps) = base @ es \<and> length es = sp_flushed (fst ps) \<and>
         subseq es (map SecurityEvent_ToLegacyEvent out) \<and> subseq (out @ ring_content (sp_buffer (fst ps))) history))"

lemma sec_inv_emit:
  assumes "sec_inv history base (p, s)"
  shows "sec_inv (history @ [stamped wall e]) base (Security_Emit wall e p, s)"
proof -
  let ?b = "sp_buffer p" and ?e = "stamped wall e"
  obtain es out where o: "sink_events s = base @ es" "length es = sp_flushed p" "subseq es (map SecurityEvent_ToLegacyEvent out)"
    "subseq (out @ ring_content ?b) history" and ok: "ring_ok ?b"
    and n: "length history = handled p + rb_count ?b + rb_dropped ?b" using assms by (auto simp: sec_inv_def)
  have "subseq (out @ ring_content (Enqueue ?e ?b)) ((out @ ring_content ?b) @ [?e])"
    using list_emb_append_mono[OF subseq_order.order_refl[of out] ring.enq_subseq[OF ok, of ?e]] by simp
  also have "subseq \<dots> (history @ [?e])" using list_emb_append_mono[OF o(4) subseq_order.order_refl[of "[?e]"]] by simp
  finally show ?thesis using o(1-3) n ring.enq_account[OF ok, of ?e] Enqueue_eq(1)[OF ok, of ?e]
    by (auto simp: sec_inv_def Security_Emit_def handled_def)
qed

lemma sec_inv_flush:
  assumes "sec_inv history base (p, s)" "0 \<le> sp_batchSize p"
  shows "\<exists>p' s'. flushBatch outcome never p s = Some (p', s') \<and> sec_inv history base (p', s') \<and> sp_batchSize p' = sp_batchSize p \<and>
    rb_count (sp_buffer p') = rb_count (sp_buffer p) - nat (sp_batchSize p)"
proof -
  let ?out = "take (nat (sp_batchSize p)) (ring_content (sp_buffer p))"
  obtain es out where o: "sink_events s = base @ es" "length es = sp_flushed p" "subseq es (map SecurityEvent_ToLegacyEvent out)"
    "subseq (out @ ring_content (sp_buffer p)) history" and ok: "ring_ok (sp_buffer p)"
    and n: "length history = handled p + rb_count (sp_buffer p) + rb_dropped (sp_buffer p)" using assms(1) by (auto simp: sec_inv_def)
  obtain p' s' where f: "flushBatch outcome never p s = Some (p', s')" "persisted ?out (p\<lparr> sp_buffer := sp_buffer p' \<rparr>, s) (p', s')"
    "ring_ok (sp_buffer p')" "?out @ ring_content (sp_buffer p') = ring_content (sp_buffer p)"
    "rb_dropped (sp_buffer p') = rb_dropped (sp_buffer p)" using flushBatch_persisted[OF ok assms(2)] by metis
  obtain es2 where e2: "sink_events s' = sink_events s @ es2" "sp_flushed p' = sp_flushed p + length es2"
    "subseq es2 (map SecurityEvent_ToLegacyEvent ?out)" and h: "handled p' = handled p + length ?out" "sp_batchSize p' = sp_batchSize p"
    using f(2) by (auto simp: persisted_def handled_def)
  have len: "length ?out + rb_count (sp_buffer p') = rb_count (sp_buffer p)" using arg_cong[OF f(4), of length] by simp
  have "subseq (es @ es2) (map SecurityEvent_ToLegacyEvent (out @ ?out))" using list_emb_append_mono[OF o(3) e2(3)] by simp
  moreover have "subseq ((out @ ?out) @ ring_content (sp_buffer p')) history" using o(4) f(4) by simp
  ultimately have "sec_inv history base (p', s')"
    using o(1,2) e2(1,2) f(3,5) n h(1) len unfolding sec_inv_def by (intro conjI exI[of _ "es @ es2"] exI[of _ "out @ ?out"]) simp_all
  then show ?thesis using f(1) h(2) len by auto
qed

lemma sec_run_inv:
  assumes "sec_inv history base ps" "0 \<le> sp_batchSize (fst ps)"
  shows "\<exists>ps'. sec_run outcome ops ps = Some ps' \<and> sec_inv (history @ emitted ops) base ps' \<and> sp_batchSize (fst ps') = sp_batchSize (fst ps)"
  using assms
proof (induction outcome ops ps arbitrary: history rule: sec_run.induct)
  case (2 outcome wall e ops ps)
  have "sec_inv (history @ [stamped wall e]) base (Security_Emit wall e (fst ps), snd ps)"
    using sec_inv_emit[of history base "fst ps" "snd ps"] "2.prems" by simp
  with "2.IH"[OF this] "2.prems"(2) show ?case by (simp add: Security_Emit_def)
next
  case (3 outcome ops ps)
  obtain ps' where "flushBatch outcome never (fst ps) (snd ps) = Some ps'" "sec_inv history base ps'" "sp_batchSize (fst ps') = sp_batchSize (fst ps)"
    using sec_inv_flush[of history base "fst ps" "snd ps" outcome] "3.prems" by auto
  with "3.IH"[OF this(1,2)] "3.prems"(2) show ?case by simp
qed simp

lemma Security_Close_inv:
  assumes "sec_inv history base ps" "0 < sp_batchSize (fst ps)"
  shows "\<exists>ps'. Security_Close outcome never (fst ps) (snd ps) = Some ps' \<and> sec_inv history base ps' \<and> rb_count (sp_buffer (fst ps')) = 0"
  using assms
proof (induction "rb_count (sp_buffer (fst ps))" arbitrary: ps rule: less_induct)
  case less
  show ?case
  proof (cases "rb_count (sp_buffer (fst ps)) = 0")
    case True
    then show ?thesis using less.prems(1) by (subst Security_Close.simps) simp
  next
    case False
    obtain ps' where f: "flushBatch outcome never (fst ps) (snd ps) = Some ps'" "sec_inv history base ps'" "sp_batchSize (fst ps') = sp_batchSize (fst ps)"
      "rb_count (sp_buffer (fst ps')) = rb_count (sp_buffer (fst ps)) - nat (sp_batchSize (fst ps))"
      using sec_inv_flush[of history base "fst ps" "snd ps" outcome] less.prems by auto
    then have "rb_count (sp_buffer (fst ps')) < rb_count (sp_buffer (fst ps))" using False less.prems(2) by simp
    from less.hyps[OF this f(2)] f False less.prems(2) show ?thesis by (subst Security_Close.simps) simp
  qed
qed

text \<open>\<^bold>\<open>C16\<close> As long as no context of a flush is cancelled, no security event disappears without being
  counted: take a fresh publisher with batches of at least one, and any run of emissions and of flushes under
  contexts that do not end, whatever the audit store answers. After the run and the drain of \<^verbatim>\<open>Close\<close>, which
  ends, the buffer is empty, and the number of events emitted is the number flushed plus those dropped from a
  full buffer plus those dropped after the last retry, as the statistics report them. What was stored are as
  many events as were counted as flushed, each of an emission, in the order of the emissions. (Under a context
  that ends during a backoff an event can be lost uncounted, and with batches of zero the drain does not end.)\<close>

theorem security_events_accounted:
  assumes "p0 = SecurityPublisher_New bufferSize maxRetries batchSize" and "0 < sp_batchSize p0"
  shows "\<exists>p s p' s'. sec_run outcome ops (p0, s0) = Some (p, s) \<and> Security_Close outcome never p s = Some (p', s') \<and>
    bs_Queued (Security_Stats p) \<le> rb_capacity (sp_buffer p) \<and> bs_Queued (Security_Stats p') = 0 \<and>
    length (emitted ops) = bs_Flushed (Security_Stats p') + bs_Dropped (Security_Stats p') + bs_DroppedAfterRetry (Security_Stats p') \<and>
    (\<exists>es. sink_events s' = sink_events s0 @ es \<and> length es = bs_Flushed (Security_Stats p') \<and>
       subseq es (map SecurityEvent_ToLegacyEvent (emitted ops)))"
proof -
  have "sec_inv [] (sink_events s0) (p0, s0)"
    using ring_New by (auto simp: sec_inv_def assms(1) SecurityPublisher_New_def handled_def NewRingBuffer_def Let_def ring_content_def
        intro!: exI[of _ "[]"])
  from sec_run_inv[OF this, of outcome ops] assms(2) obtain p s where r: "sec_run outcome ops (p0, s0) = Some (p, s)"
    "sec_inv (emitted ops) (sink_events s0) (p, s)" "sp_batchSize p = sp_batchSize p0" by auto
  from Security_Close_inv[OF r(2), of outcome] r(3) assms(2) obtain p' s' where c: "Security_Close outcome never p s = Some (p', s')"
    "sec_inv (emitted ops) (sink_events s0) (p', s')" "rb_count (sp_buffer p') = 0" by auto
  then obtain es out where o: "sink_events s' = sink_events s0 @ es" "length es = sp_flushed p'"
    "subseq es (map SecurityEvent_ToLegacyEvent out)" "subseq out (emitted ops)" by (auto simp: sec_inv_def ring_content_def)
  have "subseq es (map SecurityEvent_ToLegacyEvent (emitted ops))" using o(3) subseq_map[OF o(4)] by (metis subseq_order.order_trans)
  moreover have "rb_count (sp_buffer p) \<le> rb_capacity (sp_buffer p)" using r(2) by (simp add: sec_inv_def ring_ok_def)
  moreover have "length (emitted ops) = sp_flushed p' + rb_dropped (sp_buffer p') + sp_droppedAfterRetry p'"
    using c(2,3) by (simp add: sec_inv_def handled_def)
  ultimately show ?thesis using r(1) c(1,3) o(1,2) by (auto simp: Security_Stats_def)
qed

text \<open>A buffer of two, three events, and a store that is down for the first six calls: one event is
  dropped from the buffer, one after its retries, and one is stored.\<close>

theorem security_events_accounted_witness:
  "\<exists>p s p' s'. sec_run (\<lambda>k. if k < 6 then Some (Errorf ''down'') else None)
       [SecEmit 1 (ex_sec ''a''), SecEmit 2 (ex_sec ''b''), SecEmit 3 (ex_sec ''c'')]
       (SecurityPublisher_New (Some 2) None None, \<lparr> sink_events = [], sink_calls = 0 \<rparr>) = Some (p, s) \<and>
     Security_Close (\<lambda>k. if k < 6 then Some (Errorf ''down'') else None) never p s = Some (p', s') \<and>
     3 = bs_Flushed (Security_Stats p') + bs_Dropped (Security_Stats p') + bs_DroppedAfterRetry (Security_Stats p')"
proof -
  have "0 < sp_batchSize (SecurityPublisher_New (Some 2) None None)" by (simp add: SecurityPublisher_New_def)
  from security_events_accounted[OF refl this, of "\<lambda>k. if k < 6 then Some (Errorf ''down'') else None"
      "[SecEmit 1 (ex_sec ''a''), SecEmit 2 (ex_sec ''b''), SecEmit 3 (ex_sec ''c'')]" "\<lparr> sink_events = [], sink_calls = 0 \<rparr>"]
  show ?thesis by (simp add: numeral_3_eq_3) blast
qed

section \<open>The operational publisher\<close>

record Sampler =
  smp_defaultRate :: rat
  smp_rateByAction :: "(string, rat) kv"

definition clamp_rate :: "rat \<Rightarrow> rat" where
  "clamp_rate rate = (let rate = (if rate < 0 then 0 else rate) in if rate > 1 then 1 else rate)"

definition NewSampler :: "rat \<Rightarrow> Sampler" where
  "NewSampler defaultRate = \<lparr> smp_defaultRate = clamp_rate defaultRate, smp_rateByAction = [] \<rparr>"

definition rateFor :: "string \<Rightarrow> Sampler \<Rightarrow> rat" where
  "rateFor action s = (case kv_get (smp_rateByAction s) action of Some rate \<Rightarrow> rate | None \<Rightarrow> smp_defaultRate s)"

definition ShouldSample :: "rat \<Rightarrow> string \<Rightarrow> Sampler \<Rightarrow> bool" where
  "ShouldSample draw action s = (draw < rateFor action s)"

definition SetRate :: "string \<Rightarrow> rat \<Rightarrow> Sampler \<Rightarrow> Sampler" where
  "SetRate action rate s = s\<lparr> smp_rateByAction := kv_put (smp_rateByAction s) action (clamp_rate rate) \<rparr>"

definition SetDefaultRate :: "rat \<Rightarrow> Sampler \<Rightarrow> Sampler" where
  "SetDefaultRate rate s = s\<lparr> smp_defaultRate := clamp_rate rate \<rparr>"

text \<open>A draw lies in [0, 1), so a rate of 1 keeps every event and a rate of 0 none.\<close>

lemma ShouldSample_extreme:
  assumes "0 \<le> draw" "draw < 1"
  shows "1 \<le> rate \<Longrightarrow> ShouldSample draw action (SetRate action rate s)" "rate \<le> 0 \<Longrightarrow> \<not> ShouldSample draw action (SetRate action rate s)"
  using assms by (auto simp: ShouldSample_def rateFor_def SetRate_def clamp_rate_def kv_simps Let_def)

record OpsBreaker =
  ob_threshold :: int
  ob_cooldown :: duration
  ob_failures :: int
  ob_openUntil :: time
  ob_isOpen :: bool

definition NewOpsBreaker :: "int \<Rightarrow> duration \<Rightarrow> OpsBreaker" where
  "NewOpsBreaker threshold cooldown =
     \<lparr> ob_threshold = (if threshold \<le> 0 then 5 else threshold), ob_cooldown = (if cooldown \<le> 0 then minute else cooldown),
       ob_failures = 0, ob_openUntil = zero_time, ob_isOpen = False \<rparr>"

text \<open>The second test is made under the write lock, with a later reading of the clock.\<close>

definition OpsBreaker_Allow :: "time \<Rightarrow> time \<Rightarrow> OpsBreaker \<Rightarrow> OpsBreaker \<times> bool" where
  "OpsBreaker_Allow now now' cb =
     (if \<not> ob_isOpen cb then (cb, True)
      else if ob_openUntil cb < now
      then let cb = (if ob_isOpen cb \<and> ob_openUntil cb < now' then cb\<lparr> ob_isOpen := False, ob_failures := 0 \<rparr> else cb)
           in (cb, \<not> ob_isOpen cb)
      else (cb, False))"

definition OpsBreaker_RecordSuccess :: "OpsBreaker \<Rightarrow> OpsBreaker" where
  "OpsBreaker_RecordSuccess cb = cb\<lparr> ob_failures := 0, ob_isOpen := False \<rparr>"

definition OpsBreaker_RecordFailure :: "time \<Rightarrow> OpsBreaker \<Rightarrow> OpsBreaker" where
  "OpsBreaker_RecordFailure now cb =
     (let cb = cb\<lparr> ob_failures := ob_failures cb + 1 \<rparr>
      in if ob_failures cb \<ge> ob_threshold cb then cb\<lparr> ob_isOpen := True, ob_openUntil := now + ob_cooldown cb \<rparr> else cb)"

definition OpsBreaker_Reset :: "OpsBreaker \<Rightarrow> OpsBreaker" where
  "OpsBreaker_Reset cb = cb\<lparr> ob_failures := 0, ob_isOpen := False \<rparr>"

record OpsPublisher =
  op_sampler :: Sampler
  op_circuitBreaker :: OpsBreaker
  op_tracked :: nat
  op_sampled :: nat
  op_circuitBreakerDropped :: nat
  op_persistFailures :: nat

text \<open>\<^verbatim>\<open>Track\<close> starts a goroutine for an event it keeps; the events on their way to the store are the
  list \<open>inflight\<close>, and a goroutine runs \<^verbatim>\<open>persist\<close> at any later moment.\<close>

definition Ops_Track ::
  "rat \<Rightarrow> time \<Rightarrow> time \<Rightarrow> time \<Rightarrow> OpsEvent \<Rightarrow> OpsPublisher \<times> OpsEvent list \<Rightarrow> OpsPublisher \<times> OpsEvent list" where
  "Ops_Track draw now now' wall event st =
     (let (p, inflight) = st
      in if \<not> ShouldSample draw (OE_Action event) (op_sampler p) then (p\<lparr> op_sampled := op_sampled p + 1 \<rparr>, inflight)
         else let (cb, allowed) = OpsBreaker_Allow now now' (op_circuitBreaker p); p = p\<lparr> op_circuitBreaker := cb \<rparr>
              in if \<not> allowed then (p\<lparr> op_circuitBreakerDropped := op_circuitBreakerDropped p + 1 \<rparr>, inflight)
                 else (p, inflight @ [if time_IsZero (OE_Timestamp event) then event\<lparr> OE_Timestamp := wall \<rparr> else event]))"

definition Ops_persist ::
  "append_result \<Rightarrow> time \<Rightarrow> OpsEvent \<Rightarrow> OpsPublisher \<Rightarrow> audit_sink \<Rightarrow> OpsPublisher \<times> audit_sink" where
  "Ops_persist outcome now event p s =
     (case sink_Append outcome (OpsEvent_ToLegacyEvent event) s of
        (s, Some _) \<Rightarrow>
          (p\<lparr> op_circuitBreaker := OpsBreaker_RecordFailure now (op_circuitBreaker p), op_persistFailures := op_persistFailures p + 1 \<rparr>, s)
      | (s, None) \<Rightarrow>
          (p\<lparr> op_circuitBreaker := OpsBreaker_RecordSuccess (op_circuitBreaker p), op_tracked := op_tracked p + 1 \<rparr>, s))"

text \<open>Every call of \<^verbatim>\<open>Track\<close> is counted as sampled out, dropped by the breaker, or is on its way; an event on
  its way ends as tracked, and stored, or as a failure.\<close>

lemma Ops_Track_counted:
  "Ops_Track draw now now' wall event (p, fs) = (p', fs') \<Longrightarrow>
   op_sampled p' + op_circuitBreakerDropped p' + length fs' = op_sampled p + op_circuitBreakerDropped p + length fs + 1 \<and>
   op_tracked p' = op_tracked p \<and> op_persistFailures p' = op_persistFailures p"
  by (auto simp: Ops_Track_def Let_def split: if_splits prod.splits)

lemma Ops_persist_counted:
  "Ops_persist outcome now event p s = (p', s') \<Longrightarrow>
   op_tracked p' + op_persistFailures p' = op_tracked p + op_persistFailures p + 1 \<and>
   length (sink_events s') + op_tracked p = length (sink_events s) + op_tracked p'"
  by (auto simp: Ops_persist_def sink_Append_def split: option.splits)

text \<open>The breaker opens with the failure that reaches the threshold, refuses until the cooldown is over,
  and then admits events again.\<close>

lemma OpsBreaker_cycle:
  assumes "ob_failures cb + 1 \<ge> ob_threshold cb" "now \<le> now'"
  shows "snd (OpsBreaker_Allow now now' (OpsBreaker_RecordFailure t cb)) \<longleftrightarrow> t + ob_cooldown cb < now"
  using assms by (auto simp: OpsBreaker_Allow_def OpsBreaker_RecordFailure_def Let_def)

lemma OpsBreaker_below_threshold:
  "\<not> ob_isOpen cb \<Longrightarrow> ob_failures cb + 1 < ob_threshold cb \<Longrightarrow> \<not> ob_isOpen (OpsBreaker_RecordFailure now cb)"
  by (simp add: OpsBreaker_RecordFailure_def Let_def)

end
