(* ===== verification/Audit_Pipeline.thy ===== *)
theory Audit_Pipeline
  imports Audit_Events
begin

text \<open>
  The audit pipeline behind the database (\<^verbatim>\<open>pkg/platform/audit/store/postgres\<close>, \<^verbatim>\<open>outbox\<close>,
  \<^verbatim>\<open>consumer\<close>, \<^verbatim>\<open>internal/platform/kafka/consumer\<close>): an event is written to the outbox table, a worker
  publishes pending entries to Kafka and marks them, and a consumer writes each message to the table of
  audit events under the key of the message.

  The tables are lists of rows and association lists, with what the SQL statements do to them. A topic is
  the list of its messages in one partition; the consumer group has a committed offset and a consumer
  its position, from which it reads on and which a restart sets back to the committed offset. A message
  has the payload as a value: JSON and the RFC 3339 text of a timestamp, which names the instant to the
  nanosecond, are left out; \<open>None\<close> is a value that is not JSON. The text of a UUID, its parser,
  and what the time column of the table keeps of an instant (it has no nanoseconds) are parameters.
\<close>

section \<open>Categories\<close>

definition eventCategories :: "(string, EventCategory) kv" where
  "eventCategories =
     [(''user_created'', CategoryCompliance), (''user_deleted'', CategoryCompliance), (''consent_granted'', CategoryCompliance),
      (''consent_revoked'', CategoryCompliance), (''consent_deleted'', CategoryCompliance),
      (''auth_failed'', CategorySecurity), (''session_revoked'', CategorySecurity), (''sessions_revoked'', CategorySecurity),
      (''client_secret_rotated'', CategorySecurity), (''rate_limit_exceeded'', CategorySecurity),
      (''auth_lockout_triggered'', CategorySecurity), (''auth_lockout_cleared'', CategorySecurity),
      (''allowlist_bypassed'', CategorySecurity), (''tenant_deactivated'', CategorySecurity), (''client_deactivated'', CategorySecurity),
      (''session_created'', CategoryOperations), (''token_issued'', CategoryOperations), (''token_refreshed'', CategoryOperations),
      (''userinfo_accessed'', CategoryOperations), (''consent_checked'', CategoryOperations), (''tenant_created'', CategoryOperations),
      (''tenant_reactivated'', CategoryOperations), (''client_created'', CategoryOperations), (''client_reactivated'', CategoryOperations),
      (''decision_made'', CategoryCompliance)]"

definition AuditEvent_Category :: "string \<Rightarrow> EventCategory" where
  "AuditEvent_Category e = (case kv_get eventCategories e of Some cat \<Rightarrow> cat | None \<Rightarrow> CategoryOperations)"

lemma Category_nonempty: "AuditEvent_Category e \<noteq> []"
proof -
  have "list_all (\<lambda>(_, cat). cat \<noteq> []) eventCategories" by code_simp
  then show ?thesis by (auto simp: AuditEvent_Category_def list_all_iff CategoryOperations_def split: option.split dest!: map_of_SomeD)
qed

section \<open>The outbox\<close>

record payload =
  pay_ID :: string
  pay_Category :: string
  pay_Timestamp :: time
  pay_UserID :: string
  pay_Subject :: string
  pay_Action :: string
  pay_Purpose :: string
  pay_RequestingParty :: string
  pay_Decision :: string
  pay_Reason :: string
  pay_Email :: string
  pay_RequestID :: string
  pay_ActorID :: string

record Entry =
  Entry_ID :: uuid
  Entry_AggregateType :: string
  Entry_AggregateID :: string
  Entry_EventType :: string
  Entry_Payload :: payload
  Entry_CreatedAt :: time
  Entry_ProcessedAt :: "time option"

definition IsPending :: "Entry \<Rightarrow> bool" where
  "IsPending e = (Entry_ProcessedAt e = None)"

text \<open>\<^verbatim>\<open>Append\<close> of the audit store: \<open>eventID\<close> and \<open>entryID\<close> are fresh, \<open>now\<close> is the clock.\<close>

definition user_text :: "(uuid \<Rightarrow> string) \<Rightarrow> UserID \<Rightarrow> string" where
  "user_text uuid_String u = (case u of UserID i \<Rightarrow> uuid_String i)"

definition outboxPayload :: "(uuid \<Rightarrow> string) \<Rightarrow> uuid \<Rightarrow> Event \<Rightarrow> payload" where
  "outboxPayload uuid_String eventID event =
     \<lparr> pay_ID = uuid_String eventID, pay_Category = AuditEvent_Category (Event_Action event), pay_Timestamp = Event_Timestamp event,
       pay_UserID = (if \<not> UserID_IsNil (Event_UserID event) then user_text uuid_String (Event_UserID event) else []),
       pay_Subject = Event_Subject event, pay_Action = Event_Action event, pay_Purpose = Event_Purpose event,
       pay_RequestingParty = Event_RequestingParty event, pay_Decision = Event_Decision event, pay_Reason = Event_Reason event,
       pay_Email = Event_Email event, pay_RequestID = Event_RequestID event, pay_ActorID = Event_ActorID event \<rparr>"

definition AuditPostgres_Append :: "(uuid \<Rightarrow> string) \<Rightarrow> uuid \<Rightarrow> uuid \<Rightarrow> time \<Rightarrow> Event \<Rightarrow> Entry list \<Rightarrow> Entry list" where
  "AuditPostgres_Append uuid_String eventID entryID now event outbox =
     (let user = \<not> UserID_IsNil (Event_UserID event)
      in outbox @
        [\<lparr> Entry_ID = entryID, Entry_AggregateType = (if user then ''user'' else ''audit''),
           Entry_AggregateID = (if user then user_text uuid_String (Event_UserID event) else uuid_String eventID),
           Entry_EventType = Event_Action event, Entry_Payload = outboxPayload uuid_String eventID event,
           Entry_CreatedAt = now, Entry_ProcessedAt = None \<rparr>])"

definition FetchUnprocessed :: "int \<Rightarrow> Entry list \<Rightarrow> Entry list" where
  "FetchUnprocessed limit outbox =
     (if limit \<le> 0 then []
      else take (nat (if limit > 1000 then 1000 else limit)) (sort_key Entry_CreatedAt (filter IsPending outbox)))"

text \<open>The update touches the row only while it is pending; no affected row is an error.\<close>

definition MarkProcessed :: "uuid \<Rightarrow> time \<Rightarrow> Entry list \<Rightarrow> Entry list \<times> go_error option" where
  "MarkProcessed i processedAt outbox =
     (if (\<exists>e \<in> set outbox. Entry_ID e = i \<and> IsPending e)
      then (map (\<lambda>e. if Entry_ID e = i \<and> IsPending e then e\<lparr> Entry_ProcessedAt := Some processedAt \<rparr> else e) outbox, None)
      else (outbox, Some (Errorf ''outbox entry not found or already processed'')))"

definition CountPending :: "Entry list \<Rightarrow> nat" where
  "CountPending outbox = length (filter IsPending outbox)"

definition DeleteProcessedBefore :: "time \<Rightarrow> Entry list \<Rightarrow> Entry list \<times> nat" where
  "DeleteProcessedBefore before outbox =
     (let gone = (\<lambda>e. case Entry_ProcessedAt e of None \<Rightarrow> False | Some t \<Rightarrow> t < before)
      in (filter (\<lambda>e. \<not> gone e) outbox, length (filter gone outbox)))"

section \<open>The worker\<close>

record message =
  msg_Key :: string
  msg_Value :: "payload option"

datatype publish_outcome = Acknowledged | Unacknowledged | NotProduced

record pipeline =
  pl_outbox :: "Entry list"
  pl_log :: "message list"
  pl_committed :: nat
  pl_position :: nat
  pl_rows :: "(uuid, Event) kv"

text \<open>One round over fetched entries: \<open>published\<close> is what became of publishing an entry (the broker may
  have written a message whose acknowledgement was lost), \<open>marked\<close> is false if the update fails.\<close>

definition publishEntry :: "(uuid \<Rightarrow> string) \<Rightarrow> publish_outcome \<Rightarrow> Entry \<Rightarrow> message list \<Rightarrow> message list \<times> go_error option" where
  "publishEntry uuid_String out entry log =
     (let msg = \<lparr> msg_Key = uuid_String (Entry_ID entry), msg_Value = Some (Entry_Payload entry) \<rparr>
      in case out of
           Acknowledged \<Rightarrow> (log @ [msg], None)
         | Unacknowledged \<Rightarrow> (log @ [msg], Some (Errorf ''produce message''))
         | NotProduced \<Rightarrow> (log, Some (Errorf ''produce message'')))"

fun process_entries ::
  "(uuid \<Rightarrow> string) \<Rightarrow> (uuid \<Rightarrow> publish_outcome) \<Rightarrow> (uuid \<Rightarrow> bool) \<Rightarrow> time \<Rightarrow> Entry list \<Rightarrow> pipeline \<Rightarrow> pipeline" where
  "process_entries uuid_String published marked now [] st = st"
| "process_entries uuid_String published marked now (entry # entries) st =
     (case publishEntry uuid_String (published (Entry_ID entry)) entry (pl_log st) of
        (log, Some _) \<Rightarrow> process_entries uuid_String published marked now entries (st\<lparr> pl_log := log \<rparr>)
      | (log, None) \<Rightarrow>
          let st = st\<lparr> pl_log := log \<rparr>;
              st = (if marked (Entry_ID entry) then st\<lparr> pl_outbox := fst (MarkProcessed (Entry_ID entry) now (pl_outbox st)) \<rparr> else st)
          in process_entries uuid_String published marked now entries st)"

definition outbox_poll ::
  "(uuid \<Rightarrow> string) \<Rightarrow> int \<Rightarrow> (uuid \<Rightarrow> publish_outcome) \<Rightarrow> (uuid \<Rightarrow> bool) \<Rightarrow> time \<Rightarrow> pipeline \<Rightarrow> pipeline" where
  "outbox_poll uuid_String batchSize published marked now st =
     process_entries uuid_String published marked now (FetchUnprocessed batchSize (pl_outbox st)) st"

text \<open>\<^verbatim>\<open>drain\<close>: rounds until nothing is pending or, with the list of rounds used up, the deadline has passed.\<close>

fun outbox_drain ::
  "(uuid \<Rightarrow> string) \<Rightarrow> int \<Rightarrow> ((uuid \<Rightarrow> publish_outcome) \<times> (uuid \<Rightarrow> bool) \<times> time) list \<Rightarrow> pipeline \<Rightarrow> pipeline" where
  "outbox_drain uuid_String batchSize [] st = st"
| "outbox_drain uuid_String batchSize ((published, marked, now) # rounds) st =
     (if FetchUnprocessed batchSize (pl_outbox st) = [] then st
      else outbox_drain uuid_String batchSize rounds (outbox_poll uuid_String batchSize published marked now st))"

section \<open>The consumer\<close>

text \<open>\<^verbatim>\<open>AppendWithID\<close>: the insert does nothing on a conflict of ids. The table has no column for the
  hash, and the column of the time keeps \<open>col t\<close> of an instant \<open>t\<close>.\<close>

definition AppendWithID :: "(time \<Rightarrow> time) \<Rightarrow> uuid \<Rightarrow> Event \<Rightarrow> (uuid, Event) kv \<Rightarrow> (uuid, Event) kv" where
  "AppendWithID col i event rows =
     (if kv_get rows i = None then kv_put rows i (event\<lparr> Event_Timestamp := col (Event_Timestamp event), Event_SubjectIDHash := [] \<rparr>) else rows)"

definition kafka_event :: "(string \<Rightarrow> uuid option) \<Rightarrow> payload \<Rightarrow> Event" where
  "kafka_event uuid_Parse p =
     \<lparr> Event_Category = (if pay_Category p = [] then CategoryOperations else pay_Category p),
       Event_Timestamp = pay_Timestamp p,
       Event_UserID = (if pay_UserID p \<noteq> [] then (case uuid_Parse (pay_UserID p) of Some u \<Rightarrow> UserID u | None \<Rightarrow> UserID 0) else UserID 0),
       Event_Subject = pay_Subject p, Event_Action = pay_Action p, Event_Purpose = pay_Purpose p,
       Event_RequestingParty = pay_RequestingParty p, Event_Decision = pay_Decision p, Event_Reason = pay_Reason p,
       Event_Email = pay_Email p, Event_RequestID = pay_RequestID p, Event_ActorID = pay_ActorID p, Event_SubjectIDHash = [] \<rparr>"

text \<open>\<open>insert_err\<close> is the error of the insert, if it fails.\<close>

definition consumer_Handle ::
  "(time \<Rightarrow> time) \<Rightarrow> (string \<Rightarrow> uuid option) \<Rightarrow> go_error option \<Rightarrow> message \<Rightarrow> (uuid, Event) kv \<Rightarrow> (uuid, Event) kv \<times> go_error option" where
  "consumer_Handle col uuid_Parse insert_err msg rows =
     (case uuid_Parse (msg_Key msg) of
        None \<Rightarrow> (rows, None)
      | Some eventID \<Rightarrow>
          (case msg_Value msg of
             None \<Rightarrow> (rows, None)
           | Some p \<Rightarrow>
               (case insert_err of
                  Some e \<Rightarrow> (rows, Some (ErrorfW ''store audit event'' (ErrorfW ''insert audit event'' e)))
                | None \<Rightarrow> (AppendWithID col eventID (kafka_event uuid_Parse p) rows, None))))"

text \<open>\<^verbatim>\<open>handleRecord\<close> on the record at the position; \<open>commit_ok\<close> is false if the commit fails. Reading goes on
  in any case.\<close>

definition handleRecord :: "(time \<Rightarrow> time) \<Rightarrow> (string \<Rightarrow> uuid option) \<Rightarrow> go_error option \<Rightarrow> bool \<Rightarrow> pipeline \<Rightarrow> pipeline" where
  "handleRecord col uuid_Parse insert_err commit_ok st =
     (if pl_position st < length (pl_log st)
      then let k = pl_position st; st = st\<lparr> pl_position := k + 1 \<rparr>
           in case consumer_Handle col uuid_Parse insert_err (pl_log st ! k) (pl_rows st) of
                (rows, Some _) \<Rightarrow> st\<lparr> pl_rows := rows \<rparr>
              | (rows, None) \<Rightarrow> if commit_ok then st\<lparr> pl_rows := rows, pl_committed := k + 1 \<rparr> else st\<lparr> pl_rows := rows \<rparr>
      else st)"

definition restart :: "pipeline \<Rightarrow> pipeline" where
  "restart st = st\<lparr> pl_position := pl_committed st \<rparr>"

section \<open>Reading the table\<close>

definition AuditPostgres_ListAll :: "(uuid, Event) kv \<Rightarrow> Event list" where
  "AuditPostgres_ListAll rows = sort_key (\<lambda>e. - Event_Timestamp e) (kv_values rows)"

definition AuditPostgres_ListByUser :: "UserID \<Rightarrow> (uuid, Event) kv \<Rightarrow> Event list" where
  "AuditPostgres_ListByUser u rows =
     filter (\<lambda>e. \<not> UserID_IsNil (Event_UserID e) \<and> Event_UserID e = u) (AuditPostgres_ListAll rows)"

definition AuditPostgres_ListRecent :: "int \<Rightarrow> (uuid, Event) kv \<Rightarrow> Event list result" where
  "AuditPostgres_ListRecent limit rows =
     (let limit = sint (word_of_int (min 1000 limit) :: 32 word)
      in if limit < 0 then Inl (ErrorfW ''query audit events'' (Errorf ''LIMIT must not be negative''))
         else Inr (take (nat limit) (AuditPostgres_ListAll rows)))"

section \<open>Runs of the pipeline\<close>

text \<open>
  A state is paired with the events written so far, by the id of their outbox entry. A step writes an
  event under a fresh id, lets the worker poll or drain, deletes old processed entries, lets the consumer
  handle the next message, or restarts it. \<open>errs\<close> are the outcomes an insert of the consumer may have.
\<close>

type_synonym pipe_state = "(uuid, Event) kv \<times> pipeline"

inductive pipe_step :: "(time \<Rightarrow> time) \<Rightarrow> (uuid \<Rightarrow> string) \<Rightarrow> (string \<Rightarrow> uuid option) \<Rightarrow> go_error option set \<Rightarrow> pipe_state \<Rightarrow> pipe_state \<Rightarrow> bool"
  for col uuid_String uuid_Parse errs where
  append: "kv_get h entryID = None \<Longrightarrow> pipe_step col uuid_String uuid_Parse errs (h, st)
     (kv_put h entryID ev, st\<lparr> pl_outbox := AuditPostgres_Append uuid_String eventID entryID now ev (pl_outbox st) \<rparr>)"
| poll: "pipe_step col uuid_String uuid_Parse errs (h, st) (h, outbox_poll uuid_String batch published marked now st)"
| drain: "pipe_step col uuid_String uuid_Parse errs (h, st) (h, outbox_drain uuid_String batch rounds st)"
| cleanup: "pipe_step col uuid_String uuid_Parse errs (h, st) (h, st\<lparr> pl_outbox := fst (DeleteProcessedBefore before (pl_outbox st)) \<rparr>)"
| consume: "insert_err \<in> errs \<Longrightarrow> pipe_step col uuid_String uuid_Parse errs (h, st) (h, handleRecord col uuid_Parse insert_err commit_ok st)"
| resume: "pipe_step col uuid_String uuid_Parse errs (h, st) (h, restart st)"

definition pipe_init :: pipe_state where
  "pipe_init = ([], \<lparr> pl_outbox = [], pl_log = [], pl_committed = 0, pl_position = 0, pl_rows = [] \<rparr>)"

definition pipe_run :: "(time \<Rightarrow> time) \<Rightarrow> (uuid \<Rightarrow> string) \<Rightarrow> (string \<Rightarrow> uuid option) \<Rightarrow> go_error option set \<Rightarrow> pipe_state \<Rightarrow> pipe_state \<Rightarrow> bool" where
  "pipe_run col uuid_String uuid_Parse errs = (pipe_step col uuid_String uuid_Parse errs)\<^sup>*\<^sup>*"

text \<open>The row of an event: the category is that of the action, the time is as its column keeps it, and the
  hash is not kept.\<close>

definition materialised :: "(time \<Rightarrow> time) \<Rightarrow> Event \<Rightarrow> Event" where
  "materialised col ev = ev\<lparr> Event_Category := AuditEvent_Category (Event_Action ev), Event_Timestamp := col (Event_Timestamp ev), Event_SubjectIDHash := [] \<rparr>"

lemma kafka_event_payload:
  assumes "uuid_round_trip uuid_Parse uuid_String"
  shows "kafka_event uuid_Parse (outboxPayload uuid_String eid ev) =
    ev\<lparr> Event_Category := AuditEvent_Category (Event_Action ev), Event_SubjectIDHash := [] \<rparr>"
proof -
  obtain u where "Event_UserID ev = UserID u" by (cases "Event_UserID ev")
  then show ?thesis using assms Category_nonempty
    by (auto simp: kafka_event_def outboxPayload_def user_text_def uuid_round_trip_def)
qed

subsection \<open>Every row is the row of an event\<close>

definition entry_of :: "(uuid \<Rightarrow> string) \<Rightarrow> (uuid, Event) kv \<Rightarrow> uuid \<Rightarrow> payload \<Rightarrow> bool" where
  "entry_of uuid_String h i p = (\<exists>ev eid. kv_get h i = Some ev \<and> p = outboxPayload uuid_String eid ev)"

definition good_msg :: "(uuid \<Rightarrow> string) \<Rightarrow> (uuid, Event) kv \<Rightarrow> message \<Rightarrow> bool" where
  "good_msg uuid_String h m = (\<exists>i p. m = \<lparr> msg_Key = uuid_String i, msg_Value = Some p \<rparr> \<and> entry_of uuid_String h i p)"

definition pipe_sound :: "(time \<Rightarrow> time) \<Rightarrow> (uuid \<Rightarrow> string) \<Rightarrow> pipe_state \<Rightarrow> bool" where
  "pipe_sound col uuid_String s = (case s of (h, st) \<Rightarrow>
     (\<forall>e \<in> set (pl_outbox st). entry_of uuid_String h (Entry_ID e) (Entry_Payload e)) \<and>
     (\<forall>m \<in> set (pl_log st). good_msg uuid_String h m) \<and>
     (\<forall>i e. kv_get (pl_rows st) i = Some e \<longrightarrow> (\<exists>ev. kv_get h i = Some ev \<and> e = materialised col ev)))"

lemma entry_of_put: "kv_get h j = None \<Longrightarrow> entry_of uuid_String h i p \<Longrightarrow> entry_of uuid_String (kv_put h j ev) i p"
  by (auto simp: entry_of_def kv_simps)

lemma MarkProcessed_mem:
  "e \<in> set (fst (MarkProcessed i now outbox)) \<Longrightarrow> \<exists>e0 \<in> set outbox. Entry_ID e = Entry_ID e0 \<and> Entry_Payload e = Entry_Payload e0"
  by (auto simp: MarkProcessed_def split: if_splits) metis

lemma FetchUnprocessed_mem: "e \<in> set (FetchUnprocessed limit outbox) \<Longrightarrow> e \<in> set outbox \<and> IsPending e"
  by (auto simp: FetchUnprocessed_def split: if_splits dest!: in_set_takeD)

lemma process_entries_sound:
  assumes "pipe_sound col uuid_String (h, st)" "\<forall>e \<in> set entries. entry_of uuid_String h (Entry_ID e) (Entry_Payload e)"
  shows "pipe_sound col uuid_String (h, process_entries uuid_String published marked now entries st)"
  using assms
proof (induction entries arbitrary: st)
  case (Cons entry entries)
  obtain log r where p: "publishEntry uuid_String (published (Entry_ID entry)) entry (pl_log st) = (log, r)" by force
  have "entry_of uuid_String h (Entry_ID entry) (Entry_Payload entry)" using Cons.prems(2) by simp
  then have "good_msg uuid_String h \<lparr> msg_Key = uuid_String (Entry_ID entry), msg_Value = Some (Entry_Payload entry) \<rparr>"
    unfolding good_msg_def by blast
  then have "\<forall>m \<in> set log. good_msg uuid_String h m"
    using p Cons.prems(1) by (auto simp: pipe_sound_def publishEntry_def Let_def split: publish_outcome.splits)
  then have log: "pipe_sound col uuid_String (h, st\<lparr> pl_log := log \<rparr>)" using Cons.prems(1) by (simp add: pipe_sound_def)
  then have mark: "pipe_sound col uuid_String (h, st\<lparr> pl_log := log, pl_outbox := fst (MarkProcessed (Entry_ID entry) now (pl_outbox st)) \<rparr>)"
    by (auto simp: pipe_sound_def dest!: MarkProcessed_mem)
  show ?case using Cons.IH[OF log] Cons.IH[OF mark] Cons.prems(2) p by (simp add: Let_def split: option.split)
qed simp

lemma outbox_poll_sound: "pipe_sound col uuid_String (h, st) \<Longrightarrow> pipe_sound col uuid_String (h, outbox_poll uuid_String batch published marked now st)"
  unfolding outbox_poll_def by (rule process_entries_sound) (auto simp: pipe_sound_def dest!: FetchUnprocessed_mem)

lemma outbox_drain_sound: "pipe_sound col uuid_String (h, st) \<Longrightarrow> pipe_sound col uuid_String (h, outbox_drain uuid_String batch rounds st)"
  by (induction uuid_String batch rounds st rule: outbox_drain.induct) (simp_all add: outbox_poll_sound)

lemma DeleteProcessedBefore_mem:
  "e \<in> set (fst (DeleteProcessedBefore before outbox)) \<Longrightarrow> e \<in> set outbox"
  "e \<in> set outbox \<Longrightarrow> IsPending e \<Longrightarrow> e \<in> set (fst (DeleteProcessedBefore before outbox))"
  by (auto simp: DeleteProcessedBefore_def IsPending_def Let_def)

text \<open>What handling a message of the pipeline does to the rows.\<close>

lemma handleRecord_rows:
  assumes "uuid_round_trip uuid_Parse uuid_String" "pipe_sound col uuid_String (h, st)" "pl_position st < length (pl_log st)"
  obtains i ev where "msg_Key (pl_log st ! pl_position st) = uuid_String i" "kv_get h i = Some ev"
    "pl_rows (handleRecord col uuid_Parse insert_err commit_ok st) =
       (if insert_err = None \<and> kv_get (pl_rows st) i = None then kv_put (pl_rows st) i (materialised col ev) else pl_rows st)"
proof -
  have "good_msg uuid_String h (pl_log st ! pl_position st)" using assms(2,3) by (simp add: pipe_sound_def)
  then obtain i ev eid where m: "pl_log st ! pl_position st = \<lparr> msg_Key = uuid_String i, msg_Value = Some (outboxPayload uuid_String eid ev) \<rparr>"
    "kv_get h i = Some ev" by (auto simp: good_msg_def entry_of_def)
  have "uuid_Parse (uuid_String i) = Some i" using assms(1) by (simp add: uuid_round_trip_def)
  then have "pl_rows (handleRecord col uuid_Parse insert_err commit_ok st) =
       (if insert_err = None \<and> kv_get (pl_rows st) i = None then kv_put (pl_rows st) i (materialised col ev) else pl_rows st)"
    using assms(3) m(1) kafka_event_payload[OF assms(1), of eid ev]
    by (auto simp: handleRecord_def consumer_Handle_def AppendWithID_def materialised_def Let_def split: option.split)
  then show thesis using that[of i ev] m by simp
qed

lemma handleRecord_frame [simp]:
  "pl_outbox (handleRecord col uuid_Parse insert_err commit_ok st) = pl_outbox st"
  "pl_log (handleRecord col uuid_Parse insert_err commit_ok st) = pl_log st"
  by (auto simp: handleRecord_def Let_def split: prod.splits option.splits)

lemma handleRecord_idle: "\<not> pl_position st < length (pl_log st) \<Longrightarrow> handleRecord col uuid_Parse insert_err commit_ok st = st"
  by (simp add: handleRecord_def)

lemma good_msg_put: "kv_get h j = None \<Longrightarrow> good_msg uuid_String h m \<Longrightarrow> good_msg uuid_String (kv_put h j ev) m"
  unfolding good_msg_def by (blast intro: entry_of_put)

lemma pipe_soundI:
  assumes "\<And>e. e \<in> set (pl_outbox st) \<Longrightarrow> entry_of uuid_String h (Entry_ID e) (Entry_Payload e)"
    and "\<And>m. m \<in> set (pl_log st) \<Longrightarrow> good_msg uuid_String h m"
    and "\<And>i e. kv_get (pl_rows st) i = Some e \<Longrightarrow> \<exists>ev. kv_get h i = Some ev \<and> e = materialised col ev"
  shows "pipe_sound col uuid_String (h, st)"
  using assms by (simp add: pipe_sound_def)

lemma pipe_soundD:
  assumes "pipe_sound col uuid_String (h, st)"
  shows "e \<in> set (pl_outbox st) \<Longrightarrow> entry_of uuid_String h (Entry_ID e) (Entry_Payload e)"
    and "m \<in> set (pl_log st) \<Longrightarrow> good_msg uuid_String h m"
    and "kv_get (pl_rows st) i = Some e' \<Longrightarrow> \<exists>ev. kv_get h i = Some ev \<and> e' = materialised col ev"
  using assms by (simp_all add: pipe_sound_def)

lemma append_sound:
  assumes "pipe_sound col uuid_String (h, st)" "kv_get h j = None"
  shows "pipe_sound col uuid_String (kv_put h j ev, st\<lparr> pl_outbox := AuditPostgres_Append uuid_String eid j now ev (pl_outbox st) \<rparr>)"
proof (rule pipe_soundI)
  fix e
  assume "e \<in> set (pl_outbox (st\<lparr> pl_outbox := AuditPostgres_Append uuid_String eid j now ev (pl_outbox st) \<rparr>))"
  then consider "e \<in> set (pl_outbox st)" | "Entry_ID e = j" "Entry_Payload e = outboxPayload uuid_String eid ev"
    by (auto simp: AuditPostgres_Append_def Let_def)
  then show "entry_of uuid_String (kv_put h j ev) (Entry_ID e) (Entry_Payload e)"
  proof cases
    case 1
    then show ?thesis by (intro entry_of_put[OF assms(2)] pipe_soundD(1)[OF assms(1)])
  next
    case 2
    then show ?thesis unfolding entry_of_def by (intro exI[of _ ev] exI[of _ eid]) (simp add: kv_simps)
  qed
next
  fix m
  assume "m \<in> set (pl_log (st\<lparr> pl_outbox := AuditPostgres_Append uuid_String eid j now ev (pl_outbox st) \<rparr>))"
  then have "m \<in> set (pl_log st)" by simp
  then show "good_msg uuid_String (kv_put h j ev) m" by (intro good_msg_put[OF assms(2)] pipe_soundD(2)[OF assms(1)])
next
  fix i e
  assume "kv_get (pl_rows (st\<lparr> pl_outbox := AuditPostgres_Append uuid_String eid j now ev (pl_outbox st) \<rparr>)) i = Some e"
  then obtain ev0 where "kv_get h i = Some ev0" "e = materialised col ev0" using pipe_soundD(3)[OF assms(1), of i e] by auto
  moreover then have "i \<noteq> j" using assms(2) by auto
  ultimately show "\<exists>ev'. kv_get (kv_put h j ev) i = Some ev' \<and> e = materialised col ev'" by (simp add: kv_simps)
qed

lemma consume_sound:
  assumes "uuid_round_trip uuid_Parse uuid_String" "pipe_sound col uuid_String (h, st)"
  shows "pipe_sound col uuid_String (h, handleRecord col uuid_Parse insert_err commit_ok st)"
proof (cases "pl_position st < length (pl_log st)")
  case True
  show ?thesis
  proof (rule handleRecord_rows[OF assms True])
    fix i ev
    assume k: "kv_get h i = Some ev" and r: "pl_rows (handleRecord col uuid_Parse insert_err commit_ok st) =
       (if insert_err = None \<and> kv_get (pl_rows st) i = None then kv_put (pl_rows st) i (materialised col ev) else pl_rows st)"
    have "kv_get (pl_rows (handleRecord col uuid_Parse insert_err commit_ok st)) j = Some e \<Longrightarrow> \<exists>ev. kv_get h j = Some ev \<and> e = materialised col ev" for j e
      unfolding r using k assms(2) by (auto simp: pipe_sound_def kv_simps split: if_splits)
    then show ?thesis using assms(2) by (simp add: pipe_sound_def)
  qed
qed (simp add: assms(2) handleRecord_idle)

lemma cleanup_sound: "pipe_sound col uuid_String (h, st) \<Longrightarrow> pipe_sound col uuid_String (h, st\<lparr> pl_outbox := fst (DeleteProcessedBefore before (pl_outbox st)) \<rparr>)"
  by (auto simp: pipe_sound_def dest: DeleteProcessedBefore_mem(1))

lemma restart_sound: "pipe_sound col uuid_String (h, st) \<Longrightarrow> pipe_sound col uuid_String (h, restart st)"
  by (simp add: pipe_sound_def restart_def)

lemma pipe_step_sound:
  assumes "uuid_round_trip uuid_Parse uuid_String" "pipe_step col uuid_String uuid_Parse errs s s'" "pipe_sound col uuid_String s"
  shows "pipe_sound col uuid_String s'"
  using assms(2,3)
  by (induction rule: pipe_step.induct)
    (simp_all only: append_sound outbox_poll_sound outbox_drain_sound cleanup_sound restart_sound consume_sound[OF assms(1)])

lemma pipe_run_sound:
  assumes "uuid_round_trip uuid_Parse uuid_String" "pipe_run col uuid_String uuid_Parse errs s s'" "pipe_sound col uuid_String s"
  shows "pipe_sound col uuid_String s'"
  using assms(2,3) unfolding pipe_run_def by (induction rule: rtranclp_induct) (blast intro: pipe_step_sound[OF assms(1)])+

lemma pipe_init_sound: "pipe_sound col uuid_String pipe_init"
  by (simp add: pipe_sound_def pipe_init_def kv_simps)

subsection \<open>Every event gets its row\<close>

definition pending :: "uuid \<Rightarrow> Entry list \<Rightarrow> bool" where
  "pending i outbox = (\<exists>e \<in> set outbox. Entry_ID e = i \<and> IsPending e)"

definition on_way :: "(uuid \<Rightarrow> string) \<Rightarrow> uuid \<Rightarrow> pipeline \<Rightarrow> bool" where
  "on_way uuid_String i st = (pending i (pl_outbox st) \<or> uuid_String i \<in> msg_Key ` set (pl_log st))"

definition has_rows :: "(uuid \<Rightarrow> string) \<Rightarrow> nat \<Rightarrow> pipeline \<Rightarrow> bool" where
  "has_rows uuid_String n st =
     (n \<le> length (pl_log st) \<and> (\<forall>k < n. \<forall>i. msg_Key (pl_log st ! k) = uuid_String i \<longrightarrow> kv_get (pl_rows st) i \<noteq> None))"

definition pipe_full :: "(uuid \<Rightarrow> string) \<Rightarrow> pipe_state \<Rightarrow> bool" where
  "pipe_full uuid_String s = (case s of (h, st) \<Rightarrow>
     (\<forall>i. kv_get h i \<noteq> None \<longrightarrow> on_way uuid_String i st) \<and>
     has_rows uuid_String (pl_committed st) st \<and> has_rows uuid_String (pl_position st) st)"

lemma MarkProcessed_pending: "pending i outbox \<Longrightarrow> i \<noteq> j \<Longrightarrow> pending i (fst (MarkProcessed j now outbox))"
  by (auto simp: pending_def MarkProcessed_def image_iff split: if_splits)

lemma publishEntry_log:
  "publishEntry uuid_String out entry log = (log', r) \<Longrightarrow>
     (\<exists>ms. log' = log @ ms \<and> msg_Key ` set ms \<subseteq> {uuid_String (Entry_ID entry)}) \<and> (r = None \<longrightarrow> uuid_String (Entry_ID entry) \<in> msg_Key ` set log')"
  by (auto simp: publishEntry_def Let_def split: publish_outcome.splits)

text \<open>A round of the worker only adds messages, of entries it was given, and keeps every event on its way.\<close>

definition extends :: "(uuid \<Rightarrow> string) \<Rightarrow> uuid set \<Rightarrow> pipeline \<Rightarrow> pipeline \<Rightarrow> bool" where
  "extends uuid_String I st st' =
     ((\<exists>ms. pl_log st' = pl_log st @ ms \<and> msg_Key ` set ms \<subseteq> uuid_String ` I) \<and> pl_committed st' = pl_committed st \<and>
      pl_position st' = pl_position st \<and> pl_rows st' = pl_rows st \<and> (\<forall>i. on_way uuid_String i st \<longrightarrow> on_way uuid_String i st') \<and>
      (\<forall>i. pending i (pl_outbox st') \<longrightarrow> pending i (pl_outbox st)))"

lemma extends_refl: "extends uuid_String I st st"
  by (auto simp: extends_def)

lemma extends_trans: "extends uuid_String I a b \<Longrightarrow> extends uuid_String J b c \<Longrightarrow> extends uuid_String (I \<union> J) a c"
proof -
  assume a: "extends uuid_String I a b" and b: "extends uuid_String J b c"
  obtain ms ns where "pl_log b = pl_log a @ ms" "msg_Key ` set ms \<subseteq> uuid_String ` I"
    "pl_log c = pl_log b @ ns" "msg_Key ` set ns \<subseteq> uuid_String ` J" using a b by (auto simp: extends_def)
  then have "pl_log c = pl_log a @ (ms @ ns) \<and> msg_Key ` set (ms @ ns) \<subseteq> uuid_String ` (I \<union> J)" by auto
  then show ?thesis using a b unfolding extends_def by metis
qed

lemma pending_MarkProcessed: "pending i (fst (MarkProcessed j now outbox)) \<Longrightarrow> pending i outbox"
  by (auto simp: pending_def MarkProcessed_def IsPending_def split: if_splits)

lemma publish_extends:
  assumes "publishEntry uuid_String out entry (pl_log st) = (log, r)"
  shows "extends uuid_String {Entry_ID entry} st (st\<lparr> pl_log := log \<rparr>)"
  using publishEntry_log[OF assms] by (auto simp: extends_def on_way_def)

lemma mark_extends:
  assumes "uuid_String i \<in> msg_Key ` set (pl_log st)"
  shows "extends uuid_String {i} st (st\<lparr> pl_outbox := fst (MarkProcessed i now (pl_outbox st)) \<rparr>)"
  using assms MarkProcessed_pending[of _ "pl_outbox st" i now] pending_MarkProcessed
  by (auto simp: extends_def on_way_def)

lemma process_entries_extends:
  "extends uuid_String (Entry_ID ` set entries) st (process_entries uuid_String published marked now entries st)"
proof (induction entries arbitrary: st)
  case Nil
  then show ?case by (simp add: extends_refl)
next
  case (Cons entry entries)
  let ?i = "Entry_ID entry"
  obtain log r where p: "publishEntry uuid_String (published ?i) entry (pl_log st) = (log, r)" by force
  define st1 where "st1 = st\<lparr> pl_log := log \<rparr>"
  define st2 where "st2 = (if r = None \<and> marked ?i then st1\<lparr> pl_outbox := fst (MarkProcessed ?i now (pl_outbox st1)) \<rparr> else st1)"
  have 1: "extends uuid_String {?i} st st1" unfolding st1_def by (rule publish_extends[OF p])
  have "extends uuid_String {?i} st1 st2"
    using publishEntry_log[OF p] mark_extends[of uuid_String ?i st1 now] by (auto simp: st2_def st1_def extends_refl)
  from extends_trans[OF extends_trans[OF 1 this] Cons.IH[of st2]]
  have "extends uuid_String (Entry_ID ` set (entry # entries)) st (process_entries uuid_String published marked now entries st2)" by simp
  moreover have "process_entries uuid_String published marked now (entry # entries) st = process_entries uuid_String published marked now entries st2"
    using p by (simp add: st2_def st1_def Let_def split: option.split)
  ultimately show ?case by simp
qed


lemma extends_mono: "extends uuid_String I st st' \<Longrightarrow> I \<subseteq> J \<Longrightarrow> extends uuid_String J st st'"
proof -
  assume e: "extends uuid_String I st st'" and IJ: "I \<subseteq> J"
  from e obtain ms where "pl_log st' = pl_log st @ ms" "msg_Key ` set ms \<subseteq> uuid_String ` I" by (auto simp: extends_def)
  then have "pl_log st' = pl_log st @ ms \<and> msg_Key ` set ms \<subseteq> uuid_String ` J" using IJ by blast
  then show ?thesis using e unfolding extends_def by metis
qed

abbreviation pending_ids :: "pipeline \<Rightarrow> uuid set" where
  "pending_ids st \<equiv> {i. pending i (pl_outbox st)}"

lemma outbox_poll_extends: "extends uuid_String (pending_ids st) st (outbox_poll uuid_String batch published marked now st)"
proof -
  have "Entry_ID ` set (FetchUnprocessed batch (pl_outbox st)) \<subseteq> pending_ids st"
    using FetchUnprocessed_mem unfolding pending_def by blast
  then show ?thesis unfolding outbox_poll_def by (rule extends_mono[OF process_entries_extends])
qed

lemma outbox_drain_extends: "extends uuid_String (pending_ids st) st (outbox_drain uuid_String batch rounds st)"
proof (induction uuid_String batch rounds st rule: outbox_drain.induct)
  case (2 uuid_String batch published marked now rounds st)
  let ?st = "outbox_poll uuid_String batch published marked now st"
  have poll: "extends uuid_String (pending_ids st) st ?st" by (rule outbox_poll_extends)
  then have "pending_ids ?st \<subseteq> pending_ids st" unfolding extends_def by blast
  then have "pending_ids st \<union> pending_ids ?st = pending_ids st" by blast
  then show ?case using 2 extends_trans[OF poll, of "pending_ids ?st"] by (auto simp: extends_refl)
qed (simp add: extends_refl)

lemma has_rows_extends: "has_rows uuid_String n st \<Longrightarrow> extends uuid_String I st st' \<Longrightarrow> has_rows uuid_String n st'"
  by (auto simp: has_rows_def extends_def nth_append)

lemma extends_full: "pipe_full uuid_String (h, st) \<Longrightarrow> extends uuid_String I st st' \<Longrightarrow> pipe_full uuid_String (h, st')"
  using has_rows_extends[of uuid_String _ st I st'] by (simp add: pipe_full_def) (simp add: extends_def)

lemma append_full:
  assumes "pipe_full uuid_String (h, st)"
  shows "pipe_full uuid_String (kv_put h j ev, st\<lparr> pl_outbox := AuditPostgres_Append uuid_String eid j now ev (pl_outbox st) \<rparr>)"
  using assms by (auto simp: pipe_full_def on_way_def pending_def has_rows_def AuditPostgres_Append_def IsPending_def Let_def kv_simps
      split: if_splits)

lemma pending_cleanup: "pending i (fst (DeleteProcessedBefore before outbox)) \<longleftrightarrow> pending i outbox"
  using DeleteProcessedBefore_mem unfolding pending_def by blast

lemma cleanup_full: "pipe_full uuid_String (h, st) \<Longrightarrow> pipe_full uuid_String (h, st\<lparr> pl_outbox := fst (DeleteProcessedBefore before (pl_outbox st)) \<rparr>)"
  using pending_cleanup by (simp add: pipe_full_def on_way_def has_rows_def)

lemma restart_full: "pipe_full uuid_String (h, st) \<Longrightarrow> pipe_full uuid_String (h, restart st)"
  by (simp add: pipe_full_def restart_def on_way_def has_rows_def)

lemma handleRecord_offsets:
  assumes "pl_position st < length (pl_log st)"
  shows "pl_position (handleRecord col uuid_Parse insert_err commit_ok st) = pl_position st + 1"
    and "pl_committed (handleRecord col uuid_Parse insert_err commit_ok st) \<in> {pl_committed st, pl_position st + 1}"
  using assms by (auto simp: handleRecord_def Let_def split: prod.splits option.splits)

lemma consume_full:
  assumes rt: "uuid_round_trip uuid_Parse uuid_String" and sound: "pipe_sound col uuid_String (h, st)" and full: "pipe_full uuid_String (h, st)"
  shows "pipe_full uuid_String (h, handleRecord col uuid_Parse None commit_ok st)" (is "pipe_full _ (h, ?st)")
proof (cases "pl_position st < length (pl_log st)")
  case True
  obtain i ev where i: "msg_Key (pl_log st ! pl_position st) = uuid_String i" and rows: "pl_rows ?st =
       (if kv_get (pl_rows st) i = None then kv_put (pl_rows st) i (materialised col ev) else pl_rows st)"
    using handleRecord_rows[OF rt sound True, where insert_err = None and commit_ok = commit_ok] by (metis (full_types))
  have inj: "uuid_String a = uuid_String b \<Longrightarrow> a = b" for a b using rt unfolding uuid_round_trip_def by (metis option.inject)
  have more: "kv_get (pl_rows st) j \<noteq> None \<Longrightarrow> kv_get (pl_rows ?st) j \<noteq> None" "kv_get (pl_rows ?st) i \<noteq> None" for j
    by (auto simp: rows kv_simps)
  have old: "has_rows uuid_String n ?st" if "has_rows uuid_String n st" for n using that more by (simp add: has_rows_def)
  have pos: "has_rows uuid_String (pl_position st) st" using full by (simp add: pipe_full_def)
  have "has_rows uuid_String (pl_position st + 1) ?st"
  proof -
    have "kv_get (pl_rows ?st) j \<noteq> None" if "k < pl_position st + 1" "msg_Key (pl_log st ! k) = uuid_String j" for k j
    proof (cases "k = pl_position st")
      case True
      then show ?thesis using that(2) i inj more(2) by metis
    next
      case False
      then have "k < pl_position st" using that(1) by simp
      then show ?thesis using that(2) pos more(1)[of j] unfolding has_rows_def by blast
    qed
    then show ?thesis using True by (simp add: has_rows_def)
  qed
  then show ?thesis using full old handleRecord_offsets[OF True, of col uuid_Parse None commit_ok] by (auto simp: pipe_full_def on_way_def)
qed (simp add: full handleRecord_idle)

lemma pipe_step_full:
  assumes "uuid_round_trip uuid_Parse uuid_String" "pipe_step col uuid_String uuid_Parse {None} s s'" "pipe_sound col uuid_String s" "pipe_full uuid_String s"
  shows "pipe_full uuid_String s'"
  using assms(2-4)
proof (induction rule: pipe_step.induct)
  case (consume insert_err h st commit_ok)
  then show ?case using consume_full[OF assms(1)] by simp
qed (simp_all only: append_full extends_full[OF _ outbox_poll_extends] extends_full[OF _ outbox_drain_extends] cleanup_full restart_full)

lemma pipe_run_full:
  assumes "uuid_round_trip uuid_Parse uuid_String" "pipe_run col uuid_String uuid_Parse {None} pipe_init s"
  shows "pipe_sound col uuid_String s \<and> pipe_full uuid_String s"
  using assms(2) unfolding pipe_run_def
proof (induction rule: rtranclp_induct)
  case base
  then show ?case by (simp add: pipe_init_sound) (simp add: pipe_full_def pipe_init_def has_rows_def kv_simps)
next
  case (step y z)
  then show ?case using pipe_step_sound[OF assms(1) step(2)] pipe_step_full[OF assms(1) step(2)] by blast
qed

lemma delivered:
  assumes "pipe_full uuid_String (h, st)" "CountPending (pl_outbox st) = 0" "pl_position st = length (pl_log st)" "kv_get h i \<noteq> None"
  shows "kv_get (pl_rows st) i \<noteq> None"
proof -
  have "\<not> pending i (pl_outbox st)" using assms(2) by (auto simp: CountPending_def pending_def filter_empty_conv)
  moreover have "on_way uuid_String i st" using assms(1,4) by (simp add: pipe_full_def)
  ultimately obtain k where k: "k < length (pl_log st)" "msg_Key (pl_log st ! k) = uuid_String i"
    by (fastforce simp: on_way_def in_set_conv_nth)
  have "has_rows uuid_String (pl_position st) st" using assms(1) by (simp add: pipe_full_def)
  then show ?thesis using k assms(3) unfolding has_rows_def by metis
qed

text \<open>\<^bold>\<open>C14\<close> Audit events reach the table of audit events exactly once. In every run of the pipeline, with
  publications that fail or are not acknowledged, marks and commits that fail, repeated messages, restarts
  and clean-ups, a row is the row of an event that was written under that id: the same event, with the
  category of its action, the time as its column keeps it, and without the hash. And if no insert of the consumer failed, then once no
  outbox entry is pending and the consumer has read the whole topic, every event has its row.\<close>

theorem audit_rows_exact:
  assumes "uuid_round_trip uuid_Parse uuid_String" and "pipe_run col uuid_String uuid_Parse errs pipe_init (h, st)"
  shows "(\<forall>i e. kv_get (pl_rows st) i = Some e \<longrightarrow> map_option (materialised col) (kv_get h i) = Some e) \<and>
    (errs = {None} \<longrightarrow> CountPending (pl_outbox st) = 0 \<longrightarrow> pl_position st = length (pl_log st) \<longrightarrow>
      (\<forall>i. kv_get (pl_rows st) i = map_option (materialised col) (kv_get h i)))"
proof (intro conjI allI impI)
  have sound: "pipe_sound col uuid_String (h, st)" by (rule pipe_run_sound[OF assms pipe_init_sound])
  show row: "map_option (materialised col) (kv_get h i) = Some e" if "kv_get (pl_rows st) i = Some e" for i e
    using pipe_soundD(3)[OF sound that] by auto
  show "kv_get (pl_rows st) i = map_option (materialised col) (kv_get h i)"
    if e: "errs = {None}" and idle: "CountPending (pl_outbox st) = 0" "pl_position st = length (pl_log st)" for i
  proof (cases "kv_get (pl_rows st) i")
    case None
    then have "kv_get h i = None" using delivered[OF _ idle] pipe_run_full[OF assms(1)] assms(2) e by blast
    then show ?thesis using None by simp
  next
    case (Some e)
    then show ?thesis by (simp only: row[OF Some])
  qed
qed

definition ex_text :: "uuid \<Rightarrow> string" where
  "ex_text u = CHR ''u'' # replicate (unat u) (CHR ''1'')"

definition ex_parse :: "string \<Rightarrow> uuid option" where
  "ex_parse s = Some (of_nat (length s - 1))"

definition ex_column :: "time \<Rightarrow> time" where
  "ex_column t = t - t mod 1000"

lemma ex_text_round_trip: "uuid_round_trip ex_parse ex_text"
  by (simp add: uuid_round_trip_def ex_parse_def ex_text_def)

definition ex_decision :: Event where
  "ex_decision = \<lparr> Event_Category = CategoryCompliance, Event_Timestamp = 7007, Event_UserID = UserID 3, Event_Subject = [],
     Event_Action = ''decision_made'', Event_Purpose = ''age_verification'', Event_RequestingParty = [], Event_Decision = ''pass'',
     Event_Reason = [], Event_Email = [], Event_RequestID = ''req'', Event_ActorID = [], Event_SubjectIDHash = ''ab'' \<rparr>"

text \<open>Two events are written and published.\<close>

definition ex_written :: pipe_state where
  "ex_written = (case pipe_init of (h, st) \<Rightarrow>
     (kv_put (kv_put h 1 ex_decision) 2 ex_decision,
      outbox_poll ex_text 10 (\<lambda>_. Acknowledged) (\<lambda>_. True) 9
        (st\<lparr> pl_outbox := AuditPostgres_Append ex_text 6 2 8 ex_decision (AuditPostgres_Append ex_text 5 1 7 ex_decision (pl_outbox st)) \<rparr>)))"

lemma pipe_runs: "pipe_run col f g errs a b \<Longrightarrow> pipe_step col f g errs b c \<Longrightarrow> pipe_run col f g errs a c" "pipe_run col f g errs a a"
  unfolding pipe_run_def by simp_all

lemma ex_written_run: "pipe_run ex_column ex_text ex_parse errs pipe_init ex_written"
proof -
  let ?st = "snd pipe_init"
  let ?st1 = "?st\<lparr> pl_outbox := AuditPostgres_Append ex_text 5 1 7 ex_decision (pl_outbox ?st) \<rparr>"
  let ?st2 = "?st1\<lparr> pl_outbox := AuditPostgres_Append ex_text 6 2 8 ex_decision (pl_outbox ?st1) \<rparr>"
  have "pipe_run ex_column ex_text ex_parse errs pipe_init ([], ?st)" using pipe_runs(2)[of _ _ _ _ pipe_init] by (simp add: pipe_init_def)
  moreover have "pipe_step ex_column ex_text ex_parse errs ([], ?st) (kv_put [] 1 ex_decision, ?st1)"
    by (rule pipe_step.append) simp
  moreover have "pipe_step ex_column ex_text ex_parse errs (kv_put [] 1 ex_decision, ?st1) (kv_put (kv_put [] 1 ex_decision) 2 ex_decision, ?st2)"
    by (rule pipe_step.append) simp
  moreover have "pipe_step ex_column ex_text ex_parse errs (kv_put (kv_put [] 1 ex_decision) 2 ex_decision, ?st2) ex_written"
    using pipe_step.poll[of ex_column ex_text ex_parse errs "kv_put (kv_put [] 1 ex_decision) 2 ex_decision" ?st2 10 "\<lambda>_. Acknowledged" "\<lambda>_. True" 9]
    by (simp add: ex_written_def pipe_init_def)
  ultimately show ?thesis using pipe_runs(1) by blast
qed

lemma ex_consume: "pipe_run ex_column ex_text ex_parse errs a (h, st) \<Longrightarrow> e \<in> errs \<Longrightarrow> pipe_run ex_column ex_text ex_parse errs a (h, handleRecord ex_column ex_parse e True st)"
  by (erule pipe_runs(1)) (rule pipe_step.consume)

theorem audit_rows_exact_witness:
  "kv_get (pl_rows (handleRecord ex_column ex_parse None True (handleRecord ex_column ex_parse None True (snd ex_written)))) 2 =
     Some (ex_decision\<lparr> Event_Timestamp := 7000, Event_SubjectIDHash := [] \<rparr>)"
proof -
  let ?st = "handleRecord ex_column ex_parse None True (handleRecord ex_column ex_parse None True (snd ex_written))"
  have "pipe_run ex_column ex_text ex_parse {None} pipe_init (fst ex_written, ?st)"
    by (intro ex_consume) (simp_all add: ex_written_run)
  from audit_rows_exact[OF ex_text_round_trip this]
  have "kv_get (pl_rows ?st) 2 = map_option (materialised ex_column) (kv_get (fst ex_written) 2)"
    if "CountPending (pl_outbox ?st) = 0" "pl_position ?st = length (pl_log ?st)" using that by simp
  moreover have "CountPending (pl_outbox ?st) = 0" "pl_position ?st = length (pl_log ?st)" by code_simp+
  moreover have "map_option (materialised ex_column) (kv_get (fst ex_written) 2) = Some (ex_decision\<lparr> Event_Timestamp := 7000, Event_SubjectIDHash := [] \<rparr>)" by code_simp
  ultimately show ?thesis by simp
qed

subsection \<open>A message that could not be stored\<close>

text \<open>The event \<open>i\<close> is written and no longer pending, every message of it lies before both offsets, and it has no row.\<close>

definition skipped :: "(uuid \<Rightarrow> string) \<Rightarrow> uuid \<Rightarrow> pipe_state \<Rightarrow> bool" where
  "skipped uuid_String i s = (case s of (h, st) \<Rightarrow>
     kv_get h i \<noteq> None \<and> kv_get (pl_rows st) i = None \<and> \<not> pending i (pl_outbox st) \<and>
     (\<forall>k < length (pl_log st). msg_Key (pl_log st ! k) = uuid_String i \<longrightarrow> k < pl_committed st \<and> k < pl_position st))"

lemma uuid_String_inj: "uuid_round_trip uuid_Parse uuid_String \<Longrightarrow> uuid_String a = uuid_String b \<Longrightarrow> a = b"
  unfolding uuid_round_trip_def by (metis option.inject)

lemma extends_skipped:
  assumes "uuid_round_trip uuid_Parse uuid_String" "skipped uuid_String i (h, st)" "extends uuid_String (pending_ids st) st st'"
  shows "skipped uuid_String i (h, st')"
proof -
  from assms(3) obtain ms where ms: "pl_log st' = pl_log st @ ms" "msg_Key ` set ms \<subseteq> uuid_String ` pending_ids st" by (auto simp: extends_def)
  have "uuid_String i \<notin> msg_Key ` set ms" using ms(2) assms(2) uuid_String_inj[OF assms(1)] by (auto simp: skipped_def)
  then have old: "k < length (pl_log st)" if "k < length (pl_log st')" "msg_Key (pl_log st' ! k) = uuid_String i" for k
    using that unfolding ms(1) by (auto simp: nth_append image_iff split: if_splits) (metis add_diff_inverse_nat nat_add_left_cancel_less nth_mem)
  have "k < pl_committed st \<and> k < pl_position st" if "k < length (pl_log st')" "msg_Key (pl_log st' ! k) = uuid_String i" for k
    using that old[OF that] assms(2) by (simp add: skipped_def ms(1) nth_append)
  moreover have "\<not> pending i (pl_outbox st')" using assms(2,3) by (auto simp: skipped_def extends_def)
  ultimately show ?thesis using assms(2,3) by (simp add: skipped_def extends_def)
qed

lemma append_skipped:
  assumes "skipped uuid_String i (h, st)" "kv_get h j = None"
  shows "skipped uuid_String i (kv_put h j ev, st\<lparr> pl_outbox := AuditPostgres_Append uuid_String eid j now ev (pl_outbox st) \<rparr>)"
  using assms by (auto simp: skipped_def pending_def AuditPostgres_Append_def Let_def kv_simps)

lemma consume_skipped:
  assumes "uuid_round_trip uuid_Parse uuid_String" "pipe_sound col uuid_String (h, st)" "skipped uuid_String i (h, st)"
  shows "skipped uuid_String i (h, handleRecord col uuid_Parse insert_err commit_ok st)" (is "skipped _ _ (h, ?st)")
proof (cases "pl_position st < length (pl_log st)")
  case True
  obtain j ev where j: "msg_Key (pl_log st ! pl_position st) = uuid_String j" and rows: "pl_rows ?st =
       (if insert_err = None \<and> kv_get (pl_rows st) j = None then kv_put (pl_rows st) j (materialised col ev) else pl_rows st)"
    using handleRecord_rows[OF assms(1,2) True, where insert_err = insert_err and commit_ok = commit_ok] by (metis (full_types))
  have "j \<noteq> i" using j True assms(3) by (auto simp: skipped_def)
  then have "kv_get (pl_rows ?st) i = None" using assms(3) by (simp add: rows skipped_def kv_simps)
  then show ?thesis using assms(3) handleRecord_offsets[OF True, of col uuid_Parse insert_err commit_ok] by (auto simp: skipped_def)
qed (simp add: assms(3) handleRecord_idle)

lemma pipe_step_skipped:
  assumes "uuid_round_trip uuid_Parse uuid_String" "pipe_step col uuid_String uuid_Parse errs s s'" "pipe_sound col uuid_String s" "skipped uuid_String i s"
  shows "skipped uuid_String i s'"
  using assms(2-4)
proof (induction rule: pipe_step.induct)
  case (cleanup h st before)
  then show ?case by (simp add: skipped_def pending_cleanup)
next
  case (resume h st)
  then show ?case by (simp add: skipped_def restart_def)
qed (simp_all only: append_skipped extends_skipped[OF assms(1) _ outbox_poll_extends] extends_skipped[OF assms(1) _ outbox_drain_extends]
    consume_skipped[OF assms(1)])

lemma pipe_run_skipped:
  assumes "uuid_round_trip uuid_Parse uuid_String" "pipe_run col uuid_String uuid_Parse errs s s'" "pipe_sound col uuid_String s" "skipped uuid_String i s"
  shows "skipped uuid_String i s'"
  using assms(2) unfolding pipe_run_def
proof (induction rule: rtranclp_induct)
  case (step y z)
  then have "pipe_sound col uuid_String y" using pipe_run_sound[OF assms(1) _ assms(3)] unfolding pipe_run_def by blast
  then show ?case using step pipe_step_skipped[OF assms(1)] by blast
qed (rule assms(4))

lemma handleRecord_commits:
  assumes "uuid_round_trip uuid_Parse uuid_String" "pipe_sound col uuid_String (h, st)" "pl_position st < length (pl_log st)"
  shows "pl_committed (handleRecord col uuid_Parse None True st) = pl_position st + 1"
    and "pl_rows (handleRecord col uuid_Parse (Some err) commit_ok st) = pl_rows st"
proof -
  show "pl_committed (handleRecord col uuid_Parse None True st) = pl_position st + 1"
    using assms(3) by (auto simp: handleRecord_def consumer_Handle_def Let_def split: option.splits prod.splits)
  show "pl_rows (handleRecord col uuid_Parse (Some err) commit_ok st) = pl_rows st"
    using handleRecord_rows[OF assms, where insert_err = "Some err" and commit_ok = commit_ok] by (metis (full_types) option.distinct(1))
qed

text \<open>\<^bold>\<open>C15\<close> What a failed insert costs. The consumer does not commit a message it could not store, and the
  comment at that place expects it to be delivered again. Reading goes on, though, and committing the next
  message moves the offset past both. If the event was published once and marked, then after one failed
  insert and one committed successor no continuation, with any number of restarts of the consumer, of
  further rounds of the worker and of further messages, ever gives the event a row.\<close>

theorem failed_insert_not_redelivered:
  assumes "uuid_round_trip uuid_Parse uuid_String" and "pipe_run col uuid_String uuid_Parse errs pipe_init (h, st)"
    and "kv_get h i \<noteq> None" and "\<forall>e \<in> set (pl_outbox st). Entry_ID e = i \<longrightarrow> \<not> IsPending e"
    and "\<forall>k < length (pl_log st). msg_Key (pl_log st ! k) = uuid_String i \<longleftrightarrow> k = pl_position st"
    and "kv_get (pl_rows st) i = None" and "pl_position st + 1 < length (pl_log st)"
    and "st2 = handleRecord col uuid_Parse None True (handleRecord col uuid_Parse (Some err) commit_ok st)"
    and "pipe_run col uuid_String uuid_Parse errs2 (h, st2) (h3, st3)"
  shows "kv_get (pl_rows st3) i = None"
proof -
  let ?st1 = "handleRecord col uuid_Parse (Some err) commit_ok st"
  have pos: "pl_position st < length (pl_log st)" using assms(7) by simp
  have s0: "pipe_sound col uuid_String (h, st)" by (rule pipe_run_sound[OF assms(1,2) pipe_init_sound])
  have s1: "pipe_sound col uuid_String (h, ?st1)" by (rule consume_sound[OF assms(1) s0])
  have p1: "pl_position ?st1 = pl_position st + 1" by (rule handleRecord_offsets(1)[OF pos])
  then have pos1: "pl_position ?st1 < length (pl_log ?st1)" using assms(7) by simp
  obtain j ev where j: "msg_Key (pl_log ?st1 ! pl_position ?st1) = uuid_String j" and rows: "pl_rows st2 =
       (if kv_get (pl_rows ?st1) j = None then kv_put (pl_rows ?st1) j (materialised col ev) else pl_rows ?st1)"
    using handleRecord_rows[OF assms(1) s1 pos1, where insert_err = None and commit_ok = True] unfolding assms(8) by (metis (full_types))
  have "j \<noteq> i" using j p1 assms(5,7) by auto
  then have "kv_get (pl_rows st2) i = None" using assms(6) handleRecord_commits(2)[OF assms(1) s0 pos] by (simp add: rows kv_simps)
  moreover have "pl_committed st2 = pl_position st + 2" "pl_position st2 = pl_position st + 2"
    using handleRecord_commits(1)[OF assms(1) s1 pos1] handleRecord_offsets(1)[OF pos1] p1 unfolding assms(8) by simp_all
  ultimately have "skipped uuid_String i (h, st2)" using assms(3-5) unfolding assms(8) by (auto simp: skipped_def pending_def)
  moreover have "pipe_sound col uuid_String (h, st2)" unfolding assms(8) by (rule consume_sound[OF assms(1) s1])
  ultimately have "skipped uuid_String i (h3, st3)" by (intro pipe_run_skipped[OF assms(1,9)])
  then show ?thesis by (simp add: skipped_def)
qed

theorem failed_insert_not_redelivered_witness:
  "kv_get (pl_rows (restart (handleRecord ex_column ex_parse None True (handleRecord ex_column ex_parse (Some (Errorf ''down'')) True (snd ex_written))))) 1 = None"
proof -
  let ?st = "snd ex_written"
  let ?st2 = "handleRecord ex_column ex_parse None True (handleRecord ex_column ex_parse (Some (Errorf ''down'')) True ?st)"
  have w: "kv_get (fst ex_written) 1 = Some ex_decision" "pl_rows ?st = []" "pl_position ?st = 0" "map msg_Key (pl_log ?st) = [ex_text 1, ex_text 2]"
    "filter IsPending (pl_outbox ?st) = []" by code_simp+
  have len: "length (pl_log ?st) = 2" using arg_cong[OF w(4), of length] by simp
  have "msg_Key (pl_log ?st ! 0) = ex_text 1" "msg_Key (pl_log ?st ! 1) = ex_text 2"
    using arg_cong[OF w(4), of "\<lambda>l. l ! 0"] arg_cong[OF w(4), of "\<lambda>l. l ! 1"] len by simp_all
  moreover have "ex_text 2 \<noteq> ex_text 1" by code_simp
  ultimately have keys: "\<forall>k < length (pl_log ?st). msg_Key (pl_log ?st ! k) = ex_text 1 \<longleftrightarrow> k = pl_position ?st"
    using len w(3) by (auto simp: less_2_cases_iff)
  have run: "pipe_run ex_column ex_text ex_parse {} (fst ex_written, ?st2) (fst ex_written, restart ?st2)"
    using pipe_runs(1)[OF pipe_runs(2) pipe_step.resume] .
  have "pipe_run ex_column ex_text ex_parse {} pipe_init (fst ex_written, ?st)" using ex_written_run by simp
  from failed_insert_not_redelivered[OF ex_text_round_trip this _ _ keys _ _ refl run] show ?thesis
    using w len by (simp add: kv_simps filter_empty_conv)
qed

end
