(* ===== verification/Spec2Isabelle.thy ===== *)
theory Spec2Isabelle
  imports Client_Resolver Tenant_Handler Consent_Handler RL_Requests RL_Lockout RL_Admin RL_Middleware
    Evidence_Handler Audit_Publishers Audit_Pipeline
begin

text \<open>
  Credo is an identity and authorization service written in Go. Users authorize OAuth clients of tenants
  and get tokens; they grant consents; under these consents the service looks citizens up in registries,
  issues credentials and decides on requests; every decision of weight leaves an audit event; a rate
  limiter stands in front. This development models the domain logic of the service and proves the
  properties its parts rely on. Paths below are relative to \<^verbatim>\<open>src/\<close>.

  \<^bold>\<open>Parts and theories.\<close>

  \<^item> \<^emph>\<open>Foundations.\<close> \<open>Prelude\<close> has time, association lists for Go maps, and string routines; \<open>Domain\<close> the
    kernel of \<^verbatim>\<open>pkg/domain\<close>, \<^verbatim>\<open>pkg/domain-errors\<close> and \<^verbatim>\<open>pkg/platform\<close>; \<open>Calendar\<close> dates in UTC and
    \<^verbatim>\<open>pkg/domain/age.go\<close>; \<open>Http\<close> the helpers of \<^verbatim>\<open>pkg/platform/httputil\<close>; \<open>Circuit\<close> both circuit breakers.
    \<open>Stores\<close> has the locale \<open>execute_store\<close>, the contract of the atomic \<^verbatim>\<open>Execute\<close> of the stores, and its
    extension \<open>creating_store\<close>; the theories of the stores interpret them.

  \<^item> \<^emph>\<open>Authentication\<close> (\<^verbatim>\<open>internal/auth\<close>). \<open>Auth_Models\<close> and \<open>Auth_Requests\<close> have entities and requests,
    \<open>Auth_Stores\<close> the in-memory stores and the revocation list, \<open>Auth_Service\<close> and \<open>Auth_Sessions\<close> the
    operations of the service. \<open>Auth_System\<close> is the service as a transition system, in which the
    transaction of an exchange and the writes of a revocation are steps of their own, so that requests interleave; over its runs it shows
    the invariant of all stores, single use of codes and refresh tokens, and that a replayed code ends
    its session for good. \<open>Auth_Properties\<close> has what single operations promise.

  \<^item> \<^emph>\<open>Consent\<close> (\<^verbatim>\<open>internal/consent\<close>). \<open>Consent_Store\<close>, \<open>Consent\<close> and \<open>Consent_Handler\<close> have the record and
    its store, the service and the endpoints. \<open>Consent_Properties\<close> states a grant and a revocation on the
    record of one scope and shows that the service implements them, that requests of different users
    commute, and when the gate \<^verbatim>\<open>Require\<close> passes.

  \<^item> \<^emph>\<open>Tenants and clients\<close> (\<^verbatim>\<open>internal/tenant\<close>, \<^verbatim>\<open>internal/auth/adapters\<close>). \<open>Tenant_Models\<close>, \<open>Tenant_Service\<close>
    and \<open>Tenant_Handler\<close> have aggregates, stores, service and endpoints; \<open>Tenant_Registry\<close> the invariant of
    the registry and the secrets of clients. \<open>Client_Resolver\<close> composes the tenant service, through
    adapter, cache and breaker, with the authentication service: a suspended tenant gets no more tokens
    once the lifetime of the cache is over.

  \<^item> \<^emph>\<open>Rate limiting\<close> (\<^verbatim>\<open>internal/ratelimit\<close>). \<open>RL_Models\<close> has keys, limits and the backoff at 64 bits,
    \<open>RL_Bucket\<close> the circular buffer and the sharded store (locale \<open>rate_limiter\<close>), \<open>RL_Services\<close> and
    \<open>RL_Requests\<close> the limits per address, user and client, \<open>RL_Lockout\<close> lockouts after failed logins,
    \<open>RL_Throttle\<close> the lock-free counters with every interleaving of their atomic accesses, \<open>RL_Middleware\<close>
    what a request meets, \<open>RL_Admin\<close> administration and quotas.

  \<^item> \<^emph>\<open>Evidence registry\<close> (\<^verbatim>\<open>internal/evidence/registry\<close>). \<open>Reg_Models\<close> has aggregates, providers and
    conversion, \<open>Reg_Cache\<close> the cache of a hash map and a linked list with the refinement to a list of
    recent entries, \<open>Reg_Orchestrator\<close> retries, fallback and the other strategies, with the filters of a
    lookup handed to the providers. \<open>Reg_Service\<close> composes them with the consent service and the compliance
    publisher; \<open>evidence_at\<close> is what a lookup says about a national id, and the theorems on credentials and
    decisions refer to it.

  \<^item> \<^emph>\<open>Credentials and decisions\<close> (\<^verbatim>\<open>internal/evidence/vc\<close>, \<^verbatim>\<open>internal/decision\<close>). \<open>VC\<close> and \<open>Decision\<close> are
    composed with the models of the services they call, so that their theorems reach from a request to
    consents, providers, credentials and audit events; the goroutines of a decision interleave call by call.
    \<open>Evidence_Handler\<close> adds the endpoints of the three.

  \<^item> \<^emph>\<open>Audit\<close> (\<^verbatim>\<open>pkg/platform/audit\<close>, \<^verbatim>\<open>internal/platform/kafka/consumer\<close>). \<open>Audit_Events\<close> has event types, the
    in-memory store and the compliance publisher; \<open>Audit_Publishers\<close> the ring buffer (locale
    \<open>bounded_queue\<close>), the security and the operational publisher; \<open>Audit_Pipeline\<close> outbox table, worker
    and consumer as a step relation with failures, repeated messages and restarts.

  \<^bold>\<open>Correspondence.\<close> A struct is a record, an enumeration a datatype (a string where the code lets other
  values in), an operation a function from state and arguments to the new state and its result, under the
  name it has in Go with the type in front where names clash. A returned error is a value of \<open>go_error\<close>,
  with the chain that \<^verbatim>\<open>errors.Is\<close> and \<^verbatim>\<open>errors.As\<close> walk. An operation under a mutex is one step; an operation of a
  service is one step as well, except where its theory says that it interleaves. Readings of
  the clock, random text and new identifiers are arguments; \<^verbatim>\<open>range\<close> over a map is an arbitrary order where
  it matters. What is not in the repository is a parameter: the parser and the text of UUIDs, bcrypt,
  SHA-256, signing of tokens, the user agent parser, HTTP providers, the broker and the database. Where a
  theorem relies on such code, that is a hypothesis with a name, as \<open>uuid_round_trip\<close>, and its witness
  has an instance.

  \<^bold>\<open>Bounds.\<close> All functions are total but the drain of the security publisher, which is a
  \<^theory_text>\<open>partial_function\<close> and is shown to end. The loops of the throttle are steps of a machine, which a
  goroutine left alone leaves within ten. Retry loops recurse on the attempts left, as counted by the
  code. Integers are unbounded but where their width shows: the backoff, hashes, and the limit of a query.
  Times are integers of nanoseconds and do not wrap.

  \<^bold>\<open>Not modelled.\<close> SQL and Redis stores, except the tables of the audit pipeline: they implement interfaces
  whose in-memory implementations are modelled. The HTTP endpoints of authentication and of administration
  statistics, routing, and the text of JSON. Tokens as JWTs. Metrics other than the counters the services
  decide on or report, logs, spans, tickers and timeouts: a tick is a step. The weighted average of the
  correlation rules, which is floating-point arithmetic, and health probes. Wiring in \<^verbatim>\<open>cmd/\<close>,
  configuration, seed data, mocks and the front end.
\<close>

end
